(* ===== verification/Prelude.thy ===== *)
theory Prelude
  imports Main "HOL-Library.Word" "HOL-Library.Monad_Syntax"
begin

text \<open>
  Shared vocabulary of the development: the machine integer types of the firmware,
  byte-addressed memories with block transfers (EEPROM, disk image files), block
  updates of byte buffers (\<open>memcpy\<close>, \<open>memset\<close>), bitmaps kept as byte arrays, and the
  facts about them that the component proofs use.  A value \<open>None\<close> of an option-valued
  operation stands for a C access outside an object (undefined behaviour) or for a loop
  that runs out of the stated iteration bound; the components prove it away.
\<close>

unbundle bit_operations_syntax

section \<open>Types\<close>

type_synonym u8 = "8 word"
type_synonym u16 = "16 word"
type_synonym u32 = "32 word"
type_synonym mem = "nat \<Rightarrow> u8"

named_theorems block_simps
named_theorems bitmap_simps

section \<open>Words\<close>

lemma u8_lt_256 [simp]: "unat (x :: u8) < 256"
  using unsigned_less [of x, where 'a = nat] by simp

lemma u8_eq_iff: "((x :: u8) = y) \<longleftrightarrow> unat x = unat y"
  by (rule word_unat_eq_iff)

lemma unat_of_nat_u8: "n < 256 \<Longrightarrow> unat (of_nat n :: u8) = n"
  by (simp add: unat_of_nat)

lemma unat_of_nat_u16: "n < 65536 \<Longrightarrow> unat (of_nat n :: u16) = n"
  by (simp add: unat_of_nat)

lemma unat_Suc_u8: "unat (x :: u8) < 255 \<Longrightarrow> unat (x + 1) = Suc (unat x)"
  by (simp add: unat_word_ariths)

lemma unat_add_u16:
  "unat (a :: u16) + unat b < 65536 \<Longrightarrow> unat (a + b) = unat a + unat b"
  by (simp add: unat_word_ariths)

lemma unat_diff_u16: "unat (b :: u16) \<le> unat a \<Longrightarrow> unat (a - b) = unat a - unat b"
  by (simp add: unat_sub word_le_nat_alt)

lemma unat_ucast_u8_u16 [simp]: "unat (ucast (x :: u8) :: u16) = unat x"
  by (simp add: unsigned_ucast_eq take_bit_nat_eq_self_iff order_less_trans [OF u8_lt_256])

lemma unat_ucast_u16_u8: "unat (ucast (x :: u16) :: u8) = unat x mod 256"
  by (simp add: unsigned_ucast_eq take_bit_eq_mod)

section \<open>Lists of small numbers\<close>

lemma distinct_full:
  assumes "distinct xs" "set xs \<subseteq> {..<n}" "n \<le> length xs"
  shows "set xs = {..<n}"
proof -
  have "card (set xs) = length xs" using assms(1) by (rule distinct_card)
  then show ?thesis
    using assms(2,3) by (intro card_seteq) auto
qed

lemma distinct_bound: "distinct xs \<Longrightarrow> set xs \<subseteq> {..<n} \<Longrightarrow> length xs \<le> n"
  using card_mono [of "{..<n}" "set xs"] by (simp add: distinct_card)

section \<open>Memory blocks\<close>

definition read_block :: "mem \<Rightarrow> nat \<Rightarrow> nat \<Rightarrow> u8 list" where
  "read_block m a n = map (\<lambda>i. m (a + i)) [0..<n]"

definition write_block :: "mem \<Rightarrow> nat \<Rightarrow> u8 list \<Rightarrow> mem" where
  "write_block m a bs = (\<lambda>x. if a \<le> x \<and> x < a + length bs then bs ! (x - a) else m x)"

lemma length_read_block [simp]: "length (read_block m a n) = n"
  by (simp add: read_block_def)

lemma nth_read_block [block_simps]: "i < n \<Longrightarrow> read_block m a n ! i = m (a + i)"
  by (simp add: read_block_def)

lemma read_block_0 [simp]: "read_block m a 0 = []"
  by (simp add: read_block_def)

lemma write_block_Nil [simp]: "write_block m a [] = m"
  by (auto simp: write_block_def fun_eq_iff)

lemma write_block_apply [block_simps]:
  "write_block m a bs x = (if a \<le> x \<and> x < a + length bs then bs ! (x - a) else m x)"
  by (simp add: write_block_def)

lemma read_write_same [block_simps]:
  "n = length bs \<Longrightarrow> read_block (write_block m a bs) a n = bs"
  by (auto simp: list_eq_iff_nth_eq block_simps)

lemma read_write_disjoint [block_simps]:
  "b + n \<le> a \<or> a + length bs \<le> b \<Longrightarrow>
   read_block (write_block m a bs) b n = read_block m b n"
  by (auto simp: list_eq_iff_nth_eq block_simps)

lemma write_read_id [simp]: "write_block m a (read_block m a n) = m"
  by (auto simp: fun_eq_iff block_simps)

lemma write_block_append:
  "write_block (write_block m a xs) (a + length xs) ys = write_block m a (xs @ ys)"
  by (auto simp: fun_eq_iff block_simps nth_append)

lemma read_block_append: "read_block m a (i + j) = read_block m a i @ read_block m (a + i) j"
  by (auto simp: list_eq_iff_nth_eq block_simps nth_append)

lemma take_read_block: "take k (read_block m a n) = read_block m a (min k n)"
  by (auto simp: list_eq_iff_nth_eq block_simps)

lemma drop_read_block: "drop k (read_block m a n) = read_block m (a + k) (n - k)"
  by (auto simp: list_eq_iff_nth_eq block_simps add.assoc)

lemma read_block_cong:
  "(\<And>i. i < n \<Longrightarrow> m (a + i) = m' (a + i)) \<Longrightarrow> read_block m a n = read_block m' a n"
  by (auto simp: list_eq_iff_nth_eq block_simps)

section \<open>Block updates of buffers\<close>

text \<open>\<open>put_at i bs xs\<close> is \<open>memcpy(xs + i, bs, length bs)\<close> for a block that fits.\<close>

definition put_at :: "nat \<Rightarrow> 'a list \<Rightarrow> 'a list \<Rightarrow> 'a list" where
  "put_at i bs xs = take i xs @ bs @ drop (i + length bs) xs"

lemma length_put_at [simp]: "i + length bs \<le> length xs \<Longrightarrow> length (put_at i bs xs) = length xs"
  by (simp add: put_at_def)

lemma nth_put_at [block_simps]:
  "i + length bs \<le> length xs \<Longrightarrow>
   j < length xs \<Longrightarrow>
   put_at i bs xs ! j = (if i \<le> j \<and> j < i + length bs then bs ! (j - i) else xs ! j)"
  by (auto simp: put_at_def nth_append min_def)

lemma take_put_at_0 [block_simps]: "n = length bs \<Longrightarrow> take n (put_at 0 bs xs) = bs"
  by (simp add: put_at_def)

section \<open>Bitmaps in byte arrays\<close>

definition bm_get :: "u8 list \<Rightarrow> nat \<Rightarrow> bool" where
  "bm_get bm i = ((bm ! (i div 8)) AND push_bit (i mod 8) 1 \<noteq> 0)"

definition bm_set :: "u8 list \<Rightarrow> nat \<Rightarrow> bool \<Rightarrow> u8 list" where
  "bm_set bm i st =
     bm[i div 8 := (if st then bm ! (i div 8) OR push_bit (i mod 8) 1
                    else bm ! (i div 8) AND NOT (push_bit (i mod 8) 1))]"

lemma and_pow2_neq_0: "k < 8 \<Longrightarrow> (w :: u8) AND 2 ^ k \<noteq> 0 \<longleftrightarrow> bit w k"
  by (simp add: bit_iff_and_push_bit_not_eq_0)

lemma bm_get_bit: "bm_get bm i \<longleftrightarrow> bit (bm ! (i div 8)) (i mod 8)"
  by (simp add: bm_get_def and_pow2_neq_0)

lemma length_bm_set [simp]: "length (bm_set bm i st) = length bm"
  by (simp add: bm_set_def)

lemma bit_or_pow2: "k < 8 \<Longrightarrow> bit ((w :: u8) OR 2 ^ k) j \<longleftrightarrow> bit w j \<or> j = k"
  by (auto simp: bit_simps)

lemma bit_and_not_pow2: "bit ((w :: u8) AND NOT (2 ^ k)) j \<longleftrightarrow> bit w j \<and> j \<noteq> k"
  by (auto simp: bit_simps dest: bit_imp_le_length)

lemma bm_get_set [bitmap_simps]:
  assumes "i div 8 < length bm" "j div 8 < length bm"
  shows "bm_get (bm_set bm i st) j = (if i = j then st else bm_get bm j)"
proof (cases "i div 8 = j div 8")
  case True
  then have "i mod 8 = j mod 8 \<longleftrightarrow> i = j"
    by (metis div_mult_mod_eq)
  then show ?thesis
    using assms True
    by (auto simp: bm_get_bit bm_set_def bit_or_pow2 bit_and_not_pow2)
next
  case False
  then show ?thesis using assms
    by (auto simp: bm_get_bit bm_set_def)
qed

lemma bm_get_replicate_0 [bitmap_simps]: "i div 8 < n \<Longrightarrow> \<not> bm_get (replicate n 0) i"
  by (simp add: bm_get_bit)

section \<open>Characters and C strings\<close>

text \<open>
  A C string is the list of its bytes before the terminating zero; \<open>cstr\<close> cuts a byte
  array at its first zero byte.
\<close>

definition asc :: "char \<Rightarrow> u8" where [simp]: "asc c = of_char c"

definition str :: "string \<Rightarrow> u8 list" where [simp]: "str cs = map of_char cs"

definition cstr :: "u8 list \<Rightarrow> u8 list" where
  "cstr bs = takeWhile (\<lambda>b. b \<noteq> 0) bs"

text \<open>The byte a pointer at offset \<open>i\<close> of a C string reads; the terminator follows the last byte.\<close>

definition cchar :: "u8 list \<Rightarrow> nat \<Rightarrow> u8" where
  "cchar s i = (if i < length s then s ! i else 0)"

definition c_isdigit :: "u8 \<Rightarrow> bool" where
  "c_isdigit c \<longleftrightarrow> asc CHR ''0'' \<le> c \<and> c \<le> asc CHR ''9''"

definition c_toupper :: "u8 \<Rightarrow> u8" where
  "c_toupper c = (if asc CHR ''a'' \<le> c \<and> c \<le> asc CHR ''z'' then c - 32 else c)"

lemma cstr_no_nul: "0 \<notin> set bs \<Longrightarrow> cstr bs = bs"
  by (auto simp: cstr_def takeWhile_eq_all_conv)

lemma nul_notin_cstr: "0 \<notin> set (cstr bs)"
  by (auto simp: cstr_def dest: set_takeWhileD)

lemma cstr_append_nul: "0 \<notin> set bs \<Longrightarrow> cstr (bs @ 0 # r) = bs"
  by (auto simp: cstr_def takeWhile_append)

end
