(* ===== verification/Eepromfs.thy ===== *)
theory Eepromfs
  imports Prelude
begin

text \<open>
  The EEPROM file system, \<^verbatim>\<open>src/src/eeprom-fs.c\<close> and \<^verbatim>\<open>eeprom-fs.h\<close>, for the AVR
  layout of \<^verbatim>\<open>src/src/avr/arch-config.h\<close>: 8 directory entries of 32 bytes at offset
  512 of the 4096-byte EEPROM, followed by 52 data sectors of 64 bytes.  The globals of
  the file are the fields of \<open>eefs_state\<close>; the 33-byte scratch buffer the C code overlays
  with \<open>nameentry_t\<close> and \<open>listentry_t\<close> is kept as bytes, and the struct fields are byte
  offsets into it (little-endian, as on the AVR).  Assertions are compiled out
  (\<open>NDEBUG\<close> is defined unless \<open>CONFIG_ASSERTIONS\<close> is set) and have no effect here either.
\<close>

section \<open>Constants and data\<close>

definition EEPROM_SIZE :: nat where [simp]: "EEPROM_SIZE = 4096"
definition EEPROMFS_OFFSET :: nat where [simp]: "EEPROMFS_OFFSET = 512"
definition EEPROMFS_SIZE :: nat where [simp]: "EEPROMFS_SIZE = 3584"
definition EEPROMFS_ENTRIES :: nat where [simp]: "EEPROMFS_ENTRIES = 8"
definition EEPROMFS_SECTORSIZE :: nat where [simp]: "EEPROMFS_SECTORSIZE = 64"
definition EEFS_NAME_LENGTH :: nat where [simp]: "EEFS_NAME_LENGTH = 16"
definition sizeof_entry :: nat where [simp]: "sizeof_entry = 32"

definition DATA_OFFSET :: nat where
  "DATA_OFFSET = EEPROMFS_OFFSET + EEPROMFS_ENTRIES * sizeof_entry"

definition SECTOR_COUNT :: nat where
  "SECTOR_COUNT = (EEPROMFS_SIZE - EEPROMFS_ENTRIES * sizeof_entry) div EEPROMFS_SECTORSIZE"

lemma DATA_OFFSET_val [simp]: "DATA_OFFSET = 768"
  by (simp add: DATA_OFFSET_def)

lemma SECTOR_COUNT_val [simp]: "SECTOR_COUNT = 52"
  by (simp add: SECTOR_COUNT_def)

definition SECTOR_FREE :: u8 where [simp]: "SECTOR_FREE = 0xff"
definition EEFS_FLAG_DELETED :: u8 where [simp]: "EEFS_FLAG_DELETED = 1"
definition EEFS_FLAG_LISTENTRY :: u8 where [simp]: "EEFS_FLAG_LISTENTRY = 2"

definition EEFS_MODE_READ :: u8 where [simp]: "EEFS_MODE_READ = 0"
definition EEFS_MODE_WRITE :: u8 where [simp]: "EEFS_MODE_WRITE = 1"
definition EEFS_MODE_APPEND :: u8 where [simp]: "EEFS_MODE_APPEND = 2"

datatype eefs_error =
    EEFS_ERROR_OK | EEFS_ERROR_FILENOTFOUND | EEFS_ERROR_FILEEXISTS
  | EEFS_ERROR_DIRFULL | EEFS_ERROR_DISKFULL | EEFS_ERROR_INVALID
  | EEFS_ERROR_UNIMPLEMENTED

record eefs_state =
  ops_scratch :: "u8 list"
  eeprom :: mem
  used_sectors :: "u8 list"
  used_entries :: "u8 list"
  free_sectors :: u8

record eefs_fh =
  fh_size :: u16
  fh_cur_offset :: u16
  fh_entry :: u8
  fh_cur_sector :: u8
  fh_cur_soffset :: u8
  fh_cur_entry :: u8
  fh_cur_sindex :: u8
  fh_filemode :: u8

record eefs_dirent =
  de_size :: u16
  de_name :: "u8 list"
  de_flags :: u8

text \<open>The fields of a directory entry held in a byte buffer.\<close>

definition ent_name :: "u8 list \<Rightarrow> u8 list" where
  "ent_name e = take EEFS_NAME_LENGTH (drop 12 e)"

definition ent_size :: "u8 list \<Rightarrow> u16" where
  "ent_size e = ucast (e ! 28) OR push_bit 8 (ucast (e ! 29))"

definition ent_flags :: "u8 list \<Rightarrow> u8" where
  "ent_flags e = e ! 30"

definition ent_next :: "u8 list \<Rightarrow> u8" where
  "ent_next e = e ! 31"

definition set_ent_size :: "u16 \<Rightarrow> u8 list \<Rightarrow> u8 list" where
  "set_ent_size n e = put_at 28 [ucast n, ucast (drop_bit 8 n)] e"

section \<open>EEPROM access\<close>

definition eeprom_read_block :: "mem \<Rightarrow> nat \<Rightarrow> nat \<Rightarrow> u8 list option" where
  "eeprom_read_block m a n = (if a + n \<le> EEPROM_SIZE then Some (read_block m a n) else None)"

definition eeprom_write_block :: "mem \<Rightarrow> nat \<Rightarrow> u8 list \<Rightarrow> mem option" where
  "eeprom_write_block m a bs =
     (if a + length bs \<le> EEPROM_SIZE then Some (write_block m a bs) else None)"

section \<open>Utility functions\<close>

definition ee_set_bit :: "u8 list \<Rightarrow> u8 \<Rightarrow> bool \<Rightarrow> u8 list option" where
  "ee_set_bit bitmap b st =
     (if unat b div 8 < length bitmap then Some (bm_set bitmap (unat b) st) else None)"

definition ee_get_bit :: "u8 list \<Rightarrow> u8 \<Rightarrow> bool option" where
  "ee_get_bit bitmap b =
     (if unat b div 8 < length bitmap then Some (bm_get bitmap (unat b)) else None)"

definition entry_addr :: "u8 \<Rightarrow> nat" where
  "entry_addr index = EEPROMFS_OFFSET + sizeof_entry * unat index"

definition ee_read_entry :: "u8 \<Rightarrow> 'a eefs_state_scheme \<Rightarrow> 'a eefs_state_scheme option" where
  "ee_read_entry index s = do {
     bs \<leftarrow> eeprom_read_block (eeprom s) (entry_addr index) sizeof_entry;
     Some (s\<lparr>ops_scratch := put_at 0 bs (ops_scratch s)\<rparr>) }"

text \<open>
  \<open>write_entry\<close> with \<open>EEPROMFS_MINIMIZE_WRITES\<close>: the loop scans the entry for runs of
  bytes that differ from the EEPROM contents and writes each run when it ends.
\<close>

fun ee_write_entry_loop ::
  "u8 list \<Rightarrow> u8 list \<Rightarrow> nat \<Rightarrow> nat list \<Rightarrow> bool \<Rightarrow> nat \<Rightarrow> mem \<Rightarrow> (bool \<times> nat \<times> mem) option" where
  "ee_write_entry_loop buf orig base [] cur_nonmatching nonmatch_start m =
     Some (cur_nonmatching, nonmatch_start, m)"
| "ee_write_entry_loop buf orig base (i # is) cur_nonmatching nonmatch_start m =
     (if cur_nonmatching then
        if buf ! i = orig ! i then do {
          m' \<leftarrow> eeprom_write_block m (base + nonmatch_start)
                  (take (i - nonmatch_start) (drop nonmatch_start buf));
          ee_write_entry_loop buf orig base is False nonmatch_start m' }
        else ee_write_entry_loop buf orig base is True nonmatch_start m
      else
        if buf ! i \<noteq> orig ! i then ee_write_entry_loop buf orig base is True i m
        else ee_write_entry_loop buf orig base is False nonmatch_start m)"

definition ee_write_entry :: "u8 \<Rightarrow> 'a eefs_state_scheme \<Rightarrow> 'a eefs_state_scheme option" where
  "ee_write_entry index s = do {
     orig \<leftarrow> eeprom_read_block (eeprom s) (entry_addr index) sizeof_entry;
     (nonmatching, start, m) \<leftarrow> ee_write_entry_loop (ops_scratch s) orig (entry_addr index)
                                  [0..<sizeof_entry] False 0 (eeprom s);
     m \<leftarrow> (if nonmatching
           then eeprom_write_block m (entry_addr index + start)
                  (take (sizeof_entry - start) (drop start (ops_scratch s)))
           else Some m);
     Some (s\<lparr>eeprom := m\<rparr>) }"

definition curentry_is_listentry :: "'a eefs_state_scheme \<Rightarrow> bool" where
  "curentry_is_listentry s = (ent_flags (ops_scratch s) AND EEFS_FLAG_LISTENTRY \<noteq> 0)"

definition curentry_max_sectors :: "'a eefs_state_scheme \<Rightarrow> nat" where
  "curentry_max_sectors s = (if curentry_is_listentry s then 30 else 12)"

definition mark_sector ::
  "u8 \<Rightarrow> bool \<Rightarrow> 'a eefs_state_scheme \<Rightarrow> 'a eefs_state_scheme option" where
  "mark_sector sector used s = do {
     bm \<leftarrow> ee_set_bit (used_sectors s) sector used;
     Some (s\<lparr>used_sectors := bm,
             free_sectors := (if used then free_sectors s - 1 else free_sectors s + 1)\<rparr>) }"

text \<open>
  The two searches for a clear bit share their loop; the index is an 8-bit counter, so
  256 rounds are more than the loop can take without returning to its start.
\<close>

fun next_free_loop :: "nat \<Rightarrow> u8 list \<Rightarrow> nat \<Rightarrow> u8 \<Rightarrow> u8 \<Rightarrow> u8 option" where
  "next_free_loop 0 bitmap limit start cur = None"
| "next_free_loop (Suc n) bitmap limit start cur = do {
     used \<leftarrow> ee_get_bit bitmap cur;
     (if used then
        (let cur1 = cur + 1;
             cur2 = (if unat cur1 = limit then 0 else cur1)
         in if cur2 = start then Some 0xff
            else next_free_loop n bitmap limit start cur2)
      else Some cur) }"

definition next_free_sector :: "u8 \<Rightarrow> 'a eefs_state_scheme \<Rightarrow> u8 option" where
  "next_free_sector start s = next_free_loop 256 (used_sectors s) SECTOR_COUNT start start"

fun find_entry_loop ::
  "nat list \<Rightarrow> u8 list \<Rightarrow> 'a eefs_state_scheme \<Rightarrow> (u8 \<times> 'a eefs_state_scheme) option" where
  "find_entry_loop [] name s = Some (0xff, s)"
| "find_entry_loop (idx # is) name s = do {
     s \<leftarrow> ee_read_entry (of_nat idx) s;
     (if ent_flags (ops_scratch s) AND (EEFS_FLAG_DELETED OR EEFS_FLAG_LISTENTRY) \<noteq> 0
      then find_entry_loop is name s
      else if ent_name (ops_scratch s) = take EEFS_NAME_LENGTH name
      then Some (of_nat idx, s)
      else find_entry_loop is name s) }"

definition find_entry ::
  "u8 list \<Rightarrow> 'a eefs_state_scheme \<Rightarrow> (u8 \<times> 'a eefs_state_scheme) option" where
  "find_entry name s = find_entry_loop [0..<EEPROMFS_ENTRIES] name s"

definition next_free_entry ::
  "u8 \<Rightarrow> 'a eefs_state_scheme \<Rightarrow> (u8 \<times> 'a eefs_state_scheme) option" where
  "next_free_entry start s = do {
     cur \<leftarrow> next_free_loop 256 (used_entries s) EEPROMFS_ENTRIES start start;
     (if cur = 0xff then Some (0xff, s)
      else do {
        bm \<leftarrow> ee_set_bit (used_entries s) cur True;
        Some (cur, s\<lparr>used_entries := bm\<rparr>) }) }"

section \<open>Initialisation and formatting\<close>

fun eepromfs_init_sectors ::
  "nat list \<Rightarrow> 'a eefs_state_scheme \<Rightarrow> 'a eefs_state_scheme option" where
  "eepromfs_init_sectors [] s = Some s"
| "eepromfs_init_sectors (j # js) s =
     (if ops_scratch s ! j \<noteq> SECTOR_FREE
      then do { s \<leftarrow> mark_sector (ops_scratch s ! j) True s; eepromfs_init_sectors js s }
      else eepromfs_init_sectors js s)"

fun eepromfs_init_loop ::
  "nat list \<Rightarrow> 'a eefs_state_scheme \<Rightarrow> 'a eefs_state_scheme option" where
  "eepromfs_init_loop [] s = Some s"
| "eepromfs_init_loop (i # is) s = do {
     s \<leftarrow> ee_read_entry (of_nat i) s;
     (if ent_flags (ops_scratch s) AND EEFS_FLAG_DELETED = 0 then do {
        bm \<leftarrow> ee_set_bit (used_entries s) (of_nat i) True;
        s \<leftarrow> eepromfs_init_sectors [0..<curentry_max_sectors s] (s\<lparr>used_entries := bm\<rparr>);
        eepromfs_init_loop is s }
      else eepromfs_init_loop is s) }"

definition eepromfs_init :: "'a eefs_state_scheme \<Rightarrow> 'a eefs_state_scheme option" where
  "eepromfs_init s =
     eepromfs_init_loop [0..<EEPROMFS_ENTRIES]
       (s\<lparr>free_sectors := of_nat SECTOR_COUNT,
          used_sectors := replicate ((SECTOR_COUNT + 7) div 8) 0,
          used_entries := replicate ((EEPROMFS_ENTRIES + 7) div 8) 0\<rparr>)"

text \<open>The format loop advances a \<open>uint32_t\<close> pointer: four bytes at a time.\<close>

fun eepromfs_format_loop :: "nat list \<Rightarrow> mem \<Rightarrow> mem option" where
  "eepromfs_format_loop [] m = Some m"
| "eepromfs_format_loop (k # ks) m = do {
     val \<leftarrow> eeprom_read_block m (EEPROMFS_OFFSET + 4 * k) 4;
     (if val \<noteq> [0xff, 0xff, 0xff, 0xff] then do {
        m \<leftarrow> eeprom_write_block m (EEPROMFS_OFFSET + 4 * k) [0xff, 0xff, 0xff, 0xff];
        eepromfs_format_loop ks m }
      else eepromfs_format_loop ks m) }"

definition eepromfs_format :: "'a eefs_state_scheme \<Rightarrow> 'a eefs_state_scheme option" where
  "eepromfs_format s = do {
     m \<leftarrow> eepromfs_format_loop [0..<EEPROMFS_SIZE div 4] (eeprom s);
     eepromfs_init (s\<lparr>eeprom := m\<rparr>) }"

definition eepromfs_free_sectors :: "'a eefs_state_scheme \<Rightarrow> u8" where
  "eepromfs_free_sectors s = free_sectors s"

section \<open>Directory reading\<close>

definition eepromfs_opendir :: nat where
  "eepromfs_opendir = 0"

text \<open>\<open>dh\<close> is the entry counter of the directory handle; the loop is bounded by it.\<close>

function eepromfs_readdir ::
  "nat \<Rightarrow> 'a eefs_state_scheme \<Rightarrow> (nat \<times> eefs_dirent option \<times> 'a eefs_state_scheme) option" where
  "eepromfs_readdir dh s =
     (if dh < EEPROMFS_ENTRIES then do {
        s \<leftarrow> ee_read_entry (of_nat dh) s;
        (if ent_flags (ops_scratch s) AND EEFS_FLAG_DELETED \<noteq> 0 \<or> curentry_is_listentry s
         then eepromfs_readdir (Suc dh) s
         else Some (Suc dh,
                    Some \<lparr>de_size = ent_size (ops_scratch s),
                          de_name = ent_name (ops_scratch s),
                          de_flags = ent_flags (ops_scratch s)\<rparr>, s)) }
      else Some (dh, None, s))"
  by pat_completeness auto
termination
  by (relation "measure (\<lambda>(dh, s). EEPROMFS_ENTRIES - dh)") auto

declare eepromfs_readdir.simps [simp del]

section \<open>Opening files\<close>

definition fh_zero :: eefs_fh where
  "fh_zero = \<lparr>fh_size = 0, fh_cur_offset = 0, fh_entry = 0, fh_cur_sector = 0,
              fh_cur_soffset = 0, fh_cur_entry = 0, fh_cur_sindex = 0, fh_filemode = 0\<rparr>"

text \<open>The bytes of a fresh name entry: all \<open>0xff\<close>, then name, size and flags.\<close>

definition new_nameentry :: "u8 list \<Rightarrow> u8 list \<Rightarrow> u8 list" where
  "new_nameentry name scratch =
     (set_ent_size 0 (put_at 12 (take EEFS_NAME_LENGTH name)
        (put_at 0 (replicate sizeof_entry 0xff) scratch)))[30 := 0]"

text \<open>
  The walk to the last entry of a chain, for append.  A chain that does not end within
  256 links is cyclic, and the C loop does not return.
\<close>

fun last_entry_loop ::
  "nat \<Rightarrow> u8 \<Rightarrow> 'a eefs_state_scheme \<Rightarrow> (u8 \<times> 'a eefs_state_scheme) option" where
  "last_entry_loop 0 diridx s = None"
| "last_entry_loop (Suc n) diridx s =
     (if ent_next (ops_scratch s) \<noteq> 0xff then do {
        let diridx = ent_next (ops_scratch s);
        s \<leftarrow> ee_read_entry diridx s;
        last_entry_loop n diridx s }
      else Some (diridx, s))"

fun last_sector_loop :: "u8 list \<Rightarrow> nat list \<Rightarrow> nat \<Rightarrow> nat" where
  "last_sector_loop e [] sectoridx = sectoridx"
| "last_sector_loop e (i # is) sectoridx =
     (if e ! i = SECTOR_FREE then sectoridx else last_sector_loop e is i)"

definition eepromfs_open ::
  "u8 list \<Rightarrow> u8 \<Rightarrow> 'a eefs_state_scheme \<Rightarrow>
   (eefs_error \<times> eefs_fh \<times> 'a eefs_state_scheme) option" where
  "eepromfs_open name flags s = do {
     (diridx, s) \<leftarrow> find_entry name s;
     (if flags = EEFS_MODE_WRITE then
        if diridx \<noteq> 0xff then Some (EEFS_ERROR_FILEEXISTS, fh_zero, s)
        else do {
          (e, s) \<leftarrow> next_free_entry 0 s;
          (if e = 0xff then Some (EEFS_ERROR_DIRFULL, fh_zero\<lparr>fh_entry := e\<rparr>, s)
           else do {
             s \<leftarrow> ee_write_entry e (s\<lparr>ops_scratch := new_nameentry name (ops_scratch s)\<rparr>);
             Some (EEFS_ERROR_OK,
                   fh_zero\<lparr>fh_entry := e, fh_cur_entry := e, fh_cur_sindex := - 1,
                           fh_filemode := EEFS_MODE_WRITE\<rparr>, s) }) }
      else if diridx = 0xff then Some (EEFS_ERROR_FILENOTFOUND, fh_zero, s)
      else do {
        let fh = fh_zero\<lparr>fh_entry := diridx, fh_size := ent_size (ops_scratch s)\<rparr>;
        (if flags = EEFS_MODE_APPEND then do {
           (diridx, s) \<leftarrow> last_entry_loop 256 diridx s;
           let sectoridx = last_sector_loop (ops_scratch s) [0..<curentry_max_sectors s] 0;
           Some (EEFS_ERROR_OK,
                 fh\<lparr>fh_cur_sector := ops_scratch s ! sectoridx,
                    fh_cur_entry := diridx,
                    fh_cur_offset := fh_size fh,
                    fh_cur_soffset := of_nat (unat (fh_size fh) mod EEPROMFS_SECTORSIZE),
                    fh_filemode := EEFS_MODE_WRITE\<rparr>, s) }
         else Some (EEFS_ERROR_OK,
                    fh\<lparr>fh_cur_sector := ops_scratch s ! 0,
                       fh_cur_entry := diridx,
                       fh_filemode := EEFS_MODE_READ\<rparr>, s)) }) }"

section \<open>Writing\<close>

text \<open>The sector allocation at the top of the write loop.\<close>

definition ee_alloc_sector ::
  "eefs_fh \<Rightarrow> 'a eefs_state_scheme \<Rightarrow> (eefs_error \<times> eefs_fh \<times> 'a eefs_state_scheme) option" where
  "ee_alloc_sector fh s = do {
     next_sector \<leftarrow> next_free_sector (fh_cur_sector fh) s;
     (if next_sector = SECTOR_FREE then Some (EEFS_ERROR_DISKFULL, fh, s)
      else do {
        let fh = fh\<lparr>fh_cur_sector := next_sector\<rparr>;
        s \<leftarrow> ee_read_entry (fh_cur_entry fh) s;
        let fh = fh\<lparr>fh_cur_sindex := fh_cur_sindex fh + 1\<rparr>;
        (err, fh, s) \<leftarrow>
          (if curentry_max_sectors s \<le> unat (fh_cur_sindex fh) then do {
             (next_entry, s) \<leftarrow> next_free_entry (fh_cur_entry fh) s;
             (if next_entry = 0xff then Some (EEFS_ERROR_DIRFULL, fh, s)
              else do {
                s \<leftarrow> ee_write_entry (fh_cur_entry fh)
                       (s\<lparr>ops_scratch := (ops_scratch s)[31 := next_entry]\<rparr>);
                Some (EEFS_ERROR_OK,
                      fh\<lparr>fh_cur_entry := next_entry, fh_cur_sindex := 0\<rparr>,
                      s\<lparr>ops_scratch := (put_at 0 (replicate sizeof_entry 0xff)
                                          (ops_scratch s))[30 := EEFS_FLAG_LISTENTRY]\<rparr>) }) }
           else Some (EEFS_ERROR_OK, fh, s));
        (if err \<noteq> EEFS_ERROR_OK then Some (err, fh, s)
         else do {
           s \<leftarrow> mark_sector next_sector True s;
           s \<leftarrow> ee_write_entry (fh_cur_entry fh)
                  (s\<lparr>ops_scratch := (ops_scratch s)[unat (fh_cur_sindex fh) := next_sector]\<rparr>);
           Some (EEFS_ERROR_OK, fh, s) }) }) }"

text \<open>
  The write loop.  \<open>bytes_to_write\<close> is an 8-bit variable holding the 16-bit minimum of
  the remaining length and the room in the sector.
\<close>

definition chunk_size :: "u16 \<Rightarrow> eefs_fh \<Rightarrow> u8" where
  "chunk_size len fh = ucast (min len (of_nat EEPROMFS_SECTORSIZE - ucast (fh_cur_soffset fh)))"

definition sector_addr :: "eefs_fh \<Rightarrow> nat" where
  "sector_addr fh = DATA_OFFSET + EEPROMFS_SECTORSIZE * unat (fh_cur_sector fh)
                    + unat (fh_cur_soffset fh)"

definition adjust_fh :: "u8 \<Rightarrow> eefs_fh \<Rightarrow> eefs_fh" where
  "adjust_fh k fh =
     fh\<lparr>fh_size := fh_size fh + ucast k,
        fh_cur_offset := fh_cur_offset fh + ucast k,
        fh_cur_soffset := of_nat ((unat (fh_cur_soffset fh) + unat k) mod EEPROMFS_SECTORSIZE)\<rparr>"

fun eepromfs_write_loop ::
  "nat \<Rightarrow> eefs_fh \<Rightarrow> u8 list \<Rightarrow> u16 \<Rightarrow> u16 \<Rightarrow> 'a eefs_state_scheme \<Rightarrow>
   (eefs_error \<times> eefs_fh \<times> u16 \<times> 'a eefs_state_scheme) option" where
  "eepromfs_write_loop 0 fh bdata len bytes_written s = None"
| "eepromfs_write_loop (Suc n) fh bdata len bytes_written s =
     (if len = 0 then Some (EEFS_ERROR_OK, fh, bytes_written, s)
      else do {
        (err, fh, s) \<leftarrow> (if fh_cur_soffset fh = 0 then ee_alloc_sector fh s
                         else Some (EEFS_ERROR_OK, fh, s));
        (if err \<noteq> EEFS_ERROR_OK then Some (err, fh, bytes_written, s)
         else do {
           let k = chunk_size len fh;
           m \<leftarrow> eeprom_write_block (eeprom s) (sector_addr fh) (take (unat k) bdata);
           eepromfs_write_loop n (adjust_fh k fh) (drop (unat k) bdata) (len - ucast k)
             (bytes_written + ucast k) (s\<lparr>eeprom := m\<rparr>) }) })"

definition eepromfs_write ::
  "eefs_fh \<Rightarrow> u8 list \<Rightarrow> u16 \<Rightarrow> 'a eefs_state_scheme \<Rightarrow>
   (eefs_error \<times> eefs_fh \<times> u16 \<times> 'a eefs_state_scheme) option" where
  "eepromfs_write fh bdata len s =
     (if fh_filemode fh \<noteq> EEFS_MODE_WRITE then Some (EEFS_ERROR_INVALID, fh, 0, s)
      else if length bdata < unat len then None
      else eepromfs_write_loop (unat len + 1) fh bdata len 0 s)"

section \<open>Reading\<close>

text \<open>The move to the next sector at the end of a read round.\<close>

definition ee_next_sector ::
  "eefs_fh \<Rightarrow> 'a eefs_state_scheme \<Rightarrow> (eefs_fh \<times> 'a eefs_state_scheme) option" where
  "ee_next_sector fh s = do {
     s \<leftarrow> ee_read_entry (fh_cur_entry fh) s;
     let fh = fh\<lparr>fh_cur_sindex := fh_cur_sindex fh + 1\<rparr>;
     (fh, s) \<leftarrow>
       (if curentry_max_sectors s \<le> unat (fh_cur_sindex fh) then do {
          let fh = fh\<lparr>fh_cur_entry := ent_next (ops_scratch s), fh_cur_sindex := 0\<rparr>;
          s \<leftarrow> ee_read_entry (fh_cur_entry fh) s;
          Some (fh, s) }
        else Some (fh, s));
     Some (fh\<lparr>fh_cur_sector := ops_scratch s ! unat (fh_cur_sindex fh)\<rparr>, s) }"

fun eepromfs_read_loop ::
  "nat \<Rightarrow> eefs_fh \<Rightarrow> u8 list \<Rightarrow> u16 \<Rightarrow> 'a eefs_state_scheme \<Rightarrow>
   (eefs_fh \<times> u8 list \<times> 'a eefs_state_scheme) option" where
  "eepromfs_read_loop 0 fh acc len s = None"
| "eepromfs_read_loop (Suc n) fh acc len s =
     (if len = 0 then Some (fh, acc, s)
      else do {
        let k = chunk_size len fh;
        bs \<leftarrow> eeprom_read_block (eeprom s) (sector_addr fh) (unat k);
        let fh = fh\<lparr>fh_cur_offset := fh_cur_offset fh + ucast k,
                    fh_cur_soffset := of_nat ((unat (fh_cur_soffset fh) + unat k)
                                              mod EEPROMFS_SECTORSIZE)\<rparr>;
        (fh, s) \<leftarrow> (if fh_cur_offset fh \<noteq> fh_size fh \<and> fh_cur_soffset fh = 0
                    then ee_next_sector fh s else Some (fh, s));
        eepromfs_read_loop n fh (acc @ bs) (len - ucast k) s })"

text \<open>The bytes delivered are the list; \<open>*bytes_read\<close> is its length.\<close>

definition eepromfs_read ::
  "eefs_fh \<Rightarrow> u16 \<Rightarrow> 'a eefs_state_scheme \<Rightarrow>
   (eefs_error \<times> eefs_fh \<times> u8 list \<times> 'a eefs_state_scheme) option" where
  "eepromfs_read fh len s =
     (if fh_filemode fh \<noteq> EEFS_MODE_READ then Some (EEFS_ERROR_INVALID, fh, [], s)
      else do {
        let len = (if fh_size fh - fh_cur_offset fh < len
                   then fh_size fh - fh_cur_offset fh else len);
        (fh, bs, s) \<leftarrow> eepromfs_read_loop (unat len + 1) fh [] len s;
        Some (EEFS_ERROR_OK, fh, bs, s) })"

section \<open>Close, rename, delete\<close>

definition eepromfs_close ::
  "eefs_fh \<Rightarrow> 'a eefs_state_scheme \<Rightarrow> (eefs_fh \<times> 'a eefs_state_scheme) option" where
  "eepromfs_close fh s = do {
     s \<leftarrow> (if fh_filemode fh \<noteq> EEFS_MODE_READ then do {
             s \<leftarrow> ee_read_entry (fh_entry fh) s;
             ee_write_entry (fh_entry fh)
               (s\<lparr>ops_scratch := set_ent_size (fh_size fh) (ops_scratch s)\<rparr>) }
           else Some s);
     Some (fh\<lparr>fh_filemode := 0\<rparr>, s) }"

definition eepromfs_rename ::
  "u8 list \<Rightarrow> u8 list \<Rightarrow> 'a eefs_state_scheme \<Rightarrow> (eefs_error \<times> 'a eefs_state_scheme) option" where
  "eepromfs_rename oldname newname s = do {
     (diridx, s) \<leftarrow> find_entry newname s;
     (if diridx \<noteq> 0xff then Some (EEFS_ERROR_FILEEXISTS, s)
      else do {
        (diridx, s) \<leftarrow> find_entry oldname s;
        (if diridx = 0xff then Some (EEFS_ERROR_FILENOTFOUND, s)
         else do {
           s \<leftarrow> ee_write_entry diridx
                  (s\<lparr>ops_scratch := put_at 12 (take EEFS_NAME_LENGTH newname) (ops_scratch s)\<rparr>);
           Some (EEFS_ERROR_OK, s) }) }) }"

fun delete_sectors ::
  "nat list \<Rightarrow> 'a eefs_state_scheme \<Rightarrow> 'a eefs_state_scheme option" where
  "delete_sectors [] s = Some s"
| "delete_sectors (i # is) s =
     (if ops_scratch s ! i = SECTOR_FREE then Some s
      else do { s \<leftarrow> mark_sector (ops_scratch s ! i) False s; delete_sectors is s })"

text \<open>
  The delete loop erases each entry it leaves (its link becomes \<open>0xff\<close>), so it ends
  when it meets an entry again; 256 rounds cover every 8-bit entry number.
\<close>

fun delete_loop ::
  "nat \<Rightarrow> u8 \<Rightarrow> 'a eefs_state_scheme \<Rightarrow> 'a eefs_state_scheme option" where
  "delete_loop 0 diridx s = None"
| "delete_loop (Suc n) diridx s =
     (if diridx = 0xff then Some s
      else do {
        s \<leftarrow> delete_sectors [0..<curentry_max_sectors s] s;
        let next = ent_next (ops_scratch s);
        s \<leftarrow> ee_write_entry diridx
               (s\<lparr>ops_scratch := put_at 0 (replicate sizeof_entry 0xff) (ops_scratch s)\<rparr>);
        s \<leftarrow> (if next \<noteq> 0xff then ee_read_entry next s else Some s);
        delete_loop n next s })"

definition eepromfs_delete ::
  "u8 list \<Rightarrow> 'a eefs_state_scheme \<Rightarrow> (eefs_error \<times> 'a eefs_state_scheme) option" where
  "eepromfs_delete name s = do {
     (diridx, s) \<leftarrow> find_entry name s;
     (if diridx = 0xff then Some (EEFS_ERROR_FILENOTFOUND, s)
      else do {
        s \<leftarrow> delete_loop 256 diridx s;
        Some (EEFS_ERROR_OK, s) }) }"

end
