(* ===== verification/Eepromfs_Layout.thy ===== *)
theory Eepromfs_Layout
  imports Eepromfs
begin

text \<open>
  The on-disk layout of the EEPROM file system seen as directory entries (\<open>ent\<close>) and
  data sectors (\<open>sec\<close>), what reading and writing them does to each other, and the
  representation of a file: the chain of its directory entries, the list of its sectors
  in file order, and its contents.  \<open>fs_ok\<close> is the representation invariant of the whole
  file system.
\<close>

section \<open>Entries and sectors\<close>

definition ent :: "mem \<Rightarrow> nat \<Rightarrow> u8 list" where
  "ent m i = read_block m (512 + 32 * i) 32"

definition sec :: "mem \<Rightarrow> nat \<Rightarrow> u8 list" where
  "sec m k = read_block m (768 + 64 * k) 64"

lemma length_ent [simp]: "length (ent m i) = 32"
  by (simp add: ent_def)

lemma length_sec [simp]: "length (sec m k) = 64"
  by (simp add: sec_def)

lemma ent_write_ent [block_simps]:
  assumes "length e = 32"
  shows "ent (write_block m (512 + 32 * i) e) j = (if i = j then e else ent m j)"
proof (cases "i = j")
  case True
  then show ?thesis using assms by (simp add: ent_def block_simps)
next
  case False
  then have "512 + 32 * j + 32 \<le> 512 + 32 * i \<or> 512 + 32 * i + length e \<le> 512 + 32 * j"
    using assms by linarith
  then show ?thesis using False by (simp add: ent_def read_write_disjoint)
qed

lemma sec_write_ent [block_simps]:
  "length e = 32 \<Longrightarrow> i < 8 \<Longrightarrow> sec (write_block m (512 + 32 * i) e) k = sec m k"
  unfolding sec_def by (rule read_write_disjoint) linarith

lemma ent_write_sec [block_simps]:
  "i < 8 \<Longrightarrow> 768 \<le> a \<Longrightarrow> ent (write_block m a bs) i = ent m i"
  unfolding ent_def by (rule read_write_disjoint) linarith

lemma sec_write_sec [block_simps]:
  assumes "off + length bs \<le> 64"
  shows "sec (write_block m (768 + 64 * k + off) bs) j =
         (if k = j then put_at off bs (sec m k) else sec m j)"
proof (cases "k = j")
  case True
  have "sec (write_block m (768 + 64 * k + off) bs) k ! i = put_at off bs (sec m k) ! i"
    if "i < 64" for i
    using that assms by (auto simp: sec_def block_simps)
  then show ?thesis using True assms by (simp add: list_eq_iff_nth_eq)
next
  case False
  then have "768 + 64 * j + 64 \<le> 768 + 64 * k + off \<or>
             768 + 64 * k + off + length bs \<le> 768 + 64 * j"
    using assms by linarith
  then show ?thesis using False by (simp add: sec_def read_write_disjoint)
qed

section \<open>Fields of an entry in the scratch buffer\<close>

lemma ent_fields_append [simp]:
  assumes "length e = 32"
  shows "ent_name (e @ r) = ent_name e" "ent_size (e @ r) = ent_size e"
    "ent_flags (e @ r) = ent_flags e" "ent_next (e @ r) = ent_next e"
  using assms by (simp_all add: ent_name_def ent_size_def ent_flags_def ent_next_def nth_append)

lemma le16_roundtrip:
  "(ucast (ucast (n :: u16) :: u8) :: u16) OR push_bit 8 (ucast (ucast (drop_bit 8 n) :: u8)) = n"
  by (rule bit_word_eqI) (auto simp: bit_simps)

lemma ent_size_set [simp]: "32 \<le> length e \<Longrightarrow> ent_size (set_ent_size n e) = n"
  by (simp add: ent_size_def set_ent_size_def block_simps le16_roundtrip)

lemma length_set_ent_size [simp]: "32 \<le> length e \<Longrightarrow> length (set_ent_size n e) = length e"
  by (simp add: set_ent_size_def)

lemma nth_set_ent_size [simp]:
  "32 \<le> length e \<Longrightarrow> j < length e \<Longrightarrow> j \<noteq> 28 \<Longrightarrow> j \<noteq> 29 \<Longrightarrow> set_ent_size n e ! j = e ! j"
  by (auto simp: set_ent_size_def block_simps)

section \<open>Loading and storing entries\<close>

definition load :: "nat \<Rightarrow> 'a eefs_state_scheme \<Rightarrow> 'a eefs_state_scheme" where
  "load i s = s\<lparr>ops_scratch := ent (eeprom s) i @ drop 32 (ops_scratch s)\<rparr>"

lemma load_simps [simp]:
  "eeprom (load i s) = eeprom s" "used_sectors (load i s) = used_sectors s"
  "used_entries (load i s) = used_entries s" "free_sectors (load i s) = free_sectors s"
  "ops_scratch (load i s) = ent (eeprom s) i @ drop 32 (ops_scratch s)"
  by (simp_all add: load_def)

lemma ee_read_entry_load:
  "unat idx < 112 \<Longrightarrow> ee_read_entry idx s = Some (load (unat idx) s)"
  by (simp add: ee_read_entry_def eeprom_read_block_def entry_addr_def load_def ent_def put_at_def)

text \<open>The minimised write of \<open>write_entry\<close> has the effect of writing the whole entry.\<close>

lemma ee_write_entry_loop_inv:
  assumes orig: "orig = read_block m0 base 32" and len: "32 \<le> length buf"
    and room: "base + 32 \<le> EEPROM_SIZE" and "i \<le> 32" and "st \<le> i"
    and m: "m = write_block m0 base (take (if nm then st else i) buf)"
  shows "\<exists>nm' st'. st' \<le> 32 \<and> ee_write_entry_loop buf orig base [i..<32] nm st m =
           Some (nm', st', write_block m0 base (take (if nm' then st' else 32) buf))"
  using \<open>i \<le> 32\<close> \<open>st \<le> i\<close> m
proof (induction "32 - i" arbitrary: i nm st m)
  case 0
  then show ?case by auto
next
  case (Suc n)
  have i: "i < 32" "n = 32 - Suc i" and il: "i < length buf" using Suc len by auto
  have up: "[i..<32] = i # [Suc i..<32]" using i by (simp add: upt_conv_Cons)
  note IH = Suc.hyps(1) [OF i(2)]
  have step: "write_block m0 base (take i buf) = write_block m0 base (take (Suc i) buf)"
    if "buf ! i = orig ! i"
    using that i il len
    by (auto simp: fun_eq_iff block_simps orig less_Suc_eq take_Suc_conv_app_nth nth_append)
  show ?case
  proof (cases nm)
    case nm: True
    have run: "write_block m (base + st) (take (i - st) (drop st buf)) =
               write_block m0 base (take i buf)"
    proof -
      have "length (take st buf) = st" using Suc.prems i len by simp
      then have "write_block m (base + st) (take (i - st) (drop st buf)) =
            write_block m0 base (take st buf @ take (i - st) (drop st buf))"
        using nm Suc.prems(3) write_block_append [of m0 base "take st buf"] by simp
      also have "take st buf @ take (i - st) (drop st buf) = take i buf"
        using Suc.prems(2) by (metis le_add_diff_inverse take_add)
      finally show ?thesis .
    qed
    show ?thesis
    proof (cases "buf ! i = orig ! i")
      case True
      have "eeprom_write_block m (base + st) (take (i - st) (drop st buf)) =
            Some (write_block m0 base (take (Suc i) buf))"
        using run step [OF True] room Suc.prems(2) i by (simp add: eeprom_write_block_def)
      then show ?thesis
        using IH [of st "write_block m0 base (take (Suc i) buf)" False] nm True Suc.prems(2) i
        by (simp add: up)
    next
      case False
      then show ?thesis
        using IH [of st m True] nm Suc.prems i by (simp add: up)
    qed
  next
    case nm: False
    show ?thesis
    proof (cases "buf ! i = orig ! i")
      case True
      then show ?thesis
        using IH [of st m False] nm Suc.prems i step by (simp add: up)
    next
      case False
      then show ?thesis
        using IH [of i m True] nm Suc.prems i by (simp add: up)
    qed
  qed
qed

lemma ee_write_entry_store:
  assumes "unat idx < 112" "32 \<le> length (ops_scratch s)"
  shows "ee_write_entry idx s =
    Some (s\<lparr>eeprom := write_block (eeprom s) (512 + 32 * unat idx) (take 32 (ops_scratch s))\<rparr>)"
proof -
  let ?b = "512 + 32 * unat idx" and ?buf = "ops_scratch s" and ?m = "eeprom s"
  obtain nm st where st: "st \<le> 32" and loop:
    "ee_write_entry_loop ?buf (read_block ?m ?b 32) ?b [0..<32] False 0 ?m =
       Some (nm, st, write_block ?m ?b (take (if nm then st else 32) ?buf))"
    using ee_write_entry_loop_inv [of "read_block ?m ?b 32" ?m ?b ?buf 0 0 ?m False] assms
    by auto
  have fin: "write_block (write_block ?m ?b (take st ?buf)) (?b + st) (take (32 - st) (drop st ?buf))
             = write_block ?m ?b (take 32 ?buf)"
  proof -
    have "length (take st ?buf) = st" using st assms by simp
    then have "write_block (write_block ?m ?b (take st ?buf)) (?b + st) (take (32 - st) (drop st ?buf))
         = write_block ?m ?b (take st ?buf @ take (32 - st) (drop st ?buf))"
      using write_block_append [of ?m ?b "take st ?buf"] by simp
    also have "take st ?buf @ take (32 - st) (drop st ?buf) = take 32 ?buf"
      using st by (metis le_add_diff_inverse take_add)
    finally show ?thesis .
  qed
  show ?thesis
    using loop fin assms st
    by (simp add: ee_write_entry_def eeprom_read_block_def eeprom_write_block_def entry_addr_def
        split: if_splits)
qed

end
