(* ===== verification/Eepromfs_Inv.thy ===== *)
theory Eepromfs_Inv
  imports Eepromfs_Layout
begin

text \<open>
  The representation invariant of the EEPROM file system and the facts about its two
  allocators: the searches for a free sector or directory entry return a free one when
  there is one, and bookkeeping (bitmaps, free counter) follows the sector lists.
\<close>

section \<open>Files and their directory chains\<close>

record afile =
  af_name :: "u8 list"
  af_size :: u16
  af_ents :: "nat list"
  af_secs :: "nat list"

text \<open>The \<open>k\<close>-th entry of a chain holds up to \<open>cap k\<close> sector numbers, those in \<open>chunk k\<close>.\<close>

definition cap :: "nat \<Rightarrow> nat" where
  "cap k = (if k = 0 then 12 else 30)"

definition chunk :: "nat \<Rightarrow> nat list \<Rightarrow> nat list" where
  "chunk k ss = (if k = 0 then take 12 ss else take 30 (drop (30 * k - 18) ss))"

definition nents :: "nat \<Rightarrow> nat" where
  "nents n = Suc ((n + 17) div 30)"

definition entry_ok :: "u8 list \<Rightarrow> nat list \<Rightarrow> nat \<Rightarrow> u8 \<Rightarrow> bool" where
  "entry_ok e c k nx \<longleftrightarrow>
     length c \<le> cap k \<and>
     (\<forall>j < cap k. e ! j = (if j < length c then of_nat (c ! j) else 0xff)) \<and>
     ent_flags e = (if k = 0 then 0 else 2) \<and> ent_next e = nx"

definition link :: "nat list \<Rightarrow> nat \<Rightarrow> u8" where
  "link es k = (if Suc k < length es then of_nat (es ! Suc k) else 0xff)"

definition chain_ok :: "mem \<Rightarrow> nat list \<Rightarrow> nat list \<Rightarrow> bool" where
  "chain_ok m es ss \<longleftrightarrow>
     (\<forall>k < length es. entry_ok (ent m (es ! k)) (chunk k ss) k (link es k))"

definition file_ok :: "mem \<Rightarrow> afile \<Rightarrow> bool" where
  "file_ok m f \<longleftrightarrow>
     chain_ok m (af_ents f) (af_secs f) \<and>
     length (af_ents f) = nents (length (af_secs f)) \<and>
     ent_name (ent m (hd (af_ents f))) = af_name f \<and>
     ent_size (ent m (hd (af_ents f))) = af_size f \<and>
     unat (af_size f) \<le> 64 * length (af_secs f)"

definition all_ents :: "afile list \<Rightarrow> nat list" where
  "all_ents fl = concat (map af_ents fl)"

definition all_secs :: "afile list \<Rightarrow> nat list" where
  "all_secs fl = concat (map af_secs fl)"

definition fs_ok :: "'a eefs_state_scheme \<Rightarrow> afile list \<Rightarrow> bool" where
  "fs_ok s fl \<longleftrightarrow>
     length (ops_scratch s) = 33 \<and> length (used_sectors s) = 7 \<and> length (used_entries s) = 1 \<and>
     (\<forall>f \<in> set fl. file_ok (eeprom s) f) \<and>
     distinct (all_ents fl) \<and> set (all_ents fl) \<subseteq> {..<8} \<and>
     distinct (all_secs fl) \<and> set (all_secs fl) \<subseteq> {..<52} \<and>
     distinct (map af_name fl) \<and>
     (\<forall>i < 8. i \<notin> set (all_ents fl) \<longrightarrow> ent_flags (ent (eeprom s) i) AND 1 \<noteq> 0) \<and>
     (\<forall>i \<in> set (all_ents fl). bm_get (used_entries s) i) \<and>
     (\<forall>k < 52. bm_get (used_sectors s) k \<longleftrightarrow> k \<in> set (all_secs fl)) \<and>
     unat (free_sectors s) = 52 - length (all_secs fl)"

lemma fs_okD:
  assumes "fs_ok s fl"
  shows "length (ops_scratch s) = 33" "length (used_sectors s) = 7" "length (used_entries s) = 1"
    "\<And>f. f \<in> set fl \<Longrightarrow> file_ok (eeprom s) f"
    "distinct (all_ents fl)" "set (all_ents fl) \<subseteq> {..<8}"
    "distinct (all_secs fl)" "set (all_secs fl) \<subseteq> {..<52}"
    "distinct (map af_name fl)"
    "\<And>i. i < 8 \<Longrightarrow> i \<notin> set (all_ents fl) \<Longrightarrow> ent_flags (ent (eeprom s) i) AND 1 \<noteq> 0"
    "\<And>i. i \<in> set (all_ents fl) \<Longrightarrow> bm_get (used_entries s) i"
    "\<And>k. k < 52 \<Longrightarrow> bm_get (used_sectors s) k \<longleftrightarrow> k \<in> set (all_secs fl)"
    "unat (free_sectors s) = 52 - length (all_secs fl)"
  using assms unfolding fs_ok_def by blast+

lemma all_ents_simps [simp]:
  "all_ents [] = []" "all_ents (f # fl) = af_ents f @ all_ents fl"
  "all_ents (xs @ ys) = all_ents xs @ all_ents ys"
  by (simp_all add: all_ents_def)

lemma all_secs_simps [simp]:
  "all_secs [] = []" "all_secs (f # fl) = af_secs f @ all_secs fl"
  "all_secs (xs @ ys) = all_secs xs @ all_secs ys"
  by (simp_all add: all_secs_def)

lemma nents_pos [simp]: "0 < nents n"
  by (simp add: nents_def)

lemma file_ok_ents: "file_ok m f \<Longrightarrow> af_ents f \<noteq> []"
  by (auto simp: file_ok_def nents_def)

lemma ents_in: "f \<in> set fl \<Longrightarrow> set (af_ents f) \<subseteq> set (all_ents fl)"
  by (auto simp: all_ents_def)

lemma secs_in: "f \<in> set fl \<Longrightarrow> set (af_secs f) \<subseteq> set (all_secs fl)"
  by (auto simp: all_secs_def)

lemma all_secs_le: "fs_ok s fl \<Longrightarrow> length (all_secs fl) \<le> 52"
  by (rule distinct_bound) (rule fs_okD(7,8), assumption)+

section \<open>Growing a chain by one sector\<close>

lemma nents_Suc: "nents (Suc n) = nents n \<or> nents (Suc n) = Suc (nents n)"
  by (auto simp: nents_def)

lemma length_chunk:
  "length (chunk k ss) = (if k = 0 then min 12 (length ss) else min 30 (length ss - (30 * k - 18)))"
  by (simp add: chunk_def min.commute)

lemma length_chunk_le: "length (chunk k ss) \<le> cap k"
  by (simp add: length_chunk cap_def)

lemma chunk_snoc_same:
  assumes "nents (Suc (length ss)) = nents (length ss)" "k < nents (length ss)"
  shows "chunk k (ss @ [x]) = chunk k ss @ (if Suc k = nents (length ss) then [x] else [])"
proof (cases "k = 0")
  case True
  then show ?thesis using assms by (auto simp: chunk_def nents_def)
next
  case False
  then have "Suc k = nents (length ss) \<Longrightarrow> 30 * k - 18 \<le> length ss \<and> length ss < 30 * k + 12"
    "Suc k \<noteq> nents (length ss) \<Longrightarrow> 30 * k + 12 \<le> length ss"
    using assms by (auto simp: nents_def)
  then show ?thesis using False by (auto simp: chunk_def)
qed

lemma chunk_snoc_new:
  assumes "nents (Suc (length ss)) = Suc (nents (length ss))"
  shows "k < nents (length ss) \<Longrightarrow> chunk k (ss @ [x]) = chunk k ss"
    and "chunk (nents (length ss)) (ss @ [x]) = [x]"
    and "k < nents (length ss) \<Longrightarrow> length (chunk k ss) = cap k"
proof -
  have n: "length ss = 30 * nents (length ss) - 18"
    using assms by (auto simp: nents_def)
  show "chunk k (ss @ [x]) = chunk k ss" if "k < nents (length ss)"
    using that n by (auto simp: chunk_def)
  show "chunk (nents (length ss)) (ss @ [x]) = [x]"
    using n by (simp add: chunk_def nents_def)
  show "length (chunk k ss) = cap k" if "k < nents (length ss)"
    using that n by (auto simp: length_chunk cap_def)
qed

lemma chunk_last_room:
  assumes "nents (Suc (length ss)) = nents (length ss)"
  shows "length (chunk (nents (length ss) - 1) ss) < cap (nents (length ss) - 1)"
  using assms by (auto simp: length_chunk cap_def nents_def)

section \<open>The free-bit search\<close>

lemma next_free_loop_step:
  assumes lim: "limit \<le> 8 * length bm" "limit < 256"
    and "start < limit" "d < limit" "limit \<le> n + d"
    and cur: "cur = of_nat ((start + d) mod limit)"
    and used: "\<And>j. j < d \<Longrightarrow> bm_get bm ((start + j) mod limit)"
  shows "\<exists>r. next_free_loop n bm limit (of_nat start) cur = Some r \<and>
    (r = 0xff \<and> (\<forall>j < limit. bm_get bm ((start + j) mod limit)) \<or>
     unat r < limit \<and> \<not> bm_get bm (unat r))"
  using \<open>d < limit\<close> \<open>limit \<le> n + d\<close> cur used
proof (induction n arbitrary: d cur)
  case 0
  then show ?case by simp
next
  case (Suc n)
  let ?c = "(start + d) mod limit"
  have c: "?c < limit" using Suc.prems(1) by simp
  then have uc: "unat cur = ?c" using Suc.prems(3) lim by (simp add: unat_of_nat_u8)
  have inb: "unat cur div 8 < length bm" using c uc lim by linarith
  show ?case
  proof (cases "bm_get bm ?c")
    case False
    then show ?thesis using inb uc c by (simp add: ee_get_bit_def)
  next
    case True
    define cur2 where "cur2 = (if unat (cur + 1) = limit then 0 else cur + 1)"
    have nxt: "(start + Suc d) mod limit = (if Suc ?c = limit then 0 else Suc ?c)"
      using c by (simp add: mod_Suc)
    have "unat (cur + 1) = Suc ?c"
      using unat_Suc_u8 [of cur] uc c lim by simp
    then have cur2: "unat cur2 = (start + Suc d) mod limit"
      unfolding cur2_def nxt by simp
    have usedS: "\<And>j. j < Suc d \<Longrightarrow> bm_get bm ((start + j) mod limit)"
      using Suc.prems(4) True by (auto simp: less_Suc_eq)
    have st: "unat (of_nat start :: u8) = start"
      using assms(3) lim by (intro unat_of_nat_u8) linarith
    have loop: "next_free_loop (Suc n) bm limit (of_nat start) cur =
          (if cur2 = of_nat start then Some 0xff
           else next_free_loop n bm limit (of_nat start) cur2)"
      using inb uc True by (simp add: ee_get_bit_def cur2_def Let_def)
    show ?thesis
    proof (cases "Suc d = limit")
      case True
      then have "cur2 = of_nat start"
        using cur2 st assms(3) by (simp add: u8_eq_iff)
      then show ?thesis using loop usedS True by auto
    next
      case False
      then have lt: "Suc d < limit" using Suc.prems(1) by simp
      have "(start + Suc d) mod limit \<noteq> start"
      proof
        assume eq: "(start + Suc d) mod limit = start"
        then have "(start + Suc d) mod limit = start mod limit" using assms(3) by simp
        then have "Suc d mod limit = 0"
          by (metis add.right_neutral add_diff_cancel_left' mod_eq_dvd_iff_nat le_add1 mod_0_imp_dvd dvd_imp_mod_0)
        then show False using lt by simp
      qed
      then have ne: "cur2 \<noteq> of_nat start" using cur2 st by auto
      have "cur2 = of_nat ((start + Suc d) mod limit)"
        unfolding cur2 [symmetric] by simp
      then show ?thesis
        using Suc.IH [OF lt _ _ usedS] Suc.prems(2) loop ne by simp
    qed
  qed
qed

lemma next_free_loop_ok:
  assumes "limit \<le> 8 * length bm" "limit < 256" "start < limit"
  obtains r where "next_free_loop 256 bm limit (of_nat start) (of_nat start) = Some r"
    and "r = 0xff \<and> (\<forall>i < limit. bm_get bm i) \<or> unat r < limit \<and> \<not> bm_get bm (unat r)"
proof -
  have all: "\<forall>i < limit. bm_get bm i" if "\<forall>j < limit. bm_get bm ((start + j) mod limit)"
  proof (intro allI impI)
    fix i assume "i < limit"
    define j where "j = (i + limit - start) mod limit"
    have "(start + j) mod limit = (start + (i + limit - start)) mod limit"
      unfolding j_def by (simp add: mod_add_right_eq)
    also have "\<dots> = i" using \<open>i < limit\<close> assms(3) by simp
    finally show "bm_get bm i"
      using that \<open>i < limit\<close> by (metis j_def mod_less_divisor gr_implies_not0 neq0_conv)
  qed
  show ?thesis
    using next_free_loop_step [OF assms, of 0 256 "of_nat start"] assms(2,3) all that by force
qed

end
