(* ===== verification/Eepromfs_Write.thy ===== *)
theory Eepromfs_Write
  imports Eepromfs_Inv
begin

text \<open>
  Writing: what sector allocation does to the invariant, and what a call of
  \<open>eepromfs_write\<close> does to the contents of the file that is written and of all others.
\<close>

section \<open>Frame and update lemmas\<close>

lemma chain_ok_frame:
  "(\<And>i. i \<in> set es \<Longrightarrow> ent m' i = ent m i) \<Longrightarrow> chain_ok m' es ss = chain_ok m es ss"
  by (simp add: chain_ok_def)

lemma file_ok_frame:
  assumes "\<And>i. i \<in> set (af_ents f) \<Longrightarrow> ent m' i = ent m i"
  shows "file_ok m' f = file_ok m f"
proof (cases "af_ents f = []")
  case True
  then show ?thesis by (simp add: file_ok_def nents_def)
next
  case False
  then show ?thesis using assms chain_ok_frame [of "af_ents f" m' m]
    by (simp add: file_ok_def)
qed

lemma entry_ok_snoc:
  assumes "entry_ok e c k nx" "length c < cap k" "length e = 32"
  shows "entry_ok (e[length c := of_nat x]) (c @ [x]) k nx"
proof -
  have "length c < 30" using assms(2) by (auto simp: cap_def split: if_splits)
  then show ?thesis using assms
    by (auto simp: entry_ok_def nth_list_update nth_append ent_flags_def ent_next_def)
qed

lemma entry_ok_link:
  "entry_ok e c k nx \<Longrightarrow> length e = 32 \<Longrightarrow> entry_ok (e[31 := nx']) c k nx'"
  by (auto simp: entry_ok_def ent_flags_def ent_next_def cap_def split: if_splits)

lemma entry_ok_fresh:
  "0 < k \<Longrightarrow> entry_ok ((replicate 32 0xff)[30 := 2, 0 := of_nat x]) [x] k 0xff"
  by (auto simp: entry_ok_def ent_flags_def ent_next_def cap_def nth_list_update)

lemma ent_meta_update [simp]:
  assumes "length e = 32" "j < 12 \<or> j = 31"
  shows "ent_name (e[j := x]) = ent_name e" "ent_size (e[j := x]) = ent_size e"
  using assms by (auto simp: ent_name_def ent_size_def list_eq_iff_nth_eq nth_list_update)

lemma entry_ok_next: "entry_ok e c k nx \<Longrightarrow> ent_next e = nx"
  by (simp add: entry_ok_def)

lemma entry_ok_max:
  "entry_ok e c k nx \<Longrightarrow> length e = 32 \<Longrightarrow> ops_scratch s = e @ r \<Longrightarrow> curentry_max_sectors s = cap k"
  by (auto simp: entry_ok_def curentry_max_sectors_def curentry_is_listentry_def cap_def)

section \<open>One more sector\<close>

lemma fs_ok_extend:
  assumes fs: "fs_ok s (f # rest)"
    and k: "k < 52" "k \<notin> set (all_secs (f # rest))"
    and fo: "file_ok (eeprom s') f'"
    and f': "af_name f' = af_name f" "af_secs f' = af_secs f @ [k]" "af_ents f' = af_ents f @ es2"
    and es2: "set es2 \<subseteq> {..<8}" "distinct es2" "set es2 \<inter> set (all_ents (f # rest)) = {}"
    and frame: "\<And>i. i < 8 \<Longrightarrow> i \<notin> set (af_ents f') \<Longrightarrow> ent (eeprom s') i = ent (eeprom s) i"
    and scr: "length (ops_scratch s') = 33"
    and ue: "length (used_entries s') = 1"
      "\<And>i. i \<in> set (all_ents (f' # rest)) \<Longrightarrow> bm_get (used_entries s') i"
    and us: "used_sectors s' = bm_set (used_sectors s) k True"
    and fr: "free_sectors s' = free_sectors s - 1"
  shows "fs_ok s' (f' # rest)"
proof -
  note D = fs_okD [OF fs]
  have sub: "set (all_ents (f' # rest)) \<subseteq> {..<8}"
    using D(6) es2(1) f'(3) by auto
  have de: "distinct (all_ents (f' # rest))"
    using D(5) es2(2,3) f'(3) by auto
  have ds: "distinct (all_secs (f' # rest))"
    using D(7) k f'(2) by auto
  have rest: "file_ok (eeprom s') g" if "g \<in> set rest" for g
  proof -
    have "ent (eeprom s') i = ent (eeprom s) i" if "i \<in> set (af_ents g)" for i
    proof -
      have "i \<in> set (all_ents rest)" using that \<open>g \<in> set rest\<close> ents_in by blast
      then have "i < 8" "i \<notin> set (af_ents f')" using de sub by auto
      then show ?thesis by (rule frame)
    qed
    then show ?thesis
      using D(4) [of g] that file_ok_frame [of g "eeprom s'" "eeprom s"] by auto
  qed
  have fl: "ent_flags (ent (eeprom s') i) AND 1 \<noteq> 0"
    if "i < 8" "i \<notin> set (all_ents (f' # rest))" for i
    using that D(10) [of i] frame [of i] f'(3) by auto
  have bits: "bm_get (used_sectors s') j \<longleftrightarrow> j \<in> set (all_secs (f' # rest))" if "j < 52" for j
  proof -
    have "k div 8 < length (used_sectors s)" "j div 8 < length (used_sectors s)"
      using that k(1) D(2) by auto
    then show ?thesis using D(12) [OF that] us f'(2) by (auto simp: bm_get_set)
  qed
  have lt: "length (all_secs (f # rest)) < 52"
  proof (rule ccontr)
    assume "\<not> ?thesis"
    then have "set (all_secs (f # rest)) = {..<52}"
      using distinct_full [OF D(7,8)] by linarith
    then show False using k by blast
  qed
  then have "unat (free_sectors s - 1) = unat (free_sectors s) - 1"
    using D(13) by (subst unat_minus_one) (auto simp: unat_eq_0)
  then have cnt: "unat (free_sectors s') = 52 - length (all_secs (f' # rest))"
    using fr D(13) f'(2) by simp
  show ?thesis
    unfolding fs_ok_def
    using scr us D(2) ue fo rest de sub ds D(8) k(1) f' D(9) fl bits cnt
    by auto
qed

section \<open>Sector allocation\<close>

text \<open>What a handle open for writing says about its file \<open>f\<close> with \<open>c\<close> bytes written.\<close>

definition wh_core :: "eefs_fh \<Rightarrow> afile \<Rightarrow> nat \<Rightarrow> bool" where
  "wh_core fh f c \<longleftrightarrow>
     fh_filemode fh = EEFS_MODE_WRITE \<and>
     fh_entry fh = of_nat (hd (af_ents f)) \<and>
     fh_cur_entry fh = of_nat (last (af_ents f)) \<and>
     fh_cur_sector fh = (if af_secs f = [] then 0 else of_nat (last (af_secs f))) \<and>
     fh_cur_sindex fh + 1 = of_nat (length (chunk (length (af_ents f) - 1) (af_secs f))) \<and>
     unat (fh_size fh) = c \<and> fh_cur_offset fh = fh_size fh \<and>
     unat (fh_cur_soffset fh) = c mod 64"

definition wh_ok :: "eefs_fh \<Rightarrow> afile \<Rightarrow> nat \<Rightarrow> bool" where
  "wh_ok fh f c \<longleftrightarrow> wh_core fh f c \<and> length (af_secs f) = (c + 63) div 64"

lemma last_entry_facts:
  assumes fs: "fs_ok s (f # rest)"
  defines "l \<equiv> last (af_ents f)" and "k \<equiv> length (af_ents f) - 1"
  shows "l < 8" "l \<in> set (af_ents f)" "af_ents f \<noteq> []" "af_ents f ! k = l"
    "k = nents (length (af_secs f)) - 1" "Suc k = length (af_ents f)"
    "entry_ok (ent (eeprom s) l) (chunk k (af_secs f)) k 0xff"
proof -
  have fo: "file_ok (eeprom s) f" using fs_okD(4) [OF fs] by simp
  show ne: "af_ents f \<noteq> []" using fo by (rule file_ok_ents)
  show l: "l \<in> set (af_ents f)" using ne by (simp add: l_def)
  show "l < 8" using l fs_okD(6) [OF fs] by auto
  show "af_ents f ! k = l" using ne by (simp add: l_def k_def last_conv_nth)
  then show "entry_ok (ent (eeprom s) l) (chunk k (af_secs f)) k 0xff"
    using fo ne by (auto simp: file_ok_def chain_ok_def k_def link_def dest: spec [of _ k])
  show "k = nents (length (af_secs f)) - 1" "Suc k = length (af_ents f)"
    using fo ne by (auto simp: file_ok_def k_def)
qed

lemma chain_ok_same:
  assumes "chain_ok m es ss" "length es = nents (length ss)"
    and "nents (Suc (length ss)) = nents (length ss)" "distinct es" "i = last es"
    and c: "c = length (chunk (length es - 1) ss)"
    and m': "\<And>j. ent m' j = (if j = i then (ent m i)[c := of_nat x] else ent m j)"
  shows "chain_ok m' es (ss @ [x])"
  unfolding chain_ok_def
proof (intro allI impI)
  fix k assume k: "k < length es"
  have ek: "entry_ok (ent m (es ! k)) (chunk k ss) k (link es k)"
    using assms(1) k by (simp add: chain_ok_def)
  have last: "es ! (length es - 1) = i" using k assms(5) by (cases es) (simp_all add: last_conv_nth)
  show "entry_ok (ent m' (es ! k)) (chunk k (ss @ [x])) k (link es k)"
  proof (cases "Suc k = length es")
    case True
    then have "k = length es - 1" by simp
    then show ?thesis
      using ek last True assms(2) m' chunk_snoc_same [OF assms(3), of k x]
        chunk_last_room [OF assms(3)] entry_ok_snoc [OF ek _ length_ent, of x] c k
      by simp
  next
    case False
    then have "es ! k \<noteq> i" using assms(4) k last nth_eq_iff_index_eq [of es k "length es - 1"] by auto
    then show ?thesis
      using ek m' chunk_snoc_same [OF assms(3), of k x] assms(2) False k by simp
  qed
qed

lemma chain_ok_new:
  assumes "chain_ok m es ss" "length es = nents (length ss)"
    and nw: "nents (Suc (length ss)) = Suc (nents (length ss))"
    and "distinct es" "i = last es" "j \<notin> set es"
    and m': "\<And>l. ent m' l = (if l = j then (replicate 32 0xff)[30 := 2, 0 := of_nat x]
                       else if l = i then (ent m i)[31 := of_nat j] else ent m l)"
  shows "chain_ok m' (es @ [j]) (ss @ [x])"
  unfolding chain_ok_def
proof (intro allI impI)
  fix k assume k: "k < length (es @ [j])"
  show "entry_ok (ent m' ((es @ [j]) ! k)) (chunk k (ss @ [x])) k (link (es @ [j]) k)"
  proof (cases "k = length es")
    case True
    then have "(es @ [j]) ! k = j" by simp
    moreover have "0 < k" using True assms(2) by simp
    ultimately show ?thesis
      using True m' chunk_snoc_new(2) [OF nw, of x] assms(2) entry_ok_fresh [of k x]
      by (simp add: link_def)
  next
    case False
    then have k': "k < length es" using k by simp
    have ek: "entry_ok (ent m (es ! k)) (chunk k ss) k (link es k)"
      using assms(1) k' by (simp add: chain_ok_def)
    have nj: "es ! k \<noteq> j" using assms(6) k' nth_mem by metis
    have ch: "chunk k (ss @ [x]) = chunk k ss"
      using chunk_snoc_new(1) [OF nw] assms(2) k' by simp
    have last: "es ! (length es - 1) = i" using k' assms(5) by (cases es) (simp_all add: last_conv_nth)
    show ?thesis
    proof (cases "Suc k = length es")
      case True
      then have "es ! k = i" using last by (metis diff_Suc_1)
      then show ?thesis
        using True nj m' ch entry_ok_link [OF ek length_ent] by (simp add: nth_append link_def)
    next
      case False
      then have "es ! k \<noteq> i"
        using assms(4) k' last nth_eq_iff_index_eq [of es k "length es - 1"] by auto
      then show ?thesis
        using False k' nj m' ch ek by (simp add: nth_append link_def)
    qed
  qed
qed

text \<open>The file after a successful allocation of sector \<open>k\<close>, and the handle that goes with it.\<close>

definition grown :: "afile \<Rightarrow> nat \<Rightarrow> afile \<Rightarrow> bool" where
  "grown f k f' \<longleftrightarrow> af_name f' = af_name f \<and> af_size f' = af_size f \<and>
     af_secs f' = af_secs f @ [k] \<and> (\<exists>es2. af_ents f' = af_ents f @ es2)"

definition advance :: "eefs_fh \<Rightarrow> afile \<Rightarrow> nat \<Rightarrow> eefs_fh" where
  "advance fh f' k = fh\<lparr>fh_cur_sector := of_nat k, fh_cur_entry := of_nat (last (af_ents f')),
     fh_cur_sindex := of_nat (length (chunk (length (af_ents f') - 1) (af_secs f')) - 1)\<rparr>"

lemma next_free_sector_ok:
  assumes "fs_ok s fl" "unat start < 52"
  obtains (full) "next_free_sector start s = Some 0xff" "length (all_secs fl) = 52"
  | (found) k where "next_free_sector start s = Some (of_nat k)" "k < 52" "k \<notin> set (all_secs fl)"
proof -
  note D = fs_okD [OF assms(1)]
  obtain r where r: "next_free_sector start s = Some r"
    and d: "r = 0xff \<and> (\<forall>i < 52. bm_get (used_sectors s) i) \<or>
            unat r < 52 \<and> \<not> bm_get (used_sectors s) (unat r)"
    using next_free_loop_ok [of 52 "used_sectors s" "unat start"] assms(2) D(2)
    by (auto simp: next_free_sector_def)
  from d show ?thesis
  proof (elim disjE conjE)
    assume "r = 0xff" and all: "\<forall>i < 52. bm_get (used_sectors s) i"
    then have "{..<52} \<subseteq> set (all_secs fl)" using D(12) by blast
    then have "52 \<le> card (set (all_secs fl))" using card_mono [of "set (all_secs fl)" "{..<52::nat}"] by simp
    then have "length (all_secs fl) = 52"
      using all_secs_le [OF assms(1)] D(7) by (simp add: distinct_card)
    then show ?thesis using full r \<open>r = 0xff\<close> by simp
  next
    assume "unat r < 52" "\<not> bm_get (used_sectors s) (unat r)"
    then show ?thesis using found [of "unat r"] r D(12) [of "unat r"] by simp
  qed
qed

lemma next_free_entry_ok:
  assumes "fs_ok s fl" "unat start < 8"
  obtains (full) "next_free_entry start s = Some (0xff, s)" "\<forall>i < 8. bm_get (used_entries s) i"
  | (found) j where
      "next_free_entry start s = Some (of_nat j, s\<lparr>used_entries := bm_set (used_entries s) j True\<rparr>)"
      "j < 8" "j \<notin> set (all_ents fl)" "\<not> bm_get (used_entries s) j"
proof -
  note D = fs_okD [OF assms(1)]
  obtain r where r: "next_free_loop 256 (used_entries s) 8 start start = Some r"
    and d: "r = 0xff \<and> (\<forall>i < 8. bm_get (used_entries s) i) \<or>
            unat r < 8 \<and> \<not> bm_get (used_entries s) (unat r)"
    using next_free_loop_ok [of 8 "used_entries s" "unat start"] assms(2) D(3) by auto
  from d show ?thesis
  proof (elim disjE conjE)
    assume "r = 0xff" "\<forall>i < 8. bm_get (used_entries s) i"
    then show ?thesis using full r by (simp add: next_free_entry_def)
  next
    assume a: "unat r < 8" "\<not> bm_get (used_entries s) (unat r)"
    then have "r \<noteq> 0xff" by auto
    then have "next_free_entry start s =
        Some (of_nat (unat r), s\<lparr>used_entries := bm_set (used_entries s) (unat r) True\<rparr>)"
      using r a(1) D(3) by (simp add: next_free_entry_def ee_set_bit_def)
    then show ?thesis using found [of "unat r"] a D(11) [of "unat r"] by blast
  qed
qed

lemma alloc_prefix:
  assumes fs: "fs_ok s (f # rest)" and wh: "wh_ok fh f c"
  shows "unat (fh_cur_sector fh) < 52" "unat (fh_cur_entry fh) = last (af_ents f)"
    "ee_read_entry (fh_cur_entry fh) s = Some (load (last (af_ents f)) s)"
    "curentry_max_sectors (load (last (af_ents f)) s) = cap (length (af_ents f) - 1)"
    "unat (fh_cur_sindex fh + 1) = length (chunk (length (af_ents f) - 1) (af_secs f))"
proof -
  note L = last_entry_facts [OF fs]
  note D = fs_okD [OF fs]
  show "unat (fh_cur_sector fh) < 52"
  proof (cases "af_secs f = []")
    case False
    then have "last (af_secs f) \<in> set (all_secs (f # rest))" by simp
    then have "last (af_secs f) < 52" using D(8) by blast
    then show ?thesis using wh False by (simp add: wh_ok_def wh_core_def unat_of_nat_u8)
  qed (use wh in \<open>simp add: wh_ok_def wh_core_def\<close>)
  show ce: "unat (fh_cur_entry fh) = last (af_ents f)"
    using wh L(1) by (simp add: wh_ok_def wh_core_def unat_of_nat_u8)
  then show "ee_read_entry (fh_cur_entry fh) s = Some (load (last (af_ents f)) s)"
    using L(1) by (simp add: ee_read_entry_load)
  show "curentry_max_sectors (load (last (af_ents f)) s) = cap (length (af_ents f) - 1)"
    by (rule entry_ok_max [OF L(7) length_ent]) simp
  have "length (chunk (length (af_ents f) - 1) (af_secs f)) < 256"
    using length_chunk_le [of "length (af_ents f) - 1" "af_secs f"] by (simp add: cap_def split: if_splits)
  then show "unat (fh_cur_sindex fh + 1) = length (chunk (length (af_ents f) - 1) (af_secs f))"
    using wh by (simp add: wh_ok_def wh_core_def unat_of_nat_u8)
qed

lemma mark_sector_used:
  "k < 52 \<Longrightarrow> length (used_sectors s) = 7 \<Longrightarrow>
   mark_sector (of_nat k) True s =
     Some (s\<lparr>used_sectors := bm_set (used_sectors s) k True, free_sectors := free_sectors s - 1\<rparr>)"
  by (simp add: mark_sector_def ee_set_bit_def unat_of_nat_u8)

lemma ee_alloc_sector_same:
  assumes fs: "fs_ok s (f # rest)" and wh: "wh_ok fh f c"
    and nf: "next_free_sector (fh_cur_sector fh) s = Some (of_nat k)"
    and k: "k < 52" "k \<notin> set (all_secs (f # rest))"
    and same: "nents (Suc (length (af_secs f))) = nents (length (af_secs f))"
  shows "\<exists>s' f'. ee_alloc_sector fh s = Some (EEFS_ERROR_OK, advance fh f' k, s') \<and>
    fs_ok s' (f' # rest) \<and> grown f k f' \<and> (\<forall>j. sec (eeprom s') j = sec (eeprom s) j)"
proof -
  note L = last_entry_facts [OF fs] and P = alloc_prefix [OF fs wh] and D = fs_okD [OF fs]
  let ?l = "last (af_ents f)" and ?m = "eeprom s" and ?k = "length (af_ents f) - 1"
  let ?c = "length (chunk ?k (af_secs f))"
  let ?e = "(ent ?m ?l)[?c := of_nat k]"
  define f' where "f' = f\<lparr>af_secs := af_secs f @ [k]\<rparr>"
  define s' where "s' = s\<lparr>ops_scratch := ?e @ drop 32 (ops_scratch s),
      used_sectors := bm_set (used_sectors s) k True, free_sectors := free_sectors s - 1,
      eeprom := write_block ?m (512 + 32 * ?l) ?e\<rparr>"
  have c: "?c < cap ?k" using chunk_last_room [OF same] L(5) by simp
  then have c30: "?c < 30" by (auto simp: cap_def split: if_splits)
  have fo: "file_ok ?m f" using D(4) by simp
  have m': "ent (eeprom s') j = (if j = ?l then ?e else ent ?m j)" for j
    by (simp add: s'_def ent_write_ent)
  have adv: "advance fh f' k = fh\<lparr>fh_cur_sector := of_nat k, fh_cur_sindex := fh_cur_sindex fh + 1\<rparr>"
    using wh L(6) same chunk_snoc_same [OF same, of ?k k] L(5) fo
    by (simp add: advance_def f'_def wh_ok_def wh_core_def file_ok_def)
  have kf: "of_nat k \<noteq> (0xff :: u8)" using k(1) by (simp add: u8_eq_iff unat_of_nat_u8)
  have run: "ee_alloc_sector fh s = Some (EEFS_ERROR_OK, advance fh f' k, s')"
    using nf kf P c c30 k(1) D(2) L(1)
    by (simp add: ee_alloc_sector_def mark_sector_used ee_write_entry_store adv s'_def load_def
        list_update_append1 unat_of_nat_u8)
  have "chain_ok (eeprom s') (af_ents f) (af_secs f @ [k])"
    using fo D(5) same m' by (intro chain_ok_same [of ?m]) (auto simp: file_ok_def)
  moreover have "ent_name (ent (eeprom s') (hd (af_ents f))) = af_name f \<and>
      ent_size (ent (eeprom s') (hd (af_ents f))) = af_size f"
  proof (cases "hd (af_ents f) = ?l")
    case True
    then have "?k = 0"
      using L(3) D(5) nth_eq_iff_index_eq [of "af_ents f" 0 ?k] by (simp add: hd_conv_nth last_conv_nth)
    then have "?c < 12" using c by (simp add: cap_def)
    then show ?thesis using True m' fo by (simp add: file_ok_def)
  next
    case False
    then show ?thesis using m' fo by (simp add: file_ok_def)
  qed
  ultimately have fo': "file_ok (eeprom s') f'"
    using fo same by (simp add: f'_def file_ok_def)
  have "fs_ok s' (f' # rest)"
    by (rule fs_ok_extend [OF fs k fo', of "[]"])
      (use D m' L(2) in \<open>auto simp: f'_def, auto simp: s'_def\<close>)
  moreover have "grown f k f'" by (simp add: grown_def f'_def)
  moreover have "\<forall>j. sec (eeprom s') j = sec ?m j"
    using L(1) by (simp add: s'_def sec_write_ent)
  ultimately show ?thesis using run by blast
qed

lemma fs_ok_load: "fs_ok s fl \<Longrightarrow> fs_ok (load i s) fl"
  by (simp add: fs_ok_def)

lemma put_at_0_append [simp]: "length bs = length e \<Longrightarrow> put_at 0 bs (e @ r) = bs @ r"
  by (simp add: put_at_def)

lemma ee_alloc_sector_new:
  assumes fs: "fs_ok s (f # rest)" and wh: "wh_ok fh f c"
    and nf: "next_free_sector (fh_cur_sector fh) s = Some (of_nat k)"
    and k: "k < 52" "k \<notin> set (all_secs (f # rest))"
    and nw: "nents (Suc (length (af_secs f))) = Suc (nents (length (af_secs f)))"
    and ne: "next_free_entry (fh_cur_entry fh) (load (last (af_ents f)) s) =
      Some (of_nat j, (load (last (af_ents f)) s)\<lparr>used_entries := bm_set (used_entries s) j True\<rparr>)"
    and j: "j < 8" "j \<notin> set (all_ents (f # rest))"
  shows "\<exists>s' f'. ee_alloc_sector fh s = Some (EEFS_ERROR_OK, advance fh f' k, s') \<and>
    fs_ok s' (f' # rest) \<and> grown f k f' \<and> (\<forall>i. sec (eeprom s') i = sec (eeprom s) i)"
proof -
  note L = last_entry_facts [OF fs] and P = alloc_prefix [OF fs wh] and D = fs_okD [OF fs]
  let ?l = "last (af_ents f)" and ?m = "eeprom s" and ?k = "length (af_ents f) - 1"
  let ?e = "(ent ?m ?l)[31 := of_nat j]" and ?n = "(replicate 32 0xff)[30 := 2, 0 := of_nat k] :: u8 list"
  define f' where "f' = f\<lparr>af_secs := af_secs f @ [k], af_ents := af_ents f @ [j]\<rparr>"
  define s' where "s' = s\<lparr>ops_scratch := ?n @ drop 32 (ops_scratch s),
      used_entries := bm_set (used_entries s) j True,
      used_sectors := bm_set (used_sectors s) k True, free_sectors := free_sectors s - 1,
      eeprom := write_block (write_block ?m (512 + 32 * ?l) ?e) (512 + 32 * j) ?n\<rparr>"
  have fo: "file_ok ?m f" using D(4) by simp
  have jl: "j \<noteq> ?l" using j(2) L(2) by auto
  have m': "ent (eeprom s') i = (if i = j then ?n else if i = ?l then ?e else ent ?m i)" for i
    using jl by (auto simp: s'_def ent_write_ent)
  have full: "\<not> length (chunk ?k (af_secs f)) < cap ?k"
    using chunk_snoc_new(3) [OF nw, of ?k] L(5) fo by (simp add: file_ok_def)
  have adv: "advance fh f' k =
      fh\<lparr>fh_cur_sector := of_nat k, fh_cur_sindex := 0, fh_cur_entry := of_nat j\<rparr>"
    using chunk_snoc_new(2) [OF nw, of k] fo by (simp add: advance_def f'_def file_ok_def)
  have kf: "of_nat k \<noteq> (0xff :: u8)" "of_nat j \<noteq> (0xff :: u8)" "unat (of_nat j :: u8) = j"
    using k(1) j(1) by (simp_all add: u8_eq_iff unat_of_nat_u8)
  have run: "ee_alloc_sector fh s = Some (EEFS_ERROR_OK, advance fh f' k, s')"
    using nf kf P full k(1) D(2) L(1) ne j(1)
    by (simp add: ee_alloc_sector_def mark_sector_used ee_write_entry_store adv s'_def load_def
        list_update_append1 not_less)
  have "chain_ok (eeprom s') (af_ents f @ [j]) (af_secs f @ [k])"
    using fo D(5) nw m' j(2) by (intro chain_ok_new [of ?m]) (auto simp: file_ok_def)
  moreover have "ent_name (ent (eeprom s') (hd (af_ents f))) = af_name f \<and>
      ent_size (ent (eeprom s') (hd (af_ents f))) = af_size f"
  proof -
    have "hd (af_ents f) \<noteq> j" using L(3) j(2) by auto
    then show ?thesis using m' fo by (auto simp: file_ok_def)
  qed
  ultimately have fo': "file_ok (eeprom s') f'"
    using fo nw L(3) by (simp add: f'_def file_ok_def)
  have ue: "bm_get (bm_set (used_entries s) j True) i" if "i \<in> set (all_ents (f' # rest))" for i
  proof -
    have "i < 8" using that j(1) D(6) by (auto simp: f'_def)
    then show ?thesis using that D(3) D(11) [of i] j(1) by (auto simp: bm_get_set f'_def)
  qed
  have "fs_ok s' (f' # rest)"
    by (rule fs_ok_extend [OF fs k fo', of "[j]"])
      (use D m' L(2) j ue in \<open>auto simp: f'_def, auto simp: s'_def\<close>)
  moreover have "grown f k f'" by (simp add: grown_def f'_def)
  moreover have "\<forall>i. sec (eeprom s') i = sec ?m i"
    using L(1) j(1) by (simp add: s'_def sec_write_ent)
  ultimately show ?thesis using run by blast
qed

text \<open>The three outcomes of an allocation.\<close>

lemma ee_alloc_sector_cases:
  assumes fs: "fs_ok s (f # rest)" and wh: "wh_ok fh f c"
  obtains (diskfull) "ee_alloc_sector fh s = Some (EEFS_ERROR_DISKFULL, fh, s)"
      "length (all_secs (f # rest)) = 52"
  | (dirfull) fh' where
      "ee_alloc_sector fh s = Some (EEFS_ERROR_DIRFULL, fh', load (last (af_ents f)) s)"
      "fh_entry fh' = fh_entry fh" "fh_size fh' = fh_size fh" "fh_filemode fh' = fh_filemode fh"
      "\<forall>i < 8. bm_get (used_entries s) i" "nents (Suc (length (af_secs f))) \<noteq> nents (length (af_secs f))"
  | (ok) s' f' k where "ee_alloc_sector fh s = Some (EEFS_ERROR_OK, advance fh f' k, s')"
      "fs_ok s' (f' # rest)" "grown f k f'" "\<forall>j. sec (eeprom s') j = sec (eeprom s) j"
proof -
  note P = alloc_prefix [OF fs wh]
  let ?l = "last (af_ents f)"
  show ?thesis
  proof (cases rule: next_free_sector_ok [OF fs P(1)])
    case 1
    then show ?thesis using diskfull by (simp add: ee_alloc_sector_def)
  next
    case (2 k)
    show ?thesis
    proof (cases "nents (Suc (length (af_secs f))) = nents (length (af_secs f))")
      case True
      then show ?thesis using ok ee_alloc_sector_same [OF fs wh 2 True] by blast
    next
      case False
      then have nw: "nents (Suc (length (af_secs f))) = Suc (nents (length (af_secs f)))"
        using nents_Suc by blast
      have ce: "unat (fh_cur_entry fh) < 8" using P(2) last_entry_facts(1) [OF fs] by simp
      show ?thesis
      proof (cases rule: next_free_entry_ok [OF fs_ok_load [OF fs, of ?l] ce])
        case 1
        have "cap (length (af_ents f) - 1) \<le> unat (fh_cur_sindex fh + 1)"
          using chunk_snoc_new(3) [OF nw] P(5) last_entry_facts(5) [OF fs] by simp
        moreover have "of_nat k \<noteq> (0xff :: u8)" using 2(2) by (simp add: u8_eq_iff unat_of_nat_u8)
        ultimately have "ee_alloc_sector fh s = Some (EEFS_ERROR_DIRFULL,
            fh\<lparr>fh_cur_sector := of_nat k, fh_cur_sindex := fh_cur_sindex fh + 1\<rparr>, load ?l s)"
          using 1(1) 2(1) P by (simp add: ee_alloc_sector_def)
        then show ?thesis using dirfull 1(2) False by simp
      next
        case (2 j)
        then show ?thesis
          using ok ee_alloc_sector_new [OF fs wh _ _ _ nw, of k j]
            \<open>next_free_sector (fh_cur_sector fh) s = Some (of_nat k)\<close> \<open>k < 52\<close>
            \<open>k \<notin> set (all_secs (f # rest))\<close> by auto
      qed
    qed
  qed
qed

section \<open>Contents\<close>

definition contents :: "mem \<Rightarrow> nat list \<Rightarrow> nat \<Rightarrow> u8 list" where
  "contents m ss n = take n (concat (map (sec m) ss))"

lemma length_secs_concat [simp]: "length (concat (map (sec m) ss)) = 64 * length ss"
  by (induction ss) simp_all

lemma contents_frame:
  "(\<And>j. j \<in> set ss \<Longrightarrow> sec m' j = sec m j) \<Longrightarrow> contents m' ss n = contents m ss n"
  by (simp add: contents_def cong: map_cong)

lemma length_contents: "n \<le> 64 * length ss \<Longrightarrow> length (contents m ss n) = n"
  by (simp add: contents_def)

lemma contents_snoc: "n \<le> 64 * length ss \<Longrightarrow> contents m (ss @ [x]) n = contents m ss n"
  by (simp add: contents_def)

lemma contents_write:
  assumes "distinct ss" "ss = ss0 @ [x]" "length ss0 = c div 64" "c mod 64 + length bs \<le> 64"
  shows "contents (write_block m (768 + 64 * x + c mod 64) bs) ss (c + length bs) =
         contents m ss c @ bs"
proof -
  let ?m = "write_block m (768 + 64 * x + c mod 64) bs" and ?off = "c mod 64"
  have eq: "map (sec ?m) ss0 = map (sec m) ss0"
    using assms by (auto simp: sec_write_sec)
  have x: "sec ?m x = put_at ?off bs (sec m x)"
    using assms(4) by (simp add: sec_write_sec)
  have "take (?off + length bs) (put_at ?off bs (sec m x)) = take ?off (sec m x) @ bs"
    using assms(4) by (simp add: put_at_def)
  moreover have "c + length bs - 64 * length ss0 = ?off + length bs" "c - 64 * length ss0 = ?off"
    "64 * length ss0 \<le> c"
    using assms(3) by (simp_all add: minus_mult_div_eq_mod [symmetric])
  ultimately show ?thesis
    using x by (simp add: contents_def assms(2) eq)
qed

lemma chunk_last_nonempty:
  "0 < length ss \<Longrightarrow> 0 < length (chunk (nents (length ss) - 1) ss)"
  by (auto simp: length_chunk nents_def)

lemma advance_core:
  assumes wh: "wh_core fh f c" and fs: "fs_ok s' (f' # rest)" and g: "grown f k f'"
    and ne: "af_ents f \<noteq> []"
  shows "wh_core (advance fh f' k) f' c"
proof -
  have "length (af_ents f') = nents (length (af_secs f'))"
    using fs_okD(4) [OF fs, of f'] by (simp add: file_ok_def)
  then have "0 < length (chunk (length (af_ents f') - 1) (af_secs f'))"
    using chunk_last_nonempty [of "af_secs f'"] g by (simp add: grown_def)
  then obtain p where "length (chunk (length (af_ents f') - 1) (af_secs f')) = Suc p"
    using gr0_conv_Suc by blast
  then show ?thesis
    using wh g ne by (auto simp: wh_core_def advance_def grown_def)
qed

text \<open>One round of the write loop after a sector has been made available.\<close>

lemma chunk_size_val:
  assumes "unat (fh_cur_soffset fh) < 64"
  shows "unat (chunk_size len fh) = min (unat len) (64 - unat (fh_cur_soffset fh))"
proof -
  have d: "unat (64 - ucast (fh_cur_soffset fh) :: u16) = 64 - unat (fh_cur_soffset fh)"
    using assms unat_diff_u16 [of "ucast (fh_cur_soffset fh)" 64] by simp
  then have "unat (min len (64 - ucast (fh_cur_soffset fh))) =
      min (unat len) (64 - unat (fh_cur_soffset fh))"
    by (simp add: min_def word_le_nat_alt)
  then show ?thesis by (simp add: chunk_size_def unat_ucast_u16_u8)
qed

end
