(* ===== verification/Eepromfs_Io.thy ===== *)
theory Eepromfs_Io
  imports Eepromfs_Write
begin

text \<open>
  The data paths of the EEPROM file system: \<open>eepromfs_write\<close> appends exactly the bytes it
  reports to the file and touches no other file, \<open>eepromfs_read\<close> returns the bytes of the
  file from the handle's position on.
\<close>

section \<open>Writing\<close>

lemma fs_ok_data:
  assumes "fs_ok s fl" and ents: "\<And>i. i < 8 \<Longrightarrow> ent m i = ent (eeprom s) i"
  shows "fs_ok (s\<lparr>eeprom := m\<rparr>) fl"
proof -
  note D = fs_okD [OF assms(1)]
  have "file_ok m f" if "f \<in> set fl" for f
    using D(4) [OF that] file_ok_frame [of f m "eeprom s"] ents ents_in [OF that] D(6) by blast
  then show ?thesis using assms(1) ents by (simp add: fs_ok_def)
qed

lemma round_up_64: "0 < (k :: nat) \<Longrightarrow> c mod 64 + k \<le> 64 \<Longrightarrow> (c + k + 63) div 64 = c div 64 + 1"
proof -
  assume k: "0 < k" "c mod 64 + k \<le> 64"
  have "(c + k + 63) div 64 = (c mod 64 + k + 63 + c div 64 * 64) div 64"
    using div_mult_mod_eq [of c 64] by (simp add: ac_simps)
  also have "\<dots> = (c mod 64 + k + 63) div 64 + c div 64"
    by (subst div_mult_self1) simp_all
  also have "(c mod 64 + k + 63) div 64 = 1"
    using k by (intro div_nat_eqI) simp_all
  finally show ?thesis by simp
qed

lemma sectors_needed:
  "(c + 63) div 64 = (if c mod 64 = 0 then c div 64 else c div 64 + 1)" for c :: nat
proof (cases "c mod 64 = 0")
  case True
  then have "c = 64 * (c div 64)" by (simp add: mult_div_mod_eq dvd_mult_div_cancel mod_0_imp_dvd)
  then have "(c + 63) div 64 = (64 * (c div 64) + 63) div 64" by simp
  also have "\<dots> = c div 64" by simp
  finally show ?thesis using True by simp
next
  case False
  have "(64 * (c div 64) + c mod 64 + 63) div 64 = 64 * (c div 64) div 64 + 1"
    using False by (intro round_up_64) (simp_all add: less_imp_le)
  then show ?thesis using False by (simp only: mult_div_mod_eq) simp
qed

lemma write_step:
  assumes fs: "fs_ok s (f # rest)" and wh: "wh_core fh f c"
    and n: "length (af_secs f) = c div 64 + 1"
    and len: "0 < unat len" "unat len \<le> length bdata"
    and ch: "ch = chunk_size len fh"
  obtains m where "0 < unat ch" "unat ch \<le> unat len"
    "eeprom_write_block (eeprom s) (sector_addr fh) (take (unat ch) bdata) = Some m"
    "fs_ok (s\<lparr>eeprom := m\<rparr>) (f # rest)" "wh_ok (adjust_fh ch fh) f (c + unat ch)"
    "contents m (af_secs f) (c + unat ch) = contents (eeprom s) (af_secs f) c @ take (unat ch) bdata"
    "\<And>j. j \<in> set (all_secs rest) \<Longrightarrow> sec m j = sec (eeprom s) j"
proof -
  note D = fs_okD [OF fs]
  let ?l = "last (af_secs f)"
  have ne: "af_secs f \<noteq> []" using n by auto
  then have "?l \<in> set (all_secs (f # rest))" by simp
  then have l: "?l < 52" using D(8) by blast
  have so: "unat (fh_cur_soffset fh) = c mod 64" using wh by (simp add: wh_core_def)
  define k where "k = unat ch"
  have k: "k = min (unat len) (64 - c mod 64)"
    using chunk_size_val [of fh len] so ch by (simp add: k_def)
  have k0: "0 < k" "k \<le> unat len" using len k by auto
  have kl: "length (take k bdata) = k" "c mod 64 + k \<le> 64" using k0 len k by auto
  define m where "m = write_block (eeprom s) (768 + 64 * ?l + c mod 64) (take k bdata)"
  have "sector_addr fh = 768 + 64 * ?l + c mod 64"
    using wh ne l so by (simp add: sector_addr_def wh_core_def unat_of_nat_u8)
  then have w: "eeprom_write_block (eeprom s) (sector_addr fh) (take k bdata) = Some m"
    using kl l by (simp add: eeprom_write_block_def m_def)
  have fs': "fs_ok (s\<lparr>eeprom := m\<rparr>) (f # rest)"
    by (rule fs_ok_data [OF fs]) (simp add: m_def ent_write_sec)
  have c: "c < 65536 - 64" using D(7,8) distinct_bound [of "af_secs f" 52] n by auto
  have wh': "wh_ok (adjust_fh ch fh) f (c + k)"
  proof -
    have "unat (fh_size fh + ucast ch) = c + k"
      using wh kl c by (subst unat_add_u16) (auto simp: wh_core_def k_def)
    moreover have "(c + k + 63) div 64 = c div 64 + 1" using round_up_64 [OF k0(1) kl(2)] .
    moreover have "unat (of_nat ((c mod 64 + k) mod 64) :: u8) = (c + k) mod 64"
      by (simp add: unat_of_nat_u8 mod_add_left_eq)
    ultimately show ?thesis
      using wh n so by (simp add: wh_ok_def wh_core_def adjust_fh_def k_def)
  qed
  have "af_secs f = butlast (af_secs f) @ [?l]" using ne by simp
  then have ct: "contents m (af_secs f) (c + k) = contents (eeprom s) (af_secs f) c @ take k bdata"
    using contents_write [of "af_secs f" "butlast (af_secs f)" ?l c "take k bdata" "eeprom s"] D(7) n kl
    by (simp add: m_def)
  have "sec m j = sec (eeprom s) j" if "j \<in> set (all_secs rest)" for j
  proof -
    have "?l \<in> set (af_secs f)" using ne by simp
    then have "j \<noteq> ?l" using that D(7) by auto
    then show ?thesis using kl by (simp add: m_def sec_write_sec)
  qed
  then show ?thesis using that k0 w fs' wh' ct by (simp add: k_def)
qed

text \<open>What a write of \<open>len\<close> bytes \<open>d\<close> to file \<open>f\<close>, of which \<open>c\<close> bytes are written, yields.\<close>

definition write_post ::
  "'a eefs_state_scheme \<Rightarrow> afile \<Rightarrow> afile list \<Rightarrow> nat \<Rightarrow> u8 list \<Rightarrow> nat \<Rightarrow>
   eefs_error \<Rightarrow> eefs_fh \<Rightarrow> nat \<Rightarrow> 'a eefs_state_scheme \<Rightarrow> afile \<Rightarrow> bool" where
  "write_post s f rest c d len err fh' w s' f' \<longleftrightarrow>
     w \<le> len \<and> fs_ok s' (f' # rest) \<and>
     af_name f' = af_name f \<and> af_size f' = af_size f \<and> hd (af_ents f') = hd (af_ents f) \<and>
     contents (eeprom s') (af_secs f') (c + w) = contents (eeprom s) (af_secs f) c @ take w d \<and>
     unat (fh_size fh') = c + w \<and> c + w \<le> 64 * length (af_secs f') \<and>
     fh_entry fh' = of_nat (hd (af_ents f)) \<and> fh_filemode fh' = EEFS_MODE_WRITE \<and>
     (\<forall>j \<in> set (all_secs rest). sec (eeprom s') j = sec (eeprom s) j) \<and>
     (err = EEFS_ERROR_OK \<and> w = len \<and> wh_ok fh' f' (c + w) \<or>
      w < len \<and> c + w = 64 * length (af_secs f') \<and>
      (err = EEFS_ERROR_DISKFULL \<and> length (all_secs (f' # rest)) = 52 \<or>
       err = EEFS_ERROR_DIRFULL \<and> (\<forall>i < 8. bm_get (used_entries s') i) \<and>
       nents (Suc (length (af_secs f'))) \<noteq> nents (length (af_secs f'))))"

lemma write_post_step:
  assumes "write_post s1 f1 rest (c + k) (drop k d) (len - k) err fh' w s' f'"
    and "k \<le> len" "af_name f1 = af_name f" "af_size f1 = af_size f" "hd (af_ents f1) = hd (af_ents f)"
    and "contents (eeprom s1) (af_secs f1) (c + k) = contents (eeprom s) (af_secs f) c @ take k d"
    and "\<And>j. j \<in> set (all_secs rest) \<Longrightarrow> sec (eeprom s1) j = sec (eeprom s) j"
  shows "write_post s f rest c d len err fh' (k + w) s' f'"
  using assms by (auto simp: write_post_def take_add add.assoc)

lemma write_post_stop:
  assumes "wh_ok fh f c" "fs_ok s' (f # rest)" "eeprom s' = eeprom s" "fh_size fh' = fh_size fh"
    "fh_entry fh' = fh_entry fh" "fh_filemode fh' = fh_filemode fh"
    "err = EEFS_ERROR_OK \<and> len = 0 \<and> wh_ok fh' f c \<or>
     0 < len \<and> c = 64 * length (af_secs f) \<and>
     (err = EEFS_ERROR_DISKFULL \<and> length (all_secs (f # rest)) = 52 \<or>
      err = EEFS_ERROR_DIRFULL \<and> (\<forall>i < 8. bm_get (used_entries s') i) \<and>
      nents (Suc (length (af_secs f))) \<noteq> nents (length (af_secs f)))"
  shows "write_post s f rest c bdata len err fh' 0 s' f"
  using assms by (auto simp: write_post_def wh_ok_def wh_core_def)

lemma write_loop_ok:
  assumes "fs_ok s (f # rest)" "wh_ok fh f c" "unat len \<le> length bdata" "unat len < n"
  shows "\<exists>err fh' w s' f'. eepromfs_write_loop n fh bdata len bw s =
           Some (err, fh', bw + of_nat w, s') \<and>
         write_post s f rest c bdata (unat len) err fh' w s' f'"
  using assms
proof (induction n arbitrary: fh bdata len bw s f c)
  case 0
  then show ?case by simp
next
  case (Suc n)
  note fs = Suc.prems(1) and wh = Suc.prems(2)
  have core: "wh_core fh f c" and lens: "length (af_secs f) = (c + 63) div 64"
    using wh by (simp_all add: wh_ok_def)
  have go: "\<exists>err fh' w s' f'.
      (do { m \<leftarrow> eeprom_write_block (eeprom s1) (sector_addr fh1)
                  (take (unat (chunk_size len fh1)) bdata);
            eepromfs_write_loop n (adjust_fh (chunk_size len fh1) fh1)
              (drop (unat (chunk_size len fh1)) bdata) (len - ucast (chunk_size len fh1))
              (bw + ucast (chunk_size len fh1)) (s1\<lparr>eeprom := m\<rparr>) }) =
        Some (err, fh', bw + of_nat w, s') \<and>
      write_post s f rest c bdata (unat len) err fh' w s' f'"
    if len: "len \<noteq> 0" and fs1: "fs_ok s1 (f1 # rest)" and wh1: "wh_core fh1 f1 c"
      and n1: "length (af_secs f1) = c div 64 + 1"
      and f1: "af_name f1 = af_name f" "af_size f1 = af_size f" "hd (af_ents f1) = hd (af_ents f)"
      and c1: "contents (eeprom s1) (af_secs f1) c = contents (eeprom s) (af_secs f) c"
      and sc: "\<forall>j. sec (eeprom s1) j = sec (eeprom s) j"
    for f1 fh1 s1
  proof -
    have len0: "0 < unat len" using len by (simp add: unat_gt_0)
    define ch where "ch = chunk_size len fh1"
    obtain m where W: "0 < unat ch" "unat ch \<le> unat len"
      "eeprom_write_block (eeprom s1) (sector_addr fh1) (take (unat ch) bdata) = Some m"
      "fs_ok (s1\<lparr>eeprom := m\<rparr>) (f1 # rest)" "wh_ok (adjust_fh ch fh1) f1 (c + unat ch)"
      "contents m (af_secs f1) (c + unat ch) = contents (eeprom s1) (af_secs f1) c @ take (unat ch) bdata"
      "\<And>j. j \<in> set (all_secs rest) \<Longrightarrow> sec m j = sec (eeprom s1) j"
      using write_step [OF fs1 wh1 n1 len0 Suc.prems(3) ch_def] by blast
    have l: "unat (len - ucast ch) = unat len - unat ch"
      using W(2) by (subst unat_diff_u16) simp_all
    have "unat (len - ucast ch) \<le> length (drop (unat ch) bdata)" "unat (len - ucast ch) < n"
      using l W(1,2) Suc.prems(3,4) by auto
    from Suc.IH [OF W(4,5) this, of "bw + ucast ch"]
    obtain err fh' w s' f' where
      run: "eepromfs_write_loop n (adjust_fh ch fh1) (drop (unat ch) bdata) (len - ucast ch)
              (bw + ucast ch) (s1\<lparr>eeprom := m\<rparr>) = Some (err, fh', bw + ucast ch + of_nat w, s')"
      and post: "write_post (s1\<lparr>eeprom := m\<rparr>) f1 rest (c + unat ch) (drop (unat ch) bdata)
              (unat len - unat ch) err fh' w s' f'"
      unfolding l by blast
    have p: "write_post s f rest c bdata (unat len) err fh' (unat ch + w) s' f'"
      by (rule write_post_step [OF post W(2) f1]) (use W c1 sc in auto)
    have "bw + ucast ch + of_nat w = bw + of_nat (unat ch + w)"
      by (simp add: add.assoc)
    then have "(do { m \<leftarrow> eeprom_write_block (eeprom s1) (sector_addr fh1)
                  (take (unat (chunk_size len fh1)) bdata);
            eepromfs_write_loop n (adjust_fh (chunk_size len fh1) fh1)
              (drop (unat (chunk_size len fh1)) bdata) (len - ucast (chunk_size len fh1))
              (bw + ucast (chunk_size len fh1)) (s1\<lparr>eeprom := m\<rparr>) }) =
        Some (err, fh', bw + of_nat (unat ch + w), s')"
      by (simp only: ch_def [symmetric] W(3) run Option.bind.simps)
    then show ?thesis using p by blast
  qed
  show ?case
  proof (cases "len = 0")
    case True
    then have "write_post s f rest c bdata (unat len) EEFS_ERROR_OK fh 0 s f"
      using wh by (intro write_post_stop [OF wh fs]) simp_all
    moreover have "eepromfs_write_loop (Suc n) fh bdata len bw s =
        Some (EEFS_ERROR_OK, fh, bw + of_nat 0, s)" using True by simp
    ultimately show ?thesis by blast
  next
    case len: False
    show ?thesis
    proof (cases "fh_cur_soffset fh = 0")
      case False
      then have "unat (fh_cur_soffset fh) \<noteq> 0" by (simp add: unat_eq_0)
      then have "c mod 64 \<noteq> 0" using core by (simp add: wh_core_def)
      then have "length (af_secs f) = c div 64 + 1" using lens by (simp add: sectors_needed)
      then show ?thesis using go [OF len fs core] len False by (simp add: Let_def)
    next
      case True
      then have cm: "c mod 64 = 0" using core unfolding wh_core_def by (metis unsigned_0)
      have room: "0 < unat len" "c = 64 * length (af_secs f)"
        using len lens cm mult_div_mod_eq [of 64 c] by (simp_all add: unat_gt_0 sectors_needed)
      show ?thesis
      proof (cases rule: ee_alloc_sector_cases [OF fs wh])
        case 1
        then have "write_post s f rest c bdata (unat len) EEFS_ERROR_DISKFULL fh 0 s f"
          using room by (intro write_post_stop [OF wh fs]) simp_all
        moreover have "eepromfs_write_loop (Suc n) fh bdata len bw s =
            Some (EEFS_ERROR_DISKFULL, fh, bw + of_nat 0, s)" using 1 len True by simp
        ultimately show ?thesis by blast
      next
        case (2 fh')
        let ?s = "load (last (af_ents f)) s"
        have "write_post s f rest c bdata (unat len) EEFS_ERROR_DIRFULL fh' 0 ?s f"
          using 2 room by (intro write_post_stop [OF wh fs_ok_load [OF fs]]) simp_all
        moreover have "eepromfs_write_loop (Suc n) fh bdata len bw s =
            Some (EEFS_ERROR_DIRFULL, fh', bw + of_nat 0, ?s)" using 2 len True by simp
        ultimately show ?thesis by blast
      next
        case (3 s1 f1 k)
        have ne: "af_ents f \<noteq> []" by (rule last_entry_facts(3) [OF fs])
        have core1: "wh_core (advance fh f1 k) f1 c"
          by (rule advance_core [OF core 3(2,3) ne])
        have n1: "length (af_secs f1) = c div 64 + 1"
          using 3(3) lens cm by (simp add: grown_def sectors_needed)
        have c1: "contents (eeprom s1) (af_secs f1) c = contents (eeprom s) (af_secs f) c"
          using 3(3,4) n1 cm contents_frame [of "af_secs f" "eeprom s1" "eeprom s" c]
            mult_div_mod_eq [of 64 c]
          by (simp add: grown_def contents_snoc)
        have "hd (af_ents f1) = hd (af_ents f)" using 3(3) ne by (auto simp: grown_def)
        then show ?thesis
          using go [OF len 3(2) core1 n1 _ _ _ c1 3(4)] 3 len True by (simp add: grown_def Let_def)
      qed
    qed
  qed
qed

end
