(* ===== verification/Eepromfs_Read.thy ===== *)
theory Eepromfs_Read
  imports Eepromfs_Io
begin

text \<open>
  Reading: where the \<open>q\<close>-th sector of a file is recorded, how a handle moves to the next
  sector, and that \<open>eepromfs_read\<close> delivers the file's bytes.
\<close>

section \<open>The position of a sector in the chain\<close>

definition eo :: "nat \<Rightarrow> nat" where "eo q = (q + 18) div 30"
definition po :: "nat \<Rightarrow> nat" where "po q = (if q < 12 then q else (q - 12) mod 30)"

lemma po_lt: "po q < cap (eo q)"
  by (auto simp: po_def cap_def eo_def)

lemma eo_lt: "q < n \<Longrightarrow> eo q < nents n"
  by (auto simp: eo_def nents_def)

lemma eo_0: "q < 12 \<Longrightarrow> eo q = 0"
  by (simp add: eo_def)

lemma eo_pos:
  assumes "12 \<le> q"
  shows "0 < eo q" "30 * eo q - 18 + po q = q"
proof -
  have "q + 18 = (q - 12) + 1 * 30" using assms by simp
  then have "eo q = (q - 12) div 30 + 1"
    unfolding eo_def by (metis div_mult_self1 zero_neq_numeral add.commute)
  then show "0 < eo q" "30 * eo q - 18 + po q = q"
    using assms mult_div_mod_eq [of 30 "q - 12"] by (auto simp: po_def)
qed

lemma chunk_nth:
  assumes "q < length ss"
  shows "po q < length (chunk (eo q) ss)" "chunk (eo q) ss ! po q = ss ! q"
proof -
  have "po q < length (chunk (eo q) ss) \<and> chunk (eo q) ss ! po q = ss ! q"
  proof (cases "q < 12")
    case True
    then show ?thesis using assms by (simp add: eo_0 po_def chunk_def)
  next
    case False
    then have E: "0 < eo q" "30 * eo q - 18 + po q = q" using eo_pos by simp_all
    moreover have "po q < 30" using False by (simp add: po_def)
    ultimately show ?thesis using assms by (auto simp: chunk_def)
  qed
  then show "po q < length (chunk (eo q) ss)" "chunk (eo q) ss ! po q = ss ! q" by auto
qed

lemma eo_po_Suc:
  "Suc (po q) < cap (eo q) \<Longrightarrow> eo (Suc q) = eo q \<and> po (Suc q) = Suc (po q)"
  "\<not> Suc (po q) < cap (eo q) \<Longrightarrow> eo (Suc q) = Suc (eo q) \<and> po (Suc q) = 0"
proof -
  have "(Suc (po q) < cap (eo q) \<longrightarrow> eo (Suc q) = eo q \<and> po (Suc q) = Suc (po q)) \<and>
        (\<not> Suc (po q) < cap (eo q) \<longrightarrow> eo (Suc q) = Suc (eo q) \<and> po (Suc q) = 0)"
  proof (cases "q < 12")
    case True
    then show ?thesis by (cases "q = 11") (simp_all add: eo_0 po_def cap_def eo_def)
  next
    case False
    define r where "r = q - 12"
    have q: "q = r + 12" using False by (simp add: r_def)
    have e: "eo q = r div 30 + 1" "eo (Suc q) = Suc r div 30 + 1"
      unfolding eo_def q by (simp_all add: div_add_self2 [symmetric] del: div_add_self2)
    have p: "po q = r mod 30" "po (Suc q) = Suc r mod 30" by (simp_all add: po_def q)
    show ?thesis
      unfolding e p cap_def by (auto simp: div_Suc mod_Suc)
  qed
  then show "Suc (po q) < cap (eo q) \<Longrightarrow> eo (Suc q) = eo q \<and> po (Suc q) = Suc (po q)"
    "\<not> Suc (po q) < cap (eo q) \<Longrightarrow> eo (Suc q) = Suc (eo q) \<and> po (Suc q) = 0" by auto
qed

section \<open>Read handles\<close>

text \<open>\<open>at_sector fh f q\<close>: the handle's current sector is the \<open>q\<close>-th of the file.\<close>

definition at_sector :: "eefs_fh \<Rightarrow> afile \<Rightarrow> nat \<Rightarrow> bool" where
  "at_sector fh f q \<longleftrightarrow> fh_cur_sector fh = of_nat (af_secs f ! q) \<and>
     fh_cur_entry fh = of_nat (af_ents f ! eo q) \<and> fh_cur_sindex fh = of_nat (po q)"

definition rh_ok :: "eefs_fh \<Rightarrow> afile \<Rightarrow> nat \<Rightarrow> bool" where
  "rh_ok fh f p \<longleftrightarrow> fh_filemode fh = EEFS_MODE_READ \<and> fh_size fh = af_size f \<and>
     unat (fh_cur_offset fh) = p \<and> p \<le> unat (af_size f) \<and>
     unat (fh_cur_soffset fh) = p mod 64 \<and>
     (p < unat (af_size f) \<longrightarrow> at_sector fh f (p div 64))"

lemma chain_entry:
  assumes "fs_ok s fl" "f \<in> set fl" "k < length (af_ents f)"
  shows "af_ents f ! k < 8" "unat (of_nat (af_ents f ! k) :: u8) = af_ents f ! k"
    "ee_read_entry (of_nat (af_ents f ! k)) s = Some (load (af_ents f ! k) s)"
    "entry_ok (ent (eeprom s) (af_ents f ! k)) (chunk k (af_secs f)) k (link (af_ents f) k)"
    "curentry_max_sectors (load (af_ents f ! k) s) = cap k"
proof -
  note D = fs_okD [OF assms(1)]
  show l: "af_ents f ! k < 8"
    using assms(3) ents_in [OF assms(2)] D(6) nth_mem by blast
  then show u: "unat (of_nat (af_ents f ! k) :: u8) = af_ents f ! k" by (simp add: unat_of_nat_u8)
  then show "ee_read_entry (of_nat (af_ents f ! k)) s = Some (load (af_ents f ! k) s)"
    using l by (simp add: ee_read_entry_load)
  show e: "entry_ok (ent (eeprom s) (af_ents f ! k)) (chunk k (af_secs f)) k (link (af_ents f) k)"
    using D(4) [OF assms(2)] assms(3) by (simp add: file_ok_def chain_ok_def)
  show "curentry_max_sectors (load (af_ents f ! k) s) = cap k"
    by (rule entry_ok_max [OF e length_ent]) simp
qed

lemma entry_ok_nth:
  "entry_ok e c k nx \<Longrightarrow> j < length c \<Longrightarrow> e ! j = of_nat (c ! j)"
  by (auto simp: entry_ok_def)

lemma ee_next_sector_ok:
  assumes fs: "fs_ok s fl" and f: "f \<in> set fl" and at: "at_sector fh f q"
    and q: "Suc q < length (af_secs f)"
  obtains fh' s' where "ee_next_sector fh s = Some (fh', s')" "at_sector fh' f (Suc q)"
    "fs_ok s' fl" "eeprom s' = eeprom s" "fh_cur_offset fh' = fh_cur_offset fh"
    "fh_size fh' = fh_size fh" "fh_cur_soffset fh' = fh_cur_soffset fh"
    "fh_filemode fh' = fh_filemode fh" "fh_entry fh' = fh_entry fh"
proof -
  let ?e = "eo q" and ?m = "eeprom s"
  have n: "length (af_ents f) = nents (length (af_secs f))"
    using fs_okD(4) [OF fs f] by (simp add: file_ok_def)
  have e: "?e < length (af_ents f)" "eo (Suc q) < length (af_ents f)"
    using eo_lt [of q "length (af_secs f)"] eo_lt [OF q] q n by simp_all
  note C = chain_entry [OF fs f e(1)] and C' = chain_entry [OF fs f e(2)]
  have po: "unat (of_nat (po q) + 1 :: u8) = Suc (po q)"
  proof -
    have "po q < 30" using po_lt [of q] by (simp add: cap_def split: if_splits)
    then show ?thesis by (subst unat_Suc_u8) (simp_all add: unat_of_nat_u8)
  qed
  have nth: "ent ?m (af_ents f ! eo (Suc q)) ! po (Suc q) = of_nat (af_secs f ! Suc q)"
    using entry_ok_nth [OF C'(4)] chunk_nth [OF q] by simp
  have p31: "po (Suc q) < 32" using po_lt [of "Suc q"] by (simp add: cap_def split: if_splits)
  show ?thesis
  proof (cases "Suc (po q) < cap ?e")
    case True
    then have E: "eo (Suc q) = ?e" "po (Suc q) = Suc (po q)" using eo_po_Suc(1) by simp_all
    have run: "ee_next_sector fh s = Some (fh\<lparr>fh_cur_sindex := of_nat (po q) + 1,
        fh_cur_sector := of_nat (af_secs f ! Suc q)\<rparr>, load (af_ents f ! ?e) s)"
      using at C po True nth E p31 by (simp add: ee_next_sector_def at_sector_def nth_append)
    show ?thesis
      by (rule that [OF run])
        (use at E fs_ok_load [OF fs] in \<open>auto simp: at_sector_def add.commute\<close>)
  next
    case False
    then have E: "eo (Suc q) = Suc ?e" "po (Suc q) = 0" using eo_po_Suc(2) by simp_all
    have lk: "ent_next (ent ?m (af_ents f ! ?e)) = of_nat (af_ents f ! Suc ?e)"
      using entry_ok_next [OF C(4)] e(2) E by (simp add: link_def)
    have r: "ee_read_entry (of_nat (af_ents f ! Suc ?e)) (load (af_ents f ! ?e) s) =
        Some (load (af_ents f ! Suc ?e) (load (af_ents f ! ?e) s))"
      using chain_entry(3) [OF fs_ok_load [OF fs] f e(2)] E by simp
    have run: "ee_next_sector fh s = Some (fh\<lparr>fh_cur_sindex := 0, fh_cur_entry := of_nat (af_ents f ! Suc ?e),
        fh_cur_sector := of_nat (af_secs f ! Suc q)\<rparr>,
        load (af_ents f ! Suc ?e) (load (af_ents f ! ?e) s))"
      using at C po False nth E p31 lk r by (simp add: ee_next_sector_def at_sector_def nth_append)
    show ?thesis
      by (rule that [OF run])
        (use at E fs_ok_load [OF fs_ok_load [OF fs]] in \<open>auto simp: at_sector_def\<close>)
  qed
qed

section \<open>The read loop\<close>

lemma contents_slice:
  assumes "p div 64 < length ss" "p mod 64 + k \<le> 64"
  shows "take k (drop p (concat (map (sec m) ss))) =
         read_block m (768 + 64 * (ss ! (p div 64)) + p mod 64) k"
proof -
  let ?q = "p div 64"
  have ss: "ss = take ?q ss @ ss ! ?q # drop (Suc ?q) ss"
    using assms(1) by (simp add: id_take_nth_drop)
  have "concat (map (sec m) ss) = concat (map (sec m) (take ?q ss)) @
      sec m (ss ! ?q) @ concat (map (sec m) (drop (Suc ?q) ss))"
    by (subst ss) simp
  moreover have "length (concat (map (sec m) (take ?q ss))) = 64 * ?q"
    using assms(1) by simp
  moreover have "p = 64 * ?q + p mod 64" by simp
  ultimately have "drop p (concat (map (sec m) ss)) =
      drop (p - 64 * ?q) (sec m (ss ! ?q) @ concat (map (sec m) (drop (Suc ?q) ss)))"
    by (metis append_eq_conv_conj drop_append drop_drop le_add1 drop_all append_Nil
        le_add_diff_inverse2)
  also have "p - 64 * ?q = p mod 64" by (simp add: minus_mult_div_eq_mod)
  finally have "drop p (concat (map (sec m) ss)) =
      drop (p mod 64) (sec m (ss ! ?q)) @ concat (map (sec m) (drop (Suc ?q) ss))"
    by (simp add: less_imp_le)
  then show ?thesis
    using assms(2) by (simp add: sec_def drop_read_block take_read_block)
qed

definition move_fh :: "u8 \<Rightarrow> eefs_fh \<Rightarrow> eefs_fh" where
  "move_fh k fh = fh\<lparr>fh_cur_offset := fh_cur_offset fh + ucast k,
     fh_cur_soffset := of_nat ((unat (fh_cur_soffset fh) + unat k) mod EEPROMFS_SECTORSIZE)\<rparr>"

lemma div_add_split: "(p + k) div 64 = p div 64 + (p mod 64 + k) div 64" for p k :: nat
proof -
  have "p + k = (p mod 64 + k) + (p div 64) * 64" by simp
  then show ?thesis by (metis div_mult_self1 add.commute zero_neq_numeral)
qed

text \<open>One round of the read loop: the bytes delivered and the handle afterwards.\<close>

lemma read_step:
  assumes fs: "fs_ok s fl" and f: "f \<in> set fl" and rh: "rh_ok fh f p"
    and len: "0 < unat len" "p + unat len \<le> unat (af_size f)"
    and ch: "ch = chunk_size len fh"
  obtains fh' s' where "0 < unat ch" "unat ch \<le> unat len"
    "eeprom_read_block (eeprom s) (sector_addr fh) (unat ch) =
       Some (take (unat ch) (drop p (contents (eeprom s) (af_secs f) (unat (af_size f)))))"
    "(if fh_cur_offset (move_fh ch fh) \<noteq> fh_size (move_fh ch fh) \<and>
         fh_cur_soffset (move_fh ch fh) = 0
      then ee_next_sector (move_fh ch fh) s else Some (move_fh ch fh, s)) = Some (fh', s')"
    "rh_ok fh' f (p + unat ch)" "fs_ok s' fl" "eeprom s' = eeprom s"
proof -
  let ?N = "unat (af_size f)" and ?q = "p div 64" and ?k = "unat ch"
  have p: "p < ?N" using len by simp
  have N: "?N \<le> 64 * length (af_secs f)" using fs_okD(4) [OF fs f] by (simp add: file_ok_def)
  have at: "at_sector fh f ?q" and so: "unat (fh_cur_soffset fh) = p mod 64"
    and off: "unat (fh_cur_offset fh) = p" and sz: "fh_size fh = af_size f"
    using rh p by (simp_all add: rh_ok_def)
  have k: "?k = min (unat len) (64 - p mod 64)" using chunk_size_val [of fh len] so ch by simp
  have k0: "0 < ?k" "?k \<le> unat len" "p mod 64 + ?k \<le> 64" using k len by auto
  have q: "?q < length (af_secs f)" using p N by (simp add: less_mult_imp_div_less mult.commute)
  then have "af_secs f ! ?q < 52" using fs_okD(8) [OF fs] secs_in [OF f] nth_mem by blast
  then have sec: "unat (fh_cur_sector fh) = af_secs f ! ?q" "af_secs f ! ?q < 52"
    using at by (simp_all add: at_sector_def unat_of_nat_u8)
  have rd: "eeprom_read_block (eeprom s) (sector_addr fh) ?k =
      Some (take ?k (drop p (contents (eeprom s) (af_secs f) ?N)))"
  proof -
    have "take ?k (drop p (contents (eeprom s) (af_secs f) ?N)) =
          take ?k (drop p (concat (map (sec (eeprom s)) (af_secs f))))"
      using k0 len by (simp add: contents_def drop_take)
    then show ?thesis
      using contents_slice [OF q k0(3), of "eeprom s"] sec so k0(3)
      by (simp add: eeprom_read_block_def sector_addr_def)
  qed
  have lim: "p + ?k \<le> ?N" "?N < 65536"
    using k0 len unsigned_less [of "af_size f", where 'a = nat] by auto
  have off': "unat (fh_cur_offset (move_fh ch fh)) = p + ?k"
    using off lim by (simp add: move_fh_def unat_add_u16)
  have so': "unat (fh_cur_soffset (move_fh ch fh)) = (p + ?k) mod 64"
    using so by (simp add: move_fh_def unat_of_nat_u8 mod_add_left_eq)
  have same: "fh_filemode (move_fh ch fh) = fh_filemode fh" "fh_size (move_fh ch fh) = af_size f"
    "at_sector (move_fh ch fh) f ?q"
    using at sz by (simp_all add: move_fh_def at_sector_def)
  have mode: "fh_filemode fh = EEFS_MODE_READ" using rh by (simp add: rh_ok_def)
  show ?thesis
  proof (cases "p + ?k < ?N \<and> (p + ?k) mod 64 = 0")
    case True
    have full: "p mod 64 + ?k = 64"
    proof (rule ccontr)
      assume "p mod 64 + ?k \<noteq> 64"
      then have "(p mod 64 + ?k) mod 64 = p mod 64 + ?k" using k0(3) by simp
      then show False using True k0(1) mod_add_left_eq [of p 64 ?k] by linarith
    qed
    then have nq: "(p + ?k) div 64 = Suc ?q"
      using div_add_split [of p ?k] by simp
    have cond: "fh_cur_offset (move_fh ch fh) \<noteq> fh_size (move_fh ch fh)"
      "fh_cur_soffset (move_fh ch fh) = 0"
      using True off' so' same(2) by (auto simp: unat_eq_0 [symmetric])
    have "Suc ?q < length (af_secs f)"
      using True N nq by (metis less_mult_imp_div_less mult.commute order_less_le_trans)
    from ee_next_sector_ok [OF fs f same(3) this]
    obtain fh' s' where "ee_next_sector (move_fh ch fh) s = Some (fh', s')"
      "at_sector fh' f (Suc ?q)" "fs_ok s' fl" "eeprom s' = eeprom s"
      "fh_cur_offset fh' = fh_cur_offset (move_fh ch fh)" "fh_size fh' = fh_size (move_fh ch fh)"
      "fh_cur_soffset fh' = fh_cur_soffset (move_fh ch fh)"
      "fh_filemode fh' = fh_filemode (move_fh ch fh)" by metis
    then show ?thesis
      using that [of fh' s'] k0 rd cond off' so' same(1,2) mode lim nq by (simp add: rh_ok_def)
  next
    case False
    then have cond: "\<not> (fh_cur_offset (move_fh ch fh) \<noteq> fh_size (move_fh ch fh) \<and>
        fh_cur_soffset (move_fh ch fh) = 0)"
      using off' so' same(2) lim by (auto simp: word_unat_eq_iff)
    have "at_sector (move_fh ch fh) f ((p + ?k) div 64)" if "p + ?k < ?N"
    proof -
      have "p mod 64 + ?k < 64" using False that k0(3) mod_add_left_eq [of p 64 ?k]
        by (cases "p mod 64 + ?k = 64") auto
      then have "(p + ?k) div 64 = ?q" using div_add_split [of p ?k] by simp
      then show ?thesis using same(3) by simp
    qed
    then have "rh_ok (move_fh ch fh) f (p + ?k)"
      using off' so' same(1,2) mode lim by (simp add: rh_ok_def)
    then show ?thesis using that [of "move_fh ch fh" s] k0 rd cond fs by simp
  qed
qed

lemma read_loop_ok:
  assumes "fs_ok s fl" "f \<in> set fl" "rh_ok fh f p" "p + unat len \<le> unat (af_size f)" "unat len < n"
  shows "\<exists>fh' s'. eepromfs_read_loop n fh acc len s =
      Some (fh', acc @ take (unat len) (drop p (contents (eeprom s) (af_secs f) (unat (af_size f)))), s') \<and>
    rh_ok fh' f (p + unat len) \<and> fs_ok s' fl \<and> eeprom s' = eeprom s"
  using assms(1,3-)
proof (induction n arbitrary: fh acc len s p)
  case 0
  then show ?case by simp
next
  case (Suc n)
  show ?case
  proof (cases "len = 0")
    case True
    then show ?thesis using Suc.prems by simp
  next
    case False
    then have len0: "0 < unat len" by (simp add: unat_gt_0)
    define ch where "ch = chunk_size len fh"
    obtain fh1 s1 where S: "0 < unat ch" "unat ch \<le> unat len"
      "eeprom_read_block (eeprom s) (sector_addr fh) (unat ch) =
         Some (take (unat ch) (drop p (contents (eeprom s) (af_secs f) (unat (af_size f)))))"
      "(if fh_cur_offset (move_fh ch fh) \<noteq> fh_size (move_fh ch fh) \<and>
           fh_cur_soffset (move_fh ch fh) = 0
        then ee_next_sector (move_fh ch fh) s else Some (move_fh ch fh, s)) = Some (fh1, s1)"
      "rh_ok fh1 f (p + unat ch)" "fs_ok s1 fl" "eeprom s1 = eeprom s"
      using read_step [OF Suc.prems(1) assms(2) Suc.prems(2) len0 Suc.prems(3) ch_def] by blast
    let ?D = "contents (eeprom s) (af_secs f) (unat (af_size f))"
    have l: "unat (len - ucast ch) = unat len - unat ch"
      using S(2) by (subst unat_diff_u16) simp_all
    have c: "p + unat ch + unat (len - ucast ch) \<le> unat (af_size f)" "unat (len - ucast ch) < n"
      using l S(1,2) Suc.prems(3,4) by auto
    obtain fh' s' where R: "eepromfs_read_loop n fh1 (acc @ take (unat ch) (drop p ?D)) (len - ucast ch) s1 =
        Some (fh', (acc @ take (unat ch) (drop p ?D)) @
                   take (unat len - unat ch) (drop (p + unat ch) ?D), s')"
      "rh_ok fh' f (p + unat ch + (unat len - unat ch))" "fs_ok s' fl" "eeprom s' = eeprom s"
      using Suc.IH [OF S(6,5) c, of "acc @ take (unat ch) (drop p ?D)"] S(7) unfolding l by auto
    have t: "take (unat ch) (drop p ?D) @ take (unat len - unat ch) (drop (p + unat ch) ?D) =
        take (unat len) (drop p ?D)"
      using S(2) take_add [of "unat ch" "unat len - unat ch" "drop p ?D"]
      by (simp add: add.commute)
    have "eepromfs_read_loop (Suc n) fh acc len s =
        Some (fh', acc @ take (unat len) (drop p ?D), s')"
      using False S(3,4) R(1) t
      by (simp add: Let_def ch_def [symmetric] move_fh_def [unfolded EEPROMFS_SECTORSIZE_def, symmetric])
    then show ?thesis using R S(2) by simp
  qed
qed

lemma eepromfs_read_ok:
  assumes "fs_ok s fl" "f \<in> set fl" "rh_ok fh f p"
  obtains fh' s' where
    "eepromfs_read fh len s = Some (EEFS_ERROR_OK, fh',
       take (unat len) (drop p (contents (eeprom s) (af_secs f) (unat (af_size f)))), s')"
    "rh_ok fh' f (min (p + unat len) (unat (af_size f)))" "fs_ok s' fl" "eeprom s' = eeprom s"
proof -
  let ?N = "unat (af_size f)" and ?D = "contents (eeprom s) (af_secs f) (unat (af_size f))"
  define l where "l = (if fh_size fh - fh_cur_offset fh < len then fh_size fh - fh_cur_offset fh else len)"
  have p: "p \<le> ?N" and d: "unat (fh_size fh - fh_cur_offset fh) = ?N - p"
    using assms(3) by (auto simp: rh_ok_def unat_diff_u16)
  have ul: "unat l = min (unat len) (?N - p)"
    using d by (auto simp: l_def word_less_nat_alt)
  have b: "p + unat l \<le> ?N" "unat l < unat l + 1" using ul p by auto
  obtain fh' s' where R: "eepromfs_read_loop (unat l + 1) fh [] l s =
      Some (fh', [] @ take (unat l) (drop p ?D), s')"
    "rh_ok fh' f (p + unat l)" "fs_ok s' fl" "eeprom s' = eeprom s"
    using read_loop_ok [OF assms b, of "[]"] by blast
  have "length ?D = ?N"
    using fs_okD(4) [OF assms(1,2)] by (simp add: length_contents file_ok_def)
  then have "take (unat l) (drop p ?D) = take (unat len) (drop p ?D)" using ul by (simp add: min_def)
  moreover have "p + unat l = min (p + unat len) ?N" using ul p by auto
  moreover have "fh_filemode fh = EEFS_MODE_READ" using assms(3) by (simp add: rh_ok_def)
  ultimately show ?thesis
    using that [of fh' s'] R by (simp add: eepromfs_read_def l_def [symmetric] Let_def)
qed

end
