(* ===== verification/Eepromfs_Dir.thy ===== *)
theory Eepromfs_Dir
  imports Eepromfs_Read
begin

text \<open>
  Directory operations of the EEPROM file system: look-up by name, opening for reading and
  writing, close, rename, delete, and the scan at initialisation that rebuilds the
  bookkeeping from the EEPROM contents.
\<close>

section \<open>Look-up\<close>

lemma load_load [simp]: "load i (load j s) = load i s"
  by (simp add: load_def)

lemma head_entry:
  assumes "fs_ok s fl" "f \<in> set fl"
  shows "hd (af_ents f) < 8" "hd (af_ents f) \<in> set (af_ents f)" "af_ents f \<noteq> []"
    "ent_flags (ent (eeprom s) (hd (af_ents f))) = 0"
    "ent_name (ent (eeprom s) (hd (af_ents f))) = af_name f"
    "ent_size (ent (eeprom s) (hd (af_ents f))) = af_size f"
proof -
  note D = fs_okD [OF assms(1)]
  have fo: "file_ok (eeprom s) f" using D(4) [OF assms(2)] .
  show ne: "af_ents f \<noteq> []" using fo by (rule file_ok_ents)
  show h: "hd (af_ents f) \<in> set (af_ents f)" using ne by simp
  show "hd (af_ents f) < 8" using h ents_in [OF assms(2)] D(6) by blast
  have "entry_ok (ent (eeprom s) (af_ents f ! 0)) (chunk 0 (af_secs f)) 0 (link (af_ents f) 0)"
    using fo ne by (auto simp: file_ok_def chain_ok_def)
  then show "ent_flags (ent (eeprom s) (hd (af_ents f))) = 0"
    using ne by (simp add: entry_ok_def hd_conv_nth)
  show "ent_name (ent (eeprom s) (hd (af_ents f))) = af_name f"
    "ent_size (ent (eeprom s) (hd (af_ents f))) = af_size f"
    using fo by (simp_all add: file_ok_def)
qed

lemma entry_cases:
  assumes "fs_ok s fl" "i < 8"
  obtains (dead) "ent_flags (ent (eeprom s) i) AND (EEFS_FLAG_DELETED OR EEFS_FLAG_LISTENTRY) \<noteq> 0"
  | (head) f where "f \<in> set fl" "i = hd (af_ents f)" "ent_flags (ent (eeprom s) i) = 0"
      "ent_name (ent (eeprom s) i) = af_name f"
proof (cases "i \<in> set (all_ents fl)")
  case False
  then have "ent_flags (ent (eeprom s) i) AND 1 \<noteq> 0" using fs_okD(10) [OF assms(1)] assms(2) by blast
  then have "bit (ent_flags (ent (eeprom s) i)) 0"
    using and_pow2_neq_0 [of 0] by simp
  then have "bit (ent_flags (ent (eeprom s) i) AND 3) 0" by (simp add: bit_simps)
  then show ?thesis using dead by force
next
  case True
  then obtain f where f: "f \<in> set fl" "i \<in> set (af_ents f)" by (auto simp: all_ents_def)
  then obtain k where k: "k < length (af_ents f)" "af_ents f ! k = i" by (auto simp: in_set_conv_nth)
  show ?thesis
  proof (cases "k = 0")
    case True
    then have "i = hd (af_ents f)" using k by (cases "af_ents f") auto
    then show ?thesis using head f head_entry [OF assms(1) f(1)] by blast
  next
    case False
    then have "ent_flags (ent (eeprom s) i) = 2"
      using chain_entry(4) [OF assms(1) f(1) k(1)] k(2) by (simp add: entry_ok_def)
    then show ?thesis using dead by simp
  qed
qed

lemma read_entry_lt8: "i < 8 \<Longrightarrow> ee_read_entry (of_nat i) s = Some (load i s)"
  by (simp add: ee_read_entry_load unat_of_nat_u8)

lemma find_entry_loop_none:
  assumes "fs_ok s fl" "\<forall>f \<in> set fl. af_name f \<noteq> name" "length name = 16" "j \<le> 8"
  shows "find_entry_loop [j..<8] name s = Some (0xff, if j < 8 then load 7 s else s)"
  using assms(1,4)
proof (induction "8 - j" arbitrary: j s)
  case 0
  then show ?case by simp
next
  case (Suc n)
  then have j: "j < 8" and up: "[j..<8] = j # [Suc j..<8]" by (simp_all add: upt_conv_Cons)
  have IH: "find_entry_loop [Suc j..<8] name (load j s) = Some (0xff, load 7 s)"
  proof (cases "Suc j = 8")
    case True
    then have "j = 7" by simp
    then show ?thesis by simp
  next
    case False
    then show ?thesis
      using Suc.hyps(1) [of "Suc j" "load j s"] Suc.hyps(2) j fs_ok_load [OF Suc.prems(1)] by simp
  qed
  show ?case
  proof (cases rule: entry_cases [OF Suc.prems(1) j])
    case 1
    then show ?thesis using IH j up by (simp add: read_entry_lt8)
  next
    case (2 f)
    then show ?thesis using IH j up assms(2,3) by (simp add: read_entry_lt8)
  qed
qed

lemma find_entry_none:
  "fs_ok s fl \<Longrightarrow> \<forall>f \<in> set fl. af_name f \<noteq> name \<Longrightarrow> length name = 16 \<Longrightarrow>
   find_entry name s = Some (0xff, load 7 s)"
  using find_entry_loop_none [of s fl name 0] by (simp add: find_entry_def)

lemma find_entry_loop_some:
  assumes "fs_ok s fl" "f \<in> set fl" "j \<le> hd (af_ents f)"
  shows "find_entry_loop [j..<8] (af_name f) s =
         Some (of_nat (hd (af_ents f)), load (hd (af_ents f)) s)"
  using assms(1,3)
proof (induction "hd (af_ents f) - j" arbitrary: j s)
  case 0
  note H = head_entry [OF 0(2) assms(2)]
  have j: "j = hd (af_ents f)" using 0 by simp
  have up: "[j..<8] = j # [Suc j..<8]" using H(1) j by (simp add: upt_conv_Cons)
  have l: "length (af_name f) \<le> 16" unfolding H(5) [symmetric] by (simp add: ent_name_def)
  show ?case using H j up l by (simp add: read_entry_lt8)
next
  case (Suc n)
  note H = head_entry [OF Suc.prems(1) assms(2)]
  have j: "j < hd (af_ents f)" "j < 8" using Suc.hyps(2) H(1) by simp_all
  have up: "[j..<8] = j # [Suc j..<8]" using j by (simp add: upt_conv_Cons)
  have IH: "find_entry_loop [Suc j..<8] (af_name f) (load j s) =
      Some (of_nat (hd (af_ents f)), load (hd (af_ents f)) s)"
    using Suc.hyps(1) [of "Suc j" "load j s"] Suc.hyps(2) j fs_ok_load [OF Suc.prems(1)] by simp
  show ?case
  proof (cases rule: entry_cases [OF Suc.prems(1) j(2)])
    case 1
    then show ?thesis using IH j up by (simp add: read_entry_lt8)
  next
    case (2 g)
    then have "g \<noteq> f" using j by auto
    then have "af_name g \<noteq> af_name f"
      using fs_okD(9) [OF Suc.prems(1)] 2(1) assms(2) by (auto simp: distinct_map dest: inj_onD)
    moreover have "length (af_name f) \<le> 16" unfolding H(5) [symmetric] by (simp add: ent_name_def)
    ultimately show ?thesis using 2 IH j up by (simp add: read_entry_lt8)
  qed
qed

lemma find_entry_some:
  "fs_ok s fl \<Longrightarrow> f \<in> set fl \<Longrightarrow>
   find_entry (af_name f) s = Some (of_nat (hd (af_ents f)), load (hd (af_ents f)) s)"
  using find_entry_loop_some [of s fl f 0] by (simp add: find_entry_def)

lemma fs_ok_perm: "fs_ok s (xs @ f # ys) = fs_ok s (f # xs @ ys)"
  unfolding fs_ok_def by (auto simp: Int_commute Un_commute)

section \<open>Open\<close>

lemma eepromfs_open_read_ok:
  assumes fs: "fs_ok s fl" and f: "f \<in> set fl"
  obtains fh s' where "eepromfs_open (af_name f) EEFS_MODE_READ s = Some (EEFS_ERROR_OK, fh, s')"
    "rh_ok fh f 0" "fs_ok s' fl" "eeprom s' = eeprom s"
proof -
  note H = head_entry [OF fs f]
  let ?h = "hd (af_ents f)"
  let ?fh = "fh_zero\<lparr>fh_entry := of_nat ?h, fh_size := af_size f,
      fh_cur_sector := ent (eeprom s) ?h ! 0, fh_cur_entry := of_nat ?h, fh_filemode := EEFS_MODE_READ\<rparr>"
  have hf: "of_nat ?h \<noteq> (0xff :: u8)" using H(1) by (simp add: u8_eq_iff unat_of_nat_u8)
  have "eepromfs_open (af_name f) EEFS_MODE_READ s = Some (EEFS_ERROR_OK, ?fh, load ?h s)"
    using find_entry_some [OF fs f] hf H by (simp add: eepromfs_open_def Let_def nth_append)
  moreover have "rh_ok ?fh f 0"
  proof -
    have "at_sector ?fh f 0" if "0 < unat (af_size f)"
    proof -
      have ne: "0 < length (af_secs f)" using fs_okD(4) [OF fs f] that by (auto simp: file_ok_def)
      have h: "?h = af_ents f ! 0" using H(3) by (simp add: hd_conv_nth)
      have "ent (eeprom s) (af_ents f ! 0) ! 0 = of_nat (chunk 0 (af_secs f) ! 0)"
        using chain_entry(4) [OF fs f, of 0] H(3) ne entry_ok_nth [of _ "chunk 0 (af_secs f)" 0 _ 0]
        by (simp add: chunk_def)
      then show ?thesis using h ne by (simp add: at_sector_def eo_def po_def chunk_def fh_zero_def)
    qed
    then show ?thesis by (simp add: rh_ok_def fh_zero_def)
  qed
  ultimately show ?thesis using that fs_ok_load [OF fs] by simp
qed

lemma new_nameentry_fields:
  fixes r :: "u8 list"
  assumes "length name = 16" "length e = 32" and n_def: "n = take 32 (new_nameentry name (e @ r))"
  shows "length n = 32" "ent_name n = name" "ent_size n = 0"
    "entry_ok n [] 0 0xff" "new_nameentry name (e @ r) = n @ r"
proof -
  have eq: "new_nameentry name (e @ r) = (replicate 12 0xff @ name @ [0, 0, 0, 0xff]) @ r"
    using assms(1,2)
    by (simp add: new_nameentry_def set_ent_size_def put_at_def list_update_append
        numeral_eq_Suc)
  then have n: "n = replicate 12 0xff @ name @ [0, 0, 0, 0xff]"
    using assms(1) by (simp add: n_def)
  show "length n = 32" "ent_name n = name" "ent_size n = 0" "new_nameentry name (e @ r) = n @ r"
    using assms(1) eq by (simp_all add: n ent_name_def ent_size_def nth_append)
  show "entry_ok n [] 0 0xff"
    using assms(1) by (simp add: n entry_ok_def cap_def nth_append ent_flags_def ent_next_def)
qed

lemma rest_ok_frame:
  assumes fs: "fs_ok s fl" and "g \<in> set fl"
    and "\<And>i. i \<in> set (af_ents g) \<Longrightarrow> i < 8 \<Longrightarrow> ent m' i = ent (eeprom s) i"
  shows "file_ok m' g"
proof -
  have "ent m' i = ent (eeprom s) i" if "i \<in> set (af_ents g)" for i
    using assms(3) [OF that] that ents_in [OF assms(2)] fs_okD(6) [OF fs] by blast
  then show ?thesis using fs_okD(4) [OF assms(1,2)] file_ok_frame [of g m' "eeprom s"] by blast
qed

lemma fs_ok_add:
  assumes fs: "fs_ok s fl" and j: "j < 8" "j \<notin> set (all_ents fl)"
    and e: "length e = 32" "entry_ok e [] 0 0xff" "ent_name e = name" "ent_size e = 0"
    and fresh: "\<forall>f \<in> set fl. af_name f \<noteq> name"
    and s': "eeprom s' = write_block (eeprom s) (512 + 32 * j) e" "length (ops_scratch s') = 33"
      "used_sectors s' = used_sectors s" "free_sectors s' = free_sectors s"
      "used_entries s' = bm_set (used_entries s) j True"
  shows "fs_ok s' (\<lparr>af_name = name, af_size = 0, af_ents = [j], af_secs = []\<rparr> # fl)"
proof -
  note D = fs_okD [OF fs]
  let ?f = "\<lparr>af_name = name, af_size = 0, af_ents = [j], af_secs = []\<rparr>"
  have m': "ent (eeprom s') i = (if i = j then e else ent (eeprom s) i)" for i
    using e(1) by (simp add: s' ent_write_ent)
  have f: "file_ok (eeprom s') ?f"
    using e by (simp add: file_ok_def chain_ok_def m' nents_def chunk_def link_def)
  have rest: "file_ok (eeprom s') g" if "g \<in> set fl" for g
    using j(2) ents_in [OF that] by (intro rest_ok_frame [OF fs that]) (auto simp: m')
  have ue: "bm_get (used_entries s') i" if "i \<in> set (all_ents (?f # fl))" for i
  proof -
    have "i < 8" using that j(1) D(6) by auto
    then show ?thesis using that D(3) D(11) [of i] j(1) s'(5) by (auto simp: bm_get_set)
  qed
  show ?thesis
    unfolding fs_ok_def
    using s' D(2,3) f rest j D(5-9) fresh D(10) m' ue D(12,13) by auto
qed

lemma eepromfs_open_exists:
  assumes "fs_ok s fl" "f \<in> set fl"
  shows "eepromfs_open (af_name f) EEFS_MODE_WRITE s =
    Some (EEFS_ERROR_FILEEXISTS, fh_zero, load (hd (af_ents f)) s)"
proof -
  have "of_nat (hd (af_ents f)) \<noteq> (0xff :: u8)"
    using head_entry(1) [OF assms] by (simp add: u8_eq_iff unat_of_nat_u8)
  then show ?thesis using find_entry_some [OF assms] by (simp add: eepromfs_open_def)
qed

lemma eepromfs_open_missing:
  assumes "fs_ok s fl" "\<forall>f \<in> set fl. af_name f \<noteq> name" "length name = 16" "flags \<noteq> EEFS_MODE_WRITE"
  shows "eepromfs_open name flags s = Some (EEFS_ERROR_FILENOTFOUND, fh_zero, load 7 s)"
  using find_entry_none [OF assms(1-3)] assms(4) by (simp add: eepromfs_open_def)

text \<open>Creating a file: it is empty, owns one directory entry and no sector.\<close>

lemma eepromfs_open_write_ok:
  assumes fs: "fs_ok s fl" and fresh: "\<forall>f \<in> set fl. af_name f \<noteq> name" and nm: "length name = 16"
  obtains (dirfull) fh where "eepromfs_open name EEFS_MODE_WRITE s = Some (EEFS_ERROR_DIRFULL, fh, load 7 s)"
      "\<forall>i < 8. bm_get (used_entries s) i"
  | (ok) fh s' j where "eepromfs_open name EEFS_MODE_WRITE s = Some (EEFS_ERROR_OK, fh, s')"
      "fs_ok s' (\<lparr>af_name = name, af_size = 0, af_ents = [j], af_secs = []\<rparr> # fl)"
      "wh_ok fh \<lparr>af_name = name, af_size = 0, af_ents = [j], af_secs = []\<rparr> 0"
      "\<forall>k. sec (eeprom s') k = sec (eeprom s) k" "j < 8" "\<not> bm_get (used_entries s) j"
proof (cases rule: next_free_entry_ok [OF fs_ok_load [OF fs, of 7], of 0, simplified])
  case 1
  then show ?thesis
    using dirfull find_entry_none [OF fs fresh nm] by (simp add: eepromfs_open_def)
next
  case (2 j)
  define sc where "sc = ent (eeprom s) 7 @ drop 32 (ops_scratch s)"
  define e where "e = take 32 (new_nameentry name sc)"
  note E = new_nameentry_fields [OF nm length_ent e_def [unfolded sc_def]]
  define s' where "s' = s\<lparr>ops_scratch := e @ drop 32 (ops_scratch s),
      used_entries := bm_set (used_entries s) j True,
      eeprom := write_block (eeprom s) (512 + 32 * j) e\<rparr>"
  define fh where "fh = fh_zero\<lparr>fh_entry := of_nat j, fh_cur_entry := of_nat j,
      fh_cur_sindex := - 1, fh_filemode := EEFS_MODE_WRITE\<rparr>"
  have jf: "of_nat j \<noteq> (0xff :: u8)" "unat (of_nat j :: u8) = j"
    using 2(2) by (simp_all add: u8_eq_iff unat_of_nat_u8)
  have run: "eepromfs_open name EEFS_MODE_WRITE s = Some (EEFS_ERROR_OK, fh, s')"
    using find_entry_none [OF fs fresh nm] 2 jf E
    by (simp add: eepromfs_open_def ee_write_entry_store fh_def s'_def load_def)
  have fs': "fs_ok s' (\<lparr>af_name = name, af_size = 0, af_ents = [j], af_secs = []\<rparr> # fl)"
    by (rule fs_ok_add [OF fs 2(2,3) E(1,4,2,3) fresh])
      (use E(1) fs_okD(1) [OF fs] in \<open>simp_all add: s'_def\<close>)
  have wh: "wh_ok fh \<lparr>af_name = name, af_size = 0, af_ents = [j], af_secs = []\<rparr> 0"
    by (simp add: wh_ok_def wh_core_def fh_def fh_zero_def chunk_def)
  have "\<forall>k. sec (eeprom s') k = sec (eeprom s) k"
    using 2(2) E(1) by (simp add: s'_def sec_write_ent)
  then show ?thesis using ok run fs' wh 2(2,4) by blast
qed

end
