(* ===== verification/Eepromfs_Del.thy ===== *)
theory Eepromfs_Del
  imports Eepromfs_Dir
begin

text \<open>
  Close, rename and delete of the EEPROM file system.  Close and rename rewrite the name
  entry of one file; delete frees every sector of the file and erases its entry chain.
\<close>

section \<open>Rewriting a name entry\<close>

lemma entry_ok_meta:
  assumes "entry_ok e c 0 nx" "\<forall>j < 12. e' ! j = e ! j" "e' ! 30 = e ! 30" "e' ! 31 = e ! 31"
  shows "entry_ok e' c 0 nx"
  using assms by (simp add: entry_ok_def cap_def ent_flags_def ent_next_def)

lemma file_ok_meta:
  assumes fo: "file_ok m f" and d: "distinct (af_ents f)"
    and e': "length e' = 32" "\<forall>j < 12. e' ! j = ent m (hd (af_ents f)) ! j"
      "e' ! 30 = ent m (hd (af_ents f)) ! 30" "e' ! 31 = ent m (hd (af_ents f)) ! 31"
    and m': "\<And>i. ent m' i = (if i = hd (af_ents f) then e' else ent m i)"
    and sz: "unat (ent_size e') \<le> 64 * length (af_secs f)"
  shows "file_ok m' (f\<lparr>af_name := ent_name e', af_size := ent_size e'\<rparr>)"
proof -
  have ne: "af_ents f \<noteq> []" using fo by (rule file_ok_ents)
  have "entry_ok (ent m' (af_ents f ! k)) (chunk k (af_secs f)) k (link (af_ents f) k)"
    if k: "k < length (af_ents f)" for k
  proof -
    have ek: "entry_ok (ent m (af_ents f ! k)) (chunk k (af_secs f)) k (link (af_ents f) k)"
      using fo k by (simp add: file_ok_def chain_ok_def)
    show ?thesis
    proof (cases "k = 0")
      case True
      then have "af_ents f ! k = hd (af_ents f)" using ne by (simp add: hd_conv_nth)
      then show ?thesis using ek True e' m' entry_ok_meta [of _ _ _ e'] by simp
    next
      case False
      then have "af_ents f ! k \<noteq> hd (af_ents f)"
        using k d ne nth_eq_iff_index_eq [of "af_ents f" k 0] by (simp add: hd_conv_nth)
      then show ?thesis using ek m' by simp
    qed
  qed
  then show ?thesis using fo m' sz by (simp add: file_ok_def chain_ok_def)
qed

lemma fs_ok_meta:
  assumes fs: "fs_ok s (f # rest)"
    and e': "length e' = 32" "\<forall>j < 12. e' ! j = ent (eeprom s) (hd (af_ents f)) ! j"
      "e' ! 30 = ent (eeprom s) (hd (af_ents f)) ! 30" "e' ! 31 = ent (eeprom s) (hd (af_ents f)) ! 31"
    and sz: "unat (ent_size e') \<le> 64 * length (af_secs f)"
    and nm: "\<forall>g \<in> set rest. af_name g \<noteq> ent_name e'"
    and s': "eeprom s' = write_block (eeprom s) (512 + 32 * hd (af_ents f)) e'"
      "length (ops_scratch s') = 33" "used_sectors s' = used_sectors s"
      "free_sectors s' = free_sectors s" "used_entries s' = used_entries s"
  shows "fs_ok s' (f\<lparr>af_name := ent_name e', af_size := ent_size e'\<rparr> # rest)"
    "\<And>k. sec (eeprom s') k = sec (eeprom s) k"
proof -
  note D = fs_okD [OF fs]
  let ?h = "hd (af_ents f)" and ?f = "f\<lparr>af_name := ent_name e', af_size := ent_size e'\<rparr>"
  have h: "?h < 8" "?h \<in> set (af_ents f)" using head_entry [OF fs] by simp_all
  have m': "ent (eeprom s') i = (if i = ?h then e' else ent (eeprom s) i)" for i
    using e'(1) by (simp add: s' ent_write_ent)
  have fo: "file_ok (eeprom s') ?f"
    using D(4) [of f] D(5) by (intro file_ok_meta [OF _ _ e' m' sz]) simp_all
  have rest: "file_ok (eeprom s') g" if "g \<in> set rest" for g
    using h D(5) ents_in [OF that] that by (intro rest_ok_frame [OF fs]) (auto simp: m')
  have fl: "ent_flags (ent (eeprom s') i) AND 1 \<noteq> 0" if "i < 8" "i \<notin> set (all_ents (?f # rest))" for i
    using that h D(10) [of i] by (auto simp: m')
  show "fs_ok s' (?f # rest)"
    unfolding fs_ok_def using s' D nm fo rest fl by auto
  show "sec (eeprom s') k = sec (eeprom s) k" for k
    using h(1) e'(1) by (simp add: s' sec_write_ent)
qed

lemma ent_name_set_size [simp]: "length e = 32 \<Longrightarrow> ent_name (set_ent_size n e) = ent_name e"
  by (auto simp: ent_name_def list_eq_iff_nth_eq)

lemma set_ent_size_append: "length e = 32 \<Longrightarrow> set_ent_size n (e @ r) = set_ent_size n e @ r"
  by (simp add: set_ent_size_def put_at_def)

lemma eepromfs_close_write_ok:
  assumes fs: "fs_ok s (f # rest)" and fh: "fh_entry fh = of_nat (hd (af_ents f))"
    "fh_filemode fh \<noteq> EEFS_MODE_READ" and sz: "unat (fh_size fh) \<le> 64 * length (af_secs f)"
  obtains s' where "eepromfs_close fh s = Some (fh\<lparr>fh_filemode := 0\<rparr>, s')"
    "fs_ok s' (f\<lparr>af_size := fh_size fh\<rparr> # rest)" "\<forall>k. sec (eeprom s') k = sec (eeprom s) k"
    "used_entries s' = used_entries s"
proof -
  note H = head_entry [OF fs, of f, simplified] and D = fs_okD [OF fs]
  let ?h = "hd (af_ents f)"
  let ?e = "set_ent_size (fh_size fh) (ent (eeprom s) ?h)"
  define s' where "s' = s\<lparr>ops_scratch := ?e @ drop 32 (ops_scratch s),
     eeprom := write_block (eeprom s) (512 + 32 * ?h) ?e\<rparr>"
  have u: "unat (of_nat ?h :: u8) = ?h" using H(1) by (simp add: unat_of_nat_u8)
  have run: "eepromfs_close fh s = Some (fh\<lparr>fh_filemode := 0\<rparr>, s')"
    using fh H(1) u
    by (simp add: eepromfs_close_def ee_read_entry_load ee_write_entry_store set_ent_size_append
        s'_def load_def)
  have nm: "\<forall>g \<in> set rest. af_name g \<noteq> ent_name ?e" using D(9) H(5) by (auto simp: image_iff)
  have "fs_ok s' (f\<lparr>af_name := ent_name ?e, af_size := ent_size ?e\<rparr> # rest)"
    "\<And>k. sec (eeprom s') k = sec (eeprom s) k"
    by (rule fs_ok_meta [OF fs _ _ _ _ _ nm]; use sz D(1) in \<open>simp add: s'_def\<close>)+
  moreover have "f\<lparr>af_name := ent_name ?e, af_size := ent_size ?e\<rparr> = f\<lparr>af_size := fh_size fh\<rparr>"
    using H(5) by simp
  ultimately show ?thesis using that [OF run] by (simp add: s'_def)
qed

section \<open>Rename\<close>

lemma rename_entry:
  assumes "length e = 32" "length name = 16"
  shows "length (put_at 12 name e) = 32" "ent_name (put_at 12 name e) = name"
    "ent_size (put_at 12 name e) = ent_size e" "\<forall>j < 12. put_at 12 name e ! j = e ! j"
    "put_at 12 name e ! 30 = e ! 30" "put_at 12 name e ! 31 = e ! 31"
    "put_at 12 name (e @ r) = put_at 12 name e @ r"
  using assms by (simp_all add: block_simps ent_size_def, simp_all add: put_at_def ent_name_def)

lemma eepromfs_rename_ok:
  assumes fs: "fs_ok s (f # rest)" and fresh: "\<forall>g \<in> set (f # rest). af_name g \<noteq> new"
    and len: "length new = 16"
  obtains s' where "eepromfs_rename (af_name f) new s = Some (EEFS_ERROR_OK, s')"
    "fs_ok s' (f\<lparr>af_name := new\<rparr> # rest)" "\<forall>k. sec (eeprom s') k = sec (eeprom s) k"
proof -
  note H = head_entry [OF fs, of f, simplified] and D = fs_okD [OF fs]
  let ?h = "hd (af_ents f)"
  let ?e = "put_at 12 new (ent (eeprom s) ?h)"
  note R = rename_entry [OF length_ent len, of "eeprom s" ?h]
  define s' where "s' = s\<lparr>ops_scratch := ?e @ drop 32 (ops_scratch s),
     eeprom := write_block (eeprom s) (512 + 32 * ?h) ?e\<rparr>"
  have u: "unat (of_nat ?h :: u8) = ?h" "of_nat ?h \<noteq> (0xff :: u8)"
    using H(1) by (simp_all add: u8_eq_iff unat_of_nat_u8)
  have run: "eepromfs_rename (af_name f) new s = Some (EEFS_ERROR_OK, s')"
    using find_entry_none [OF fs fresh len] find_entry_some [OF fs_ok_load [OF fs, of 7], of f] u H(1) R len
    by (simp add: eepromfs_rename_def ee_write_entry_store s'_def load_def)
  have "fs_ok s' (f\<lparr>af_name := ent_name ?e, af_size := ent_size ?e\<rparr> # rest)"
    "\<And>k. sec (eeprom s') k = sec (eeprom s) k"
    by (rule fs_ok_meta [OF fs R(1,4,5,6)];
        use D(1) D(4) [of f] R H fresh in \<open>simp add: s'_def file_ok_def\<close>)+
  moreover have "f\<lparr>af_name := ent_name ?e, af_size := ent_size ?e\<rparr> = f\<lparr>af_name := new\<rparr>"
    using R H(6) by simp
  ultimately show ?thesis using that [OF run] by simp
qed

lemma eepromfs_rename_errors:
  assumes fs: "fs_ok s fl" and len: "length old = 16" "length new = 16"
  shows "f \<in> set fl \<Longrightarrow> af_name f = new \<Longrightarrow>
      eepromfs_rename old new s = Some (EEFS_ERROR_FILEEXISTS, load (hd (af_ents f)) s)"
    and "\<forall>g \<in> set fl. af_name g \<noteq> old \<Longrightarrow> \<forall>g \<in> set fl. af_name g \<noteq> new \<Longrightarrow>
      eepromfs_rename old new s = Some (EEFS_ERROR_FILENOTFOUND, load 7 s)"
proof -
  show "eepromfs_rename old new s = Some (EEFS_ERROR_FILEEXISTS, load (hd (af_ents f)) s)"
    if f: "f \<in> set fl" "af_name f = new"
  proof -
    have "of_nat (hd (af_ents f)) \<noteq> (0xff :: u8)"
      using head_entry(1) [OF fs f(1)] by (simp add: u8_eq_iff unat_of_nat_u8)
    then show ?thesis using find_entry_some [OF fs f(1)] f(2) by (auto simp: eepromfs_rename_def)
  qed
  show "eepromfs_rename old new s = Some (EEFS_ERROR_FILENOTFOUND, load 7 s)"
    if "\<forall>g \<in> set fl. af_name g \<noteq> old" "\<forall>g \<in> set fl. af_name g \<noteq> new"
    using find_entry_none [OF fs that(2) len(2)] find_entry_none [OF fs_ok_load [OF fs, of 7] that(1) len(1)]
    by (simp add: eepromfs_rename_def)
qed

section \<open>Delete\<close>

definition clear_bits :: "nat list \<Rightarrow> u8 list \<Rightarrow> u8 list" where
  "clear_bits ks bm = fold (\<lambda>k bm. bm_set bm k False) ks bm"

lemma length_clear_bits [simp]: "length (clear_bits ks bm) = length bm"
  by (induction ks arbitrary: bm) (simp_all add: clear_bits_def)

lemma clear_bits_Cons: "clear_bits (k # ks) bm = clear_bits ks (bm_set bm k False)"
  by (simp add: clear_bits_def)

lemma bm_get_clear_bits [bitmap_simps]:
  assumes "set ks \<subseteq> {..<8 * length bm}" "j < 8 * length bm"
  shows "bm_get (clear_bits ks bm) j \<longleftrightarrow> bm_get bm j \<and> j \<notin> set ks"
  using assms
proof (induction ks arbitrary: bm)
  case Nil
  then show ?case by (simp add: clear_bits_def)
next
  case (Cons k ks)
  have "k div 8 < length bm" "j div 8 < length bm" using Cons.prems by auto
  then have "bm_get (bm_set bm k False) j \<longleftrightarrow> bm_get bm j \<and> j \<noteq> k" by (simp add: bm_get_set)
  then show ?case using Cons by (auto simp: clear_bits_Cons)
qed

lemma delete_sectors_ok:
  assumes e: "entry_ok e c k nx" "length e = 32" and c: "set c \<subseteq> {..<52}"
    and s: "ops_scratch s = e @ r" "length (used_sectors s) = 7" and i: "i \<le> cap k"
  shows "delete_sectors [i..<cap k] s =
    Some (s\<lparr>used_sectors := clear_bits (drop i c) (used_sectors s),
            free_sectors := free_sectors s + of_nat (length c - i)\<rparr>)"
  using s i
proof (induction "cap k - i" arbitrary: i s)
  case 0
  moreover have "length c \<le> cap k" using e by (simp add: entry_ok_def)
  ultimately show ?case by (simp add: clear_bits_def)
next
  case (Suc n)
  then have i: "i < cap k" by simp
  then have i32: "i < 32" by (simp add: cap_def split: if_splits)
  have up: "[i..<cap k] = i # [Suc i..<cap k]" using i by (simp add: upt_conv_Cons)
  show ?case
  proof (cases "i < length c")
    case False
    then have "e ! i = 0xff" using e(1) i by (simp add: entry_ok_def)
    then show ?thesis using up Suc.prems(1) i32 e(2) False by (simp add: nth_append clear_bits_def)
  next
    case True
    then have ci: "c ! i < 52" using c nth_mem by blast
    have ei: "e ! i = of_nat (c ! i)" using e(1) i True by (simp add: entry_ok_def)
    have u: "unat (of_nat (c ! i) :: u8) = c ! i" using ci by (simp add: unat_of_nat_u8)
    then have nf: "of_nat (c ! i) \<noteq> (0xff :: u8)" using ci by (simp add: u8_eq_iff)
    let ?s = "s\<lparr>used_sectors := bm_set (used_sectors s) (c ! i) False, free_sectors := free_sectors s + 1\<rparr>"
    have "mark_sector (of_nat (c ! i)) False s = Some ?s"
      using ci u Suc.prems(2) by (simp add: mark_sector_def ee_set_bit_def)
    then have "delete_sectors [i..<cap k] s = delete_sectors [Suc i..<cap k] ?s"
      using up Suc.prems(1) i32 e(2) ei nf by (simp add: nth_append)
    also have "\<dots> = Some (?s\<lparr>used_sectors := clear_bits (drop (Suc i) c) (used_sectors ?s),
            free_sectors := free_sectors ?s + of_nat (length c - Suc i)\<rparr>)"
      by (rule Suc.hyps(1)) (use Suc.hyps(2) Suc.prems i in auto)
    moreover have "drop i c = c ! i # drop (Suc i) c" using True by (rule Cons_nth_drop_Suc [symmetric])
    moreover have "free_sectors s + 1 + of_nat (length c - Suc i) = free_sectors s + of_nat (length c - i)"
      using True by (simp add: add.assoc flip: of_nat_Suc) (simp add: Suc_diff_Suc)
    ultimately show ?thesis by (simp add: clear_bits_Cons)
  qed
qed

lemma link_Cons [simp]: "link (i # es) (Suc j) = link es j"
  unfolding link_def by (rule if_cong) simp_all

text \<open>What erasing the entries \<open>es\<close> that own the sectors \<open>ss\<close> does to the state.\<close>

definition del_post ::
  "'a eefs_state_scheme \<Rightarrow> nat list \<Rightarrow> nat list \<Rightarrow> 'a eefs_state_scheme \<Rightarrow> bool" where
  "del_post s es ss s' \<longleftrightarrow>
     length (ops_scratch s') = length (ops_scratch s) \<and> used_entries s' = used_entries s \<and>
     (\<forall>i. ent (eeprom s') i = (if i \<in> set es then replicate 32 0xff else ent (eeprom s) i)) \<and>
     (\<forall>k. sec (eeprom s') k = sec (eeprom s) k) \<and>
     used_sectors s' = clear_bits ss (used_sectors s) \<and>
     free_sectors s' = free_sectors s + of_nat (length ss)"

lemma del_post_trans:
  "del_post s es ss s1 \<Longrightarrow> del_post s1 es' ss' s' \<Longrightarrow> del_post s (es @ es') (ss @ ss') s'"
  by (auto simp: del_post_def clear_bits_def add.assoc)

lemma delete_loop_ok:
  assumes "es \<noteq> []" "length cs = length es" "distinct es" "set es \<subseteq> {..<8}"
    and "set (concat cs) \<subseteq> {..<52}"
    and "\<forall>j < length es. entry_ok (ent (eeprom s) (es ! j)) (cs ! j) (k + j) (link es j)"
    and "ops_scratch s = ent (eeprom s) (hd es) @ r" "length (used_sectors s) = 7" "length es < n"
  shows "\<exists>s'. delete_loop n (of_nat (hd es)) s = Some s' \<and> del_post s es (concat cs) s'"
  using assms
proof (induction es arbitrary: cs s k r n)
  case Nil
  then show ?case by simp
next
  case (Cons i es)
  obtain c cs' where cs: "cs = c # cs'" using Cons.prems(2) by (cases cs) auto
  obtain n' where n: "n = Suc n'" "length es < n'" using Cons.prems(9) by (cases n) auto
  have i: "i < 8" using Cons.prems(4) by simp
  have u: "unat (of_nat i :: u8) = i" "of_nat i \<noteq> (0xff :: u8)"
    using i by (simp_all add: u8_eq_iff unat_of_nat_u8)
  have e: "entry_ok (ent (eeprom s) i) c k (link (i # es) 0)" using Cons.prems(6) cs by force
  have sc: "ops_scratch s = ent (eeprom s) i @ r" using Cons.prems(7) by simp
  have mx: "curentry_max_sectors s = cap k" by (rule entry_ok_max [OF e length_ent sc])
  define s1 where "s1 = s\<lparr>used_sectors := clear_bits c (used_sectors s),
      free_sectors := free_sectors s + of_nat (length c)\<rparr>"
  define s2 where "s2 = s1\<lparr>ops_scratch := replicate 32 0xff @ r,
      eeprom := write_block (eeprom s) (512 + 32 * i) (replicate 32 0xff)\<rparr>"
  have ds: "delete_sectors [0..<cap k] s = Some s1"
    using delete_sectors_ok [OF e length_ent _ sc, of 0] Cons.prems(5,8) cs by (simp add: s1_def)
  have nx: "ent_next (ops_scratch s1) = link (i # es) 0"
    using e sc by (simp add: s1_def entry_ok_def)
  have we: "ee_write_entry (of_nat i)
      (s1\<lparr>ops_scratch := put_at 0 (replicate sizeof_entry 0xff) (ops_scratch s1)\<rparr>) = Some s2"
    using i u sc by (simp add: ee_write_entry_store s1_def s2_def)
  have p2: "del_post s [i] c s2"
    using sc i by (simp add: del_post_def s1_def s2_def ent_write_ent sec_write_ent)
  have step: "delete_loop n (of_nat i) s =
      do { s \<leftarrow> (if link (i # es) 0 \<noteq> 0xff then ee_read_entry (link (i # es) 0) s2 else Some s2);
           delete_loop n' (link (i # es) 0) s }"
    using ds we u nx mx n by (simp add: Let_def)
  show ?case
  proof (cases es)
    case Nil
    then have "link (i # es) 0 = 0xff" by (simp add: link_def)
    then have "delete_loop n (of_nat i) s = Some s2" using step n by (cases n') simp_all
    moreover have "cs' = []" using Cons.prems(2) cs Nil by simp
    ultimately show ?thesis using p2 cs Nil by simp
  next
    case (Cons i2 es2)
    have i2: "i2 < 8" using Cons.prems(4) Cons by simp
    have lk: "link (i # es) 0 = of_nat i2" using Cons by (simp add: link_def)
    have u2: "unat (of_nat i2 :: u8) = i2" "of_nat i2 \<noteq> (0xff :: u8)"
      using i2 by (simp_all add: u8_eq_iff unat_of_nat_u8)
    let ?s3 = "load i2 s2"
    have st: "delete_loop n (of_nat i) s = delete_loop n' (of_nat (hd es)) ?s3"
      using step lk u2 i2 Cons by (simp add: ee_read_entry_load)
    have frame: "ent (eeprom s2) (es ! j) = ent (eeprom s) (es ! j)" if "j < length es" for j
      using Cons.prems(3) that nth_mem [OF that] by (auto simp: s2_def ent_write_ent)
    have "\<exists>s'. delete_loop n' (of_nat (hd es)) ?s3 = Some s' \<and> del_post ?s3 es (concat cs') s'"
    proof (rule Cons.IH [where k = "Suc k"])
      show "\<forall>j < length es. entry_ok (ent (eeprom ?s3) (es ! j)) (cs' ! j) (Suc k + j) (link es j)"
      proof (intro allI impI)
        fix j assume j: "j < length es"
        then have "Suc j < length (i # es)" by simp
        from Cons.prems(6) [rule_format, OF this]
        show "entry_ok (ent (eeprom ?s3) (es ! j)) (cs' ! j) (Suc k + j) (link es j)"
          using frame [OF j] cs by simp
      qed
      show "ops_scratch ?s3 = ent (eeprom ?s3) (hd es) @ r"
        using Cons by (simp add: s2_def)
    qed (use Cons.prems cs Cons n in \<open>auto simp: s2_def s1_def\<close>)
    then obtain s' where s': "delete_loop n' (of_nat (hd es)) ?s3 = Some s'" "del_post ?s3 es (concat cs') s'"
      by blast
    have "del_post s2 [] [] ?s3" by (simp add: del_post_def clear_bits_def s2_def)
    then have "del_post s ([i] @ [] @ es) (c @ [] @ concat cs') s'"
      using del_post_trans [OF p2 del_post_trans [OF _ s'(2)]] by blast
    then show ?thesis using st s'(1) cs by simp
  qed
qed

lemma concat_chunks:
  "concat (map (\<lambda>k. chunk k ss) [0..<Suc n]) = take (30 * n + 12) ss"
proof (induction n)
  case 0
  then show ?case by (simp add: chunk_def)
next
  case (Suc n)
  have "take (30 * n + 12) ss @ take 30 (drop (30 * n + 12) ss) = take (30 * Suc n + 12) ss"
    using take_add [of "30 * n + 12" 30 ss] by simp
  moreover have "chunk (Suc n) ss = take 30 (drop (30 * n + 12) ss)" by (simp add: chunk_def add.commute)
  ultimately show ?case using Suc by (simp flip: append_assoc)
qed

lemma secs_chunks: "concat (map (\<lambda>k. chunk k ss) [0..<nents (length ss)]) = ss"
proof -
  have "length ss \<le> 30 * ((length ss + 17) div 30) + 12"
    using div_mult_mod_eq [of "length ss + 17" 30] mod_less_divisor [of 30 "length ss + 17"] by linarith
  then show ?thesis unfolding nents_def concat_chunks by simp
qed

lemma fs_ok_remove:
  assumes fs: "fs_ok s (f # rest)" and p: "del_post s (af_ents f) (af_secs f) s'"
  shows "fs_ok s' rest"
proof -
  note D = fs_okD [OF fs]
  note P = p [unfolded del_post_def]
  have rest: "file_ok (eeprom s') g" if "g \<in> set rest" for g
    using that P D(5) ents_in [OF that] by (intro rest_ok_frame [OF fs]) auto
  have fl: "ent_flags (ent (eeprom s') i) AND 1 \<noteq> 0" if "i < 8" "i \<notin> set (all_ents rest)" for i
    using that P D(10) [of i] by (cases "i \<in> set (af_ents f)") (simp_all add: ent_flags_def)
  have bits: "bm_get (used_sectors s') k \<longleftrightarrow> k \<in> set (all_secs rest)" if "k < 52" for k
  proof -
    have "set (af_secs f) \<subseteq> {..<8 * length (used_sectors s)}" using D(2,8) by auto
    then show ?thesis
      using P that D(2) D(12) [OF that] D(7) by (auto simp: bm_get_clear_bits)
  qed
  have "length (all_secs (f # rest)) \<le> 52" by (rule all_secs_le [OF fs])
  then have cnt: "unat (free_sectors s') = 52 - length (all_secs rest)"
    using P D(13) by (simp add: unat_word_ariths unat_of_nat)
  show ?thesis
    unfolding fs_ok_def using P D(1-3) rest D(5-9) fl D(11) bits cnt by simp
qed

lemma eepromfs_delete_ok:
  assumes fs: "fs_ok s (f # rest)"
  obtains s' where "eepromfs_delete (af_name f) s = Some (EEFS_ERROR_OK, s')" "fs_ok s' rest"
    "\<forall>k. sec (eeprom s') k = sec (eeprom s) k" "used_entries s' = used_entries s"
proof -
  note D = fs_okD [OF fs] and H = head_entry [OF fs, of f, simplified]
  let ?s = "load (hd (af_ents f)) s" and ?cs = "map (\<lambda>k. chunk k (af_secs f)) [0..<nents (length (af_secs f))]"
  have fo: "file_ok (eeprom s) f" using D(4) by simp
  then have ln: "length (af_ents f) = nents (length (af_secs f))" by (simp add: file_ok_def)
  have "length (af_ents f) \<le> 8" using distinct_bound [of "af_ents f" 8] D(5,6) by simp
  moreover have "\<forall>j < length (af_ents f).
      entry_ok (ent (eeprom ?s) (af_ents f ! j)) (?cs ! j) (0 + j) (link (af_ents f) j)"
    using fo ln by (simp add: file_ok_def chain_ok_def)
  ultimately have "\<exists>s'. delete_loop 256 (of_nat (hd (af_ents f))) ?s = Some s' \<and>
      del_post ?s (af_ents f) (concat ?cs) s'"
    using H(3) ln D by (intro delete_loop_ok [where k = 0]) (auto simp: secs_chunks)
  then obtain s' where s': "delete_loop 256 (of_nat (hd (af_ents f))) ?s = Some s'"
    "del_post ?s (af_ents f) (af_secs f) s'" by (auto simp: secs_chunks)
  have "of_nat (hd (af_ents f)) \<noteq> (0xff :: u8)"
    using H(1) by (simp add: u8_eq_iff unat_of_nat_u8)
  then have "eepromfs_delete (af_name f) s = Some (EEFS_ERROR_OK, s')"
    using find_entry_some [OF fs, of f] s'(1) by (simp add: eepromfs_delete_def)
  moreover have "fs_ok s' rest" by (rule fs_ok_remove [OF fs_ok_load [OF fs] s'(2)])
  ultimately show ?thesis using that s'(2) by (simp add: del_post_def)
qed

lemma eepromfs_delete_missing:
  assumes "fs_ok s fl" "\<forall>f \<in> set fl. af_name f \<noteq> name" "length name = 16"
  shows "eepromfs_delete name s = Some (EEFS_ERROR_FILENOTFOUND, load 7 s)"
  using find_entry_none [OF assms] by (simp add: eepromfs_delete_def)

end
