(* ===== verification/Eepromfs_Mount.thy ===== *)
theory Eepromfs_Mount
  imports Eepromfs_Del
begin

text \<open>
  Initialisation, formatting and directory listing.  \<open>eepromfs_init\<close> rebuilds both bitmaps
  and the free counter from the directory in the EEPROM alone, so what it needs is
  \<open>disk_ok\<close>, the part of the invariant that survives a power cycle.
\<close>

section \<open>What the EEPROM holds\<close>

definition disk_ok :: "mem \<Rightarrow> afile list \<Rightarrow> bool" where
  "disk_ok m fl \<longleftrightarrow>
     (\<forall>f \<in> set fl. file_ok m f) \<and>
     distinct (all_ents fl) \<and> set (all_ents fl) \<subseteq> {..<8} \<and>
     distinct (all_secs fl) \<and> set (all_secs fl) \<subseteq> {..<52} \<and>
     distinct (map af_name fl) \<and>
     (\<forall>i < 8. i \<notin> set (all_ents fl) \<longrightarrow> ent_flags (ent m i) AND 1 \<noteq> 0)"

lemma fs_ok_disk: "fs_ok s fl \<Longrightarrow> disk_ok (eeprom s) fl"
  by (simp add: fs_ok_def disk_ok_def)

text \<open>The sectors a directory entry claims, as the scan at initialisation sees them.\<close>

definition own :: "mem \<Rightarrow> nat \<Rightarrow> nat list" where
  "own m i = (let e = ent m i in
     if ent_flags e AND 1 = 0
     then map unat (filter (\<lambda>b. b \<noteq> 0xff) (take (if ent_flags e AND 2 \<noteq> 0 then 30 else 12) e))
     else [])"

lemma entry_ok_take:
  assumes "entry_ok e c k nx" "length e = 32" "set c \<subseteq> {..<52}"
  shows "map unat (filter (\<lambda>b. b \<noteq> 0xff) (take (cap k) e)) = c"
proof -
  have le: "length c \<le> cap k" "cap k \<le> 32" using assms(1) by (auto simp: entry_ok_def cap_def)
  have "take (cap k) e = map of_nat c @ replicate (cap k - length c) 0xff"
    using assms le by (intro nth_equalityI) (auto simp: entry_ok_def nth_append)
  moreover have "filter (\<lambda>b. b \<noteq> 0xff) (map of_nat c) = (map of_nat c :: u8 list)"
    using assms(3) by (intro filter_True) (auto simp: u8_eq_iff unat_of_nat_u8)
  moreover have "map unat (map of_nat c :: u8 list) = c"
    using assms(3) by (auto simp: unat_of_nat_u8 intro!: map_idI)
  ultimately show ?thesis by simp
qed

lemma own_chunk:
  assumes "disk_ok m fl" "f \<in> set fl" "k < length (af_ents f)"
  shows "own m (af_ents f ! k) = chunk k (af_secs f)" "ent_flags (ent m (af_ents f ! k)) AND 1 = 0"
proof -
  have e: "entry_ok (ent m (af_ents f ! k)) (chunk k (af_secs f)) k (link (af_ents f) k)"
    using assms by (simp add: disk_ok_def file_ok_def chain_ok_def)
  have "set (chunk k (af_secs f)) \<subseteq> set (af_secs f)"
    by (auto simp: chunk_def dest: in_set_takeD in_set_dropD)
  then have c: "set (chunk k (af_secs f)) \<subseteq> {..<52}"
    using assms secs_in [OF assms(2)] by (auto simp: disk_ok_def)
  have fl: "ent_flags (ent m (af_ents f ! k)) = (if k = 0 then 0 else 2)" using e by (simp add: entry_ok_def)
  then show "ent_flags (ent m (af_ents f ! k)) AND 1 = 0" by simp
  then show "own m (af_ents f ! k) = chunk k (af_secs f)"
    using entry_ok_take [OF e length_ent c] fl by (cases "k = 0") (simp_all add: own_def Let_def cap_def)
qed

lemma own_sub:
  assumes "disk_ok m fl" "f \<in> set fl" "k < length (af_ents f)"
  shows "set (own m (af_ents f ! k)) \<subseteq> set (af_secs f)"
  unfolding own_chunk(1) [OF assms]
  by (auto simp: chunk_def dest: in_set_takeD in_set_dropD)

lemma own_dead: "disk_ok m fl \<Longrightarrow> i < 8 \<Longrightarrow> i \<notin> set (all_ents fl) \<Longrightarrow> own m i = []"
  by (simp add: disk_ok_def own_def Let_def)

lemma entry_owner:
  assumes "i \<in> set (all_ents fl)"
  obtains f k where "f \<in> set fl" "k < length (af_ents f)" "i = af_ents f ! k"
  using assms by (auto simp: all_ents_def in_set_conv_nth)

lemma chunk_disjoint:
  assumes "distinct ss" "k < l"
  shows "set (chunk k ss) \<inter> set (chunk l ss) = {}"
proof -
  have "set (chunk k ss) \<subseteq> set (take (30 * l - 18) ss)"
  proof (cases "k = 0")
    case True
    then show ?thesis using assms(2) set_take_subset_set_take [of 12 "30 * l - 18" ss] by (simp add: chunk_def)
  next
    case False
    have "take 30 (drop (30 * k - 18) ss) = drop (30 * k - 18) (take (30 * k - 18 + 30) ss)"
      by (simp add: take_drop add.commute)
    moreover have "set (take (30 * k - 18 + 30) ss) \<subseteq> set (take (30 * l - 18) ss)"
      using assms(2) False by (intro set_take_subset_set_take) simp
    ultimately show ?thesis using False by (auto simp: chunk_def dest: in_set_dropD)
  qed
  moreover have "set (chunk l ss) \<subseteq> set (drop (30 * l - 18) ss)"
    using assms(2) by (auto simp: chunk_def dest: in_set_takeD)
  ultimately show ?thesis using set_take_disj_set_drop_if_distinct [OF assms(1), of "30 * l - 18" "30 * l - 18"]
    by blast
qed

lemma distinct_chunk: "distinct ss \<Longrightarrow> distinct (chunk k ss)"
  by (simp add: chunk_def)

lemma secs_disjoint:
  "distinct (all_secs fl) \<Longrightarrow> f \<in> set fl \<Longrightarrow> g \<in> set fl \<Longrightarrow> f \<noteq> g \<Longrightarrow>
   set (af_secs f) \<inter> set (af_secs g) = {}"
  by (induction fl) (auto simp: all_secs_def)

lemma files_disjoint:
  "disk_ok m fl \<Longrightarrow> f \<in> set fl \<Longrightarrow> g \<in> set fl \<Longrightarrow> f \<noteq> g \<Longrightarrow>
   set (af_secs f) \<inter> set (af_secs g) = {}"
  by (rule secs_disjoint [of fl]) (simp_all add: disk_ok_def)

lemma file_distinct: "disk_ok m fl \<Longrightarrow> f \<in> set fl \<Longrightarrow> distinct (af_secs f)"
  by (auto simp: disk_ok_def all_secs_def distinct_concat_iff)

lemma own_disjoint:
  assumes d: "disk_ok m fl" and ij: "i < 8" "j < 8" "i \<noteq> j"
  shows "set (own m i) \<inter> set (own m j) = {}"
proof (cases "i \<in> set (all_ents fl) \<and> j \<in> set (all_ents fl)")
  case False
  then show ?thesis using own_dead [OF d] ij by auto
next
  case True
  then obtain f k g l where f: "f \<in> set fl" "k < length (af_ents f)" "i = af_ents f ! k"
    and g: "g \<in> set fl" "l < length (af_ents g)" "j = af_ents g ! l"
    by (meson entry_owner)
  show ?thesis
  proof (cases "f = g")
    case False
    then show ?thesis
      using files_disjoint [OF d f(1) g(1)] own_sub [OF d f(1,2)] own_sub [OF d g(1,2)] f(3) g(3) by blast
  next
    case True
    then have "k < l \<or> l < k" using ij(3) f g nat_neq_iff by blast
    then show ?thesis
      using chunk_disjoint file_distinct [OF d f(1)] True f g own_chunk(1) [OF d] Int_commute by metis
  qed
qed

lemma own_distinct: "disk_ok m fl \<Longrightarrow> i < 8 \<Longrightarrow> distinct (own m i)"
  by (metis distinct.simps(1) distinct_chunk entry_owner file_distinct own_chunk(1) own_dead)

lemma own_bound: "disk_ok m fl \<Longrightarrow> i < 8 \<Longrightarrow> set (own m i) \<subseteq> {..<52}"
proof (cases "i \<in> set (all_ents fl)")
  case True
  assume d: "disk_ok m fl"
  obtain f k where "f \<in> set fl" "k < length (af_ents f)" "i = af_ents f ! k" using True by (rule entry_owner)
  moreover have "set (all_secs fl) \<subseteq> {..<52}" using d by (simp add: disk_ok_def)
  ultimately show ?thesis using own_sub [OF d] secs_in by blast
qed (simp add: own_dead)

lemma own_union:
  assumes d: "disk_ok m fl"
  shows "(\<Union>i<8. set (own m i)) = set (all_secs fl)"
proof (intro equalityI subsetI)
  fix x assume "x \<in> (\<Union>i<8. set (own m i))"
  then obtain i where i: "i < 8" "x \<in> set (own m i)" by blast
  then have "i \<in> set (all_ents fl)" using own_dead [OF d] by fastforce
  then obtain f k where "f \<in> set fl" "k < length (af_ents f)" "i = af_ents f ! k" by (rule entry_owner)
  then show "x \<in> set (all_secs fl)" using i own_sub [OF d] secs_in by blast
next
  fix x assume "x \<in> set (all_secs fl)"
  then obtain f where f: "f \<in> set fl" "x \<in> set (af_secs f)" by (auto simp: all_secs_def)
  then have "x \<in> set (concat (map (\<lambda>k. chunk k (af_secs f)) [0..<nents (length (af_secs f))]))"
    by (simp only: secs_chunks)
  then obtain k where k: "k < nents (length (af_secs f))" "x \<in> set (chunk k (af_secs f))" by auto
  have "length (af_ents f) = nents (length (af_secs f))" using d f by (simp add: disk_ok_def file_ok_def)
  then have kl: "k < length (af_ents f)" using k by simp
  have "af_ents f ! k \<in> set (all_ents fl)" using ents_in [OF f(1)] nth_mem [OF kl] by blast
  then have "af_ents f ! k < 8" using d by (auto simp: disk_ok_def)
  then show "x \<in> (\<Union>i<8. set (own m i))" 
    using own_chunk(1) [OF d f(1) kl] k(2) by (intro UN_I [of "af_ents f ! k"]) simp_all
qed


section \<open>The scan at initialisation\<close>

lemma init_sectors_ok:
  assumes "length (used_sectors s) = 7" "\<forall>j \<in> set js. ops_scratch s ! j = 0xff \<or> unat (ops_scratch s ! j) < 52"
  shows "\<exists>u. eepromfs_init_sectors js s = Some (s\<lparr>used_sectors := u,
      free_sectors := free_sectors s - of_nat (length (filter (\<lambda>b. b \<noteq> 0xff) (map ((!) (ops_scratch s)) js)))\<rparr>) \<and>
    length u = 7 \<and> (\<forall>k < 52. bm_get u k \<longleftrightarrow> bm_get (used_sectors s) k \<or>
      k \<in> unat ` set (filter (\<lambda>b. b \<noteq> 0xff) (map ((!) (ops_scratch s)) js)))"
  using assms
proof (induction js arbitrary: s)
  case Nil
  then show ?case by (intro exI [of _ "used_sectors s"]) simp
next
  case (Cons j js)
  show ?case
  proof (cases "ops_scratch s ! j = 0xff")
    case True
    then show ?thesis using Cons by simp
  next
    case False
    let ?b = "ops_scratch s ! j"
    have b: "unat ?b < 52" using Cons.prems(2) False by simp
    let ?s = "s\<lparr>used_sectors := bm_set (used_sectors s) (unat ?b) True, free_sectors := free_sectors s - 1\<rparr>"
    have ms: "mark_sector ?b True s = Some ?s"
      using b Cons.prems(1) by (simp add: mark_sector_def ee_set_bit_def)
    have get: "bm_get (bm_set (used_sectors s) (unat ?b) True) k \<longleftrightarrow> bm_get (used_sectors s) k \<or> k = unat ?b"
      if "k < 52" for k
      using that b Cons.prems(1) by (auto simp: bm_get_set)
    from Cons.IH [of ?s] Cons.prems obtain u where
      u: "eepromfs_init_sectors js ?s = Some (?s\<lparr>used_sectors := u, free_sectors := free_sectors ?s
          - of_nat (length (filter (\<lambda>b. b \<noteq> 0xff) (map ((!) (ops_scratch s)) js)))\<rparr>)" "length u = 7"
        "\<forall>k < 52. bm_get u k \<longleftrightarrow> bm_get (bm_set (used_sectors s) (unat ?b) True) k \<or>
          k \<in> unat ` set (filter (\<lambda>b. b \<noteq> 0xff) (map ((!) (ops_scratch s)) js))" by auto
    show ?thesis
    proof (intro exI [of _ u] conjI)
      show "eepromfs_init_sectors (j # js) s = Some (s\<lparr>used_sectors := u, free_sectors := free_sectors s -
          of_nat (length (filter (\<lambda>b. b \<noteq> 0xff) (map ((!) (ops_scratch s)) (j # js))))\<rparr>)"
        using False ms u(1) by (simp add: diff_diff_eq)
      show "\<forall>k < 52. bm_get u k \<longleftrightarrow> bm_get (used_sectors s) k \<or>
          k \<in> unat ` set (filter (\<lambda>b. b \<noteq> 0xff) (map ((!) (ops_scratch s)) (j # js)))"
        using u(3) get False by auto
    qed (rule u(2))
  qed
qed

text \<open>Invariant of the scan after the entries below \<open>i\<close>.\<close>

definition scanned :: "nat \<Rightarrow> mem \<Rightarrow> 'a eefs_state_scheme \<Rightarrow> bool" where
  "scanned i m s \<longleftrightarrow>
     eeprom s = m \<and> length (ops_scratch s) = 33 \<and> length (used_sectors s) = 7 \<and>
     length (used_entries s) = 1 \<and>
     (\<forall>j < 8. bm_get (used_entries s) j \<longleftrightarrow> j < i \<and> ent_flags (ent m j) AND 1 = 0) \<and>
     (\<forall>k < 52. bm_get (used_sectors s) k \<longleftrightarrow> k \<in> (\<Union>j<i. set (own m j))) \<and>
     unat (free_sectors s) = 52 - card (\<Union>j<i. set (own m j))"

lemma own_take: 
  assumes "ent_flags (ent m i) AND 1 = 0" "ops_scratch s = ent m i @ r"
  shows "own m i = map unat (filter (\<lambda>b. b \<noteq> 0xff) (map ((!) (ops_scratch s)) [0..<curentry_max_sectors s]))"
proof -
  have "map ((!) (ops_scratch s)) [0..<curentry_max_sectors s] = take (curentry_max_sectors s) (ent m i)"
    using assms(2) by (intro nth_equalityI) (auto simp: nth_append curentry_max_sectors_def split: if_splits)
  moreover have "curentry_max_sectors s = (if ent_flags (ent m i) AND 2 \<noteq> 0 then 30 else 12)"
    using assms(2) by (simp add: curentry_max_sectors_def curentry_is_listentry_def)
  ultimately show ?thesis using assms(1) by (simp add: own_def Let_def)
qed

lemma own_union_Suc: "(\<Union>j<Suc i. set (own m j)) = (\<Union>j<i. set (own m j)) \<union> set (own m i)"
  by (auto simp: less_Suc_eq)

lemma own_union_bound: "disk_ok m fl \<Longrightarrow> i \<le> 8 \<Longrightarrow> (\<Union>j<i. set (own m j)) \<subseteq> {..<52}"
  by (rule UN_least, rule own_bound) simp_all

lemma init_step_live:
  assumes d: "disk_ok m fl" and i: "i < 8" and sc: "scanned i m s"
    and live: "ent_flags (ent m i) AND 1 = 0"
  obtains s' where "eepromfs_init_loop (i # is) s = eepromfs_init_loop is s'" "scanned (Suc i) m s'"
proof -
  note S = sc [unfolded scanned_def]
  let ?s = "(load i s)\<lparr>used_entries := bm_set (used_entries s) i True\<rparr>"
  let ?js = "[0..<curentry_max_sectors ?s]"
  let ?own = "filter (\<lambda>b. b \<noteq> 0xff) (map ((!) (ops_scratch ?s)) ?js)"
  have scr: "ops_scratch ?s = ent m i @ drop 32 (ops_scratch s)" using S by simp
  have own: "own m i = map unat ?own" by (rule own_take [OF live scr])
  have "\<forall>j \<in> set ?js. ops_scratch ?s ! j = 0xff \<or> unat (ops_scratch ?s ! j) < 52"
    using own_bound [OF d i] unfolding own by fastforce
  then obtain u where u: "eepromfs_init_sectors ?js ?s = Some (?s\<lparr>used_sectors := u,
      free_sectors := free_sectors s - of_nat (length (own m i))\<rparr>)" "length u = 7"
    "\<forall>k < 52. bm_get u k \<longleftrightarrow> bm_get (used_sectors s) k \<or> k \<in> set (own m i)"
    using init_sectors_ok [of ?s ?js] S unfolding own by auto
  define s' where "s' = ?s\<lparr>used_sectors := u, free_sectors := free_sectors s - of_nat (length (own m i))\<rparr>"
  have run: "eepromfs_init_loop (i # is) s = eepromfs_init_loop is s'"
    using S live i u(1) by (simp add: read_entry_lt8 ee_set_bit_def unat_of_nat_u8 s'_def
        curentry_max_sectors_def curentry_is_listentry_def)
  have ue: "bm_get (used_entries s') j \<longleftrightarrow> j < Suc i \<and> ent_flags (ent m j) AND 1 = 0" if "j < 8" for j
    using S live i that by (auto simp: s'_def bm_get_set less_Suc_eq)
  have us: "bm_get (used_sectors s') k \<longleftrightarrow> k \<in> (\<Union>j<Suc i. set (own m j))" if "k < 52" for k
    using S u(3) that by (simp add: s'_def own_union_Suc)
  have disj: "(\<Union>j<i. set (own m j)) \<inter> set (own m i) = {}"
    using own_disjoint [OF d] i by (force simp: disjoint_iff)
  have cd: "card (\<Union>j<Suc i. set (own m j)) = card (\<Union>j<i. set (own m j)) + length (own m i)"
    unfolding own_union_Suc using disj distinct_card [OF own_distinct [OF d i]]
    by (subst card_Un_disjoint) auto
  have "card (\<Union>j<Suc i. set (own m j)) \<le> card {..<52::nat}"
    using own_union_bound [OF d, of "Suc i"] i by (intro card_mono) auto
  then have le: "length (own m i) \<le> unat (free_sectors s)" using cd S by simp
  have "unat (free_sectors s - of_nat (length (own m i))) = unat (free_sectors s) - length (own m i)"
  proof -
    have "unat (of_nat (length (own m i)) :: u8) = length (own m i)"
      using order_le_less_trans [OF le u8_lt_256] by (rule unat_of_nat_u8)
    then show ?thesis using le by (subst unat_sub) (simp_all add: word_le_nat_alt)
  qed
  then have "scanned (Suc i) m s'"
    unfolding scanned_def using S ue us cd u(2) by (simp add: s'_def)
  then show ?thesis using that run by blast
qed

lemma init_step:
  assumes d: "disk_ok m fl" and i: "i < 8" and sc: "scanned i m s"
  obtains s' where "eepromfs_init_loop (i # is) s = eepromfs_init_loop is s'" "scanned (Suc i) m s'"
proof (cases "ent_flags (ent m i) AND 1 = 0")
  case True
  then show ?thesis using init_step_live [OF d i sc] that by blast
next
  case False
  note S = sc [unfolded scanned_def]
  have "own m i = []" using False by (simp add: own_def Let_def)
  then have "scanned (Suc i) m (load i s)"
    using S False by (auto simp: scanned_def own_union_Suc less_Suc_eq)
  moreover have "eepromfs_init_loop (i # is) s = eepromfs_init_loop is (load i s)"
    using False S i by (simp add: read_entry_lt8)
  ultimately show ?thesis using that by blast
qed

lemma init_loop_ok:
  assumes d: "disk_ok m fl" and "i \<le> 8" "scanned i m s"
  shows "\<exists>s'. eepromfs_init_loop [i..<8] s = Some s' \<and> scanned 8 m s'"
  using assms(2,3)
proof (induction "8 - i" arbitrary: i s)
  case 0
  then show ?case by (intro exI [of _ s]) simp
next
  case (Suc n)
  then have i: "i < 8" by simp
  obtain s1 where s1: "eepromfs_init_loop (i # [Suc i..<8]) s = eepromfs_init_loop [Suc i..<8] s1"
    "scanned (Suc i) m s1" by (rule init_step [OF d i Suc.prems(2)])
  moreover have "[i..<8] = i # [Suc i..<8]" using i by (rule upt_conv_Cons)
  moreover have "\<exists>s'. eepromfs_init_loop [Suc i..<8] s1 = Some s' \<and> scanned 8 m s'"
    using Suc.hyps s1(2) i by simp
  ultimately show ?case by simp
qed

lemma live_entries:
  assumes "disk_ok m fl" "j < 8"
  shows "ent_flags (ent m j) AND 1 = 0 \<longleftrightarrow> j \<in> set (all_ents fl)"
  using assms own_chunk(2) [OF assms(1)] by (auto simp: disk_ok_def elim!: entry_owner)

text \<open>
  Initialisation recovers exactly the files the EEPROM holds, whatever the RAM state was,
  and marks exactly their entries as used.
\<close>

lemma eepromfs_init_ok:
  assumes d: "disk_ok (eeprom s) fl" and "length (ops_scratch s) = 33"
  obtains s' where "eepromfs_init s = Some s'" "fs_ok s' fl" "eeprom s' = eeprom s"
    "\<forall>j < 8. bm_get (used_entries s') j \<longleftrightarrow> j \<in> set (all_ents fl)"
proof -
  let ?s = "s\<lparr>free_sectors := of_nat SECTOR_COUNT,
          used_sectors := replicate ((SECTOR_COUNT + 7) div 8) 0,
          used_entries := replicate ((EEPROMFS_ENTRIES + 7) div 8) 0\<rparr>"
  have "scanned 0 (eeprom s) ?s"
    using assms(2) bm_get_replicate_0 [where n = 1] bm_get_replicate_0 [where n = 7]
    by (simp add: scanned_def)
  then obtain s' where run: "eepromfs_init_loop [0..<8] ?s = Some s'" and sc: "scanned 8 (eeprom s) s'"
    using init_loop_ok [OF d, of 0 ?s] by auto
  note S = sc [unfolded scanned_def own_union [OF d]]
  have "eepromfs_init s = Some s'" using run by (simp add: eepromfs_init_def)
  moreover have "fs_ok s' fl"
    using d S live_entries [OF d] unfolding fs_ok_def disk_ok_def by (auto simp: distinct_card)
  ultimately show ?thesis using that S live_entries [OF d] by auto
qed

section \<open>Formatting\<close>

lemma format_loop_ok:
  assumes "k \<le> 896" "\<And>x. 512 \<le> x \<Longrightarrow> x < 512 + 4 * k \<Longrightarrow> m x = 0xff"
  shows "\<exists>m'. eepromfs_format_loop [k..<896] m = Some m' \<and>
    (\<forall>x. m' x = (if 512 \<le> x \<and> x < 4096 then 0xff else m x))"
  using assms
proof (induction "896 - k" arbitrary: k m)
  case 0
  then show ?case by auto
next
  case (Suc n)
  then have k: "k < 896" by simp
  let ?a = "512 + 4 * k"
  define m1 where "m1 = write_block m ?a (replicate 4 0xff)"
  have up: "[k..<896] = k # [Suc k..<896]" using k by (rule upt_conv_Cons)
  have four: "replicate 4 0xff = [0xff, 0xff, 0xff, 0xff :: u8]" by (simp add: numeral_eq_Suc)
  have m1: "m1 x = (if ?a \<le> x \<and> x < ?a + 4 then 0xff else m x)" for x
    by (auto simp: m1_def write_block_def)
  have "eepromfs_format_loop [k..<896] m = eepromfs_format_loop [Suc k..<896] m1"
  proof (cases "read_block m ?a 4 = [0xff, 0xff, 0xff, 0xff]")
    case True
    then have "m1 = m" using write_read_id [of m ?a 4] four by (simp add: m1_def)
    then show ?thesis using up k True by (simp add: eeprom_read_block_def)
  next
    case False
    then show ?thesis using up k by (simp add: eeprom_read_block_def eeprom_write_block_def m1_def four)
  qed
  moreover have "\<exists>m'. eepromfs_format_loop [Suc k..<896] m1 = Some m' \<and>
    (\<forall>x. m' x = (if 512 \<le> x \<and> x < 4096 then 0xff else m1 x))"
    using Suc.prems k m1 Suc.hyps(2) by (intro Suc.hyps(1)) auto
  ultimately show ?case using m1 k by auto
qed

lemma eepromfs_format_ok:
  assumes "length (ops_scratch s) = 33"
  obtains s' where "eepromfs_format s = Some s'" "fs_ok s' []" "eepromfs_free_sectors s' = 52"
    "\<forall>j < 8. \<not> bm_get (used_entries s') j" "\<forall>x < 512. eeprom s' x = eeprom s x"
proof -
  obtain m where m: "eepromfs_format_loop [0..<896] (eeprom s) = Some m"
    "\<forall>x. m x = (if 512 \<le> x \<and> x < 4096 then 0xff else eeprom s x)"
    using format_loop_ok [of 0 "eeprom s"] by auto
  have "ent_flags (ent m i) = 0xff" if "i < 8" for i
    using that m(2) by (simp add: ent_flags_def ent_def block_simps)
  then have "disk_ok (eeprom (s\<lparr>eeprom := m\<rparr>)) []" by (simp add: disk_ok_def)
  then obtain s' where s': "eepromfs_init (s\<lparr>eeprom := m\<rparr>) = Some s'" "fs_ok s' []" "eeprom s' = m"
    "\<forall>j < 8. bm_get (used_entries s') j \<longleftrightarrow> j \<in> set (all_ents [])"
    using eepromfs_init_ok [of "s\<lparr>eeprom := m\<rparr>" "[]"] assms by auto
  have "eepromfs_format s = Some s'" using m(1) s'(1) by (simp add: eepromfs_format_def)
  moreover have "eepromfs_free_sectors s' = 52"
    using fs_okD(13) [OF s'(2)] by (simp add: eepromfs_free_sectors_def u8_eq_iff)
  ultimately show ?thesis using that s' m(2) by simp
qed

section \<open>Directory listing\<close>

text \<open>Calling \<open>eepromfs_readdir\<close> until it reports the end of the directory.\<close>

fun listing :: "nat \<Rightarrow> nat \<Rightarrow> 'a eefs_state_scheme \<Rightarrow> (eefs_dirent list \<times> 'a eefs_state_scheme) option" where
  "listing 0 dh s = None"
| "listing (Suc n) dh s =
     (case eepromfs_readdir dh s of
        None \<Rightarrow> None
      | Some (dh', None, s') \<Rightarrow> Some ([], s')
      | Some (dh', Some de, s') \<Rightarrow>
          map_option (\<lambda>(des, s''). (de # des, s'')) (listing n dh' s'))"

definition dirent_of :: "afile \<Rightarrow> eefs_dirent" where
  "dirent_of f = \<lparr>de_size = af_size f, de_name = af_name f, de_flags = 0\<rparr>"

lemma readdir_step:
  assumes fs: "fs_ok s fl" and "dh \<le> 8"
  obtains (stop) s' where "eepromfs_readdir dh s = Some (8, None, s')" "fs_ok s' fl" "eeprom s' = eeprom s"
      "\<forall>f \<in> set fl. hd (af_ents f) < dh"
  | (entry) f s' where
      "eepromfs_readdir dh s = Some (Suc (hd (af_ents f)), Some (dirent_of f), s')" "f \<in> set fl"
      "fs_ok s' fl" "eeprom s' = eeprom s" "dh \<le> hd (af_ents f)"
      "\<forall>g \<in> set fl. hd (af_ents g) < dh \<or> hd (af_ents f) \<le> hd (af_ents g)"
  using assms
proof (induction "8 - dh" arbitrary: dh s thesis)
  case 0
  have "eepromfs_readdir dh s = Some (8, None, s)" using 0 by (simp add: eepromfs_readdir.simps)
  moreover have "\<forall>f \<in> set fl. hd (af_ents f) < dh" using head_entry(1) [OF 0(4)] 0 by auto
  ultimately show ?case using 0 by blast
next
  case (Suc n)
  have dh: "dh < 8" using Suc.hyps(2) by simp
  show ?case
  proof (cases rule: entry_cases [OF Suc.prems(3) dh])
    case 1
    have sp: "ent_flags (ent (eeprom s) dh) AND 1 \<noteq> 0 \<or> ent_flags (ent (eeprom s) dh) AND 2 \<noteq> 0"
    proof (rule ccontr)
      assume "\<not> ?thesis"
      then have "ent_flags (ent (eeprom s) dh) AND 1 OR ent_flags (ent (eeprom s) dh) AND 2 = 0" by simp
      moreover have "ent_flags (ent (eeprom s) dh) AND (1 OR 2) =
          (ent_flags (ent (eeprom s) dh) AND 1) OR (ent_flags (ent (eeprom s) dh) AND 2)"
        by (rule bit.conj_disj_distrib)
      ultimately show False using 1 by simp
    qed
    then have run: "eepromfs_readdir dh s = eepromfs_readdir (Suc dh) (load dh s)"
      using dh by (subst eepromfs_readdir.simps) (auto simp: read_entry_lt8 curentry_is_listentry_def)
    have nh: "hd (af_ents g) \<noteq> dh" if "g \<in> set fl" for g
      using head_entry(4) [OF Suc.prems(3) that] 1 by auto
    show ?thesis
    proof (rule Suc.hyps(1) [of "Suc dh" "load dh s"])
      fix s' assume "eepromfs_readdir (Suc dh) (load dh s) = Some (8, None, s')" "fs_ok s' fl"
        "eeprom s' = eeprom (load dh s)" "\<forall>f \<in> set fl. hd (af_ents f) < Suc dh"
      then show ?thesis using Suc.prems(1) run nh by (simp add: less_Suc_eq)
    next
      fix f s' assume "eepromfs_readdir (Suc dh) (load dh s) =
          Some (Suc (hd (af_ents f)), Some (dirent_of f), s')" "f \<in> set fl" "fs_ok s' fl"
        "eeprom s' = eeprom (load dh s)" "Suc dh \<le> hd (af_ents f)"
        "\<forall>g \<in> set fl. hd (af_ents g) < Suc dh \<or> hd (af_ents f) \<le> hd (af_ents g)"
      then show ?thesis using Suc.prems(2) [of f s'] run nh by (force simp: less_Suc_eq)
    qed (use Suc.hyps(2) dh fs_ok_load [OF Suc.prems(3)] in simp_all)
  next
    case (2 f)
    have "eepromfs_readdir dh s = Some (Suc dh, Some (dirent_of f), load dh s)"
      using 2 dh head_entry(6) [OF Suc.prems(3) 2(1)]
      by (subst eepromfs_readdir.simps) (simp add: read_entry_lt8 curentry_is_listentry_def dirent_of_def)
    then show ?thesis using Suc.prems(2) [of f "load dh s"] 2 fs_ok_load [OF Suc.prems(3)] by force
  qed
qed

lemma heads_inj:
  assumes "fs_ok s fl" "f \<in> set fl" "g \<in> set fl" "hd (af_ents f) = hd (af_ents g)"
  shows "f = g"
  using fs_okD(9) [OF assms(1)] head_entry(5) [OF assms(1,2)] head_entry(5) [OF assms(1,3)] assms(2-4)
  by (auto simp: distinct_map dest: inj_onD)

lemma listing_ok:
  assumes "fs_ok s fl" "dh \<le> 8" "8 - dh < n"
  shows "\<exists>fs s'. listing n dh s = Some (map dirent_of fs, s') \<and> fs_ok s' fl \<and> eeprom s' = eeprom s \<and>
    set fs = {f \<in> set fl. dh \<le> hd (af_ents f)} \<and> sorted_wrt (\<lambda>f g. hd (af_ents f) < hd (af_ents g)) fs"
  using assms
proof (induction n arbitrary: dh s)
  case 0
  then show ?case by simp
next
  case (Suc n)
  show ?case
  proof (cases rule: readdir_step [OF Suc.prems(1,2)])
    case (1 s')
    then have "listing (Suc n) dh s = Some (map dirent_of [], s') \<and> fs_ok s' fl \<and> eeprom s' = eeprom s \<and>
      set [] = {f \<in> set fl. dh \<le> hd (af_ents f)}" by force
    then show ?thesis by (intro exI [of _ "[]"] exI [of _ s']) simp
  next
    case (2 f s1)
    have h: "hd (af_ents f) < 8" by (rule head_entry(1) [OF Suc.prems(1) 2(2)])
    obtain fs s' where R: "listing n (Suc (hd (af_ents f))) s1 = Some (map dirent_of fs, s')" "fs_ok s' fl"
      "eeprom s' = eeprom s1" "set fs = {g \<in> set fl. Suc (hd (af_ents f)) \<le> hd (af_ents g)}"
      "sorted_wrt (\<lambda>f g. hd (af_ents f) < hd (af_ents g)) fs"
    proof -
      have "8 - Suc (hd (af_ents f)) < n" using h 2(5) Suc.prems(3) by linarith
      then show ?thesis using that Suc.IH [OF 2(3), of "Suc (hd (af_ents f))"] h by auto
    qed
    have "listing (Suc n) dh s = Some (map dirent_of (f # fs), s')" using 2(1) R(1) by simp
    moreover have "set (f # fs) = {g \<in> set fl. dh \<le> hd (af_ents g)}"
    proof -
      have "g = f \<or> Suc (hd (af_ents f)) \<le> hd (af_ents g)" if "g \<in> set fl" "dh \<le> hd (af_ents g)" for g
      proof -
        have "hd (af_ents f) \<le> hd (af_ents g)" using 2(6) that by auto
        then show ?thesis using heads_inj [OF Suc.prems(1) that(1) 2(2)]
          by (cases "hd (af_ents g) = hd (af_ents f)") simp_all
      qed
      then show ?thesis using R(4) 2(2,5) by auto
    qed
    moreover have "sorted_wrt (\<lambda>f g. hd (af_ents f) < hd (af_ents g)) (f # fs)" using R(4,5) by auto
    ultimately show ?thesis using R(2,3) 2(4) by (intro exI [of _ "f # fs"] exI [of _ s']) simp
  qed
qed

end
