(* ===== verification/Eepromfs_Store.thy ===== *)
theory Eepromfs_Store
  imports Eepromfs_Mount
begin

text \<open>
  The contract of the EEPROM file system towards its clients: a finite map from 16-byte
  names to byte strings.  The locale \<open>byte_store\<close> states the contract of whole-file
  sessions over an arbitrary implementation; the interpretation at the end shows that
  \<^verbatim>\<open>eeprom-fs.c\<close> meets it, for any sequence of sessions and power cycles.
\<close>

section \<open>The abstract store\<close>

definition file_data :: "mem \<Rightarrow> afile \<Rightarrow> u8 list" where
  "file_data m f = contents m (af_secs f) (unat (af_size f))"

definition store :: "mem \<Rightarrow> afile list \<Rightarrow> u8 list \<rightharpoonup> u8 list" where
  "store m fl = map_of (map (\<lambda>f. (af_name f, file_data m f)) fl)"

definition holds :: "'a eefs_state_scheme \<Rightarrow> (u8 list \<rightharpoonup> u8 list) \<Rightarrow> bool" where
  "holds s st \<longleftrightarrow> (\<exists>fl. fs_ok s fl \<and> store (eeprom s) fl = st)"

lemma holdsI: "fs_ok s fl \<Longrightarrow> store (eeprom s) fl = st \<Longrightarrow> holds s st"
  by (auto simp: holds_def)

lemma store_Cons [simp]: "store m (f # fl) = (store m fl)(af_name f \<mapsto> file_data m f)"
  by (simp add: store_def)

lemma store_Nil [simp]: "store m [] = Map.empty"
  by (simp add: store_def)

lemma dom_store: "dom (store m fl) = af_name ` set fl"
  by (auto simp: store_def dom_map_of_conv_image_fst image_image)

lemma store_frame:
  assumes "\<And>j. j \<in> set (all_secs fl) \<Longrightarrow> sec m' j = sec m j"
  shows "store m' fl = store m fl"
proof -
  have "file_data m' f = file_data m f" if "f \<in> set fl" for f
    unfolding file_data_def using assms secs_in [OF that] by (intro contents_frame) blast
  then show ?thesis by (simp add: store_def cong: map_cong)
qed

lemma store_move:
  assumes "distinct (map af_name (xs @ f # ys))"
  shows "store m (xs @ f # ys) = store m (f # xs @ ys)"
proof -
  have "af_name f \<notin> dom (store m xs)" using assms by (auto simp: dom_store)
  then show ?thesis
    by (simp add: store_def map_add_upd_left)
qed

lemma name_length:
  assumes "fs_ok s fl" "f \<in> set fl"
  shows "length (af_name f) = 16"
  unfolding head_entry(5) [OF assms, symmetric] by (simp add: ent_name_def)

text \<open>Every represented store can be read with a chosen file in front.\<close>

lemma holds_pick:
  assumes "holds s st" "st n = Some d"
  obtains f rest where "fs_ok s (f # rest)" "st = (store (eeprom s) rest)(n \<mapsto> d)" "af_name f = n"
    "file_data (eeprom s) f = d" "n \<notin> dom (store (eeprom s) rest)"
proof -
  obtain fl where fl: "fs_ok s fl" "store (eeprom s) fl = st" using assms(1) by (auto simp: holds_def)
  have "n \<in> af_name ` set fl" using assms(2) fl(2) dom_store [of "eeprom s" fl] by auto
  then obtain f xs ys where f: "fl = xs @ f # ys" "af_name f = n" by (auto dest!: split_list)
  have dn: "distinct (map af_name (xs @ f # ys))" using fs_okD(9) [OF fl(1)] f(1) by simp
  have st: "st = store (eeprom s) (f # xs @ ys)" using store_move [OF dn] fl(2) f(1) by simp
  then have "file_data (eeprom s) f = d" using assms(2) f(2) by simp
  moreover have "n \<notin> dom (store (eeprom s) (xs @ ys))" using dn f(2) by (auto simp: dom_store)
  ultimately show ?thesis
    using that [of f "xs @ ys"] fl(1) f fs_ok_perm [of s xs f ys] st by simp
qed

lemma holds_fresh:
  assumes "holds s st" "st n = None"
  obtains fl where "fs_ok s fl" "st = store (eeprom s) fl" "\<forall>f \<in> set fl. af_name f \<noteq> n"
proof -
  obtain fl where fl: "fs_ok s fl" "store (eeprom s) fl = st" using assms(1) by (auto simp: holds_def)
  then have "n \<notin> af_name ` set fl" using assms(2) dom_store [of "eeprom s" fl] by auto
  then show ?thesis using that fl by blast
qed

section \<open>Whole-file sessions\<close>

text \<open>
  The call sequences clients make: create, write and close; open, read to the end and
  close.
\<close>

definition save ::
  "u8 list \<Rightarrow> u8 list \<Rightarrow> 'a eefs_state_scheme \<Rightarrow> (eefs_error \<times> 'a eefs_state_scheme) option" where
  "save name d s = do {
     (err, fh, s) \<leftarrow> eepromfs_open name EEFS_MODE_WRITE s;
     (if err \<noteq> EEFS_ERROR_OK then Some (err, s)
      else do {
        (err, fh, w, s) \<leftarrow> eepromfs_write fh d (of_nat (length d)) s;
        (fh, s) \<leftarrow> eepromfs_close fh s;
        Some (err, s) }) }"

definition fetch ::
  "u8 list \<Rightarrow> 'a eefs_state_scheme \<Rightarrow> (eefs_error \<times> u8 list \<times> 'a eefs_state_scheme) option" where
  "fetch name s = do {
     (err, fh, s) \<leftarrow> eepromfs_open name EEFS_MODE_READ s;
     (if err \<noteq> EEFS_ERROR_OK then Some (err, [], s)
      else do {
        (err, fh, bs, s) \<leftarrow> eepromfs_read fh 65535 s;
        (fh, s) \<leftarrow> eepromfs_close fh s;
        Some (err, bs, s) }) }"

lemma fetch_ok:
  assumes h: "holds s st" and n: "st n = Some d"
  shows "\<exists>s'. fetch n s = Some (EEFS_ERROR_OK, d, s') \<and> holds s' st"
proof -
  obtain f rest where F: "fs_ok s (f # rest)" "st = (store (eeprom s) rest)(n \<mapsto> d)" "af_name f = n"
    "file_data (eeprom s) f = d" by (rule holds_pick [OF h n])
  obtain fh s1 where O: "eepromfs_open n EEFS_MODE_READ s = Some (EEFS_ERROR_OK, fh, s1)"
    "rh_ok fh f 0" "fs_ok s1 (f # rest)" "eeprom s1 = eeprom s"
    using eepromfs_open_read_ok [OF F(1), of f] F(3) by auto
  obtain fh2 s2 where R: "eepromfs_read fh 65535 s1 = Some (EEFS_ERROR_OK, fh2,
      take (unat (65535 :: u16)) (drop 0 (contents (eeprom s1) (af_secs f) (unat (af_size f)))), s2)"
    "rh_ok fh2 f (min (0 + unat (65535 :: u16)) (unat (af_size f)))" "fs_ok s2 (f # rest)"
    "eeprom s2 = eeprom s1"
    by (rule eepromfs_read_ok [OF O(3) list.set_intros(1) O(2)])
  have "length d \<le> 65535"
    using F(4) unsigned_less [of "af_size f", where 'a = nat] by (auto simp: file_data_def contents_def)
  then have d: "take (unat (65535 :: u16)) (drop 0 (contents (eeprom s1) (af_secs f) (unat (af_size f)))) = d"
    using F(4) O(4) by (simp add: file_data_def)
  have "fh_filemode fh2 = EEFS_MODE_READ" using R(2) by (simp add: rh_ok_def)
  then have "eepromfs_close fh2 s2 = Some (fh2\<lparr>fh_filemode := 0\<rparr>, s2)" by (simp add: eepromfs_close_def)
  then have "fetch n s = Some (EEFS_ERROR_OK, d, s2)" using O(1) R(1) d by (simp add: fetch_def)
  moreover have "holds s2 st" using R(3,4) O(4) F by (intro holdsI [of _ "f # rest"]) simp_all
  ultimately show ?thesis by blast
qed

lemma fetch_missing:
  assumes h: "holds s st" and n: "st n = None" "length n = 16"
  shows "\<exists>s'. fetch n s = Some (EEFS_ERROR_FILENOTFOUND, [], s') \<and> holds s' st"
proof -
  obtain fl where F: "fs_ok s fl" "st = store (eeprom s) fl" "\<forall>f \<in> set fl. af_name f \<noteq> n"
    by (rule holds_fresh [OF h n(1)])
  have "fetch n s = Some (EEFS_ERROR_FILENOTFOUND, [], load 7 s)"
    using eepromfs_open_missing [OF F(1,3) n(2), of EEFS_MODE_READ] by (simp add: fetch_def)
  moreover have "holds (load 7 s) st" using fs_ok_load [OF F(1)] F(2) by (intro holdsI) simp_all
  ultimately show ?thesis by blast
qed

text \<open>Creating a file: the outcome of the three calls of a \<open>save\<close>, with all error paths.\<close>

definition save_post ::
  "'a eefs_state_scheme \<Rightarrow> afile list \<Rightarrow> u8 list \<Rightarrow> u8 list \<Rightarrow>
   eefs_error \<Rightarrow> 'a eefs_state_scheme \<Rightarrow> afile \<Rightarrow> nat \<Rightarrow> bool" where
  "save_post s fl n d err s' f w \<longleftrightarrow>
     fs_ok s' (f # fl) \<and> af_name f = n \<and> file_data (eeprom s') f = take w d \<and> w \<le> length d \<and>
     store (eeprom s') fl = store (eeprom s) fl \<and>
     (err = EEFS_ERROR_OK \<and> w = length d \<or>
      w < length d \<and> w = 64 * length (af_secs f) \<and>
      (err = EEFS_ERROR_DISKFULL \<and> length (all_secs (f # fl)) = 52 \<or>
       err = EEFS_ERROR_DIRFULL \<and> (\<forall>i < 8. bm_get (used_entries s') i) \<and>
       nents (Suc (length (af_secs f))) \<noteq> nents (length (af_secs f))))"

lemma save_cases:
  assumes fs: "fs_ok s fl" and fresh: "\<forall>f \<in> set fl. af_name f \<noteq> n" and n: "length n = 16"
    and d: "length d < 65536"
  obtains (dirfull) "save n d s = Some (EEFS_ERROR_DIRFULL, load 7 s)" "\<forall>i < 8. bm_get (used_entries s) i"
  | (created) err s' f w where "save n d s = Some (err, s')" "save_post s fl n d err s' f w"
proof (cases rule: eepromfs_open_write_ok [OF fs fresh n])
  case (1 fh)
  then show ?thesis using dirfull by (simp add: save_def)
next
  case (2 fh s1 j)
  let ?f = "\<lparr>af_name = n, af_size = 0, af_ents = [j], af_secs = []\<rparr>"
  have l: "unat (of_nat (length d) :: u16) = length d" using d by (rule unat_of_nat_u16)
  obtain err fh2 w s2 f2 where
    W: "eepromfs_write_loop (length d + 1) fh d (of_nat (length d)) 0 s1 = Some (err, fh2, 0 + of_nat w, s2)"
    and P: "write_post s1 ?f fl 0 d (length d) err fh2 w s2 f2"
    using write_loop_ok [OF 2(2,3), of "of_nat (length d)" d "length d + 1" 0] l by auto
  note Q = P [unfolded write_post_def]
  have wr: "eepromfs_write fh d (of_nat (length d)) s1 = Some (err, fh2, of_nat w, s2)"
    using W l 2(3) by (simp add: eepromfs_write_def wh_ok_def wh_core_def)
  obtain s3 where C: "eepromfs_close fh2 s2 = Some (fh2\<lparr>fh_filemode := 0\<rparr>, s3)"
    "fs_ok s3 (f2\<lparr>af_size := fh_size fh2\<rparr> # fl)" "\<forall>k. sec (eeprom s3) k = sec (eeprom s2) k"
    "used_entries s3 = used_entries s2"
  proof -
    have "fs_ok s2 (f2 # fl)" "fh_entry fh2 = of_nat (hd (af_ents f2))"
      "fh_filemode fh2 \<noteq> EEFS_MODE_READ" "unat (fh_size fh2) \<le> 64 * length (af_secs f2)" using Q by auto
    then show ?thesis using that by (rule eepromfs_close_write_ok)
  qed
  let ?f3 = "f2\<lparr>af_size := fh_size fh2\<rparr>"
  have run: "save n d s = Some (err, s3)" using 2(1) wr C(1) by (simp add: save_def)
  have "file_data (eeprom s3) ?f3 = take w d"
  proof -
    have "file_data (eeprom s3) ?f3 = contents (eeprom s2) (af_secs f2) w"
      using Q contents_frame [of "af_secs f2" "eeprom s3" "eeprom s2"] C(3) by (simp add: file_data_def)
    then show ?thesis using Q by (simp add: contents_def)
  qed
  moreover have "store (eeprom s3) fl = store (eeprom s) fl"
    using Q C(3) 2(4) by (intro store_frame) simp
  ultimately have "save_post s fl n d err s3 ?f3 w"
    unfolding save_post_def using C(2,4) Q by (elim conjE disjE) simp_all
  with run show ?thesis by (rule created)
qed

lemma save_exists:
  assumes h: "holds s st" and n: "st n = Some e"
  shows "\<exists>s'. save n d s = Some (EEFS_ERROR_FILEEXISTS, s') \<and> holds s' st"
proof -
  obtain f rest where F: "fs_ok s (f # rest)" "st = (store (eeprom s) rest)(n \<mapsto> e)" "af_name f = n"
    "file_data (eeprom s) f = e" by (rule holds_pick [OF h n])
  have "save n d s = Some (EEFS_ERROR_FILEEXISTS, load (hd (af_ents f)) s)"
    using eepromfs_open_exists [OF F(1), of f] F(3) by (simp add: save_def)
  moreover have "holds (load (hd (af_ents f)) s) st"
    using fs_ok_load [OF F(1)] F(2-4) by (intro holdsI [of _ "f # rest"]) simp_all
  ultimately show ?thesis by blast
qed

lemma save_fresh:
  assumes h: "holds s st" and n: "st n = None" "length n = 16" and d: "length d < 65536"
  shows "\<exists>err s'. save n d s = Some (err, s') \<and>
    (err = EEFS_ERROR_OK \<and> holds s' (st(n \<mapsto> d)) \<or>
     err \<in> {EEFS_ERROR_DISKFULL, EEFS_ERROR_DIRFULL} \<and> (\<exists>w < length d. holds s' (st(n \<mapsto> take w d))) \<or>
     err = EEFS_ERROR_DIRFULL \<and> holds s' st)"
proof -
  obtain fl where F: "fs_ok s fl" "st = store (eeprom s) fl" "\<forall>f \<in> set fl. af_name f \<noteq> n"
    by (rule holds_fresh [OF h n(1)])
  show ?thesis
  proof (cases rule: save_cases [OF F(1,3) n(2) d])
    case 1
    moreover have "holds (load 7 s) st" using fs_ok_load [OF F(1)] F(2) by (intro holdsI) simp_all
    ultimately show ?thesis by blast
  next
    case (2 err s' f w)
    have "holds s' (st(n \<mapsto> take w d))"
      using 2(2) F(2) by (intro holdsI [of _ "f # fl"]) (auto simp: save_post_def)
    then show ?thesis using 2 by (auto simp: save_post_def)
  qed
qed

lemma remove_ok:
  assumes h: "holds s st" and n: "st n = Some d"
  shows "\<exists>s'. eepromfs_delete n s = Some (EEFS_ERROR_OK, s') \<and> holds s' (st(n := None))"
proof -
  obtain f rest where F: "fs_ok s (f # rest)" "st = (store (eeprom s) rest)(n \<mapsto> d)" "af_name f = n"
    "n \<notin> dom (store (eeprom s) rest)" by (rule holds_pick [OF h n])
  obtain s' where D: "eepromfs_delete (af_name f) s = Some (EEFS_ERROR_OK, s')" "fs_ok s' rest"
    "\<forall>k. sec (eeprom s') k = sec (eeprom s) k" "used_entries s' = used_entries s"
    by (rule eepromfs_delete_ok [OF F(1)])
  have "store (eeprom s') rest = store (eeprom s) rest" using D(3) by (intro store_frame) simp
  moreover have "st(n := None) = store (eeprom s) rest" using F(2,4) by (auto simp: fun_eq_iff domIff)
  ultimately show ?thesis using D(1,2) F(3) by (auto simp: holds_def)
qed

lemma rename_ok:
  assumes h: "holds s st" and n: "st old = Some d" "st new = None" "length new = 16"
  shows "\<exists>s'. eepromfs_rename old new s = Some (EEFS_ERROR_OK, s') \<and> holds s' (st(old := None, new \<mapsto> d))"
proof -
  obtain f rest where F: "fs_ok s (f # rest)" "st = (store (eeprom s) rest)(old \<mapsto> d)" "af_name f = old"
    "file_data (eeprom s) f = d" "old \<notin> dom (store (eeprom s) rest)" by (rule holds_pick [OF h n(1)])
  have "old \<noteq> new" using n by auto
  moreover have "new \<notin> dom (store (eeprom s) rest)" using n(2) F(2) by (auto split: if_splits)
  ultimately have fresh: "\<forall>g \<in> set (f # rest). af_name g \<noteq> new"
    using F(3) by (auto simp: dom_store)
  obtain s' where R: "eepromfs_rename (af_name f) new s = Some (EEFS_ERROR_OK, s')"
    "fs_ok s' (f\<lparr>af_name := new\<rparr> # rest)" "\<forall>k. sec (eeprom s') k = sec (eeprom s) k"
    by (rule eepromfs_rename_ok [OF F(1) fresh n(3)])
  have "store (eeprom s') (f\<lparr>af_name := new\<rparr> # rest) = (store (eeprom s) rest)(new \<mapsto> d)"
    using R(3) F(4) store_frame [of rest "eeprom s'" "eeprom s"]
      contents_frame [of "af_secs f" "eeprom s'" "eeprom s"] by (simp add: file_data_def)
  moreover have "st(old := None, new \<mapsto> d) = (store (eeprom s) rest)(new \<mapsto> d)"
    using F(2,5) by (auto simp: fun_eq_iff domIff)
  ultimately show ?thesis using R(1,2) F(3) by (auto simp: holds_def)
qed

text \<open>A power cycle keeps the EEPROM and loses every variable in RAM.\<close>

definition power_cycle :: "'a eefs_state_scheme \<Rightarrow> 'a eefs_state_scheme \<Rightarrow> bool" where
  "power_cycle s s' \<longleftrightarrow> eeprom s' = eeprom s \<and> length (ops_scratch s') = 33"

lemma mount_ok:
  assumes "holds s st" "power_cycle s s1"
  shows "\<exists>s'. eepromfs_init s1 = Some s' \<and> holds s' st"
proof -
  obtain fl where fl: "fs_ok s fl" "store (eeprom s) fl = st" using assms(1) by (auto simp: holds_def)
  have "disk_ok (eeprom s1) fl" using fs_ok_disk [OF fl(1)] assms(2) by (simp add: power_cycle_def)
  then obtain s' where "eepromfs_init s1 = Some s'" "fs_ok s' fl" "eeprom s' = eeprom s1"
    using assms(2) eepromfs_init_ok [of s1 fl] unfolding power_cycle_def by blast
  then show ?thesis using fl(2) assms(2) by (auto simp: holds_def power_cycle_def)
qed

lemma save_live:
  assumes fs: "fs_ok s fl" and fresh: "\<forall>f \<in> set fl. af_name f \<noteq> n" and n: "length n = 16"
    and e: "\<exists>i < 8. \<not> bm_get (used_entries s) i" and d: "length d \<le> 768"
    "length d \<le> 64 * unat (eepromfs_free_sectors s)"
  shows "\<exists>s' f. save n d s = Some (EEFS_ERROR_OK, s') \<and> save_post s fl n d EEFS_ERROR_OK s' f (length d)"
proof -
  have d64: "length d < 65536" using d(1) by simp
  show ?thesis
  proof (cases rule: save_cases [OF fs fresh n d64])
    case 1
    then show ?thesis using e by blast
  next
    case (2 err s' f w)
    note P = 2(2) [unfolded save_post_def]
    have free: "64 * unat (eepromfs_free_sectors s) = 64 * (52 - length (all_secs fl))"
      using fs_okD(13) [OF fs] by (simp add: eepromfs_free_sectors_def)
    have "err = EEFS_ERROR_OK \<and> w = length d"
    proof (rule ccontr)
      assume "\<not> ?thesis"
      then have w: "w < length d" "w = 64 * length (af_secs f)"
        "length (all_secs (f # fl)) = 52 \<or> nents (Suc (length (af_secs f))) \<noteq> nents (length (af_secs f))"
        using P by auto
      have "length (af_secs f) < 12" using w d(1) by simp
      then have "nents (Suc (length (af_secs f))) = nents (length (af_secs f))" by (simp add: nents_def)
      then have "length (af_secs f) = 52 - length (all_secs fl)" using w(3) by simp
      then show False using w d(2) free by simp
    qed
    then show ?thesis using 2 by blast
  qed
qed

section \<open>The contract\<close>

locale byte_store =
  fixes rep :: "'s \<Rightarrow> ('n \<Rightarrow> 'b list option) \<Rightarrow> bool"
    and valid :: "'n \<Rightarrow> 'b list \<Rightarrow> bool"
    and cycled :: "'s \<Rightarrow> 's \<Rightarrow> bool"
    and put :: "'n \<Rightarrow> 'b list \<Rightarrow> 's \<Rightarrow> ('e \<times> 's) option"
    and get :: "'n \<Rightarrow> 's \<Rightarrow> ('e \<times> 'b list \<times> 's) option"
    and del :: "'n \<Rightarrow> 's \<Rightarrow> ('e \<times> 's) option"
    and ren :: "'n \<Rightarrow> 'n \<Rightarrow> 's \<Rightarrow> ('e \<times> 's) option"
    and mount :: "'s \<Rightarrow> 's option"
    and ok :: 'e
  assumes get_law: "rep s st \<Longrightarrow> st n = Some d \<Longrightarrow> \<exists>s'. get n s = Some (ok, d, s') \<and> rep s' st"
    and put_law: "rep s st \<Longrightarrow> valid n d \<Longrightarrow> put n d s = Some (ok, s') \<Longrightarrow>
      st n = None \<and> rep s' (st(n \<mapsto> d))"
    and del_law: "rep s st \<Longrightarrow> st n = Some d \<Longrightarrow> \<exists>s'. del n s = Some (ok, s') \<and> rep s' (st(n := None))"
    and ren_law: "rep s st \<Longrightarrow> st old = Some d \<Longrightarrow> st new = None \<Longrightarrow> valid new d \<Longrightarrow>
      \<exists>s'. ren old new s = Some (ok, s') \<and> rep s' (st(old := None, new \<mapsto> d))"
    and mount_law: "rep s st \<Longrightarrow> cycled s s1 \<Longrightarrow> \<exists>s'. mount s1 = Some s' \<and> rep s' st"
begin

lemma put_get:
  "rep s st \<Longrightarrow> valid n d \<Longrightarrow> put n d s = Some (ok, s') \<Longrightarrow> \<exists>s''. get n s' = Some (ok, d, s'')"
  using put_law [of s st n d s'] get_law [of s' "st(n \<mapsto> d)" n d] by auto

lemma put_cycle_get:
  assumes "rep s st" "valid n d" "put n d s = Some (ok, s1)" "cycled s1 s2"
    and "k = n \<and> e = d \<or> k \<noteq> n \<and> st k = Some e"
  shows "\<exists>s3 s4. mount s2 = Some s3 \<and> get k s3 = Some (ok, e, s4)"
proof -
  have "rep s1 (st(n \<mapsto> d))" using put_law assms(1-3) by blast
  then obtain s3 where m: "mount s2 = Some s3" "rep s3 (st(n \<mapsto> d))" using mount_law assms(4) by blast
  have "(st(n \<mapsto> d)) k = Some e" using assms(5) by auto
  then show ?thesis using get_law [OF m(2)] m(1) by blast
qed

lemma del_put:
  assumes "rep s st" "st n = Some e" "k \<noteq> n" "st k = Some b"
  shows "\<exists>s1 s2. del n s = Some (ok, s1) \<and> get k s1 = Some (ok, b, s2) \<and> rep s2 (st(n := None))"
proof -
  obtain s1 where d: "del n s = Some (ok, s1)" "rep s1 (st(n := None))" using del_law assms(1,2) by blast
  have "(st(n := None)) k = Some b" using assms(3,4) by simp
  then show ?thesis using get_law [OF d(2)] d(1) by blast
qed

lemma ren_get:
  assumes "rep s st" "st old = Some d" "st new = None" "valid new d"
    and "k = new \<and> e = d \<or> k \<noteq> old \<and> k \<noteq> new \<and> st k = Some e"
  shows "\<exists>s1 s2. ren old new s = Some (ok, s1) \<and> get k s1 = Some (ok, e, s2)"
proof -
  obtain s1 where r: "ren old new s = Some (ok, s1)" "rep s1 (st(old := None, new \<mapsto> d))"
    using ren_law assms(1-4) by blast
  have "(st(old := None, new \<mapsto> d)) k = Some e" using assms(5) by auto
  then show ?thesis using get_law [OF r(2)] r(1) by blast
qed

end

definition valid_file :: "u8 list \<Rightarrow> u8 list \<Rightarrow> bool" where
  "valid_file n d \<longleftrightarrow> length n = 16 \<and> length d < 65536"

lemma save_law:
  assumes "holds s st" "valid_file n d" "save n d s = Some (EEFS_ERROR_OK, s')"
  shows "st n = None \<and> holds s' (st(n \<mapsto> d))"
proof (cases "st n")
  case None
  then show ?thesis using save_fresh [OF assms(1) None, of d] assms(2,3) by (auto simp: valid_file_def)
next
  case (Some e)
  then show ?thesis using save_exists [OF assms(1) Some, of d] assms(3) by auto
qed

interpretation eefs: byte_store holds valid_file power_cycle save fetch eepromfs_delete eepromfs_rename
  eepromfs_init EEFS_ERROR_OK
  by unfold_locales (auto simp: valid_file_def intro: fetch_ok remove_ok rename_ok mount_ok
      dest: save_law)

section \<open>Sequences of sessions\<close>

inductive session :: "'a eefs_state_scheme \<Rightarrow> 'a eefs_state_scheme \<Rightarrow> bool" where
  s_format: "eepromfs_format s = Some s' \<Longrightarrow> session s s'"
| s_save: "valid_file n d \<Longrightarrow> save n d s = Some (err, s') \<Longrightarrow> session s s'"
| s_fetch: "length n = 16 \<Longrightarrow> fetch n s = Some (err, bs, s') \<Longrightarrow> session s s'"
| s_delete: "length n = 16 \<Longrightarrow> eepromfs_delete n s = Some (err, s') \<Longrightarrow> session s s'"
| s_rename: "length old = 16 \<Longrightarrow> length new = 16 \<Longrightarrow>
    eepromfs_rename old new s = Some (err, s') \<Longrightarrow> session s s'"
| s_power: "power_cycle s s1 \<Longrightarrow> eepromfs_init s1 = Some s' \<Longrightarrow> session s s'"

text \<open>On a sound file system no call goes out of bounds or fails to return.\<close>

lemma save_total:
  assumes "holds s st" "valid_file n d"
  obtains err s' st' where "save n d s = Some (err, s')" "holds s' st'"
proof (cases "st n")
  case None
  then show ?thesis using save_fresh [OF assms(1) None] assms(2) that unfolding valid_file_def by blast
next
  case (Some e)
  then show ?thesis using save_exists [OF assms(1) Some] that by blast
qed

lemma fetch_total:
  assumes "holds s st" "length n = 16"
  obtains err bs s' where "fetch n s = Some (err, bs, s')" "holds s' st"
  using fetch_missing [OF assms(1) _ assms(2)] fetch_ok [OF assms(1)] by (cases "st n") blast+

lemma delete_total:
  assumes h: "holds s st" and n: "length n = 16"
  obtains err s' where "eepromfs_delete n s = Some (err, s')" "holds s' (st(n := None))"
proof (cases "st n")
  case None
  obtain fl where F: "fs_ok s fl" "st = store (eeprom s) fl" "\<forall>f \<in> set fl. af_name f \<noteq> n"
    by (rule holds_fresh [OF h None])
  have "st(n := None) = st" using None by auto
  then have "holds (load 7 s) (st(n := None))" using fs_ok_load [OF F(1)] F(2) by (intro holdsI) simp_all
  then show ?thesis using that eepromfs_delete_missing [OF F(1,3) n] by blast
next
  case (Some d)
  then show ?thesis using that remove_ok [OF h Some] by blast
qed

lemma rename_total:
  assumes h: "holds s st" and n: "length old = 16" "length new = 16"
  obtains err s' st' where "eepromfs_rename old new s = Some (err, s')" "holds s' st'"
proof -
  obtain fl where fl: "fs_ok s fl" "store (eeprom s) fl = st" using h by (auto simp: holds_def)
  have ld: "holds (load i s) st" for i using fs_ok_load [OF fl(1)] fl(2) by (intro holdsI) simp_all
  show ?thesis
  proof (cases "\<exists>f \<in> set fl. af_name f = new")
    case True
    then show ?thesis using that eepromfs_rename_errors(1) [OF fl(1) n] ld by blast
  next
    case False
    then have "new \<notin> dom st" using fl(2) dom_store [of "eeprom s" fl] by auto
    then have new: "st new = None" by (simp add: domIff)
    show ?thesis
    proof (cases "st old")
      case None
      then have "\<forall>g \<in> set fl. af_name g \<noteq> old" using fl(2) dom_store [of "eeprom s" fl] by auto
      then show ?thesis using that eepromfs_rename_errors(2) [OF fl(1) n] False ld by blast
    next
      case (Some d)
      then show ?thesis using that rename_ok [OF h Some new n(2)] by blast
    qed
  qed
qed

lemma format_holds:
  assumes "holds s st"
  obtains s' where "eepromfs_format s = Some s'" "holds s' Map.empty"
proof -
  have "length (ops_scratch s) = 33" using assms fs_okD(1) by (auto simp: holds_def)
  then obtain s' where "eepromfs_format s = Some s'" "fs_ok s' []" by (rule eepromfs_format_ok)
  then show ?thesis using that holdsI [of s' "[]"] by simp
qed

lemma session_holds:
  assumes "session s s'" "holds s st"
  shows "\<exists>st'. holds s' st'"
  using assms
proof (cases rule: session.cases)
  case s_format
  then show ?thesis using format_holds [OF assms(2)] by (metis option.inject)
next
  case (s_save n d err)
  then show ?thesis using save_total [OF assms(2) s_save(1)] by (metis option.inject prod.inject)
next
  case (s_fetch n err bs)
  then show ?thesis using fetch_total [OF assms(2) s_fetch(1)] by (metis option.inject prod.inject)
next
  case (s_delete n err)
  then show ?thesis using delete_total [OF assms(2) s_delete(1)] by (metis option.inject prod.inject)
next
  case (s_rename old new err)
  then show ?thesis using rename_total [OF assms(2) s_rename(1,2)] by (metis option.inject prod.inject)
next
  case (s_power s1)
  then show ?thesis using mount_ok [OF assms(2) s_power(1)] by auto
qed

end
