(* ===== verification/Eepromfs_Props.thy ===== *)
theory Eepromfs_Props
  imports Eepromfs_Store
begin

text \<open>
  The properties of the EEPROM file system, stated over the operations of
  \<^verbatim>\<open>eeprom-fs.c\<close>.  \<open>blank\<close> is a freshly formatted EEPROM, used for the concrete instances.
\<close>

definition blank :: eefs_state where
  "blank = \<lparr>ops_scratch = replicate 33 0, eeprom = (\<lambda>_. 0xff), used_sectors = replicate 7 0,
            used_entries = [0], free_sectors = 52\<rparr>"

definition nm :: "nat \<Rightarrow> u8 list" where
  "nm k = replicate 16 (of_nat k)"

lemma length_nm [simp]: "length (nm k) = 16"
  by (simp add: nm_def)

lemma fs_ok_blank: "fs_ok blank []"
proof -
  have "ent_flags (ent (\<lambda>_. 0xff) i) = 0xff" for i by (simp add: ent_flags_def ent_def block_simps)
  then show ?thesis
    using bm_get_replicate_0 [where n = 7] by (simp add: fs_ok_def blank_def all_ents_def all_secs_def)
qed

lemma holds_blank: "holds blank Map.empty"
  by (rule holdsI [OF fs_ok_blank]) simp

lemma entry_free_blank: "\<not> bm_get (used_entries blank) i" if "i < 8"
  using that bm_get_replicate_0 [of i 1] by (simp add: blank_def)

lemma save_blank:
  assumes "length d \<le> 768"
  obtains s' f where "save (nm 65) d blank = Some (EEFS_ERROR_OK, s')"
    "save_post blank [] (nm 65) d EEFS_ERROR_OK s' f (length d)"
proof -
  have "\<exists>i < 8. \<not> bm_get (used_entries blank) i" using entry_free_blank [of 0] by (intro exI [of _ 0]) simp
  moreover have "length d \<le> 64 * unat (eepromfs_free_sectors blank)"
    using assms by (simp add: eepromfs_free_sectors_def blank_def)
  ultimately show ?thesis using save_live [OF fs_ok_blank, of "nm 65" d] assms that by auto
qed

section \<open>Round trip\<close>

text \<open>
  C3. A file that was created, written and closed without error is read back byte for
  byte, also after a power cycle that loses the contents of the RAM, and so is every
  other file of the file system.
\<close>

theorem save_power_cycle_fetch:
  assumes "holds s st" "length n = 16" "length d < 65536"
    and "save n d s = Some (EEFS_ERROR_OK, s1)" "power_cycle s1 s2"
    and "k = n \<and> e = d \<or> k \<noteq> n \<and> st k = Some e"
  shows "\<exists>s3 s4. eepromfs_init s2 = Some s3 \<and> fetch k s3 = Some (EEFS_ERROR_OK, e, s4)"
  by (rule eefs.put_cycle_get [OF assms(1) _ assms(4-6)]) (simp add: valid_file_def assms(2,3))

theorem save_power_cycle_fetch_witness:
  "\<exists>s1 s3 s4. save (nm 65) [1, 2, 3] blank = Some (EEFS_ERROR_OK, s1) \<and>
     eepromfs_init s1 = Some s3 \<and> fetch (nm 65) s3 = Some (EEFS_ERROR_OK, [1, 2, 3], s4)"
proof -
  obtain s1 f where s1: "save (nm 65) [1, 2, 3] blank = Some (EEFS_ERROR_OK, s1)"
    and p: "save_post blank [] (nm 65) [1, 2, 3] EEFS_ERROR_OK s1 f (length [1, 2, 3 :: u8])"
    by (rule save_blank [of "[1, 2, 3]"]) simp
  have "power_cycle s1 s1" using p fs_okD(1) by (auto simp: save_post_def power_cycle_def)
  then show ?thesis
    using save_power_cycle_fetch [OF holds_blank _ _ s1, of s1 "nm 65" "[1, 2, 3]"] s1 by auto
qed

text \<open>
  C15. A create, write and close session on a file system with room: it reports no error
  when a directory entry and enough sectors are free (files up to the 12 sectors a name
  entry can list), the new file holds exactly the data, and all other files are unchanged.
\<close>

theorem save_succeeds:
  assumes "fs_ok s fl" "\<forall>f \<in> set fl. af_name f \<noteq> n" "length n = 16"
    and "\<exists>i < 8. \<not> bm_get (used_entries s) i"
    and "length d \<le> 768" "length d \<le> 64 * unat (eepromfs_free_sectors s)"
  shows "\<exists>s' f. save n d s = Some (EEFS_ERROR_OK, s') \<and> fs_ok s' (f # fl) \<and> af_name f = n \<and>
    file_data (eeprom s') f = d \<and> store (eeprom s') fl = store (eeprom s) fl"
  using save_live [OF assms] by (auto simp: save_post_def)

theorem save_succeeds_witness:
  "\<exists>s' f. save (nm 66) [7, 8] blank = Some (EEFS_ERROR_OK, s') \<and> fs_ok s' [f] \<and>
     file_data (eeprom s') f = [7, 8]"
proof -
  have "\<exists>i < 8. \<not> bm_get (used_entries blank) i" using entry_free_blank [of 0] by (intro exI [of _ 0]) simp
  moreover have "length [7, 8 :: u8] \<le> 64 * unat (eepromfs_free_sectors blank)"
    by (simp add: eepromfs_free_sectors_def blank_def)
  ultimately show ?thesis using save_succeeds [OF fs_ok_blank, of "nm 66" "[7, 8]"] by auto
qed

text \<open>
  C13. The invariant of every history: after any sequence of complete sessions (create,
  read, delete, rename, format) and power cycles the file system is sound again: entry
  chains and sector lists are well formed, no sector belongs to two files, and the bitmaps
  and the free counter agree with them.
\<close>

theorem sessions_keep_store:
  assumes "session\<^sup>*\<^sup>* s s'" "holds s st"
  shows "\<exists>st'. holds s' st'"
  using assms
proof (induction rule: rtranclp_induct)
  case base
  then show ?case by blast
next
  case (step s1 s2)
  then show ?case using session_holds by blast
qed

theorem sessions_keep_store_witness:
  "\<exists>s1 s2 st'. session\<^sup>*\<^sup>* blank s2 \<and> save (nm 65) [9] blank = Some (EEFS_ERROR_OK, s1) \<and>
     eepromfs_delete (nm 65) s1 = Some (EEFS_ERROR_OK, s2) \<and> holds s2 st'"
proof -
  obtain s1 f where s1: "save (nm 65) [9] blank = Some (EEFS_ERROR_OK, s1)"
    by (rule save_blank [of "[9]"]) simp
  have "holds s1 (Map.empty(nm 65 \<mapsto> [9]))"
    using save_law [OF holds_blank _ s1] by (simp add: valid_file_def)
  then obtain s2 where s2: "eepromfs_delete (nm 65) s1 = Some (EEFS_ERROR_OK, s2)"
    using remove_ok [of s1 "Map.empty(nm 65 \<mapsto> [9])" "nm 65" "[9]"] by auto
  have "session blank s1" using s1 by (intro s_save [of "nm 65" "[9]"]) (simp_all add: valid_file_def)
  moreover have "session s1 s2" using s2 by (intro s_delete [of "nm 65"]) simp_all
  ultimately have "session\<^sup>*\<^sup>* blank s2" by (meson rtranclp.rtrancl_into_rtrancl rtranclp.rtrancl_refl)
  then show ?thesis using sessions_keep_store [OF _ holds_blank] s1 s2 by blast
qed

section \<open>Single operations\<close>



text \<open>
  C26. \<open>eepromfs_read\<close> on a handle at position \<open>p\<close> of a file always returns without error
  and delivers the bytes of the file from \<open>p\<close> on, as many as asked for or as are left;
  the handle moves by that amount and nothing in the EEPROM changes.
\<close>

theorem eepromfs_read_delivers:
  assumes "fs_ok s fl" "f \<in> set fl" "rh_ok fh f p"
  shows "\<exists>fh' s'. eepromfs_read fh len s = Some (EEFS_ERROR_OK, fh',
       take (unat len) (drop p (file_data (eeprom s) f)), s') \<and>
    rh_ok fh' f (min (p + unat len) (unat (af_size f))) \<and> fs_ok s' fl \<and> eeprom s' = eeprom s"
  unfolding file_data_def using eepromfs_read_ok [OF assms] by metis

theorem eepromfs_read_delivers_witness:
  "\<exists>s fh s1 fh' s'. save (nm 65) [1, 2, 3] blank = Some (EEFS_ERROR_OK, s) \<and>
     eepromfs_open (nm 65) EEFS_MODE_READ s = Some (EEFS_ERROR_OK, fh, s1) \<and>
     eepromfs_read fh 2 s1 = Some (EEFS_ERROR_OK, fh', [1, 2], s')"
proof -
  obtain s f where s: "save (nm 65) [1, 2, 3] blank = Some (EEFS_ERROR_OK, s)"
    and p: "save_post blank [] (nm 65) [1, 2, 3] EEFS_ERROR_OK s f (length [1, 2, 3 :: u8])"
    by (rule save_blank [of "[1, 2, 3]"]) simp
  have fs: "fs_ok s [f]" "af_name f = nm 65" "file_data (eeprom s) f = [1, 2, 3]"
    using p by (simp_all add: save_post_def)
  have f: "f \<in> set [f]" by simp
  obtain fh s1 where O: "eepromfs_open (af_name f) EEFS_MODE_READ s = Some (EEFS_ERROR_OK, fh, s1)"
    "rh_ok fh f 0" "fs_ok s1 [f]" "eeprom s1 = eeprom s" by (rule eepromfs_open_read_ok [OF fs(1) f])
  have "unat (2 :: u16) = 2" by simp
  then have "\<exists>fh' s'. eepromfs_read fh 2 s1 = Some (EEFS_ERROR_OK, fh', [1, 2], s')"
    using eepromfs_read_delivers [OF O(3) f O(2), of 2] fs(3) O(4) by auto
  then show ?thesis using s O(1) fs(2) by auto
qed

text \<open>
  C27. \<open>eepromfs_delete\<close> of an existing file removes it from the directory, gives all its
  sectors back (the free counter and the sector bitmap follow) and leaves every other file
  as it was.
\<close>

theorem eepromfs_delete_frees:
  assumes "fs_ok s (f # rest)"
  shows "\<exists>s'. eepromfs_delete (af_name f) s = Some (EEFS_ERROR_OK, s') \<and> fs_ok s' rest \<and>
    store (eeprom s') rest = store (eeprom s) rest \<and>
    unat (eepromfs_free_sectors s') = unat (eepromfs_free_sectors s) + length (af_secs f) \<and>
    (\<forall>k \<in> set (af_secs f). \<not> bm_get (used_sectors s') k)"
proof -
  obtain s' where D: "eepromfs_delete (af_name f) s = Some (EEFS_ERROR_OK, s')" "fs_ok s' rest"
    "\<forall>k. sec (eeprom s') k = sec (eeprom s) k" by (rule eepromfs_delete_ok [OF assms])
  have "length (all_secs (f # rest)) \<le> 52" by (rule all_secs_le [OF assms])
  then have "unat (eepromfs_free_sectors s') = unat (eepromfs_free_sectors s) + length (af_secs f)"
    using fs_okD(13) [OF assms] fs_okD(13) [OF D(2)] by (simp add: eepromfs_free_sectors_def)
  moreover have "\<not> bm_get (used_sectors s') k" if "k \<in> set (af_secs f)" for k
    using that fs_okD(7,8) [OF assms] fs_okD(12) [OF D(2), of k] by auto
  ultimately show ?thesis using D store_frame [of rest "eeprom s'" "eeprom s"] by auto
qed

theorem eepromfs_delete_frees_witness:
  "\<exists>s (f :: afile) s'. save (nm 65) [1, 2, 3] blank = Some (EEFS_ERROR_OK, s) \<and>
     eepromfs_delete (nm 65) s = Some (EEFS_ERROR_OK, s') \<and>
     unat (eepromfs_free_sectors s') = unat (eepromfs_free_sectors s) + length (af_secs f)"
proof -
  obtain s f where s: "save (nm 65) [1, 2, 3] blank = Some (EEFS_ERROR_OK, s)"
    and p: "save_post blank [] (nm 65) [1, 2, 3] EEFS_ERROR_OK s f (length [1, 2, 3 :: u8])"
    by (rule save_blank [of "[1, 2, 3]"]) simp
  have "fs_ok s [f]" "af_name f = nm 65" using p by (simp_all add: save_post_def)
  then show ?thesis using eepromfs_delete_frees [of s f "[]"] s by metis
qed

text \<open>
  Deleting a file does not give its directory entries back: their bits in the entry
  bitmap stay set, so once all eight entries have been handed out, creating a file fails
  with DIRFULL although a file has been deleted.
\<close>

theorem eepromfs_delete_leaks_entries:
  assumes "fs_ok s (f # rest)" "\<forall>i < 8. bm_get (used_entries s) i"
    and "\<forall>g \<in> set rest. af_name g \<noteq> n" "length n = 16" "length d < 65536"
  shows "\<exists>s' s''. eepromfs_delete (af_name f) s = Some (EEFS_ERROR_OK, s') \<and> fs_ok s' rest \<and>
    save n d s' = Some (EEFS_ERROR_DIRFULL, s'')"
proof -
  obtain s' where D: "eepromfs_delete (af_name f) s = Some (EEFS_ERROR_OK, s')" "fs_ok s' rest"
    "used_entries s' = used_entries s" by (rule eepromfs_delete_ok [OF assms(1)])
  show ?thesis
  proof (cases rule: eepromfs_open_write_ok [OF D(2) assms(3,4)])
    case (1 fh)
    then have "save n d s' = Some (EEFS_ERROR_DIRFULL, load 7 s')" by (simp add: save_def)
    then show ?thesis using D by blast
  next
    case (2 fh s1 j)
    then show ?thesis using assms(2) D(3) by simp
  qed
qed

lemma fs_ok_all_entries_used:
  "fs_ok s fl \<Longrightarrow> fs_ok (s\<lparr>used_entries := [0xff]\<rparr>) fl" "\<forall>i < 8. bm_get [0xff] i"
proof -
  have "(0xff :: u8) = - 1" by simp
  then have "bit (0xff :: u8) i" if "i < 8" for i using that by (simp only: bit_minus_1_iff) simp
  then have "bm_get [0xff] i" if "i < 8" for i using that by (simp add: bm_get_bit)
  then show "\<forall>i < 8. bm_get [0xff] i" by blast
  then show "fs_ok s fl \<Longrightarrow> fs_ok (s\<lparr>used_entries := [0xff]\<rparr>) fl" by (auto simp: fs_ok_def)
qed

theorem eepromfs_delete_leaks_entries_witness:
  "\<exists>s s' s''. save (nm 65) [1] blank = Some (EEFS_ERROR_OK, s) \<and>
     eepromfs_delete (nm 65) (s\<lparr>used_entries := [0xff]\<rparr>) = Some (EEFS_ERROR_OK, s') \<and>
     fs_ok s' [] \<and> save (nm 66) [2] s' = Some (EEFS_ERROR_DIRFULL, s'')"
proof -
  obtain s f where s: "save (nm 65) [1] blank = Some (EEFS_ERROR_OK, s)"
    and p: "save_post blank [] (nm 65) [1] EEFS_ERROR_OK s f (length [1 :: u8])"
    by (rule save_blank [of "[1]"]) simp
  have f: "fs_ok (s\<lparr>used_entries := [0xff]\<rparr>) [f]" "af_name f = nm 65"
    using p fs_ok_all_entries_used(1) [of s "[f]"] by (simp_all add: save_post_def)
  show ?thesis
    using eepromfs_delete_leaks_entries [OF f(1), of "nm 66" "[2]"] fs_ok_all_entries_used(2) f(2) s by auto
qed

text \<open>
  \<open>eepromfs_rename\<close> gives the file its new name and changes neither its contents nor any
  other file; renaming onto an existing name or from a missing one is refused and changes
  nothing.
\<close>

theorem eepromfs_rename_moves:
  assumes "holds s st" "length old = 16" "length new = 16"
  shows "\<exists>err s'. eepromfs_rename old new s = Some (err, s') \<and>
    (case (st old, st new) of
       (_, Some _) \<Rightarrow> err = EEFS_ERROR_FILEEXISTS \<and> holds s' st
     | (None, None) \<Rightarrow> err = EEFS_ERROR_FILENOTFOUND \<and> holds s' st
     | (Some d, None) \<Rightarrow> err = EEFS_ERROR_OK \<and> holds s' (st(old := None, new \<mapsto> d)))"
proof -
  obtain fl where fl: "fs_ok s fl" "store (eeprom s) fl = st" using assms(1) by (auto simp: holds_def)
  have ld: "holds (load i s) st" for i using fs_ok_load [OF fl(1)] fl(2) by (intro holdsI) simp_all
  have names: "st k = None \<longleftrightarrow> (\<forall>g \<in> set fl. af_name g \<noteq> k)" for k
  proof -
    have "k \<in> dom st \<longleftrightarrow> k \<in> af_name ` set fl" using fl(2) dom_store [of "eeprom s" fl] by simp
    then show ?thesis by (auto simp: domIff)
  qed
  show ?thesis
  proof (cases "st new")
    case (Some e)
    then obtain g where "g \<in> set fl" "af_name g = new" using names [of new] by auto
    then show ?thesis using eepromfs_rename_errors(1) [OF fl(1) assms(2,3)] ld Some
      by (auto split: option.split)
  next
    case None
    show ?thesis
    proof (cases "st old")
      case old: None
      then show ?thesis
        using eepromfs_rename_errors(2) [OF fl(1) assms(2,3)] names [of old] names [of new] ld None by simp
    next
      case (Some d)
      then show ?thesis using rename_ok [OF assms(1) Some None assms(3)] None by simp
    qed
  qed
qed

theorem eepromfs_rename_moves_witness:
  "\<exists>s s'. save (nm 65) [1] blank = Some (EEFS_ERROR_OK, s) \<and>
     eepromfs_rename (nm 65) (nm 66) s = Some (EEFS_ERROR_OK, s') \<and>
     holds s' ((Map.empty)(nm 65 := None, nm 66 \<mapsto> [1]))"
proof -
  obtain s f where s: "save (nm 65) [1] blank = Some (EEFS_ERROR_OK, s)"
    by (rule save_blank [of "[1]"]) simp
  have h: "holds s (Map.empty(nm 65 \<mapsto> [1]))"
    using save_law [OF holds_blank _ s] by (simp add: valid_file_def)
  have "nm 66 \<noteq> nm 65" by (simp add: nm_def)
  then show ?thesis using eepromfs_rename_moves [OF h, of "nm 65" "nm 66"] s by auto
qed

text \<open>
  The write-minimising \<open>write_entry\<close>, which compares the entry with the EEPROM and
  writes only the runs of bytes that differ, has exactly the effect of writing the whole
  32-byte entry, for every entry number that lies in the EEPROM.
\<close>

theorem write_entry_minimised:
  assumes "unat idx < 112" "32 \<le> length (ops_scratch s)"
  shows "ee_write_entry idx s =
    Some (s\<lparr>eeprom := write_block (eeprom s) (entry_addr idx) (take sizeof_entry (ops_scratch s))\<rparr>)"
  using ee_write_entry_store [OF assms] by (simp add: entry_addr_def)

theorem write_entry_minimised_witness:
  "ee_write_entry 3 blank =
     Some (blank\<lparr>eeprom := write_block (\<lambda>_. 0xff) (entry_addr 3) (replicate 32 0)\<rparr>)"
  using write_entry_minimised [of 3 blank] by (simp add: blank_def)

text \<open>
  \<open>eepromfs_format\<close> turns any EEPROM contents into an empty file system with all 52
  sectors and all 8 entries free, and leaves the configuration area below it alone.
\<close>

theorem eepromfs_format_empties:
  assumes "length (ops_scratch s) = 33"
  shows "\<exists>s'. eepromfs_format s = Some s' \<and> holds s' Map.empty \<and> eepromfs_free_sectors s' = 52 \<and>
    (\<forall>j < 8. \<not> bm_get (used_entries s') j) \<and> (\<forall>x < 512. eeprom s' x = eeprom s x)"
proof -
  obtain s' where F: "eepromfs_format s = Some s'" "fs_ok s' []" "eepromfs_free_sectors s' = 52"
    "\<forall>j < 8. \<not> bm_get (used_entries s') j" "\<forall>x < 512. eeprom s' x = eeprom s x"
    by (rule eepromfs_format_ok [OF assms])
  have "holds s' Map.empty" using F(2) by (rule holdsI) simp
  then show ?thesis using F by blast
qed

theorem eepromfs_format_empties_witness:
  "\<exists>s'. eepromfs_format (blank\<lparr>eeprom := (\<lambda>x. of_nat x)\<rparr>) = Some s' \<and> eeprom s' 511 = 0xff"
  using eepromfs_format_empties [of "blank\<lparr>eeprom := (\<lambda>x. of_nat x)\<rparr>"] by (auto simp: blank_def)

text \<open>
  Reading the directory from \<open>eepromfs_opendir\<close> to its end lists every file exactly
  once, with its name and size, in the order of its directory entry, and nothing else.
\<close>

theorem readdir_lists_files:
  assumes "fs_ok s fl"
  shows "\<exists>fs s'. listing 9 eepromfs_opendir s = Some (map dirent_of fs, s') \<and> set fs = set fl \<and>
    distinct (map af_name fs) \<and> sorted_wrt (\<lambda>f g. hd (af_ents f) < hd (af_ents g)) fs \<and> fs_ok s' fl"
proof -
  obtain fs s' where L: "listing 9 0 s = Some (map dirent_of fs, s')" "fs_ok s' fl"
    "set fs = {f \<in> set fl. 0 \<le> hd (af_ents f)}" "sorted_wrt (\<lambda>f g. hd (af_ents f) < hd (af_ents g)) fs"
    using listing_ok [OF assms, of 0 9] by auto
  have "distinct fs" using L(4) by (induction fs) auto
  moreover have "inj_on af_name (set fs)"
    using fs_okD(9) [OF assms] L(3) by (auto simp: distinct_map inj_on_def)
  ultimately show ?thesis using L by (auto simp: eepromfs_opendir_def distinct_map)
qed

theorem readdir_lists_files_witness:
  "\<exists>fs s'. listing 9 eepromfs_opendir blank = Some (map dirent_of fs, s') \<and> fs = []"
  using readdir_lists_files [OF fs_ok_blank] by auto

text \<open>
  C14. \<open>eepromfs_init\<close> needs nothing but the EEPROM: from any RAM contents it rebuilds the
  bitmaps and the free counter so that the file system is sound, holds the same files, and
  an entry is marked used exactly when it belongs to a file.
\<close>

theorem eepromfs_init_recovers:
  assumes "disk_ok (eeprom s) fl" "length (ops_scratch s) = 33"
  shows "\<exists>s'. eepromfs_init s = Some s' \<and> fs_ok s' fl \<and> eeprom s' = eeprom s \<and>
    (\<forall>j < 8. bm_get (used_entries s') j \<longleftrightarrow> j \<in> set (all_ents fl))"
  by (rule eepromfs_init_ok [OF assms]) blast

theorem eepromfs_init_recovers_witness:
  "\<exists>s s'. save (nm 65) [1] blank = Some (EEFS_ERROR_OK, s) \<and>
     eepromfs_init (s\<lparr>used_sectors := [], used_entries := [], free_sectors := 0\<rparr>) = Some s' \<and>
     holds s' (Map.empty(nm 65 \<mapsto> [1]))"
proof -
  obtain s f where s: "save (nm 65) [1] blank = Some (EEFS_ERROR_OK, s)"
    and p: "save_post blank [] (nm 65) [1] EEFS_ERROR_OK s f (length [1 :: u8])"
    by (rule save_blank [of "[1]"]) simp
  let ?s = "s\<lparr>used_sectors := [], used_entries := [], free_sectors := 0\<rparr>"
  have d: "disk_ok (eeprom ?s) [f]" "length (ops_scratch ?s) = 33" and st: "store (eeprom s) [f] = Map.empty(nm 65 \<mapsto> [1])"
    using p fs_ok_disk fs_okD(1) by (auto simp: save_post_def)
  obtain s' where i: "eepromfs_init ?s = Some s'" "fs_ok s' [f]" "eeprom s' = eeprom ?s"
    using eepromfs_init_recovers [OF d] by blast
  have "holds s' (Map.empty(nm 65 \<mapsto> [1]))" using i(3) st by (intro holdsI [OF i(2)]) simp
  then show ?thesis using i(1) s by blast
qed

end
