(* ===== verification/Utils.thy ===== *)
theory Utils
  imports Prelude
begin

text \<open>
  The string and number helpers of \<^verbatim>\<open>src/src/utils.c\<close> and the PETSCII/ASCII and FAT-name
  functions of \<^verbatim>\<open>src/src/fatops.c\<close>.  A pointer that runs through a string is the list of
  the bytes still ahead of it, or an index where the code also writes to the string.
\<close>

section \<open>Numbers\<close>

definition appendnumber :: "u8 list \<Rightarrow> u8 \<Rightarrow> u8 list" where
  "appendnumber msg value =
     (let (msg, value) = (if value \<ge> 100 then (msg @ [asc CHR ''0'' + value div 100], value mod 100)
                          else (msg, value))
      in msg @ [asc CHR ''0'' + value div 10, asc CHR ''0'' + value mod 10])"

definition bcd2int :: "u8 \<Rightarrow> u8" where
  "bcd2int value = (value AND 0x0f) + 10 * drop_bit 4 value"

definition int2bcd :: "u8 \<Rightarrow> u8" where
  "int2bcd value = (value mod 10) + 16 * (value div 10)"

section \<open>Tokens\<close>

text \<open>
  \<open>ustr1tok\<close> works in place on a zero-terminated string: it returns the start of the next
  token and the position after it, and overwrites the delimiter with a zero.  \<open>None\<close> is
  reading past the end of the array, the inner option is the C result \<open>NULL\<close>.
\<close>

fun skip_delim :: "nat \<Rightarrow> u8 list \<Rightarrow> u8 \<Rightarrow> nat \<Rightarrow> nat option" where
  "skip_delim 0 b delim i = None"
| "skip_delim (Suc n) b delim i =
     (if i \<ge> length b then None
      else if b ! i = delim then skip_delim n b delim (Suc i) else Some i)"

fun find_delim :: "nat \<Rightarrow> u8 list \<Rightarrow> u8 \<Rightarrow> nat \<Rightarrow> nat option" where
  "find_delim 0 b delim i = None"
| "find_delim (Suc n) b delim i =
     (if i \<ge> length b then None
      else if b ! i \<noteq> 0 \<and> b ! i \<noteq> delim then find_delim n b delim (Suc i) else Some i)"

definition ustr1tok :: "u8 list \<Rightarrow> u8 \<Rightarrow> nat \<Rightarrow> (u8 list \<times> (nat \<times> nat) option) option" where
  "ustr1tok b delim i = do {
     s \<leftarrow> skip_delim (Suc (length b)) b delim i;
     (if b ! s = 0 then Some (b, None)
      else do {
        t \<leftarrow> find_delim (Suc (length b)) b delim s;
        Some (if b ! t \<noteq> 0 then (b[t := 0], Some (s, Suc t)) else (b, Some (s, t))) }) }"

section \<open>Character sets\<close>

definition asc2pet_char :: "u8 \<Rightarrow> u8" where
  "asc2pet_char ch =
     (if ch > 64 \<and> ch < 91 then ch + 128
      else if ch > 96 \<and> ch < 123 then ch - 32
      else if ch > 192 \<and> ch < 219 then ch - 128
      else if ch = asc CHR ''~'' then 255
      else ch)"

fun asc2pet :: "u8 list \<Rightarrow> u8 list" where
  "asc2pet [] = []"
| "asc2pet (ch # buf) = (if ch = 0 then ch # buf else asc2pet_char ch # asc2pet buf)"

definition pet2asc_char :: "u8 \<Rightarrow> u8" where
  "pet2asc_char ch =
     (if ch > 128 + 64 \<and> ch < 128 + 91 then ch - 128
      else if ch > 96 - 32 \<and> ch < 123 - 32 then ch + 32
      else if ch > 192 - 128 \<and> ch < 219 - 128 then ch + 128
      else if ch = 255 then asc CHR ''~''
      else ch)"

fun pet2asc :: "u8 list \<Rightarrow> u8 list" where
  "pet2asc [] = []"
| "pet2asc (ch # buf) = (if ch = 0 then ch # buf else pet2asc_char ch # pet2asc buf)"

section \<open>FAT names\<close>

definition is_valid_fat_char :: "u8 \<Rightarrow> bool" where
  "is_valid_fat_char c = (if c < 32 \<or> c > 126 then False else c \<notin> set (asc CHR 0x22 # asc CHR 0x5C # str ''*,/:=?@''))"

text \<open>
  The name is a C string.  The pointer to the last character is computed but the second
  test reads the first character again.
\<close>

definition first_char :: "u8 list \<Rightarrow> u8" where
  "first_char name = (case name of [] \<Rightarrow> 0 | c # _ \<Rightarrow> c)"

definition is_valid_fat_name :: "u8 list \<Rightarrow> bool" where
  "is_valid_fat_name name =
     (if first_char name = asc CHR '' '' \<or> first_char name = asc CHR ''.'' then False
      else if \<not> list_all is_valid_fat_char name then False
      else if first_char name = asc CHR '' '' \<or> first_char name = asc CHR ''.'' then False
      else True)"

datatype exttype_t = EXT_UNKNOWN | EXT_IS_X00 | EXT_IS_TYPE
datatype imgtype_t = IMG_UNKNOWN | IMG_IS_DISK

text \<open>\<open>ustrrchr\<close>: the rest of the string after the last occurrence of a character.\<close>

fun after_last :: "u8 \<Rightarrow> u8 list \<Rightarrow> u8 list option" where
  "after_last c [] = None"
| "after_last c (b # bs) =
     (case after_last c bs of Some r \<Rightarrow> Some r | None \<Rightarrow> if b = c then Some bs else None)"

text \<open>
  The second and third character are read in any case.  When they lie behind the
  terminator, which the C code reads as well, they are zero here; no comparison below can
  succeed then.
\<close>

definition check_extension :: "u8 list \<Rightarrow> exttype_t \<times> u8 list option" where
  "check_extension name =
     (case after_last (asc CHR ''.'') name of
        None \<Rightarrow> (EXT_UNKNOWN, None)
      | Some ext \<Rightarrow>
          (let f = cchar ext 0; s = cchar ext 1; t = cchar ext 2 in
           (if f \<in> {asc CHR ''P'', asc CHR ''S'', asc CHR ''U'', asc CHR ''R''} \<and>
               c_isdigit s \<and> c_isdigit t then EXT_IS_X00
            else if [f, s, t] \<in> {str ''PRG'', str ''SEQ'', str ''REL'', str ''USR''} then EXT_IS_TYPE
            else EXT_UNKNOWN, Some ext)))"

definition check_imageext :: "u8 list \<Rightarrow> imgtype_t" where
  "check_imageext name =
     (case after_last (asc CHR ''.'') name of
        None \<Rightarrow> IMG_UNKNOWN
      | Some ext \<Rightarrow>
          (let f = c_toupper (cchar ext 0); s = c_toupper (cchar ext 1); t = c_toupper (cchar ext 2) in
           if f = asc CHR ''D'' \<and>
              (s = asc CHR ''6'' \<and> t = asc CHR ''4'' \<or>
               s = asc CHR ''N'' \<and> t = asc CHR ''P'' \<or>
               (s = asc CHR ''4'' \<or> s = asc CHR ''7'' \<or> s = asc CHR ''8'') \<and> t = asc CHR ''1'' \<or>
               s = asc CHR ''8'' \<and> (t = asc CHR ''0'' \<or> t = asc CHR ''2''))
           then IMG_IS_DISK else IMG_UNKNOWN))"

definition filetypes :: "u8 list" where
  "filetypes = str ''DELSEQPRGUSRRELCBMDIR???NAT41 71 81 ''"

definition TYPE_PRG :: u8 where [simp]: "TYPE_PRG = 2"

text \<open>
  \<open>build_name\<close>: the converted name and the position of the last character of the PC64
  extension, when one was appended; \<open>None\<close> is a file type beyond the type table.
\<close>

definition build_name :: "u8 \<Rightarrow> u8 list \<Rightarrow> u8 \<Rightarrow> (u8 list \<times> nat option) option" where
  "build_name file_extension_mode name type =
     (let name = pet2asc name in
      if type = TYPE_PRG \<and> check_imageext name \<noteq> IMG_UNKNOWN then Some (name, None)
      else if file_extension_mode = 1 \<and> type \<noteq> TYPE_PRG \<or> file_extension_mode = 2 \<or>
              \<not> is_valid_fat_name name
      then if 3 * unat type < length filetypes
           then Some (map (\<lambda>c. if is_valid_fat_char c then c else asc CHR ''_'') name @
                  [asc CHR ''.'', filetypes ! (3 * unat type), asc CHR ''0'', asc CHR ''0''],
                Some (length name + 3))
           else None
      else if file_extension_mode = 3 \<and> type \<noteq> TYPE_PRG \<or> file_extension_mode = 4
      then if 3 * unat (type AND 15) < length filetypes
           then Some (name @ [asc CHR ''.''] @ take 3 (drop (3 * unat (type AND 15)) filetypes), None)
           else None
      else Some (name, None))"

section \<open>Properties of the number helpers\<close>

lemma unat_div_u8: "unat (a div b :: u8) = unat a div unat b"
  by (rule unat_div_distrib)

lemma unat_mod_u8: "unat (a mod b :: u8) = unat a mod unat b"
  by (rule unat_mod_distrib)

lemma unat_add_u8: "unat (a :: u8) + unat b < 256 \<Longrightarrow> unat (a + b) = unat a + unat b"
  by (simp add: unat_word_ariths)

lemma unat_mult_u8: "unat (a :: u8) * unat b < 256 \<Longrightarrow> unat (a * b) = unat a * unat b"
  by (simp add: unat_word_ariths)

lemma unat_low_nibble: "unat (w AND 0x0f :: u8) = unat w mod 16"
proof -
  have "w AND 0x0f = take_bit 4 w" by (simp add: take_bit_eq_mask mask_eq_exp_minus_1)
  then show ?thesis by (simp add: take_bit_eq_mod unat_mod_u8)
qed

lemma unat_high_nibble: "unat (drop_bit 4 w :: u8) = unat w div 16"
  by (simp add: drop_bit_eq_div unat_div_u8)

lemma unat_bcd2int: "unat (bcd2int w) = unat w mod 16 + 10 * (unat w div 16)"
proof -
  have "unat w div 16 < 16" using u8_lt_256 [of w] by (simp add: div_less_iff_less_mult)
  then have "unat (10 * drop_bit 4 w :: u8) = 10 * (unat w div 16)"
    by (subst unat_mult_u8) (simp_all add: unat_high_nibble)
  then show ?thesis
    using \<open>unat w div 16 < 16\<close> unfolding bcd2int_def
    by (subst unat_add_u8) (simp_all add: unat_low_nibble)
qed

lemma unat_int2bcd: "unat v < 100 \<Longrightarrow> unat (int2bcd v) = unat v mod 10 + 16 * (unat v div 10)"
proof -
  assume "unat v < 100"
  then have d: "unat v div 10 < 10" by (simp add: div_less_iff_less_mult)
  then have "unat (16 * (v div 10) :: u8) = 16 * (unat v div 10)"
    by (subst unat_mult_u8) (simp_all add: unat_div_u8)
  then show ?thesis using d unfolding int2bcd_def
    by (subst unat_add_u8) (simp_all add: unat_mod_u8)
qed

lemma bcd_roundtrip: "unat v < 100 \<Longrightarrow> bcd2int (int2bcd v) = v"
  by (simp add: u8_eq_iff unat_bcd2int unat_int2bcd)

lemma unat_sub_u8: "unat b \<le> unat a \<Longrightarrow> unat (a - b :: u8) = unat a - unat b"
  by (simp add: unat_sub word_le_nat_alt)

lemma unat_asc2pet_char:
  "unat (asc2pet_char ch) = (let n = unat ch in
     if 64 < n \<and> n < 91 then n + 128 else if 96 < n \<and> n < 123 then n - 32
     else if 192 < n \<and> n < 219 then n - 128 else if n = 126 then 255 else n)"
  unfolding asc2pet_char_def Let_def
  by (auto simp: word_less_nat_alt u8_eq_iff unat_add_u8 unat_sub_u8)

lemma unat_pet2asc_char:
  "unat (pet2asc_char ch) = (let n = unat ch in
     if 192 < n \<and> n < 219 then n - 128 else if 64 < n \<and> n < 91 then n + 32
     else if n = 255 then 126 else n)"
  unfolding pet2asc_char_def Let_def
  by (auto simp: word_less_nat_alt u8_eq_iff unat_add_u8 unat_sub_u8)

lemma asc2pet_roundtrip_char: "ch < 128 \<Longrightarrow> pet2asc_char (asc2pet_char ch) = ch"
  by (auto simp: u8_eq_iff word_less_nat_alt unat_asc2pet_char unat_pet2asc_char Let_def)

lemma asc2pet_char_nonzero: "ch \<noteq> 0 \<Longrightarrow> asc2pet_char ch \<noteq> 0"
  by (auto simp: u8_eq_iff unat_asc2pet_char Let_def)

lemma asc2pet_roundtrip: "list_all (\<lambda>c. c < 128) bs \<Longrightarrow> pet2asc (asc2pet bs) = bs"
proof (induction bs)
  case (Cons c bs)
  then show ?case by (cases "c = 0") (simp_all add: asc2pet_char_nonzero asc2pet_roundtrip_char)
qed simp

text \<open>The decimal digits \<open>appendnumber\<close> writes, read back as a number.\<close>

definition dec_value :: "u8 list \<Rightarrow> nat" where
  "dec_value ds = foldl (\<lambda>n d. 10 * n + unat (d - asc CHR ''0'')) 0 ds"

lemma appendnumber_prefix: "appendnumber msg v = msg @ appendnumber [] v"
  by (simp add: appendnumber_def split: prod.split)

lemma digit_facts:
  assumes "unat (d :: u8) < 10"
  shows "unat (asc CHR ''0'' + d - asc CHR ''0'') = unat d" "c_isdigit (asc CHR ''0'' + d)"
proof -
  show "unat (asc CHR ''0'' + d - asc CHR ''0'') = unat d" by simp
  have "unat (48 + d) = 48 + unat d" using assms by (subst unat_add_u8) simp_all
  then show "c_isdigit (asc CHR ''0'' + d)" using assms by (simp add: c_isdigit_def word_le_nat_alt)
qed

lemma appendnumber_digits:
  "\<exists>ds. appendnumber [] v = map (\<lambda>d. asc CHR ''0'' + d) ds \<and> (\<forall>d \<in> set ds. unat d < 10) \<and>
    foldl (\<lambda>n d. 10 * n + unat d) 0 ds = unat v \<and> length ds = (if unat v < 100 then 2 else 3)"
proof (cases "v \<ge> 100")
  case True
  let ?w = "v mod 100"
  have v: "100 \<le> unat v" "unat v < 256" using True by (simp_all add: word_le_nat_alt)
  have w: "unat ?w = unat v mod 100" by (simp add: unat_mod_u8)
  have "appendnumber [] v = map (\<lambda>d. asc CHR ''0'' + d) [v div 100, ?w div 10, ?w mod 10]"
    using True by (simp add: appendnumber_def)
  moreover have "\<forall>d \<in> set [v div 100, ?w div 10, ?w mod 10]. unat d < 10"
    using order_less_trans [OF v(2), of 1000] w by (simp add: unat_div_u8 unat_mod_u8 div_less_iff_less_mult)
  moreover have "foldl (\<lambda>n d. 10 * n + unat d) 0 [v div 100, ?w div 10, ?w mod 10] = unat v"
  proof -
    have "10 * (unat v mod 100 div 10) + unat v mod 100 mod 10 = unat v mod 100" by simp
    then show ?thesis using div_mult_mod_eq [of "unat v" 100] by (simp add: w unat_div_u8 unat_mod_u8)
  qed
  ultimately show ?thesis using v by (intro exI [of _ "[v div 100, ?w div 10, ?w mod 10]"]) simp
next
  case False
  then have v: "unat v < 100" by (simp add: word_le_nat_alt not_le)
  have "appendnumber [] v = map (\<lambda>d. asc CHR ''0'' + d) [v div 10, v mod 10]"
    using False by (simp add: appendnumber_def)
  moreover have "\<forall>d \<in> set [v div 10, v mod 10]. unat d < 10"
    using v by (simp add: unat_div_u8 unat_mod_u8 div_less_iff_less_mult)
  ultimately show ?thesis
    using v by (intro exI [of _ "[v div 10, v mod 10]"]) (simp add: unat_div_u8 unat_mod_u8)
qed

lemma dec_value_digits:
  "\<forall>d \<in> set ds. unat d < 10 \<Longrightarrow>
   dec_value (map (\<lambda>d. asc CHR ''0'' + d) ds) = foldl (\<lambda>n d. 10 * n + unat d) 0 ds"
  unfolding dec_value_def foldl_map by (simp cong: foldl_cong)

lemma appendnumber_facts:
  "dec_value (appendnumber [] v) = unat v" "list_all c_isdigit (appendnumber [] v)"
  "length (appendnumber [] v) = (if unat v < 100 then 2 else 3)"
proof -
  obtain ds where ds: "appendnumber [] v = map (\<lambda>d. asc CHR ''0'' + d) ds" "\<forall>d \<in> set ds. unat d < 10"
    "foldl (\<lambda>n d. 10 * n + unat d) 0 ds = unat v" "length ds = (if unat v < 100 then 2 else 3)"
    using appendnumber_digits by blast
  show "dec_value (appendnumber [] v) = unat v" using dec_value_digits [OF ds(2)] ds by simp
  show "list_all c_isdigit (appendnumber [] v)"
    using ds digit_facts(2) by (simp add: list_all_iff)
  show "length (appendnumber [] v) = (if unat v < 100 then 2 else 3)" using ds by simp
qed

end
