(* ===== verification/Parser.thy ===== *)
theory Parser
  imports Utils
begin

text \<open>
  The name, number and date parsing of \<^verbatim>\<open>src/src/parser.c\<close>.  A C string is the list of its
  bytes without the terminator; a pointer into it is an index, read with \<open>cchar\<close>, and a
  pointer the C code advances is returned with the result.
\<close>

section \<open>Names\<close>

definition check_invalid_name :: "u8 list \<Rightarrow> bool" where
  "check_invalid_name name =
     list_ex (\<lambda>c. c = asc CHR ''='' \<or> c = asc CHR 0x22 \<or> c = asc CHR ''*'' \<or> c = asc CHR ''?'' \<or>
                  c = asc CHR '','') name"

definition tolower_pet :: "u8 \<Rightarrow> u8" where
  "tolower_pet c = (if 0x61 \<le> c \<and> c \<le> 0x7a then c - 0x20
                    else if 0xc1 \<le> c \<and> c \<le> 0xda then c - 0x80 else c)"

text \<open>The rest of the string and a 0-based partition number; the 8-bit accumulator wraps.\<close>

fun parse_partition_loop :: "u8 list \<Rightarrow> u8 \<Rightarrow> u8 list \<times> u8" where
  "parse_partition_loop [] part = ([], part)"
| "parse_partition_loop (c # buf) part =
     (if c_isdigit c \<or> c = asc CHR '' '' \<or> c = asc CHR ''@''
      then parse_partition_loop buf
             (if c_isdigit c then part * 10 + (c - asc CHR ''0'') else part)
      else (c # buf, part))"

definition parse_partition :: "u8 \<Rightarrow> u8 \<Rightarrow> u8 list \<Rightarrow> u8 list \<times> u8" where
  "parse_partition eefs_partition current_part buf =
     (if eefs_partition \<noteq> 255 \<and> cchar buf 0 = asc CHR ''!'' \<and> cchar buf 1 = asc CHR '':''
      then (drop 2 buf, eefs_partition)
      else (let (buf, part) = parse_partition_loop buf 0
            in (buf, if part = 0 then current_part else part - 1)))"

section \<open>Pattern matching\<close>

definition CBM_NAME_LENGTH :: nat where [simp]: "CBM_NAME_LENGTH = 16"

definition fold_case :: "bool \<Rightarrow> u8 \<Rightarrow> u8" where
  "fold_case ignorecase c = (if ignorecase then tolower_pet c else c)"

text \<open>
  The backward comparison after a \<open>*\<close> when \<open>POSTMATCH\<close> is set.  \<open>k\<close> counts the pattern
  characters left behind the star; the file name index is an integer, and \<open>None\<close> is a
  read in front of the name array.
\<close>

fun postmatch_loop :: "bool \<Rightarrow> u8 list \<Rightarrow> u8 list \<Rightarrow> nat \<Rightarrow> nat \<Rightarrow> int \<Rightarrow> bool option" where
  "postmatch_loop ic ms name starpos 0 fi = Some True"
| "postmatch_loop ic ms name starpos (Suc k) fi =
     (if fi < 0 \<or> length name \<le> nat fi then None
      else (let m = fold_case ic (cchar ms (starpos + Suc k)); f = fold_case ic (name ! nat fi) in
            if m \<noteq> f \<and> m \<noteq> asc CHR ''?'' then Some False
            else postmatch_loop ic ms name starpos k (fi - 1)))"

fun match_loop :: "bool \<Rightarrow> bool \<Rightarrow> u8 list \<Rightarrow> u8 list \<Rightarrow> nat \<Rightarrow> nat \<Rightarrow> nat \<Rightarrow> bool option" where
  "match_loop postmatch ic ms name chars_remain mi fi =
     (if length name \<le> fi then None
      else if chars_remain = 0 \<or> name ! fi = 0
      then Some (\<not> (cchar ms mi \<noteq> 0 \<and> cchar ms mi \<noteq> asc CHR ''*'' \<and> chars_remain \<noteq> 0))
      else (let m = fold_case ic (cchar ms mi); f = fold_case ic (name ! fi) in
            if m = asc CHR ''?''
            then match_loop postmatch ic ms name (chars_remain - 1) (Suc mi) (Suc fi)
            else if m = asc CHR ''*''
            then if postmatch
                 then postmatch_loop ic ms name mi (length ms - 1 - mi)
                        (int fi + int (length (cstr (drop fi name))) - 1)
                 else Some True
            else if m \<noteq> f then Some False
            else match_loop postmatch ic ms name (chars_remain - 1) (Suc mi) (Suc fi)))"

declare match_loop.simps [simp del]

definition match_name :: "bool \<Rightarrow> u8 list \<Rightarrow> u8 list \<Rightarrow> bool \<Rightarrow> bool option" where
  "match_name postmatch matchstr name ignorecase =
     match_loop postmatch ignorecase matchstr name 16 0 0"

section \<open>Numbers and dates\<close>

fun skip_spaces :: "u8 list \<Rightarrow> nat \<Rightarrow> nat" where
  "skip_spaces [] i = i"
| "skip_spaces (c # cs) i = (if c = asc CHR '' '' then skip_spaces cs (Suc i) else i)"

fun parse_digits :: "u8 list \<Rightarrow> nat \<Rightarrow> u16 \<Rightarrow> u16 \<times> nat" where
  "parse_digits [] i res = (res, i)"
| "parse_digits (c # cs) i res =
     (if c_isdigit c then parse_digits cs (Suc i) (res * 10 + (ucast c - ucast (asc CHR ''0'')))
      else (res, i))"

definition parse_number :: "u8 list \<Rightarrow> nat \<Rightarrow> u16 \<times> nat" where
  "parse_number s i = (let i = skip_spaces (drop i s) i in parse_digits (drop i s) i 0)"

record date_t =
  d_year :: u8
  d_month :: u8
  d_day :: u8
  d_hour :: u8
  d_minute :: u8
  d_second :: u8

text \<open>The AM/PM suffix at the end of a date.\<close>

definition parse_ampm :: "u8 list \<Rightarrow> nat \<Rightarrow> date_t \<Rightarrow> bool \<times> date_t \<times> nat" where
  "parse_ampm s i date =
     (let ch = cchar s i; i = Suc i in
      if ch \<noteq> asc CHR ''A'' \<and> ch \<noteq> asc CHR ''P'' then (True, date, i)
      else (let date = (if ch = asc CHR ''P'' then date\<lparr>d_hour := d_hour date + 12\<rparr> else date) in
            if d_hour date > 23 then (True, date, i)
            else (cchar s i \<noteq> asc CHR ''M'', date, Suc i)))"

text \<open>The time part, from the hour on.\<close>

definition parse_time :: "u8 list \<Rightarrow> nat \<Rightarrow> date_t \<Rightarrow> bool \<times> date_t \<times> nat" where
  "parse_time s i date =
     (let (n, i) = parse_number s i;
          date = date\<lparr>d_hour := ucast n\<rparr>;
          ch = cchar s i; i = Suc i in
      if d_hour date > 23 \<or> ch \<noteq> asc CHR '':'' \<and> ch \<noteq> asc CHR ''.'' then (True, date, i)
      else
        (let (n, i) = parse_number s i;
             date = date\<lparr>d_minute := ucast n\<rparr>;
             ch = cchar s i; i = Suc i in
         if d_minute date > 59 then (True, date, i)
         else if ch = asc CHR '':'' \<or> ch = asc CHR ''.'' then
           (let (n, i) = parse_number s i;
                date = date\<lparr>d_second := ucast n\<rparr> in
            if d_second date > 59 \<or> cchar s i \<noteq> asc CHR '' ''
            then (True, date, if d_second date > 59 then i else Suc i)
            else parse_ampm s (Suc i) date)
         else if ch = asc CHR '' '' then parse_ampm s i (date\<lparr>d_second := 0\<rparr>)
         else if ch = asc CHR '','' \<or> ch = 0 then (False, date\<lparr>d_second := 0\<rparr>, i - 1)
         else (True, date, i)))"

text \<open>The first component is the C result: true is an error.\<close>

definition parse_date :: "u8 list \<Rightarrow> nat \<Rightarrow> date_t \<Rightarrow> bool \<times> date_t \<times> nat" where
  "parse_date s i date =
     (let (n, i) = parse_number s i;
          date = date\<lparr>d_month := ucast n\<rparr> in
      if d_month date > 12 then (True, date, i)
      else if cchar s i \<noteq> asc CHR ''/'' then (True, date, Suc i)
      else
        (let (n, i) = parse_number s (Suc i);
             date = date\<lparr>d_day := ucast n\<rparr> in
         if d_day date > 31 then (True, date, i)
         else if cchar s i \<noteq> asc CHR ''/'' then (True, date, Suc i)
         else
           (let (n, i) = parse_number s (Suc i);
                date = date\<lparr>d_year := ucast n\<rparr>;
                date = (if d_year date < 80 then date\<lparr>d_year := d_year date + 100\<rparr> else date) in
            if cchar s i = 0 \<or> cchar s i = asc CHR '',''
            then (False, date\<lparr>d_hour := 0, d_minute := 0, d_second := 0\<rparr>, i)
            else if cchar s i \<noteq> asc CHR '' '' then (True, date, Suc i)
            else parse_time s (Suc i) date)))"

end
