(* ===== verification/Parser_Props.thy ===== *)
theory Parser_Props
  imports Parser
begin

text \<open>
  What the parsers compute: pattern matching against the usual wildcard semantics, numbers
  and dates against their printed form.
\<close>

section \<open>Pattern matching\<close>

text \<open>The meaning of a pattern: \<open>?\<close> stands for one character, \<open>*\<close> for any rest.\<close>

fun pmatch :: "bool \<Rightarrow> u8 list \<Rightarrow> u8 list \<Rightarrow> bool" where
  "pmatch ic [] [] = True"
| "pmatch ic [] (c # cs) = False"
| "pmatch ic (p # ps) [] = (p = asc CHR ''*'')"
| "pmatch ic (p # ps) (c # cs) =
     (if p = asc CHR ''?'' then pmatch ic ps cs
      else if p = asc CHR ''*'' then True
      else fold_case ic p = fold_case ic c \<and> pmatch ic ps cs)"

lemma fold_case_wild [simp]:
  "fold_case ic p = 63 \<longleftrightarrow> p = 63" "fold_case ic p = 42 \<longleftrightarrow> p = 42" "fold_case ic p = 0 \<longleftrightarrow> p = 0"
  by (auto simp: fold_case_def tolower_pet_def word_le_nat_alt u8_eq_iff unat_sub_u8 split: if_splits)

lemma drop_Cons_cchar: "i < length s \<Longrightarrow> drop i s = cchar s i # drop (Suc i) s"
  by (simp add: cchar_def Cons_nth_drop_Suc)

lemma cstr_drop_step: "fi < length name \<Longrightarrow> name ! fi \<noteq> 0 \<Longrightarrow>
  cstr (drop fi name) = name ! fi # cstr (drop (Suc fi) name)"
  by (simp add: cstr_def flip: Cons_nth_drop_Suc)

lemma cstr_drop_end: "fi < length name \<Longrightarrow> name ! fi = 0 \<Longrightarrow> cstr (drop fi name) = []"
  by (simp add: cstr_def flip: Cons_nth_drop_Suc)

lemma match_loop_pmatch:
  assumes "length name = 17" "0 \<notin> set ms" "n + fi = 16" "fi \<le> length ms"
  shows "match_loop False ic ms name n fi fi =
    Some (pmatch ic (take n (drop fi ms)) (take n (cstr (drop fi name))))"
  using assms(3,4)
proof (induction n arbitrary: fi)
  case 0
  then show ?case using assms(1) by (simp add: match_loop.simps)
next
  case (Suc n)
  have fi: "fi < length name" using Suc.prems assms(1) by simp
  show ?case
  proof (cases "name ! fi = 0")
    case True
    then have c: "cstr (drop fi name) = []" by (rule cstr_drop_end [OF fi])
    show ?thesis
    proof (cases "fi < length ms")
      case lt: True
      have "cchar ms fi \<noteq> 0" using assms(2) lt nth_mem [OF lt] by (metis cchar_def)
      then show ?thesis using True c fi drop_Cons_cchar [OF lt] by (subst match_loop.simps) simp
    next
      case False
      then have "drop fi ms = []" "cchar ms fi = 0" using Suc.prems by (simp_all add: cchar_def)
      then show ?thesis using True c fi by (subst match_loop.simps) simp
    qed
  next
    case False
    have c: "cstr (drop fi name) = name ! fi # cstr (drop (Suc fi) name)"
      using fi False by (rule cstr_drop_step)
    show ?thesis
    proof (cases "fi < length ms")
      case lt: True
      have IH: "match_loop False ic ms name n (Suc fi) (Suc fi) =
          Some (pmatch ic (take n (drop (Suc fi) ms)) (take n (cstr (drop (Suc fi) name))))"
        using Suc.IH [of "Suc fi"] Suc.prems lt by simp
      show ?thesis
        using IH False c fi drop_Cons_cchar [OF lt] by (subst match_loop.simps) (simp add: Let_def)
    next
      case ge: False
      then have "drop fi ms = []" "cchar ms fi = 0" using Suc.prems by (simp_all add: cchar_def)
      then show ?thesis using False c fi by (subst match_loop.simps) (auto simp: Let_def fold_case_def tolower_pet_def)
    qed
  qed
qed

text \<open>The backward comparison is a comparison with the end of the name.\<close>

definition tail_match :: "bool \<Rightarrow> u8 list \<Rightarrow> u8 list \<Rightarrow> bool" where
  "tail_match ic q n = list_all2 (\<lambda>m f. m = asc CHR ''?'' \<or> fold_case ic m = fold_case ic f)
     q (drop (length n - length q) n)"

lemma postmatch_loop_tail:
  assumes "length q = k" "k \<le> length n" "length n < length name" "take (length n) name = n"
    and "\<And>j. j < k \<Longrightarrow> cchar ms (starpos + Suc j) = q ! j"
  shows "postmatch_loop ic ms name starpos k (int (length n) - 1) = Some (tail_match ic q n)"
  using assms
proof (induction k arbitrary: q n)
  case 0
  then show ?case by (simp add: tail_match_def)
next
  case (Suc k)
  obtain q' x where q: "q = q' @ [x]" "length q' = k" using Suc.prems(1) by (metis length_Suc_conv_rev)
  obtain n' y where n: "n = n' @ [y]" using Suc.prems(2) by (cases n rule: rev_cases) auto
  have y: "name ! length n' = y"
    using Suc.prems(3,4) n nth_take [of "length n'" "length n" name] by simp
  have x: "cchar ms (starpos + Suc k) = x" using Suc.prems(5) [of k] q by (simp add: nth_append)
  have n': "take (length n') name = n'"
    using arg_cong [OF Suc.prems(4), of "take (length n')"] n Suc.prems(3) by simp
  have IH: "postmatch_loop ic ms name starpos k (int (length n') - 1) = Some (tail_match ic q' n')"
    using Suc.IH [of q' n'] Suc.prems n q n' by (auto simp: nth_append split: if_splits)
  have "tail_match ic q n \<longleftrightarrow> (x = 63 \<or> fold_case ic x = fold_case ic y) \<and> tail_match ic q' n'"
    using q n Suc.prems(2) by (auto simp: tail_match_def list_all2_append)
  then show ?case using IH x y n Suc.prems(3) by (auto simp: Let_def)
qed

lemma cstr_drop: "fi \<le> length (cstr name) \<Longrightarrow> cstr (drop fi name) = drop fi (cstr name)"
proof (induction fi arbitrary: name)
  case (Suc fi)
  then obtain b bs where "name = b # bs" "b \<noteq> 0" by (cases name) (auto simp: cstr_def split: if_splits)
  then show ?case using Suc by (simp add: cstr_def)
qed simp

lemma cstr_take: "take (length (cstr name)) name = cstr name"
  unfolding cstr_def by (rule takeWhile_eq_take [symmetric])

lemma cstr_nth:
  assumes i: "i < length (cstr name)"
  shows "name ! i = cstr name ! i" "cstr name ! i \<noteq> 0"
proof -
  show "name ! i = cstr name ! i" using i unfolding cstr_def by (rule takeWhile_nth [symmetric])
  show "cstr name ! i \<noteq> 0" using nth_mem [OF i] nul_notin_cstr [of name] by metis
qed

lemma match_loop_post:
  assumes name: "length name = 17" "length (cstr name) \<le> 16"
    and ms: "ms = p @ asc CHR ''*'' # q" "asc CHR ''*'' \<notin> set p" "length p < length (cstr name)"
    and pre: "list_all2 (\<lambda>m f. m = asc CHR ''?'' \<or> fold_case ic m = fold_case ic f) p
      (take (length p) (cstr name))"
    and "i \<le> length p"
  shows "match_loop True ic ms name (16 - i) i i =
    postmatch_loop ic ms name (length p) (length q) (int (length (cstr name)) - 1)"
  using assms(7)
proof (induction "length p - i" arbitrary: i)
  case 0
  then have i: "i = length p" by simp
  have "cchar ms i = 42" using ms(1) i by (simp add: cchar_def)
  moreover have "name ! i \<noteq> 0" using cstr_nth [of i name] ms(3) i by simp
  moreover have "int i + int (length (cstr (drop i name))) = int (length (cstr name))"
    using cstr_drop [of i name] ms(3) i by simp
  ultimately show ?case
    using name ms i by (subst match_loop.simps) (simp add: Let_def)
next
  case (Suc k)
  then have i: "i < length p" by simp
  have c: "cchar ms i = p ! i" using ms(1) i by (simp add: cchar_def nth_append)
  have ns: "p ! i \<noteq> 42" using ms(2) i nth_mem by fastforce
  have n0: "name ! i \<noteq> 0" "name ! i = cstr name ! i" using cstr_nth [of i name] ms(3) i by simp_all
  have "p ! i = 63 \<or> fold_case ic (p ! i) = fold_case ic (name ! i)"
    using pre i ms(3) n0 by (auto simp: list_all2_conv_all_nth)
  then show ?case
    using Suc.hyps(1) [of "Suc i"] Suc.hyps(2) c ns n0 name i ms(3)
    by (subst match_loop.simps) (auto simp: Let_def)
qed

section \<open>Numbers\<close>

text \<open>The decimal value of a digit string, without the 16-bit wrap-around.\<close>

definition num_value :: "u8 list \<Rightarrow> nat" where
  "num_value ds = foldl (\<lambda>n d. n * 10 + (unat d - 48)) 0 ds"

lemma parse_digits_append:
  assumes "list_all c_isdigit ds" "r = [] \<or> \<not> c_isdigit (hd r)"
  shows "parse_digits (ds @ r) i res =
    (of_nat (foldl (\<lambda>n d. n * 10 + (unat d - 48)) (unat res) ds), i + length ds)"
  using assms(1)
proof (induction ds arbitrary: i res)
  case Nil
  then show ?case using assms(2) by (cases r) auto
next
  case (Cons d ds)
  have d: "48 \<le> unat d" using Cons.prems by (simp add: c_isdigit_def word_le_nat_alt)
  have step: "parse_digits ((d # ds) @ r) i res =
      parse_digits (ds @ r) (Suc i) (res * 10 + (ucast d - 48))" using Cons.prems by simp
  have hom: "(of_nat (foldl (\<lambda>n d. n * 10 + (unat d - 48)) (unat (of_nat n :: u16)) ds) :: u16) =
      of_nat (foldl (\<lambda>n d. n * 10 + (unat d - 48)) n ds)" for n
  proof (induction ds arbitrary: n)
    case (Cons e es)
    have "(of_nat (foldl (\<lambda>n d. n * 10 + (unat d - 48)) (unat (of_nat n :: u16) * 10 + (unat e - 48)) es) :: u16) =
        of_nat (foldl (\<lambda>n d. n * 10 + (unat d - 48)) (unat (of_nat (unat (of_nat n :: u16) * 10 + (unat e - 48)) :: u16)) es)"
      using Cons [of "unat (of_nat n :: u16) * 10 + (unat e - 48)"] by simp
    also have "(of_nat (unat (of_nat n :: u16) * 10 + (unat e - 48)) :: u16) = of_nat (n * 10 + (unat e - 48))"
      by simp
    also have "of_nat (foldl (\<lambda>n d. n * 10 + (unat d - 48)) (unat (of_nat (n * 10 + (unat e - 48)) :: u16)) es) =
        (of_nat (foldl (\<lambda>n d. n * 10 + (unat d - 48)) (n * 10 + (unat e - 48)) es) :: u16)"
      by (rule Cons)
    finally show ?case by simp
  qed simp
  have "res * 10 + (ucast d - 48) = of_nat (unat res * 10 + (unat d - 48))"
    using d by (simp add: of_nat_diff)
  then show ?case
    unfolding step using Cons.IH [of "Suc i" "res * 10 + (ucast d - 48)"] Cons.prems
      hom [of "unat res * 10 + (unat d - 48)"] by simp
qed

lemma parse_number_digits:
  assumes "s = pre @ ds @ r" "list_all c_isdigit ds" "ds \<noteq> []" "r = [] \<or> \<not> c_isdigit (hd r)"
  shows "parse_number s (length pre) = (of_nat (num_value ds), length pre + length ds)"
proof -
  obtain d ds' where ds: "ds = d # ds'" using assms(3) by (cases ds) auto
  have "d \<noteq> asc CHR '' ''" using assms(2) ds by (auto simp: c_isdigit_def word_le_nat_alt u8_eq_iff)
  then have "skip_spaces (drop (length pre) s) (length pre) = length pre" using assms(1) ds by simp
  then show ?thesis
    using parse_digits_append [OF assms(2,4), of "length pre" 0] assms(1)
    by (simp add: parse_number_def num_value_def Let_def)
qed

lemma num_value_dec: "list_all c_isdigit ds \<Longrightarrow> num_value ds = dec_value ds"
proof -
  assume ds: "list_all c_isdigit ds"
  have "unat (d - asc CHR ''0'') = unat d - 48" if "d \<in> set ds" for d
    using ds that unat_sub_u8 [of 48 d] by (auto simp: list_all_iff c_isdigit_def word_le_nat_alt)
  then show ?thesis
    unfolding num_value_def dec_value_def by (auto simp: mult.commute intro!: foldl_cong)
qed

lemma parse_appendnumber:
  assumes "r = [] \<or> \<not> c_isdigit (hd r)"
  shows "parse_number (pre @ appendnumber [] v @ r) (length pre) =
    (ucast v, length pre + length (appendnumber [] v))"
proof -
  have ne: "appendnumber [] v \<noteq> []" using appendnumber_facts(3) [of v] by (auto split: if_splits)
  have "of_nat (num_value (appendnumber [] v)) = (ucast v :: u16)"
    using num_value_dec [OF appendnumber_facts(2)] appendnumber_facts(1) by simp
  then show ?thesis
    using parse_number_digits [OF refl appendnumber_facts(2) ne assms, of pre] by simp
qed

section \<open>Dates\<close>

text \<open>A date as the directory listing prints it: month, day, year and time without AM/PM.\<close>

definition print_date :: "date_t \<Rightarrow> u8 list" where
  "print_date d = appendnumber [] (d_month d) @ str ''/'' @ appendnumber [] (d_day d) @ str ''/'' @
     appendnumber [] (d_year d mod 100) @ str '' '' @ appendnumber [] (d_hour d) @ str '':'' @
     appendnumber [] (d_minute d)"

lemma not_digit_seps: "\<not> c_isdigit 47" "\<not> c_isdigit 32" "\<not> c_isdigit 58" "\<not> c_isdigit 44"
  by (simp_all add: c_isdigit_def)

lemma ucast_u8_u16_u8 [simp]: "(ucast (ucast (v :: u8) :: u16) :: u8) = v"
  by (simp add: u8_eq_iff unat_ucast_u16_u8)

lemma cchar_append: "cchar (pre @ c # r) (length pre) = c"
  by (simp add: cchar_def)

text \<open>Parsing one printed number followed by a separator.\<close>

lemma parse_field:
  assumes "s = pre @ appendnumber [] v @ c # r" "\<not> c_isdigit c"
  shows "parse_number s (length pre) = (ucast v, length (pre @ appendnumber [] v))"
    "cchar s (length (pre @ appendnumber [] v)) = c"
    "s = (pre @ appendnumber [] v @ [c]) @ r"
    "length (pre @ appendnumber [] v @ [c]) = Suc (length (pre @ appendnumber [] v))"
proof -
  show "parse_number s (length pre) = (ucast v, length (pre @ appendnumber [] v))"
    using parse_appendnumber [of "c # r" pre v] assms by simp
  show "cchar s (length (pre @ appendnumber [] v)) = c"
    using cchar_append [of "pre @ appendnumber [] v" c r] assms(1) by simp
qed (use assms(1) in simp_all)

lemma year_window:
  fixes y :: u8
  assumes "80 \<le> unat y" "unat y < 180"
  shows "(if y mod 100 < 80 then y mod 100 + 100 else y mod 100) = y"
proof -
  have m: "unat (y mod 100) = (if unat y < 100 then unat y else unat y - 100)"
  proof -
    have "unat (y mod 100) = unat y mod 100" by (simp add: unat_mod_u8)
    also have "\<dots> = (if unat y < 100 then unat y else unat y - 100)" using assms by (simp add: mod_if)
    finally show ?thesis .
  qed
  show ?thesis
  proof (cases "unat y < 100")
    case True
    then have "\<not> y mod 100 < 80" using m assms by (simp add: word_less_nat_alt)
    then show ?thesis using m True by (simp add: u8_eq_iff)
  next
    case False
    then have lt: "y mod 100 < 80" using m assms by (simp add: word_less_nat_alt)
    have "unat (y mod 100 + 100) = unat y" using m False assms by (subst unat_add_u8) simp_all
    then show ?thesis using lt by (simp add: u8_eq_iff)
  qed
qed

lemma parse_time_printed:
  assumes "d_hour d \<le> 23" "d_minute d \<le> 59"
    and "s = pre @ appendnumber [] (d_hour d) @ str '':'' @ appendnumber [] (d_minute d)"
  shows "parse_time s (length pre) d0 = (False,
     d0\<lparr>d_hour := d_hour d, d_minute := d_minute d, d_second := 0\<rparr>, length s)"
proof -
  let ?h = "pre @ appendnumber [] (d_hour d)"
  note H = parse_field [of s pre "d_hour d" 58 "appendnumber [] (d_minute d)"]
  have s: "s = pre @ appendnumber [] (d_hour d) @ 58 # appendnumber [] (d_minute d)" using assms(3) by simp
  have h: "parse_number s (length pre) = (ucast (d_hour d), length ?h)" "cchar s (length ?h) = 58"
    using H [OF s not_digit_seps(3)] by simp_all
  have m: "parse_number s (Suc (length ?h)) = (ucast (d_minute d), length s)"
    using parse_appendnumber [of "[]" "?h @ [58]" "d_minute d"] s by simp
  have e: "cchar s (length s) = 0" by (simp add: cchar_def)
  show ?thesis
    using h m e assms(1,2) by (simp add: parse_time_def Let_def not_less word_less_nat_alt word_le_nat_alt)
qed

lemma parse_date_printed:
  assumes "d_month d \<le> 12" "d_day d \<le> 31" "80 \<le> unat (d_year d)" "unat (d_year d) < 180"
    "d_hour d \<le> 23" "d_minute d \<le> 59"
  shows "parse_date (print_date d) 0 d0 = (False, d0\<lparr>d_month := d_month d, d_day := d_day d,
    d_year := d_year d, d_hour := d_hour d, d_minute := d_minute d, d_second := 0\<rparr>, length (print_date d))"
proof -
  let ?s = "print_date d" and ?t = "appendnumber [] (d_hour d) @ str '':'' @ appendnumber [] (d_minute d)"
  let ?m = "appendnumber [] (d_month d)" and ?d = "appendnumber [] (d_day d)"
  let ?y = "appendnumber [] (d_year d mod 100)"
  have m: "parse_number ?s 0 = (ucast (d_month d), length ?m)" "cchar ?s (length ?m) = 47"
    using parse_field(1,2) [of ?s "[]" "d_month d" 47] not_digit_seps by (simp_all add: print_date_def)
  have d: "parse_number ?s (Suc (length ?m)) = (ucast (d_day d), length (?m @ 47 # ?d))"
    "cchar ?s (length (?m @ 47 # ?d)) = 47"
    using parse_field(1,2) [of ?s "?m @ [47]" "d_day d" 47] not_digit_seps by (simp_all add: print_date_def)
  have y: "parse_number ?s (Suc (length (?m @ 47 # ?d))) =
      (ucast (d_year d mod 100), length (?m @ 47 # ?d @ 47 # ?y))"
    "cchar ?s (length (?m @ 47 # ?d @ 47 # ?y)) = 32"
    using parse_field(1,2) [of ?s "?m @ 47 # ?d @ [47]" "d_year d mod 100" 32] not_digit_seps
    by (simp_all add: print_date_def)
  have t: "parse_time ?s (Suc (length (?m @ 47 # ?d @ 47 # ?y))) d1 = (False,
     d1\<lparr>d_hour := d_hour d, d_minute := d_minute d, d_second := 0\<rparr>, length ?s)" for d1
    using parse_time_printed [OF assms(5,6), of ?s "?m @ 47 # ?d @ 47 # ?y @ [32]"]
    by (simp add: print_date_def)
  show ?thesis
    using m d y t year_window [OF assms(3,4)] assms(1,2)
    by (simp add: parse_date_def Let_def not_less split: if_splits)
qed

section \<open>The properties\<close>

text \<open>
  C17. Without the POSTMATCH flag \<open>match_name\<close> always returns, stays inside the 17-byte name
  field and decides the usual wildcard match of the first 16 pattern characters against
  the file name, ignoring the PETSCII case when asked to.
\<close>

theorem match_name_wildcards:
  assumes "length name = 17" "0 \<notin> set ms"
  shows "match_name False ms name ic = Some (pmatch ic (take 16 ms) (take 16 (cstr name)))"
  using match_loop_pmatch [OF assms, of 16 0 ic] by (simp add: match_name_def)

theorem match_name_wildcards_witness:
  "match_name False (str ''H?L*'') (str ''HELLO'' @ replicate 12 0) False = Some True"
  using match_name_wildcards [of "str ''HELLO'' @ replicate 12 0" "str ''H?L*''" False]
  by (simp add: cstr_def)

text \<open>
  With the POSTMATCH flag, a pattern with one star whose head matches a proper prefix
  of the name is decided by comparing its tail with the end of the name, provided the tail
  is no longer than the name.
\<close>

theorem match_name_postmatch:
  assumes "length name = 17" "length (cstr name) \<le> 16" "asc CHR ''*'' \<notin> set p" "length p < length (cstr name)"
    and "list_all2 (\<lambda>m f. m = asc CHR ''?'' \<or> fold_case ic m = fold_case ic f) p (take (length p) (cstr name))"
    and "length q \<le> length (cstr name)"
  shows "match_name True (p @ asc CHR ''*'' # q) name ic = Some (tail_match ic q (cstr name))"
proof -
  let ?ms = "p @ asc CHR ''*'' # q"
  have "cchar ?ms (length p + Suc j) = q ! j" if "j < length q" for j
    using that by (simp add: cchar_def nth_append)
  then have "postmatch_loop ic ?ms name (length p) (length q) (int (length (cstr name)) - 1) =
      Some (tail_match ic q (cstr name))"
    using assms(1,2,6) cstr_take by (intro postmatch_loop_tail) simp_all
  then show ?thesis
    using match_loop_post [OF assms(1,2) refl assms(3-5), of 0] by (simp add: match_name_def)
qed

theorem match_name_postmatch_witness:
  "match_name True (str ''A*Z'') (str ''ABCZ'' @ replicate 13 0) False = Some True"
  using match_name_postmatch [of "str ''ABCZ'' @ replicate 13 0" "str ''A''" False "str ''Z''"]
  by (simp add: cstr_def tail_match_def)

text \<open>
  With the POSTMATCH flag a pattern tail longer than the name runs off the front of the
  name field: a star followed by more question marks than the name has characters makes
  \<open>match_name\<close> read outside its array.
\<close>

theorem match_name_postmatch_overrun:
  assumes "length name = 17" "cstr name \<noteq> []" "length (cstr name) \<le> 16" "length (cstr name) < k"
  shows "match_name True (asc CHR ''*'' # replicate k (asc CHR ''?'')) name ic = None"
proof -
  let ?ms = "asc CHR ''*'' # replicate k (asc CHR ''?'')"
  have run: "postmatch_loop ic ?ms name 0 j (int i - 1) = None" if "i < j" "j \<le> k" "i \<le> 17" for i j
    using that
  proof (induction j arbitrary: i)
    case (Suc j)
    have c: "cchar ?ms (Suc j) = 63" using Suc.prems by (simp add: cchar_def nth_Cons')
    have f: "fold_case ic 63 = 63" by simp
    show ?case
    proof (cases i)
      case (Suc i')
      have "postmatch_loop ic ?ms name 0 j (int i' - 1) = None"
        using Suc.IH [of i'] \<open>i < Suc j\<close> \<open>Suc j \<le> k\<close> \<open>i \<le> 17\<close> Suc by simp
      then show ?thesis using c f assms(1) Suc \<open>i \<le> 17\<close> by (simp add: Let_def)
    qed simp
  qed simp
  have "match_name True ?ms name ic = postmatch_loop ic ?ms name 0 k (int (length (cstr name)) - 1)"
    using match_loop_post [of name ?ms "[]" "replicate k (asc CHR ''?'')" ic 0] assms
    by (simp add: match_name_def)
  then show ?thesis using run [OF assms(4) order_refl] assms(3) by simp
qed

theorem match_name_postmatch_overrun_witness:
  "match_name True (str ''*??'') (str ''A'' @ replicate 16 0) False = None"
proof -
  have r: "replicate 2 (asc CHR ''?'') = str ''??''" by (simp add: numeral_2_eq_2)
  show ?thesis
    using match_name_postmatch_overrun [of "str ''A'' @ replicate 16 0" 2 False, unfolded r]
    by (simp add: cstr_def)
qed

text \<open>
  \<open>parse_date\<close> reads back every date between 1980 and 2079 that is printed with a
  24-hour time, field by field, and consumes the whole string.
\<close>

theorem parse_date_roundtrip:
  assumes "d_month d \<le> 12" "d_day d \<le> 31" "80 \<le> unat (d_year d)" "unat (d_year d) < 180"
    "d_hour d \<le> 23" "d_minute d \<le> 59"
  shows "parse_date (print_date d) 0 d0 = (False, d0\<lparr>d_month := d_month d, d_day := d_day d,
    d_year := d_year d, d_hour := d_hour d, d_minute := d_minute d, d_second := 0\<rparr>, length (print_date d))"
  by (rule parse_date_printed [OF assms])

theorem parse_date_roundtrip_witness:
  "parse_date (str ''08/31/82 17:05'') 0
     \<lparr>d_year = 0, d_month = 0, d_day = 0, d_hour = 0, d_minute = 0, d_second = 9\<rparr> =
   (False, \<lparr>d_year = 82, d_month = 8, d_day = 31, d_hour = 17, d_minute = 5, d_second = 0\<rparr>, 14)"
  using parse_date_roundtrip [of "\<lparr>d_year = 82, d_month = 8, d_day = 31, d_hour = 17, d_minute = 5, d_second = 0\<rparr>"
      "\<lparr>d_year = 0, d_month = 0, d_day = 0, d_hour = 0, d_minute = 0, d_second = 9\<rparr>"]
  by (simp add: print_date_def appendnumber_def)

text \<open>
  With an AM/PM suffix noon cannot be entered: for hour 12 the PM suffix adds twelve,
  and the resulting hour 24 is rejected, whatever the rest of the string is.
\<close>

theorem parse_ampm_rejects_noon:
  assumes "d_hour d = 12" "cchar s i = asc CHR ''P''"
  shows "fst (parse_ampm s i d)"
  using assms by (simp add: parse_ampm_def Let_def)

theorem parse_ampm_rejects_noon_witness:
  "fst (parse_ampm (str ''PM'') 0
     \<lparr>d_year = 82, d_month = 8, d_day = 31, d_hour = 12, d_minute = 0, d_second = 0\<rparr>)"
  by (rule parse_ampm_rejects_noon) (simp_all add: cchar_def)

text \<open>
  \<open>parse_partition\<close> reads a decimal partition number with 8-bit wrap-around: the number
  modulo 256 selects the partition, and a number that is 0 modulo 256 the current one.
\<close>

lemma parse_partition_loop_digits:
  assumes "list_all c_isdigit ds" "r = [] \<or> \<not> (c_isdigit (hd r) \<or> hd r = asc CHR '' '' \<or> hd r = asc CHR ''@'')"
  shows "parse_partition_loop (ds @ r) part =
    (r, of_nat (foldl (\<lambda>n d. n * 10 + (unat d - 48)) (unat part) ds))"
  using assms(1)
proof (induction ds arbitrary: part)
  case Nil
  then show ?case using assms(2) by (cases r) auto
next
  case (Cons d ds)
  have d: "48 \<le> unat d" using Cons.prems by (simp add: c_isdigit_def word_le_nat_alt)
  have hom: "(of_nat (foldl (\<lambda>n d. n * 10 + (unat d - 48)) (unat (of_nat n :: u8)) ds) :: u8) =
      of_nat (foldl (\<lambda>n d. n * 10 + (unat d - 48)) n ds)" for n
  proof (induction ds arbitrary: n)
    case (Cons e es)
    have "(of_nat (unat (of_nat n :: u8) * 10 + (unat e - 48)) :: u8) = of_nat (n * 10 + (unat e - 48))" by simp
    then show ?case
      using Cons [of "unat (of_nat n :: u8) * 10 + (unat e - 48)"] Cons [of "n * 10 + (unat e - 48)"] by simp
  qed simp
  have "part * 10 + (d - 48) = of_nat (unat part * 10 + (unat d - 48))" using d by (simp add: of_nat_diff)
  then show ?case
    using Cons.IH [of "part * 10 + (d - 48)"] Cons.prems hom [of "unat part * 10 + (unat d - 48)"] by simp
qed

theorem parse_partition_wraps:
  assumes "list_all c_isdigit ds" "ds \<noteq> []"
    and "r = [] \<or> \<not> (c_isdigit (hd r) \<or> hd r = asc CHR '' '' \<or> hd r = asc CHR ''@'')"
  shows "parse_partition eefs_partition current_part (ds @ r) =
    (r, if num_value ds mod 256 = 0 then current_part else of_nat (num_value ds) - 1)"
proof -
  obtain d ds' where ds: "ds = d # ds'" using assms(2) by (cases ds) auto
  have "cchar (ds @ r) 0 \<noteq> asc CHR ''!''"
    using assms(1) ds by (auto simp: cchar_def c_isdigit_def word_le_nat_alt u8_eq_iff)
  moreover have "(of_nat (num_value ds) :: u8) = 0 \<longleftrightarrow> num_value ds mod 256 = 0"
    by (simp add: u8_eq_iff unat_of_nat)
  ultimately show ?thesis
    using parse_partition_loop_digits [OF assms(1,3), of 0]
    by (simp add: parse_partition_def num_value_def)
qed

theorem parse_partition_wraps_witness:
  "parse_partition 255 0 (str ''257:NAME'') = (str '':NAME'', 0)"
  using parse_partition_wraps [of "str ''257''" "str '':NAME''" 255 0]
  by (simp add: c_isdigit_def num_value_def)

text \<open>
  Converting a 7-bit ASCII string to PETSCII and back gives the original string.
\<close>

theorem pet2asc_asc2pet:
  assumes "list_all (\<lambda>c. c < 128) bs"
  shows "pet2asc (asc2pet bs) = bs"
  by (rule asc2pet_roundtrip [OF assms])

theorem pet2asc_asc2pet_witness: "pet2asc (asc2pet (str ''Hello~World'')) = str ''Hello~World''"
  by (rule pet2asc_asc2pet) simp

text \<open>
  \<open>is_valid_fat_name\<close> does not look at the last character, although FAT forbids a
  trailing dot or space: appending one to a valid name gives a name it accepts.
\<close>

theorem is_valid_fat_name_trailing:
  assumes "is_valid_fat_name name" "name \<noteq> []" "c = asc CHR ''.'' \<or> c = asc CHR '' ''"
  shows "is_valid_fat_name (name @ [c])"
  using assms by (cases name) (auto simp: is_valid_fat_name_def first_char_def is_valid_fat_char_def split: if_splits)

theorem is_valid_fat_name_trailing_witness: "is_valid_fat_name (str ''NAME'' @ [asc CHR ''.''])"
  by (rule is_valid_fat_name_trailing) (simp_all add: is_valid_fat_name_def first_char_def is_valid_fat_char_def)

text \<open>
  When \<open>build_name\<close> appends a PC64 extension, the resulting name consists of valid FAT
  characters only, ends in the type letter and two zeros, and the returned position is
  that of the last digit.
\<close>

theorem build_name_x00_valid:
  assumes "build_name mode name type = Some (n, Some x)" "type \<le> 6"
  shows "list_all is_valid_fat_char n \<and> x = length n - 1 \<and>
    drop (length n - 4) n = [asc CHR ''.'', filetypes ! (3 * unat type), asc CHR ''0'', asc CHR ''0'']"
proof -
  have t: "unat type \<in> {0, 1, 2, 3, 4, 5, 6}" using assms(2) by (auto simp: word_le_nat_alt)
  then have "is_valid_fat_char (filetypes ! (3 * unat type))"
    by (auto simp: filetypes_def is_valid_fat_char_def)
  moreover have "list_all is_valid_fat_char (map (\<lambda>c. if is_valid_fat_char c then c else asc CHR ''_'') m)" for m
    by (auto simp: list_all_iff is_valid_fat_char_def)
  ultimately show ?thesis
    using assms(1) by (auto simp: build_name_def Let_def is_valid_fat_char_def split: if_splits)
qed

theorem build_name_x00_valid_witness:
  "\<exists>n. build_name 2 (str ''A*B'') 2 = Some (n, Some 6) \<and> list_all is_valid_fat_char n"
proof -
  have b: "build_name 2 (str ''A*B'') 2 = Some (str ''a_b.P00'', Some 6)"
    by (simp add: build_name_def pet2asc_char_def check_imageext_def is_valid_fat_char_def filetypes_def)
  then show ?thesis using build_name_x00_valid [OF b] by simp
qed

end
