(* ===== verification/P00cache.thy ===== *)
theory P00cache
  imports Prelude
begin

text \<open>
  The cache of long names of PC64 files, \<^verbatim>\<open>src/src/p00cache.c\<close>: a fixed array of 200
  (cluster, name) pairs (\<open>CONFIG_P00CACHE_SIZE\<close> 4000, 20 bytes each), filled in order, for
  one partition at a time.
\<close>

definition P00CACHE_ENTRIES :: nat where [simp]: "P00CACHE_ENTRIES = 200"

record p00name_t =
  p_cluster :: u32
  p_name :: "u8 list"

record p00_state =
  p00cache :: "p00name_t list"
  cache_part :: u8
  p00_entries :: nat

definition p00cache_invalidate :: "p00_state \<Rightarrow> p00_state" where
  "p00cache_invalidate s = s\<lparr>cache_part := - 1, p00_entries := 0\<rparr>"

fun p00_search :: "p00name_t list \<Rightarrow> u32 \<Rightarrow> u8 list option" where
  "p00_search [] cluster = None"
| "p00_search (e # es) cluster = (if p_cluster e = cluster then Some (p_name e) else p00_search es cluster)"

definition p00cache_lookup :: "u8 \<Rightarrow> u32 \<Rightarrow> p00_state \<Rightarrow> u8 list option" where
  "p00cache_lookup part cluster s =
     (if part \<noteq> cache_part s then None
      else p00_search (take (p00_entries s) (p00cache s)) cluster)"

definition p00cache_add :: "u8 \<Rightarrow> u32 \<Rightarrow> u8 list \<Rightarrow> p00_state \<Rightarrow> p00_state" where
  "p00cache_add part cluster name s =
     (if p00_entries s = length (p00cache s) then s
      else (let s = (if part \<noteq> cache_part s then (p00cache_invalidate s)\<lparr>cache_part := part\<rparr> else s) in
        s\<lparr>p00cache := (p00cache s)[p00_entries s := \<lparr>p_cluster = cluster, p_name = take 16 name\<rparr>],
          p00_entries := p00_entries s + 1\<rparr>))"

text \<open>The array never changes its size and the fill level stays inside it.\<close>

definition p00_ok :: "p00_state \<Rightarrow> bool" where
  "p00_ok s \<longleftrightarrow> length (p00cache s) = P00CACHE_ENTRIES \<and> p00_entries s \<le> P00CACHE_ENTRIES"

lemma p00_search_append:
  "p00_search (xs @ ys) c = (case p00_search xs c of Some n \<Rightarrow> Some n | None \<Rightarrow> p00_search ys c)"
  by (induction xs) auto

lemma p00_ok_step:
  "p00_ok s \<Longrightarrow> p00_ok (p00cache_add part c n s)" "p00_ok s \<Longrightarrow> p00_ok (p00cache_invalidate s)"
  by (auto simp: p00_ok_def p00cache_add_def p00cache_invalidate_def Let_def)

text \<open>
  The cache answers like a map with first-entry-wins: after adding an entry while there
  is room, a lookup on the same partition finds the older entry of that cluster if there
  was one on this partition, else the new one; entries of other clusters stay, and those
  of another partition are gone.  The array bounds are kept.
\<close>

theorem p00cache_add_lookup:
  assumes "p00_ok s" "p00_entries s < P00CACHE_ENTRIES" "length name = 16"
  shows "p00_ok (p00cache_add part c name s) \<and>
    p00cache_lookup p k (p00cache_add part c name s) =
      (if p \<noteq> part then None
       else case p00cache_lookup part k s of
              Some n \<Rightarrow> Some n
            | None \<Rightarrow> if k = c then Some name else None)"
proof -
  have t: "take (Suc i) (xs[i := x]) = take i xs @ [x]" if "i < length xs" for i and xs :: "p00name_t list" and x
    using that by (simp add: take_Suc_conv_app_nth)
  have room: "p00_entries s < length (p00cache s)" "0 < length (p00cache s)"
    using assms by (auto simp: p00_ok_def)
  show ?thesis
  proof (intro conjI p00_ok_step(1) [OF assms(1)])
    show "p00cache_lookup p k (p00cache_add part c name s) =
      (if p \<noteq> part then None
       else case p00cache_lookup part k s of
              Some n \<Rightarrow> Some n
            | None \<Rightarrow> if k = c then Some name else None)"
      using room assms(3)
      by (cases "part = cache_part s")
        (auto simp: p00cache_lookup_def p00cache_add_def p00cache_invalidate_def Let_def t
          p00_search_append split: option.splits)
  qed
qed

theorem p00cache_add_lookup_witness:
  "p00cache_lookup 1 7 (p00cache_add 1 7 (replicate 16 65)
     \<lparr>p00cache = replicate 200 \<lparr>p_cluster = 0, p_name = []\<rparr>, cache_part = 0, p00_entries = 3\<rparr>) =
   Some (replicate 16 65)"
  using p00cache_add_lookup [of "\<lparr>p00cache = replicate 200 \<lparr>p_cluster = 0, p_name = []\<rparr>, cache_part = 0,
      p00_entries = 3\<rparr>" "replicate 16 65" 1 7 1 7]
  by (simp add: p00_ok_def p00cache_lookup_def)

end
