(* ===== verification/Fw_State.thy ===== *)
theory Fw_State
  imports Eepromfs Parser
begin

text \<open>
  The state of the firmware outside the EEPROM file system: the buffer structures of
  \<^verbatim>\<open>src/src/buffers.h\<close>, the partition and directory types of \<^verbatim>\<open>src/src/dirent.h\<close>, the error
  channel of \<^verbatim>\<open>src/src/errormsg.c\<close>, the LEDs of \<^verbatim>\<open>src/src/led.h\<close>, and the globals of
  \<^verbatim>\<open>src/src/d64ops.c\<close>, for the petSD+ configuration (32 buffers, 2 partitions, 100 byte
  error buffer).

  Pointers to buffers are indices into the buffer array.  The data pointer of a buffer is
  the block of bytes it points to; the members of the private unions are separate fields,
  since each buffer or handle is only ever used through one of them.  Function pointers
  are values of a datatype with one constructor per callback of the source.
\<close>

section \<open>Directory and image types\<close>

record d64dh =
  dd_track :: u8
  dd_sector :: u8
  dd_entry :: u8

record dir_t =
  dir_fat :: u32
  dxx_track :: u8
  dxx_sector :: u8

record path_t =
  path_part :: u8
  path_dir :: dir_t

text \<open>The handle of an open FAT directory: the directory's start cluster and the entry index.\<close>

record fatdir =
  fd_sclust :: u32
  fd_index :: nat

record dh_t =
  dh_part :: u8
  dh_fat :: fatdir
  dh_d64 :: d64dh
  dh_eefs :: nat

datatype opstype_t = OPSTYPE_UNDEFINED | OPSTYPE_FAT | OPSTYPE_FAT_X00 | OPSTYPE_DXX | OPSTYPE_EEFS

record cbmdirent_t =
  ce_name :: "u8 list"
  ce_typeflags :: u8
  ce_blocksize :: u16
  ce_remainder :: u8
  ce_date :: date_t
  ce_opstype :: opstype_t
  ce_cluster :: u32
  ce_realname :: "u8 list"
  ce_dh :: d64dh

record d64fh_t =
  df_dh :: d64dh
  df_part :: u8
  df_track :: u8
  df_sector :: u8
  df_blocks :: u16

text \<open>The format function of an image type.\<close>

datatype format_fn = Format_d41 | Format_d71 | Format_d81 | Format_dnp | Format_d80 | Format_d82 | Format_none

record param_s =
  dir_track :: u8
  dir_start_sector :: u8
  last_track :: u8
  label_offset :: u8
  id_offset :: u8
  file_interleave :: u8
  dir_interleave :: u8
  format_function :: format_fn

text \<open>
  An open file as FatFs presents it to its clients: contents, size, position and whether
  it was opened for writing.  Sector buffers, clusters and the FAT itself belong to the
  vendored FatFs library.
\<close>

record fil =
  fl_data :: mem
  fl_size :: nat
  fl_ptr :: nat
  fl_write :: bool

datatype fop_t = FATOPS | D64OPS | EEFSOPS

record partition_t =
  pt_current_dir :: dir_t
  pt_fop :: fop_t
  pt_imagehandle :: fil
  pt_imagetype :: u8
  pt_d64data :: param_s

section \<open>Buffers\<close>

datatype refill_cb =
    Refill_null | Refill_dummy | Refill_set_ok_message | Refill_d64_read | Refill_d64_write
  | Refill_eefs_read | Refill_eefs_write | Refill_fat_file_read | Refill_fat_file_write
  | Refill_fat_file_sync | Refill_pdir | Refill_rawdir | Refill_dir | Refill_directbuffer

datatype cleanup_cb =
    Cleanup_null | Cleanup_dummy | Cleanup_bam_buffer_flush | Cleanup_d64_write
  | Cleanup_eefs_write | Cleanup_fat_file_close | Cleanup_largebuffer

datatype seek_cb = Seek_null | Seek_d64 | Seek_fat_file

record bam_pvt =
  bam_part :: u8
  bam_track :: u8
  bam_sector :: u8

record chain_pvt =
  ch_part :: u8
  ch_size :: u8
  ch_first :: "nat option"
  ch_next :: "nat option"

text \<open>
  A directory listing.  The name pattern is a pointer into the command buffer, kept as its
  index there; the date limits are the null pointer or the addresses of the two static
  variables of \<^verbatim>\<open>doscmd.c\<close>, kept as flags.  \<open>dr_saved\<close> is the entry that the listing parks in
  the unused end of the data area.
\<close>

record dir_pvt =
  dr_dh :: dh_t
  dr_filetype :: u8
  dr_format :: u8
  dr_matchstr :: "nat option"
  dr_match_start :: bool
  dr_match_end :: bool
  dr_counter :: u8
  dr_saved :: cbmdirent_t

text \<open>The open file of a FAT channel: the file, its identity inside FatFs and the size of the PC64 header.\<close>

record fat_pvt =
  fp_fh :: fil
  fp_obj :: nat
  fp_headersize :: u8

record pdir_pvt =
  pd_part :: u8
  pd_matchstr :: "nat option"

record buffer_t =
  b_data :: "u8 list"
  b_lastused :: u8
  b_position :: u8
  b_secondary :: u8
  b_recordlen :: u8
  b_fptr :: u32
  b_allocated :: bool
  b_mustflush :: bool
  b_read :: bool
  b_write :: bool
  b_dirty :: bool
  b_sendeoi :: bool
  b_sticky :: bool
  b_seek :: seek_cb
  b_refill :: refill_cb
  b_cleanup :: cleanup_cb
  b_bam :: bam_pvt
  b_d64 :: d64fh_t
  b_eefh :: eefs_fh
  b_chain :: chain_pvt
  b_dir :: dir_pvt
  b_pdir :: pdir_pvt
  b_fat :: fat_pvt

definition CONFIG_BUFFER_COUNT :: nat where [simp]: "CONFIG_BUFFER_COUNT = 32"
definition CONFIG_ERROR_BUFFER_SIZE :: nat where [simp]: "CONFIG_ERROR_BUFFER_SIZE = 100"
definition CONFIG_MAX_PARTITIONS :: nat where [simp]: "CONFIG_MAX_PARTITIONS = 2"
definition ERRORBUFFER_IDX :: nat where [simp]: "ERRORBUFFER_IDX = CONFIG_BUFFER_COUNT"
definition BUFFER_SEC_SYSTEM :: u8 where [simp]: "BUFFER_SEC_SYSTEM = 100"
definition BUFFER_SYS_BAM :: u8 where [simp]: "BUFFER_SYS_BAM = BUFFER_SEC_SYSTEM + 1"

definition FMB_CLEAN :: u8 where [simp]: "FMB_CLEAN = 1"
definition FMB_FREE_SYSTEM :: u8 where [simp]: "FMB_FREE_SYSTEM = 2"
definition FMB_FREE_STICKY :: u8 where [simp]: "FMB_FREE_STICKY = 4"

section \<open>The firmware state\<close>

text \<open>
  \<open>io_script\<close> holds the outcomes of the next FatFs calls on image files; when it is used up
  every call succeeds.  A result other than \<open>IO_OK\<close> is what FatFs reports after a medium
  error (\<open>IO_ERR\<close>) or when it transfers fewer bytes (\<open>IO_SHORT\<close>).
\<close>

datatype FRESULT =
    FR_OK | FR_NOT_READY | FR_NO_FILE | FR_NO_PATH | FR_INVALID_NAME | FR_INVALID_DRIVE
  | FR_DENIED | FR_EXIST | FR_RW_ERROR | FR_WRITE_PROTECTED | FR_NOT_ENABLED
  | FR_NO_FILESYSTEM | FR_INVALID_OBJECT | FR_MKFS_ABORTED | FR_IS_DIRECTORY
  | FR_IS_READONLY | FR_DIR_NOT_EMPTY | FR_NOT_DIRECTORY

datatype io_outcome = IO_OK | IO_ERR FRESULT | IO_SHORT nat

record tm_t =
  tm_sec :: u8
  tm_min :: u8
  tm_hour :: u8
  tm_mday :: u8
  tm_mon :: u8
  tm_year :: u8
  tm_wday :: u8

record fw = eefs_state +
  buffers :: "buffer_t list"
  active_buffers :: u8
  current_error :: u8
  led_state :: u8
  busy_led :: bool
  dirty_led :: bool
  partitions :: "partition_t list"
  current_part :: u8
  max_part :: u8
  eefs_partition :: u8
  bam_buffer :: "nat option"
  bam_buffer2 :: "nat option"
  bam_refcount :: u8
  ec_part :: u8
  ec_track :: u8
  ec_errors :: "u8 list"
  io_script :: "io_outcome list"
  rtc :: tm_t
  file_extension_mode :: u8
  image_as_dir :: u8
  extension_hiding :: bool
  postmatch :: bool
  rom_filename :: "u8 list"
  versionstr :: "u8 list"
  longverstr :: "u8 list"

abbreviation buf :: "nat \<Rightarrow> 'a fw_scheme \<Rightarrow> buffer_t" where
  "buf i s \<equiv> buffers s ! i"

definition upd_buf :: "nat \<Rightarrow> (buffer_t \<Rightarrow> buffer_t) \<Rightarrow> 'a fw_scheme \<Rightarrow> 'a fw_scheme" where
  "upd_buf i f s = s\<lparr>buffers := (buffers s)[i := f (buffers s ! i)]\<rparr>"

abbreviation part :: "u8 \<Rightarrow> 'a fw_scheme \<Rightarrow> partition_t" where
  "part p s \<equiv> partitions s ! unat p"

definition upd_part :: "u8 \<Rightarrow> (partition_t \<Rightarrow> partition_t) \<Rightarrow> 'a fw_scheme \<Rightarrow> 'a fw_scheme" where
  "upd_part p f s = s\<lparr>partitions := (partitions s)[unat p := f (partitions s ! unat p)]\<rparr>"

lemma buffers_upd_buf [simp]:
  "length (buffers (upd_buf i f s)) = length (buffers s)"
  "i < length (buffers s) \<Longrightarrow> buf i (upd_buf i f s) = f (buf i s)"
  "i \<noteq> j \<Longrightarrow> buf j (upd_buf i f s) = buf j s"
  by (simp_all add: upd_buf_def)

lemma upd_buf_other [simp]:
  "active_buffers (upd_buf i f s) = active_buffers s" "current_error (upd_buf i f s) = current_error s"
  "led_state (upd_buf i f s) = led_state s" "busy_led (upd_buf i f s) = busy_led s"
  "dirty_led (upd_buf i f s) = dirty_led s" "partitions (upd_buf i f s) = partitions s"
  "bam_buffer (upd_buf i f s) = bam_buffer s" "bam_buffer2 (upd_buf i f s) = bam_buffer2 s"
  "io_script (upd_buf i f s) = io_script s" "ops_scratch (upd_buf i f s) = ops_scratch s"
  "max_part (upd_buf i f s) = max_part s" "bam_refcount (upd_buf i f s) = bam_refcount s"
  by (simp_all add: upd_buf_def)

end
