(* ===== verification/Errormsg.thy ===== *)
theory Errormsg
  imports Fw_State
begin

text \<open>
  The error channel, \<^verbatim>\<open>src/src/errormsg.c\<close>: the message table with its abbreviations, the
  construction of a message in the 100-byte error buffer, and the LED state that goes with
  it.  \<open>None\<close> is writing past the end of the error buffer or reading past the end of a
  table.  The LCD and the remote display only show the message and are left out.
\<close>

section \<open>Tables\<close>

definition EC :: "nat \<Rightarrow> u8" where [simp]: "EC x = of_nat x + 0x80"

text \<open>
  Both tables are sequences of entries, an entry being one or more error numbers (stored
  as \<open>EC n\<close>) followed by its text; \<open>EC 127\<close> ends a table.  Text bytes below 32 are
  abbreviation numbers.
\<close>

type_synonym msg_entry = "nat list \<times> u8 list"

definition msg_table :: "msg_entry list \<Rightarrow> u8 list" where
  "msg_table es = concat (map (\<lambda>(cs, t). map EC cs @ t) es) @ [EC 127]"

definition abbrev_entries :: "msg_entry list" where
  "abbrev_entries =
     [([0], str ''FILE''), ([1], str ''READ''), ([2], str ''WRITE''), ([3], str '' ERROR''),
      ([4], str '' NOT ''), ([5], str ''DISK ''), ([6], str ''OPEN''), ([7], str ''RECORD''),
      ([8], str ''PARTITION ''), ([9], str ''SELECTED''), ([10], str ''ILLEGAL''),
      ([11], str '' TOO ''), ([12], str ''NO '')]"

definition message_entries :: "msg_entry list" where
  "message_entries =
     [([0], str '' OK''),
      ([1], 0 # str ''S SCRATCHED''),
      ([2], [8, 9]),
      ([20, 21, 22, 23, 24, 27], [1, 3]),
      ([25, 28], [2, 3]),
      ([26], 2 # str '' PROTECT ON''),
      ([29], 5 # str ''ID MISMATCH''),
      ([30, 31, 32, 33, 34], str ''SYNTAX'' @ [3]),
      ([39, 62], 0 # 4 # str ''FOUND''),
      ([50], 7 # 4 # str ''PRESENT''),
      ([51], str ''OVERFLOW IN '' @ [7]),
      ([52], 0 # 11 # str ''LARGE''),
      ([60], 2 # str '' '' @ 0 # str '' '' @ [6]),
      ([61], [0, 4, 6]),
      ([63], 0 # str '' EXISTS''),
      ([64], 0 # str '' TYPE MISMATCH''),
      ([65], 12 # str ''BLOCK''),
      ([66, 67], 10 # str '' TRACK OR SECTOR''),
      ([70], 12 # str ''CHANNEL''),
      ([71], str ''DIR'' @ [3]),
      ([72], 5 # str ''FULL''),
      ([74], str ''DRIVE'' @ [4, 1] @ str ''Y''),
      ([77], 9 # str '' '' @ [8, 10]),
      ([78], str ''BUFFER'' @ 11 # str ''SMALL''),
      ([79], str ''IMAGE '' @ 0 # str '' INVALID''),
      ([98], str ''UNKNOWN DRIVECODE''),
      ([99], str ''CLOCK UNSTABLE'')]"

definition msg_abbrevs :: "u8 list" where "msg_abbrevs = msg_table abbrev_entries"
definition messages :: "u8 list" where "messages = msg_table message_entries"

section \<open>Message construction\<close>

text \<open>The rest of the table behind the entry, or \<open>None\<close> in the pair when it is not listed.\<close>

fun msg_find :: "u8 list \<Rightarrow> u8 \<Rightarrow> u8 list option option" where
  "msg_find [] entry = None"
| "msg_find (tmp # table) entry =
     (if unat tmp = unat entry + 0x80 \<or> tmp = EC 127
      then Some (if tmp = EC 127 then None else Some table)
      else msg_find table entry)"

text \<open>\<open>appendmsg\<close> calls itself with the abbreviation table; \<open>n\<close> bounds the nesting.\<close>

fun appendmsg :: "nat \<Rightarrow> u8 list \<Rightarrow> u8 list \<Rightarrow> u8 \<Rightarrow> u8 list option"
  and copymsg :: "nat \<Rightarrow> u8 list \<Rightarrow> u8 list \<Rightarrow> u8 list option" where
  "appendmsg 0 msg table entry = None"
| "appendmsg (Suc n) msg table entry =
     (case msg_find table entry of
        None \<Rightarrow> None
      | Some None \<Rightarrow> Some (msg @ [asc CHR ''?''])
      | Some (Some rest) \<Rightarrow> copymsg n msg (dropWhile (\<lambda>b. b \<ge> EC 0) rest))"
| "copymsg n msg [] = None"
| "copymsg n msg (tmp # table) =
     (if tmp < 32 then
        (case appendmsg n msg msg_abbrevs tmp of None \<Rightarrow> None | Some msg \<Rightarrow> copymsg n msg table)
      else if tmp < EC 0 then copymsg n (msg @ [tmp]) table
      else Some msg)"

definition appendbool :: "u8 list \<Rightarrow> u8 \<Rightarrow> bool \<Rightarrow> u8 list" where
  "appendbool msg ch v =
     msg @ (if ch \<noteq> 0 then [ch] else []) @ [if v then asc CHR ''+'' else asc CHR ''-'', asc CHR '':'']"

definition ERROR_OK :: u8 where [simp]: "ERROR_OK = 0"
definition ERROR_STATUS :: u8 where [simp]: "ERROR_STATUS = 3"
definition ERROR_LONGVERSION :: u8 where [simp]: "ERROR_LONGVERSION = 9"
definition ERROR_READ_NOHEADER :: u8 where [simp]: "ERROR_READ_NOHEADER = 20"
definition ERROR_WRITE_VERIFY :: u8 where [simp]: "ERROR_WRITE_VERIFY = 25"
definition ERROR_WRITE_PROTECT :: u8 where [simp]: "ERROR_WRITE_PROTECT = 26"
definition ERROR_SYNTAX_UNKNOWN :: u8 where [simp]: "ERROR_SYNTAX_UNKNOWN = 30"
definition ERROR_SYNTAX_UNABLE :: u8 where [simp]: "ERROR_SYNTAX_UNABLE = 31"
definition ERROR_SYNTAX_JOKER :: u8 where [simp]: "ERROR_SYNTAX_JOKER = 33"
definition ERROR_FILE_NOT_FOUND_39 :: u8 where [simp]: "ERROR_FILE_NOT_FOUND_39 = 39"
definition ERROR_FILE_NOT_FOUND :: u8 where [simp]: "ERROR_FILE_NOT_FOUND = 62"
definition ERROR_FILE_EXISTS :: u8 where [simp]: "ERROR_FILE_EXISTS = 63"
definition ERROR_ILLEGAL_TS_COMMAND :: u8 where [simp]: "ERROR_ILLEGAL_TS_COMMAND = 66"
definition ERROR_ILLEGAL_TS_LINK :: u8 where [simp]: "ERROR_ILLEGAL_TS_LINK = 67"
definition ERROR_NO_CHANNEL :: u8 where [simp]: "ERROR_NO_CHANNEL = 70"
definition ERROR_DISK_FULL :: u8 where [simp]: "ERROR_DISK_FULL = 72"
definition ERROR_DOSVERSION :: u8 where [simp]: "ERROR_DOSVERSION = 73"
definition ERROR_DRIVE_NOT_READY :: u8 where [simp]: "ERROR_DRIVE_NOT_READY = 74"
definition ERROR_IMAGE_INVALID :: u8 where [simp]: "ERROR_IMAGE_INVALID = 79"

definition LED_ERROR :: u8 where [simp]: "LED_ERROR = 1"

definition update_leds :: "'a fw_scheme \<Rightarrow> 'a fw_scheme" where
  "update_leds s = s\<lparr>busy_led := (active_buffers s \<noteq> 0), dirty_led := (drop_bit 4 (active_buffers s) \<noteq> 0)\<rparr>"

definition set_error_led :: "bool \<Rightarrow> 'a fw_scheme \<Rightarrow> 'a fw_scheme" where
  "set_error_led state s =
     (if state then s\<lparr>led_state := led_state s OR LED_ERROR\<rparr>
      else update_leds (s\<lparr>led_state := led_state s AND NOT LED_ERROR\<rparr>))"

text \<open>
  The text between the error number and the track.  On a board with a single disk
  interface every logical drive maps to itself, so the drive list is a constant.
\<close>

definition drive_list :: "u8 list \<Rightarrow> u8 list" where
  "drive_list msg = foldl (\<lambda>msg i. appendnumber (appendnumber (msg @ [asc CHR '':'']) i @ [asc CHR ''='']) i)
     (msg @ [asc CHR ''D'']) [0, 1, 2, 3, 4, 5, 6, 7]"

definition status_text :: "u8 list \<Rightarrow> 'a fw_scheme \<Rightarrow> u8 list" where
  "status_text msg s =
     (let msg = appendnumber (msg @ [asc CHR ''E'']) (file_extension_mode s);
          msg = appendbool msg 0 (extension_hiding s);
          msg = appendbool msg (asc CHR ''*'') (postmatch s);
          msg = appendnumber (msg @ [asc CHR ''I'']) (image_as_dir s)
      in msg @ [asc CHR '':'', asc CHR ''R''] @ cstr (rom_filename s))"

definition error_text :: "u8 list \<Rightarrow> u8 \<Rightarrow> u8 \<Rightarrow> 'a fw_scheme \<Rightarrow> u8 list option" where
  "error_text msg errornum sector s =
     (if errornum = ERROR_STATUS then
        Some (if sector = 1 then drive_list msg else status_text msg s)
      else if errornum = ERROR_LONGVERSION \<or> errornum = ERROR_DOSVERSION then
        Some (msg @ versionstr s @
              (if errornum = ERROR_LONGVERSION then map c_toupper (longverstr s) else []))
      else appendmsg 2 msg messages errornum)"

definition set_error_ts :: "u8 \<Rightarrow> u8 \<Rightarrow> u8 \<Rightarrow> 'a fw_scheme \<Rightarrow> 'a fw_scheme option" where
  "set_error_ts errornum track sector s = do {
     msg \<leftarrow> error_text (appendnumber [] errornum @ [asc CHR '','']) errornum sector s;
     let msg = appendnumber (appendnumber (msg @ [asc CHR '','']) track @ [asc CHR '','']) sector;
     (if CONFIG_ERROR_BUFFER_SIZE \<le> length msg then None
      else Some (
        (let s = upd_buf ERRORBUFFER_IDX (\<lambda>b. b\<lparr>b_position := 0, b_lastused := of_nat (length msg),
               b_data := msg @ 13 # replicate (CONFIG_ERROR_BUFFER_SIZE - length msg - 1) 0\<rparr>)
               (s\<lparr>current_error := errornum\<rparr>)
         in if errornum \<ge> 20 \<and> errornum \<noteq> ERROR_DOSVERSION
            then s\<lparr>led_state := led_state s OR LED_ERROR\<rparr>
            else set_error_led False (s\<lparr>led_state := led_state s AND NOT LED_ERROR\<rparr>)))) }"

definition set_error :: "u8 \<Rightarrow> 'a fw_scheme \<Rightarrow> 'a fw_scheme option" where
  "set_error errornum s = set_error_ts errornum 0 0 s"

definition set_ok_message :: "nat \<Rightarrow> 'a fw_scheme \<Rightarrow> (u8 \<times> 'a fw_scheme) option" where
  "set_ok_message i s = do { s \<leftarrow> set_error 0 s; Some (0, s) }"

section \<open>What a table entry expands to\<close>

definition entry_text :: "msg_entry list \<Rightarrow> u8 \<Rightarrow> u8 list option" where
  "entry_text es e = map_option snd (find (\<lambda>(cs, t). unat e \<in> set cs) es)"

definition table_ok :: "u8 \<Rightarrow> msg_entry list \<Rightarrow> bool" where
  "table_ok low es \<longleftrightarrow>
     (\<forall>(cs, t) \<in> set es. (\<forall>c \<in> set cs. c < 127) \<and> cs \<noteq> [] \<and> t \<noteq> [] \<and> (\<forall>b \<in> set t. low \<le> b \<and> b < 128))"

lemma unat_EC: "c < 128 \<Longrightarrow> unat (EC c) = c + 128"
  by (simp add: unat_word_ariths unat_of_nat)

lemma msg_find_text: "\<forall>b \<in> set xs. b < 128 \<Longrightarrow> msg_find (xs @ ys) e = msg_find ys e"
proof (induction xs)
  case (Cons b xs)
  then have "unat b < 128" by (simp add: word_less_nat_alt)
  then show ?case using Cons by (auto simp: u8_eq_iff)
qed simp

lemma msg_find_codes:
  assumes "\<forall>c \<in> set cs. c < 127"
  shows "msg_find (map EC cs @ ys) e =
    (if unat e \<in> set cs then Some (Some (map EC (tl (dropWhile (\<lambda>c. c \<noteq> unat e) cs)) @ ys)) else msg_find ys e)"
  using assms
proof (induction cs)
  case (Cons c cs)
  have c: "unat (EC c) = c + 128" "c < 127" using Cons.prems unat_EC [of c] by (simp_all del: EC_def)
  have "unat (EC 127) = 255" by simp
  then have "unat (EC c) \<noteq> unat (EC 127)" using c by linarith
  then have "EC c \<noteq> EC 127" by (intro notI) (simp only:)
  then show ?case using c(1) Cons by (auto simp del: EC_def)
qed simp

lemma msg_find_table:
  assumes "table_ok low es"
  shows "msg_find (msg_table es) e =
    (case find (\<lambda>(cs, t). unat e \<in> set cs) es of
       None \<Rightarrow> Some None
     | Some (cs, t) \<Rightarrow> (case dropWhile (\<lambda>(cs, t). unat e \<notin> set cs) es of
         [] \<Rightarrow> None
       | _ # rest \<Rightarrow> Some (Some (map EC (tl (dropWhile (\<lambda>c. c \<noteq> unat e) cs)) @ t @ msg_table rest))))"
  using assms
proof (induction es)
  case Nil
  then show ?case by (simp add: msg_table_def)
next
  case (Cons x es)
  obtain cs t where x: "x = (cs, t)" by fastforce
  have ok: "\<forall>c \<in> set cs. c < 127" "\<forall>b \<in> set t. b < 128" "table_ok low es"
    using Cons.prems x by (auto simp: table_ok_def)
  have t: "msg_table ((cs, t) # es) = map EC cs @ t @ msg_table es" by (simp add: msg_table_def)
  show ?case
    unfolding x t msg_find_codes [OF ok(1)] msg_find_text [OF ok(2)] Cons.IH [OF ok(3)]
    by (cases "unat e \<in> set cs") (auto simp del: EC_def split: option.split)
qed

lemma msg_table_hd: "table_ok low es \<Longrightarrow> \<exists>b r. msg_table es = b # r \<and> \<not> b < 128"
proof (cases es)
  case (Cons x es')
  assume "table_ok low es"
  then obtain c cs t where "x = (c # cs, t)" "c < 127"
    using Cons by (cases x; cases "fst x") (auto simp: table_ok_def)
  moreover have "\<not> EC c < 128" if "c < 127" for c
    using unat_EC [of c] that by (simp add: word_less_nat_alt del: EC_def)
  ultimately show ?thesis using Cons by (simp add: msg_table_def del: EC_def)
qed (simp add: msg_table_def)

lemma dropWhile_codes:
  assumes "t \<noteq> []" "\<forall>b \<in> set t. b < 128" "\<forall>c \<in> set cs. c < 127"
  shows "dropWhile (\<lambda>b. b \<ge> EC 0) (map EC cs @ t @ r) = t @ r"
proof -
  have "\<forall>b \<in> set (map EC cs). EC 0 \<le> b"
    using assms(3) unat_EC by (auto simp: word_le_nat_alt simp del: EC_def)
  moreover obtain b t' where "t = b # t'" "\<not> EC 0 \<le> b" using assms(1,2) by (cases t) auto
  ultimately show ?thesis by (subst dropWhile_append2) (auto simp del: EC_def)
qed

text \<open>A text with abbreviations written out, by a function for the abbreviations.\<close>

definition expand :: "(u8 \<Rightarrow> u8 list) \<Rightarrow> u8 list \<Rightarrow> u8 list" where
  "expand f t = concat (map (\<lambda>b. if b < 32 then f b else [b]) t)"

lemma copymsg_text:
  assumes "\<forall>b \<in> set t. b < 128" "\<not> y < 128"
    and "\<And>m b. b \<in> set t \<Longrightarrow> b < 32 \<Longrightarrow> appendmsg n m msg_abbrevs b = Some (m @ f b)"
  shows "copymsg n msg (t @ y # r) = Some (msg @ expand f t)"
  using assms(1,3)
proof (induction t arbitrary: msg)
  case Nil
  then show ?case using assms(2) order_less_trans [of y 32 128] by (auto simp: expand_def)
next
  case (Cons b t)
  then show ?case by (simp add: expand_def)
qed

lemma appendmsg_table:
  assumes ok: "table_ok low es"
    and ab: "\<And>m b. b < 32 \<Longrightarrow> low \<le> b \<Longrightarrow> appendmsg n m msg_abbrevs b = Some (m @ f b)"
  shows "appendmsg (Suc n) msg (msg_table es) e =
    Some (msg @ (case entry_text es e of None \<Rightarrow> [asc CHR ''?''] | Some t \<Rightarrow> expand f t))"
proof (cases "find (\<lambda>(cs, t). unat e \<in> set cs) es")
  case None
  then show ?thesis using msg_find_table [OF ok, of e] by (simp add: entry_text_def)
next
  case (Some x)
  obtain cs t where x: "x = (cs, t)" by fastforce
  have inx: "(cs, t) \<in> set es" "unat e \<in> set cs"
    using Some x by (auto simp: find_Some_iff dest: nth_mem)
  then obtain y rest where dw: "dropWhile (\<lambda>(cs, t). unat e \<notin> set cs) es = y # rest"
    by (metis (mono_tags, lifting) dropWhile_eq_Nil_conv list.exhaust case_prod_conv)
  have "set rest \<subseteq> set es"
    using dw by (metis set_dropWhileD set_subset_Cons subset_iff)
  then have "table_ok low rest" using ok unfolding table_ok_def by blast
  then obtain b r where b: "msg_table rest = b # r" "\<not> b < 128" using msg_table_hd by blast
  have ct: "t \<noteq> []" "\<forall>b \<in> set t. b < 128 \<and> low \<le> b" "\<forall>c \<in> set cs. c < 127"
    using ok inx(1) by (auto simp: table_ok_def)
  have "\<forall>c \<in> set (tl (dropWhile (\<lambda>c. c \<noteq> unat e) cs)). c < 127"
    using ct(3) by (metis list.set_sel(2) set_dropWhileD tl_Nil)
  then have "dropWhile (\<lambda>b. b \<ge> EC 0) (map EC (tl (dropWhile (\<lambda>c. c \<noteq> unat e) cs)) @ t @ b # r) = t @ b # r"
    using ct by (intro dropWhile_codes) auto
  moreover have "copymsg n msg (t @ b # r) = Some (msg @ expand f t)"
    using ct(2) b(2) ab by (intro copymsg_text) auto
  ultimately show ?thesis
    using Some x dw b(1) msg_find_table [OF ok, of e] by (simp add: entry_text_def del: EC_def)
qed

lemma entry_text_in: "entry_text es e = Some t \<Longrightarrow> \<exists>cs. (cs, t) \<in> set es \<and> unat e \<in> set cs"
  unfolding entry_text_def by (induction es) (auto split: if_splits)

lemma abbrevs_ok: "table_ok 32 abbrev_entries"
  by (simp add: table_ok_def abbrev_entries_def)

lemma messages_ok: "table_ok 0 message_entries"
  by (simp add: table_ok_def message_entries_def)

lemma expand_plain: "\<forall>b \<in> set t. 32 \<le> b \<Longrightarrow> expand f t = t"
  by (induction t) (auto simp: expand_def)

definition abbrev_text :: "u8 \<Rightarrow> u8 list" where
  "abbrev_text b = (case entry_text abbrev_entries b of None \<Rightarrow> [asc CHR ''?''] | Some t \<Rightarrow> t)"

lemma appendmsg_abbrev: "appendmsg (Suc n) m msg_abbrevs b = Some (m @ abbrev_text b)"
proof -
  have "appendmsg (Suc n) m msg_abbrevs b =
      Some (m @ (case entry_text abbrev_entries b of None \<Rightarrow> [asc CHR ''?''] | Some t \<Rightarrow> expand (\<lambda>_. []) t))"
    unfolding msg_abbrevs_def by (rule appendmsg_table [OF abbrevs_ok]) (simp add: word_le_nat_alt word_less_nat_alt)
  moreover have "expand (\<lambda>_. []) t = t" if et: "entry_text abbrev_entries b = Some t" for t
  proof (rule expand_plain)
    obtain cs where "(cs, t) \<in> set abbrev_entries"
      using entry_text_in [OF et] by blast
    then show "\<forall>b \<in> set t. 32 \<le> b" using abbrevs_ok by (auto simp: table_ok_def)
  qed
  ultimately show ?thesis by (auto simp: abbrev_text_def split: option.split)
qed

text \<open>The message of every error number, with the abbreviations written out.\<close>

definition error_message :: "u8 \<Rightarrow> u8 list" where
  "error_message e = (case entry_text message_entries e of None \<Rightarrow> [asc CHR ''?''] | Some t \<Rightarrow> expand abbrev_text t)"

lemma appendmsg_messages: "appendmsg 2 msg messages e = Some (msg @ error_message e)"
  unfolding messages_def error_message_def numeral_2_eq_2
  by (rule appendmsg_table [OF messages_ok]) (rule appendmsg_abbrev)

lemma error_message_length: "length (error_message e) \<le> 26"
proof (cases "entry_text message_entries e")
  case None
  then show ?thesis by (simp add: error_message_def)
next
  case (Some t)
  have "t \<in> set (map snd message_entries)" using entry_text_in [OF Some] by force
  moreover have "\<forall>t \<in> set (map snd message_entries). length (expand abbrev_text t) \<le> 26"
    by (simp add: message_entries_def expand_def abbrev_text_def entry_text_def abbrev_entries_def)
  ultimately show ?thesis using Some unfolding error_message_def by simp blast
qed

section \<open>Setting an error\<close>

text \<open>The complete error line without the final carriage return.\<close>

definition error_line :: "u8 \<Rightarrow> u8 \<Rightarrow> u8 \<Rightarrow> u8 list" where
  "error_line e t sec = appendnumber [] e @ str '','' @ error_message e @ str '','' @
     appendnumber [] t @ str '','' @ appendnumber [] sec"

lemma length_appendnumber: "length (appendnumber msg v) \<le> length msg + 3"
  by (simp add: appendnumber_prefix [of msg] appendnumber_facts(3))

lemma length_error_line: "length (error_line e t sec) \<le> 38"
  using length_appendnumber [of "[]" e] length_appendnumber [of "[]" t] length_appendnumber [of "[]" sec]
    error_message_length [of e] by (simp add: error_line_def)

definition plain_error :: "u8 \<Rightarrow> bool" where
  "plain_error e \<longleftrightarrow> e \<noteq> ERROR_STATUS \<and> e \<noteq> ERROR_LONGVERSION \<and> e \<noteq> ERROR_DOSVERSION"

lemma set_error_ts_plain:
  assumes "plain_error e"
  shows "set_error_ts e t sec s = Some
     (let s = upd_buf 32 (\<lambda>b. b\<lparr>b_position := 0, b_lastused := of_nat (length (error_line e t sec)),
            b_data := error_line e t sec @ 13 # replicate (99 - length (error_line e t sec)) 0\<rparr>)
            (s\<lparr>current_error := e\<rparr>)
      in if e \<ge> 20 then s\<lparr>led_state := led_state s OR 1\<rparr>
         else set_error_led False (s\<lparr>led_state := led_state s AND NOT 1\<rparr>))"
proof -
  have m: "error_text (appendnumber [] e @ [asc CHR '','']) e sec s =
      Some (appendnumber [] e @ [asc CHR '',''] @ error_message e)"
    using assms appendmsg_messages by (simp add: error_text_def plain_error_def)
  have l: "appendnumber (appendnumber (appendnumber [] e @ asc CHR '','' # error_message e @ [asc CHR '','']) t
      @ [asc CHR '','']) sec = error_line e t sec"
    by (simp add: error_line_def appendnumber_prefix [of "_ @ _"])
  have "\<not> 100 \<le> length (error_line e t sec)" using length_error_line [of e t sec] by simp
  then show ?thesis
    using assms unfolding set_error_ts_def m by (simp add: l plain_error_def Let_def del: asc_def)
qed

end
