(* ===== verification/Buffers.thy ===== *)
theory Buffers
  imports Errormsg
begin

text \<open>
  The buffer pool, \<^verbatim>\<open>src/src/buffers.c\<close> and the inline functions of \<^verbatim>\<open>buffers.h\<close>.  A buffer
  pointer is the index of the buffer, \<open>None\<close> the null pointer.  The cleanup callback of a
  buffer is run by a function that the operations take as their first argument; the
  functions it can stand for are defined with the file systems.
\<close>

section \<open>Operations\<close>

definition bam_pvt_zero :: bam_pvt where "bam_pvt_zero = \<lparr>bam_part = 0, bam_track = 0, bam_sector = 0\<rparr>"
definition d64dh_zero :: d64dh where "d64dh_zero = \<lparr>dd_track = 0, dd_sector = 0, dd_entry = 0\<rparr>"
definition d64fh_zero :: d64fh_t where
  "d64fh_zero = \<lparr>df_dh = d64dh_zero, df_part = 0, df_track = 0, df_sector = 0, df_blocks = 0\<rparr>"
definition chain_zero :: chain_pvt where
  "chain_zero = \<lparr>ch_part = 0, ch_size = 0, ch_first = None, ch_next = None\<rparr>"
definition date_zero :: date_t where
  "date_zero = \<lparr>d_year = 0, d_month = 0, d_day = 0, d_hour = 0, d_minute = 0, d_second = 0\<rparr>"
definition fatdir_zero :: fatdir where "fatdir_zero = \<lparr>fd_sclust = 0, fd_index = 0\<rparr>"
definition dh_zero :: dh_t where
  "dh_zero = \<lparr>dh_part = 0, dh_fat = fatdir_zero, dh_d64 = d64dh_zero, dh_eefs = 0\<rparr>"
definition dirent_zero :: cbmdirent_t where
  "dirent_zero = \<lparr>ce_name = replicate 17 0, ce_typeflags = 0, ce_blocksize = 0, ce_remainder = 0,
     ce_date = date_zero, ce_opstype = OPSTYPE_UNDEFINED, ce_cluster = 0, ce_realname = replicate 13 0,
     ce_dh = d64dh_zero\<rparr>"
definition dir_zero :: dir_pvt where
  "dir_zero = \<lparr>dr_dh = dh_zero, dr_filetype = 0, dr_format = 0, dr_matchstr = None, dr_match_start = False,
     dr_match_end = False, dr_counter = 0, dr_saved = dirent_zero\<rparr>"
definition fil_zero :: fil where "fil_zero = \<lparr>fl_data = (\<lambda>_. 0), fl_size = 0, fl_ptr = 0, fl_write = False\<rparr>"
definition fat_zero :: fat_pvt where "fat_zero = \<lparr>fp_fh = fil_zero, fp_obj = 0, fp_headersize = 0\<rparr>"
definition pdir_zero :: pdir_pvt where "pdir_zero = \<lparr>pd_part = 0, pd_matchstr = None\<rparr>"

text \<open>\<open>memset\<close> of a buffer structure to zero, except for its data pointer.\<close>

definition buf_clear :: "buffer_t \<Rightarrow> buffer_t" where
  "buf_clear b = \<lparr>b_data = b_data b, b_lastused = 0, b_position = 0, b_secondary = 0, b_recordlen = 0,
     b_fptr = 0, b_allocated = False, b_mustflush = False, b_read = False, b_write = False,
     b_dirty = False, b_sendeoi = False, b_sticky = False, b_seek = Seek_null,
     b_refill = Refill_null, b_cleanup = Cleanup_null, b_bam = bam_pvt_zero, b_d64 = d64fh_zero,
     b_eefh = fh_zero, b_chain = chain_zero, b_dir = dir_zero, b_pdir = pdir_zero, b_fat = fat_zero\<rparr>"

definition callback_dummy :: "nat \<Rightarrow> 'a fw_scheme \<Rightarrow> (u8 \<times> 'a fw_scheme) option" where
  "callback_dummy i s = Some (0, s)"

definition buffers_init :: "'a fw_scheme \<Rightarrow> 'a fw_scheme" where
  "buffers_init s =
     upd_buf ERRORBUFFER_IDX (\<lambda>b. b\<lparr>b_secondary := 15, b_allocated := True, b_read := True, b_write := True,
         b_sendeoi := True, b_refill := Refill_set_ok_message, b_cleanup := Cleanup_dummy\<rparr>)
       (s\<lparr>buffers := map buf_clear (buffers s)\<rparr>)"

definition alloc_specific_buffer :: "nat \<Rightarrow> 'a fw_scheme \<Rightarrow> 'a fw_scheme" where
  "alloc_specific_buffer bufnum s =
     (if \<not> b_allocated (buf bufnum s)
      then upd_buf bufnum (\<lambda>b. (buf_clear b)\<lparr>b_allocated := True, b_secondary := BUFFER_SEC_SYSTEM,
             b_refill := Refill_dummy, b_cleanup := Cleanup_dummy\<rparr>) s
      else s)"

text \<open>The index of the first buffer with a given property, as the search loops find it.\<close>

definition first_buffer :: "(buffer_t \<Rightarrow> bool) \<Rightarrow> nat \<Rightarrow> 'a fw_scheme \<Rightarrow> nat option" where
  "first_buffer P n s = find (\<lambda>i. P (buf i s)) [0..<n]"

definition alloc_system_buffer :: "'a fw_scheme \<Rightarrow> (nat option \<times> 'a fw_scheme) option" where
  "alloc_system_buffer s =
     (case first_buffer (\<lambda>b. \<not> b_allocated b) CONFIG_BUFFER_COUNT s of
        Some i \<Rightarrow> Some (Some i, alloc_specific_buffer i s)
      | None \<Rightarrow> do { s \<leftarrow> set_error ERROR_NO_CHANNEL s; Some (None, s) })"

definition set_busy_led :: "bool \<Rightarrow> 'a fw_scheme \<Rightarrow> 'a fw_scheme" where
  "set_busy_led x s = s\<lparr>busy_led := x\<rparr>"

definition set_dirty_led :: "bool \<Rightarrow> 'a fw_scheme \<Rightarrow> 'a fw_scheme" where
  "set_dirty_led x s = s\<lparr>dirty_led := x\<rparr>"

definition alloc_buffer :: "'a fw_scheme \<Rightarrow> (nat option \<times> 'a fw_scheme) option" where
  "alloc_buffer s = do {
     (bf, s) \<leftarrow> alloc_system_buffer s;
     (case bf of
        None \<Rightarrow> Some (None, s)
      | Some i \<Rightarrow> (let s = upd_buf i (\<lambda>b. b\<lparr>b_secondary := 0\<rparr>) s in
          Some (Some i, set_busy_led True (s\<lparr>active_buffers := active_buffers s + 1\<rparr>)))) }"

text \<open>The search for a run of free buffers: \<open>freebufs\<close> and \<open>start\<close> as in the C loop.\<close>

fun linked_search :: "'a fw_scheme \<Rightarrow> u8 \<Rightarrow> nat list \<Rightarrow> u8 \<Rightarrow> nat \<Rightarrow> u8 \<times> nat" where
  "linked_search s count [] freebufs start = (freebufs, start)"
| "linked_search s count (i # is) freebufs start =
     (if b_allocated (buf i s) then linked_search s count is 0 start
      else (let start = (if freebufs = 0 then i else start); freebufs = freebufs + 1 in
            if freebufs = count then (freebufs, start) else linked_search s count is freebufs start))"

fun chain_loop :: "nat \<Rightarrow> u8 \<Rightarrow> nat list \<Rightarrow> 'a fw_scheme \<Rightarrow> 'a fw_scheme" where
  "chain_loop start count [] s = s"
| "chain_loop start count (i # is) s =
     (let s = alloc_specific_buffer (start + i) s;
          s = s\<lparr>active_buffers := active_buffers s + 1\<rparr>;
          s = upd_buf (start + i) (\<lambda>b. b\<lparr>b_secondary := 0,
                b_chain := (b_chain b)\<lparr>ch_next := Some (start + i + 1), ch_first := Some start,
                                      ch_size := count\<rparr>\<rparr>) s
      in chain_loop start count is s)"

definition alloc_linked_buffers :: "u8 \<Rightarrow> 'a fw_scheme \<Rightarrow> (nat option \<times> 'a fw_scheme) option" where
  "alloc_linked_buffers count s =
     (let (freebufs, start) = linked_search s count [0..<CONFIG_BUFFER_COUNT] 0 0 in
      if freebufs < count then do { s \<leftarrow> set_error ERROR_NO_CHANNEL s; Some (None, s) }
      else if count = 0 then None
      else (let s = set_busy_led True (chain_loop start count [0..<unat count] s);
                s = upd_buf (start + unat count - 1)
                      (\<lambda>b. b\<lparr>b_chain := (b_chain b)\<lparr>ch_next := None\<rparr>\<rparr>) s
            in Some (Some start, s)))"

definition free_buffer :: "nat option \<Rightarrow> 'a fw_scheme \<Rightarrow> 'a fw_scheme" where
  "free_buffer bp s =
     (case bp of
        None \<Rightarrow> s
      | Some i \<Rightarrow>
          if b_secondary (buf i s) = 15 then s
          else if \<not> b_allocated (buf i s) then s
          else (let s = upd_buf i (\<lambda>b. b\<lparr>b_allocated := False\<rparr>) s;
                    s = (if b_dirty (buf i s) then s\<lparr>active_buffers := active_buffers s - 16\<rparr> else s);
                    s = (if b_secondary (buf i s) < BUFFER_SEC_SYSTEM
                         then s\<lparr>active_buffers := active_buffers s - 1\<rparr> else s)
                in update_leds s))"

text \<open>
  The cleanup callback of large buffers, from \<^verbatim>\<open>fileops.c\<close>: it frees the buffers of the chain;
  a freed buffer keeps its link to the next one.
\<close>

partial_function (option) largebuffer_loop :: "nat option \<Rightarrow> 'a fw_scheme \<Rightarrow> 'a fw_scheme option" where
  "largebuffer_loop bp s =
     (case bp of
        None \<Rightarrow> Some s
      | Some i \<Rightarrow> (let s = free_buffer bp s in largebuffer_loop (ch_next (b_chain (buf i s))) s))"

definition largebuffer_cleanup :: "nat \<Rightarrow> 'a fw_scheme \<Rightarrow> (u8 \<times> 'a fw_scheme) option" where
  "largebuffer_cleanup i s = do {
     s \<leftarrow> largebuffer_loop (ch_first (b_chain (buf i s))) s;
     Some (0, s) }"

definition cleanup_and_free_buffer ::
  "(cleanup_cb \<Rightarrow> nat \<Rightarrow> 'a fw_scheme \<Rightarrow> (u8 \<times> 'a fw_scheme) option) \<Rightarrow>
   nat \<Rightarrow> 'a fw_scheme \<Rightarrow> 'a fw_scheme option" where
  "cleanup_and_free_buffer cb i s = do {
     (_, s) \<leftarrow> cb (b_cleanup (buf i s)) i s;
     Some (free_buffer (Some i) s) }"

fun free_multiple_loop ::
  "(cleanup_cb \<Rightarrow> nat \<Rightarrow> 'a fw_scheme \<Rightarrow> (u8 \<times> 'a fw_scheme) option) \<Rightarrow>
   u8 \<Rightarrow> nat list \<Rightarrow> bool \<Rightarrow> 'a fw_scheme \<Rightarrow> (bool \<times> 'a fw_scheme) option" where
  "free_multiple_loop cb flags [] res s = Some (res, s)"
| "free_multiple_loop cb flags (i # is) res s =
     (if b_allocated (buf i s) \<and>
         (flags AND FMB_FREE_SYSTEM \<noteq> 0 \<or> b_secondary (buf i s) < BUFFER_SEC_SYSTEM) \<and>
         (flags AND FMB_FREE_STICKY \<noteq> 0 \<or> \<not> b_sticky (buf i s))
      then do {
        (res, s) \<leftarrow> (if flags AND FMB_CLEAN \<noteq> 0 \<and> \<not> res
                     then do { (r, s) \<leftarrow> cb (b_cleanup (buf i s)) i s; Some (r \<noteq> 0, s) }
                     else Some (res, s));
        free_multiple_loop cb flags is res (free_buffer (Some i) s) }
      else free_multiple_loop cb flags is res s)"

definition free_multiple_buffers ::
  "(cleanup_cb \<Rightarrow> nat \<Rightarrow> 'a fw_scheme \<Rightarrow> (u8 \<times> 'a fw_scheme) option) \<Rightarrow>
   u8 \<Rightarrow> 'a fw_scheme \<Rightarrow> (bool \<times> 'a fw_scheme) option" where
  "free_multiple_buffers cb flags s = free_multiple_loop cb flags [0..<CONFIG_BUFFER_COUNT] False s"

definition find_buffer :: "u8 \<Rightarrow> 'a fw_scheme \<Rightarrow> nat option" where
  "find_buffer secondary s =
     first_buffer (\<lambda>b. b_allocated b \<and> b_secondary b = secondary) (CONFIG_BUFFER_COUNT + 1) s"

definition get_dirty_buffer_count :: "'a fw_scheme \<Rightarrow> u8" where
  "get_dirty_buffer_count s = drop_bit 4 (active_buffers s)"

definition check_free_buffers :: "'a fw_scheme \<Rightarrow> bool" where
  "check_free_buffers s \<longleftrightarrow> unat (active_buffers s AND 0x0f) < CONFIG_BUFFER_COUNT"

definition mark_buffer_dirty :: "nat \<Rightarrow> 'a fw_scheme \<Rightarrow> 'a fw_scheme" where
  "mark_buffer_dirty i s =
     (if \<not> b_dirty (buf i s)
      then set_dirty_led True
        ((upd_buf i (\<lambda>b. b\<lparr>b_dirty := True\<rparr>) s)\<lparr>active_buffers := active_buffers s + 16\<rparr>)
      else s)"

definition mark_buffer_clean :: "nat \<Rightarrow> 'a fw_scheme \<Rightarrow> 'a fw_scheme" where
  "mark_buffer_clean i s =
     (if b_dirty (buf i s)
      then (let s = (upd_buf i (\<lambda>b. b\<lparr>b_dirty := False\<rparr>) s)\<lparr>active_buffers := active_buffers s - 16\<rparr>
            in if get_dirty_buffer_count s = 0 then set_dirty_led False s else s)
      else s)"

definition stick_buffer :: "nat \<Rightarrow> 'a fw_scheme \<Rightarrow> 'a fw_scheme" where
  "stick_buffer i s = upd_buf i (\<lambda>b. b\<lparr>b_sticky := True\<rparr>) s"

definition unstick_buffer :: "nat \<Rightarrow> 'a fw_scheme \<Rightarrow> 'a fw_scheme" where
  "unstick_buffer i s = upd_buf i (\<lambda>b. b\<lparr>b_sticky := False\<rparr>) s"

definition mark_write_buffer :: "nat \<Rightarrow> 'a fw_scheme \<Rightarrow> 'a fw_scheme" where
  "mark_write_buffer i s = stick_buffer i (upd_buf i (\<lambda>b. b\<lparr>b_write := True\<rparr>) s)"

section \<open>The zero-initialised firmware\<close>

text \<open>The state of the static variables before any initialisation, with an erased EEPROM.\<close>

definition param_zero :: param_s where
  "param_zero = \<lparr>dir_track = 0, dir_start_sector = 0, last_track = 0, label_offset = 0, id_offset = 0,
     file_interleave = 0, dir_interleave = 0, format_function = Format_none\<rparr>"

definition part_zero :: partition_t where
  "part_zero = \<lparr>pt_current_dir = \<lparr>dir_fat = 0, dxx_track = 0, dxx_sector = 0\<rparr>, pt_fop = FATOPS,
     pt_imagehandle = \<lparr>fl_data = (\<lambda>_. 0), fl_size = 0, fl_ptr = 0, fl_write = False\<rparr>,
     pt_imagetype = 0, pt_d64data = param_zero\<rparr>"

definition buf_zero :: "nat \<Rightarrow> buffer_t" where
  "buf_zero n = \<lparr>b_data = replicate n 0, b_lastused = 0, b_position = 0, b_secondary = 0, b_recordlen = 0,
     b_fptr = 0, b_allocated = False, b_mustflush = False, b_read = False, b_write = False,
     b_dirty = False, b_sendeoi = False, b_sticky = False, b_seek = Seek_null,
     b_refill = Refill_null, b_cleanup = Cleanup_null, b_bam = bam_pvt_zero, b_d64 = d64fh_zero,
     b_eefh = fh_zero, b_chain = chain_zero, b_dir = dir_zero, b_pdir = pdir_zero, b_fat = fat_zero\<rparr>"

definition fw0 :: fw where
  "fw0 = \<lparr>ops_scratch = replicate 33 0, eeprom = (\<lambda>_. 0xff), used_sectors = replicate 7 0,
     used_entries = [0], free_sectors = 0,
     buffers = replicate CONFIG_BUFFER_COUNT (buf_zero 256) @ [buf_zero CONFIG_ERROR_BUFFER_SIZE],
     active_buffers = 0, current_error = 0, led_state = 0, busy_led = False, dirty_led = False,
     partitions = replicate CONFIG_MAX_PARTITIONS part_zero, current_part = 0, max_part = 0,
     eefs_partition = 0, bam_buffer = None, bam_buffer2 = None, bam_refcount = 0, ec_part = 0,
     ec_track = 0, ec_errors = replicate 40 0, io_script = [],
     rtc = \<lparr>tm_sec = 0, tm_min = 0, tm_hour = 0, tm_mday = 1, tm_mon = 0, tm_year = 80, tm_wday = 0\<rparr>,
     file_extension_mode = 0, image_as_dir = 0, extension_hiding = False, postmatch = False,
     rom_filename = [], versionstr = [], longverstr = []\<rparr>"

end
