(* ===== verification/Buffers_Props.thy ===== *)
theory Buffers_Props
  imports Buffers
begin

text \<open>
  The accounting of the buffer pool: \<open>active_buffers\<close> counts the user buffers in its low and
  the dirty buffers in its high nibble, and every operation of \<^verbatim>\<open>buffers.c\<close> keeps it so.
\<close>

section \<open>Counting\<close>

definition cnt :: "(buffer_t \<Rightarrow> bool) \<Rightarrow> 'a fw_scheme \<Rightarrow> nat" where
  "cnt P s = length (filter P (take 32 (buffers s)))"

definition is_user :: "buffer_t \<Rightarrow> bool" where
  "is_user b \<longleftrightarrow> b_allocated b \<and> b_secondary b < BUFFER_SEC_SYSTEM"

definition is_dirty :: "buffer_t \<Rightarrow> bool" where
  "is_dirty b \<longleftrightarrow> b_allocated b \<and> b_dirty b"

definition bufs_ok :: "'a fw_scheme \<Rightarrow> bool" where
  "bufs_ok s \<longleftrightarrow> length (buffers s) = 33 \<and>
     b_allocated (buf 32 s) \<and> b_secondary (buf 32 s) = 15 \<and>
     (\<forall>i < 32. b_allocated (buf i s) \<longrightarrow> b_secondary (buf i s) \<noteq> 15) \<and>
     active_buffers s = of_nat (cnt is_user s) + 16 * of_nat (cnt is_dirty s)"

lemma filter_update:
  "i < length xs \<Longrightarrow> length (filter P (xs[i := y])) + of_bool (P (xs ! i)) =
     length (filter P xs) + of_bool (P y)"
proof (induction xs arbitrary: i)
  case (Cons x xs)
  then show ?case by (cases i) auto
qed simp

lemma cnt_upd:
  "i < 32 \<Longrightarrow> length (buffers s) = 33 \<Longrightarrow>
   cnt P (upd_buf i f s) + of_bool (P (buf i s)) = cnt P s + of_bool (P (f (buf i s)))"
  using filter_update [of i "take 32 (buffers s)" P "f (buf i s)"]
  by (simp add: cnt_def upd_buf_def take_update_swap)

lemma cnt_same: "buffers s' = buffers s \<Longrightarrow> cnt P s' = cnt P s"
  by (simp add: cnt_def)

lemma cnt_le: "length (buffers s) = 33 \<Longrightarrow> cnt P s \<le> 32"
  by (simp add: cnt_def order_trans [OF length_filter_le])

lemma bufs_ok_upd:
  assumes ok: "bufs_ok s" and i: "i < 32"
    and sec: "b_allocated (f (buf i s)) \<longrightarrow> b_secondary (f (buf i s)) \<noteq> 15"
    and b: "buffers s' = buffers (upd_buf i f s)"
    and a: "active_buffers s' + of_bool (is_user (buf i s)) + 16 * of_bool (is_dirty (buf i s)) =
      active_buffers s + of_bool (is_user (f (buf i s))) + 16 * of_bool (is_dirty (f (buf i s)))"
  shows "bufs_ok s'"
proof -
  note O = ok [unfolded bufs_ok_def]
  have l: "length (buffers s) = 33" using O by blast
  have u: "cnt is_user s' + of_bool (is_user (buf i s)) = cnt is_user s + of_bool (is_user (f (buf i s)))"
    using cnt_upd [OF i l, of is_user f] cnt_same [OF b] by metis
  have d: "cnt is_dirty s' + of_bool (is_dirty (buf i s)) = cnt is_dirty s + of_bool (is_dirty (f (buf i s)))"
    using cnt_upd [OF i l, of is_dirty f] cnt_same [OF b] by metis
  have uw: "(of_nat (cnt is_user s') :: u8) + of_bool (is_user (buf i s)) =
      of_nat (cnt is_user s) + of_bool (is_user (f (buf i s)))"
    using arg_cong [OF u, of "of_nat :: nat \<Rightarrow> u8"] by (simp only: of_nat_add of_nat_of_bool)
  have dw: "(of_nat (cnt is_dirty s') :: u8) + of_bool (is_dirty (buf i s)) =
      of_nat (cnt is_dirty s) + of_bool (is_dirty (f (buf i s)))"
    using arg_cong [OF d, of "of_nat :: nat \<Rightarrow> u8"] by (simp only: of_nat_add of_nat_of_bool)
  have "active_buffers s' + of_bool (is_user (buf i s)) + 16 * of_bool (is_dirty (buf i s)) =
     (of_nat (cnt is_user s') + of_bool (is_user (buf i s))) +
     16 * (of_nat (cnt is_dirty s') + of_bool (is_dirty (buf i s)))"
    using a O unfolding uw dw by (simp add: algebra_simps)
  then have "active_buffers s' = of_nat (cnt is_user s') + 16 * of_nat (cnt is_dirty s')"
    by (simp add: algebra_simps)
  moreover have e: "buf j s' = (if j = i then f (buf i s) else buf j s)" if "j < 33" for j
    using that i l by (simp add: b upd_buf_def nth_list_update)
  have "\<forall>j < 32. b_allocated (buf j s') \<longrightarrow> b_secondary (buf j s') \<noteq> 15"
    using O sec by (simp add: e)
  moreover have "buf 32 s' = buf 32 s" using e [of 32] i by simp
  moreover have "length (buffers s') = 33" by (simp add: b l)
  ultimately show ?thesis using O by (simp add: bufs_ok_def)
qed

section \<open>The operations keep the accounts\<close>

lemma is_user_clear [simp]: "\<not> is_dirty ((buf_clear b)\<lparr>b_allocated := x, b_secondary := y, b_refill := z, b_cleanup := w\<rparr>)"
  by (simp add: is_dirty_def buf_clear_def)

lemma alloc_specific_ok:
  assumes "bufs_ok s" "i < 32" "\<not> b_allocated (buf i s)"
  shows "bufs_ok (alloc_specific_buffer i s)"
  by (rule bufs_ok_upd [OF assms(1,2), where f = "\<lambda>b. (buf_clear b)\<lparr>b_allocated := True,
        b_secondary := BUFFER_SEC_SYSTEM, b_refill := Refill_dummy, b_cleanup := Cleanup_dummy\<rparr>"])
    (use assms(3) in \<open>simp_all add: alloc_specific_buffer_def is_user_def is_dirty_def buf_clear_def\<close>)

lemma set_error_frame:
  assumes "plain_error e"
  obtains s' where "set_error_ts e t sec s = Some s'" "current_error s' = e"
    "active_buffers s' = active_buffers s" "partitions s' = partitions s" "io_script s' = io_script s"
    "length (buffers s') = length (buffers s)" "\<forall>i. i \<noteq> 32 \<longrightarrow> buf i s' = buf i s"
    "length (buffers s) = 33 \<longrightarrow> buf 32 s' = (buf 32 s)\<lparr>b_position := 0,
        b_lastused := of_nat (length (error_line e t sec)),
        b_data := error_line e t sec @ 13 # replicate (99 - length (error_line e t sec)) 0\<rparr>"
    "bam_buffer s' = bam_buffer s" "bam_buffer2 s' = bam_buffer2 s" "ops_scratch s' = ops_scratch s"
    "max_part s' = max_part s"
  using that by (simp add: set_error_ts_plain [OF assms] Let_def set_error_led_def update_leds_def)

lemma set_error_bufs_ok:
  assumes "plain_error e" "bufs_ok s"
  obtains s' where "set_error_ts e t sec s = Some s'" "bufs_ok s'" "current_error s' = e"
proof -
  obtain s' where S: "set_error_ts e t sec s = Some s'" "current_error s' = e"
    "active_buffers s' = active_buffers s" "length (buffers s') = length (buffers s)"
    "\<forall>i. i \<noteq> 32 \<longrightarrow> buf i s' = buf i s"
    "length (buffers s) = 33 \<longrightarrow> buf 32 s' = (buf 32 s)\<lparr>b_position := 0,
        b_lastused := of_nat (length (error_line e t sec)),
        b_data := error_line e t sec @ 13 # replicate (99 - length (error_line e t sec)) 0\<rparr>"
    using set_error_frame [OF assms(1), of t sec s] by metis
  have l: "length (buffers s) = 33" using assms(2) by (simp add: bufs_ok_def)
  have "take 32 (buffers s') = take 32 (buffers s)"
    using S(4,5) l by (intro nth_equalityI) simp_all
  then have "cnt P s' = cnt P s" for P by (simp add: cnt_def)
  then show ?thesis using that [OF S(1) _ S(2)] assms(2) S by (simp add: bufs_ok_def)
qed

lemma find_upt_Some: "find P [0..<n] = Some i \<Longrightarrow> i < n \<and> P i \<and> (\<forall>j < i. \<not> P j)"
  by (auto simp: find_Some_iff)

lemma find_upt_None: "find P [0..<n] = None \<Longrightarrow> \<forall>i < n. \<not> P i"
  by (auto simp: find_None_iff)

lemma plain_70 [simp]: "plain_error 70"
  by (simp add: plain_error_def)

lemma alloc_system_cases:
  assumes "bufs_ok s"
  obtains (none) s' where "alloc_system_buffer s = Some (None, s')" "bufs_ok s'" "current_error s' = 70"
      "\<forall>i < 32. b_allocated (buf i s)"
  | (got) i where "alloc_system_buffer s = Some (Some i, alloc_specific_buffer i s)" "i < 32"
      "\<not> b_allocated (buf i s)" "bufs_ok (alloc_specific_buffer i s)"
proof (cases "first_buffer (\<lambda>b. \<not> b_allocated b) 32 s")
  case None
  then have "\<forall>i < 32. b_allocated (buf i s)" unfolding first_buffer_def by (auto dest: find_upt_None)
  moreover obtain s' where "set_error_ts 70 0 0 s = Some s'" "bufs_ok s'" "current_error s' = 70"
    by (rule set_error_bufs_ok [OF plain_70 assms])
  ultimately show ?thesis using none None by (simp add: alloc_system_buffer_def set_error_def)
next
  case (Some i)
  then have "i < 32" "\<not> b_allocated (buf i s)" unfolding first_buffer_def by (auto dest: find_upt_Some)
  then show ?thesis using got Some alloc_specific_ok [OF assms] by (simp add: alloc_system_buffer_def)
qed

lemma alloc_buffer_ok:
  assumes "bufs_ok s"
  obtains bp s' where "alloc_buffer s = Some (bp, s')" "bufs_ok s'"
proof (cases rule: alloc_system_cases [OF assms])
  case (1 s')
  then show ?thesis using that by (simp add: alloc_buffer_def)
next
  case (2 i)
  let ?s = "alloc_specific_buffer i s"
  let ?s' = "set_busy_led True ((upd_buf i (\<lambda>b. b\<lparr>b_secondary := 0\<rparr>) ?s)\<lparr>active_buffers := active_buffers ?s + 1\<rparr>)"
  have l: "length (buffers s) = 33" using assms by (simp add: bufs_ok_def)
  have "bufs_ok ?s'"
    by (rule bufs_ok_upd [OF 2(4,2), where f = "\<lambda>b. b\<lparr>b_secondary := 0\<rparr>"])
      (use 2 l in \<open>simp_all add: set_busy_led_def alloc_specific_buffer_def is_user_def is_dirty_def buf_clear_def\<close>)
  then show ?thesis using that 2(1) by (simp add: alloc_buffer_def Let_def)
qed

lemma bufs_ok_leds: "bufs_ok (update_leds s) = bufs_ok s" "bufs_ok (set_busy_led x s) = bufs_ok s"
  "bufs_ok (set_dirty_led x s) = bufs_ok s"
  by (simp_all add: bufs_ok_def cnt_def update_leds_def set_busy_led_def set_dirty_led_def)

lemma free_buffer_ok:
  assumes "bufs_ok s" "\<forall>i. bp = Some i \<longrightarrow> i < 33"
  shows "bufs_ok (free_buffer bp s)"
proof (cases bp)
  case None
  then show ?thesis using assms by (simp add: free_buffer_def)
next
  case (Some i)
  show ?thesis
  proof (cases "b_secondary (buf i s) = 15 \<or> \<not> b_allocated (buf i s)")
    case True
    then show ?thesis using assms Some by (auto simp: free_buffer_def)
  next
    case False
    have l: "length (buffers s) = 33" using assms by (simp add: bufs_ok_def)
    have i: "i < 32" 
    proof -
      have "i \<noteq> 32" using assms(1) False by (auto simp: bufs_ok_def)
      then show ?thesis using assms(2) Some by simp
    qed
    have b: "buffers (free_buffer bp s) = buffers (upd_buf i (\<lambda>b. b\<lparr>b_allocated := False\<rparr>) s)"
      using Some False i l by (simp add: free_buffer_def Let_def update_leds_def)
    have a: "active_buffers (free_buffer bp s) = active_buffers s - (if b_dirty (buf i s) then 16 else 0) -
        (if b_secondary (buf i s) < 100 then 1 else 0)"
      using Some False i l by (simp add: free_buffer_def Let_def update_leds_def)
    show ?thesis
      by (rule bufs_ok_upd [OF assms(1) i _ b]) (use False in \<open>simp_all add: is_user_def is_dirty_def a\<close>)
  qed
qed

lemma mark_dirty_ok:
  assumes "bufs_ok s" "i < 32" "b_allocated (buf i s)"
  shows "bufs_ok (mark_buffer_dirty i s)" "bufs_ok (mark_buffer_clean i s)"
proof -
  show "bufs_ok (mark_buffer_dirty i s)"
  proof (cases "b_dirty (buf i s)")
    case False
    have "bufs_ok ((upd_buf i (\<lambda>b. b\<lparr>b_dirty := True\<rparr>) s)\<lparr>active_buffers := active_buffers s + 16\<rparr>)"
      by (rule bufs_ok_upd [OF assms(1,2), where f = "\<lambda>b. b\<lparr>b_dirty := True\<rparr>"])
        (use assms False in \<open>auto simp: is_user_def is_dirty_def bufs_ok_def\<close>)
    then show ?thesis using False by (simp add: mark_buffer_dirty_def bufs_ok_leds)
  qed (use assms in \<open>simp add: mark_buffer_dirty_def\<close>)
  show "bufs_ok (mark_buffer_clean i s)"
  proof (cases "b_dirty (buf i s)")
    case True
    have "bufs_ok ((upd_buf i (\<lambda>b. b\<lparr>b_dirty := False\<rparr>) s)\<lparr>active_buffers := active_buffers s - 16\<rparr>)"
      by (rule bufs_ok_upd [OF assms(1,2), where f = "\<lambda>b. b\<lparr>b_dirty := False\<rparr>"])
        (use assms True in \<open>auto simp: is_user_def is_dirty_def bufs_ok_def\<close>)
    then show ?thesis using True by (simp add: mark_buffer_clean_def bufs_ok_leds Let_def)
  qed (use assms in \<open>simp add: mark_buffer_clean_def\<close>)
qed

section \<open>Linked buffers\<close>

definition free_run :: "nat \<Rightarrow> nat \<Rightarrow> 'a fw_scheme \<Rightarrow> bool" where
  "free_run a n s \<longleftrightarrow> a + n \<le> 32 \<and> (\<forall>j. a \<le> j \<and> j < a + n \<longrightarrow> \<not> b_allocated (buf j s))"

lemma linked_search_spec:
  assumes "k \<le> 32" "unat f < unat count" "unat f \<le> k"
    "\<forall>j. k - unat f \<le> j \<and> j < k \<longrightarrow> \<not> b_allocated (buf j s)"
    "f \<noteq> 0 \<longrightarrow> st = k - unat f"
    "k - unat f = 0 \<or> b_allocated (buf (k - unat f - 1) s)"
    "\<forall>a. free_run a (unat count) s \<longrightarrow> k < a + unat count"
    "linked_search s count [k..<32] f st = (f', st')"
  shows "(f' = count \<and> free_run st' (unat count) s \<and> (\<forall>a < st'. \<not> free_run a (unat count) s)) \<or>
    (unat f' < unat count \<and> (\<forall>a. \<not> free_run a (unat count) s))"
  using assms
proof (induction "32 - k" arbitrary: k f st)
  case 0
  then have "\<not> free_run a (unat count) s" for a using 0 by (auto simp: free_run_def)
  then show ?case using 0 by auto
next
  case (Suc n)
  then have k: "k < 32" and u: "[k..<32] = k # [Suc k..<32]" by (auto simp: upt_conv_Cons)
  show ?case
  proof (cases "b_allocated (buf k s)")
    case True
    have "Suc k < a + unat count" if r: "free_run a (unat count) s" for a
    proof -
      have "k < a + unat count" using Suc.prems(7) r by blast
      moreover have "\<not> (a \<le> k \<and> k < a + unat count)" using r True by (auto simp: free_run_def)
      ultimately show ?thesis using Suc.prems(2) by linarith
    qed
    then show ?thesis using Suc True k by (intro Suc.hyps(1) [of "Suc k" 0 st]) (auto simp: u)
  next
    case False
    let ?st = "if f = 0 then k else st"
    have f1: "unat (f + 1) = unat f + 1"
    proof -
      have "unat count < 256" using unsigned_less [of count, where 'a = nat] by simp
      then have "Suc (unat f) < 256" using Suc.prems(2) by linarith
      then show ?thesis by (simp add: unat_word_ariths)
    qed
    have st: "?st = k - unat f" using Suc.prems(5) by auto
    have fr: "\<forall>j. ?st \<le> j \<and> j < Suc k \<longrightarrow> \<not> b_allocated (buf j s)"
      using Suc.prems(4) False unfolding st by (auto simp: less_Suc_eq)
    show ?thesis
    proof (cases "f + 1 = count")
      case True
      then have c: "unat count = unat f + 1" using f1 by simp
      have "free_run ?st (unat count) s"
        using fr Suc.prems(3) k unfolding free_run_def st c by auto
      moreover have "\<not> free_run a (unat count) s" if "a < ?st" for a
      proof
        assume "free_run a (unat count) s"
        then have "k < a + unat count" using Suc.prems(7) by blast
        then show False using that Suc.prems(3) unfolding st c by linarith
      qed
      ultimately show ?thesis using Suc.prems(8) True False by (auto simp: u Let_def)
    next
      case n: False
      then have lt: "unat (f + 1) < unat count" using f1 Suc.prems(2) by (auto simp: u8_eq_iff)
      have "Suc k < a + unat count" if r: "free_run a (unat count) s" for a
      proof -
        have k1: "k < a + unat count" using Suc.prems(7) r by blast
        have "k - unat f \<le> a"
        proof (rule ccontr)
          assume "\<not> k - unat f \<le> a"
          then have "a \<le> k - unat f - 1" "b_allocated (buf (k - unat f - 1) s)" using Suc.prems(6) by auto
          moreover have "k - unat f - 1 < a + unat count" using k1 by linarith
          ultimately show False using r by (auto simp: free_run_def)
        qed
        then show ?thesis using lt f1 by linarith
      qed
      moreover have "Suc k - unat (f + 1) = k - unat f" using f1 by simp
      ultimately show ?thesis
        using Suc.prems(1-3,6,8) Suc.hyps(2) n False lt f1 st fr k
        by (intro Suc.hyps(1) [of "Suc k" "f + 1" ?st]) (auto simp: u Let_def)
    qed
  qed
qed

definition link_of :: "nat \<Rightarrow> u8 \<Rightarrow> nat \<Rightarrow> buffer_t \<Rightarrow> bool" where
  "link_of start count j b \<longleftrightarrow> b_allocated b \<and> b_secondary b = 0 \<and> \<not> b_dirty b \<and>
     ch_first (b_chain b) = Some start \<and> ch_next (b_chain b) = Some (j + 1) \<and> ch_size (b_chain b) = count"

lemma chain_loop_spec:
  assumes "bufs_ok s" "m \<le> n" "free_run (start + m) (n - m) s" "s' = chain_loop start count [m..<n] s"
  shows "bufs_ok s' \<and> (\<forall>j. start + m \<le> j \<and> j < start + n \<longrightarrow> link_of start count j (buf j s')) \<and>
    (\<forall>j. j < start + m \<or> start + n \<le> j \<longrightarrow> buf j s' = buf j s)"
  using assms
proof (induction "n - m" arbitrary: m s)
  case 0
  then show ?case by auto
next
  case (Suc x)
  let ?i = "start + m"
  let ?f = "\<lambda>b. b\<lparr>b_secondary := 0, b_chain := (b_chain b)\<lparr>ch_next := Some (?i + 1), ch_first := Some start,
                                      ch_size := count\<rparr>\<rparr>"
  define s1 where "s1 = alloc_specific_buffer ?i s"
  define s2 where "s2 = upd_buf ?i ?f (s1\<lparr>active_buffers := active_buffers s1 + 1\<rparr>)"
  have i: "?i < 32" "\<not> b_allocated (buf ?i s)" and l: "length (buffers s) = 33"
    using Suc by (auto simp: free_run_def bufs_ok_def)
  have b1: "buffers s1 = buffers (upd_buf ?i (\<lambda>b. (buf_clear b)\<lparr>b_allocated := True, b_secondary := BUFFER_SEC_SYSTEM,
             b_refill := Refill_dummy, b_cleanup := Cleanup_dummy\<rparr>) s)"
    using i by (simp add: s1_def alloc_specific_buffer_def)
  have ok1: "bufs_ok s1" unfolding s1_def by (rule alloc_specific_ok [OF Suc.prems(1) i])
  have bi: "buf ?i s1 = (buf_clear (buf ?i s))\<lparr>b_allocated := True, b_secondary := BUFFER_SEC_SYSTEM,
             b_refill := Refill_dummy, b_cleanup := Cleanup_dummy\<rparr>"
    using b1 i l by simp
  have l1: "length (buffers s1) = 33" using ok1 by (simp add: bufs_ok_def)
  have ok2: "bufs_ok s2"
    by (rule bufs_ok_upd [OF ok1 i(1), where f = ?f])
      (simp_all add: s2_def bi is_user_def is_dirty_def buf_clear_def upd_buf_def)
  have o2: "buf j s2 = buf j s" if "j \<noteq> ?i" for j using that b1 by (simp add: s2_def)
  have i2: "link_of start count ?i (buf ?i s2)"
    using i(1) l1 bi by (simp add: s2_def link_of_def buf_clear_def)
  have fr: "free_run (start + Suc m) (n - Suc m) s2"
    using Suc.prems(3) Suc.hyps(2) o2 by (auto simp: free_run_def)
  have "chain_loop start count [Suc m..<n] s2 = s'"
    using Suc.hyps(2) Suc.prems(4) unfolding s2_def s1_def
    by (subst (asm) upt_conv_Cons) (simp_all add: Let_def upd_buf_def)
  then have "bufs_ok s' \<and> (\<forall>j. start + Suc m \<le> j \<and> j < start + n \<longrightarrow> link_of start count j (buf j s')) \<and>
    (\<forall>j. j < start + Suc m \<or> start + n \<le> j \<longrightarrow> buf j s' = buf j s2)"
    using Suc.hyps(2) ok2 fr by (intro Suc.hyps(1)) auto
  then show ?case using i2 o2 Suc.hyps(2)
    by (auto simp: le_eq_less_or_eq [of ?i] Suc_le_eq)
qed

lemma alloc_linked_cases:
  assumes ok: "bufs_ok s" and c: "count \<noteq> 0"
  obtains (none) s' where "alloc_linked_buffers count s = Some (None, s')" "bufs_ok s'" "current_error s' = 70"
      "\<forall>a. \<not> free_run a (unat count) s"
  | (got) start s' where "alloc_linked_buffers count s = Some (Some start, s')" "bufs_ok s'"
      "free_run start (unat count) s" "\<forall>a < start. \<not> free_run a (unat count) s"
      "\<forall>j. start \<le> j \<and> j < start + unat count \<longrightarrow> b_allocated (buf j s') \<and> b_secondary (buf j s') = 0 \<and> \<not> b_dirty (buf j s') \<and>
         ch_first (b_chain (buf j s')) = Some start \<and> ch_size (b_chain (buf j s')) = count \<and>
         ch_next (b_chain (buf j s')) = (if j + 1 < start + unat count then Some (j + 1) else None)"
      "\<forall>j. j < start \<or> start + unat count \<le> j \<longrightarrow> buf j s' = buf j s"
proof -
  obtain f st where f: "linked_search s count [0..<32] 0 0 = (f, st)" by fastforce
  have c0: "0 < unat count" using c by (simp add: unat_gt_0)
  have R: "(f = count \<and> free_run st (unat count) s \<and> (\<forall>a < st. \<not> free_run a (unat count) s)) \<or>
    (unat f < unat count \<and> (\<forall>a. \<not> free_run a (unat count) s))"
    by (rule linked_search_spec [OF _ _ _ _ _ _ _ f]) (use c0 in \<open>simp_all add: free_run_def\<close>)
  show ?thesis
  proof (cases "f < count")
    case True
    then have "\<forall>a. \<not> free_run a (unat count) s" using R by auto
    moreover obtain s' where "set_error_ts 70 0 0 s = Some s'" "bufs_ok s'" "current_error s' = 70"
      by (rule set_error_bufs_ok [OF plain_70 ok])
    ultimately show ?thesis using none f True by (simp add: alloc_linked_buffers_def set_error_def)
  next
    case False
    then have fr: "free_run st (unat count) s" "\<forall>a < st. \<not> free_run a (unat count) s"
      using R by (auto simp: word_less_nat_alt)
    define s1 where "s1 = chain_loop st count [0..<unat count] s"
    have C: "bufs_ok s1" "\<forall>j. st \<le> j \<and> j < st + unat count \<longrightarrow> link_of st count j (buf j s1)"
      "\<forall>j. j < st \<or> st + unat count \<le> j \<longrightarrow> buf j s1 = buf j s"
      using chain_loop_spec [OF ok _ _ s1_def] fr(1) by auto
    let ?l = "st + unat count - 1"
    let ?f = "\<lambda>b. b\<lparr>b_chain := (b_chain b)\<lparr>ch_next := None\<rparr>\<rparr>"
    let ?s = "upd_buf ?l ?f (set_busy_led True s1)"
    have l: "?l < 32" "st \<le> ?l" "?l < st + unat count" using fr(1) c0 by (auto simp: free_run_def)
    have L: "link_of st count ?l (buf ?l s1)" using C(2) l by blast
    have b1: "buffers (set_busy_led True s1) = buffers s1" by (simp add: set_busy_led_def)
    have len: "length (buffers s1) = 33" using C(1) by (simp add: bufs_ok_def)
    have ok2: "bufs_ok ?s"
      by (rule bufs_ok_upd [OF C(1) l(1), where f = ?f])
        (use L in \<open>simp_all add: upd_buf_def set_busy_led_def is_user_def is_dirty_def link_of_def\<close>)
    have bj: "buf j ?s = (if j = ?l then ?f (buf j s1) else buf j s1)" for j
      using b1 len l(1) by auto
    have "alloc_linked_buffers count s = Some (Some st, ?s)"
      using f False c by (simp add: alloc_linked_buffers_def s1_def Let_def)
    then show ?thesis
    proof (rule got [OF _ ok2 fr])
      show "\<forall>j. st \<le> j \<and> j < st + unat count \<longrightarrow> b_allocated (buf j ?s) \<and> b_secondary (buf j ?s) = 0 \<and> \<not> b_dirty (buf j ?s) \<and>
         ch_first (b_chain (buf j ?s)) = Some st \<and> ch_size (b_chain (buf j ?s)) = count \<and>
         ch_next (b_chain (buf j ?s)) = (if j + 1 < st + unat count then Some (j + 1) else None)"
        using C(2) unfolding bj by (auto simp: link_of_def)
      show "\<forall>j. j < st \<or> st + unat count \<le> j \<longrightarrow> buf j ?s = buf j s"
        using C(3) l unfolding bj by auto
    qed
  qed
qed

section \<open>The buffer pool as a state machine\<close>

text \<open>
  One call of a buffer operation.  The pointers that clients pass are the ones they got
  from an allocation; the error buffer is never marked dirty.  \<open>bs_secondary\<close> is the
  assignment of a secondary address by the file opening code and by \<^verbatim>\<open>d64ops.c\<close>.
\<close>

inductive buf_step :: "'a fw_scheme \<Rightarrow> 'a fw_scheme \<Rightarrow> bool" where
  bs_alloc_system: "alloc_system_buffer s = Some (bp, s') \<Longrightarrow> buf_step s s'"
| bs_alloc: "alloc_buffer s = Some (bp, s') \<Longrightarrow> buf_step s s'"
| bs_alloc_linked: "count \<noteq> 0 \<Longrightarrow> alloc_linked_buffers count s = Some (bp, s') \<Longrightarrow> buf_step s s'"
| bs_free: "\<forall>i. bp = Some i \<longrightarrow> i < 33 \<Longrightarrow> buf_step s (free_buffer bp s)"
| bs_dirty: "i < 32 \<Longrightarrow> b_allocated (buf i s) \<Longrightarrow> buf_step s (mark_buffer_dirty i s)"
| bs_clean: "i < 32 \<Longrightarrow> b_allocated (buf i s) \<Longrightarrow> buf_step s (mark_buffer_clean i s)"
| bs_stick: "i < 32 \<Longrightarrow> buf_step s (stick_buffer i s)"
| bs_unstick: "i < 32 \<Longrightarrow> buf_step s (unstick_buffer i s)"
| bs_write: "i < 32 \<Longrightarrow> buf_step s (mark_write_buffer i s)"
| bs_secondary: "i < 32 \<Longrightarrow> b_allocated (buf i s) \<Longrightarrow> sec \<noteq> 15 \<Longrightarrow>
    sec < BUFFER_SEC_SYSTEM \<longleftrightarrow> b_secondary (buf i s) < BUFFER_SEC_SYSTEM \<Longrightarrow>
    buf_step s (upd_buf i (\<lambda>b. b\<lparr>b_secondary := sec\<rparr>) s)"
| bs_error: "plain_error e \<Longrightarrow> set_error_ts e t sec s = Some s' \<Longrightarrow> buf_step s s'"

inductive buf_reachable :: "'a fw_scheme \<Rightarrow> bool" where
  br_init: "length (buffers s) = 33 \<Longrightarrow> active_buffers s = 0 \<Longrightarrow> buf_reachable (buffers_init s)"
| br_step: "buf_reachable s \<Longrightarrow> buf_step s s' \<Longrightarrow> buf_reachable s'"

lemma bufs_ok_neutral:
  assumes "bufs_ok s" "i < 32" "\<And>b. b_allocated (f b) = b_allocated b" "\<And>b. b_secondary (f b) = b_secondary b"
    "\<And>b. b_dirty (f b) = b_dirty b"
  shows "bufs_ok (upd_buf i f s)"
  by (rule bufs_ok_upd [OF assms(1,2), where f = f])
    (use assms in \<open>auto simp: is_user_def is_dirty_def bufs_ok_def\<close>)

lemma stick_ok:
  assumes "bufs_ok s" "i < 32"
  shows "bufs_ok (stick_buffer i s)" "bufs_ok (unstick_buffer i s)" "bufs_ok (mark_write_buffer i s)"
  unfolding stick_buffer_def unstick_buffer_def mark_write_buffer_def
  by (intro bufs_ok_neutral; use assms in simp)+

lemma bufs_ok_secondary:
  assumes "bufs_ok s" "i < 32" "b_allocated (buf i s)" "sec \<noteq> 15"
    "sec < 100 \<longleftrightarrow> b_secondary (buf i s) < 100"
  shows "bufs_ok (upd_buf i (\<lambda>b. b\<lparr>b_secondary := sec\<rparr>) s)"
  by (rule bufs_ok_upd [OF assms(1,2), where f = "\<lambda>b. b\<lparr>b_secondary := sec\<rparr>"])
    (use assms in \<open>simp_all add: is_user_def is_dirty_def\<close>)

lemma filter_clear: "filter is_user (map buf_clear xs) = []" "filter is_dirty (map buf_clear xs) = []"
  by (induction xs) (simp_all add: is_user_def is_dirty_def buf_clear_def)

lemma buffers_init_free:
  "i < 32 \<Longrightarrow> length (buffers s) = 33 \<Longrightarrow> \<not> b_allocated (buf i (buffers_init s))"
  by (simp add: buffers_init_def upd_buf_def buf_clear_def)

lemma buffers_init_ok:
  assumes "length (buffers s) = 33" "active_buffers s = 0"
  shows "bufs_ok (buffers_init s)"
proof -
  have t: "take 32 (buffers (buffers_init s)) = map buf_clear (take 32 (buffers s))"
    by (simp add: buffers_init_def upd_buf_def take_map)
  have a: "\<not> b_allocated (buf i (buffers_init s))" if "i < 32" for i
    using buffers_init_free that assms by blast
  show ?thesis
    unfolding bufs_ok_def cnt_def t using assms a
    by (simp add: filter_clear) (simp add: buffers_init_def upd_buf_def)
qed

lemma buf_step_ok: "buf_step s s' \<Longrightarrow> bufs_ok s \<Longrightarrow> bufs_ok s'"
proof (induction rule: buf_step.induct)
  case (bs_alloc_system s bp s')
  show ?case by (rule alloc_system_cases [OF bs_alloc_system.prems]) (use bs_alloc_system.hyps in auto)
next
  case (bs_alloc s bp s')
  show ?case by (rule alloc_buffer_ok [OF bs_alloc.prems]) (use bs_alloc.hyps in auto)
next
  case (bs_alloc_linked count s bp s')
  show ?case
    by (rule alloc_linked_cases [OF bs_alloc_linked.prems bs_alloc_linked.hyps(1)])
      (use bs_alloc_linked.hyps(2) in auto)
next
  case (bs_error e t sec s s')
  then show ?case using set_error_bufs_ok [of e s t sec] by (metis option.inject)
next
  case (bs_secondary i s sec)
  then show ?case by (intro bufs_ok_secondary) simp_all
qed (simp_all add: free_buffer_ok mark_dirty_ok stick_ok)

lemma buf_reachable_ok: "buf_reachable s \<Longrightarrow> bufs_ok s"
  by (induction rule: buf_reachable.induct) (auto intro: buffers_init_ok buf_step_ok)

section \<open>Properties\<close>

lemma cnt_card: "length (buffers s) = 33 \<Longrightarrow> cnt P s = card {i. i < 32 \<and> P (buf i s)}"
  unfolding cnt_def length_filter_conv_card by (rule arg_cong [where f = card]) auto

lemma fw0_reachable: "buf_reachable (buffers_init fw0)"
  by (rule br_init) (simp_all add: fw0_def)

text \<open>
  C28. Every error number other than the three that print variable texts (status and the two
  version strings) produces the line "NN,TEXT,TT,SS" and a carriage return in the error
  buffer, with the abbreviations of the message table written out, inside its 100 bytes;
  it becomes the current error, the error LED is on exactly for numbers from 20, and no
  other buffer changes.
\<close>

theorem set_error_line:
  assumes "plain_error e" "length (buffers s) = 33"
  shows "\<exists>s'. set_error_ts e t sec s = Some s' \<and> current_error s' = e \<and>
    take (unat (b_lastused (buf 32 s')) + 1) (b_data (buf 32 s')) =
      appendnumber [] e @ str '','' @ error_message e @ str '','' @ appendnumber [] t @ str '','' @
      appendnumber [] sec @ [13] \<and>
    length (b_data (buf 32 s')) = 100 \<and> b_position (buf 32 s') = 0 \<and>
    (led_state s' AND 1 \<noteq> 0 \<longleftrightarrow> 20 \<le> e) \<and> (\<forall>i. i \<noteq> 32 \<longrightarrow> buf i s' = buf i s)"
proof -
  have l: "length (error_line e t sec) \<le> 38" by (rule length_error_line)
  then have u: "unat (of_nat (length (error_line e t sec)) :: u8) = length (error_line e t sec)"
    by (simp add: unat_of_nat)
  have led: "(x OR 1) AND 1 \<noteq> 0" "(x AND NOT 1) AND 1 = 0" for x :: u8
    by (simp_all add: bit_eq_iff bit_simps) (auto intro: exI [of _ 0])
  show ?thesis
    using assms l u led
    by (simp add: set_error_ts_plain Let_def set_error_led_def update_leds_def del: str_def)
      (simp add: error_line_def)
qed

theorem set_error_line_witness:
  "\<exists>s'. set_error_ts 66 18 1 (buffers_init fw0) = Some s' \<and>
    take (unat (b_lastused (buf 32 s')) + 1) (b_data (buf 32 s')) = str ''66,ILLEGAL TRACK OR SECTOR,18,01'' @ [13]"
proof -
  have m: "appendnumber [] 66 @ str '','' @ error_message 66 @ str '','' @ appendnumber [] 18 @ str '','' @
      appendnumber [] 1 @ [13] = str ''66,ILLEGAL TRACK OR SECTOR,18,01'' @ [13]"
    by (simp add: appendnumber_def error_message_def entry_text_def message_entries_def expand_def
        abbrev_text_def abbrev_entries_def word_le_nat_alt)
  have "plain_error 66" "length (buffers (buffers_init fw0)) = 33"
    by (simp_all add: plain_error_def buffers_init_def upd_buf_def fw0_def)
  from set_error_line [OF this, of 18 1] show ?thesis unfolding m by blast
qed

text \<open>
  C16. In every state that buffer operations reach from \<open>buffers_init\<close>, \<open>active_buffers\<close> is
  (modulo 256) the number of allocated user buffers plus 16 times the number of dirty
  buffers, the error buffer stays allocated as the only buffer for secondary address 15,
  and \<open>find_buffer\<close> finds it there.
\<close>

theorem active_buffers_accounts:
  assumes "buf_reachable s"
  shows "active_buffers s = of_nat (card {i. i < 32 \<and> b_allocated (buf i s) \<and> b_secondary (buf i s) < 100}) +
      16 * of_nat (card {i. i < 32 \<and> b_allocated (buf i s) \<and> b_dirty (buf i s)}) \<and>
    b_allocated (buf 32 s) \<and> find_buffer 15 s = Some 32"
proof -
  have ok: "bufs_ok s" by (rule buf_reachable_ok [OF assms])
  have l: "length (buffers s) = 33" using ok by (simp add: bufs_ok_def)
  have "find_buffer 15 s = Some 32"
    using ok unfolding find_buffer_def first_buffer_def find_Some_iff
    by (intro exI [of _ 32]) (auto simp: bufs_ok_def)
  then show ?thesis
    using ok cnt_card [OF l] by (simp add: bufs_ok_def is_user_def is_dirty_def)
qed

theorem active_buffers_accounts_witness:
  "buf_reachable (buffers_init fw0) \<and> find_buffer 15 (buffers_init fw0) = Some 32"
  using active_buffers_accounts [OF fw0_reachable] fw0_reachable by blast

lemma nibbles:
  assumes "u \<le> 15" "d \<le> 15"
  shows "unat (of_nat u + 16 * of_nat d :: u8) = u + 16 * d"
proof -
  have "unat (of_nat (u + 16 * d) :: u8) = u + 16 * d" using assms by (simp only: unat_of_nat) simp
  then show ?thesis by simp
qed

text \<open>
  As long as at most 15 user buffers are open and at most 15 buffers are dirty, the two
  nibbles of \<open>active_buffers\<close> are these numbers, and \<open>update_leds\<close> shows the busy LED exactly
  when a user or dirty buffer exists and the dirty LED exactly when a dirty one does.
\<close>

theorem dirty_count_and_leds:
  assumes "buf_reachable s" "card {i. i < 32 \<and> is_user (buf i s)} \<le> 15"
    "card {i. i < 32 \<and> is_dirty (buf i s)} \<le> 15"
  shows "unat (get_dirty_buffer_count s) = card {i. i < 32 \<and> is_dirty (buf i s)} \<and>
    (dirty_led (update_leds s) \<longleftrightarrow> (\<exists>i < 32. is_dirty (buf i s))) \<and>
    (busy_led (update_leds s) \<longleftrightarrow> (\<exists>i < 32. is_user (buf i s) \<or> is_dirty (buf i s)))"
proof -
  have ok: "bufs_ok s" by (rule buf_reachable_ok [OF assms(1)])
  let ?U = "{i. i < 32 \<and> is_user (buf i s)}" and ?D = "{i. i < 32 \<and> is_dirty (buf i s)}"
  have "active_buffers s = of_nat (card ?U) + 16 * of_nat (card ?D)"
    using ok by (simp add: bufs_ok_def cnt_card)
  then have a: "unat (active_buffers s) = card ?U + 16 * card ?D" using nibbles [OF assms(2,3)] by simp
  have c: "unat (get_dirty_buffer_count s) = card ?D"
    using a assms(2) by (simp add: get_dirty_buffer_count_def unsigned_drop_bit_eq drop_bit_eq_div unat_div)
  have "dirty_led (update_leds s) \<longleftrightarrow> card ?D \<noteq> 0"
    using c by (auto simp: update_leds_def get_dirty_buffer_count_def u8_eq_iff)
  moreover have "busy_led (update_leds s) \<longleftrightarrow> card ?U \<noteq> 0 \<or> card ?D \<noteq> 0"
    using a by (auto simp: update_leds_def u8_eq_iff)
  ultimately show ?thesis using c by (auto simp: card_gt_0_iff)
qed

theorem dirty_count_and_leds_witness:
  "unat (get_dirty_buffer_count (buffers_init fw0)) = 0 \<and> \<not> busy_led (update_leds (buffers_init fw0))"
proof -
  have n: "\<not> is_user (buf i (buffers_init fw0))" "\<not> is_dirty (buf i (buffers_init fw0))" if "i < 32" for i
    using buffers_init_free [OF that, of fw0] by (auto simp: is_user_def is_dirty_def fw0_def)
  then have e: "{i. i < 32 \<and> is_user (buf i (buffers_init fw0))} = {}"
    "{i. i < 32 \<and> is_dirty (buf i (buffers_init fw0))} = {}" by blast+
  show ?thesis using dirty_count_and_leds [OF fw0_reachable, unfolded e] n by auto
qed

text \<open>
  \<open>alloc_linked_buffers\<close> either hands out the first run of \<open>count\<close> free neighbouring
  buffers, linked in order with the last link null and every other buffer untouched, or,
  exactly when there is no such run, returns null with error 70.
\<close>

theorem alloc_linked_contiguous:
  assumes "buf_reachable s" "count \<noteq> 0"
  shows "(\<exists>s'. alloc_linked_buffers count s = Some (None, s') \<and> current_error s' = 70 \<and>
       (\<forall>a. \<not> free_run a (unat count) s)) \<or>
    (\<exists>start s'. alloc_linked_buffers count s = Some (Some start, s') \<and>
       free_run start (unat count) s \<and> (\<forall>a < start. \<not> free_run a (unat count) s) \<and>
       (\<forall>j. start \<le> j \<and> j < start + unat count \<longrightarrow> b_allocated (buf j s') \<and> b_secondary (buf j s') = 0 \<and> \<not> b_dirty (buf j s') \<and>
         ch_first (b_chain (buf j s')) = Some start \<and> ch_size (b_chain (buf j s')) = count \<and>
         ch_next (b_chain (buf j s')) = (if j + 1 < start + unat count then Some (j + 1) else None)) \<and>
       (\<forall>j. j < start \<or> start + unat count \<le> j \<longrightarrow> buf j s' = buf j s))"
proof (rule alloc_linked_cases [OF buf_reachable_ok [OF assms(1)] assms(2)], goal_cases)
  case (1 s')
  then show ?case by (intro disjI1 exI [of _ s']) simp
next
  case (2 start s')
  then show ?case by (intro disjI2 exI [of _ start] exI [of _ s']) simp
qed

lemma fw0_free: "i < 32 \<Longrightarrow> \<not> b_allocated (buf i (buffers_init fw0))"
  using buffers_init_free [of i fw0] by (simp add: fw0_def)

lemma linked_fw0:
  assumes "count \<noteq> 0" "unat count \<le> 32"
  obtains s' where "alloc_linked_buffers count (buffers_init fw0) = Some (Some 0, s')"
    "\<forall>j < unat count. b_allocated (buf j s') \<and> b_secondary (buf j s') = 0 \<and> \<not> b_dirty (buf j s')"
    "\<forall>j. unat count \<le> j \<longrightarrow> buf j s' = buf j (buffers_init fw0)" "buf_reachable s'"
proof -
  have fr: "free_run 0 (unat count) (buffers_init fw0)" using assms(2) fw0_free by (simp add: free_run_def)
  have reach: "buf_reachable s'" if "alloc_linked_buffers count (buffers_init fw0) = Some (bp, s')" for bp s'
    by (rule br_step [OF fw0_reachable bs_alloc_linked [OF assms(1) that]])
  show thesis
  proof (rule alloc_linked_cases [OF buf_reachable_ok [OF fw0_reachable] assms(1)], goal_cases)
    case (1 s')
    then show ?case using fr by blast
  next
    case (2 start s')
    have "start = 0" using 2(4) fr by (cases start) auto
    then show ?case using 2 by (intro that [of s'] reach) auto
  qed
qed

theorem alloc_linked_contiguous_witness:
  "\<exists>s'. alloc_linked_buffers 3 (buffers_init fw0) = Some (Some 0, s') \<and> ch_next (b_chain (buf 1 s')) = Some 2 \<and>
     ch_next (b_chain (buf 2 s')) = None"
proof -
  have fr: "free_run 0 3 (buffers_init fw0)" using fw0_free by (simp add: free_run_def)
  have "(3 :: u8) \<noteq> 0" by simp
  note T = alloc_linked_contiguous [OF fw0_reachable this]
  obtain start s' where a: "alloc_linked_buffers 3 (buffers_init fw0) = Some (Some start, s')"
      "\<forall>a < start. \<not> free_run a 3 (buffers_init fw0)"
      "\<forall>j. start \<le> j \<and> j < start + 3 \<longrightarrow>
         ch_next (b_chain (buf j s')) = (if j + 1 < start + 3 then Some (j + 1) else None)"
    using T fr by auto
  have "start = 0" using a(2) fr by (cases start) auto
  then show ?thesis using a(1) a(3) [rule_format, of 1] a(3) [rule_format, of 2] by simp
qed

text \<open>
  With 32 buffers a nibble is too small: with sixteen open user buffers and no dirty
  one, \<open>get_dirty_buffer_count\<close> reports one dirty buffer and the dirty LED is lit, and
  \<open>check_free_buffers\<close> holds in every state, even when no buffer is free.
\<close>

theorem user_nibble_overflow:
  assumes "buf_reachable s" "card {i. i < 32 \<and> is_user (buf i s)} = 16" "\<forall>i < 32. \<not> is_dirty (buf i s)"
  shows "get_dirty_buffer_count s = 1 \<and> dirty_led (update_leds s) \<and> (\<forall>s' :: fw. check_free_buffers s')"
proof -
  have ok: "bufs_ok s" by (rule buf_reachable_ok [OF assms(1)])
  have d: "{i. i < 32 \<and> is_dirty (buf i s)} = {}" using assms(3) by blast
  have "active_buffers s = 16"
    using ok assms(2) unfolding bufs_ok_def by (simp add: cnt_card d del: Collect_empty_eq)
  then have "drop_bit 4 (active_buffers s) = 1" by (simp add: drop_bit_eq_div u8_eq_iff unat_div)
  moreover have "check_free_buffers s'" for s' :: fw
  proof -
    have "unat (active_buffers s' AND 0x0f) \<le> unat (0x0f :: u8)"
      by (simp only: word_and_le1 flip: word_le_nat_alt)
    then show ?thesis by (simp add: check_free_buffers_def)
  qed
  ultimately show ?thesis by (simp add: get_dirty_buffer_count_def update_leds_def)
qed

theorem user_nibble_overflow_witness:
  "\<exists>s'. alloc_linked_buffers 16 (buffers_init fw0) = Some (Some 0, s') \<and> get_dirty_buffer_count s' = 1"
proof -
  obtain s' where S: "alloc_linked_buffers 16 (buffers_init fw0) = Some (Some 0, s')"
    "\<forall>j < 16. b_allocated (buf j s') \<and> b_secondary (buf j s') = 0 \<and> \<not> b_dirty (buf j s')"
    "\<forall>j. 16 \<le> j \<longrightarrow> buf j s' = buf j (buffers_init fw0)" "buf_reachable s'"
    by (rule linked_fw0 [of 16]) auto
  have u: "is_user (buf i s') \<longleftrightarrow> i < 16" if "i < 32" for i
    using that S(2,3) fw0_free by (cases "i < 16") (auto simp: is_user_def)
  then have "{i. i < 32 \<and> is_user (buf i s')} = {..< 16}" by auto
  then have c: "card {i. i < 32 \<and> is_user (buf i s')} = 16" by simp
  have "\<forall>i < 32. \<not> is_dirty (buf i s')"
    using S(2,3) fw0_free by (metis is_dirty_def not_less)
  then show ?thesis using user_nibble_overflow [OF S(4) c] S(1) by blast
qed

text \<open>
  Once a cleanup has failed, \<open>free_multiple_buffers\<close> frees the remaining buffers without
  calling their cleanups: the rest of the loop does the same whatever the cleanups would do,
  since \<open>res || cleanup\<close> stops at the first failure.
\<close>

lemma free_multiple_failed: "free_multiple_loop cb flags is True s = free_multiple_loop cb' flags is True s"
  by (induction "is" arbitrary: s) auto

theorem cleanups_skipped_after_failure:
  assumes "b_allocated (buf i s)" "b_secondary (buf i s) < 100" "\<not> b_sticky (buf i s)"
    "cb (b_cleanup (buf i s)) i s = Some (r, s1)" "r \<noteq> 0"
  shows "free_multiple_loop cb FMB_CLEAN (i # js) False s =
    free_multiple_loop (\<lambda>c i s. None) FMB_CLEAN js True (free_buffer (Some i) s1)"
  using assms by (simp add: free_multiple_failed [of cb _ _ _ "\<lambda>c i s. None"])

definition two_open :: fw where
  "two_open = fw0\<lparr>buffers := replicate 2 ((buf_zero 256)\<lparr>b_allocated := True\<rparr>), active_buffers := 2\<rparr>"

theorem cleanups_skipped_after_failure_witness:
  "\<exists>s2. free_multiple_loop (\<lambda>c i s. if i = 0 then Some (1, s) else None) FMB_CLEAN [0, 1] False two_open = Some (True, s2)"
proof -
  have b: "buf 0 two_open = (buf_zero 256)\<lparr>b_allocated := True\<rparr>" by (simp add: two_open_def)
  have "b_allocated (buf 0 two_open)" "b_secondary (buf 0 two_open) < 100" "\<not> b_sticky (buf 0 two_open)"
    unfolding b by (simp_all add: buf_zero_def)
  then show ?thesis
    using cleanups_skipped_after_failure [where i = 0 and s = two_open and r = 1 and
        ?s1.0 = two_open and cb = "\<lambda>c i s. if i = 0 then Some (1, s) else None" and js = "[1]"]
    by simp
qed

end
