(* ===== verification/Ffile.thy ===== *)
theory Ffile
  imports Buffers
begin

text \<open>
  Access to image files, the end of \<^verbatim>\<open>src/src/fatops.c\<close>.  FatFs (\<^verbatim>\<open>src/src/ff.c\<close>) is seen through
  its interface only: an open file is its contents, size and position, a call may fail with
  a result code or transfer less than asked for, as \<open>io_script\<close> says.  \<open>None\<close> is an access
  to a partition that does not exist.
\<close>

section \<open>Files\<close>

text \<open>The outcome of the next FatFs call.\<close>

definition next_io :: "'a fw_scheme \<Rightarrow> io_outcome \<times> 'a fw_scheme" where
  "next_io s = (case io_script s of [] \<Rightarrow> (IO_OK, s) | x # xs \<Rightarrow> (x, s\<lparr>io_script := xs\<rparr>))"

definition mem_read :: "mem \<Rightarrow> nat \<Rightarrow> nat \<Rightarrow> u8 list" where
  "mem_read m a n = map (\<lambda>i. m (a + i)) [0..<n]"

definition mem_write :: "mem \<Rightarrow> nat \<Rightarrow> u8 list \<Rightarrow> mem" where
  "mem_write m a xs = (\<lambda>i. if a \<le> i \<and> i < a + length xs then xs ! (i - a) else m i)"

definition upd_image :: "u8 \<Rightarrow> (fil \<Rightarrow> fil) \<Rightarrow> 'a fw_scheme \<Rightarrow> 'a fw_scheme" where
  "upd_image p f s = upd_part p (\<lambda>pt. pt\<lparr>pt_imagehandle := f (pt_imagehandle pt)\<rparr>) s"

abbreviation image :: "u8 \<Rightarrow> 'a fw_scheme \<Rightarrow> fil" where
  "image p s \<equiv> pt_imagehandle (part p s)"

definition seek_to :: "nat \<Rightarrow> fil \<Rightarrow> fil" where
  "seek_to ofs f =
     (if fl_size f < ofs then (if fl_write f then f\<lparr>fl_ptr := ofs, fl_size := ofs\<rparr> else f\<lparr>fl_ptr := fl_size f\<rparr>)
      else f\<lparr>fl_ptr := ofs\<rparr>)"

definition f_lseek :: "u8 \<Rightarrow> u32 \<Rightarrow> 'a fw_scheme \<Rightarrow> FRESULT \<times> 'a fw_scheme" where
  "f_lseek p ofs s =
     (case next_io s of
        (IO_ERR r, s) \<Rightarrow> (r, s)
      | (_, s) \<Rightarrow> (FR_OK, upd_image p (seek_to (unat ofs)) s))"

definition f_read :: "u8 \<Rightarrow> nat \<Rightarrow> 'a fw_scheme \<Rightarrow> FRESULT \<times> u8 list \<times> 'a fw_scheme" where
  "f_read p n s =
     (case next_io s of
        (IO_ERR r, s) \<Rightarrow> (r, [], s)
      | (_, s) \<Rightarrow> (let f = image p s; n = min n (fl_size f - fl_ptr f) in
          (FR_OK, mem_read (fl_data f) (fl_ptr f) n, upd_image p (\<lambda>f. f\<lparr>fl_ptr := fl_ptr f + n\<rparr>) s)))"

definition write_bytes :: "u8 list \<Rightarrow> fil \<Rightarrow> fil" where
  "write_bytes xs f = f\<lparr>fl_data := mem_write (fl_data f) (fl_ptr f) xs, fl_ptr := fl_ptr f + length xs,
     fl_size := max (fl_size f) (fl_ptr f + length xs)\<rparr>"

definition f_write :: "u8 \<Rightarrow> u8 list \<Rightarrow> 'a fw_scheme \<Rightarrow> FRESULT \<times> nat \<times> 'a fw_scheme" where
  "f_write p xs s =
     (case next_io s of
        (IO_ERR r, s) \<Rightarrow> (r, 0, s)
      | (out, s) \<Rightarrow>
          if \<not> fl_write (image p s) then (FR_DENIED, 0, s)
          else (let xs = (case out of IO_SHORT k \<Rightarrow> take k xs | _ \<Rightarrow> xs) in
                (FR_OK, length xs, upd_image p (write_bytes xs) s)))"

section \<open>Errors\<close>

fun fresult_num :: "FRESULT \<Rightarrow> u8" where
  "fresult_num FR_OK = 0" | "fresult_num FR_NOT_READY = 1" | "fresult_num FR_NO_FILE = 2"
| "fresult_num FR_NO_PATH = 3" | "fresult_num FR_INVALID_NAME = 4" | "fresult_num FR_INVALID_DRIVE = 5"
| "fresult_num FR_DENIED = 6" | "fresult_num FR_EXIST = 7" | "fresult_num FR_RW_ERROR = 8"
| "fresult_num FR_WRITE_PROTECTED = 9" | "fresult_num FR_NOT_ENABLED = 10"
| "fresult_num FR_NO_FILESYSTEM = 11" | "fresult_num FR_INVALID_OBJECT = 12"
| "fresult_num FR_MKFS_ABORTED = 13" | "fresult_num FR_IS_DIRECTORY = 14"
| "fresult_num FR_IS_READONLY = 15" | "fresult_num FR_DIR_NOT_EMPTY = 16"
| "fresult_num FR_NOT_DIRECTORY = 17"

definition parse_error :: "FRESULT \<Rightarrow> bool \<Rightarrow> 'a fw_scheme \<Rightarrow> 'a fw_scheme option" where
  "parse_error res readflag s =
     (let r = fresult_num res in
      case res of
        FR_OK \<Rightarrow> set_error ERROR_OK s
      | FR_NO_FILE \<Rightarrow> set_error_ts ERROR_FILE_NOT_FOUND r 0 s
      | FR_NO_PATH \<Rightarrow> set_error_ts ERROR_FILE_NOT_FOUND_39 r 0 s
      | FR_NOT_DIRECTORY \<Rightarrow> set_error_ts ERROR_FILE_NOT_FOUND_39 r 0 s
      | FR_INVALID_NAME \<Rightarrow> set_error_ts ERROR_SYNTAX_JOKER r 0 s
      | FR_NOT_READY \<Rightarrow> set_error_ts ERROR_DRIVE_NOT_READY r 0 s
      | FR_INVALID_DRIVE \<Rightarrow> set_error_ts ERROR_DRIVE_NOT_READY r 0 s
      | FR_NOT_ENABLED \<Rightarrow> set_error_ts ERROR_DRIVE_NOT_READY r 0 s
      | FR_NO_FILESYSTEM \<Rightarrow> set_error_ts ERROR_DRIVE_NOT_READY r 0 s
      | FR_RW_ERROR \<Rightarrow> set_error_ts (if readflag then ERROR_READ_NOHEADER else ERROR_WRITE_VERIFY) r 0 s
      | FR_WRITE_PROTECTED \<Rightarrow> set_error_ts ERROR_WRITE_PROTECT r 0 s
      | FR_EXIST \<Rightarrow> set_error_ts ERROR_FILE_EXISTS r 0 s
      | FR_DIR_NOT_EMPTY \<Rightarrow> set_error_ts ERROR_FILE_EXISTS r 0 s
      | FR_DENIED \<Rightarrow> set_error_ts ERROR_DISK_FULL r 0 s
      | FR_IS_READONLY \<Rightarrow> set_error_ts ERROR_FILE_EXISTS r 0 s
      | FR_IS_DIRECTORY \<Rightarrow> set_error_ts ERROR_FILE_EXISTS r 0 s
      | FR_INVALID_OBJECT \<Rightarrow> set_error_ts ERROR_DRIVE_NOT_READY r 0 s
      | FR_MKFS_ABORTED \<Rightarrow> set_error_ts ERROR_SYNTAX_UNABLE r 99 s)"

section \<open>Image access\<close>

text \<open>\<open>image_read\<close> returns the bytes that it stored from the start of the C buffer.\<close>

definition image_read :: "u8 \<Rightarrow> u32 \<Rightarrow> nat \<Rightarrow> 'a fw_scheme \<Rightarrow> (u8 \<times> u8 list \<times> 'a fw_scheme) option" where
  "image_read p offset bytes s =
     (if length (partitions s) \<le> unat p then None
      else
        (let (res, s) = (if offset \<noteq> -1 then f_lseek p offset s else (FR_OK, s)) in
         if res \<noteq> FR_OK then do { s \<leftarrow> parse_error res True s; Some (2, [], s) }
         else
           (let (res, xs, s) = f_read p bytes s in
            if res \<noteq> FR_OK then do { s \<leftarrow> parse_error res True s; Some (2, xs, s) }
            else Some (if length xs \<noteq> bytes then 1 else 0, xs, s))))"

text \<open>\<open>f_sync\<close> has no effect on the contents that FatFs presents; its result is ignored.\<close>

definition image_write :: "u8 \<Rightarrow> u32 \<Rightarrow> u8 list \<Rightarrow> bool \<Rightarrow> 'a fw_scheme \<Rightarrow> (u8 \<times> 'a fw_scheme) option" where
  "image_write p offset buffer flush s =
     (if length (partitions s) \<le> unat p then None
      else
        (let (res, s) = (if offset \<noteq> -1 then f_lseek p offset s else (FR_OK, s)) in
         if res \<noteq> FR_OK then do { s \<leftarrow> parse_error res False s; Some (2, s) }
         else
           (let (res, n, s) = f_write p buffer s in
            if res \<noteq> FR_OK then do { s \<leftarrow> parse_error res True s; Some (2, s) }
            else if n \<noteq> length buffer then Some (1, s)
            else Some (0, s))))"

definition image_mkdir :: "path_t \<Rightarrow> u8 list \<Rightarrow> 'a fw_scheme \<Rightarrow> 'a fw_scheme option" where
  "image_mkdir path dirname s = set_error ERROR_SYNTAX_UNABLE s"

definition format_dummy :: "u8 \<Rightarrow> u8 list \<Rightarrow> u8 list \<Rightarrow> 'a fw_scheme \<Rightarrow> 'a fw_scheme option" where
  "format_dummy drive name diskid s = set_error ERROR_SYNTAX_UNKNOWN s"

end
