(* ===== verification/Eefs_Ops.thy ===== *)
theory Eefs_Ops
  imports Ffile
begin

text \<open>
  The file operations of the EEPROM file system, \<^verbatim>\<open>src/src/eefs-ops.c\<close>: they connect the
  functions of \<^verbatim>\<open>eeprom-fs.c\<close> with buffers, directory entries and the error channel.  A
  directory entry name is the array of 17 bytes.
\<close>

section \<open>Names and errors\<close>

definition disk_label :: "u8 list" where "disk_label = str ''EEPROMFS        ''"
definition disk_id :: "u8 list" where "disk_id = str ''EE 2A''"

text \<open>\<open>None\<close> is a name without terminator in its first 17 bytes.\<close>

definition repad_filename :: "u8 list \<Rightarrow> u8 list option" where
  "repad_filename name =
     (let len = length (cstr name) in
      if CBM_NAME_LENGTH < len \<or> length name \<le> len then None
      else Some (take len name @ replicate (CBM_NAME_LENGTH - len) 0xa0 @ drop CBM_NAME_LENGTH name))"

definition terminate_filename :: "u8 list \<Rightarrow> u8 list" where
  "terminate_filename name =
     map (\<lambda>c. if c = 0xa0 then 0 else c) (take CBM_NAME_LENGTH name) @ drop CBM_NAME_LENGTH name"

fun eefs_error_num :: "eefs_error \<Rightarrow> u8" where
  "eefs_error_num EEFS_ERROR_OK = 0"
| "eefs_error_num EEFS_ERROR_FILENOTFOUND = 1"
| "eefs_error_num EEFS_ERROR_FILEEXISTS = 2"
| "eefs_error_num EEFS_ERROR_DIRFULL = 3"
| "eefs_error_num EEFS_ERROR_DISKFULL = 4"
| "eefs_error_num EEFS_ERROR_INVALID = 5"
| "eefs_error_num EEFS_ERROR_UNIMPLEMENTED = 6"

definition translate_error :: "eefs_error \<Rightarrow> 'a fw_scheme \<Rightarrow> 'a fw_scheme option" where
  "translate_error res s =
     (case res of
        EEFS_ERROR_OK \<Rightarrow> set_error ERROR_OK s
      | EEFS_ERROR_FILENOTFOUND \<Rightarrow> set_error ERROR_FILE_NOT_FOUND s
      | EEFS_ERROR_FILEEXISTS \<Rightarrow> set_error ERROR_FILE_EXISTS s
      | EEFS_ERROR_DIRFULL \<Rightarrow> set_error_ts ERROR_DISK_FULL (eefs_error_num res) 0 s
      | EEFS_ERROR_DISKFULL \<Rightarrow> set_error_ts ERROR_DISK_FULL (eefs_error_num res) 0 s
      | EEFS_ERROR_INVALID \<Rightarrow> set_error ERROR_SYNTAX_UNABLE s
      | EEFS_ERROR_UNIMPLEMENTED \<Rightarrow> set_error ERROR_SYNTAX_UNKNOWN s)"

section \<open>Callbacks\<close>

definition eefs_refill_read :: "nat \<Rightarrow> 'a fw_scheme \<Rightarrow> (u8 \<times> 'a fw_scheme) option" where
  "eefs_refill_read i s = do {
     (res, fh, bs, s) \<leftarrow> eepromfs_read (b_eefh (buf i s)) 254 s;
     let s = upd_buf i (\<lambda>b. b\<lparr>b_eefh := fh, b_data := put_at 2 bs (b_data b)\<rparr>) s;
     (if res \<noteq> EEFS_ERROR_OK
      then do { s \<leftarrow> translate_error res s; Some (1, free_buffer (Some i) s) }
      else Some (0, upd_buf i (\<lambda>b. b\<lparr>b_position := 2, b_lastused := of_nat (length bs) + 1,
             b_sendeoi := (length bs < 254 \<or> fh_cur_offset fh = fh_size fh)\<rparr>) s)) }"

definition eefs_refill_write :: "nat \<Rightarrow> 'a fw_scheme \<Rightarrow> (u8 \<times> 'a fw_scheme) option" where
  "eefs_refill_write i s = do {
     let s = (if \<not> b_mustflush (buf i s) then upd_buf i (\<lambda>b. b\<lparr>b_lastused := b_position b - 1\<rparr>) s else s);
     let b = buf i s;
     (res, fh, n, s) \<leftarrow> eepromfs_write (b_eefh b) (drop 2 (b_data b)) (ucast (b_lastused b) - 1) s;
     let s = upd_buf i (\<lambda>b. b\<lparr>b_eefh := fh\<rparr>) s;
     (if res \<noteq> EEFS_ERROR_OK then do {
        s \<leftarrow> translate_error res s;
        (fh, s) \<leftarrow> eepromfs_close (b_eefh (buf i s)) s;
        Some (1, free_buffer (Some i) (upd_buf i (\<lambda>b. b\<lparr>b_eefh := fh\<rparr>) s)) }
      else Some (0, upd_buf i (\<lambda>b. b\<lparr>b_mustflush := False, b_position := 2, b_lastused := 2\<rparr>)
                      (mark_buffer_clean i s))) }"

text \<open>The refill callback of a buffer for writing is \<open>eefs_refill_write\<close>.\<close>

definition eefs_cleanup_write :: "nat \<Rightarrow> 'a fw_scheme \<Rightarrow> (u8 \<times> 'a fw_scheme) option" where
  "eefs_cleanup_write i s =
     (if \<not> b_allocated (buf i s) then Some (0, s)
      else if b_refill (buf i s) \<noteq> Refill_eefs_write then None
      else do {
        (res, s) \<leftarrow> eefs_refill_write i s;
        (if res \<noteq> 0 then Some (1, s)
         else do {
           (fh, s) \<leftarrow> eepromfs_close (b_eefh (buf i s)) s;
           Some (0, upd_buf i (\<lambda>b. b\<lparr>b_eefh := fh, b_cleanup := Cleanup_dummy\<rparr>) s) }) })"

section \<open>File operations\<close>

definition eefsops_init :: "'a fw_scheme \<Rightarrow> 'a fw_scheme option" where
  "eefsops_init s =
     (let s = s\<lparr>eefs_partition := 255\<rparr> in
      if CONFIG_MAX_PARTITIONS \<le> unat (max_part s) then Some s
      else (let s = s\<lparr>eefs_partition := max_part s\<rparr>;
                s = upd_part (eefs_partition s) (\<lambda>p. p\<lparr>pt_fop := EEFSOPS\<rparr>) s
            in eepromfs_init (s\<lparr>max_part := max_part s + 1\<rparr>)))"

text \<open>The operations change the name in the directory entry, which is returned.\<close>

definition eefs_open_read :: "path_t \<Rightarrow> cbmdirent_t \<Rightarrow> nat \<Rightarrow> 'a fw_scheme \<Rightarrow> (cbmdirent_t \<times> 'a fw_scheme) option" where
  "eefs_open_read path dent i s = do {
     name \<leftarrow> repad_filename (ce_name dent);
     let dent = dent\<lparr>ce_name := name\<rparr>;
     (res, fh, s) \<leftarrow> eepromfs_open (ce_name dent) EEFS_MODE_READ s;
     s \<leftarrow> translate_error res (upd_buf i (\<lambda>b. b\<lparr>b_eefh := fh\<rparr>) s);
     (if res \<noteq> EEFS_ERROR_OK then Some (dent, s)
      else do {
        let s = stick_buffer i (upd_buf i (\<lambda>b. b\<lparr>b_read := True, b_refill := Refill_eefs_read\<rparr>) s);
        (_, s) \<leftarrow> eefs_refill_read i s;
        Some (dent, s) }) }"

definition eefs_open_write ::
  "path_t \<Rightarrow> cbmdirent_t \<Rightarrow> u8 \<Rightarrow> nat \<Rightarrow> bool \<Rightarrow> 'a fw_scheme \<Rightarrow> (cbmdirent_t \<times> 'a fw_scheme) option" where
  "eefs_open_write path dent type i app s = do {
     name \<leftarrow> repad_filename (ce_name dent);
     let dent = dent\<lparr>ce_name := name\<rparr>;
     (res, fh, s) \<leftarrow> eepromfs_open (ce_name dent) (if app then EEFS_MODE_APPEND else EEFS_MODE_WRITE) s;
     s \<leftarrow> translate_error res (upd_buf i (\<lambda>b. b\<lparr>b_eefh := fh\<rparr>) s);
     Some (dent, if res \<noteq> EEFS_ERROR_OK then s
       else upd_buf i (\<lambda>b. b\<lparr>b_position := 2, b_lastused := 2, b_data := (b_data b)[2 := 0x0d],
              b_refill := Refill_eefs_write, b_cleanup := Cleanup_eefs_write\<rparr>) (mark_write_buffer i s)) }"

definition eefs_open_rel :: "path_t \<Rightarrow> cbmdirent_t \<Rightarrow> nat \<Rightarrow> u8 \<Rightarrow> u8 \<Rightarrow> 'a fw_scheme \<Rightarrow> 'a fw_scheme option" where
  "eefs_open_rel path dent i recordlen mode s = set_error ERROR_SYNTAX_UNABLE s"

definition eefs_delete :: "path_t \<Rightarrow> cbmdirent_t \<Rightarrow> 'a fw_scheme \<Rightarrow> (u8 \<times> cbmdirent_t \<times> 'a fw_scheme) option" where
  "eefs_delete path dent s = do {
     let s = set_dirty_led True s;
     name \<leftarrow> repad_filename (ce_name dent);
     let dent = dent\<lparr>ce_name := name\<rparr>;
     (res, s) \<leftarrow> eepromfs_delete (ce_name dent) s;
     s \<leftarrow> translate_error res s;
     Some (if res = EEFS_ERROR_OK then 1 else 0, dent, update_leds s) }"

definition eefs_disk_label :: "u8 \<Rightarrow> u8 list" where
  "eefs_disk_label p = disk_label @ [0]"

definition eefs_dir_label :: "path_t \<Rightarrow> u8 list" where
  "eefs_dir_label path = take 16 disk_label"

definition eefs_disk_id :: "path_t \<Rightarrow> u8 list" where
  "eefs_disk_id path = disk_id"

definition eefs_disk_free :: "u8 \<Rightarrow> 'a fw_scheme \<Rightarrow> u16" where
  "eefs_disk_free p s = ucast (eepromfs_free_sectors s div of_nat (256 div EEPROMFS_SECTORSIZE))"

definition eefs_read_sector :: "nat \<Rightarrow> u8 \<Rightarrow> u8 \<Rightarrow> u8 \<Rightarrow> 'a fw_scheme \<Rightarrow> 'a fw_scheme option" where
  "eefs_read_sector i p track sector s = set_error_ts ERROR_READ_NOHEADER track sector s"

definition eefs_write_sector :: "nat \<Rightarrow> u8 \<Rightarrow> u8 \<Rightarrow> u8 \<Rightarrow> 'a fw_scheme \<Rightarrow> 'a fw_scheme option" where
  "eefs_write_sector i p track sector s = set_error_ts ERROR_READ_NOHEADER track sector s"

definition eefs_format :: "u8 \<Rightarrow> u8 list \<Rightarrow> u8 list option \<Rightarrow> 'a fw_scheme \<Rightarrow> 'a fw_scheme option" where
  "eefs_format p name diskid s = eepromfs_format s"

definition eefs_opendir :: "path_t \<Rightarrow> 'a fw_scheme \<Rightarrow> (u8 \<times> dh_t \<times> 'a fw_scheme) option" where
  "eefs_opendir path s = Some (0, \<lparr>dh_part = path_part path, dh_fat = fatdir_zero, dh_d64 = d64dh_zero, dh_eefs = eepromfs_opendir\<rparr>, s)"

text \<open>\<open>-1\<close> at the end of the directory; the entry comes with the result \<open>0\<close>.\<close>

definition eefs_readdir :: "dh_t \<Rightarrow> 'a fw_scheme \<Rightarrow> (int \<times> cbmdirent_t option \<times> dh_t \<times> 'a fw_scheme) option" where
  "eefs_readdir dh s = do {
     (n, d, s) \<leftarrow> eepromfs_readdir (dh_eefs dh) s;
     let dh = dh\<lparr>dh_eefs := n\<rparr>;
     (case d of
        None \<Rightarrow> Some (-1, None, dh, s)
      | Some e \<Rightarrow>
          Some (0, Some \<lparr>ce_name = take CBM_NAME_LENGTH (terminate_filename (de_name e)) @ [0],
             ce_typeflags = TYPE_PRG, ce_blocksize = of_nat ((unat (de_size e) + 255) div 256),
             ce_remainder = 0, ce_date = date_zero, ce_opstype = OPSTYPE_EEFS, ce_cluster = 0, ce_realname = replicate 13 0, ce_dh = d64dh_zero\<rparr>, dh, s)) }"

definition eefs_chdir :: "path_t \<Rightarrow> cbmdirent_t \<Rightarrow> 'a fw_scheme \<Rightarrow> (u8 \<times> 'a fw_scheme) option" where
  "eefs_chdir path dent s = Some (0, s)"

definition eefs_rename ::
  "path_t \<Rightarrow> cbmdirent_t \<Rightarrow> u8 list \<Rightarrow> 'a fw_scheme \<Rightarrow> (cbmdirent_t \<times> u8 list \<times> 'a fw_scheme) option" where
  "eefs_rename path oldname newname s = do {
     old \<leftarrow> repad_filename (ce_name oldname);
     newname \<leftarrow> repad_filename newname;
     (res, s) \<leftarrow> eepromfs_rename old newname s;
     s \<leftarrow> translate_error res s;
     Some (oldname\<lparr>ce_name := old\<rparr>, newname, s) }"

end
