(* ===== verification/D64.thy ===== *)
theory D64
  imports Ffile
begin

text \<open>
  Disk images, the first half of \<^verbatim>\<open>src/src/d64ops.c\<close>: the geometry of the image types, checked
  sector reads with error information, directory entries, the two cached BAM sectors, and
  the allocation of sectors.  \<open>None\<close> is a null pointer access, an access outside an array, or
  a loop that does not end.
\<close>

section \<open>Image types\<close>

definition D41_ERROR_OFFSET :: u32 where [simp]: "D41_ERROR_OFFSET = 174848"
definition D71_ERROR_OFFSET :: u32 where [simp]: "D71_ERROR_OFFSET = 349696"
definition D81_ERROR_OFFSET :: u32 where [simp]: "D81_ERROR_OFFSET = 819200"
definition D80_ERROR_OFFSET :: u32 where [simp]: "D80_ERROR_OFFSET = 533248"
definition D82_ERROR_OFFSET :: u32 where [simp]: "D82_ERROR_OFFSET = 1066496"

definition D41_BAM_TRACK :: u8 where [simp]: "D41_BAM_TRACK = 18"
definition D41_BAM_SECTOR :: u8 where [simp]: "D41_BAM_SECTOR = 0"
definition D41_BAM_BYTES_PER_TRACK :: u8 where [simp]: "D41_BAM_BYTES_PER_TRACK = 4"
definition D81_BAM_TRACK :: u8 where [simp]: "D81_BAM_TRACK = 40"
definition D81_BAM_SECTOR1 :: u8 where [simp]: "D81_BAM_SECTOR1 = 1"
definition D81_BAM_SECTOR2 :: u8 where [simp]: "D81_BAM_SECTOR2 = 2"
definition D81_BAM_OFFSET :: u8 where [simp]: "D81_BAM_OFFSET = 10"
definition D81_BAM_BYTES_PER_TRACK :: u8 where [simp]: "D81_BAM_BYTES_PER_TRACK = 6"
definition D71_BAM2_TRACK :: u8 where [simp]: "D71_BAM2_TRACK = 53"
definition D71_BAM2_SECTOR :: u8 where [simp]: "D71_BAM2_SECTOR = 0"
definition D71_BAM2_BYTES_PER_TRACK :: u8 where [simp]: "D71_BAM2_BYTES_PER_TRACK = 3"
definition D71_BAM_COUNTER2OFFSET :: u8 where [simp]: "D71_BAM_COUNTER2OFFSET = 0xdd"
definition DNP_BAM_TRACK :: u8 where [simp]: "DNP_BAM_TRACK = 1"
definition DNP_BAM_SECTOR :: u8 where [simp]: "DNP_BAM_SECTOR = 2"
definition DNP_BAM_LAST_TRACK_OFS :: nat where [simp]: "DNP_BAM_LAST_TRACK_OFS = 8"
definition DNP_ROOTDIR_SECTOR :: u8 where [simp]: "DNP_ROOTDIR_SECTOR = 34"
definition DNP_BAM_BYTES_PER_TRACK :: nat where [simp]: "DNP_BAM_BYTES_PER_TRACK = 32"
definition DNP_DIRHEADER_ROOTHDR_TRACK :: nat where [simp]: "DNP_DIRHEADER_ROOTHDR_TRACK = 32"
definition DNP_DIRHEADER_ROOTHDR_SECTOR :: nat where [simp]: "DNP_DIRHEADER_ROOTHDR_SECTOR = 33"
definition DNP_DIRHEADER_PARENTHDR_TRACK :: u32 where [simp]: "DNP_DIRHEADER_PARENTHDR_TRACK = 34"
definition DNP_DIRHEADER_PARENTENTRY_TRACK :: u32 where [simp]: "DNP_DIRHEADER_PARENTENTRY_TRACK = 36"
definition DNP_LABEL_OFFSET :: u8 where [simp]: "DNP_LABEL_OFFSET = 4"
definition DNP_LABEL_AREA_SIZE :: nat where [simp]: "DNP_LABEL_AREA_SIZE = 28 - 4 + 1"
definition DNP_ID_OFFSET :: u8 where [simp]: "DNP_ID_OFFSET = 22"
definition D80_BAM_TRACK :: u8 where [simp]: "D80_BAM_TRACK = 38"
definition D80_DIR_TRACK :: u8 where [simp]: "D80_DIR_TRACK = 39"
definition D80_BAM_SECTOR :: u8 where [simp]: "D80_BAM_SECTOR = 0"
definition D80_BAM_INTERLEAVE :: u8 where [simp]: "D80_BAM_INTERLEAVE = 3"
definition D80_BAM_BYTES_PER_TRACK :: u8 where [simp]: "D80_BAM_BYTES_PER_TRACK = 5"
definition MAX_SECTORS_PER_TRACK :: nat where [simp]: "MAX_SECTORS_PER_TRACK = 40"

definition DIR_OFS_FILE_TYPE :: nat where [simp]: "DIR_OFS_FILE_TYPE = 2"
definition DIR_OFS_TRACK :: nat where [simp]: "DIR_OFS_TRACK = 3"
definition DIR_OFS_SECTOR :: nat where [simp]: "DIR_OFS_SECTOR = 4"
definition DIR_OFS_FILE_NAME :: nat where [simp]: "DIR_OFS_FILE_NAME = 5"
definition DIR_OFS_YEAR :: nat where [simp]: "DIR_OFS_YEAR = 0x19"
definition DIR_OFS_MONTH :: nat where [simp]: "DIR_OFS_MONTH = 0x1a"
definition DIR_OFS_DAY :: nat where [simp]: "DIR_OFS_DAY = 0x1b"
definition DIR_OFS_HOUR :: nat where [simp]: "DIR_OFS_HOUR = 0x1c"
definition DIR_OFS_MINUTE :: nat where [simp]: "DIR_OFS_MINUTE = 0x1d"
definition DIR_OFS_SIZE_LOW :: nat where [simp]: "DIR_OFS_SIZE_LOW = 0x1e"
definition DIR_OFS_SIZE_HI :: nat where [simp]: "DIR_OFS_SIZE_HI = 0x1f"

definition D64_TYPE_MASK :: u8 where [simp]: "D64_TYPE_MASK = 0x7f"
definition D64_TYPE_NONE :: u8 where [simp]: "D64_TYPE_NONE = 0"
definition D64_TYPE_DNP :: u8 where [simp]: "D64_TYPE_DNP = 1"
definition D64_TYPE_D41 :: u8 where [simp]: "D64_TYPE_D41 = 2"
definition D64_TYPE_D71 :: u8 where [simp]: "D64_TYPE_D71 = 3"
definition D64_TYPE_D81 :: u8 where [simp]: "D64_TYPE_D81 = 4"
definition D64_TYPE_D80 :: u8 where [simp]: "D64_TYPE_D80 = 8"
definition D64_TYPE_D82 :: u8 where [simp]: "D64_TYPE_D82 = 16"
definition D64_HAS_ERRORINFO :: u8 where [simp]: "D64_HAS_ERRORINFO = 128"

definition d41param :: param_s where
  "d41param = \<lparr>dir_track = 18, dir_start_sector = 1, last_track = 35, label_offset = 0x90, id_offset = 0xa2,
     file_interleave = 10, dir_interleave = 3, format_function = Format_d41\<rparr>"

definition d71param :: param_s where
  "d71param = \<lparr>dir_track = 18, dir_start_sector = 1, last_track = 70, label_offset = 0x90, id_offset = 0xa2,
     file_interleave = 6, dir_interleave = 3, format_function = Format_d71\<rparr>"

definition d81param :: param_s where
  "d81param = \<lparr>dir_track = 40, dir_start_sector = 3, last_track = 80, label_offset = 0x04, id_offset = 0x16,
     file_interleave = 1, dir_interleave = 1, format_function = Format_d81\<rparr>"

definition dnpparam :: param_s where
  "dnpparam = \<lparr>dir_track = 1, dir_start_sector = 1, last_track = 0, label_offset = DNP_LABEL_OFFSET,
     id_offset = DNP_ID_OFFSET, file_interleave = 1, dir_interleave = 1, format_function = Format_dnp\<rparr>"

definition d80param :: param_s where
  "d80param = \<lparr>dir_track = 39, dir_start_sector = 1, last_track = 77, label_offset = 6, id_offset = 0x18,
     file_interleave = 5, dir_interleave = 3, format_function = Format_d80\<rparr>"

definition d82param :: param_s where
  "d82param = \<lparr>dir_track = 39, dir_start_sector = 1, last_track = 154, label_offset = 6, id_offset = 0x18,
     file_interleave = 5, dir_interleave = 3, format_function = Format_d82\<rparr>"

datatype param_t = DIR_TRACK | DIR_START_SECTOR | LAST_TRACK | LABEL_OFFSET | ID_OFFSET
  | FILE_INTERLEAVE | DIR_INTERLEAVE

definition get_param :: "u8 \<Rightarrow> param_t \<Rightarrow> 'a fw_scheme \<Rightarrow> u8" where
  "get_param p param s =
     (let d = pt_d64data (part p s) in
      case param of
        DIR_TRACK \<Rightarrow> dir_track d | DIR_START_SECTOR \<Rightarrow> dir_start_sector d | LAST_TRACK \<Rightarrow> last_track d
      | LABEL_OFFSET \<Rightarrow> label_offset d | ID_OFFSET \<Rightarrow> id_offset d | FILE_INTERLEAVE \<Rightarrow> file_interleave d
      | DIR_INTERLEAVE \<Rightarrow> dir_interleave d)"

abbreviation imagetype :: "u8 \<Rightarrow> 'a fw_scheme \<Rightarrow> u8" where
  "imagetype p s \<equiv> pt_imagetype (part p s)"

section \<open>Geometry\<close>

text \<open>The arithmetic of the C code is in 16 bit; \<open>w\<close> widens a byte.\<close>

abbreviation w :: "u8 \<Rightarrow> u16" where "w x \<equiv> ucast x"

definition lba_of :: "u8 \<Rightarrow> u8 \<Rightarrow> u8 \<Rightarrow> u16" where
  "lba_of ty track0 sector =
     (let track = track0 - 1 in
      if ty = D64_TYPE_D81 then w track * 40 + w sector
      else if ty = D64_TYPE_DNP then w track * 256 + w sector
      else if ty = D64_TYPE_D80 \<or> ty = D64_TYPE_D82 then
        (let (offset, track) = (if track \<ge> 78 then (2083, track - 77) else (0, track)) in
         if track < 39 then w track * 29 + w sector + offset
         else if track < 53 then 39 * 29 + (w track - 39) * 27 + w sector + offset
         else if track < 64 then 39 * 29 + 14 * 27 + (w track - 53) * 25 + w sector + offset
         else 39 * 29 + 14 * 27 + 11 * 25 + (w track - 64) + w sector + offset)
      else
        (let (offset, track) = (if track \<ge> 35 then (683, track - 35) else (0, track)) in
         if track < 17 then w track * 21 + w sector + offset
         else if track < 24 then 17 * 21 + (w track - 17) * 19 + w sector + offset
         else if track < 30 then 17 * 21 + 7 * 19 + (w track - 24) * 18 + w sector + offset
         else 17 * 21 + 7 * 19 + 6 * 18 + (w track - 30) * 17 + w sector + offset))"

definition sector_lba :: "u8 \<Rightarrow> u8 \<Rightarrow> u8 \<Rightarrow> 'a fw_scheme \<Rightarrow> u16" where
  "sector_lba p track sector s = lba_of (imagetype p s AND D64_TYPE_MASK) track sector"

definition sector_offset :: "u8 \<Rightarrow> u8 \<Rightarrow> u8 \<Rightarrow> 'a fw_scheme \<Rightarrow> u32" where
  "sector_offset p track sector s = 256 * ucast (sector_lba p track sector s)"

definition spt_of :: "u8 \<Rightarrow> u8 \<Rightarrow> u16" where
  "spt_of ty track =
     (if ty = D64_TYPE_D81 then 40
      else if ty = D64_TYPE_DNP then 256
      else if ty = D64_TYPE_D80 \<or> ty = D64_TYPE_D82 then
        (let track = (if track > 77 then track - 77 else track) in
         if track < 40 then 29 else if track < 54 then 27 else if track < 65 then 25 else 23)
      else
        (let track = (if track > 35 then track - 35 else track) in
         if track < 18 then 21 else if track < 25 then 19 else if track < 31 then 18 else 17))"

definition sectors_per_track :: "u8 \<Rightarrow> u8 \<Rightarrow> 'a fw_scheme \<Rightarrow> u16" where
  "sectors_per_track p track s = spt_of (imagetype p s AND D64_TYPE_MASK) track"

definition bad_ts :: "u8 \<Rightarrow> u8 \<Rightarrow> u8 \<Rightarrow> 'a fw_scheme \<Rightarrow> bool" where
  "bad_ts p track sector s \<longleftrightarrow>
     track < 1 \<or> track > get_param p LAST_TRACK s \<or> w sector \<ge> sectors_per_track p track s"

section \<open>Checked reads\<close>

definition error_offset :: "u8 \<Rightarrow> u32 option" where
  "error_offset ty =
     (if ty = D64_TYPE_D41 then Some D41_ERROR_OFFSET
      else if ty = D64_TYPE_D71 then Some D71_ERROR_OFFSET
      else if ty = D64_TYPE_D81 then Some D81_ERROR_OFFSET
      else if ty = D64_TYPE_D80 then Some D80_ERROR_OFFSET
      else if ty = D64_TYPE_D82 then Some D82_ERROR_OFFSET
      else None)"

text \<open>The error information of a track is loaded into the cache; true is a failure.\<close>

definition load_errors :: "u8 \<Rightarrow> u8 \<Rightarrow> 'a fw_scheme \<Rightarrow> (bool \<times> 'a fw_scheme) option" where
  "load_errors p track s =
     (if ec_part s = p \<and> ec_track s = track then Some (False, s)
      else
        (let s = s\<lparr>ec_errors := replicate MAX_SECTORS_PER_TRACK 1\<rparr> in
         case error_offset (imagetype p s AND D64_TYPE_MASK) of
           None \<Rightarrow> Some (True, s)
         | Some ofs \<Rightarrow> do {
             (res, xs, s) \<leftarrow> image_read p (ofs + ucast (sector_lba p track 0 s))
                               (unat (sectors_per_track p track s)) s;
             let s = s\<lparr>ec_errors := put_at 0 xs (ec_errors s)\<rparr>;
             Some (if res \<ge> 2 then (True, s) else (False, s\<lparr>ec_part := p, ec_track := track\<rparr>)) }))"

definition checked_read ::
  "u8 \<Rightarrow> u8 \<Rightarrow> u8 \<Rightarrow> nat \<Rightarrow> u8 \<Rightarrow> 'a fw_scheme \<Rightarrow> (u8 \<times> u8 list \<times> 'a fw_scheme) option" where
  "checked_read p track sector len error s =
     (if bad_ts p track sector s then do { s \<leftarrow> set_error_ts error track sector s; Some (2, [], s) }
      else do {
        (failed, s) \<leftarrow> (if imagetype p s AND D64_HAS_ERRORINFO \<noteq> 0 then
            do {
              (bad, s) \<leftarrow> load_errors p track s;
              let e = ec_errors s ! unat sector;
              (if bad then Some (True, s)
               else if 2 \<le> e \<and> e \<le> 11 then
                 do { s \<leftarrow> set_error_ts (e - 2 + 20) track sector s; Some (True, s) }
               else if e = 15 then do { s \<leftarrow> set_error 74 s; Some (True, s) }
               else Some (False, s)) }
          else Some (False, s));
        (if failed then Some (2, [], s)
         else image_read p (sector_offset p track sector s) len s) })"

section \<open>Directory entries\<close>

definition update_timestamp :: "u8 list \<Rightarrow> 'a fw_scheme \<Rightarrow> u8 list" where
  "update_timestamp b s =
     (let t = rtc s in
      b[DIR_OFS_YEAR := tm_year t mod 100, DIR_OFS_MONTH := tm_mon t + 1, DIR_OFS_DAY := tm_mday t,
        DIR_OFS_HOUR := tm_hour t, DIR_OFS_MINUTE := tm_min t])"

definition entry_offset :: "u8 \<Rightarrow> d64dh \<Rightarrow> 'a fw_scheme \<Rightarrow> u32" where
  "entry_offset p dh s = sector_offset p (dd_track dh) (dd_sector dh) s + ucast (dd_entry dh) * 32"

text \<open>Both work on the scratch area, the only buffer they are called with.\<close>

definition write_entry :: "u8 \<Rightarrow> d64dh \<Rightarrow> bool \<Rightarrow> 'a fw_scheme \<Rightarrow> (u8 \<times> 'a fw_scheme) option" where
  "write_entry p dh flush s = image_write p (entry_offset p dh s) (take 32 (ops_scratch s)) flush s"

definition read_entry :: "u8 \<Rightarrow> d64dh \<Rightarrow> 'a fw_scheme \<Rightarrow> (u8 \<times> 'a fw_scheme) option" where
  "read_entry p dh s = do {
     (res, xs, s) \<leftarrow> image_read p (entry_offset p dh s) 32 s;
     Some (res, s\<lparr>ops_scratch := put_at 0 xs (ops_scratch s)\<rparr>) }"

definition strnsubst :: "u8 list \<Rightarrow> u8 \<Rightarrow> u8 \<Rightarrow> u8 \<Rightarrow> u8 list" where
  "strnsubst b len oldchar newchar =
     (let n = unat (len - 1) + 1 in map (\<lambda>c. if c = oldchar then newchar else c) (take n b) @ drop n b)"

definition clear_dir_sector :: "u8 \<Rightarrow> u8 \<Rightarrow> u8 \<Rightarrow> nat \<Rightarrow> 'a fw_scheme \<Rightarrow> (u8 \<times> 'a fw_scheme) option" where
  "clear_dir_sector p t sec i s =
     (let s = upd_buf i (\<lambda>b. b\<lparr>b_data := (replicate 256 0)[1 := 0xff]\<rparr>) s in
      image_write p (sector_offset p t sec s) (b_data (buf i s)) False s)"

section \<open>BAM buffers\<close>

definition bam_buffer_flush :: "nat \<Rightarrow> 'a fw_scheme \<Rightarrow> (u8 \<times> 'a fw_scheme) option" where
  "bam_buffer_flush i s =
     (let b = buf i s; v = b_bam b in
      if b_mustflush b \<and> bam_part v < max_part s then do {
        (res, s) \<leftarrow> image_write (bam_part v) (sector_offset (bam_part v) (bam_track v) (bam_sector v) s)
                      (b_data b) True s;
        Some (res, upd_buf i (\<lambda>b. b\<lparr>b_mustflush := False\<rparr>) s) }
      else Some (0, s))"

text \<open>The cleanup callback of a BAM buffer, which is one of these two.\<close>

definition bam_cleanup :: "nat \<Rightarrow> 'a fw_scheme \<Rightarrow> (u8 \<times> 'a fw_scheme) option" where
  "bam_cleanup i s =
     (case b_cleanup (buf i s) of
        Cleanup_bam_buffer_flush \<Rightarrow> bam_buffer_flush i s
      | Cleanup_dummy \<Rightarrow> callback_dummy i s
      | _ \<Rightarrow> None)"

definition d64_bam_commit :: "'a fw_scheme \<Rightarrow> (u8 \<times> 'a fw_scheme) option" where
  "d64_bam_commit s = do {
     s \<leftarrow> (case bam_buffer s of None \<Rightarrow> Some s | Some i \<Rightarrow> do { (_, s) \<leftarrow> bam_cleanup i s; Some s });
     s \<leftarrow> (case bam_buffer2 s of None \<Rightarrow> Some s | Some i \<Rightarrow> do { (_, s) \<leftarrow> bam_cleanup i s; Some s });
     Some (0, s) }"

text \<open>The buffer pointer that the C code stores through its argument is the second component.\<close>

definition bam_buffer_alloc :: "'a fw_scheme \<Rightarrow> (u8 \<times> nat option \<times> 'a fw_scheme) option" where
  "bam_buffer_alloc s = do {
     (bp, s) \<leftarrow> alloc_system_buffer s;
     (case bp of
        None \<Rightarrow> Some (1, None, s)
      | Some i \<Rightarrow> Some (0, Some i,
          stick_buffer i (upd_buf i (\<lambda>b. b\<lparr>b_secondary := BUFFER_SYS_BAM, b_bam := (b_bam b)\<lparr>bam_part := 255\<rparr>,
            b_cleanup := Cleanup_bam_buffer_flush\<rparr>) s))) }"

definition bam_buffer_swap :: "'a fw_scheme \<Rightarrow> 'a fw_scheme" where
  "bam_buffer_swap s = s\<lparr>bam_buffer := bam_buffer2 s, bam_buffer2 := bam_buffer s\<rparr>"

definition bam_buffer_match :: "nat \<Rightarrow> u8 \<Rightarrow> u8 \<Rightarrow> u8 \<Rightarrow> 'a fw_scheme \<Rightarrow> bool" where
  "bam_buffer_match i p track sector s \<longleftrightarrow>
     (let v = b_bam (buf i s) in bam_part v = p \<and> bam_track v = track \<and> bam_sector v = sector)"

datatype bamdata_t = BAM_BITFIELD | BAM_FREECOUNT

text \<open>The D80/D82 loop over BAM sectors: the sector, and the track counted inside it.\<close>

function d80_bam_loop :: "u8 \<Rightarrow> u8 \<Rightarrow> u8 \<times> u8" where
  "d80_bam_loop track sec =
     (if track > 50 then d80_bam_loop (track - 50) (sec + D80_BAM_INTERLEAVE) else (track, sec))"
  by pat_completeness auto

termination
  by (relation "measure (\<lambda>(t, _). unat t)") (simp_all add: word_less_nat_alt unat_sub word_le_nat_alt)

declare d80_bam_loop.simps [simp del]

definition bam_position :: "u8 \<Rightarrow> u8 \<Rightarrow> bamdata_t \<Rightarrow> u8 \<times> u8 \<times> u8" where
  "bam_position ty track type =
     (let bit = (if type = BAM_BITFIELD then 1 else 0) in
      if ty = D64_TYPE_D71 then
        if track > 35 \<and> type = BAM_BITFIELD
        then (D71_BAM2_TRACK, D71_BAM2_SECTOR, (track - 36) * D71_BAM2_BYTES_PER_TRACK)
        else (D41_BAM_TRACK, D41_BAM_SECTOR,
              if track > 35 then (track - 36) + D71_BAM_COUNTER2OFFSET
              else D41_BAM_BYTES_PER_TRACK * track + bit)
      else if ty = D64_TYPE_D81 then
        (D81_BAM_TRACK, if track < 41 then D81_BAM_SECTOR1 else D81_BAM_SECTOR2,
         D81_BAM_OFFSET + (if track > 40 then track - 40 else track) * D81_BAM_BYTES_PER_TRACK + bit)
      else if ty = D64_TYPE_DNP then
        (DNP_BAM_TRACK, DNP_BAM_SECTOR + drop_bit 3 track, (track AND 0x07) * 32)
      else if ty = D64_TYPE_D80 \<or> ty = D64_TYPE_D82 then
        (let (track, sec) = d80_bam_loop track D80_BAM_SECTOR in
         (D80_BAM_TRACK, sec, 1 + D80_BAM_BYTES_PER_TRACK * track + bit))
      else (D41_BAM_TRACK, D41_BAM_SECTOR, D41_BAM_BYTES_PER_TRACK * track + bit))"

text \<open>Choosing the buffer for a BAM sector that is not in the first one; true when it is found there.\<close>

definition bam_switch :: "nat \<Rightarrow> u8 \<Rightarrow> u8 \<Rightarrow> u8 \<Rightarrow> 'a fw_scheme \<Rightarrow> (bool \<times> nat \<times> 'a fw_scheme) option" where
  "bam_switch i p t sec s =
     (case bam_buffer2 s of
        Some j \<Rightarrow> (let s = bam_buffer_swap s in Some (bam_buffer_match j p t sec s, j, s))
      | None \<Rightarrow>
          if bam_part (b_bam (buf i s)) \<noteq> 255 then do {
            (res, bp, s) \<leftarrow> bam_buffer_alloc s;
            let s = s\<lparr>bam_buffer2 := bp\<rparr>;
            (case bp of
               None \<Rightarrow> do { s \<leftarrow> set_error ERROR_OK s; Some (False, i, s) }
             | Some j \<Rightarrow> Some (False, j, bam_buffer_swap s)) }
          else Some (False, i, s))"

text \<open>
  On success the pointer of the C code points at the given position in the data of the buffer
  \<open>bam_buffer\<close>.
\<close>

definition move_bam_window ::
  "u8 \<Rightarrow> u8 \<Rightarrow> bamdata_t \<Rightarrow> 'a fw_scheme \<Rightarrow> (u8 \<times> nat \<times> 'a fw_scheme) option" where
  "move_bam_window p track type s =
     (let (t, sec, pos) = bam_position (imagetype p s AND D64_TYPE_MASK) track type in
      case bam_buffer s of
        None \<Rightarrow> None
      | Some i \<Rightarrow>
          if bam_buffer_match i p t sec s then Some (0, unat pos, s)
          else do {
            (found, i, s) \<leftarrow> bam_switch i p t sec s;
            (if found then Some (0, unat pos, s)
             else do {
               (res, s) \<leftarrow> bam_cleanup i s;
               (if res \<noteq> 0 then Some (1, 0, s)
                else do {
                  (res, xs, s) \<leftarrow> image_read p (sector_offset p t sec s) 256 s;
                  let s = upd_buf i (\<lambda>b. b\<lparr>b_data := put_at 0 xs (b_data b)\<rparr>) s;
                  (if res \<noteq> 0 then Some (res, 0, s)
                   else Some (0, unat pos,
                     upd_buf i (\<lambda>b. b\<lparr>b_bam := \<lparr>bam_part = p, bam_track = t, bam_sector = sec\<rparr>\<rparr>) s)) }) }) })"

section \<open>Sectors\<close>

text \<open>Reading and changing a byte of the BAM buffer relative to the pointer.\<close>

definition bam_byte :: "nat \<Rightarrow> 'a fw_scheme \<Rightarrow> u8 option" where
  "bam_byte k s =
     (case bam_buffer s of
        None \<Rightarrow> None
      | Some i \<Rightarrow> if k < length (b_data (buf i s)) then Some (b_data (buf i s) ! k) else None)"

definition bam_modify :: "nat \<Rightarrow> (u8 \<Rightarrow> u8) \<Rightarrow> 'a fw_scheme \<Rightarrow> 'a fw_scheme option" where
  "bam_modify k f s =
     (case bam_buffer s of
        None \<Rightarrow> None
      | Some i \<Rightarrow>
          if k < length (b_data (buf i s))
          then Some (upd_buf i (\<lambda>b. b\<lparr>b_data := (b_data b)[k := f (b_data b ! k)], b_mustflush := True\<rparr>) s)
          else None)"

definition bam_mask :: "u8 \<Rightarrow> u8 \<Rightarrow> u8" where
  "bam_mask ty sector =
     (if ty = D64_TYPE_DNP then drop_bit (unat (sector AND 7)) 0x80 else push_bit (unat (sector AND 7)) 1)"

definition is_free :: "u8 \<Rightarrow> u8 \<Rightarrow> u8 \<Rightarrow> 'a fw_scheme \<Rightarrow> (int \<times> 'a fw_scheme) option" where
  "is_free p track sector s = do {
     (res, pos, s) \<leftarrow> move_bam_window p track BAM_BITFIELD s;
     (if res \<noteq> 0 then Some (-1, s)
      else do {
        b \<leftarrow> bam_byte (pos + unat (drop_bit 3 sector)) s;
        Some (if b AND bam_mask (imagetype p s) sector \<noteq> 0 then 1 else 0, s) }) }"

definition count_bits :: "u8 \<Rightarrow> u8" where
  "count_bits x =
     (let b = (x AND 0x55) + (drop_bit 1 x AND 0x55);
          b = (b AND 0x33) + (drop_bit 2 b AND 0x33)
      in (b AND 0x0f) + (drop_bit 4 b AND 0x0f))"

definition sectors_free :: "u8 \<Rightarrow> u8 \<Rightarrow> 'a fw_scheme \<Rightarrow> (u16 \<times> 'a fw_scheme) option" where
  "sectors_free p track s =
     (if track < 1 \<or> track > get_param p LAST_TRACK s then Some (0, s)
      else do {
        (res, pos, s) \<leftarrow> move_bam_window p track BAM_FREECOUNT s;
        (if res \<noteq> 0 then Some (0, s)
         else if imagetype p s AND D64_TYPE_MASK = D64_TYPE_DNP then
           (case bam_buffer s of
              None \<Rightarrow> None
            | Some i \<Rightarrow>
                if pos + DNP_BAM_BYTES_PER_TRACK \<le> length (b_data (buf i s))
                then Some (sum_list (map (\<lambda>b. w (count_bits b))
                             (take DNP_BAM_BYTES_PER_TRACK (drop pos (b_data (buf i s))))), s)
                else None)
         else do { b \<leftarrow> bam_byte pos s; Some (w b, s) }) })"

definition allocate_sector :: "u8 \<Rightarrow> u8 \<Rightarrow> u8 \<Rightarrow> 'a fw_scheme \<Rightarrow> (u8 \<times> 'a fw_scheme) option" where
  "allocate_sector p track sector s = do {
     (res, s) \<leftarrow> is_free p track sector s;
     (if res < 0 then Some (1, s)
      else if res \<noteq> 0 then do {
        (res, pos, s) \<leftarrow> move_bam_window p track BAM_BITFIELD s;
        (if res \<noteq> 0 then Some (1, s)
         else do {
           s \<leftarrow> bam_modify (pos + unat (drop_bit 3 sector)) (\<lambda>b. b AND NOT (bam_mask (imagetype p s) sector)) s;
           (if imagetype p s = D64_TYPE_DNP then Some (0, s)
            else do {
              (res, pos, s) \<leftarrow> move_bam_window p track BAM_FREECOUNT s;
              (if res \<noteq> 0 then Some (1, s)
               else do {
                 b \<leftarrow> bam_byte pos s;
                 (if b > 0 then do { s \<leftarrow> bam_modify pos (\<lambda>b. b - 1) s; Some (0, s) }
                  else Some (0, s)) }) }) }) }
      else Some (0, s)) }"

definition free_sector :: "u8 \<Rightarrow> u8 \<Rightarrow> u8 \<Rightarrow> 'a fw_scheme \<Rightarrow> (u8 \<times> 'a fw_scheme) option" where
  "free_sector p track sector s = do {
     (res, s) \<leftarrow> is_free p track sector s;
     (if res < 0 then Some (1, s)
      else if res = 0 then do {
        (res, pos, s) \<leftarrow> move_bam_window p track BAM_BITFIELD s;
        (if res \<noteq> 0 then Some (1, s)
         else do {
           s \<leftarrow> bam_modify (pos + unat (drop_bit 3 sector)) (\<lambda>b. b OR bam_mask (imagetype p s) sector) s;
           (if imagetype p s = D64_TYPE_DNP then Some (0, s)
            else do {
              (res, pos, s) \<leftarrow> move_bam_window p track BAM_FREECOUNT s;
              (if res \<noteq> 0 then Some (1, s)
               else do {
                 b \<leftarrow> bam_byte pos s;
                 (if w b < sectors_per_track p track s
                  then do { s \<leftarrow> bam_modify pos (\<lambda>b. b + 1) s; Some (0, s) }
                  else Some (0, s)) }) }) }) }
      else Some (0, s)) }"

end
