(* ===== verification/D64_File.thy ===== *)
theory D64_File
  imports D64
begin

text \<open>
  Files and directories in disk images, the second part of \<^verbatim>\<open>src/src/d64ops.c\<close>: the choice of
  the next sector, directory traversal, the buffer callbacks, and the file operations of
  \<open>d64ops\<close>.  A loop over data on the medium that may be cyclic is a \<open>partial_function\<close>: \<open>None\<close> is
  also a loop that never ends.
\<close>

section \<open>The choice of sectors\<close>

text \<open>
  The pointer arguments \<open>track\<close> and \<open>sector\<close> of the C functions are values that come back with
  the result; \<open>distance\<close> is a signed byte.
\<close>

partial_function (option) dnp_first_track :: "u8 \<Rightarrow> u8 \<Rightarrow> 'a fw_scheme \<Rightarrow> (u8 option \<times> 'a fw_scheme) option" where
  "dnp_first_track p track s = do {
     (n, s) \<leftarrow> sectors_free p track s;
     (if n \<noteq> 0 then Some (Some track, s)
      else (let track = track + 1;
                track = (if track = get_param p LAST_TRACK s \<or> track = 0 then 1 else track) in
            if track = 2 then Some (None, s) else dnp_first_track p track s)) }"

partial_function (option) first_track_loop ::
  "u8 \<Rightarrow> 8 word \<Rightarrow> 'a fw_scheme \<Rightarrow> (8 word \<times> 'a fw_scheme) option" where
  "first_track_loop p distance s =
     (if sint distance < int (unat (get_param p LAST_TRACK s)) then do {
        (n, s) \<leftarrow> sectors_free p (get_param p DIR_TRACK s - distance) s;
        (if n \<noteq> 0 then Some (distance, s)
         else (let distance = - distance in
               first_track_loop p (if 0 < sint distance then distance + 1 else distance) s)) }
      else Some (distance, s))"

definition disk_full :: "'a fw_scheme \<Rightarrow> 'a fw_scheme option" where
  "disk_full s = (if current_error s = ERROR_OK then set_error ERROR_DISK_FULL s else Some s)"

text \<open>
  The search on the track that was chosen.  On a track with 256 sectors the 8 bit counter
  of the C loop starts again at sector 0.
\<close>

partial_function (option) first_free_sector ::
  "u8 \<Rightarrow> u8 \<Rightarrow> u8 \<Rightarrow> 'a fw_scheme \<Rightarrow> (u8 option \<times> 'a fw_scheme) option" where
  "first_free_sector p track sector s =
     (if w sector < sectors_per_track p track s then do {
        (f, s) \<leftarrow> is_free p track sector s;
        (if f > 0 then Some (Some sector, s) else first_free_sector p track (sector + 1) s) }
      else Some (None, s))"

definition first_sector_on :: "u8 \<Rightarrow> u8 \<Rightarrow> 'a fw_scheme \<Rightarrow> (u8 \<times> u8 \<times> u8 \<times> 'a fw_scheme) option" where
  "first_sector_on p track s = do {
     (r, s) \<leftarrow> first_free_sector p track 0 s;
     (case r of
        Some sec \<Rightarrow> Some (0, track, sec, s)
      | None \<Rightarrow> do { s \<leftarrow> disk_full s; Some (1, track, 0, s) }) }"

text \<open>The result, the track and the sector; a failure leaves the latter two meaningless.\<close>

definition get_first_sector :: "u8 \<Rightarrow> 'a fw_scheme \<Rightarrow> (u8 \<times> u8 \<times> u8 \<times> 'a fw_scheme) option" where
  "get_first_sector p s =
     (if imagetype p s = D64_TYPE_DNP then do {
        (r, s) \<leftarrow> dnp_first_track p 2 s;
        (case r of None \<Rightarrow> Some (1, 2, 0, s) | Some track \<Rightarrow> first_sector_on p track s) }
      else do {
        (distance, s) \<leftarrow> first_track_loop p 1 s;
        (if sint distance = int (unat (get_param p LAST_TRACK s))
         then do { s \<leftarrow> disk_full s; Some (1, 0, 0, s) }
         else first_sector_on p (get_param p DIR_TRACK s - distance) s) })"

partial_function (option) dnp_next_track ::
  "u8 \<Rightarrow> u8 \<Rightarrow> u8 \<Rightarrow> 'a fw_scheme \<Rightarrow> (u8 option \<times> 'a fw_scheme) option" where
  "dnp_next_track p start newtrack s = do {
     (n, s) \<leftarrow> sectors_free p newtrack s;
     (if n \<noteq> 0 then Some (Some newtrack, s)
      else (let newtrack = newtrack + 1;
                newtrack = (if newtrack = get_param p LAST_TRACK s \<or> newtrack = 0 then 1 else newtrack) in
            if newtrack = start then Some (None, s) else dnp_next_track p start newtrack s)) }"

partial_function (option) dnp_next_sector :: "u8 \<Rightarrow> u8 \<Rightarrow> u8 \<Rightarrow> 'a fw_scheme \<Rightarrow> (u8 \<times> 'a fw_scheme) option" where
  "dnp_next_sector p track newsector s = do {
     (f, s) \<leftarrow> is_free p track newsector s;
     (if f = 0 then dnp_next_sector p track (newsector + 1) s else Some (newsector, s)) }"

text \<open>One step to a neighbouring track: the new track, sector and number of turns.\<close>

definition step_track :: "u8 \<Rightarrow> u8 \<Rightarrow> u8 \<Rightarrow> u8 \<Rightarrow> 'a fw_scheme \<Rightarrow> u8 \<times> u8 \<times> u8" where
  "step_track p track sector tries s =
     (let track = (if track < get_param p DIR_TRACK s then track - 1
                   else (let track = track + 1 in
                         if imagetype p s AND D64_TYPE_MASK = D64_TYPE_D71 \<and> track = D71_BAM2_TRACK
                         then track + 1 else track));
          (track, sector, tries) = (if track < 1 then (get_param p DIR_TRACK s + 1, 0, tries + 1)
                                    else (track, sector, tries))
      in if track > get_param p LAST_TRACK s then (get_param p DIR_TRACK s - 1, 0, tries + 1)
         else (track, sector, tries))"

partial_function (option) next_track_loop ::
  "u8 \<Rightarrow> u8 \<Rightarrow> u8 \<Rightarrow> u8 \<Rightarrow> 'a fw_scheme \<Rightarrow> (u8 \<times> u8 \<times> u8 \<times> 'a fw_scheme) option" where
  "next_track_loop p track sector tries s =
     (if tries < 3 then do {
        (n, s) \<leftarrow> sectors_free p track s;
        (if n = 0 then (let (track, sector, tries) = step_track p track sector tries s in
                        next_track_loop p track sector tries s)
         else Some (track, sector, tries, s)) }
      else Some (track, sector, tries, s))"

text \<open>
  The search at growing distance, with the C code's \<^verbatim>\<open>tries--\<close> in the loop condition: \<open>tries\<close> is
  decremented after it has been tested, also when it is zero.
\<close>

fun next_sector_loop :: "nat \<Rightarrow> u8 \<Rightarrow> u8 \<Rightarrow> u8 \<Rightarrow> 'a fw_scheme \<Rightarrow> (u8 \<times> u8 \<times> 'a fw_scheme) option" where
  "next_sector_loop tries p track sector s = do {
     (f, s) \<leftarrow> is_free p track sector s;
     (if 0 < f then Some (of_nat tries, sector, s)
      else if tries = 0 then Some (of_nat tries - 1, sector, s)
      else (let sector = sector + 1;
                sector = (if w sector \<ge> sectors_per_track p track s then 0 else sector) in
            next_sector_loop (tries - 1) p track sector s)) }"

declare next_sector_loop.simps [simp del]

definition interleave_sector :: "u8 \<Rightarrow> u8 \<Rightarrow> u8 \<Rightarrow> u8 \<Rightarrow> 'a fw_scheme \<Rightarrow> u8" where
  "interleave_sector p track sector interleave s =
     (let sector = sector + interleave in
      if w sector \<ge> sectors_per_track p track s
      then (let sector = ucast (w sector - sectors_per_track p track s) in
            if sector \<noteq> 0 then sector - 1 else sector)
      else sector)"

definition next_dnp :: "u8 \<Rightarrow> u8 \<Rightarrow> u8 \<Rightarrow> 'a fw_scheme \<Rightarrow> (u8 \<times> u8 \<times> u8 \<times> 'a fw_scheme) option" where
  "next_dnp p track sector s = do {
     (r, s) \<leftarrow> dnp_next_track p track track s;
     (case r of
        None \<Rightarrow> Some (1, track, sector, s)
      | Some newtrack \<Rightarrow> do {
          (newsector, s) \<leftarrow> dnp_next_sector p newtrack (if newtrack = track then sector else 0) s;
          Some (0, newtrack, newsector, s) }) }"

definition get_next_sector :: "u8 \<Rightarrow> u8 \<Rightarrow> u8 \<Rightarrow> 'a fw_scheme \<Rightarrow> (u8 \<times> u8 \<times> u8 \<times> 'a fw_scheme) option" where
  "get_next_sector p track sector s =
     (if imagetype p s = D64_TYPE_DNP then next_dnp p track sector s
      else do {
        (full, s) \<leftarrow> (if track = get_param p DIR_TRACK s
           then do { (n, s) \<leftarrow> sectors_free p (get_param p DIR_TRACK s) s; Some (n = 0, s) }
           else Some (False, s));
        (if full then do { s \<leftarrow> disk_full s; Some (1, track, sector, s) }
         else do {
           let interleave = get_param p (if track = get_param p DIR_TRACK s then DIR_INTERLEAVE else FILE_INTERLEAVE) s;
           (track, sector, tries, s) \<leftarrow> next_track_loop p track sector 0 s;
           (if tries = 3 then do { s \<leftarrow> disk_full s; Some (1, track, sector, s) }
            else do {
              (tries, sector, s) \<leftarrow> next_sector_loop 99 p track (interleave_sector p track sector interleave s) s;
              (if tries \<noteq> 0 then Some (0, track, sector, s)
               else do { s \<leftarrow> disk_full s; Some (1, track, sector, s) }) }) }) })"

section \<open>Directories\<close>

definition nextdirentry :: "dh_t \<Rightarrow> 'a fw_scheme \<Rightarrow> (int \<times> dh_t \<times> 'a fw_scheme) option" where
  "nextdirentry dh s = do {
     (r, dh, s) \<leftarrow> (if dd_entry (dh_d64 dh) = 8 then do {
           (res, xs, s) \<leftarrow> checked_read (dh_part dh) (dd_track (dh_d64 dh)) (dd_sector (dh_d64 dh)) 2
                              ERROR_ILLEGAL_TS_LINK s;
           let s = s\<lparr>ops_scratch := put_at 0 xs (ops_scratch s)\<rparr>;
           Some (if res \<noteq> 0 then (1, dh, s)
                 else if ops_scratch s ! 0 = 0 then (-1, dh, s)
                 else (0, dh\<lparr>dh_d64 := \<lparr>dd_track = ops_scratch s ! 0, dd_sector = ops_scratch s ! 1,
                                       dd_entry = 0\<rparr>\<rparr>, s)) }
         else Some (0, dh, s));
     (if r \<noteq> 0 then Some (r, dh, s)
      else if bad_ts (dh_part dh) (dd_track (dh_d64 dh)) (dd_sector (dh_d64 dh)) s then do {
        s \<leftarrow> set_error_ts ERROR_ILLEGAL_TS_LINK (dd_track (dh_d64 dh)) (dd_sector (dh_d64 dh)) s;
        Some (1, dh, s) }
      else do {
        (res, s) \<leftarrow> read_entry (dh_part dh) (dh_d64 dh) s;
        Some (if res \<noteq> 0 then (1, dh, s)
              else (0, dh\<lparr>dh_d64 := (dh_d64 dh)\<lparr>dd_entry := dd_entry (dh_d64 dh) + 1\<rparr>\<rparr>, s)) }) }"

definition d64_opendir :: "path_t \<Rightarrow> 'a fw_scheme \<Rightarrow> (u8 \<times> dh_t \<times> 'a fw_scheme) option" where
  "d64_opendir path s =
     (let p = path_part path;
          dh = \<lparr>dh_part = p, dh_fat = fatdir_zero, dh_d64 = \<lparr>dd_track = dxx_track (path_dir path),
                dd_sector = dxx_sector (path_dir path), dd_entry = 0\<rparr>, dh_eefs = 0\<rparr> in
      if imagetype p s = D64_TYPE_DNP then do {
        (res, xs, s) \<leftarrow> image_read p (sector_offset p (dd_track (dh_d64 dh)) (dd_sector (dh_d64 dh)) s) 2 s;
        Some (if res \<noteq> 0 then (1, dh, s)
              else (0, dh\<lparr>dh_d64 := (dh_d64 dh)\<lparr>dd_track := xs ! 0, dd_sector := xs ! 1\<rparr>\<rparr>, s)) }
      else Some (0, dh, s))"

partial_function (option) empty_entry_loop :: "dh_t \<Rightarrow> 'a fw_scheme \<Rightarrow> (int \<times> dh_t \<times> 'a fw_scheme) option" where
  "empty_entry_loop dh s = do {
     (res, dh, s) \<leftarrow> nextdirentry dh s;
     (if res = 0 \<and> ops_scratch s ! DIR_OFS_FILE_TYPE \<noteq> 0 then empty_entry_loop dh s
      else Some (res, dh, s)) }"

text \<open>
  The block count of a DNP subdirectory in its parent: the 16 bit increment of the two
  bytes, low byte first; true is a failure.
\<close>

definition bump_parent_blocks :: "path_t \<Rightarrow> 'a fw_scheme \<Rightarrow> (bool \<times> 'a fw_scheme) option" where
  "bump_parent_blocks path s =
     (let p = path_part path in do {
        (res, xs, s) \<leftarrow> image_read p (DNP_DIRHEADER_PARENTENTRY_TRACK +
             sector_offset p (dxx_track (path_dir path)) (dxx_sector (path_dir path)) s) 3 s;
        let s = s\<lparr>ops_scratch := put_at 0 xs (ops_scratch s)\<rparr>;
        (if res \<noteq> 0 then Some (True, s)
         else if ops_scratch s ! 0 = 0 then Some (False, s)
         else do {
           let ofs = sector_offset p (ops_scratch s ! 0) (ops_scratch s ! 1) s +
                       ucast (ops_scratch s ! 2) + of_nat DIR_OFS_SIZE_LOW - 2;
           (res, xs, s) \<leftarrow> image_read p ofs 2 s;
           let s = s\<lparr>ops_scratch := put_at 3 xs (ops_scratch s)\<rparr>;
           (if res \<noteq> 0 then Some (True, s)
            else do {
              let n = w (ops_scratch s ! 3) + 256 * w (ops_scratch s ! 4) + 1;
              let s = s\<lparr>ops_scratch := (ops_scratch s)[3 := ucast n, 4 := ucast (drop_bit 8 n)]\<rparr>;
              (res, s) \<leftarrow> image_write p ofs (take 2 (drop 3 (ops_scratch s))) True s;
              Some (res \<noteq> 0, s) }) }) })"

fun clear_entries :: "u8 \<Rightarrow> nat list \<Rightarrow> dh_t \<Rightarrow> 'a fw_scheme \<Rightarrow> (bool \<times> dh_t \<times> 'a fw_scheme) option" where
  "clear_entries p [] dh s = Some (False, dh, s)"
| "clear_entries p (i # is) dh s = do {
     let dh = dh\<lparr>dh_d64 := (dh_d64 dh)\<lparr>dd_entry := of_nat i\<rparr>\<rparr>;
     (res, s) \<leftarrow> write_entry p (dh_d64 dh) False s;
     (if res \<noteq> 0 then Some (True, dh, s)
      else clear_entries p is dh (s\<lparr>ops_scratch := (ops_scratch s)[1 := 0]\<rparr>)) }"

definition new_dir_sector :: "path_t \<Rightarrow> dh_t \<Rightarrow> 'a fw_scheme \<Rightarrow> (u8 \<times> dh_t \<times> 'a fw_scheme) option" where
  "new_dir_sector path dh s =
     (let p = path_part path; t = dd_track (dh_d64 dh); sec = dd_sector (dh_d64 dh) in do {
        (res, nt, ns, s) \<leftarrow> get_next_sector p t sec s;
        let dh = dh\<lparr>dh_d64 := (dh_d64 dh)\<lparr>dd_track := nt, dd_sector := ns\<rparr>\<rparr>;
        (if res \<noteq> 0 then Some (1, dh, s)
         else do {
           let s = s\<lparr>ops_scratch := (ops_scratch s)[0 := nt, 1 := ns]\<rparr>;
           (res, s) \<leftarrow> image_write p (sector_offset p t sec s) (take 2 (ops_scratch s)) False s;
           (if res \<noteq> 0 then Some (1, dh, s)
            else do {
              (res, s) \<leftarrow> allocate_sector p nt ns s;
              (if res \<noteq> 0 then Some (1, dh, s)
               else do {
                 (failed, s) \<leftarrow> (if imagetype p s = D64_TYPE_DNP then bump_parent_blocks path s else Some (False, s));
                 (if failed then Some (1, dh, s)
                  else do {
                    let s = s\<lparr>ops_scratch := (put_at 0 (replicate 32 0) (ops_scratch s))[1 := 0xff]\<rparr>;
                    (failed, dh, s) \<leftarrow> clear_entries p [0..<8] dh s;
                    (if failed then Some (1, dh, s)
                     else Some (0, dh\<lparr>dh_d64 := (dh_d64 dh)\<lparr>dd_entry := 0\<rparr>\<rparr>,
                                s\<lparr>ops_scratch := (ops_scratch s)[1 := 0xff]\<rparr>)) }) }) }) }) })"

definition find_empty_entry :: "path_t \<Rightarrow> 'a fw_scheme \<Rightarrow> (u8 \<times> dh_t \<times> 'a fw_scheme) option" where
  "find_empty_entry path s = do {
     (_, dh, s) \<leftarrow> d64_opendir path s;
     (res, dh, s) \<leftarrow> empty_entry_loop dh s;
     (if res > 0 then Some (1, dh, s)
      else if res < 0 then new_dir_sector path dh s
      else Some (0, dh\<lparr>dh_d64 := (dh_d64 dh)\<lparr>dd_entry := dd_entry (dh_d64 dh) - 1\<rparr>\<rparr>, s)) }"

section \<open>Callbacks\<close>

definition d64_read :: "nat \<Rightarrow> 'a fw_scheme \<Rightarrow> (u8 \<times> 'a fw_scheme) option" where
  "d64_read i s =
     (let t = b_data (buf i s) ! 0; sec = b_data (buf i s) ! 1;
          s = upd_buf i (\<lambda>b. b\<lparr>b_d64 := (b_d64 b)\<lparr>df_track := t, df_sector := sec\<rparr>\<rparr>) s in do {
        (res, xs, s) \<leftarrow> checked_read (df_part (b_d64 (buf i s))) t sec 256 ERROR_ILLEGAL_TS_LINK s;
        let s = upd_buf i (\<lambda>b. b\<lparr>b_data := put_at 0 xs (b_data b)\<rparr>) s;
        (if res \<noteq> 0 then Some (1, free_buffer (Some i) s)
         else Some (0, upd_buf i (\<lambda>b.
                if b_data b ! 0 = 0 then b\<lparr>b_position := 2, b_lastused := b_data b ! 1, b_sendeoi := True\<rparr>
                else b\<lparr>b_position := 2, b_lastused := 255, b_sendeoi := False\<rparr>) s)) })"

definition d64_seek :: "nat \<Rightarrow> u32 \<Rightarrow> u8 \<Rightarrow> 'a fw_scheme \<Rightarrow> (u8 \<times> 'a fw_scheme) option" where
  "d64_seek i position index s = do { s \<leftarrow> set_error ERROR_SYNTAX_UNABLE s; Some (1, s) }"

text \<open>The part of \<open>d64_write\<close> from the label \<open>storedata\<close> on.\<close>

definition d64_storedata :: "nat \<Rightarrow> u8 \<Rightarrow> u8 \<Rightarrow> u8 \<Rightarrow> 'a fw_scheme \<Rightarrow> (u8 \<times> 'a fw_scheme) option" where
  "d64_storedata i t sec savederror s =
     (let v = b_d64 (buf i s) in do {
        (res, s) \<leftarrow> image_write (df_part v) (sector_offset (df_part v) (df_track v) (df_sector v) s)
                       (b_data (buf i s)) True s;
        (if res \<noteq> 0 then Some (1, free_buffer (Some i) s)
         else do {
           let s = upd_buf i (\<lambda>b. b\<lparr>b_d64 := (b_d64 b)\<lparr>df_track := t, df_sector := sec\<rparr>, b_position := 2,
                     b_lastused := 1, b_mustflush := False\<rparr>) s;
           let s = mark_buffer_clean i s;
           (if savederror \<noteq> 0 then do { s \<leftarrow> set_error savederror s; Some (1, free_buffer (Some i) s) }
            else Some (0, s)) }) })"

definition d64_write :: "nat \<Rightarrow> 'a fw_scheme \<Rightarrow> (u8 \<times> 'a fw_scheme) option" where
  "d64_write i s =
     (let v = b_d64 (buf i s);
          s = upd_buf i (\<lambda>b. b\<lparr>b_d64 := (b_d64 b)\<lparr>df_blocks := df_blocks (b_d64 b) + 1\<rparr>,
                b_data := (b_data b)[0 := 0, 1 := b_lastused b]\<rparr>) s in do {
        (res, t, sec, s) \<leftarrow> get_next_sector (df_part v) (df_track v) (df_sector v) s;
        (if res \<noteq> 0 then d64_storedata i 0 sec (current_error s) s
         else do {
           let s = upd_buf i (\<lambda>b. b\<lparr>b_data := (b_data b)[0 := t, 1 := sec]\<rparr>) s;
           (res, s) \<leftarrow> allocate_sector (df_part v) t sec s;
           (if res \<noteq> 0 then Some (1, free_buffer (Some i) s)
            else d64_storedata i t sec 0 s) }) })"

definition FLAG_SPLAT :: u8 where [simp]: "FLAG_SPLAT = 0x80"
definition FLAG_HIDDEN :: u8 where [simp]: "FLAG_HIDDEN = 0x20"
definition TYPE_MASK :: u8 where [simp]: "TYPE_MASK = 7"
definition TYPE_DIR :: u8 where [simp]: "TYPE_DIR = 6"

definition d64_write_cleanup :: "nat \<Rightarrow> 'a fw_scheme \<Rightarrow> (u8 \<times> 'a fw_scheme) option" where
  "d64_write_cleanup i s =
     (let s = upd_buf i (\<lambda>b. b\<lparr>b_data := (b_data b)[0 := 0, 1 := b_lastused b],
                b_d64 := (b_d64 b)\<lparr>df_blocks := df_blocks (b_d64 b) + 1\<rparr>\<rparr>) s;
          v = b_d64 (buf i s); p = df_part v in
      if df_track v = 0 then Some (1, s)
      else do {
        (res, s) \<leftarrow> image_write p (sector_offset p (df_track v) (df_sector v) s) (b_data (buf i s)) True s;
        (if res \<noteq> 0 then Some (1, s)
         else do {
           (res, s) \<leftarrow> read_entry p (df_dh v) s;
           (if res \<noteq> 0 then Some (1, s)
            else do {
              let e = ops_scratch s;
              let e = e[DIR_OFS_FILE_TYPE := (e ! DIR_OFS_FILE_TYPE) OR FLAG_SPLAT,
                        DIR_OFS_SIZE_LOW := ucast (df_blocks v), DIR_OFS_SIZE_HI := ucast (drop_bit 8 (df_blocks v))];
              let s = s\<lparr>ops_scratch := update_timestamp e s\<rparr>;
              (res, s) \<leftarrow> write_entry p (df_dh v) True s;
              (if res \<noteq> 0 then Some (1, s)
               else Some (0, free_buffer (Some i) (upd_buf i (\<lambda>b. b\<lparr>b_cleanup := Cleanup_dummy\<rparr>) s))) }) }) })"

end
