(* ===== verification/D64_Ops.thy ===== *)
theory D64_Ops
  imports D64_File Eefs_Ops
begin

text \<open>
  The file operations of \<^verbatim>\<open>src/src/d64ops.c\<close>: mounting, directories, labels, opening, deleting
  and renaming files, raw sectors, and the unmounting code of \<^verbatim>\<open>src/src/fatops.c\<close> that runs the
  cleanup callbacks of all buffers.
\<close>

section \<open>Cleanup callbacks\<close>

text \<open>
  The function behind a cleanup callback.  The callbacks of FAT files are not
  modelled.
\<close>

definition run_cleanup :: "cleanup_cb \<Rightarrow> nat \<Rightarrow> 'a fw_scheme \<Rightarrow> (u8 \<times> 'a fw_scheme) option" where
  "run_cleanup cb i s =
     (case cb of
        Cleanup_dummy \<Rightarrow> callback_dummy i s
      | Cleanup_bam_buffer_flush \<Rightarrow> bam_buffer_flush i s
      | Cleanup_d64_write \<Rightarrow> d64_write_cleanup i s
      | Cleanup_eefs_write \<Rightarrow> eefs_cleanup_write i s
      | Cleanup_largebuffer \<Rightarrow> largebuffer_cleanup i s
      | _ \<Rightarrow> None)"

section \<open>Mounting\<close>

definition d64_image_kind :: "u8 list \<Rightarrow> nat \<Rightarrow> (u8 \<times> param_s) option option" where
  "d64_image_kind name fsize =
     (if fsize = 174848 then Some (Some (D64_TYPE_D41, d41param))
      else if fsize = 175531 then Some (Some (D64_TYPE_D41 OR D64_HAS_ERRORINFO, d41param))
      else if fsize = 349696 then Some (Some (D64_TYPE_D71, d71param))
      else if fsize = 351062 then Some (Some (D64_TYPE_D71 OR D64_HAS_ERRORINFO, d71param))
      else if fsize = 819200 then Some (Some (D64_TYPE_D81, d81param))
      else if fsize = 822400 then Some (Some (D64_TYPE_D81 OR D64_HAS_ERRORINFO, d81param))
      else if fsize = 533248 then Some (Some (D64_TYPE_D80, d80param))
      else if fsize = 535331 then Some (Some (D64_TYPE_D80 OR D64_HAS_ERRORINFO, d80param))
      else if fsize = 1066496 then Some (Some (D64_TYPE_D82, d82param))
      else if fsize = 1070662 then Some (Some (D64_TYPE_D82 OR D64_HAS_ERRORINFO, d82param))
      else if fsize mod (256 * 256) \<noteq> 0 then Some None
      else do {
        ext \<leftarrow> (if fsize = 196608 then after_last (asc CHR ''.'') name else Some []);
        Some (if fsize = 196608 \<and> cchar ext 1 = asc CHR ''6'' \<and> cchar ext 2 = asc CHR ''4'' then None
              else Some (D64_TYPE_DNP, dnpparam\<lparr>last_track := of_nat (fsize div (256 * 256))\<rparr>)) })"

text \<open>The directory part of the path is set to the root of the image.\<close>

definition d64_mount :: "path_t \<Rightarrow> u8 list \<Rightarrow> 'a fw_scheme \<Rightarrow> (u8 \<times> path_t \<times> 'a fw_scheme) option" where
  "d64_mount path name s =
     (let p = path_part path in do {
        kind \<leftarrow> d64_image_kind name (fl_size (image p s));
        (case kind of
           None \<Rightarrow> do { s \<leftarrow> set_error ERROR_IMAGE_INVALID s; Some (1, path, s) }
         | Some (ty, param) \<Rightarrow> do {
             let s = upd_part p (\<lambda>pt. pt\<lparr>pt_d64data := param\<rparr>) s;
             (res, s) \<leftarrow> (case bam_buffer s of
                 Some _ \<Rightarrow> Some (0, s)
               | None \<Rightarrow> do { (res, bp, s) \<leftarrow> bam_buffer_alloc s; Some (res, s\<lparr>bam_buffer := bp\<rparr>) });
             (if res \<noteq> 0 then Some (1, path, s)
              else do {
                let s = upd_part p (\<lambda>pt. pt\<lparr>pt_imagetype := ty\<rparr>) s;
                let path = path\<lparr>path_dir := (path_dir path)\<lparr>dxx_track := get_param p DIR_TRACK s,
                                                          dxx_sector := get_param p DIR_START_SECTOR s\<rparr>\<rparr>;
                let s = s\<lparr>bam_refcount := bam_refcount s + 1\<rparr>;
                Some (0, path, if ty AND D64_HAS_ERRORINFO \<noteq> 0 then s\<lparr>ec_part := 255\<rparr> else s) }) }) })"

definition d64_invalidate :: "'a fw_scheme \<Rightarrow> 'a fw_scheme" where
  "d64_invalidate s =
     (let s = (free_buffer (bam_buffer s) s)\<lparr>bam_buffer := None\<rparr>;
          s = (free_buffer (bam_buffer2 s) s)\<lparr>bam_buffer2 := None\<rparr>
      in s\<lparr>bam_refcount := 0\<rparr>)"

definition drop_bam :: "u8 \<Rightarrow> nat option \<Rightarrow> 'a fw_scheme \<Rightarrow> 'a fw_scheme option" where
  "drop_bam p bp s =
     (case bp of
        None \<Rightarrow> Some s
      | Some i \<Rightarrow> do {
          (_, s) \<leftarrow> run_cleanup (b_cleanup (buf i s)) i s;
          Some (if bam_part (b_bam (buf i s)) = p
                then upd_buf i (\<lambda>b. b\<lparr>b_bam := (b_bam b)\<lparr>bam_part := 255\<rparr>\<rparr>) s else s) })"

definition d64_unmount :: "u8 \<Rightarrow> 'a fw_scheme \<Rightarrow> 'a fw_scheme option" where
  "d64_unmount p s = do {
     s \<leftarrow> drop_bam p (bam_buffer s) s;
     s \<leftarrow> drop_bam p (bam_buffer2 s) s;
     let s = s\<lparr>bam_refcount := bam_refcount s - 1\<rparr>;
     Some (if bam_refcount s \<noteq> 0
       then (free_buffer (bam_buffer2 s) (free_buffer (bam_buffer s) s))\<lparr>bam_buffer := None, bam_buffer2 := None\<rparr>
       else s) }"

text \<open>Without an external display.  Closing the image file may fail like any FatFs call.\<close>

definition FMB_USER_CLEAN :: u8 where [simp]: "FMB_USER_CLEAN = FMB_FREE_STICKY OR FMB_CLEAN"

definition image_unmount :: "u8 \<Rightarrow> 'a fw_scheme \<Rightarrow> (u8 \<times> 'a fw_scheme) option" where
  "image_unmount p s = do {
     (_, s) \<leftarrow> free_multiple_buffers run_cleanup FMB_USER_CLEAN s;
     s \<leftarrow> (if pt_fop (part p s) = D64OPS then d64_unmount p s else Some s);
     let s = upd_part p (\<lambda>pt. pt\<lparr>pt_fop := FATOPS\<rparr>) s;
     (case next_io s of
        (IO_ERR r, s) \<Rightarrow> do { s \<leftarrow> parse_error r False s; Some (1, s) }
      | (_, s) \<Rightarrow> Some (0, s)) }"

definition is_left_arrow :: "cbmdirent_t \<Rightarrow> bool" where
  "is_left_arrow dent \<longleftrightarrow> cchar (ce_name dent) 0 = asc CHR ''_'' \<and> cchar (ce_name dent) 1 = 0"

definition image_chdir :: "path_t \<Rightarrow> cbmdirent_t \<Rightarrow> 'a fw_scheme \<Rightarrow> (u8 \<times> 'a fw_scheme) option" where
  "image_chdir path dent s = (if is_left_arrow dent then image_unmount (path_part path) s else Some (1, s))"

section \<open>Directories\<close>

partial_function (option) readdir_loop :: "dh_t \<Rightarrow> 'a fw_scheme \<Rightarrow> (int \<times> dh_t \<times> 'a fw_scheme) option" where
  "readdir_loop dh s = do {
     (res, dh, s) \<leftarrow> nextdirentry dh s;
     (if res \<noteq> 0 \<or> ops_scratch s ! DIR_OFS_FILE_TYPE \<noteq> 0 then Some (res, dh, s)
      else readdir_loop dh s) }"

text \<open>
  The directory entry for the 32 bytes of an entry on disk.  The day and month are computed
  as \<open>int\<close>: C's remainder of the value minus one keeps the sign of a zero byte.
\<close>

definition c_mod :: "int \<Rightarrow> int \<Rightarrow> int" where
  "c_mod a b = (if a < 0 then - ((- a) mod b) else a mod b)"

definition dxx_dirent :: "u8 list \<Rightarrow> d64dh \<Rightarrow> cbmdirent_t" where
  "dxx_dirent e dh =
     (let flags = (e ! DIR_OFS_FILE_TYPE) XOR FLAG_SPLAT;
          flags = (if flags AND TYPE_MASK > TYPE_DIR then flags AND NOT TYPE_MASK else flags);
          year = (e ! DIR_OFS_YEAR) mod 100 in
      \<lparr>ce_name = strnsubst (take CBM_NAME_LENGTH (drop DIR_OFS_FILE_NAME e)) 16 0xa0 0 @ [0],
       ce_typeflags = flags,
       ce_blocksize = w (e ! DIR_OFS_SIZE_LOW) + 256 * w (e ! DIR_OFS_SIZE_HI),
       ce_remainder = 0xff,
       ce_date = \<lparr>d_year = (if year < 80 then year + 100 else year),
                  d_month = of_int (c_mod (uint (e ! DIR_OFS_MONTH) - 1) 12 + 1),
                  d_day = of_int (c_mod (uint (e ! DIR_OFS_DAY) - 1) 31 + 1),
                  d_hour = (e ! DIR_OFS_HOUR) mod 24, d_minute = (e ! DIR_OFS_MINUTE) mod 60, d_second = 0\<rparr>,
       ce_opstype = OPSTYPE_DXX, ce_cluster = 0, ce_realname = replicate 13 0,
       ce_dh = dh\<lparr>dd_entry := dd_entry dh - 1\<rparr>\<rparr>)"

definition d64_readdir :: "dh_t \<Rightarrow> 'a fw_scheme \<Rightarrow> (int \<times> cbmdirent_t option \<times> dh_t \<times> 'a fw_scheme) option" where
  "d64_readdir dh s = do {
     (res, dh, s) \<leftarrow> readdir_loop dh s;
     Some (res, if res \<noteq> 0 then None else Some (dxx_dirent (ops_scratch s) (dh_d64 dh)), dh, s) }"

section \<open>Labels\<close>

text \<open>The bytes that are stored in the caller's buffer come with the result.\<close>

definition read_string_from_dirheader ::
  "path_t \<Rightarrow> param_t \<Rightarrow> u8 \<Rightarrow> 'a fw_scheme \<Rightarrow> (u8 \<times> u8 list \<times> 'a fw_scheme) option" where
  "read_string_from_dirheader path what len s =
     (let p = path_part path;
          sector = (if imagetype p s = D64_TYPE_DNP then dxx_sector (path_dir path) else 0) in do {
        (res, xs, s) \<leftarrow> image_read p (sector_offset p (dxx_track (path_dir path)) sector s +
                           ucast (get_param p what s)) (unat len) s;
        Some (if res \<noteq> 0 then (1, xs, s) else (0, strnsubst xs len 0xa0 0x20, s)) })"

definition d64_getdirlabel :: "path_t \<Rightarrow> 'a fw_scheme \<Rightarrow> (u8 \<times> u8 list \<times> 'a fw_scheme) option" where
  "d64_getdirlabel path s = read_string_from_dirheader path LABEL_OFFSET 16 s"

text \<open>Trailing spaces of the 16 characters become zeros, except for the first character.\<close>

fun trim_label :: "nat \<Rightarrow> u8 list \<Rightarrow> u8 list" where
  "trim_label 0 l = l"
| "trim_label (Suc k) l = (if l ! Suc k = asc CHR '' '' then trim_label k (l[Suc k := 0]) else l)"

definition d64_getdisklabel :: "u8 \<Rightarrow> 'a fw_scheme \<Rightarrow> (u8 \<times> u8 list \<times> 'a fw_scheme) option" where
  "d64_getdisklabel p s = do {
     (res, label, s) \<leftarrow> (if imagetype p s = D64_TYPE_DNP
        then image_read p (256 + ucast DNP_LABEL_OFFSET) 16 s
        else d64_getdirlabel \<lparr>path_part = p, path_dir = pt_current_dir (part p s)\<rparr> s);
     Some (if res \<noteq> 0 then (1, label, s) else (0, trim_label 15 (label @ [0]), s)) }"

definition d64_getid :: "path_t \<Rightarrow> 'a fw_scheme \<Rightarrow> (u8 \<times> u8 list \<times> 'a fw_scheme) option" where
  "d64_getid path s = read_string_from_dirheader path ID_OFFSET 5 s"

section \<open>Free blocks\<close>

fun dnp_track1_free :: "u8 \<Rightarrow> nat list \<Rightarrow> u16 \<Rightarrow> 'a fw_scheme \<Rightarrow> (u16 \<times> 'a fw_scheme) option" where
  "dnp_track1_free p [] blocks s = Some (blocks, s)"
| "dnp_track1_free p (j # js) blocks s = do {
     (f, s) \<leftarrow> is_free p 1 (of_nat j) s;
     dnp_track1_free p js (if f > 0 then blocks + 1 else blocks) s }"

definition reserved_track :: "u8 \<Rightarrow> u8 \<Rightarrow> bool" where
  "reserved_track ty i \<longleftrightarrow>
     (if ty = D64_TYPE_D81 then i = D81_BAM_TRACK
      else if ty = D64_TYPE_DNP then False
      else if ty = D64_TYPE_D80 \<or> ty = D64_TYPE_D82 then i = D80_DIR_TRACK
      else i = D41_BAM_TRACK \<or> i = D71_BAM2_TRACK)"

fun freeblocks_loop :: "u8 \<Rightarrow> nat list \<Rightarrow> u16 \<Rightarrow> 'a fw_scheme \<Rightarrow> (u16 \<times> 'a fw_scheme) option" where
  "freeblocks_loop p [] blocks s = Some (blocks, s)"
| "freeblocks_loop p (i # is) blocks s =
     (let ty = imagetype p s AND D64_TYPE_MASK in
      if reserved_track ty (of_nat i) then freeblocks_loop p is blocks s
      else if ty = D64_TYPE_DNP \<and> i = 1 then do {
        (blocks, s) \<leftarrow> dnp_track1_free p [64..<256] blocks s;
        freeblocks_loop p is blocks s }
      else do {
        (n, s) \<leftarrow> sectors_free p (of_nat i) s;
        freeblocks_loop p is (blocks + n) s })"

definition d64_freeblocks :: "u8 \<Rightarrow> 'a fw_scheme \<Rightarrow> (u16 \<times> 'a fw_scheme) option" where
  "d64_freeblocks p s = freeblocks_loop p [1..<unat (get_param p LAST_TRACK s) + 1] 0 s"

section \<open>Files\<close>

text \<open>
  \<open>buf->refill(buf)\<close> at the end of \<open>d64_open_read\<close> calls the callback that was just stored.
\<close>

definition start_reading :: "u8 \<Rightarrow> u8 \<Rightarrow> u8 \<Rightarrow> nat \<Rightarrow> 'a fw_scheme \<Rightarrow> 'a fw_scheme option" where
  "start_reading p track sector i s = do {
     let s = upd_buf i (\<lambda>b. b\<lparr>b_data := (b_data b)[0 := track, 1 := sector], b_d64 := (b_d64 b)\<lparr>df_part := p\<rparr>,
               b_read := True, b_refill := Refill_d64_read, b_seek := Seek_d64\<rparr>) s;
     (_, s) \<leftarrow> d64_read i (stick_buffer i s);
     Some s }"

definition d64_open_read :: "path_t \<Rightarrow> cbmdirent_t \<Rightarrow> nat \<Rightarrow> 'a fw_scheme \<Rightarrow> 'a fw_scheme option" where
  "d64_open_read path dent i s = do {
     (res, s) \<leftarrow> read_entry (path_part path) (ce_dh dent) s;
     (if res \<noteq> 0 then Some s
      else start_reading (path_part path) (ops_scratch s ! DIR_OFS_TRACK) (ops_scratch s ! DIR_OFS_SECTOR) i s) }"

text \<open>
  The append loop calls the refill callback until the last sector is in the buffer.  When
  reading the directory entry failed, the buffer still has the callbacks of its allocation.
\<close>

partial_function (option) append_loop :: "nat \<Rightarrow> 'a fw_scheme \<Rightarrow> 'a fw_scheme option" where
  "append_loop i s =
     (if current_error s = 0 \<and> b_data (buf i s) ! 0 \<noteq> 0 then do {
        (_, s) \<leftarrow> (case b_refill (buf i s) of
                     Refill_d64_read \<Rightarrow> d64_read i s
                   | Refill_dummy \<Rightarrow> callback_dummy i s
                   | _ \<Rightarrow> None);
        append_loop i s }
      else Some s)"

definition d64_open_append :: "path_t \<Rightarrow> cbmdirent_t \<Rightarrow> nat \<Rightarrow> 'a fw_scheme \<Rightarrow> 'a fw_scheme option" where
  "d64_open_append path dent i s = do {
     s \<leftarrow> d64_open_read path dent i s;
     s \<leftarrow> append_loop i s;
     (if current_error s \<noteq> 0 then Some s
      else do {
        let blocks = w (ops_scratch s ! DIR_OFS_SIZE_LOW) + 256 * w (ops_scratch s ! DIR_OFS_SIZE_HI) - 1;
        let s = upd_buf i (\<lambda>b. b\<lparr>b_d64 := (b_d64 b)\<lparr>df_dh := ce_dh dent, df_blocks := blocks\<rparr>, b_read := False,
                  b_position := b_lastused b + 1, b_mustflush := (b_lastused b + 1 = 0),
                  b_refill := Refill_d64_write, b_cleanup := Cleanup_d64_write, b_seek := Seek_d64\<rparr>) s;
        let s = mark_write_buffer i s;
        let s = s\<lparr>ops_scratch := update_timestamp (ops_scratch s) s\<rparr>;
        (_, s) \<leftarrow> write_entry (df_part (b_d64 (buf i s))) (df_dh (b_d64 (buf i s))) True s;
        Some s }) }"

text \<open>
  A fresh directory entry in the scratch area: the link pointer stays, the name is copied
  over the padding without a length check.
\<close>

definition put_name :: "u8 list \<Rightarrow> u8 list \<Rightarrow> u8 list option" where
  "put_name name e =
     (let e = put_at DIR_OFS_FILE_NAME (replicate CBM_NAME_LENGTH 0xa0) e in
      if length e < DIR_OFS_FILE_NAME + length (cstr name) then None
      else Some (put_at DIR_OFS_FILE_NAME (cstr name) e))"

definition new_entry :: "u8 list \<Rightarrow> u8 list \<Rightarrow> u8 list option" where
  "new_entry name e = put_name name (put_at 2 (replicate (length e - 2) 0) e)"

definition d64_open_new :: "path_t \<Rightarrow> cbmdirent_t \<Rightarrow> u8 \<Rightarrow> nat \<Rightarrow> 'a fw_scheme \<Rightarrow> 'a fw_scheme option" where
  "d64_open_new path dent type i s =
     (let p = path_part path in do {
        (res, dh, s) \<leftarrow> find_empty_entry path s;
        (if res \<noteq> 0 then Some s
         else do {
           e \<leftarrow> new_entry (ce_name dent) (ops_scratch s);
           let s = s\<lparr>ops_scratch := e[DIR_OFS_FILE_TYPE := type]\<rparr>;
           (res, t, sec, s) \<leftarrow> get_first_sector p s;
           (if res \<noteq> 0 then Some s
            else do {
              let s = s\<lparr>ops_scratch := (ops_scratch s)[DIR_OFS_TRACK := t, DIR_OFS_SECTOR := sec]\<rparr>;
              (res, s) \<leftarrow> allocate_sector p t sec s;
              (if res \<noteq> 0 then Some s
               else do {
                 let s = s\<lparr>ops_scratch := update_timestamp (ops_scratch s) s\<rparr>;
                 (res, s) \<leftarrow> write_entry p (dh_d64 dh) True s;
                 (if res \<noteq> 0 then Some s
                  else Some (upd_buf i (\<lambda>b. b\<lparr>b_position := 2, b_lastused := 2, b_cleanup := Cleanup_d64_write,
                     b_refill := Refill_d64_write, b_seek := Seek_d64, b_data := (b_data b)[2 := 13],
                     b_d64 := (b_d64 b)\<lparr>df_dh := dh_d64 dh, df_part := p, df_track := t, df_sector := sec\<rparr>\<rparr>)
                     (mark_write_buffer i s))) }) }) }) })"

definition d64_open_write ::
  "path_t \<Rightarrow> cbmdirent_t \<Rightarrow> u8 \<Rightarrow> nat \<Rightarrow> bool \<Rightarrow> 'a fw_scheme \<Rightarrow> 'a fw_scheme option" where
  "d64_open_write path dent type i app s =
     (if \<not> fl_write (image (path_part path) s) then set_error ERROR_WRITE_PROTECT s
      else if app then d64_open_append path dent i s
      else d64_open_new path dent type i s)"

definition d64_open_rel :: "path_t \<Rightarrow> cbmdirent_t \<Rightarrow> nat \<Rightarrow> u8 \<Rightarrow> u8 \<Rightarrow> 'a fw_scheme \<Rightarrow> 'a fw_scheme option" where
  "d64_open_rel path dent i len mode s = set_error ERROR_SYNTAX_UNABLE s"

text \<open>The chain of a file is freed sector by sector; the flag is false when a link cannot be read.\<close>

partial_function (option) delete_chain :: "u8 \<Rightarrow> u8 \<Rightarrow> u8 \<Rightarrow> 'a fw_scheme \<Rightarrow> (bool \<times> 'a fw_scheme) option" where
  "delete_chain p track sector s = do {
     (_, s) \<leftarrow> free_sector p track sector s;
     (res, xs, s) \<leftarrow> checked_read p track sector 2 ERROR_ILLEGAL_TS_LINK s;
     (if res \<noteq> 0 then Some (False, s)
      else if xs ! 0 \<noteq> 0 then delete_chain p (xs ! 0) (xs ! 1) s
      else Some (True, s)) }"

definition d64_delete :: "path_t \<Rightarrow> cbmdirent_t \<Rightarrow> 'a fw_scheme \<Rightarrow> (u8 \<times> 'a fw_scheme) option" where
  "d64_delete path dent s =
     (let p = path_part path in do {
        (res, s) \<leftarrow> read_entry p (ce_dh dent) s;
        (if res \<noteq> 0 then Some (255, s)
         else do {
           (finished, s) \<leftarrow> delete_chain p (ops_scratch s ! DIR_OFS_TRACK) (ops_scratch s ! DIR_OFS_SECTOR) s;
           (if \<not> finished then Some (255, s)
            else do {
              (res, s) \<leftarrow> write_entry p (ce_dh dent) True
                 (s\<lparr>ops_scratch := (ops_scratch s)[DIR_OFS_FILE_TYPE := 0]\<rparr>);
              Some (if res \<noteq> 0 then 255 else 1, s) }) }) })"

definition d64_read_sector :: "nat \<Rightarrow> u8 \<Rightarrow> u8 \<Rightarrow> u8 \<Rightarrow> 'a fw_scheme \<Rightarrow> 'a fw_scheme option" where
  "d64_read_sector i p track sector s = do {
     (_, xs, s) \<leftarrow> checked_read p track sector 256 ERROR_ILLEGAL_TS_COMMAND s;
     Some (upd_buf i (\<lambda>b. b\<lparr>b_data := put_at 0 xs (b_data b)\<rparr>) s) }"

definition d64_write_sector :: "nat \<Rightarrow> u8 \<Rightarrow> u8 \<Rightarrow> u8 \<Rightarrow> 'a fw_scheme \<Rightarrow> 'a fw_scheme option" where
  "d64_write_sector i p track sector s =
     (if bad_ts p track sector s then set_error_ts ERROR_ILLEGAL_TS_COMMAND track sector s
      else do {
        (_, s) \<leftarrow> image_write p (sector_offset p track sector s) (b_data (buf i s)) True s;
        Some s })"

definition d64_rename :: "path_t \<Rightarrow> cbmdirent_t \<Rightarrow> u8 list \<Rightarrow> 'a fw_scheme \<Rightarrow> 'a fw_scheme option" where
  "d64_rename path dent newname s =
     (let p = path_part path in do {
        (res, s) \<leftarrow> read_entry p (ce_dh dent) s;
        (if res \<noteq> 0 then Some s
         else do {
           e \<leftarrow> put_name newname (ops_scratch s);
           (_, s) \<leftarrow> write_entry p (ce_dh dent) True (s\<lparr>ops_scratch := e\<rparr>);
           Some s }) })"

definition d64_raw_directory :: "path_t \<Rightarrow> nat \<Rightarrow> 'a fw_scheme \<Rightarrow> 'a fw_scheme option" where
  "d64_raw_directory path i s =
     start_reading (path_part path) (dxx_track (path_dir path))
       (if imagetype (path_part path) s = D64_TYPE_DNP then dxx_sector (path_dir path) else 0) i s"

definition d64_chdir :: "path_t \<Rightarrow> cbmdirent_t \<Rightarrow> 'a fw_scheme \<Rightarrow> (u8 \<times> path_t \<times> 'a fw_scheme) option" where
  "d64_chdir path dirname s =
     (let p = path_part path;
          to = (\<lambda>t sec. path\<lparr>path_dir := (path_dir path)\<lparr>dxx_track := t, dxx_sector := sec\<rparr>\<rparr>) in
      if imagetype p s \<noteq> D64_TYPE_DNP then do { (res, s) \<leftarrow> image_chdir path dirname s; Some (res, path, s) }
      else if cchar (ce_name dirname) 0 = 0 then Some (0, to 1 1, s)
      else if is_left_arrow dirname then do {
        (res, parent, s) \<leftarrow> image_read p (sector_offset p (dxx_track (path_dir path)) (dxx_sector (path_dir path)) s +
                               DNP_DIRHEADER_PARENTHDR_TRACK) 2 s;
        (if res \<noteq> 0 then Some (1, path, s)
         else if parent ! 0 = 0 then do { (res, s) \<leftarrow> image_unmount p s; Some (res, path, s) }
         else Some (0, to (parent ! 0) (parent ! 1), s)) }
      else do {
        (res, s) \<leftarrow> read_entry p (ce_dh dirname) s;
        Some (if res \<noteq> 0 then (1, path, s)
              else (0, to (ops_scratch s ! DIR_OFS_TRACK) (ops_scratch s ! DIR_OFS_SECTOR), s)) })"

end
