(* ===== verification/D64_Format.thy ===== *)
theory D64_Format
  imports D64_Ops
begin

text \<open>
  Subdirectories of DNP images and formatting, the rest of \<^verbatim>\<open>src/src/d64ops.c\<close>.  A result \<open>Some s\<close>
  is a return of the C function, early returns included; the buffer that \<open>d64_mkdir\<close> and
  \<open>d64_format\<close> work in stays allocated.
\<close>

section \<open>Subdirectories\<close>

text \<open>\<open>None\<close> is a name that runs over the end of the buffer.\<close>

definition dnp_dirheader :: "path_t \<Rightarrow> d64dh \<Rightarrow> u8 \<Rightarrow> u8 \<Rightarrow> u8 \<Rightarrow> u8 \<Rightarrow> u8 list \<Rightarrow> u8 list option" where
  "dnp_dirheader path dh h_track h_sector d_track d_sector dirname =
     (let d = put_at (unat DNP_LABEL_OFFSET) (replicate DNP_LABEL_AREA_SIZE 0xa0) (replicate 256 0);
          d = put_at 0 [d_track, d_sector, asc CHR ''H''] d;
          d = put_at DNP_DIRHEADER_ROOTHDR_TRACK
                [h_track, h_sector, dxx_track (path_dir path), dxx_sector (path_dir path),
                 dd_track dh, dd_sector dh, dd_entry dh * 32 + 2] d in
      if 256 < unat DNP_LABEL_OFFSET + length dirname then None
      else (let d = put_at (unat DNP_LABEL_OFFSET) dirname d in
            Some (d[unat DNP_ID_OFFSET := cchar dirname 0, unat DNP_ID_OFFSET + 1 := cchar dirname 1,
                    unat DNP_ID_OFFSET + 3 := asc CHR ''1'', unat DNP_ID_OFFSET + 4 := asc CHR ''H''])))"

text \<open>The sectors of the header and the first directory sector; the flag is false after an early return.\<close>

definition mkdir_sectors :: "path_t \<Rightarrow> 'a fw_scheme \<Rightarrow> (bool \<times> u8 \<times> u8 \<times> u8 \<times> u8 \<times> 'a fw_scheme) option" where
  "mkdir_sectors path s =
     (let p = path_part path in do {
        (res, ht, hs, s) \<leftarrow> get_next_sector p (dxx_track (path_dir path)) (dxx_sector (path_dir path)) s;
        (if res \<noteq> 0 then do { s \<leftarrow> set_error ERROR_DISK_FULL s; Some (False, ht, hs, 0, 0, s) }
         else do {
           (res, s) \<leftarrow> allocate_sector p ht hs s;
           (if res \<noteq> 0 then Some (False, ht, hs, 0, 0, s)
            else do {
              (res, dt, ds, s) \<leftarrow> get_next_sector p ht hs s;
              (if res \<noteq> 0 then do {
                 s \<leftarrow> set_error ERROR_DISK_FULL s;
                 (_, s) \<leftarrow> free_sector p ht hs s;
                 Some (False, ht, hs, dt, ds, s) }
               else do {
                 (res, s) \<leftarrow> allocate_sector p dt ds s;
                 Some (res = 0, ht, hs, dt, ds, s) }) }) }) })"

definition mkdir_write ::
  "path_t \<Rightarrow> u8 list \<Rightarrow> d64dh \<Rightarrow> nat \<Rightarrow> u8 \<Rightarrow> u8 \<Rightarrow> u8 \<Rightarrow> u8 \<Rightarrow> 'a fw_scheme \<Rightarrow> 'a fw_scheme option" where
  "mkdir_write path dirname dh i ht hs dt ds s =
     (let p = path_part path in do {
        d \<leftarrow> dnp_dirheader path dh ht hs dt ds dirname;
        let s = upd_buf i (\<lambda>b. b\<lparr>b_data := d\<rparr>) s;
        (res, s) \<leftarrow> image_write p (sector_offset p ht hs s) (b_data (buf i s)) False s;
        (if res \<noteq> 0 then Some s
         else do {
           let s = upd_buf i (\<lambda>b. b\<lparr>b_data := (replicate 256 0)[1 := 0xff]\<rparr>) s;
           (res, s) \<leftarrow> image_write p (sector_offset p dt ds s) (b_data (buf i s)) False s;
           (if res \<noteq> 0 then Some s
            else do {
              e \<leftarrow> new_entry dirname (ops_scratch s);
              let s = s\<lparr>ops_scratch := e[DIR_OFS_FILE_TYPE := TYPE_DIR OR FLAG_SPLAT, DIR_OFS_TRACK := ht,
                        DIR_OFS_SECTOR := hs, DIR_OFS_SIZE_LOW := 2]\<rparr>;
              let s = s\<lparr>ops_scratch := update_timestamp (ops_scratch s) s\<rparr>;
              (_, s) \<leftarrow> image_write p (sector_offset p (dd_track dh) (dd_sector dh) s + ucast (dd_entry dh) * 32 + 2)
                          (take 30 (drop 2 (ops_scratch s))) True s;
              Some s }) }) })"

definition d64_mkdir :: "path_t \<Rightarrow> u8 list \<Rightarrow> 'a fw_scheme \<Rightarrow> 'a fw_scheme option" where
  "d64_mkdir path dirname s =
     (if imagetype (path_part path) s \<noteq> D64_TYPE_DNP then set_error ERROR_SYNTAX_UNABLE s
      else do {
        (bp, s) \<leftarrow> alloc_buffer s;
        (case bp of
           None \<Rightarrow> Some s
         | Some i \<Rightarrow> do {
             (res, dh, s) \<leftarrow> find_empty_entry path s;
             (if res \<noteq> 0 then Some s
              else do {
                (ok, ht, hs, dt, ds, s) \<leftarrow> mkdir_sectors path s;
                (if \<not> ok then Some s
                 else mkdir_write path dirname (dh_d64 dh) i ht hs dt ds s) }) }) })"

section \<open>Formatting\<close>

text \<open>A change of the data in the buffer \<open>bam_buffer\<close>.\<close>

definition bam_poke :: "(u8 list \<Rightarrow> u8 list) \<Rightarrow> 'a fw_scheme \<Rightarrow> 'a fw_scheme option" where
  "bam_poke f s =
     (case bam_buffer s of None \<Rightarrow> None | Some i \<Rightarrow> Some (upd_buf i (\<lambda>b. b\<lparr>b_data := f (b_data b)\<rparr>) s))"

definition bam_signature :: "u8 \<Rightarrow> u8 list \<Rightarrow> u8 list" where
  "bam_signature doschar idbuf = [doschar, doschar XOR 0xff, idbuf ! 0, idbuf ! 1, 0xc0]"

definition format_add_bam_signature :: "u8 \<Rightarrow> u8 list \<Rightarrow> 'a fw_scheme \<Rightarrow> 'a fw_scheme option" where
  "format_add_bam_signature doschar idbuf s = bam_poke (put_at 2 (bam_signature doschar idbuf)) s"

definition format_copy_label :: "u8 \<Rightarrow> u8 list \<Rightarrow> u8 list \<Rightarrow> u8 list \<Rightarrow> 'a fw_scheme \<Rightarrow> u8 list" where
  "format_copy_label p d name idbuf s =
     (let l = unat (get_param p LABEL_OFFSET s);
          d = put_at l (replicate 25 0xa0) d;
          d = put_at l (take 16 name) d
      in put_at (unat (get_param p ID_OFFSET s)) (take 5 idbuf) d)"

fun allocate_sectors :: "u8 \<Rightarrow> u8 \<Rightarrow> nat list \<Rightarrow> 'a fw_scheme \<Rightarrow> 'a fw_scheme option" where
  "allocate_sectors p track [] s = Some s"
| "allocate_sectors p track (sec # secs) s = do {
     (_, s) \<leftarrow> allocate_sector p track (of_nat sec) s;
     allocate_sectors p track secs s }"

definition format_d41_image :: "u8 \<Rightarrow> nat \<Rightarrow> u8 list \<Rightarrow> u8 list \<Rightarrow> 'a fw_scheme \<Rightarrow> 'a fw_scheme option" where
  "format_d41_image p i name idbuf s = do {
     s \<leftarrow> allocate_sectors p D41_BAM_TRACK [0, 1] s;
     s \<leftarrow> bam_poke (put_at 0 [18, 1, 0x41]) s;
     let idbuf = idbuf[3 := asc CHR ''2'', 4 := asc CHR ''A''];
     s \<leftarrow> bam_poke (\<lambda>d. (format_copy_label p d name idbuf s)[0xa9 := 0xa0, 0xaa := 0xa0]) s;
     (_, s) \<leftarrow> clear_dir_sector p D41_BAM_TRACK 1 i s;
     Some s }"

definition format_d71_image :: "u8 \<Rightarrow> nat \<Rightarrow> u8 list \<Rightarrow> u8 list \<Rightarrow> 'a fw_scheme \<Rightarrow> 'a fw_scheme option" where
  "format_d71_image p i name idbuf s = do {
     s \<leftarrow> format_d41_image p i name idbuf s;
     s \<leftarrow> bam_poke (\<lambda>d. d[3 := 0x80]) s;
     allocate_sectors p D71_BAM2_TRACK [0..<19] s }"

definition bam_dirty :: "'a fw_scheme \<Rightarrow> 'a fw_scheme option" where
  "bam_dirty s =
     (case bam_buffer s of None \<Rightarrow> None | Some i \<Rightarrow> Some (upd_buf i (\<lambda>b. b\<lparr>b_mustflush := True\<rparr>) s))"

definition format_d81_image :: "u8 \<Rightarrow> nat \<Rightarrow> u8 list \<Rightarrow> u8 list \<Rightarrow> 'a fw_scheme \<Rightarrow> 'a fw_scheme option" where
  "format_d81_image p i name idbuf s = do {
     s \<leftarrow> allocate_sectors p D81_BAM_TRACK [0, 1, 2, 3] s;
     s \<leftarrow> bam_poke (\<lambda>d. d[0 := 40, 1 := 2]) s;
     s \<leftarrow> format_add_bam_signature (asc CHR ''D'') idbuf s;
     (_, s) \<leftarrow> sectors_free p 41 s;
     s \<leftarrow> bam_poke (\<lambda>d. d[0 := 0, 1 := 0xff]) s;
     s \<leftarrow> format_add_bam_signature (asc CHR ''D'') idbuf s;
     s \<leftarrow> bam_dirty s;
     let idbuf = idbuf[3 := asc CHR ''3'', 4 := asc CHR ''D''];
     let s = upd_buf i (\<lambda>b. b\<lparr>b_data := format_copy_label p (put_at 0 [40, 3, asc CHR ''D''] (b_data b)) name idbuf s\<rparr>) s;
     (res, s) \<leftarrow> image_write p ((40 - 1) * 40 * 256) (b_data (buf i s)) False s;
     (if res \<noteq> 0 then Some s
      else do { (_, s) \<leftarrow> clear_dir_sector p D81_BAM_TRACK 3 i s; Some s }) }"

definition format_dnp_image :: "u8 \<Rightarrow> nat \<Rightarrow> u8 list \<Rightarrow> u8 list \<Rightarrow> 'a fw_scheme \<Rightarrow> 'a fw_scheme option" where
  "format_dnp_image p i name idbuf s = do {
     s \<leftarrow> allocate_sectors p DNP_BAM_TRACK [0..<35] s;
     s \<leftarrow> format_add_bam_signature (asc CHR ''H'') idbuf s;
     s \<leftarrow> bam_poke (\<lambda>d. d[DNP_BAM_LAST_TRACK_OFS := get_param p LAST_TRACK s]) s;
     let idbuf = idbuf[3 := asc CHR ''1'', 4 := asc CHR ''H''];
     let d = format_copy_label p (put_at 0 [1, 34, asc CHR ''H''] (replicate 256 0)) name idbuf s;
     let s = upd_buf i (\<lambda>b. b\<lparr>b_data := d[DNP_DIRHEADER_ROOTHDR_TRACK := 1, DNP_DIRHEADER_ROOTHDR_SECTOR := 1]\<rparr>) s;
     (res, s) \<leftarrow> image_write p 256 (b_data (buf i s)) False s;
     (if res \<noteq> 0 then Some s
      else do { (_, s) \<leftarrow> clear_dir_sector p 1 DNP_ROOTDIR_SECTOR i s; Some s }) }"

definition format_d80_image :: "u8 \<Rightarrow> nat \<Rightarrow> u8 list \<Rightarrow> u8 list \<Rightarrow> 'a fw_scheme \<Rightarrow> 'a fw_scheme option" where
  "format_d80_image p i name idbuf s = Some s"

definition format_d82_image :: "u8 \<Rightarrow> nat \<Rightarrow> u8 list \<Rightarrow> u8 list \<Rightarrow> 'a fw_scheme \<Rightarrow> 'a fw_scheme option" where
  "format_d82_image p i name idbuf s = Some s"

definition run_format :: "format_fn \<Rightarrow> u8 \<Rightarrow> nat \<Rightarrow> u8 list \<Rightarrow> u8 list \<Rightarrow> 'a fw_scheme \<Rightarrow> 'a fw_scheme option" where
  "run_format f p i name idbuf s =
     (case f of
        Format_d41 \<Rightarrow> format_d41_image p i name idbuf s
      | Format_d71 \<Rightarrow> format_d71_image p i name idbuf s
      | Format_d81 \<Rightarrow> format_d81_image p i name idbuf s
      | Format_dnp \<Rightarrow> format_dnp_image p i name idbuf s
      | Format_d80 \<Rightarrow> format_d80_image p i name idbuf s
      | Format_d82 \<Rightarrow> format_d82_image p i name idbuf s
      | Format_none \<Rightarrow> None)"

text \<open>
  The nested loops over tracks and sectors run over the list of all pairs; neither the
  geometry nor the last track changes on the way.
\<close>

definition track_pairs :: "u8 \<Rightarrow> nat list \<Rightarrow> 'a fw_scheme \<Rightarrow> (u8 \<times> u8) list" where
  "track_pairs p ts s =
     concat (map (\<lambda>t. map (\<lambda>sec. (of_nat t, of_nat sec)) [0..<unat (sectors_per_track p (of_nat t) s)]) ts)"

definition all_tracks :: "u8 \<Rightarrow> 'a fw_scheme \<Rightarrow> nat list" where
  "all_tracks p s = [1..<unat (get_param p LAST_TRACK s) + 1]"

fun clear_sectors :: "u8 \<Rightarrow> nat \<Rightarrow> (u8 \<times> u8) list \<Rightarrow> 'a fw_scheme \<Rightarrow> (bool \<times> 'a fw_scheme) option" where
  "clear_sectors p i [] s = Some (True, s)"
| "clear_sectors p i ((t, sec) # ts) s = do {
     (res, s) \<leftarrow> image_write p (sector_offset p t sec s) (b_data (buf i s)) False s;
     (if res \<noteq> 0 then Some (False, s) else clear_sectors p i ts s) }"

fun free_sectors_loop :: "u8 \<Rightarrow> (u8 \<times> u8) list \<Rightarrow> 'a fw_scheme \<Rightarrow> 'a fw_scheme option" where
  "free_sectors_loop p [] s = Some s"
| "free_sectors_loop p ((t, sec) # ts) s = do {
     (_, s) \<leftarrow> free_sector p t sec s;
     free_sectors_loop p ts s }"

text \<open>The work buffer, and the BAM buffers flushed and marked invalid.\<close>

definition format_prepare :: "nat \<Rightarrow> 'a fw_scheme \<Rightarrow> 'a fw_scheme option" where
  "format_prepare i s = do {
     let s = mark_buffer_dirty i (unstick_buffer i (mark_write_buffer i s));
     let s = upd_buf i (\<lambda>b. b\<lparr>b_data := replicate 256 0\<rparr>) s;
     (_, s) \<leftarrow> d64_bam_commit s;
     j \<leftarrow> bam_buffer s;
     let s = upd_buf j (\<lambda>b. b\<lparr>b_bam := (b_bam b)\<lparr>bam_part := 0xff\<rparr>\<rparr>) s;
     Some (case bam_buffer2 s of
       None \<Rightarrow> s
     | Some k \<Rightarrow> upd_buf k (\<lambda>b. b\<lparr>b_bam := (b_bam b)\<lparr>bam_part := 0xff\<rparr>\<rparr>) s) }"

text \<open>
  Clearing the image or its directory track, and the disk ID; false is an early return.  The
  bytes of the ID buffer that are not set yet are zero here, they are set before their use.
\<close>

definition format_clear :: "u8 \<Rightarrow> nat \<Rightarrow> u8 list option \<Rightarrow> 'a fw_scheme \<Rightarrow> (bool \<times> u8 list \<times> 'a fw_scheme) option" where
  "format_clear p i diskid s =
     (case diskid of
        Some ident \<Rightarrow> do {
          (ok, s) \<leftarrow> clear_sectors p i (track_pairs p (all_tracks p s) s) s;
          Some (ok, [cchar ident 0, cchar ident 1, 0, 0, 0], s) }
      | None \<Rightarrow> do {
          (res, xs, s) \<leftarrow> d64_getid \<lparr>path_part = p, path_dir = \<lparr>dir_fat = 0, dxx_track = get_param p DIR_TRACK s,
                             dxx_sector = 1\<rparr>\<rparr> s;
          (if res \<noteq> 0 then Some (False, xs, s)
           else do {
             (ok, s) \<leftarrow> clear_sectors p i (track_pairs p [unat (get_param p DIR_TRACK s)] s) s;
             Some (ok, xs, s) }) })"

definition d64_format :: "u8 \<Rightarrow> u8 list \<Rightarrow> u8 list option \<Rightarrow> 'a fw_scheme \<Rightarrow> 'a fw_scheme option" where
  "d64_format p name diskid s =
     (let d = pt_current_dir (part p s) in
      if imagetype p s = D64_TYPE_DNP \<and> (dxx_track d \<noteq> 1 \<or> dxx_sector d \<noteq> 1) then Some s
      else do {
        (bp, s) \<leftarrow> alloc_buffer s;
        (case bp of
           None \<Rightarrow> Some s
         | Some i \<Rightarrow> do {
             s \<leftarrow> format_prepare i s;
             (ok, idbuf, s) \<leftarrow> format_clear p i diskid s;
             (if \<not> ok then Some s
              else do {
                s \<leftarrow> free_sectors_loop p (track_pairs p (all_tracks p s) s) s;
                run_format (format_function (pt_d64data (part p s))) p i name (idbuf[2 := 0xa0]) s }) }) })"

end
