(* ===== verification/D64_Geometry.thy ===== *)
theory D64_Geometry
  imports D64
begin

text \<open>
  The geometry of disk images: sector numbers are the running count of sectors, so distinct
  sectors of a D41, D71, D81 or DNP image occupy distinct parts of the file and all of them
  lie inside it.  On D80 and D82 images the last zone is not computed like that.
\<close>

section \<open>The reference\<close>

text \<open>Sectors on all tracks before the given one.\<close>

definition tracks_before :: "u8 \<Rightarrow> nat \<Rightarrow> nat" where
  "tracks_before ty t = (\<Sum>k \<in> {1..<t}. unat (spt_of ty (of_nat k)))"

definition valid_ts :: "u8 \<Rightarrow> u8 \<Rightarrow> u8 \<Rightarrow> u8 \<Rightarrow> bool" where
  "valid_ts ty lst track sector \<longleftrightarrow> 1 \<le> unat track \<and> unat track \<le> unat lst \<and> unat sector < unat (spt_of ty track)"

text \<open>The image types with their last track, as \<open>d64_mount\<close> sets them up.\<close>

definition sound_type :: "u8 \<Rightarrow> u8 \<Rightarrow> bool" where
  "sound_type ty lst \<longleftrightarrow> (ty = 2 \<and> lst = 35) \<or> (ty = 3 \<and> lst = 70) \<or> (ty = 4 \<and> lst = 80) \<or> ty = 1"

section \<open>Closed forms\<close>

lemma w_of_nat: "w x = of_nat (unat x)"
  by simp

fun zone41 :: "nat \<Rightarrow> nat" where
  "zone41 t = (if t < 17 then t * 21 else if t < 24 then 357 + (t - 17) * 19
     else if t < 30 then 490 + (t - 24) * 18 else 598 + (t - 30) * 17)"

definition base_of :: "u8 \<Rightarrow> nat \<Rightarrow> nat" where
  "base_of ty t = (if ty = 4 then t * 40 else if ty = 1 then t * 256
     else if t < 35 then zone41 t else 683 + zone41 (t - 35))"

lemma w_diff: "k \<le> unat y \<Longrightarrow> w y - of_nat k = of_nat (unat y - k)"
  by (simp add: of_nat_diff)

lemma zone_word:
  "(if y < 17 then w y * 21 + a + b
    else if y < 24 then 17 * 21 + (w y - 17) * 19 + a + b
    else if y < 30 then 17 * 21 + 7 * 19 + (w y - 24) * 18 + a + b
    else 17 * 21 + 7 * 19 + 6 * 18 + (w y - 30) * 17 + a + b) = of_nat (zone41 (unat y)) + a + b"
  using w_diff [of 17 y] w_diff [of 24 y] w_diff [of 30 y]
  by (auto simp: word_less_nat_alt)

lemma lba_of_base:
  assumes "sound_type ty lst" "1 \<le> unat track" "unat track \<le> unat lst"
  shows "lba_of ty track sector = of_nat (base_of ty (unat track - 1) + unat sector)"
proof -
  have u: "unat (track - 1) = unat track - 1"
    using assms(2) by (simp add: unat_sub word_le_nat_alt)
  have wt: "w (track - 1) = of_nat (unat track - 1)"
    by (simp only: w_of_nat u)
  consider "ty = 4" | "ty = 1" | "ty = 2 \<or> ty = 3" using assms(1) by (auto simp: sound_type_def)
  then show ?thesis
  proof cases
    case 1
    then show ?thesis by (simp add: lba_of_def base_of_def wt)
  next
    case 2
    then show ?thesis by (simp add: lba_of_def base_of_def wt)
  next
    case 3
    have n: "unat (track - 1) < 70" using 3 assms u by (auto simp: sound_type_def)
    have ge: "35 \<le> track - 1 \<longleftrightarrow> 35 \<le> unat track - 1" by (simp add: word_le_nat_alt u)
    have lba: "lba_of ty track sector =
        (if 35 \<le> track - 1 then of_nat (zone41 (unat (track - 1 - 35))) + w sector + 683
         else of_nat (zone41 (unat (track - 1))) + w sector + 0)"
    proof -
      have ne: "ty \<noteq> D64_TYPE_D81" "ty \<noteq> D64_TYPE_DNP" "ty \<noteq> D64_TYPE_D80" "ty \<noteq> D64_TYPE_D82"
        using 3 by auto
      show ?thesis
        unfolding lba_of_def Let_def
        by (cases "35 \<le> track - 1") (simp_all only: ne simp_thms if_True if_False prod.case zone_word)
    qed
    show ?thesis
    proof (cases "35 \<le> track - 1")
      case True
      then have "unat (track - 1 - 35) = unat track - 1 - 35" by (simp add: unat_sub word_le_nat_alt u)
      then show ?thesis using True ge 3 unfolding lba by (auto simp add: base_of_def simp del: zone41.simps)
    next
      case False
      then show ?thesis using ge 3 unfolding lba by (auto simp add: base_of_def u simp del: zone41.simps)
    qed
  qed
qed

lemma spt_nat:
  assumes "sound_type ty lst" "1 \<le> k" "k \<le> unat lst"
  shows "unat (spt_of ty (of_nat k)) = (if ty = 4 then 40 else if ty = 1 then 256
    else (let k = (if k > 35 then k - 35 else k) in
      if k < 18 then 21 else if k < 25 then 19 else if k < 31 then 18 else 17))"
proof -
  have "unat lst < 256" using unsigned_less [of lst, where 'a = nat] by simp
  then have "k < 256" using assms(3) by linarith
  then have k: "unat (of_nat k :: u8) = k" by (rule unat_of_nat_u8)
  have gt: "(35 :: u8) < of_nat k \<longleftrightarrow> 35 < k" by (simp only: word_less_nat_alt k) simp
  have d: "unat (of_nat k - 35 :: u8) = k - 35" if "35 < k"
    using that by (subst unat_sub) (simp_all add: word_le_nat_alt k)
  show ?thesis
    using assms(1) by (cases "35 < k") (auto simp: sound_type_def spt_of_def gt word_less_nat_alt d k Let_def)
qed

lemma zone_step: "zone41 (Suc m) = zone41 m + (if m < 17 then 21 else if m < 24 then 19 else if m < 30 then 18 else 17)"
  by auto

lemma base_step:
  assumes "sound_type ty lst" "Suc n \<le> unat lst"
  shows "base_of ty (Suc n) = base_of ty n + unat (spt_of ty (of_nat (Suc n)))"
proof -
  have spt: "unat (spt_of ty (of_nat (Suc n))) = (if ty = 4 then 40 else if ty = 1 then 256
    else (let k = (if Suc n > 35 then Suc n - 35 else Suc n) in
      if k < 18 then 21 else if k < 25 then 19 else if k < 31 then 18 else 17))"
    by (rule spt_nat [OF assms(1) _ assms(2)]) simp
  consider "ty = 4" | "ty = 1" | "ty \<noteq> 4" "ty \<noteq> 1" "n < 34" | "ty \<noteq> 4" "ty \<noteq> 1" "n = 34"
    | "ty \<noteq> 4" "ty \<noteq> 1" "35 \<le> n" by linarith
  then show ?thesis
  proof cases
    case 3
    then show ?thesis unfolding spt base_of_def zone_step by (simp add: zone_step del: zone41.simps)
  next
    case 5
    then have "Suc n - 35 = Suc (n - 35)" by simp
    then show ?thesis using 5 unfolding spt base_of_def Let_def by (simp add: zone_step del: zone41.simps)
  qed (unfold spt, simp_all add: base_of_def)
qed

lemma tracks_before_base:
  assumes "sound_type ty lst" "n \<le> unat lst"
  shows "tracks_before ty (Suc n) = base_of ty n"
  using assms(2)
proof (induction n)
  case 0
  then show ?case by (simp add: tracks_before_def base_of_def)
next
  case (Suc n)
  have "tracks_before ty (Suc (Suc n)) = tracks_before ty (Suc n) + unat (spt_of ty (of_nat (Suc n)))"
    by (simp add: tracks_before_def)
  then show ?case using Suc base_step [OF assms(1) Suc.prems] by simp
qed

lemma tracks_before_mono: "t \<le> t' \<Longrightarrow> tracks_before ty t \<le> tracks_before ty t'"
  unfolding tracks_before_def by (rule sum_mono2) auto

lemma tracks_before_next: "1 \<le> unat t \<Longrightarrow> tracks_before ty (Suc (unat t)) = tracks_before ty (unat t) + unat (spt_of ty t)"
  by (simp add: tracks_before_def)

text \<open>The size of an image in sectors.\<close>

definition image_sectors :: "u8 \<Rightarrow> u8 \<Rightarrow> nat" where
  "image_sectors ty lst = tracks_before ty (Suc (unat lst))"

lemma image_sectors_val:
  assumes "sound_type ty lst"
  shows "image_sectors ty lst = (if ty = 2 then 683 else if ty = 3 then 1366 else if ty = 4 then 3200 else unat lst * 256)"
  unfolding image_sectors_def tracks_before_base [OF assms order_refl]
  using assms by (auto simp: sound_type_def base_of_def)

lemma valid_ts_bound:
  assumes "valid_ts ty lst t sec"
  shows "tracks_before ty (unat t) + unat sec < image_sectors ty lst"
  using assms tracks_before_next [of t ty] tracks_before_mono [of "Suc (unat t)" "Suc (unat lst)" ty]
  unfolding valid_ts_def image_sectors_def by linarith

lemma image_sectors_bound:
  assumes "sound_type ty lst"
  shows "image_sectors ty lst < 65536"
proof -
  have "unat lst < 256" using unsigned_less [of lst, where 'a = nat] by simp
  then show ?thesis unfolding image_sectors_val [OF assms] by simp
qed

lemma lba_ref:
  assumes "sound_type ty lst" "valid_ts ty lst t sec"
  shows "unat (lba_of ty t sec) = tracks_before ty (unat t) + unat sec"
proof -
  have v: "1 \<le> unat t" "unat t \<le> unat lst" using assms(2) by (simp_all add: valid_ts_def)
  have b: "base_of ty (unat t - 1) = tracks_before ty (unat t)"
    using tracks_before_base [OF assms(1), of "unat t - 1"] v by simp
  have "tracks_before ty (unat t) + unat sec < 65536"
    using valid_ts_bound [OF assms(2)] image_sectors_bound [OF assms(1)] by simp
  then show ?thesis unfolding lba_of_base [OF assms(1) v] b by (simp only: unat_of_nat) simp
qed

lemma lba_inj:
  assumes "sound_type ty lst" "valid_ts ty lst t sec" "valid_ts ty lst t' sec'" "lba_of ty t sec = lba_of ty t' sec'"
  shows "t = t' \<and> sec = sec'"
proof -
  have e: "tracks_before ty (unat t) + unat sec = tracks_before ty (unat t') + unat sec'"
    using lba_ref [OF assms(1,2)] lba_ref [OF assms(1,3)] assms(4) by simp
  have no: "\<not> unat a < unat b" if "valid_ts ty lst a x" "valid_ts ty lst b y"
    "tracks_before ty (unat a) + unat x = tracks_before ty (unat b) + unat y" for a b x y
    using that tracks_before_next [of a ty] tracks_before_mono [of "Suc (unat a)" "unat b" ty]
    unfolding valid_ts_def by (auto simp: Suc_le_eq)
  have "unat t = unat t'" using no [OF assms(2,3) e] no [OF assms(3,2) e [symmetric]] by linarith
  then show ?thesis using e by (simp add: u8_eq_iff)
qed

end
