(* ===== verification/Ffile_Props.thy ===== *)
theory Ffile_Props
  imports Ffile Buffers_Props
begin

text \<open>
  Image access without medium errors: a read delivers the bytes of the file, a write changes
  exactly the bytes it covers, and both keep everything else of the firmware state.
\<close>

section \<open>Updates of one partition\<close>

lemma part_upd_part [simp]:
  "length (partitions (upd_part p f s)) = length (partitions s)"
  "unat p < length (partitions s) \<Longrightarrow> part p (upd_part p f s) = f (part p s)"
  "p \<noteq> q \<Longrightarrow> part q (upd_part p f s) = part q s"
  by (simp_all add: upd_part_def u8_eq_iff)

lemma upd_part_other [simp]:
  "active_buffers (upd_part p f s) = active_buffers s" "current_error (upd_part p f s) = current_error s"
  "buffers (upd_part p f s) = buffers s" "max_part (upd_part p f s) = max_part s"
  "bam_buffer (upd_part p f s) = bam_buffer s" "bam_buffer2 (upd_part p f s) = bam_buffer2 s"
  "io_script (upd_part p f s) = io_script s" "ops_scratch (upd_part p f s) = ops_scratch s"
  "bam_refcount (upd_part p f s) = bam_refcount s" "rtc (upd_part p f s) = rtc s"
  by (simp_all add: upd_part_def)

lemma upd_part_twice [simp]: "upd_part p f (upd_part p g s) = upd_part p (\<lambda>x. f (g x)) s"
  by (cases "unat p < length (partitions s)") (simp_all add: upd_part_def list_update_beyond)

lemma upd_image_twice [simp]: "upd_image p f (upd_image p g s) = upd_image p (\<lambda>x. f (g x)) s"
  by (simp add: upd_image_def)

lemma image_upd_image [simp]:
  "unat p < length (partitions s) \<Longrightarrow> image p (upd_image p f s) = f (image p s)"
  "p \<noteq> q \<Longrightarrow> part q (upd_image p f s) = part q s"
  "length (partitions (upd_image p f s)) = length (partitions s)"
  by (simp_all add: upd_image_def)

lemma part_upd_image_fields [simp]:
  "pt_imagetype (part q (upd_image p f s)) = pt_imagetype (part q s)"
  "pt_d64data (part q (upd_image p f s)) = pt_d64data (part q s)"
  "pt_current_dir (part q (upd_image p f s)) = pt_current_dir (part q s)"
  "pt_fop (part q (upd_image p f s)) = pt_fop (part q s)"
  by (cases "unat p < length (partitions s)"; cases "p = q";
      simp add: upd_image_def upd_part_def list_update_beyond u8_eq_iff)+

lemma upd_image_other [simp]:
  "active_buffers (upd_image p f s) = active_buffers s" "current_error (upd_image p f s) = current_error s"
  "buffers (upd_image p f s) = buffers s" "max_part (upd_image p f s) = max_part s"
  "bam_buffer (upd_image p f s) = bam_buffer s" "bam_buffer2 (upd_image p f s) = bam_buffer2 s"
  "io_script (upd_image p f s) = io_script s" "ops_scratch (upd_image p f s) = ops_scratch s"
  "bam_refcount (upd_image p f s) = bam_refcount s" "rtc (upd_image p f s) = rtc s"
  by (simp_all add: upd_image_def)

section \<open>Bytes\<close>

lemma length_mem_read [simp]: "length (mem_read m a n) = n"
  by (simp add: mem_read_def)

lemma nth_mem_read [simp]: "i < n \<Longrightarrow> mem_read m a n ! i = m (a + i)"
  by (simp add: mem_read_def)

lemma mem_read_write_same [simp]: "mem_read (mem_write m a xs) a (length xs) = xs"
  by (rule nth_equalityI) (simp_all add: mem_write_def)

lemma mem_read_write_other:
  "a + length xs \<le> b \<or> b + n \<le> a \<Longrightarrow> mem_read (mem_write m a xs) b n = mem_read m b n"
  by (rule nth_equalityI) (auto simp: mem_write_def)

section \<open>Calls without an error\<close>

lemma image_read_ok:
  assumes "io_script s = []" "unat p < length (partitions s)" "ofs \<noteq> -1" "unat ofs + n \<le> fl_size (image p s)"
  shows "image_read p ofs n s = Some (0, mem_read (fl_data (image p s)) (unat ofs) n,
    upd_image p (\<lambda>f. f\<lparr>fl_ptr := unat ofs + n\<rparr>) s)"
proof -
  have a: "f_lseek p ofs s = (FR_OK, upd_image p (seek_to (unat ofs)) s)"
    using assms(1) by (simp add: f_lseek_def next_io_def)
  have i: "image p (upd_image p (seek_to (unat ofs)) s) = (image p s)\<lparr>fl_ptr := unat ofs\<rparr>"
    using assms(2,4) by (simp add: seek_to_def)
  have b: "f_read p n (upd_image p (seek_to (unat ofs)) s) =
      (FR_OK, mem_read (fl_data (image p s)) (unat ofs) n,
       upd_image p (\<lambda>f. f\<lparr>fl_ptr := fl_ptr f + n\<rparr>) (upd_image p (seek_to (unat ofs)) s))"
    using assms(1,4) by (simp add: f_read_def next_io_def i Let_def min_absorb1)
  have c: "upd_image p (\<lambda>f. f\<lparr>fl_ptr := fl_ptr f + n\<rparr>) (upd_image p (seek_to (unat ofs)) s) =
      upd_image p (\<lambda>f. f\<lparr>fl_ptr := unat ofs + n\<rparr>) s"
    using assms(2,4) by (simp add: upd_image_def upd_part_def seek_to_def)
  show ?thesis using assms(2,3) unfolding image_read_def a by (simp add: a b c del: upd_image_twice)
qed

definition put_file :: "nat \<Rightarrow> u8 list \<Rightarrow> fil \<Rightarrow> fil" where
  "put_file ofs xs f = f\<lparr>fl_data := mem_write (fl_data f) ofs xs, fl_ptr := ofs + length xs\<rparr>"

lemma image_write_ok:
  assumes "io_script s = []" "unat p < length (partitions s)" "ofs \<noteq> -1"
    "unat ofs + length xs \<le> fl_size (image p s)" "fl_write (image p s)"
  shows "image_write p ofs xs flush s = Some (0, upd_image p (put_file (unat ofs) xs) s)"
proof -
  have a: "f_lseek p ofs s = (FR_OK, upd_image p (seek_to (unat ofs)) s)"
    using assms(1) by (simp add: f_lseek_def next_io_def)
  have i: "image p (upd_image p (seek_to (unat ofs)) s) = (image p s)\<lparr>fl_ptr := unat ofs\<rparr>"
    using assms(2,4) by (simp add: seek_to_def)
  have b: "f_write p xs (upd_image p (seek_to (unat ofs)) s) =
      (FR_OK, length xs, upd_image p (write_bytes xs) (upd_image p (seek_to (unat ofs)) s))"
    using assms(1,5) by (simp add: f_write_def next_io_def i Let_def)
  have c: "upd_image p (write_bytes xs) (upd_image p (seek_to (unat ofs)) s) = upd_image p (put_file (unat ofs) xs) s"
    using assms(2,4) by (simp add: upd_image_def upd_part_def seek_to_def write_bytes_def put_file_def max_absorb1)
  show ?thesis using assms(2,3) unfolding image_write_def a by (simp add: a b c del: upd_image_twice)
qed

section \<open>Errors\<close>

lemma plain_errors [simp]:
  "plain_error 0" "plain_error 20" "plain_error 25" "plain_error 26" "plain_error 30" "plain_error 31" "plain_error 33"
  "plain_error 39" "plain_error 62" "plain_error 63" "plain_error 66" "plain_error 67" "plain_error 72" "plain_error 74"
  "plain_error 79"
  by (simp_all add: plain_error_def)

lemma parse_error_plain:
  obtains e t sec where "parse_error res rf s = set_error_ts e t sec s" "plain_error e" "res \<noteq> FR_OK \<longrightarrow> 20 \<le> e"
  using that unfolding parse_error_def set_error_def Let_def
  by (cases res; cases rf) (auto simp: word_le_nat_alt)

lemma set_error_keeps:
  assumes "set_error_ts e t sec s = Some s'" "plain_error e"
  shows "partitions s' = partitions s" "io_script s' = io_script s" "active_buffers s' = active_buffers s"
    "bam_buffer s' = bam_buffer s" "bam_buffer2 s' = bam_buffer2 s" "ops_scratch s' = ops_scratch s"
    "max_part s' = max_part s" "bam_refcount s' = bam_refcount s" "length (buffers s') = length (buffers s)"
    "i \<noteq> 32 \<Longrightarrow> buf i s' = buf i s" "current_error s' = e"
  using assms(1) unfolding set_error_ts_plain [OF assms(2)] Let_def
  by (auto simp: set_error_led_def update_leds_def split: if_splits)

end
