(* ===== verification/D64_Sector.thy ===== *)
theory D64_Sector
  imports D64_Ops D64_Geometry Ffile_Props
begin

text \<open>
  Raw sectors of a mounted image: \<open>d64_mount\<close> sets up a sound geometry that fits the file, and
  sector reads and writes behave like an array indexed by track and sector.
\<close>

section \<open>Mounted images\<close>

abbreviation ty_of :: "u8 \<Rightarrow> 'a fw_scheme \<Rightarrow> u8" where
  "ty_of p s \<equiv> imagetype p s AND 0x7f"

abbreviation lst_of :: "u8 \<Rightarrow> 'a fw_scheme \<Rightarrow> u8" where
  "lst_of p s \<equiv> last_track (pt_d64data (part p s))"

definition disk_ready :: "u8 \<Rightarrow> 'a fw_scheme \<Rightarrow> bool" where
  "disk_ready p s \<longleftrightarrow> unat p < length (partitions s) \<and> sound_type (ty_of p s) (lst_of p s) \<and>
     256 * image_sectors (ty_of p s) (lst_of p s) \<le> fl_size (image p s) \<and> io_script s = []"

lemma get_param_simps [simp]:
  "get_param p LAST_TRACK s = last_track (pt_d64data (part p s))"
  "get_param p DIR_TRACK s = dir_track (pt_d64data (part p s))"
  "get_param p DIR_START_SECTOR s = dir_start_sector (pt_d64data (part p s))"
  "get_param p LABEL_OFFSET s = label_offset (pt_d64data (part p s))"
  "get_param p ID_OFFSET s = id_offset (pt_d64data (part p s))"
  "get_param p FILE_INTERLEAVE s = file_interleave (pt_d64data (part p s))"
  "get_param p DIR_INTERLEAVE s = dir_interleave (pt_d64data (part p s))"
  by (simp_all add: get_param_def)

lemma valid_iff: "\<not> bad_ts p t sec s \<longleftrightarrow> valid_ts (ty_of p s) (lst_of p s) t sec"
  by (auto simp: bad_ts_def valid_ts_def sectors_per_track_def word_less_nat_alt word_le_nat_alt not_less)

definition sector_pos :: "u8 \<Rightarrow> u8 \<Rightarrow> u8 \<Rightarrow> 'a fw_scheme \<Rightarrow> nat" where
  "sector_pos p t sec s = 256 * (tracks_before (ty_of p s) (unat t) + unat sec)"

lemma sector_offset_pos:
  assumes "disk_ready p s" "\<not> bad_ts p t sec s"
  shows "unat (sector_offset p t sec s) = sector_pos p t sec s" "sector_offset p t sec s \<noteq> -1"
    "sector_pos p t sec s + 256 \<le> fl_size (image p s)"
proof -
  note D = assms(1) [unfolded disk_ready_def]
  have v: "valid_ts (ty_of p s) (lst_of p s) t sec" using assms(2) by (simp add: valid_iff)
  have l: "unat (sector_lba p t sec s) = tracks_before (ty_of p s) (unat t) + unat sec"
    using lba_ref [OF _ v] D by (simp add: sector_lba_def)
  have b: "tracks_before (ty_of p s) (unat t) + unat sec < image_sectors (ty_of p s) (lst_of p s)"
    by (rule valid_ts_bound [OF v])
  have "image_sectors (ty_of p s) (lst_of p s) < 65536" using image_sectors_bound D by blast
  then have lt: "tracks_before (ty_of p s) (unat t) + unat sec < 65536" using b by linarith
  have e: "sector_offset p t sec s = of_nat (256 * unat (sector_lba p t sec s))"
    by (simp add: sector_offset_def)
  show u: "unat (sector_offset p t sec s) = sector_pos p t sec s"
    unfolding e sector_pos_def l using lt by (simp only: unat_of_nat) simp
  have "sector_pos p t sec s < 4294967295" using mult_strict_left_mono [OF lt, of 256] unfolding sector_pos_def by simp
  moreover have "unat (-1 :: u32) = 4294967295" by (simp add: unsigned_minus_1_eq_mask mask_eq_exp_minus_1)
  ultimately show "sector_offset p t sec s \<noteq> -1" using u by (intro notI) simp
  show "sector_pos p t sec s + 256 \<le> fl_size (image p s)"
    using mult_le_mono2 [OF Suc_leI [OF b], of 256] D unfolding sector_pos_def by simp
qed

lemma sector_pos_disjoint:
  assumes "disk_ready p s" "\<not> bad_ts p t sec s" "\<not> bad_ts p t' sec' s" "(t, sec) \<noteq> (t', sec')"
  shows "sector_pos p t sec s + 256 \<le> sector_pos p t' sec' s \<or> sector_pos p t' sec' s + 256 \<le> sector_pos p t sec s"
proof -
  note D = assms(1) [unfolded disk_ready_def]
  have v: "valid_ts (ty_of p s) (lst_of p s) t sec" "valid_ts (ty_of p s) (lst_of p s) t' sec'"
    using assms(2,3) by (simp_all add: valid_iff)
  have "lba_of (ty_of p s) t sec \<noteq> lba_of (ty_of p s) t' sec'"
    using lba_inj [OF _ v] D assms(4) by blast
  then have "unat (lba_of (ty_of p s) t sec) \<noteq> unat (lba_of (ty_of p s) t' sec')"
    by (metis unsigned_word_eqI)
  then show ?thesis using lba_ref [OF _ v(1)] lba_ref [OF _ v(2)] D unfolding sector_pos_def by simp linarith
qed

text \<open>The contents of a sector.\<close>

definition sector_data :: "u8 \<Rightarrow> u8 \<Rightarrow> u8 \<Rightarrow> 'a fw_scheme \<Rightarrow> u8 list" where
  "sector_data p t sec s = mem_read (fl_data (image p s)) (sector_pos p t sec s) 256"

lemma geometry_cong:
  assumes "imagetype p s' = imagetype p s" "pt_d64data (part p s') = pt_d64data (part p s)"
  shows "sector_offset p t sec s' = sector_offset p t sec s" "bad_ts p t sec s' = bad_ts p t sec s"
    "sector_pos p t sec s' = sector_pos p t sec s" "sectors_per_track p t s' = sectors_per_track p t s"
  using assms by (simp_all add: sector_offset_def sector_lba_def bad_ts_def sectors_per_track_def sector_pos_def)

lemma geometry_upd [simp]:
  "sector_offset p t sec (upd_image q f s) = sector_offset p t sec s"
  "bad_ts p t sec (upd_image q f s) = bad_ts p t sec s"
  "sector_pos p t sec (upd_image q f s) = sector_pos p t sec s"
  "sectors_per_track p t (upd_image q f s) = sectors_per_track p t s"
  "sector_offset p t sec (upd_buf i g s) = sector_offset p t sec s"
  "bad_ts p t sec (upd_buf i g s) = bad_ts p t sec s"
  "sector_pos p t sec (upd_buf i g s) = sector_pos p t sec s"
  "sectors_per_track p t (upd_buf i g s) = sectors_per_track p t s"
  by (rule geometry_cong; simp add: upd_buf_def)+

lemma sector_data_write:
  assumes "disk_ready p s" "\<not> bad_ts p t sec s" "\<not> bad_ts p t' sec' s" "length xs = 256"
  shows "sector_data p t' sec' (upd_image p (put_file (sector_pos p t sec s) xs) s) =
    (if (t', sec') = (t, sec) then xs else sector_data p t' sec' s)"
proof (cases "(t', sec') = (t, sec)")
  case True
  then show ?thesis using assms mem_read_write_same [of _ _ xs]
    by (simp add: sector_data_def put_file_def disk_ready_def)
next
  case False
  have "sector_pos p t sec s + 256 \<le> sector_pos p t' sec' s \<or> sector_pos p t' sec' s + 256 \<le> sector_pos p t sec s"
    using sector_pos_disjoint [OF assms(1-3)] False by blast
  then show ?thesis using assms False
    by (auto simp: sector_data_def put_file_def disk_ready_def mem_read_write_other)
qed

lemma disk_ready_put [simp]:
  "disk_ready p (upd_image p (put_file a xs) s) = disk_ready p s"
  "disk_ready p (upd_image p (\<lambda>f. f\<lparr>fl_ptr := a\<rparr>) s) = disk_ready p s"
  "disk_ready p (upd_buf i g s) = disk_ready p s"
  by (cases "unat p < length (partitions s)"; simp add: disk_ready_def put_file_def)+

section \<open>Reading and writing\<close>

lemma read_at:
  assumes "disk_ready p s" "\<not> bad_ts p t sec s"
  shows "image_read p (sector_offset p t sec s) 256 s = Some (0, sector_data p t sec s,
    upd_image p (\<lambda>f. f\<lparr>fl_ptr := sector_pos p t sec s + 256\<rparr>) s)"
  using image_read_ok [of s p "sector_offset p t sec s" 256] sector_offset_pos [OF assms] assms(1)
  by (simp add: disk_ready_def sector_data_def)

lemma write_at:
  assumes "disk_ready p s" "\<not> bad_ts p t sec s" "fl_write (image p s)" "length xs = 256"
  shows "image_write p (sector_offset p t sec s) xs flush s =
    Some (0, upd_image p (put_file (sector_pos p t sec s) xs) s)"
  using image_write_ok [of s p "sector_offset p t sec s" xs] sector_offset_pos [OF assms(1,2)] assms
  by (simp add: disk_ready_def)

lemma d64_read_sector_ok:
  assumes "disk_ready p s" "\<not> bad_ts p t sec s" "imagetype p s AND 0x80 = 0"
    "i < length (buffers s)" "length (b_data (buf i s)) = 256"
  obtains s' where "d64_read_sector i p t sec s = Some s'" "b_data (buf i s') = sector_data p t sec s"
    "\<forall>t sec. sector_data p t sec s' = sector_data p t sec s" "current_error s' = current_error s"
proof
  let ?s = "upd_image p (\<lambda>f. f\<lparr>fl_ptr := sector_pos p t sec s + 256\<rparr>) s"
  let ?s' = "upd_buf i (\<lambda>b. b\<lparr>b_data := put_at 0 (sector_data p t sec s) (b_data b)\<rparr>) ?s"
  show "d64_read_sector i p t sec s = Some ?s'"
    using assms read_at [OF assms(1,2)] by (simp add: d64_read_sector_def checked_read_def)
  show "b_data (buf i ?s') = sector_data p t sec s"
    using assms(4,5) by (simp add: put_at_def sector_data_def)
  show "\<forall>t' sec'. sector_data p t' sec' ?s' = sector_data p t' sec' s"
    using assms(1) by (simp add: sector_data_def disk_ready_def)
  show "current_error ?s' = current_error s" by simp
qed

section \<open>Mounting\<close>

lemma image_kind_sound:
  assumes "d64_image_kind name n = Some (Some (ty, param))" "n \<notin> {533248, 535331, 1066496, 1070662}"
  shows "sound_type (ty AND 0x7f) (last_track param) \<and> 256 * image_sectors (ty AND 0x7f) (last_track param) \<le> n"
proof -
  have "unat (of_nat k :: u8) \<le> k" for k by (simp add: unat_of_nat)
  then have d: "65536 * unat (of_nat (n div 65536) :: u8) \<le> n"
    by (metis div_le_mono le_trans mult_le_mono2 times_div_less_eq_dividend)
  have s: "sound_type 2 35" "sound_type 3 70" "sound_type 4 80" "sound_type 1 l" for l
    by (simp_all add: sound_type_def)
  show ?thesis
    using assms d unfolding d64_image_kind_def
    by (auto simp: image_sectors_val [OF s(1)] image_sectors_val [OF s(2)] image_sectors_val [OF s(3)]
        image_sectors_val [OF s(4)] s d41param_def d71param_def d81param_def dnpparam_def bind_eq_Some_conv
        split: if_splits)
qed

lemma bam_buffer_alloc_parts:
  assumes "bam_buffer_alloc s = Some (res, bp, s')"
  shows "partitions s' = partitions s" "io_script s' = io_script s"
proof -
  have "alloc_system_buffer s = Some (b, t) \<Longrightarrow> partitions t = partitions s \<and> io_script t = io_script s" for b t
    unfolding alloc_system_buffer_def set_error_def
    by (auto simp: alloc_specific_buffer_def bind_eq_Some_conv set_error_keeps split: option.splits)
  then show "partitions s' = partitions s" "io_script s' = io_script s"
    using assms unfolding bam_buffer_alloc_def
    by (auto simp: bind_eq_Some_conv stick_buffer_def upd_buf_def split: option.splits)
qed

lemma d64_mount_cases:
  assumes "d64_mount path name s = Some (0, path', s')"
  obtains ty param where "d64_image_kind name (fl_size (image (path_part path) s)) = Some (Some (ty, param))"
    "partitions s' = partitions (upd_part (path_part path) (\<lambda>pt. pt\<lparr>pt_d64data := param, pt_imagetype := ty\<rparr>) s)"
    "io_script s' = io_script s"
proof -
  let ?p = "path_part path"
  obtain kind where kind: "d64_image_kind name (fl_size (image ?p s)) = Some kind"
    using assms by (cases "d64_image_kind name (fl_size (image ?p s))") (simp_all add: d64_mount_def)
  have "kind \<noteq> None" using assms kind by (intro notI) (simp add: d64_mount_def bind_eq_Some_conv)
  then obtain ty param where k: "d64_image_kind name (fl_size (image ?p s)) = Some (Some (ty, param))"
    using kind by auto
  let ?s = "upd_part ?p (\<lambda>pt. pt\<lparr>pt_d64data := param\<rparr>) s"
  show ?thesis
  proof (cases "bam_buffer s")
    case (Some i)
    show ?thesis
      by (rule that [OF k]) (use assms k Some in \<open>auto simp: d64_mount_def Let_def split: if_splits\<close>)
  next
    case None
    then obtain bp s2 where b: "bam_buffer_alloc ?s = Some (0, bp, s2)"
      using assms k by (auto simp: d64_mount_def Let_def bind_eq_Some_conv split: if_splits)
    have "partitions (upd_part ?p (\<lambda>pt. pt\<lparr>pt_imagetype := ty\<rparr>) s2) =
        partitions (upd_part ?p (\<lambda>pt. pt\<lparr>pt_imagetype := ty\<rparr>) ?s)"
      by (simp only: upd_part_def bam_buffer_alloc_parts(1) [OF b]) simp
    moreover have "partitions s' = partitions (upd_part ?p (\<lambda>pt. pt\<lparr>pt_imagetype := ty\<rparr>) s2)" "io_script s' = io_script s2"
      using assms k None b by (auto simp: d64_mount_def Let_def upd_part_def split: if_splits)
    ultimately show ?thesis using bam_buffer_alloc_parts(2) [OF b] by (intro that [OF k]) simp_all
  qed
qed

lemma d64_mount_ready:
  assumes "d64_mount path name s = Some (0, path', s')" "unat (path_part path) < length (partitions s)"
    "fl_size (image (path_part path) s) \<notin> {533248, 535331, 1066496, 1070662}" "io_script s = []"
  shows "disk_ready (path_part path) s'" "image (path_part path) s' = image (path_part path) s"
proof -
  let ?p = "path_part path"
  obtain ty param where K: "d64_image_kind name (fl_size (image ?p s)) = Some (Some (ty, param))"
    "partitions s' = partitions (upd_part ?p (\<lambda>pt. pt\<lparr>pt_d64data := param, pt_imagetype := ty\<rparr>) s)"
    "io_script s' = io_script s"
    by (rule d64_mount_cases [OF assms(1)])
  have p: "part ?p s' = (part ?p s)\<lparr>pt_d64data := param, pt_imagetype := ty\<rparr>"
    using K(2) assms(2) by (simp add: upd_part_def)
  have l: "length (partitions s') = length (partitions s)" using K(2) by (simp add: upd_part_def)
  show "image ?p s' = image ?p s" by (simp add: p)
  show "disk_ready ?p s'"
    using image_kind_sound [OF K(1) assms(3)] K(3) assms(2,4) unfolding disk_ready_def by (simp add: p l)
qed

section \<open>Properties\<close>

text \<open>A writable D41 image on the first partition, for the concrete instances.\<close>

definition disk0 :: fw where
  "disk0 = upd_image 0 (\<lambda>f. f\<lparr>fl_size := 174848, fl_write := True\<rparr>) (buffers_init fw0)"

definition path0 :: path_t where
  "path0 = \<lparr>path_part = 0, path_dir = \<lparr>dir_fat = 0, dxx_track = 0, dxx_sector = 0\<rparr>\<rparr>"

lemma disk0_simps:
  "length (partitions disk0) = 2" "io_script disk0 = []" "bam_buffer disk0 = None"
  "fl_size (pt_imagehandle (partitions disk0 ! 0)) = 174848" "fl_write (pt_imagehandle (partitions disk0 ! 0))" "buffers disk0 = buffers (buffers_init fw0)" "active_buffers disk0 = 0"
  "fl_data (pt_imagehandle (partitions disk0 ! 0)) = (\<lambda>_. 0)" "bam_refcount disk0 = 0" "bam_buffer2 disk0 = None"
  by (simp_all add: disk0_def upd_image_def upd_part_def buffers_init_def upd_buf_def fw0_def part_zero_def)

lemma disk0_bufs: "bufs_ok disk0"
  using buf_reachable_ok [OF fw0_reachable]
  by (simp add: bufs_ok_def cnt_def disk0_simps) (simp add: buffers_init_def upd_buf_def fw0_def)

lemma bam_alloc_first:
  assumes "buffers s = buffers (buffers_init fw0)"
  shows "bam_buffer_alloc s = Some (0, Some 0,
    stick_buffer 0 (upd_buf 0 (\<lambda>b. b\<lparr>b_secondary := BUFFER_SYS_BAM, b_bam := (b_bam b)\<lparr>bam_part := 255\<rparr>,
            b_cleanup := Cleanup_bam_buffer_flush\<rparr>) (alloc_specific_buffer 0 s)))"
proof -
  have "first_buffer (\<lambda>b. \<not> b_allocated b) 32 s = Some 0"
    using fw0_free [of 0] by (simp add: first_buffer_def assms upt_conv_Cons)
  then show ?thesis by (simp add: bam_buffer_alloc_def alloc_system_buffer_def)
qed

lemma disk0_mount:
  obtains path' s' where "d64_mount path0 [] disk0 = Some (0, path', s')"
    "imagetype 0 s' = 2" "lst_of 0 s' = 35"
proof -
  let ?s = "upd_part 0 (\<lambda>pt. pt\<lparr>pt_d64data := d41param\<rparr>) disk0"
  have "bam_buffer_alloc ?s \<noteq> None \<and> fst (the (bam_buffer_alloc ?s)) = 0"
    using bam_alloc_first [of ?s] by (simp add: disk0_simps)
  then obtain bp s2 where "bam_buffer_alloc ?s = Some (0, bp, s2)" by force
  then obtain path' s' where m: "d64_mount path0 [] disk0 = Some (0, path', s')"
    using that by (simp add: d64_mount_def path0_def d64_image_kind_def disk0_simps Let_def)
  obtain ty param where K: "d64_image_kind [] (fl_size (image 0 disk0)) = Some (Some (ty, param))"
    "partitions s' = partitions (upd_part 0 (\<lambda>pt. pt\<lparr>pt_d64data := param, pt_imagetype := ty\<rparr>) disk0)"
    by (rule d64_mount_cases [OF m]) (simp add: path0_def)
  have "ty = 2" "param = d41param" using K(1) by (simp_all add: d64_image_kind_def disk0_simps)
  moreover have "part 0 s' = (part 0 disk0)\<lparr>pt_d64data := param, pt_imagetype := ty\<rparr>"
    using K(2) disk0_simps(1) by (simp add: upd_part_def)
  ultimately show ?thesis using m by (intro that [OF m]) (simp_all add: d41param_def)
qed

text \<open>
  C9. After mounting a D41, D71, D81 or DNP image, the number of a sector inside the image
  is the count of all sectors before it (on the lower tracks and on its own track), every
  sector that passes the range check lies inside the image file, and different sectors
  never share a position in it.
\<close>

theorem mounted_geometry:
  assumes "d64_mount path name s = Some (0, path', s')" "unat (path_part path) < length (partitions s)"
    "fl_size (image (path_part path) s) \<notin> {533248, 535331, 1066496, 1070662}" "io_script s = []"
    "\<not> bad_ts (path_part path) t sec s'"
  shows "unat (sector_lba (path_part path) t sec s') =
      (\<Sum>k \<in> {1..<unat t}. unat (sectors_per_track (path_part path) (of_nat k) s')) + unat sec \<and>
    unat (sector_offset (path_part path) t sec s') + 256 \<le> fl_size (image (path_part path) s') \<and>
    (\<forall>t' sec'. \<not> bad_ts (path_part path) t' sec' s' \<longrightarrow>
       sector_offset (path_part path) t' sec' s' = sector_offset (path_part path) t sec s' \<longrightarrow> t' = t \<and> sec' = sec)"
proof -
  let ?p = "path_part path"
  have r: "disk_ready ?p s'" by (rule d64_mount_ready(1) [OF assms(1-4)])
  have v: "valid_ts (ty_of ?p s') (lst_of ?p s') t sec" using assms(5) by (simp add: valid_iff)
  have "unat (sector_lba ?p t sec s') = tracks_before (ty_of ?p s') (unat t) + unat sec"
    using lba_ref [OF _ v] r by (simp add: sector_lba_def disk_ready_def)
  moreover have "t' = t \<and> sec' = sec"
    if "\<not> bad_ts ?p t' sec' s'" "sector_offset ?p t' sec' s' = sector_offset ?p t sec s'" for t' sec'
  proof (rule ccontr)
    assume "\<not> (t' = t \<and> sec' = sec)"
    then have "sector_pos ?p t' sec' s' \<noteq> sector_pos ?p t sec s'"
      using sector_pos_disjoint [OF r that(1) assms(5)] by auto
    then show False using sector_offset_pos(1) [OF r that(1)] sector_offset_pos(1) [OF r assms(5)] that(2) by simp
  qed
  ultimately show ?thesis
    using sector_offset_pos [OF r assms(5)] by (simp add: tracks_before_def sectors_per_track_def)
qed

theorem mounted_geometry_witness:
  "\<exists>path' s'. d64_mount path0 [] disk0 = Some (0, path', s') \<and> unat (sector_lba 0 18 0 s') = 357"
proof -
  obtain path' s' where m: "d64_mount path0 [] disk0 = Some (0, path', s')" "imagetype 0 s' = 2" "lst_of 0 s' = 35"
    by (rule disk0_mount)
  have v: "\<not> bad_ts (path_part path0) 18 0 s'"
    using m(2,3) by (simp add: path0_def bad_ts_def sectors_per_track_def spt_of_def)
  have "unat (sector_lba (path_part path0) 18 0 s') =
      (\<Sum>k \<in> {1..<unat (18 :: u8)}. unat (sectors_per_track (path_part path0) (of_nat k) s')) + unat (0 :: u8)"
    using mounted_geometry [OF m(1) _ _ _ v] disk0_simps by (simp add: path0_def)
  also have "(\<Sum>k \<in> {1..<unat (18 :: u8)}. unat (sectors_per_track (path_part path0) (of_nat k) s')) = (\<Sum>k \<in> {1..<18 :: nat}. 21)"
    using m(2) by (intro sum.cong) (auto simp: path0_def sectors_per_track_def spt_of_def word_less_nat_alt unat_of_nat_u8)
  finally show ?thesis using m(1) by (auto simp: path0_def)
qed


lemma disk0_mounted_bufs:
  assumes "d64_mount path0 [] disk0 = Some (0, path', s')"
  shows "length (buffers s') = 33" "i < 32 \<Longrightarrow> length (b_data (buf i s')) = 256"
proof -
  let ?s = "upd_part 0 (\<lambda>pt. pt\<lparr>pt_d64data := d41param\<rparr>) disk0"
  have b: "bam_buffer_alloc ?s = Some (0, Some 0,
    stick_buffer 0 (upd_buf 0 (\<lambda>b. b\<lparr>b_secondary := BUFFER_SYS_BAM, b_bam := (b_bam b)\<lparr>bam_part := 255\<rparr>,
            b_cleanup := Cleanup_bam_buffer_flush\<rparr>) (alloc_specific_buffer 0 ?s)))"
    by (rule bam_alloc_first) (simp add: disk0_simps)
  have bs: "buffers s' = buffers (stick_buffer 0 (upd_buf 0 (\<lambda>b. b\<lparr>b_secondary := BUFFER_SYS_BAM,
       b_bam := (b_bam b)\<lparr>bam_part := 255\<rparr>, b_cleanup := Cleanup_bam_buffer_flush\<rparr>) (alloc_specific_buffer 0 ?s)))"
    using assms b by (auto simp: d64_mount_def path0_def d64_image_kind_def disk0_simps Let_def)
  have l: "length (buffers (buffers_init fw0)) = 33" "i < 32 \<Longrightarrow> length (b_data (buf i (buffers_init fw0))) = 256" for i
    by (simp_all add: buffers_init_def upd_buf_def fw0_def buf_clear_def buf_zero_def nth_append)
  show "length (buffers s') = 33"
    unfolding bs by (simp add: stick_buffer_def alloc_specific_buffer_def disk0_simps l)
  show "i < 32 \<Longrightarrow> length (b_data (buf i s')) = 256"
    unfolding bs using l
    by (cases "i = 0") (simp_all add: stick_buffer_def alloc_specific_buffer_def disk0_simps upd_buf_def buf_clear_def)
qed


text \<open>
  On D80 and D82 images the last zone of a side advances by one sector per track instead
  of 23: sector \<open>sec\<close> of track \<open>t + 1\<close> is at the same place in the file as sector \<open>sec + 1\<close> of
  track \<open>t\<close>, although both pass the range check.
\<close>

theorem d80_last_zone_overlaps:
  assumes "imagetype p s AND 0x7f \<in> {8, 16}" "77 \<le> last_track (pt_d64data (part p s))"
    "65 \<le> t" "t < 77" "sec < 22"
  shows "sector_offset p (t + 1) sec s = sector_offset p t (sec + 1) s \<and>
    \<not> bad_ts p (t + 1) sec s \<and> \<not> bad_ts p t (sec + 1) s"
proof -
  note N = word_le_nat_alt word_less_nat_alt
  have u: "unat (t + 1) = unat t + 1" "unat (sec + 1) = unat sec + 1"
    using assms(3-5) by (simp_all add: N unat_word_ariths)
  have u1: "unat (t - 1) = unat t - 1" using assms(3) by (simp add: N unat_sub)
  have c: "\<not> 78 \<le> t" "\<not> t < 39" "\<not> t < 53" "\<not> t < 64" "\<not> 78 \<le> t - 1" "\<not> t - 1 < 39" "\<not> t - 1 < 53" "\<not> t - 1 < 64"
    using assms(3,4) by (simp_all add: N u1)
  have k: "unat t = unat (t - 1) + 1" using u1 assms(3) by (simp add: N)
  have ws: "w t = w (t - 1) + 1" "w (sec + 1) = w sec + 1"
    unfolding w_of_nat [of t] w_of_nat [of "t - 1"] w_of_nat [of sec] w_of_nat [of "sec + 1"] k u(2)
    by (simp_all only: of_nat_add of_nat_1)
  have "sector_lba p (t + 1) sec s = sector_lba p t (sec + 1) s"
    using assms(1) c by (auto simp: sector_lba_def lba_of_def Let_def ws)
  moreover have "\<not> 77 < t + 1" "\<not> t + 1 < 40" "\<not> t + 1 < 54" "\<not> t + 1 < 65" "\<not> 77 < t" "\<not> t < 40" "\<not> t < 54" "\<not> t < 65"
    using assms(3,4) by (simp_all add: N u)
  ultimately show ?thesis
    using assms by (auto simp: sector_offset_def bad_ts_def sectors_per_track_def spt_of_def N u)
qed

definition disk80 :: fw where
  "disk80 = upd_part 0 (\<lambda>pt. pt\<lparr>pt_imagetype := 8, pt_d64data := d80param\<rparr>) fw0"

theorem d80_last_zone_overlaps_witness:
  "sector_offset 0 66 0 disk80 = sector_offset 0 65 1 disk80 \<and> \<not> bad_ts 0 66 0 disk80 \<and> \<not> bad_ts 0 65 1 disk80"
  using d80_last_zone_overlaps [where p = 0 and s = disk80 and t = 65 and sec = 0]
  by (simp add: disk80_def upd_part_def fw0_def d80param_def)

end
