(* ===== verification/D64_Bam.thy ===== *)
theory D64_Bam
  imports D64_Sector
begin

text \<open>
  The two cached BAM sectors.  \<open>bam_view\<close> is the contents of a sector as the BAM code sees it:
  the cached copy when there is one, else the image.  Moving the window never changes it,
  whatever is evicted, written back or loaded.
\<close>

section \<open>Invariant\<close>

definition part_ready :: "u8 \<Rightarrow> 'a fw_scheme \<Rightarrow> bool" where
  "part_ready q s \<longleftrightarrow> disk_ready q s \<and> fl_write (image q s) \<and> q < max_part s \<and>
     (ty_of q s = 1 \<longrightarrow> imagetype q s = 1)"

definition slot_tag :: "nat \<Rightarrow> 'a fw_scheme \<Rightarrow> u8 \<times> u8 \<times> u8" where
  "slot_tag i s = (let v = b_bam (buf i s) in (bam_part v, bam_track v, bam_sector v))"

definition slot_coherent :: "nat \<Rightarrow> 'a fw_scheme \<Rightarrow> bool" where
  "slot_coherent i s \<longleftrightarrow> (case slot_tag i s of (q, t, sec) \<Rightarrow> q = 255 \<or>
     part_ready q s \<and> \<not> bad_ts q t sec s \<and> (\<not> b_mustflush (buf i s) \<longrightarrow> b_data (buf i s) = sector_data q t sec s))"

definition bam_slot :: "nat \<Rightarrow> 'a fw_scheme \<Rightarrow> bool" where
  "bam_slot i s \<longleftrightarrow> i < 32 \<and> b_allocated (buf i s) \<and> b_secondary (buf i s) = 101 \<and>
     b_cleanup (buf i s) = Cleanup_bam_buffer_flush \<and> slot_coherent i s"

definition slots_apart :: "nat \<Rightarrow> nat \<Rightarrow> 'a fw_scheme \<Rightarrow> bool" where
  "slots_apart i j s \<longleftrightarrow> i \<noteq> j \<and> (fst (slot_tag i s) = 255 \<or> slot_tag i s \<noteq> slot_tag j s)"

definition pool_ok :: "'a fw_scheme \<Rightarrow> bool" where
  "pool_ok s \<longleftrightarrow> bufs_ok s \<and> (\<forall>k < 32. length (b_data (buf k s)) = 256)"

definition cache_ok :: "'a fw_scheme \<Rightarrow> bool" where
  "cache_ok s \<longleftrightarrow> pool_ok s \<and>
     (\<exists>i. bam_buffer s = Some i \<and> bam_slot i s \<and>
       (\<forall>j. bam_buffer2 s = Some j \<longrightarrow> bam_slot j s \<and> slots_apart i j s))"

definition slot_data :: "nat option \<Rightarrow> u8 \<times> u8 \<times> u8 \<Rightarrow> 'a fw_scheme \<Rightarrow> u8 list option" where
  "slot_data bp tag s =
     (case bp of None \<Rightarrow> None | Some i \<Rightarrow> if slot_tag i s = tag then Some (b_data (buf i s)) else None)"

definition bam_view :: "u8 \<Rightarrow> u8 \<Rightarrow> u8 \<Rightarrow> 'a fw_scheme \<Rightarrow> u8 list" where
  "bam_view q t sec s =
     (case slot_data (bam_buffer s) (q, t, sec) s of
        Some d \<Rightarrow> d
      | None \<Rightarrow> (case slot_data (bam_buffer2 s) (q, t, sec) s of Some d \<Rightarrow> d | None \<Rightarrow> sector_data q t sec s))"

text \<open>The same disks and the same view of all their sectors.\<close>

definition same_view :: "'a fw_scheme \<Rightarrow> 'a fw_scheme \<Rightarrow> bool" where
  "same_view s' s \<longleftrightarrow> max_part s' = max_part s \<and>
     (\<forall>q. imagetype q s' = imagetype q s \<and> pt_d64data (part q s') = pt_d64data (part q s)) \<and>
     (\<forall>q. part_ready q s' = part_ready q s) \<and>
     (\<forall>q t sec. part_ready q s \<longrightarrow> \<not> bad_ts q t sec s \<longrightarrow> bam_view q t sec s' = bam_view q t sec s)"

lemma same_view_refl [simp]: "same_view s s"
  by (simp add: same_view_def)

lemma same_view_trans [trans]: "same_view s2 s1 \<Longrightarrow> same_view s1 s \<Longrightarrow> same_view s2 s"
  unfolding same_view_def using geometry_cong(2) by (metis (no_types, lifting))

lemma part_ready_not_255: "part_ready q s \<Longrightarrow> q \<noteq> 255"
  using u8_lt_256 [of "max_part s"] unfolding part_ready_def word_less_nat_alt by (intro notI) simp

section \<open>Frames\<close>

definition same_disks :: "'a fw_scheme \<Rightarrow> 'a fw_scheme \<Rightarrow> bool" where
  "same_disks s' s \<longleftrightarrow> max_part s' = max_part s \<and> io_script s' = io_script s \<and> partitions s' = partitions s"

lemma same_disks_simps:
  assumes "same_disks s' s"
  shows "part_ready q s' = part_ready q s" "bad_ts q t sec s' = bad_ts q t sec s"
    "sector_data q t sec s' = sector_data q t sec s" "sector_pos q t sec s' = sector_pos q t sec s"
    "sector_offset q t sec s' = sector_offset q t sec s"
  using assms geometry_cong [where p = q and s = s and s' = s']
  by (simp_all add: same_disks_def part_ready_def disk_ready_def sector_data_def)

lemma slot_cong:
  assumes "same_disks s' s" "buf i s' = buf i s"
  shows "slot_tag i s' = slot_tag i s" "bam_slot i s' = bam_slot i s" "slot_coherent i s' = slot_coherent i s"
  using assms by (simp_all add: slot_tag_def bam_slot_def slot_coherent_def same_disks_simps [OF assms(1)])

lemma cache_okE:
  assumes "cache_ok s"
  obtains i where "bam_buffer s = Some i" "bam_slot i s" "pool_ok s"
    "\<forall>j. bam_buffer2 s = Some j \<longrightarrow> bam_slot j s \<and> slots_apart i j s"
  using assms unfolding cache_ok_def by blast

lemma view_hit:
  assumes "bam_buffer s = Some i" "slot_tag i s = (q, t, sec)"
  shows "bam_view q t sec s = b_data (buf i s)"
  using assms by (simp add: bam_view_def slot_data_def)

text \<open>The view in terms of the second slot, for the states that differ in the first.\<close>

lemma view_miss:
  assumes "bam_buffer s = Some i" "slot_tag i s \<noteq> (q, t, sec)"
  shows "bam_view q t sec s =
    (case slot_data (bam_buffer2 s) (q, t, sec) s of Some d \<Rightarrow> d | None \<Rightarrow> sector_data q t sec s)"
  using assms by (simp add: bam_view_def slot_data_def)

lemma slots_apart_sym: "slots_apart i j s \<Longrightarrow> slots_apart j i s"
  by (auto simp: slots_apart_def)

lemma swap_fields [simp]:
  "bam_buffer (bam_buffer_swap s) = bam_buffer2 s" "bam_buffer2 (bam_buffer_swap s) = bam_buffer s"
  "buffers (bam_buffer_swap s) = buffers s" "partitions (bam_buffer_swap s) = partitions s"
  "max_part (bam_buffer_swap s) = max_part s" "io_script (bam_buffer_swap s) = io_script s"
  "active_buffers (bam_buffer_swap s) = active_buffers s"
  by (simp_all add: bam_buffer_swap_def)

lemma swap_ok:
  assumes "cache_ok s" "bam_buffer2 s = Some j"
  shows "cache_ok (bam_buffer_swap s)" "same_view (bam_buffer_swap s) s"
proof -
  let ?s = "bam_buffer_swap s"
  obtain i where i: "bam_buffer s = Some i" "bam_slot i s" "pool_ok s" "bam_slot j s" "slots_apart i j s"
    using assms by (auto elim: cache_okE)
  have d: "same_disks ?s s" by (simp add: same_disks_def)
  note sl = slot_cong [OF d, unfolded swap_fields, OF refl]
  have "pool_ok ?s" using i(3) by (simp add: pool_ok_def bufs_ok_def cnt_def)
  moreover have "slots_apart j i ?s" using slots_apart_sym [OF i(5)] by (simp add: slots_apart_def sl)
  ultimately show "cache_ok ?s"
    using i(1,2,4) assms(2) by (simp add: cache_ok_def sl)
  have "bam_view q t sec ?s = bam_view q t sec s" if "part_ready q s" for q t sec
  proof -
    have "slot_tag j s = (q, t, sec) \<longrightarrow> slot_tag i s \<noteq> (q, t, sec)"
      using i(5) part_ready_not_255 [OF that] by (auto simp: slots_apart_def)
    then show ?thesis using i(1) assms(2)
      by (auto simp: bam_view_def slot_data_def sl same_disks_simps [OF d])
  qed
  then show "same_view ?s s" using same_disks_simps [OF d] by (simp add: same_view_def)
qed

section \<open>A second buffer\<close>

definition bam_fresh :: "buffer_t \<Rightarrow> buffer_t" where
  "bam_fresh b = (buf_clear b)\<lparr>b_allocated := True, b_secondary := 101, b_refill := Refill_dummy,
     b_cleanup := Cleanup_bam_buffer_flush, b_bam := (b_bam (buf_clear b))\<lparr>bam_part := 255\<rparr>, b_sticky := True\<rparr>"

lemma bam_fresh_simps [simp]:
  "b_data (bam_fresh b) = b_data b" "b_allocated (bam_fresh b)" "b_secondary (bam_fresh b) = 101"
  "b_cleanup (bam_fresh b) = Cleanup_bam_buffer_flush" "bam_part (b_bam (bam_fresh b)) = 255" "\<not> b_dirty (bam_fresh b)"
  by (simp_all add: bam_fresh_def buf_clear_def)

lemma bam_alloc_shape:
  assumes "pool_ok s" "bam_buffer_alloc s = Some (res, Some j, s1)"
  shows "j < 32" "\<not> b_allocated (buf j s)" "s1 = upd_buf j bam_fresh s" "pool_ok s1" "buf j s1 = bam_fresh (buf j s)"
proof -
  have B: "bufs_ok s" "length (buffers s) = 33" using assms(1) by (simp_all add: pool_ok_def bufs_ok_def)
  let ?f = "\<lambda>b. b\<lparr>b_secondary := 101, b_bam := (b_bam b)\<lparr>bam_part := 255\<rparr>, b_cleanup := Cleanup_bam_buffer_flush\<rparr>"
  have j: "j < 32" "\<not> b_allocated (buf j s)" "s1 = stick_buffer j (upd_buf j ?f (alloc_specific_buffer j s))"
    using assms(2) by (cases rule: alloc_system_cases [OF B(1)]; simp add: bam_buffer_alloc_def)+
  show "j < 32" "\<not> b_allocated (buf j s)" by (rule j)+
  show s1: "s1 = upd_buf j bam_fresh s"
    using j(1,2) B(2) by (simp add: j(3) alloc_specific_buffer_def stick_buffer_def upd_buf_def bam_fresh_def buf_clear_def)
  show bj: "buf j s1 = bam_fresh (buf j s)" using j(1) B(2) by (simp add: s1)
  have "bufs_ok s1"
    by (rule bufs_ok_upd [OF B(1) j(1), where f = bam_fresh])
      (use j(1,2) B in \<open>simp_all add: is_user_def is_dirty_def s1\<close>)
  moreover have "length (b_data (buf k s1)) = 256" if "k < 32" for k
    using assms(1) that bj by (cases "k = j") (simp_all add: pool_ok_def s1)
  ultimately show "pool_ok s1" by (simp add: pool_ok_def)
qed

lemma fresh_slot:
  assumes "j < 32" "buf j s = bam_fresh b"
  shows "bam_slot j s" "fst (slot_tag j s) = 255"
  using assms by (simp_all add: bam_slot_def slot_coherent_def slot_tag_def Let_def)

lemma alloc_second_ok:
  assumes "cache_ok s" "bam_buffer2 s = None" "bam_buffer_alloc s = Some (res, Some j, s1)" "bam_buffer s = Some i"
  defines "s' \<equiv> bam_buffer_swap (s1\<lparr>bam_buffer2 := Some j\<rparr>)"
  shows "cache_ok s'" "same_view s' s" "bam_buffer s' = Some j" "bam_buffer2 s' = Some i" "buf i s' = buf i s"
    "fst (slot_tag j s') = 255"
proof -
  have c: "bam_slot i s" "pool_ok s" using assms(1,4) by (auto elim: cache_okE)
  note A = bam_alloc_shape [OF c(2) assms(3)]
  have ne: "i \<noteq> j" using c(1) A(2) by (auto simp: bam_slot_def)
  have f: "same_disks s' s" "bam_buffer s' = Some j" "bam_buffer2 s' = Some i" "buffers s' = buffers s1"
    "active_buffers s' = active_buffers s1"
    by (simp_all add: s'_def same_disks_def A(3) assms(4))
  then show "bam_buffer s' = Some j" "bam_buffer2 s' = Some i" "buf i s' = buf i s" using ne A(3) by simp_all
  note sl = slot_cong [OF f(1) \<open>buf i s' = buf i s\<close>]
  have po: "pool_ok s'" using A(4) f(4,5) by (simp add: pool_ok_def bufs_ok_def cnt_def)
  have bj: "buf j s' = bam_fresh (buf j s)" using A(5) f(4) by simp
  show tj: "fst (slot_tag j s') = 255" by (rule fresh_slot(2) [OF A(1) bj])
  show "cache_ok s'" using po c(1) ne tj f(2,3) fresh_slot(1) [OF A(1) bj] by (simp add: cache_ok_def sl slots_apart_def)
  have "bam_view q t sec s' = bam_view q t sec s" if "part_ready q s" for q t sec
  proof -
    have "slot_tag j s' \<noteq> (q, t, sec)" using tj part_ready_not_255 [OF that] by auto
    then show ?thesis using f(2,3) assms(2,4)
      by (simp add: bam_view_def slot_data_def sl \<open>buf i s' = buf i s\<close> same_disks_simps [OF f(1)])
  qed
  then show "same_view s' s" using same_disks_simps [OF f(1)] f(1) by (simp add: same_view_def same_disks_def)
qed

text \<open>Nothing but the error buffer and the error state differ.\<close>

lemma cache_frame:
  assumes "cache_ok s" "same_disks s' s" "bam_buffer s' = bam_buffer s" "bam_buffer2 s' = bam_buffer2 s"
    "bufs_ok s'" "\<forall>k < 32. buf k s' = buf k s"
  shows "cache_ok s'" "same_view s' s"
proof -
  obtain i where i: "bam_buffer s = Some i" "bam_slot i s" "pool_ok s"
    "\<forall>j. bam_buffer2 s = Some j \<longrightarrow> bam_slot j s \<and> slots_apart i j s"
    using assms(1) by (rule cache_okE)
  have sl: "bam_slot k s' = bam_slot k s" "slot_tag k s' = slot_tag k s" "buf k s' = buf k s" if "bam_slot k s" for k
    using slot_cong [OF assms(2), of k] assms(6) that by (simp_all add: bam_slot_def)
  have "pool_ok s'" using i(3) assms(5,6) by (simp add: pool_ok_def)
  then show "cache_ok s'" using i assms(3,4) sl by (auto simp: cache_ok_def slots_apart_def)
  have "slot_data (bam_buffer s') tag s' = slot_data (bam_buffer s) tag s"
    "slot_data (bam_buffer2 s') tag s' = slot_data (bam_buffer2 s) tag s" for tag
    using i assms(3,4) sl by (auto simp: slot_data_def split: option.split)
  then show "same_view s' s" using same_disks_simps [OF assms(2)] assms(2)
    by (simp add: same_view_def bam_view_def same_disks_def cong: option.case_cong)
qed

lemma cache_set_error:
  assumes "cache_ok s" "plain_error e" "set_error_ts e t sec s = Some s'"
  shows "cache_ok s'" "same_view s' s" "bam_buffer s' = bam_buffer s" "bam_buffer2 s' = bam_buffer2 s"
    "\<forall>k < 32. buf k s' = buf k s"
proof -
  note K = set_error_keeps [OF assms(3,2)]
  have d: "same_disks s' s" by (simp add: same_disks_def K)
  have "bufs_ok s" using assms(1) by (auto simp: pool_ok_def elim: cache_okE)
  then have o': "bufs_ok s'" using set_error_bufs_ok [OF assms(2), of s t sec] assms(3) by (metis option.inject)
  show "bam_buffer s' = bam_buffer s" "bam_buffer2 s' = bam_buffer2 s" "\<forall>k < 32. buf k s' = buf k s"
    using K(4,5,10) by simp_all
  then show "cache_ok s'" "same_view s' s" using cache_frame [OF assms(1) d _ _ o'] by blast+
qed

definition at_window :: "nat \<Rightarrow> u8 \<Rightarrow> u8 \<Rightarrow> u8 \<Rightarrow> 'a fw_scheme \<Rightarrow> bool" where
  "at_window i p t sec s \<longleftrightarrow> bam_buffer s = Some i \<and> slot_tag i s = (p, t, sec)"

lemma match_tag: "bam_buffer_match i p t sec s \<longleftrightarrow> slot_tag i s = (p, t, sec)"
  by (simp add: bam_buffer_match_def slot_tag_def Let_def)

lemma bam_buffer_alloc_total:
  assumes "cache_ok s"
  obtains j s' where "bam_buffer_alloc s = Some (0, Some j, s')"
  | s' where "bam_buffer_alloc s = Some (1, None, s')" "cache_ok s'" "same_view s' s"
      "bam_buffer s' = bam_buffer s" "bam_buffer2 s' = bam_buffer2 s" "\<forall>k < 32. buf k s' = buf k s"
proof -
  have B: "bufs_ok s" using assms by (auto simp: pool_ok_def elim: cache_okE)
  show thesis
  proof (cases rule: alloc_system_cases [OF B])
    case (1 s')
    then have "set_error_ts 70 0 0 s = Some s'"
      by (auto simp: alloc_system_buffer_def set_error_def bind_eq_Some_conv split: option.splits)
    note E = cache_set_error [OF assms plain_70 this]
    show ?thesis by (rule that(2) [OF _ E]) (simp add: bam_buffer_alloc_def 1)
  next
    case (2 i)
    then show ?thesis using that(1) by (simp add: bam_buffer_alloc_def)
  qed
qed

lemma bam_switch_ok:
  assumes "cache_ok s" "bam_buffer s = Some i" "slot_tag i s \<noteq> (p, t, sec)" "p \<noteq> 255"
  obtains found i' s' where "bam_switch i p t sec s = Some (found, i', s')" "cache_ok s'" "same_view s' s"
    "bam_buffer s' = Some i'" "found \<longleftrightarrow> at_window i' p t sec s'"
    "\<forall>j. bam_buffer2 s' = Some j \<longrightarrow> slot_tag j s' \<noteq> (p, t, sec)"
proof (cases "bam_buffer2 s")
  case (Some j)
  let ?s = "bam_buffer_swap s"
  have "slot_tag k ?s = slot_tag k s" for k by (simp add: slot_tag_def)
  then show ?thesis using swap_ok [OF assms(1) Some] Some assms
    by (intro that [of "bam_buffer_match j p t sec ?s" j ?s]) (simp_all add: bam_switch_def match_tag at_window_def)
next
  case None
  show ?thesis
  proof (cases "bam_part (b_bam (buf i s)) = 255")
    case True
    then show ?thesis using assms None
      by (intro that [of False i s]) (simp_all add: bam_switch_def at_window_def slot_tag_def)
  next
    case False
    show ?thesis
    proof (cases rule: bam_buffer_alloc_total [OF assms(1)])
      case (1 j s1)
      note A = alloc_second_ok [OF assms(1) None 1 assms(2)]
      let ?s = "bam_buffer_swap (s1\<lparr>bam_buffer2 := Some j\<rparr>)"
      have "slot_tag i ?s = slot_tag i s" using A(5) by (simp add: slot_tag_def)
      moreover have "slot_tag j ?s \<noteq> (p, t, sec)" using A(6) assms(4) by auto
      ultimately show ?thesis using False assms None 1 A
        by (intro that [of False j ?s]) (simp_all add: bam_switch_def at_window_def)
    next
      case (2 s1)
      let ?s = "s1\<lparr>bam_buffer2 := None\<rparr>"
      have e: "?s = s1" using 2(5) None by (metis fw.surjective fw.update_convs(12))
      obtain s2 where s2: "set_error_ts 0 0 0 s1 = Some s2"
        using set_error_frame [of 0 0 0 s1] by auto
      note E = cache_set_error [OF 2(2) _ s2]
      have "i < 32" using assms(1,2) by (auto simp: bam_slot_def elim: cache_okE)
      then have "slot_tag i s2 = slot_tag i s" using E(5) 2(6) by (simp add: slot_tag_def)
      then show ?thesis using False assms None 2 E s2 same_view_trans
        by (intro that [of False i s2]) (simp_all add: bam_switch_def at_window_def set_error_def e)
    qed
  qed
qed

section \<open>Writing back and loading\<close>

lemma part_ready_put [simp]: "part_ready q (upd_image p (put_file a xs) s) = part_ready q s"
  "part_ready q (upd_image p (\<lambda>f. f\<lparr>fl_ptr := b\<rparr>) s) = part_ready q s"
  "part_ready q (upd_buf i g s) = part_ready q s"
proof -
  have "image q (upd_image p f s) = (if unat p < length (partitions s) \<and> q = p then f (image q s) else image q s)" for f
    by (auto simp: upd_image_def upd_part_def u8_eq_iff list_update_beyond not_less)
  then show "part_ready q (upd_image p (put_file a xs) s) = part_ready q s"
    "part_ready q (upd_image p (\<lambda>f. f\<lparr>fl_ptr := b\<rparr>) s) = part_ready q s"
    "part_ready q (upd_buf i g s) = part_ready q s"
    by (simp_all add: part_ready_def disk_ready_def put_file_def)
qed

lemma sector_data_ptr [simp]: "sector_data q t sec (upd_image p (\<lambda>f. f\<lparr>fl_ptr := b\<rparr>) s) = sector_data q t sec s"
  "sector_data q t sec (upd_buf i g s) = sector_data q t sec s"
proof -
  have "image q (upd_image p f s) = (if unat p < length (partitions s) \<and> q = p then f (image q s) else image q s)" for f
    by (auto simp: upd_image_def upd_part_def u8_eq_iff list_update_beyond not_less)
  then show "sector_data q t sec (upd_image p (\<lambda>f. f\<lparr>fl_ptr := b\<rparr>) s) = sector_data q t sec s"
    "sector_data q t sec (upd_buf i g s) = sector_data q t sec s" by (simp_all add: sector_data_def)
qed

lemma sector_data_put:
  assumes "part_ready p s" "\<not> bad_ts p t sec s" "part_ready q s" "\<not> bad_ts q t' sec' s" "length xs = 256"
  shows "sector_data q t' sec' (upd_image p (put_file (sector_pos p t sec s) xs) s) =
    (if (q, t', sec') = (p, t, sec) then xs else sector_data q t' sec' s)"
proof (cases "q = p")
  case True
  then show ?thesis using sector_data_write [of p s t sec t' sec' xs] assms by (simp add: part_ready_def)
next
  case False
  then show ?thesis by (simp add: sector_data_def)
qed

lemma pool_ok_upd:
  assumes "pool_ok s" "i < 32" "\<And>b. b_allocated (f b) = b_allocated b" "\<And>b. b_secondary (f b) = b_secondary b"
    "\<And>b. b_dirty (f b) = b_dirty b" "length (b_data (f (buf i s))) = 256"
  shows "pool_ok (upd_buf i f s)"
proof -
  have "bufs_ok (upd_buf i f s)" by (rule bufs_ok_neutral) (use assms in \<open>simp_all add: pool_ok_def\<close>)
  moreover have "length (b_data (buf k (upd_buf i f s))) = 256" if "k < 32" for k
    using that assms by (cases "k = i") (simp_all add: pool_ok_def bufs_ok_def)
  ultimately show ?thesis by (simp add: pool_ok_def)
qed

lemma pool_ok_image [simp]: "pool_ok (upd_image p f s) = pool_ok s"
  by (simp add: pool_ok_def bufs_ok_def cnt_def)

lemma flush_ok:
  assumes "cache_ok s" "bam_buffer s = Some i"
  obtains s' where "bam_cleanup i s = Some (0, s')" "cache_ok s'" "same_view s' s" "bam_buffer s' = Some i"
    "bam_buffer2 s' = bam_buffer2 s" "\<forall>k. slot_tag k s' = slot_tag k s"
    "fst (slot_tag i s') = 255 \<or> \<not> b_mustflush (buf i s')" "bam_refcount s' = bam_refcount s"
proof -
  obtain q t sec where tag: "slot_tag i s = (q, t, sec)" by (cases "slot_tag i s")
  have c: "bam_slot i s" "pool_ok s" "\<forall>j. bam_buffer2 s = Some j \<longrightarrow> bam_slot j s \<and> slots_apart i j s"
    using assms by (auto elim: cache_okE)
  have cl: "bam_cleanup i s = bam_buffer_flush i s" using c(1) by (simp add: bam_cleanup_def bam_slot_def)
  have v: "bam_part (b_bam (buf i s)) = q" "bam_track (b_bam (buf i s)) = t" "bam_sector (b_bam (buf i s)) = sec"
    using tag by (simp_all add: slot_tag_def Let_def)
  show thesis
  proof (cases "b_mustflush (buf i s) \<and> q < max_part s")
    case False
    then have "bam_cleanup i s = Some (0, s)" by (auto simp: cl bam_buffer_flush_def v Let_def)
    moreover have "q = 255 \<or> \<not> b_mustflush (buf i s)"
      using False c(1) tag by (auto simp: bam_slot_def slot_coherent_def part_ready_def)
    ultimately show ?thesis using assms by (intro that [of s]) (simp_all add: tag)
  next
    case True
    have l: "length (buffers s) = 33" "i < 32" "length (b_data (buf i s)) = 256"
      using c by (simp_all add: pool_ok_def bufs_ok_def bam_slot_def)
    have nq: "q \<noteq> 255" using True u8_lt_256 [of "max_part s"] unfolding word_less_nat_alt by (intro notI) simp
    then have r: "part_ready q s" "\<not> bad_ts q t sec s"
      using c(1) tag by (simp_all add: bam_slot_def slot_coherent_def)
    let ?m = "upd_image q (put_file (sector_pos q t sec s) (b_data (buf i s))) s"
    let ?s = "upd_buf i (\<lambda>b. b\<lparr>b_mustflush := False\<rparr>) ?m"
    have e: "bam_cleanup i s = Some (0, ?s)"
      using write_at [of q s t sec "b_data (buf i s)" True] True r l
      by (simp add: cl bam_buffer_flush_def v Let_def part_ready_def)
    have tg: "slot_tag k ?s = slot_tag k s" for k
      using l by (cases "k = i") (simp_all add: slot_tag_def)
    have b: "b_data (buf k ?s) = b_data (buf k s)" "b_allocated (buf k ?s) = b_allocated (buf k s)"
      "b_secondary (buf k ?s) = b_secondary (buf k s)" "b_cleanup (buf k ?s) = b_cleanup (buf k s)" for k
      using l by (cases "k = i"; simp)+
    have mf: "b_mustflush (buf k ?s) = (k \<noteq> i \<and> b_mustflush (buf k s))" for k
      using l by (cases "k = i") simp_all
    have sd: "sector_data q' t' sec' ?m = (if (q', t', sec') = (q, t, sec) then b_data (buf i s) else sector_data q' t' sec' s)"
      if "part_ready q' s" "\<not> bad_ts q' t' sec' s" for q' t' sec'
      using sector_data_put [OF r that l(3)] .
    have si: "bam_slot i ?s"
      using c(1) r by (simp add: bam_slot_def slot_coherent_def tg tag b sector_data_put [OF r r l(3)])
    have sj: "bam_slot j ?s" if "bam_slot j s" "slots_apart i j s" for j
    proof -
      obtain q' t' sec' where tj: "slot_tag j s = (q', t', sec')" by (cases "slot_tag j s")
      then have "(q', t', sec') \<noteq> (q, t, sec)" using that(2) tag nq by (auto simp: slots_apart_def)
      then show ?thesis using that by (auto simp: bam_slot_def slot_coherent_def tg tj b sd mf slots_apart_def)
    qed
    have po: "pool_ok ?s" by (rule pool_ok_upd) (use c(2) l in simp_all)
    have ca: "cache_ok ?s" using assms(2) c(3) si sj po by (auto simp: cache_ok_def slots_apart_def tg)
    have "bam_view q' t' sec' ?s = bam_view q' t' sec' s" if "part_ready q' s" "\<not> bad_ts q' t' sec' s" for q' t' sec'
      using assms(2) sd [OF that] tag
      by (auto simp: bam_view_def slot_data_def tg b cong: option.case_cong split: option.split)
    then have "same_view ?s s" by (simp add: same_view_def)
    then show ?thesis using assms(2) l by (intro that [OF e ca]) (simp_all add: tg)
  qed
qed

lemma load_ok:
  fixes a :: nat
  assumes "cache_ok s" "bam_buffer s = Some i" "part_ready p s" "\<not> bad_ts p t sec s"
    "fst (slot_tag i s) = 255 \<or> \<not> b_mustflush (buf i s)" "\<forall>j. bam_buffer2 s = Some j \<longrightarrow> slot_tag j s \<noteq> (p, t, sec)"
    "slot_tag i s \<noteq> (p, t, sec)"
  defines "s' \<equiv> upd_buf i (\<lambda>b. b\<lparr>b_bam := \<lparr>bam_part = p, bam_track = t, bam_sector = sec\<rparr>\<rparr>)
    (upd_buf i (\<lambda>b. b\<lparr>b_data := put_at 0 (sector_data p t sec s) (b_data b)\<rparr>)
      (upd_image p (\<lambda>f. f\<lparr>fl_ptr := a\<rparr>) s))"
  shows "cache_ok s'" "same_view s' s" "at_window i p t sec s'"
proof -
  have c: "bam_slot i s" "pool_ok s" "\<forall>j. bam_buffer2 s = Some j \<longrightarrow> bam_slot j s \<and> slots_apart i j s"
    using assms(1,2) by (auto elim: cache_okE)
  have l: "length (buffers s) = 33" "i < 32" "length (b_data (buf i s)) = 256"
    using c by (simp_all add: pool_ok_def bufs_ok_def bam_slot_def)
  have len: "length (sector_data p t sec s) = 256" by (simp add: sector_data_def)
  then have pd: "put_at 0 (sector_data p t sec s) (b_data (buf i s)) = sector_data p t sec s"
    using l(3) by (simp add: put_at_def)
  have bi: "buf i s' = (buf i s)\<lparr>b_data := sector_data p t sec s, b_bam := \<lparr>bam_part = p, bam_track = t, bam_sector = sec\<rparr>\<rparr>"
    using l pd by (simp add: s'_def)
  have bk: "k \<noteq> i \<Longrightarrow> buf k s' = buf k s" for k by (simp add: s'_def)
  have ti: "slot_tag i s' = (p, t, sec)" by (simp add: slot_tag_def bi)
  have tk: "k \<noteq> i \<Longrightarrow> slot_tag k s' = slot_tag k s" for k by (simp add: slot_tag_def bk)
  have w: "part_ready q s' = part_ready q s" "bad_ts q t' sec' s' = bad_ts q t' sec' s"
    "sector_data q t' sec' s' = sector_data q t' sec' s" for q t' sec'
    by (simp_all add: s'_def)
  have bb: "bam_buffer s' = Some i" "bam_buffer2 s' = bam_buffer2 s" using assms(2) by (simp_all add: s'_def)
  show "at_window i p t sec s'" by (simp add: at_window_def bb ti)
  have si: "bam_slot i s'" using c(1) assms(3,4) by (simp add: bam_slot_def slot_coherent_def ti w bi)
  have sj: "bam_slot j s'" "slots_apart i j s'" if "bam_slot j s" "slots_apart i j s" "slot_tag j s \<noteq> (p, t, sec)" for j
    using that bk [of j] tk [of j] by (auto simp: bam_slot_def slot_coherent_def slots_apart_def ti w)
  have "pool_ok s'" unfolding s'_def by (intro pool_ok_upd) (use c(2) l len in \<open>simp_all add: pd\<close>)
  then show "cache_ok s'" using si sj c(3) assms(6) bb by (auto simp: cache_ok_def)
  have "bam_view q t' sec' s' = bam_view q t' sec' s" if q: "part_ready q s" for q t' sec'
  proof -
    have old: "b_data (buf i s) = sector_data q t' sec' s" if "slot_tag i s = (q, t', sec')"
      using that c(1) assms(5) part_ready_not_255 [OF q] by (auto simp: bam_slot_def slot_coherent_def)
    have ap: "bam_buffer2 s = Some j \<Longrightarrow> j \<noteq> i \<and> slot_tag j s \<noteq> (p, t, sec) \<and>
        (slot_tag i s = (q, t', sec') \<longrightarrow> slot_tag j s \<noteq> (q, t', sec'))" for j
      using c(3) assms(6) part_ready_not_255 [OF q] by (auto simp: slots_apart_def)
    show ?thesis using old ap assms(2,7)
      by (cases "bam_buffer2 s") (auto simp: bam_view_def slot_data_def bb ti tk bk w bi)
  qed
  then show "same_view s' s"
    using w(1) by (simp add: same_view_def) (simp add: s'_def)
qed

text \<open>Moving the window: the requested sector is in the first buffer, the view unchanged.\<close>

lemma move_bam_window_ok:
  assumes "cache_ok s" "part_ready p s" "bam_position (ty_of p s) track type = (t, sec, pos)" "\<not> bad_ts p t sec s"
  obtains i s' where "move_bam_window p track type s = Some (0, unat pos, s')" "cache_ok s'" "same_view s' s"
    "at_window i p t sec s'"
proof -
  obtain i where i: "bam_buffer s = Some i" using assms(1) by (rule cache_okE)
  show thesis
  proof (cases "slot_tag i s = (p, t, sec)")
    case True
    then show ?thesis using assms i by (intro that [of s i]) (simp_all add: move_bam_window_def match_tag at_window_def)
  next
    case False
    obtain found i1 s1 where S: "bam_switch i p t sec s = Some (found, i1, s1)" "cache_ok s1" "same_view s1 s"
      "bam_buffer s1 = Some i1" "found \<longleftrightarrow> at_window i1 p t sec s1"
      "\<forall>j. bam_buffer2 s1 = Some j \<longrightarrow> slot_tag j s1 \<noteq> (p, t, sec)"
      by (rule bam_switch_ok [OF assms(1) i False part_ready_not_255 [OF assms(2)]])
    show ?thesis
    proof (cases found)
      case True
      then show ?thesis using S False i assms(3)
        by (intro that [of s1 i1]) (simp_all add: move_bam_window_def match_tag)
    next
      case nf: False
      obtain s2 where F: "bam_cleanup i1 s1 = Some (0, s2)" "cache_ok s2" "same_view s2 s1" "bam_buffer s2 = Some i1"
        "bam_buffer2 s2 = bam_buffer2 s1" "\<forall>k. slot_tag k s2 = slot_tag k s1"
        "fst (slot_tag i1 s2) = 255 \<or> \<not> b_mustflush (buf i1 s2)"
        by (rule flush_ok [OF S(2,4)])
      have v: "same_view s2 s" using F(3) S(3) by (rule same_view_trans)
      have r: "part_ready p s2" "\<not> bad_ts p t sec s2"
        using v assms(2,4) geometry_cong(2) [where p = p and s = s and s' = s2] by (auto simp: same_view_def)
      have ne: "slot_tag i1 s2 \<noteq> (p, t, sec)" using nf S(4,5) F(6) by (simp add: at_window_def)
      have nj: "\<forall>j. bam_buffer2 s2 = Some j \<longrightarrow> slot_tag j s2 \<noteq> (p, t, sec)" using S(6) F(5,6) by simp
      note L = load_ok [OF F(2,4) r F(7) nj ne, where a = "sector_pos p t sec s2 + 256"]
      note rd = read_at [of p s2 t sec]
      show ?thesis
        by (rule that [OF _ L(1) same_view_trans [OF L(2) v] L(3)])
          (use S(1) nf False i F(1) r rd assms(3) in \<open>simp add: move_bam_window_def match_tag part_ready_def\<close>)
    qed
  qed
qed

section \<open>Using the window\<close>

definition same_geo :: "'a fw_scheme \<Rightarrow> 'a fw_scheme \<Rightarrow> bool" where
  "same_geo s' s \<longleftrightarrow> max_part s' = max_part s \<and> (\<forall>q. part_ready q s' = part_ready q s) \<and>
     (\<forall>q. imagetype q s' = imagetype q s \<and> pt_d64data (part q s') = pt_d64data (part q s))"

lemma same_geo_trans [trans]: "same_geo s2 s1 \<Longrightarrow> same_geo s1 s \<Longrightarrow> same_geo s2 s"
  by (simp add: same_geo_def)

lemma same_geo_bad: "same_geo s' s \<Longrightarrow> bad_ts q t sec s' = bad_ts q t sec s"
  "same_geo s' s \<Longrightarrow> sectors_per_track q t s' = sectors_per_track q t s"
  using geometry_cong(2,4) [where p = q and s = s and s' = s'] by (simp_all add: same_geo_def)

lemma same_view_geo: "same_view s' s \<Longrightarrow> same_geo s' s"
  by (simp add: same_view_def same_geo_def)

lemma same_view_view:
  "same_view s' s \<Longrightarrow> part_ready q s \<Longrightarrow> \<not> bad_ts q t sec s \<Longrightarrow> bam_view q t sec s' = bam_view q t sec s"
  by (simp add: same_view_def)

lemma window_byte:
  assumes "cache_ok s" "at_window i p t sec s" "k < 256"
  shows "bam_byte k s = Some (bam_view p t sec s ! k)" "length (bam_view p t sec s) = 256"
proof -
  have "bam_slot i s" "pool_ok s" using assms(1,2) by (auto simp: at_window_def elim: cache_okE)
  then have "length (b_data (buf i s)) = 256" by (simp add: pool_ok_def bam_slot_def)
  then show "bam_byte k s = Some (bam_view p t sec s ! k)" "length (bam_view p t sec s) = 256"
    using assms(2,3) view_hit [of s i p t sec] by (simp_all add: bam_byte_def at_window_def)
qed

lemma window_modify:
  assumes "cache_ok s" "at_window i p t sec s" "k < 256" "p \<noteq> 255"
  obtains s' where "bam_modify k f s = Some s'" "cache_ok s'" "same_geo s' s" "at_window i p t sec s'"
    "\<forall>q t' sec'. part_ready q s \<longrightarrow> bam_view q t' sec' s' =
      (let v = bam_view q t' sec' s in if (q, t', sec') = (p, t, sec) then v[k := f (v ! k)] else v)"
proof -
  have c: "bam_slot i s" "pool_ok s" "\<forall>j. bam_buffer2 s = Some j \<longrightarrow> bam_slot j s \<and> slots_apart i j s"
    using assms(1,2) by (auto simp: at_window_def elim: cache_okE)
  have l: "length (buffers s) = 33" "i < 32" "length (b_data (buf i s)) = 256"
    using c by (simp_all add: pool_ok_def bufs_ok_def bam_slot_def)
  let ?g = "\<lambda>b. b\<lparr>b_data := (b_data b)[k := f (b_data b ! k)], b_mustflush := True\<rparr>"
  let ?s = "upd_buf i ?g s"
  have e: "bam_modify k f s = Some ?s" using assms l by (simp add: bam_modify_def at_window_def)
  have tg: "slot_tag k ?s = slot_tag k s" for k using l by (cases "k = i") (simp_all add: slot_tag_def)
  have bi: "buf i ?s = ?g (buf i s)" using l by simp
  have d: "same_disks ?s s" by (simp add: same_disks_def)
  have tag: "slot_tag i s = (p, t, sec)" "bam_buffer s = Some i" using assms(2) by (simp_all add: at_window_def)
  have si: "bam_slot i ?s" using c(1) by (auto simp: bam_slot_def slot_coherent_def tg tag bi)
  have sj: "bam_slot j ?s" "slots_apart i j ?s" "buf j ?s = buf j s" "slot_tag j s \<noteq> (p, t, sec)"
    if "bam_slot j s" "slots_apart i j s" for j
    using that slot_cong [OF d, of j] assms(4) tag by (auto simp: slots_apart_def tg)
  have "pool_ok ?s" by (rule pool_ok_upd) (use c(2) l in simp_all)
  then have ca: "cache_ok ?s" using si sj c(3) tag by (auto simp: cache_ok_def)
  have g: "same_geo ?s s" by (simp add: same_geo_def)
  have "at_window i p t sec ?s" using tag tg by (simp add: at_window_def)
  moreover have "bam_view q t' sec' ?s =
      (let v = bam_view q t' sec' s in if (q, t', sec') = (p, t, sec) then v[k := f (v ! k)] else v)" for q t' sec'
    using tag c(3) sj(3,4) by (cases "bam_buffer2 s") (auto simp: bam_view_def slot_data_def tg bi Let_def)
  ultimately show thesis using that [OF e ca g] by blast
qed

section \<open>The first image\<close>

lemma view_uncached:
  assumes "bam_buffer s = Some i" "fst (slot_tag i s) = 255" "bam_buffer2 s = None" "q \<noteq> 255"
  shows "bam_view q t sec s = sector_data q t sec s"
  using assms by (auto simp: bam_view_def slot_data_def)

text \<open>Mounting the first image sets up the cache, still without contents.\<close>

lemma mount_starts_cache:
  assumes "d64_mount path name s = Some (0, path', s')" "pool_ok s" "bam_buffer s = None" "bam_buffer2 s = None"
  obtains i where "cache_ok s'" "bam_buffer s' = Some i" "fst (slot_tag i s') = 255" "bam_buffer2 s' = None"
    "max_part s' = max_part s"
proof -
  let ?p = "path_part path"
  obtain kind where kind: "d64_image_kind name (fl_size (image ?p s)) = Some kind"
    using assms by (cases "d64_image_kind name (fl_size (image ?p s))") (simp_all add: d64_mount_def)
  have "kind \<noteq> None" using assms kind by (intro notI) (simp add: d64_mount_def bind_eq_Some_conv)
  then obtain ty param where k: "d64_image_kind name (fl_size (image ?p s)) = Some (Some (ty, param))"
    using kind by auto
  let ?s = "upd_part ?p (\<lambda>pt. pt\<lparr>pt_d64data := param\<rparr>) s"
  have po: "pool_ok ?s" using assms(2) by (simp add: pool_ok_def bufs_ok_def cnt_def)
  obtain bp s2 where b: "bam_buffer_alloc ?s = Some (0, bp, s2)"
    using assms(1,3) k by (auto simp: d64_mount_def Let_def bind_eq_Some_conv split: if_splits)
  then obtain j where j: "bam_buffer_alloc ?s = Some (0, Some j, s2)"
    by (auto simp: bam_buffer_alloc_def bind_eq_Some_conv split: option.splits)
  note A = bam_alloc_shape [OF po j]
  have s': "buffers s' = buffers s2" "active_buffers s' = active_buffers s2" "bam_buffer s' = Some j"
    "bam_buffer2 s' = None" "max_part s' = max_part s"
    using assms(1,3,4) k j by (auto simp: d64_mount_def Let_def A(3) split: if_splits)
  have bj: "buf j s' = bam_fresh (buf j ?s)" using A(5) s'(1) by simp
  have "pool_ok s'" using A(4) s'(1,2) by (simp add: pool_ok_def bufs_ok_def cnt_def)
  then show thesis using that s'(3-5) fresh_slot [OF A(1) bj] by (simp add: cache_ok_def)
qed

end
