(* ===== verification/D64_Alloc.thy ===== *)
theory D64_Alloc
  imports D64_Bam
begin

text \<open>
  Allocation of sectors.  The bit of a sector and the free counter of a track have a place in
  the BAM of their own, so \<open>allocate_sector\<close> and \<open>free_sector\<close> change one bit and one counter.
\<close>

section \<open>Places in the BAM\<close>

fun field_pos :: "u8 \<Rightarrow> nat \<Rightarrow> nat \<times> nat \<times> nat" where
  "field_pos ty t =
     (if ty = 1 then (1, 2 + t div 8, 32 * (t mod 8))
      else if ty = 4 then (40, if t < 41 then 1 else 2, 11 + 6 * (if t > 40 then t - 40 else t))
      else if ty = 3 \<and> t > 35 then (53, 0, 3 * (t - 36)) else (18, 0, 4 * t + 1))"

fun count_pos :: "u8 \<Rightarrow> nat \<Rightarrow> nat \<times> nat \<times> nat" where
  "count_pos ty t =
     (if ty = 4 then (40, if t < 41 then 1 else 2, 10 + 6 * (if t > 40 then t - 40 else t))
      else if ty = 3 \<and> t > 35 then (18, 0, 221 + (t - 36)) else (18, 0, 4 * t))"

declare field_pos.simps [simp del] count_pos.simps [simp del]

definition track_ok :: "u8 \<Rightarrow> u8 \<Rightarrow> u8 \<Rightarrow> bool" where
  "track_ok ty lst track \<longleftrightarrow> sound_type ty lst \<and> 1 \<le> unat track \<and> unat track \<le> unat lst"

lemma and_7: "unat (x AND 7 :: u8) = unat x mod 8"
proof -
  have "x AND 7 = take_bit 3 x" by (simp add: take_bit_eq_mask mask_eq_exp_minus_1)
  then show ?thesis by (simp add: take_bit_eq_mod unat_mod)
qed

lemma drop_3: "unat (drop_bit 3 x :: u8) = unat x div 8"
  by (simp add: drop_bit_eq_div unat_div)

lemma unat_linear: "a + unat d * b < 256 \<Longrightarrow> unat (of_nat a + d * of_nat b :: u8) = a + unat d * b"
  by (simp add: unat_word_ariths unat_of_nat mod_simps)

lemma d81_position:
  fixes track :: u8
  assumes "1 \<le> unat track" "unat track \<le> 80"
  defines "d \<equiv> (if track > 40 then track - 40 else track)"
  shows "unat (10 + d * 6) = 10 + 6 * (if unat track > 40 then unat track - 40 else unat track)"
    "unat (10 + d * 6 + 1) = 11 + 6 * (if unat track > 40 then unat track - 40 else unat track)"
proof -
  have d: "unat d = (if unat track > 40 then unat track - 40 else unat track)"
    by (simp add: d_def word_less_nat_alt unat_sub word_le_nat_alt)
  then have "unat d \<le> 40" using assms(2) by (simp split: if_splits)
  then show "unat (10 + d * 6) = 10 + 6 * (if unat track > 40 then unat track - 40 else unat track)"
    "unat (10 + d * 6 + 1) = 11 + 6 * (if unat track > 40 then unat track - 40 else unat track)"
    using unat_linear [of 10 d 6] unat_linear [of 11 d 6] by (simp_all add: d algebra_simps)
qed

lemma track_cases:
  assumes "track_ok ty lst track"
  obtains "ty = 4" "unat track \<le> 80" | "ty = 3" "unat track \<le> 70" | "ty = 2" "unat track \<le> 35" | "ty = 1"
  using assms by (auto simp: track_ok_def sound_type_def)

lemma position_field:
  assumes "track_ok ty lst track" "bam_position ty track BAM_BITFIELD = (t, sec, pos)"
  shows "field_pos ty (unat track) = (unat t, unat sec, unat pos)"
  using assms(1)
proof (cases rule: track_cases)
  case 1
  then show ?thesis using assms d81_position [of track]
    by (auto simp: field_pos.simps bam_position_def track_ok_def word_less_nat_alt)
next
  case 4
  have "unat track div 8 \<le> 31" using u8_lt_256 [of track] by linarith
  then have "unat (2 + drop_bit 3 track) = 2 + unat track div 8"
    using unat_linear [of 2 "drop_bit 3 track" 1] by (simp add: drop_3)
  moreover have "unat ((track AND 7) * 32) = 32 * (unat track mod 8)"
    using unat_linear [of 0 "track AND 7" 32] by (simp add: and_7)
  ultimately show ?thesis using assms(2) 4 by (auto simp: field_pos.simps bam_position_def)
qed (use assms in \<open>auto simp: field_pos.simps bam_position_def track_ok_def word_less_nat_alt
      word_le_nat_alt unat_word_ariths unat_sub split: if_splits\<close>)

lemma position_count:
  assumes "track_ok ty lst track" "ty \<noteq> 1" "bam_position ty track BAM_FREECOUNT = (t, sec, pos)"
  shows "count_pos ty (unat track) = (unat t, unat sec, unat pos)"
  using assms(1)
proof (cases rule: track_cases)
  case 1
  then show ?thesis using assms d81_position [of track]
    by (auto simp: count_pos.simps bam_position_def track_ok_def word_less_nat_alt)
qed (use assms in \<open>auto simp: count_pos.simps bam_position_def track_ok_def word_less_nat_alt
      word_le_nat_alt unat_word_ariths unat_sub split: if_splits\<close>)

lemma position_valid:
  assumes "track_ok ty lst track" "bam_position ty track type = (t, sec, pos)"
  shows "valid_ts ty lst t sec"
  using assms(1)
proof (cases rule: track_cases)
  case 4
  have "unat lst \<ge> 1" using assms(1) by (simp add: track_ok_def)
  then show ?thesis using assms(2) 4 by (auto simp: bam_position_def valid_ts_def spt_of_def)
qed (use assms in \<open>auto simp: bam_position_def valid_ts_def spt_of_def track_ok_def sound_type_def word_less_nat_alt split: if_splits\<close>)

lemma valid_bound:
  assumes "sound_type ty lst" "valid_ts ty lst tr se"
  shows "track_ok ty lst tr" "unat se div 8 < (if ty = 4 then 5 else if ty = 1 then 32 else 3)"
proof -
  show "track_ok ty lst tr" using assms by (simp add: valid_ts_def track_ok_def)
  have "ty \<noteq> 4 \<Longrightarrow> ty \<noteq> 1 \<Longrightarrow> unat (spt_of ty tr) \<le> 21" "ty = 4 \<Longrightarrow> unat (spt_of ty tr) = 40"
    using assms(1) by (auto simp: spt_of_def Let_def sound_type_def)
  then have "ty \<noteq> 4 \<Longrightarrow> ty \<noteq> 1 \<Longrightarrow> unat se < 24" "ty = 4 \<Longrightarrow> unat se < 40" "unat se < 256"
    using assms(2) u8_lt_256 [of se] by (force simp: valid_ts_def)+
  then show "unat se div 8 < (if ty = 4 then 5 else if ty = 1 then 32 else 3)"
    by (auto simp: less_mult_imp_div_less)
qed

text \<open>The numbers of a place: all inside the sector, no two the same.\<close>

lemma field_bound:
  assumes "track_ok ty lst tr" "field_pos ty (unat tr) = (t, sec, pos)" "n < (if ty = 4 then 5 else if ty = 1 then 32 else 3)"
  shows "pos + n < 256"
  using assms(1) by (cases rule: track_cases) (use assms in \<open>auto simp: field_pos.simps split: if_splits\<close>)

lemma field_inj:
  assumes "track_ok ty lst tr" "track_ok ty lst tr'" "field_pos ty (unat tr) = (t, sec, pos)"
    "field_pos ty (unat tr') = (t, sec, pos')" "pos + n = pos' + n'"
    "n < (if ty = 4 then 5 else if ty = 1 then 32 else 3)" "n' < (if ty = 4 then 5 else if ty = 1 then 32 else 3)"
  shows "tr = tr' \<and> n = n'"
proof -
  have "unat tr = unat tr'" using assms(1)
  proof (cases rule: track_cases)
    case 4
    then have "unat tr div 8 = unat tr' div 8" "32 * (unat tr mod 8) + n = 32 * (unat tr' mod 8) + n'" "n < 32" "n' < 32"
      using assms by (auto simp: field_pos.simps)
    moreover have "unat tr mod 8 = unat tr' mod 8" using calculation(2-4) by linarith
    ultimately show ?thesis by (metis add_left_cancel div_mult_mod_eq)
  qed (use assms in \<open>auto simp: field_pos.simps split: if_splits\<close>)
  then show ?thesis using assms(3-5) by (simp add: u8_eq_iff)
qed

lemma field_count_apart:
  assumes "track_ok ty lst tr" "track_ok ty lst tr'" "ty \<noteq> 1" "field_pos ty (unat tr) = (t, sec, pos)"
    "count_pos ty (unat tr') = (t, sec, pos')" "n < (if ty = 4 then 5 else if ty = 1 then 32 else 3)"
  shows "pos + n \<noteq> pos'"
proof -
  have m6: "11 + 6 * x + n \<noteq> 10 + 6 * y" if "n < 5" for x y using that by presburger
  have m4: "4 * x + 1 + n \<noteq> 4 * y" if "n < 3" for x y using that by presburger
  from assms(1) show ?thesis
  proof (cases rule: track_cases)
    case 1
    then show ?thesis using assms(4-6) m6 by (auto simp: field_pos.simps count_pos.simps)
  next
    case 2
    then show ?thesis using assms(4-6) m4 by (auto simp: field_pos.simps count_pos.simps split: if_splits)
  next
    case 3
    then show ?thesis using assms(4-6) m4 by (auto simp: field_pos.simps count_pos.simps)
  qed (use assms in simp)
qed

lemma count_bound:
  assumes "track_ok ty lst tr" "ty \<noteq> 1" "count_pos ty (unat tr) = (t, sec, pos)"
  shows "pos < 256"
  using assms(1) by (cases rule: track_cases) (use assms in \<open>auto simp: count_pos.simps split: if_splits\<close>)

lemma count_inj:
  assumes "track_ok ty lst tr" "track_ok ty lst tr'" "ty \<noteq> 1" "count_pos ty (unat tr) = (t, sec, pos)"
    "count_pos ty (unat tr') = (t, sec, pos)"
  shows "tr = tr'"
proof -
  have "unat tr = unat tr'" using assms(1)
    by (cases rule: track_cases) (use assms in \<open>auto simp: count_pos.simps split: if_splits\<close>)
  then show ?thesis by (simp add: u8_eq_iff)
qed

section \<open>Bits and counters\<close>

definition bit_no :: "u8 \<Rightarrow> u8 \<Rightarrow> nat" where
  "bit_no ty sector = (if ty = 1 then 7 - unat sector mod 8 else unat sector mod 8)"

definition sector_free :: "u8 \<Rightarrow> u8 \<Rightarrow> u8 \<Rightarrow> 'a fw_scheme \<Rightarrow> bool" where
  "sector_free p track sector s =
     (case bam_position (ty_of p s) track BAM_BITFIELD of (t, sec, pos) \<Rightarrow>
        bit (bam_view p t sec s ! (unat pos + unat sector div 8)) (bit_no (ty_of p s) sector))"

definition free_count :: "u8 \<Rightarrow> u8 \<Rightarrow> 'a fw_scheme \<Rightarrow> u8" where
  "free_count p track s =
     (case bam_position (ty_of p s) track BAM_FREECOUNT of (t, sec, pos) \<Rightarrow> bam_view p t sec s ! unat pos)"

lemma bit_no_less: "bit_no ty x < 8"
  using diff_le_self [of 7 "unat x mod 8"] by (auto simp: bit_no_def simp del: diff_le_self)

lemma bit_no_inj: "bit_no ty x = bit_no ty y \<Longrightarrow> unat x div 8 = unat y div 8 \<Longrightarrow> x = y"
proof -
  assume "bit_no ty x = bit_no ty y" and d: "unat x div 8 = unat y div 8"
  moreover have "unat x mod 8 < 8" "unat y mod 8 < 8" by simp_all
  ultimately have "unat x mod 8 = unat y mod 8" unfolding bit_no_def by (auto split: if_splits)
  then show "x = y" using d by (metis div_mult_mod_eq u8_eq_iff)
qed

lemma bam_mask_pow:
  assumes "ty_of p s = 1 \<longrightarrow> imagetype p s = 1"
  shows "bam_mask (imagetype p s) sector = 2 ^ bit_no (ty_of p s) sector"
proof -
  have i: "imagetype p s = 1 \<longleftrightarrow> ty_of p s = 1" using assms by auto
  have d: "drop_bit n (0x80 :: u8) = 2 ^ (7 - n)" if "n < 8" for n
  proof -
    have "n \<in> {0, 1, 2, 3, 4, 5, 6, 7}" using that by auto
    then show ?thesis by (auto simp: drop_bit_eq_div)
  qed
  show ?thesis using d [of "unat sector mod 8"] by (simp add: bam_mask_def bit_no_def i and_7 push_bit_eq_mult)
qed

lemma part_ready_sound: "part_ready p s \<Longrightarrow> sound_type (ty_of p s) (lst_of p s)"
  by (simp add: part_ready_def disk_ready_def)

lemma is_free_ok:
  assumes "cache_ok s" "part_ready p s" "\<not> bad_ts p track sector s"
  obtains s' where "is_free p track sector s = Some (if sector_free p track sector s then 1 else 0, s')"
    "cache_ok s'" "same_view s' s"
proof -
  obtain t sec pos where P: "bam_position (ty_of p s) track BAM_BITFIELD = (t, sec, pos)"
    by (cases "bam_position (ty_of p s) track BAM_BITFIELD")
  note V = valid_bound [OF part_ready_sound [OF assms(2)], of track sector] valid_iff [where p = p and t = track and sec = sector and s = s]
  have ok: "track_ok (ty_of p s) (lst_of p s) track" using V assms(3) by blast
  have nb: "\<not> bad_ts p t sec s" using position_valid [OF ok P] by (simp add: valid_iff)
  have k: "unat pos + unat sector div 8 < 256"
    using field_bound [OF ok position_field [OF ok P]] V assms(3) by blast
  obtain i s' where M: "move_bam_window p track BAM_BITFIELD s = Some (0, unat pos, s')" "cache_ok s'" "same_view s' s"
    "at_window i p t sec s'"
    by (rule move_bam_window_ok [OF assms(1,2) P nb])
  have it: "imagetype p s' = imagetype p s" using M(3) by (simp add: same_view_def)
  have "bam_byte (unat pos + unat sector div 8) s' = Some (bam_view p t sec s ! (unat pos + unat sector div 8))"
    using window_byte(1) [OF M(2,4) k] same_view_view [OF M(3) assms(2) nb] by simp
  then show thesis using M(1-3) bam_mask_pow [where p = p and s = s and sector = sector] assms(2) bit_no_less [of "ty_of p s" sector]
    by (intro that [of s'])
      (simp_all add: is_free_def drop_3 it sector_free_def P part_ready_def and_pow2_neq_0)
qed

text \<open>The free sectors and the counters of all mounted images.\<close>

definition free_set :: "'a fw_scheme \<Rightarrow> (u8 \<times> u8 \<times> u8) set" where
  "free_set s = {(q, tr, se). part_ready q s \<and> \<not> bad_ts q tr se s \<and> sector_free q tr se s}"

definition counted :: "u8 \<Rightarrow> u8 \<Rightarrow> 'a fw_scheme \<Rightarrow> bool" where
  "counted q tr s \<longleftrightarrow> part_ready q s \<and> ty_of q s \<noteq> 1 \<and> track_ok (ty_of q s) (lst_of q s) tr"

definition counts :: "'a fw_scheme \<Rightarrow> u8 \<times> u8 \<Rightarrow> u8" where
  "counts s = (\<lambda>(q, tr). if counted q tr s then free_count q tr s else 0)"

lemma same_geo_simps:
  assumes "same_geo s' s"
  shows "part_ready q s' = part_ready q s" "imagetype q s' = imagetype q s"
    "pt_d64data (part q s') = pt_d64data (part q s)" "counted q tr s' = counted q tr s"
    "bad_ts q t sec s' = bad_ts q t sec s" "sectors_per_track q t s' = sectors_per_track q t s"
  using assms same_geo_bad [OF assms] by (simp_all add: same_geo_def counted_def)

lemma position_ready:
  assumes "part_ready q s" "track_ok (ty_of q s) (lst_of q s) tr" "bam_position (ty_of q s) tr type = (t, sec, pos)"
  shows "\<not> bad_ts q t sec s"
  using position_valid [OF assms(2,3)] by (simp add: valid_iff)

lemma ready_track: "part_ready q s \<Longrightarrow> \<not> bad_ts q tr se s \<Longrightarrow> track_ok (ty_of q s) (lst_of q s) tr"
  by (rule valid_bound(1) [OF part_ready_sound]) (simp_all add: valid_iff)

lemma same_view_maps:
  assumes "same_view s' s"
  shows "free_set s' = free_set s" "counts s' = counts s"
proof -
  note G = same_geo_simps [OF same_view_geo [OF assms]]
  have "sector_free q tr se s' = sector_free q tr se s" if "part_ready q s" "\<not> bad_ts q tr se s" for q tr se
    using same_view_view [OF assms that(1) position_ready [OF that(1) ready_track [OF that]]]
    by (auto simp: sector_free_def G split: prod.split)
  then show "free_set s' = free_set s" by (auto simp: free_set_def G)
  have "free_count q tr s' = free_count q tr s" if "counted q tr s" for q tr
    using same_view_view [OF assms _ position_ready [of q s tr]] that
    by (auto simp: free_count_def counted_def G split: prod.split)
  then show "counts s' = counts s" by (auto simp: counts_def G fun_eq_iff)
qed

section \<open>Changing one bit or one counter\<close>

definition view_upd :: "u8 \<Rightarrow> u8 \<Rightarrow> u8 \<Rightarrow> nat \<Rightarrow> (u8 \<Rightarrow> u8) \<Rightarrow> 'a fw_scheme \<Rightarrow> 'a fw_scheme \<Rightarrow> bool" where
  "view_upd p t sec k f s' s \<longleftrightarrow> same_geo s' s \<and>
     (\<forall>q t' sec'. part_ready q s \<longrightarrow> \<not> bad_ts q t' sec' s \<longrightarrow> bam_view q t' sec' s' =
       (let v = bam_view q t' sec' s in if (q, t', sec') = (p, t, sec) then v[k := f (v ! k)] else v))"

lemma view_length:
  assumes "cache_ok s"
  shows "length (bam_view q t sec s) = 256"
proof -
  obtain i where "bam_buffer s = Some i" "bam_slot i s" "pool_ok s"
    "\<forall>j. bam_buffer2 s = Some j \<longrightarrow> bam_slot j s \<and> slots_apart i j s"
    by (rule cache_okE [OF assms])
  then show ?thesis
    by (cases "bam_buffer2 s") (auto simp: bam_view_def slot_data_def pool_ok_def bam_slot_def sector_data_def)
qed

lemma field_maps:
  assumes "cache_ok s" "part_ready p s" "\<not> bad_ts p track sector s"
    "bam_position (ty_of p s) track BAM_BITFIELD = (t, sec, pos)"
    "view_upd p t sec (unat pos + unat sector div 8) f s' s"
    "\<And>b j. bit (f b) j = (if j = bit_no (ty_of p s) sector then v else bit b j)"
  shows "free_set s' = (if v then insert (p, track, sector) (free_set s) else free_set s - {(p, track, sector)})"
    "counts s' = counts s"
proof -
  have g: "same_geo s' s" and U: "part_ready q s \<Longrightarrow> \<not> bad_ts q t' sec' s \<Longrightarrow> bam_view q t' sec' s' =
      (let b = bam_view q t' sec' s in if (q, t', sec') = (p, t, sec) then
        b[unat pos + unat sector div 8 := f (b ! (unat pos + unat sector div 8))] else b)" for q t' sec'
    using assms(5) by (simp_all add: view_upd_def)
  note G = same_geo_simps [OF g] and L = view_length [OF assms(1)]
  note ok = ready_track [OF assms(2,3)]
  have n: "unat se div 8 < (if ty_of q s = 4 then 5 else if ty_of q s = 1 then 32 else 3)"
    if "part_ready q s" "\<not> bad_ts q tr se s" for q tr se
    using valid_bound(2) [OF part_ready_sound [OF that(1)]] that(2) by (simp add: valid_iff)
  have "sector_free q tr se s' = (if (q, tr, se) = (p, track, sector) then v else sector_free q tr se s)"
    if q: "part_ready q s" "\<not> bad_ts q tr se s" for q tr se
  proof -
    obtain t' sec' pos' where P: "bam_position (ty_of q s) tr BAM_BITFIELD = (t', sec', pos')"
      by (cases "bam_position (ty_of q s) tr BAM_BITFIELD")
    note ok' = ready_track [OF q]
    note nb = position_ready [OF q(1) ok' P]
    have "(tr, se) = (track, sector)"
      if "(q, t', sec') = (p, t, sec)" "unat pos' + unat se div 8 = unat pos + unat sector div 8"
        "bit_no (ty_of p s) se = bit_no (ty_of p s) sector"
    proof -
      have "tr = track \<and> unat se div 8 = unat sector div 8"
        by (rule field_inj [OF _ ok, where t = "unat t" and sec = "unat sec" and pos = "unat pos'" and pos' = "unat pos"])
          (use that ok' position_field [OF ok' P] position_field [OF ok assms(4)] n [OF q] n [OF assms(2,3)] in auto)
      then show ?thesis using bit_no_inj that(3) by blast
    qed
    note inj = this
    have k: "unat pos + unat sector div 8 < 256"
      using field_bound [OF ok position_field [OF ok assms(4)] n [OF assms(2,3)]] .
    show ?thesis
    proof (cases "(q, t', sec') = (p, t, sec)")
      case False
      then have "sector_free q tr se s' = sector_free q tr se s" "(q, tr, se) \<noteq> (p, track, sector)"
        using U [OF q(1) nb] P assms(4) by (auto simp: sector_free_def G)
      then show ?thesis by auto
    next
      case True
      let ?v = "bam_view p t sec s"
      have "bam_view q t' sec' s' ! (unat pos' + unat se div 8) =
          (if unat pos' + unat se div 8 = unat pos + unat sector div 8 then f (?v ! (unat pos + unat sector div 8))
           else ?v ! (unat pos' + unat se div 8))"
        using U [OF q(1) nb] True k by (simp add: Let_def L nth_list_update)
      then have "sector_free q tr se s' = (if unat pos' + unat se div 8 = unat pos + unat sector div 8 \<and>
          bit_no (ty_of p s) se = bit_no (ty_of p s) sector then v else sector_free q tr se s)"
        using True P by (simp add: sector_free_def G assms(6))
      moreover have "(unat pos' + unat se div 8 = unat pos + unat sector div 8 \<and>
          bit_no (ty_of p s) se = bit_no (ty_of p s) sector) = ((q, tr, se) = (p, track, sector))"
      proof
        assume "unat pos' + unat se div 8 = unat pos + unat sector div 8 \<and>
          bit_no (ty_of p s) se = bit_no (ty_of p s) sector"
        then show "(q, tr, se) = (p, track, sector)" using inj [OF True] True by blast
      next
        assume "(q, tr, se) = (p, track, sector)"
        then show "unat pos' + unat se div 8 = unat pos + unat sector div 8 \<and>
          bit_no (ty_of p s) se = bit_no (ty_of p s) sector" using P assms(4) by simp
      qed
      ultimately show ?thesis by (simp only:)
    qed
  qed
  then show "free_set s' = (if v then insert (p, track, sector) (free_set s) else free_set s - {(p, track, sector)})"
    using assms(2,3) by (auto simp: free_set_def G split: if_splits)
  have "free_count q tr s' = free_count q tr s" if c: "counted q tr s" for q tr
  proof -
    obtain t' sec' pos' where P: "bam_position (ty_of q s) tr BAM_FREECOUNT = (t', sec', pos')"
      by (cases "bam_position (ty_of q s) tr BAM_FREECOUNT")
    have q: "part_ready q s" "ty_of q s \<noteq> 1" and ok': "track_ok (ty_of q s) (lst_of q s) tr"
      using c by (simp_all add: counted_def)
    note nb = position_ready [OF q(1) ok' P]
    have "unat pos + unat sector div 8 \<noteq> unat pos'" if "(q, t', sec') = (p, t, sec)"
      by (rule field_count_apart [OF ok, where t = "unat t" and sec = "unat sec" and tr' = tr])
        (use that ok' q position_field [OF ok assms(4)] position_count [OF ok' q(2) P] n [OF assms(2,3)] in auto)
    then show ?thesis using U [OF q(1) nb] P by (auto simp: free_count_def G Let_def)
  qed
  then show "counts s' = counts s" by (auto simp: counts_def G fun_eq_iff)
qed

lemma count_maps:
  assumes "cache_ok s" "counted p track s" "bam_position (ty_of p s) track BAM_FREECOUNT = (t, sec, pos)"
    "view_upd p t sec (unat pos) f s' s"
  shows "free_set s' = free_set s" "counts s' = (counts s)((p, track) := f (counts s (p, track)))"
proof -
  have g: "same_geo s' s" and U: "part_ready q s \<Longrightarrow> \<not> bad_ts q t' sec' s \<Longrightarrow> bam_view q t' sec' s' =
      (let b = bam_view q t' sec' s in if (q, t', sec') = (p, t, sec) then b[unat pos := f (b ! unat pos)] else b)" for q t' sec'
    using assms(4) by (simp_all add: view_upd_def)
  note G = same_geo_simps [OF g] and L = view_length [OF assms(1)]
  have p: "part_ready p s" "ty_of p s \<noteq> 1" and ok: "track_ok (ty_of p s) (lst_of p s) track"
    using assms(2) by (simp_all add: counted_def)
  have "sector_free q tr se s' = sector_free q tr se s" if q: "part_ready q s" "\<not> bad_ts q tr se s" for q tr se
  proof -
    obtain t' sec' pos' where P: "bam_position (ty_of q s) tr BAM_BITFIELD = (t', sec', pos')"
      by (cases "bam_position (ty_of q s) tr BAM_BITFIELD")
    note ok' = ready_track [OF q]
    note nb = position_ready [OF q(1) ok' P]
    have n: "unat se div 8 < (if ty_of q s = 4 then 5 else if ty_of q s = 1 then 32 else 3)"
      using valid_bound(2) [OF part_ready_sound [OF q(1)]] q(2) by (simp add: valid_iff)
    have "unat pos' + unat se div 8 \<noteq> unat pos" if "(q, t', sec') = (p, t, sec)"
      by (rule field_count_apart [OF ok', where t = "unat t" and sec = "unat sec" and tr' = track])
        (use that ok p n position_field [OF ok' P] position_count [OF ok p(2) assms(3)] in auto)
    then show ?thesis using U [OF q(1) nb] P by (auto simp: sector_free_def G Let_def)
  qed
  then show "free_set s' = free_set s" by (auto simp: free_set_def G)
  have "free_count q tr s' = (if (q, tr) = (p, track) then f (free_count p track s) else free_count q tr s)"
    if c: "counted q tr s" for q tr
  proof -
    obtain t' sec' pos' where P: "bam_position (ty_of q s) tr BAM_FREECOUNT = (t', sec', pos')"
      by (cases "bam_position (ty_of q s) tr BAM_FREECOUNT")
    have q: "part_ready q s" "ty_of q s \<noteq> 1" and ok': "track_ok (ty_of q s) (lst_of q s) tr"
      using c by (simp_all add: counted_def)
    note nb = position_ready [OF q(1) ok' P]
    have b0: "unat pos < 256" using count_bound [OF ok p(2) position_count [OF ok p(2) assms(3)]] .
    have "tr = track" if "(q, t', sec') = (p, t, sec)" "unat pos' = unat pos"
      by (rule count_inj [OF _ ok, where t = "unat t" and sec = "unat sec" and pos = "unat pos"])
        (use that ok' q position_count [OF ok p(2) assms(3)] position_count [OF ok' q(2) P] in auto)
    then show ?thesis using U [OF q(1) nb] P assms(3) b0 by (auto simp: free_count_def G nth_list_update Let_def L)
  qed
  then show "counts s' = (counts s)((p, track) := f (counts s (p, track)))"
    using assms(2) by (auto simp: counts_def G fun_eq_iff)
qed

section \<open>Allocating and freeing\<close>

text \<open>Moving the window and changing a byte there.\<close>

lemma step_modify:
  assumes "cache_ok s" "part_ready p s" "track_ok (ty_of p s) (lst_of p s) track"
    "bam_position (ty_of p s) track type = (t, sec, pos)" "unat pos + n < 256"
  obtains s1 where "move_bam_window p track type s = Some (0, unat pos, s1)" "cache_ok s1" "same_view s1 s"
    "bam_byte (unat pos + n) s1 = Some (bam_view p t sec s ! (unat pos + n))"
    "\<forall>f. \<exists>s2. bam_modify (unat pos + n) f s1 = Some s2 \<and> cache_ok s2 \<and> view_upd p t sec (unat pos + n) f s2 s"
proof -
  note nb = position_ready [OF assms(2-4)]
  obtain i s1 where M: "move_bam_window p track type s = Some (0, unat pos, s1)" "cache_ok s1" "same_view s1 s"
    "at_window i p t sec s1"
    by (rule move_bam_window_ok [OF assms(1,2,4) nb])
  note G = same_geo_simps [OF same_view_geo [OF M(3)]]
  have b: "bam_byte (unat pos + n) s1 = Some (bam_view p t sec s ! (unat pos + n))"
    using window_byte(1) [OF M(2,4) assms(5)] same_view_view [OF M(3) assms(2) nb] by simp
  have "\<exists>s2. bam_modify (unat pos + n) f s1 = Some s2 \<and> cache_ok s2 \<and> view_upd p t sec (unat pos + n) f s2 s" for f
  proof -
    obtain s2 where S: "bam_modify (unat pos + n) f s1 = Some s2" "cache_ok s2" "same_geo s2 s1"
      "\<forall>q t' sec'. part_ready q s1 \<longrightarrow> bam_view q t' sec' s2 = (let v = bam_view q t' sec' s1 in
        if (q, t', sec') = (p, t, sec) then v[unat pos + n := f (v ! (unat pos + n))] else v)"
      by (rule window_modify [OF M(2,4) assms(5) part_ready_not_255 [OF assms(2)]])
    have "view_upd p t sec (unat pos + n) f s2 s"
      using same_geo_trans [OF S(3) same_view_geo [OF M(3)]] S(4) same_view_view [OF M(3)] by (simp add: view_upd_def G)
    then show ?thesis using S by blast
  qed
  then show thesis using that [OF M(1-3) b] by blast
qed

lemma bit_step:
  assumes "cache_ok s" "part_ready p s" "\<not> bad_ts p track sector s"
    "\<And>b j. bit (f b) j = (if j = bit_no (ty_of p s) sector then v else bit b j)"
  obtains pos s1 s2 where "move_bam_window p track BAM_BITFIELD s = Some (0, pos, s1)" "imagetype p s1 = imagetype p s"
    "bam_modify (pos + unat sector div 8) f s1 = Some s2" "cache_ok s2" "same_geo s2 s"
    "free_set s2 = (if v then insert (p, track, sector) (free_set s) else free_set s - {(p, track, sector)})"
    "counts s2 = counts s"
proof -
  obtain t sec pos where P: "bam_position (ty_of p s) track BAM_BITFIELD = (t, sec, pos)"
    by (cases "bam_position (ty_of p s) track BAM_BITFIELD")
  note ok = ready_track [OF assms(2,3)]
  have "unat sector div 8 < (if ty_of p s = 4 then 5 else if ty_of p s = 1 then 32 else 3)"
    using valid_bound(2) [OF part_ready_sound [OF assms(2)]] assms(3) by (simp add: valid_iff)
  then have k: "unat pos + unat sector div 8 < 256" by (rule field_bound [OF ok position_field [OF ok P]])
  obtain s1 where S: "move_bam_window p track BAM_BITFIELD s = Some (0, unat pos, s1)" "same_view s1 s"
    "\<forall>f. \<exists>s2. bam_modify (unat pos + unat sector div 8) f s1 = Some s2 \<and> cache_ok s2 \<and>
       view_upd p t sec (unat pos + unat sector div 8) f s2 s"
    by (rule step_modify [OF assms(1,2) ok P k])
  obtain s2 where T: "bam_modify (unat pos + unat sector div 8) f s1 = Some s2" "cache_ok s2"
    "view_upd p t sec (unat pos + unat sector div 8) f s2 s"
    using S(3) by blast
  show thesis
    by (rule that [OF S(1) _ T(1,2) _ field_maps [OF assms(1-3) P T(3) assms(4)]])
      (use S(2) T(3) in \<open>simp_all add: same_view_def view_upd_def\<close>)
qed

lemma count_step:
  assumes "cache_ok s" "counted p track s"
  obtains pos s1 where "move_bam_window p track BAM_FREECOUNT s = Some (0, pos, s1)" "cache_ok s1" "same_view s1 s"
    "bam_byte pos s1 = Some (counts s (p, track))"
    "\<forall>f. \<exists>s2. bam_modify pos f s1 = Some s2 \<and> cache_ok s2 \<and> same_geo s2 s \<and> free_set s2 = free_set s \<and>
       counts s2 = (counts s)((p, track) := f (counts s (p, track)))"
proof -
  obtain t sec pos where P: "bam_position (ty_of p s) track BAM_FREECOUNT = (t, sec, pos)"
    by (cases "bam_position (ty_of p s) track BAM_FREECOUNT")
  have c: "part_ready p s" "ty_of p s \<noteq> 1" "track_ok (ty_of p s) (lst_of p s) track"
    using assms(2) by (simp_all add: counted_def)
  have k: "unat pos + 0 < 256" using count_bound [OF c(3,2) position_count [OF c(3,2) P]] by simp
  obtain s1 where S: "move_bam_window p track BAM_FREECOUNT s = Some (0, unat pos, s1)" "cache_ok s1" "same_view s1 s"
    "bam_byte (unat pos + 0) s1 = Some (bam_view p t sec s ! (unat pos + 0))"
    "\<forall>f. \<exists>s2. bam_modify (unat pos + 0) f s1 = Some s2 \<and> cache_ok s2 \<and> view_upd p t sec (unat pos + 0) f s2 s"
    by (rule step_modify [OF assms(1) c(1,3) P k])
  have b: "bam_byte (unat pos) s1 = Some (counts s (p, track))"
    using S(4) assms(2) P by (simp add: counts_def free_count_def)
  have "\<exists>s2. bam_modify (unat pos) f s1 = Some s2 \<and> cache_ok s2 \<and> same_geo s2 s \<and> free_set s2 = free_set s \<and>
       counts s2 = (counts s)((p, track) := f (counts s (p, track)))" for f
  proof -
    obtain s2 where T: "bam_modify (unat pos) f s1 = Some s2" "cache_ok s2" "view_upd p t sec (unat pos) f s2 s"
      using S(5) by auto
    then show ?thesis using count_maps [OF assms P T(3)] by (auto simp: view_upd_def)
  qed
  then show thesis using that [OF S(1-3) b] by blast
qed

definition counts_less :: "u8 \<Rightarrow> u8 \<Rightarrow> 'a fw_scheme \<Rightarrow> u8 \<times> u8 \<Rightarrow> u8" where
  "counts_less p track s =
     (if counts s (p, track) > 0 then (counts s)((p, track) := counts s (p, track) - 1) else counts s)"

definition counts_more :: "u8 \<Rightarrow> u8 \<Rightarrow> 'a fw_scheme \<Rightarrow> u8 \<times> u8 \<Rightarrow> u8" where
  "counts_more p track s =
     (if counted p track s \<and> w (counts s (p, track)) < sectors_per_track p track s
      then (counts s)((p, track) := counts s (p, track) + 1) else counts s)"

lemma dnp_counts: "imagetype p s = 1 \<Longrightarrow> counts s (p, track) = 0" "imagetype p s = 1 \<Longrightarrow> \<not> counted p track s"
  by (simp_all add: counts_def counted_def)

lemma counted_ready:
  assumes "part_ready p s" "\<not> bad_ts p track sector s" "imagetype p s \<noteq> 1"
  shows "counted p track s"
  using assms ready_track [OF assms(1,2)] by (auto simp: counted_def part_ready_def)

lemma ready_mask: "part_ready p s \<Longrightarrow> bam_mask (imagetype p s) sector = 2 ^ bit_no (ty_of p s) sector"
  by (rule bam_mask_pow) (simp add: part_ready_def)

text \<open>The part that both operations share: change the bit, then the counter when \<open>guard\<close> says so.\<close>

definition change_bam ::
  "u8 \<Rightarrow> u8 \<Rightarrow> u8 \<Rightarrow> (u8 \<Rightarrow> u8 \<Rightarrow> u8) \<Rightarrow> (u8 \<Rightarrow> 'a fw_scheme \<Rightarrow> bool) \<Rightarrow> (u8 \<Rightarrow> u8) \<Rightarrow> 'a fw_scheme \<Rightarrow> (u8 \<times> 'a fw_scheme) option" where
  "change_bam p track sector f guard h s = do {
     (res, pos, s) \<leftarrow> move_bam_window p track BAM_BITFIELD s;
     (if res \<noteq> 0 then Some (1, s)
      else do {
        s \<leftarrow> bam_modify (pos + unat (drop_bit 3 sector)) (f (bam_mask (imagetype p s) sector)) s;
        (if imagetype p s = D64_TYPE_DNP then Some (0, s)
         else do {
           (res, pos, s) \<leftarrow> move_bam_window p track BAM_FREECOUNT s;
           (if res \<noteq> 0 then Some (1, s)
            else do {
              b \<leftarrow> bam_byte pos s;
              (if guard b s then do { s \<leftarrow> bam_modify pos h s; Some (0, s) } else Some (0, s)) }) }) }) }"

lemma change_bam_ok:
  assumes "cache_ok s" "part_ready p s" "\<not> bad_ts p track sector s"
    "\<And>b j. bit (f (2 ^ bit_no (ty_of p s) sector) b) j = (if j = bit_no (ty_of p s) sector then v else bit b j)"
    "\<And>b s'. same_geo s' s \<Longrightarrow> guard b s' = guard b s"
  obtains s' where "change_bam p track sector f guard h s = Some (0, s')" "cache_ok s'" "same_geo s' s"
    "free_set s' = (if v then insert (p, track, sector) (free_set s) else free_set s - {(p, track, sector)})"
    "counts s' = (if counted p track s \<and> guard (counts s (p, track)) s
       then (counts s)((p, track) := h (counts s (p, track))) else counts s)"
proof -
  obtain pos s1 s2 where S: "move_bam_window p track BAM_BITFIELD s = Some (0, pos, s1)" "imagetype p s1 = imagetype p s"
    "bam_modify (pos + unat sector div 8) (f (2 ^ bit_no (ty_of p s) sector)) s1 = Some s2" "cache_ok s2" "same_geo s2 s"
    "free_set s2 = (if v then insert (p, track, sector) (free_set s) else free_set s - {(p, track, sector)})"
    "counts s2 = counts s"
    by (rule bit_step [OF assms(1-3), where f = "f (2 ^ bit_no (ty_of p s) sector)" and v = v]) (rule assms(4))
  note G = same_geo_simps [OF S(5)]
  show thesis
  proof (cases "imagetype p s = 1")
    case True
    show ?thesis
      by (rule that [OF _ S(4-6)]) (use S True ready_mask [OF assms(2), of sector] in \<open>simp_all add: change_bam_def drop_3 G dnp_counts\<close>)
  next
    case False
    note c = counted_ready [OF assms(2,3) False]
    obtain pos3 s3 where C: "move_bam_window p track BAM_FREECOUNT s2 = Some (0, pos3, s3)" "cache_ok s3" "same_view s3 s2"
      "bam_byte pos3 s3 = Some (counts s2 (p, track))"
      "\<forall>f. \<exists>s4. bam_modify pos3 f s3 = Some s4 \<and> cache_ok s4 \<and> same_geo s4 s2 \<and> free_set s4 = free_set s2 \<and>
         counts s4 = (counts s2)((p, track) := f (counts s2 (p, track)))"
      by (rule count_step [OF S(4), of p track]) (use c in \<open>simp add: G\<close>)
    obtain s4 where D: "bam_modify pos3 h s3 = Some s4" "cache_ok s4" "same_geo s4 s2" "free_set s4 = free_set s2"
      "counts s4 = (counts s2)((p, track) := h (counts s2 (p, track)))"
      using C(5) by blast
    note g3 = same_geo_trans [OF same_view_geo [OF C(3)] S(5)] and M = same_view_maps [OF C(3)]
    have e: "change_bam p track sector f guard h s =
        Some (0, if guard (counts s (p, track)) s then s4 else s3)"
      using S(1-3,7) C(1,4) D(1) False assms(5) [OF g3]
      by (simp add: change_bam_def drop_3 ready_mask [OF assms(2)] G)
    show ?thesis
      by (rule that [OF e])
        (use C(2) D(2-5) g3 same_geo_trans [OF D(3) S(5)] M S(6,7) c in \<open>simp_all\<close>)
  qed
qed

lemma allocate_sector_ok:
  assumes "cache_ok s" "part_ready p s" "\<not> bad_ts p track sector s"
  obtains s' where "allocate_sector p track sector s = Some (0, s')" "cache_ok s'" "same_geo s' s"
    "free_set s' = free_set s - {(p, track, sector)}"
    "counts s' = (if (p, track, sector) \<in> free_set s then counts_less p track s else counts s)"
proof -
  have fr: "sector_free p track sector s \<longleftrightarrow> (p, track, sector) \<in> free_set s"
    using assms(2,3) by (simp add: free_set_def)
  obtain s1 where I: "is_free p track sector s = Some (if sector_free p track sector s then 1 else 0, s1)"
    "cache_ok s1" "same_view s1 s"
    by (rule is_free_ok [OF assms])
  note M1 = same_view_maps [OF I(3)] and G1 = same_geo_simps [OF same_view_geo [OF I(3)]]
  have def': "allocate_sector p track sector s = (if sector_free p track sector s
      then change_bam p track sector (\<lambda>m b. b AND NOT m) (\<lambda>b s. b > 0) (\<lambda>b. b - 1) s1 else Some (0, s1))"
    using I(1) by (simp add: allocate_sector_def change_bam_def)
  obtain s2 where S: "change_bam p track sector (\<lambda>m b. b AND NOT m) (\<lambda>b s. b > 0) (\<lambda>b. b - 1) s1 = Some (0, s2)"
    "cache_ok s2" "same_geo s2 s1"
    "free_set s2 = (if False then insert (p, track, sector) (free_set s1) else free_set s1 - {(p, track, sector)})"
    "counts s2 = (if counted p track s1 \<and> counts s1 (p, track) > 0
       then (counts s1)((p, track) := counts s1 (p, track) - 1) else counts s1)"
    by (rule change_bam_ok [OF I(2), where p = p and track = track and sector = sector and f = "\<lambda>m b. b AND NOT m"
        and guard = "\<lambda>b s. b > 0" and h = "\<lambda>b. b - 1" and v = False]) (use assms in \<open>simp_all add: G1 bit_and_not_pow2\<close>)
  show thesis
  proof (cases "sector_free p track sector s")
    case True
    have "counted p track s" if "counts s (p, track) > 0" using that by (simp add: counts_def split: if_splits)
    then show ?thesis using True fr S M1 def' same_geo_trans [OF S(3) same_view_geo [OF I(3)]]
      by (intro that [of s2]) (auto simp: counts_less_def G1)
  next
    case False
    then show ?thesis using fr I M1 def' same_view_geo [OF I(3)] by (intro that [of s1]) simp_all
  qed
qed

lemma free_sector_ok:
  assumes "cache_ok s" "part_ready p s" "\<not> bad_ts p track sector s"
  obtains s' where "free_sector p track sector s = Some (0, s')" "cache_ok s'" "same_geo s' s"
    "free_set s' = insert (p, track, sector) (free_set s)"
    "counts s' = (if (p, track, sector) \<in> free_set s then counts s else counts_more p track s)"
proof -
  have fr: "sector_free p track sector s \<longleftrightarrow> (p, track, sector) \<in> free_set s"
    using assms(2,3) by (simp add: free_set_def)
  obtain s1 where I: "is_free p track sector s = Some (if sector_free p track sector s then 1 else 0, s1)"
    "cache_ok s1" "same_view s1 s"
    by (rule is_free_ok [OF assms])
  note M1 = same_view_maps [OF I(3)] and G1 = same_geo_simps [OF same_view_geo [OF I(3)]]
  let ?g = "\<lambda>b s. w b < sectors_per_track p track s"
  have def': "free_sector p track sector s = (if sector_free p track sector s then Some (0, s1)
      else change_bam p track sector (\<lambda>m b. b OR m) ?g (\<lambda>b. b + 1) s1)"
    using I(1) by (simp add: free_sector_def change_bam_def)
  obtain s2 where S: "change_bam p track sector (\<lambda>m b. b OR m) ?g (\<lambda>b. b + 1) s1 = Some (0, s2)"
    "cache_ok s2" "same_geo s2 s1"
    "free_set s2 = (if True then insert (p, track, sector) (free_set s1) else free_set s1 - {(p, track, sector)})"
    "counts s2 = (if counted p track s1 \<and> ?g (counts s1 (p, track)) s1
       then (counts s1)((p, track) := counts s1 (p, track) + 1) else counts s1)"
    by (rule change_bam_ok [OF I(2), where p = p and track = track and sector = sector and f = "\<lambda>m b. b OR m"
        and guard = ?g and h = "\<lambda>b. b + 1" and v = True])
      (use assms bit_no_less [of "ty_of p s" sector] in \<open>simp_all add: G1 bit_or_pow2 same_geo_bad\<close>)
  show thesis
  proof (cases "sector_free p track sector s")
    case True
    then show ?thesis using fr I M1 def' same_view_geo [OF I(3)] by (intro that [of s1]) auto
  next
    case False
    then show ?thesis using fr S M1 def' same_geo_trans [OF S(3) same_view_geo [OF I(3)]]
      by (intro that [of s2]) (auto simp: counts_more_def G1)
  qed
qed

end
