(* ===== verification/D64_Free.thy ===== *)
theory D64_Free
  imports D64_Alloc D64_Format
begin

text \<open>
  What the allocation functions promise: the counter of a track is the number of its free
  sectors, \<open>sectors_free\<close> reports it, and loops over sectors allocate or free exactly these.
\<close>

section \<open>Exact counters\<close>

definition free_on :: "u8 \<Rightarrow> u8 \<Rightarrow> 'a fw_scheme \<Rightarrow> u8 set" where
  "free_on q tr s = {se. (q, tr, se) \<in> free_set s}"

definition counts_exact :: "'a fw_scheme \<Rightarrow> bool" where
  "counts_exact s \<longleftrightarrow> (\<forall>q tr. counted q tr s \<longrightarrow> unat (counts s (q, tr)) = card (free_on q tr s))"

lemma finite_u8 [simp]: "finite (A :: u8 set)"
  by (rule finite_subset [OF subset_UNIV]) simp

lemma card_below: "card {se :: u8. unat se < n} \<le> n"
proof -
  have "unat ` {se :: u8. unat se < n} \<subseteq> {..<n}" by auto
  then have "card (unat ` {se :: u8. unat se < n}) \<le> card {..<n}" by (intro card_mono) simp_all
  moreover have "card (unat ` {se :: u8. unat se < n}) = card {se :: u8. unat se < n}"
    by (rule card_image) (simp add: inj_on_def word_unat_eq_iff)
  ultimately show ?thesis by simp
qed

lemma free_on_valid: "se \<in> free_on q tr s \<Longrightarrow> unat se < unat (sectors_per_track q tr s)"
  by (auto simp: free_on_def free_set_def bad_ts_def word_less_nat_alt word_le_nat_alt not_less)

lemma free_on_card: "card (free_on q tr s) \<le> unat (sectors_per_track q tr s)"
proof -
  have "free_on q tr s \<subseteq> {se. unat se < unat (sectors_per_track q tr s)}" using free_on_valid by blast
  then have "card (free_on q tr s) \<le> card {se :: u8. unat se < unat (sectors_per_track q tr s)}"
    by (intro card_mono) simp_all
  then show ?thesis using card_below [of "unat (sectors_per_track q tr s)"] by (rule order_trans)
qed

lemma counted_spt: "counted q tr s \<Longrightarrow> unat (sectors_per_track q tr s) \<le> 40"
  using part_ready_sound [of q s]
  by (auto simp: counted_def sectors_per_track_def spt_of_def sound_type_def Let_def)

lemma allocate_exact:
  assumes "counts_exact s" "same_geo s' s" "free_set s' = free_set s - {(p, track, sector)}"
    "counts s' = (if (p, track, sector) \<in> free_set s then counts_less p track s else counts s)"
  shows "counts_exact s'"
  unfolding counts_exact_def
proof (intro allI impI)
  fix q tr assume c': "counted q tr s'"
  then have c: "counted q tr s" by (simp add: same_geo_simps [OF assms(2)])
  note e = assms(1) [unfolded counts_exact_def, rule_format, OF c]
  show "unat (counts s' (q, tr)) = card (free_on q tr s')"
  proof (cases "(q, tr) = (p, track) \<and> (p, track, sector) \<in> free_set s")
    case True
    then have f: "free_on q tr s' = free_on q tr s - {sector}" "sector \<in> free_on q tr s"
      using assms(3) by (auto simp: free_on_def)
    then have "card (free_on q tr s) > 0" by (auto simp: card_gt_0_iff)
    then have "counts s (q, tr) > 0" using e by (simp add: word_less_nat_alt)
    then show ?thesis using True e f assms(4) by (simp add: counts_less_def unat_sub word_le_nat_alt word_less_nat_alt Suc_leI)
  next
    case False
    then have "free_on q tr s' = free_on q tr s" using assms(3) by (auto simp: free_on_def)
    then show ?thesis using False e assms(4) by (auto simp: counts_less_def)
  qed
qed

lemma free_exact:
  assumes "counts_exact s" "same_geo s' s" "part_ready p s" "\<not> bad_ts p track sector s"
    "free_set s' = insert (p, track, sector) (free_set s)"
    "counts s' = (if (p, track, sector) \<in> free_set s then counts s else counts_more p track s)"
  shows "counts_exact s'"
  unfolding counts_exact_def
proof (intro allI impI)
  fix q tr assume c': "counted q tr s'"
  then have c: "counted q tr s" by (simp add: same_geo_simps [OF assms(2)])
  note e = assms(1) [unfolded counts_exact_def, rule_format, OF c]
  show "unat (counts s' (q, tr)) = card (free_on q tr s')"
  proof (cases "(q, tr) = (p, track) \<and> (p, track, sector) \<notin> free_set s")
    case True
    then have f: "free_on q tr s' = insert sector (free_on q tr s)" "sector \<notin> free_on q tr s"
      using assms(5) by (auto simp: free_on_def)
    have n: "card (free_on q tr s') = Suc (card (free_on q tr s))" using f by simp
    have "card (free_on q tr s') \<le> unat (sectors_per_track q tr s)"
      using free_on_card [of q tr s'] by (simp add: same_geo_simps [OF assms(2)])
    then have "card (free_on q tr s) < unat (sectors_per_track q tr s)" using n by simp
    then have "w (counts s (q, tr)) < sectors_per_track q tr s" using e by (simp add: word_less_nat_alt)
    moreover have "unat (counts s (q, tr)) < 255" using counted_spt [OF c] n e \<open>card (free_on q tr s) < _\<close> by simp
    ultimately show ?thesis using True e assms(6) c n by (auto simp: counts_more_def unat_Suc_u8)
  next
    case False
    then have "free_on q tr s' = free_on q tr s" using assms(5) by (auto simp: free_on_def)
    then show ?thesis using False e assms(6) by (auto simp: counts_more_def)
  qed
qed

section \<open>Counting the sectors of a track\<close>

lemma bits_expand: "(x :: u8) = (\<Sum>k<8. of_bool (bit x k) * 2 ^ k)"
proof -
  have "x = horner_sum of_bool 2 (map (bit x) [0..<8])"
    using horner_sum_bit_eq_take_bit [of x 8] by (simp add: take_bit_word_eq_self)
  then show ?thesis by (simp add: horner_sum_eq_sum lessThan_atLeast0)
qed

lemma count_bits_sum:
  "count_bits (of_bool b0 + of_bool b1 * 2 + of_bool b2 * 4 + of_bool b3 * 8 + of_bool b4 * 16 + of_bool b5 * 32 +
     of_bool b6 * 64 + of_bool b7 * 128) =
   of_bool b0 + of_bool b1 + of_bool b2 + of_bool b3 + of_bool b4 + of_bool b5 + of_bool b6 + of_bool b7"
  by (cases b0; cases b1; cases b2; cases b3; cases b4; cases b5; cases b6; cases b7)
    (simp_all add: count_bits_def drop_bit_eq_div)

lemma sum_8: "(\<Sum>k<8. f k) = f 0 + f 1 + f 2 + f 3 + f 4 + f 5 + f 6 + (f (7 :: nat) :: u8)"
proof -
  have "{..<8 :: nat} = {0, 1, 2, 3, 4, 5, 6, 7}" by auto
  then show ?thesis by (simp add: add.assoc)
qed

lemma count_bits_card: "unat (count_bits x) = card {k. k < 8 \<and> bit x k}"
proof -
  have "count_bits x = (\<Sum>k<8. of_bool (bit x k))"
    using bits_expand [of x] count_bits_sum [of "bit x 0" "bit x 1" "bit x 2" "bit x 3" "bit x 4" "bit x 5" "bit x 6" "bit x 7"]
    unfolding sum_8 by simp
  also have "\<dots> = of_nat (card {k. k < 8 \<and> bit x k})"
    by (simp add: sum_of_bool_eq Int_def)
  finally show ?thesis
    using card_mono [of "{..<8 :: nat}" "{k. k < 8 \<and> bit x k}"] by (simp add: unat_of_nat subset_iff)
qed

lemma count_bytes:
  "sum_list (map (\<lambda>b. w (count_bits b)) xs) = of_nat (\<Sum>m<length xs. card {k. k < 8 \<and> bit (xs ! m) k})"
proof (induction xs rule: rev_induct)
  case (snoc x xs)
  have "(\<Sum>m<length xs. card {k. k < 8 \<and> bit ((xs @ [x]) ! m) k}) = (\<Sum>m<length xs. card {k. k < 8 \<and> bit (xs ! m) k})"
    by (rule sum.cong) (simp_all add: nth_append)
  then show ?case using snoc count_bits_card [of x] w_of_nat [of "count_bits x"] by simp
qed simp

text \<open>The bits of a DNP track, byte by byte from the most significant bit.\<close>

lemma card_msb_first:
  fixes v :: "nat \<Rightarrow> u8"
  shows "card {se :: u8. bit (v (unat se div 8)) (7 - unat se mod 8)} = (\<Sum>m<32. card {k. k < 8 \<and> bit (v m) k})"
proof -
  let ?A = "SIGMA m:{..<32}. {k. k < 8 \<and> bit (v m) k}"
  let ?f = "\<lambda>(m, k). of_nat (8 * m + (7 - k)) :: u8"
  let ?g = "\<lambda>se :: u8. (unat se div 8, 7 - unat se mod 8)"
  have u: "unat (of_nat (8 * m + (7 - k)) :: u8) = 8 * m + (7 - k)" if "m < 32" "k < 8" for m k
    by (rule unat_of_nat_u8) (use that in simp)
  have m: "(8 * m + (7 - k)) div 8 = m" "7 - (8 * m + (7 - k)) mod 8 = k" if "k < 8" for m k :: nat
  proof -
    have "(8 * m + j) div 8 = m" "(8 * m + j) mod 8 = j" if "j < 8" for j using that by simp_all
    from this [of "7 - k"] show "(8 * m + (7 - k)) div 8 = m" "7 - (8 * m + (7 - k)) mod 8 = k"
      using that by (simp_all del: Nat.add_diff_assoc)
  qed
  have d: "unat se div 8 < 32" for se :: u8 using u8_lt_256 [of se] by (intro less_mult_imp_div_less) simp
  have "bij_betw ?f ?A {se. bit (v (unat se div 8)) (7 - unat se mod 8)}"
  proof (rule bij_betw_byWitness [where f' = ?g])
    show "\<forall>a\<in>?A. ?g (?f a) = a" by (auto simp: u m simp del: of_nat_add of_nat_mult of_nat_diff Nat.add_diff_assoc)
    show "\<forall>se\<in>{se. bit (v (unat se div 8)) (7 - unat se mod 8)}. ?f (?g se) = se"
    proof
      fix se :: u8
      have "8 * (unat se div 8) + (7 - (7 - unat se mod 8)) = unat se" by simp
      then show "?f (?g se) = se" by (simp only: split_conv) simp
    qed
    show "?f ` ?A \<subseteq> {se. bit (v (unat se div 8)) (7 - unat se mod 8)}"
      by (auto simp: u m simp del: of_nat_add of_nat_mult of_nat_diff Nat.add_diff_assoc)
    show "?g ` {se. bit (v (unat se div 8)) (7 - unat se mod 8)} \<subseteq> ?A" by (auto simp: d)
  qed
  then have "card ?A = card {se :: u8. bit (v (unat se div 8)) (7 - unat se mod 8)}" by (rule bij_betw_same_card)
  moreover have "card ?A = (\<Sum>m<32. card {k. k < 8 \<and> bit (v m) k})" by (simp add: card_SigmaI)
  ultimately show ?thesis by simp
qed

lemma sectors_free_ok:
  assumes "cache_ok s" "counts_exact s" "part_ready p s" "track_ok (ty_of p s) (lst_of p s) track"
  obtains s' where "sectors_free p track s = Some (of_nat (card (free_on p track s)), s')" "cache_ok s'" "same_view s' s"
proof -
  have r: "\<not> (track < 1 \<or> get_param p LAST_TRACK s < track)"
    using assms(4) by (auto simp: track_ok_def word_less_nat_alt)
  show thesis
  proof (cases "ty_of p s = 1")
    case False
    then have c: "counted p track s" using assms(3,4) by (simp add: counted_def)
    obtain pos s1 where S: "move_bam_window p track BAM_FREECOUNT s = Some (0, pos, s1)" "cache_ok s1" "same_view s1 s"
      "bam_byte pos s1 = Some (counts s (p, track))"
      by (rule count_step [OF assms(1) c])
    have "w (counts s (p, track)) = of_nat (card (free_on p track s))"
      using assms(2) c w_of_nat [of "counts s (p, track)"] by (simp add: counts_exact_def)
    moreover have "imagetype p s1 = imagetype p s" using S(3) by (simp add: same_view_def)
    ultimately show ?thesis using S r False by (intro that [of s1]) (simp_all add: sectors_free_def)
  next
    case True
    obtain t sec pos where P: "bam_position (ty_of p s) track BAM_FREECOUNT = (t, sec, pos)"
      by (cases "bam_position (ty_of p s) track BAM_FREECOUNT")
    then have P': "bam_position (ty_of p s) track BAM_BITFIELD = (t, sec, pos)"
      using True by (simp add: bam_position_def)
    note nb = position_ready [OF assms(3,4) P]
    obtain i s1 where M: "move_bam_window p track BAM_FREECOUNT s = Some (0, unat pos, s1)" "cache_ok s1" "same_view s1 s"
      "at_window i p t sec s1"
      by (rule move_bam_window_ok [OF assms(1,3) P nb])
    have it: "imagetype p s1 = imagetype p s" using M(3) by (simp add: same_view_def)
    let ?v = "bam_view p t sec s"
    have d: "b_data (buf i s1) = ?v" "bam_buffer s1 = Some i"
      using view_hit [of s1 i p t sec] same_view_view [OF M(3) assms(3) nb] M(4) by (simp_all add: at_window_def)
    have l: "length ?v = 256" by (rule view_length [OF assms(1)])
    have k: "unat pos + 31 < 256"
      by (rule field_bound [OF assms(4) position_field [OF assms(4) P']]) (simp add: True)
    have "\<not> bad_ts p track se s" for se
      using r True u8_lt_256 [of se] by (auto simp: bad_ts_def sectors_per_track_def spt_of_def word_le_nat_alt simp del: u8_lt_256)
    then have "free_on p track s = {se. bit (?v ! (unat pos + unat se div 8)) (7 - unat se mod 8)}"
      using assms(3) True P' by (auto simp: free_on_def free_set_def sector_free_def bit_no_def)
    then have "card (free_on p track s) = (\<Sum>m<32. card {k. k < 8 \<and> bit (?v ! (unat pos + m)) k})"
      using card_msb_first [of "\<lambda>m. ?v ! (unat pos + m)"] by simp
    moreover have "sum_list (map (\<lambda>b. w (count_bits b)) (take 32 (drop (unat pos) ?v))) =
        of_nat (\<Sum>m<32. card {k. k < 8 \<and> bit (?v ! (unat pos + m)) k})"
      using count_bytes [of "take 32 (drop (unat pos) ?v)"] l k by simp
    ultimately show ?thesis using M r True k l d by (intro that [of s1]) (simp_all add: sectors_free_def it)
  qed
qed

section \<open>A pool of sectors\<close>

fun each :: "('k \<Rightarrow> 's \<Rightarrow> 's option) \<Rightarrow> 'k list \<Rightarrow> 's \<Rightarrow> 's option" where
  "each f [] s = Some s"
| "each f (k # ks) s = do { s \<leftarrow> f k s; each f ks s }"

text \<open>
  The contract of the allocation functions towards the code that lays out an image: a set of
  free sectors, from which one operation takes a sector and to which another returns one.
\<close>

locale sector_pool =
  fixes ok :: "'s \<Rightarrow> bool"
    and valid :: "'k \<Rightarrow> 's \<Rightarrow> bool"
    and free :: "'s \<Rightarrow> 'k set"
    and take_one :: "'k \<Rightarrow> 's \<Rightarrow> 's option"
    and give_back :: "'k \<Rightarrow> 's \<Rightarrow> 's option"
  assumes take_law: "ok s \<Longrightarrow> valid k s \<Longrightarrow>
      \<exists>s'. take_one k s = Some s' \<and> ok s' \<and> (\<forall>x. valid x s' = valid x s) \<and> free s' = free s - {k}"
    and give_law: "ok s \<Longrightarrow> valid k s \<Longrightarrow>
      \<exists>s'. give_back k s = Some s' \<and> ok s' \<and> (\<forall>x. valid x s' = valid x s) \<and> free s' = insert k (free s)"
begin

lemma take_all:
  assumes "ok s" "\<forall>k \<in> set ks. valid k s"
  shows "\<exists>s'. each take_one ks s = Some s' \<and> ok s' \<and> (\<forall>x. valid x s' = valid x s) \<and> free s' = free s - set ks"
  using assms
proof (induction ks arbitrary: s)
  case (Cons k ks)
  obtain s1 where S: "take_one k s = Some s1" "ok s1" "\<forall>x. valid x s1 = valid x s" "free s1 = free s - {k}"
    using take_law Cons.prems by fastforce
  have "\<exists>s'. each take_one ks s1 = Some s' \<and> ok s' \<and> (\<forall>x. valid x s' = valid x s1) \<and> free s' = free s1 - set ks"
    using Cons.IH [OF S(2)] Cons.prems(2) S(3) by simp
  then show ?case using S by auto
qed simp

lemma give_all:
  assumes "ok s" "\<forall>k \<in> set ks. valid k s"
  shows "\<exists>s'. each give_back ks s = Some s' \<and> ok s' \<and> (\<forall>x. valid x s' = valid x s) \<and> free s' = set ks \<union> free s"
  using assms
proof (induction ks arbitrary: s)
  case (Cons k ks)
  obtain s1 where S: "give_back k s = Some s1" "ok s1" "\<forall>x. valid x s1 = valid x s" "free s1 = insert k (free s)"
    using give_law Cons.prems by fastforce
  have "\<exists>s'. each give_back ks s1 = Some s' \<and> ok s' \<and> (\<forall>x. valid x s' = valid x s1) \<and> free s' = set ks \<union> free s1"
    using Cons.IH [OF S(2)] Cons.prems(2) S(3) by simp
  then show ?case using S by auto
qed simp

text \<open>Freeing everything and taking some back leaves exactly the rest.\<close>

lemma layout:
  assumes "ok s" "\<forall>k \<in> set ks. valid k s" "\<forall>k \<in> set rs. valid k s"
  shows "\<exists>s1 s2. each give_back ks s = Some s1 \<and> each take_one rs s1 = Some s2 \<and> ok s2 \<and>
    free s2 = (set ks \<union> free s) - set rs"
  using give_all [OF assms(1,2)] take_all assms(3) by fastforce

end

definition sector_take :: "u8 \<times> u8 \<times> u8 \<Rightarrow> 'a fw_scheme \<Rightarrow> 'a fw_scheme option" where
  "sector_take k s = (case k of (p, t, sec) \<Rightarrow> map_option snd (allocate_sector p t sec s))"

definition sector_give :: "u8 \<times> u8 \<times> u8 \<Rightarrow> 'a fw_scheme \<Rightarrow> 'a fw_scheme option" where
  "sector_give k s = (case k of (p, t, sec) \<Rightarrow> map_option snd (free_sector p t sec s))"

definition bam_ok :: "'a fw_scheme \<Rightarrow> bool" where
  "bam_ok s \<longleftrightarrow> cache_ok s \<and> counts_exact s"

definition on_disk :: "u8 \<times> u8 \<times> u8 \<Rightarrow> 'a fw_scheme \<Rightarrow> bool" where
  "on_disk k s \<longleftrightarrow> (case k of (p, t, sec) \<Rightarrow> part_ready p s \<and> \<not> bad_ts p t sec s)"

lemma sector_take_law:
  assumes "bam_ok s" "on_disk k s"
  shows "\<exists>s'. sector_take k s = Some s' \<and> bam_ok s' \<and> (\<forall>x. on_disk x s' = on_disk x s) \<and> free_set s' = free_set s - {k}"
proof -
  obtain p t sec where k: "k = (p, t, sec)" by (cases k)
  have a: "cache_ok s" "part_ready p s" "\<not> bad_ts p t sec s" "counts_exact s"
    using assms by (simp_all add: k on_disk_def bam_ok_def)
  obtain s' where S: "allocate_sector p t sec s = Some (0, s')" "cache_ok s'" "same_geo s' s"
    "free_set s' = free_set s - {(p, t, sec)}"
    "counts s' = (if (p, t, sec) \<in> free_set s then counts_less p t s else counts s)"
    by (rule allocate_sector_ok [OF a(1-3)])
  then show ?thesis using allocate_exact [OF a(4) S(3-5)] same_geo_simps [OF S(3)]
    by (auto simp: k sector_take_def bam_ok_def on_disk_def)
qed

lemma sector_give_law:
  assumes "bam_ok s" "on_disk k s"
  shows "\<exists>s'. sector_give k s = Some s' \<and> bam_ok s' \<and> (\<forall>x. on_disk x s' = on_disk x s) \<and> free_set s' = insert k (free_set s)"
proof -
  obtain p t sec where k: "k = (p, t, sec)" by (cases k)
  have a: "cache_ok s" "part_ready p s" "\<not> bad_ts p t sec s" "counts_exact s"
    using assms by (simp_all add: k on_disk_def bam_ok_def)
  obtain s' where S: "free_sector p t sec s = Some (0, s')" "cache_ok s'" "same_geo s' s"
    "free_set s' = insert (p, t, sec) (free_set s)"
    "counts s' = (if (p, t, sec) \<in> free_set s then counts s else counts_more p t s)"
    by (rule free_sector_ok [OF a(1-3)])
  then show ?thesis using free_exact [OF a(4) S(3) a(2,3) S(4,5)] same_geo_simps [OF S(3)]
    by (auto simp: k sector_give_def bam_ok_def on_disk_def)
qed

interpretation bam: sector_pool bam_ok on_disk free_set sector_take sector_give
  by unfold_locales (rule sector_take_law sector_give_law; assumption)+

lemma free_loop_each: "free_sectors_loop p ts s = each sector_give (map (\<lambda>(t, sec). (p, t, sec)) ts) s"
  by (induction p ts s rule: free_sectors_loop.induct)
    (auto simp: sector_give_def map_option_case split: option.splits)

lemma allocate_sectors_each: "allocate_sectors p t secs s = each sector_take (map (\<lambda>sec. (p, t, of_nat sec)) secs) s"
  by (induction p t secs s rule: allocate_sectors.induct)
    (auto simp: sector_take_def map_option_case split: option.splits)

end
