(* ===== verification/D64_First.thy ===== *)
theory D64_First
  imports D64_Free
begin

text \<open>
  The search for the first sector of a new file on D41, D71 and D81 images: it always ends,
  on the free track nearest to the directory track.
\<close>

section \<open>Looking at a track\<close>

lemma same_view_free_on: "same_view s' s \<Longrightarrow> free_on p t s' = free_on p t s"
  by (simp add: free_on_def same_view_maps)

lemma same_view_bam_ok:
  assumes "same_view s' s" "cache_ok s'" "bam_ok s"
  shows "bam_ok s'"
  using assms same_geo_simps(4) [OF same_view_geo [OF assms(1)]] same_view_maps [OF assms(1)]
  by (simp add: bam_ok_def counts_exact_def free_on_def)

lemma free_on_valid_track: "se \<in> free_on p t s \<Longrightarrow> 1 \<le> unat t \<and> unat t \<le> unat (lst_of p s)"
  by (auto simp: free_on_def free_set_def valid_iff valid_ts_def)

lemma card_free_on: "(of_nat (card (free_on p t s)) :: u16) = 0 \<longleftrightarrow> free_on p t s = {}"
proof -
  have "card (free_on p t s) \<le> card (UNIV :: u8 set)" by (intro card_mono) simp_all
  then have "card (free_on p t s) \<le> 256" by (simp add: card_word)
  then have "unat (of_nat (card (free_on p t s)) :: u16) = card (free_on p t s)" by (intro unat_of_nat_u16) simp
  then show ?thesis by (simp only: word_unat_eq_iff unat_0) simp
qed

lemma sectors_free_any:
  assumes "bam_ok s" "part_ready p s"
  obtains s' where "sectors_free p track s = Some (of_nat (card (free_on p track s)), s')" "cache_ok s'" "same_view s' s"
proof (cases "track_ok (ty_of p s) (lst_of p s) track")
  case True
  then show ?thesis using sectors_free_ok [of s p track] assms that by (auto simp: bam_ok_def)
next
  case False
  then have "\<not> (1 \<le> unat track \<and> unat track \<le> unat (lst_of p s))"
    using part_ready_sound [OF assms(2)] by (simp add: track_ok_def)
  then have "free_on p track s = {}" "track < 1 \<or> get_param p LAST_TRACK s < track"
    using free_on_valid_track by (force simp: word_less_nat_alt word_le_nat_alt not_le)+
  then show ?thesis using that [of s] assms(1) by (simp add: sectors_free_def bam_ok_def)
qed

lemma sint_small: "d < 128 \<Longrightarrow> sint (of_nat d :: u8) = int d" "d < 128 \<Longrightarrow> sint (- of_nat d :: u8) = - int d"
proof -
  have "sint (word_of_int k :: u8) = k" if "- 128 \<le> k" "k < 128" for k
    using that by (simp add: signed_of_int signed_take_bit_int_eq_self)
  from this [of "int d"] this [of "- int d"]
  show "d < 128 \<Longrightarrow> sint (of_nat d :: u8) = int d" "d < 128 \<Longrightarrow> sint (- of_nat d :: u8) = - int d" by simp_all
qed

section \<open>The search for a track\<close>

definition empty_at :: "u8 \<Rightarrow> nat \<Rightarrow> 'a fw_scheme \<Rightarrow> bool" where
  "empty_at p k s \<longleftrightarrow> free_on p (get_param p DIR_TRACK s - of_nat k) s = {} \<and>
     free_on p (get_param p DIR_TRACK s + of_nat k) s = {}"

definition nearest :: "u8 \<Rightarrow> nat \<Rightarrow> 8 word \<Rightarrow> 'a fw_scheme \<Rightarrow> bool" where
  "nearest p d dist s \<longleftrightarrow> (\<exists>e. d \<le> e \<and> e < unat (get_param p LAST_TRACK s) \<and>
     (\<forall>k. d \<le> k \<and> k < e \<longrightarrow> empty_at p k s) \<and> (dist = of_nat e \<or> dist = - of_nat e) \<and>
     free_on p (get_param p DIR_TRACK s - dist) s \<noteq> {})"

lemma same_view_params:
  assumes "same_view s' s"
  shows "get_param p x s' = get_param p x s" "empty_at p k s' = empty_at p k s" "nearest p d dist s' = nearest p d dist s"
proof -
  have g: "get_param p x s' = get_param p x s" for x
    using assms by (simp add: same_view_def get_param_def)
  show "get_param p x s' = get_param p x s" by (rule g)
  show "empty_at p k s' = empty_at p k s" "nearest p d dist s' = nearest p d dist s"
    by (simp_all add: empty_at_def nearest_def g same_view_free_on [OF assms] del: get_param_simps)
qed

lemma first_track_loop_ok:
  assumes "bam_ok s" "part_ready p s" "1 \<le> d" "d \<le> unat (get_param p LAST_TRACK s)" "unat (get_param p LAST_TRACK s) < 128"
  shows "\<exists>dist s'. first_track_loop p (of_nat d) s = Some (dist, s') \<and> cache_ok s' \<and> same_view s' s \<and>
    (if \<forall>k. d \<le> k \<and> k < unat (get_param p LAST_TRACK s) \<longrightarrow> empty_at p k s
     then dist = of_nat (unat (get_param p LAST_TRACK s)) else nearest p d dist s)"
  using assms
proof (induction "unat (get_param p LAST_TRACK s) - d" arbitrary: d s)
  case 0
  then have d: "d = unat (get_param p LAST_TRACK s)" by simp
  then have "\<not> sint (of_nat d :: u8) < int (unat (get_param p LAST_TRACK s))" using sint_small(1) [of d] 0 by simp
  then have "first_track_loop p (of_nat d) s = Some (of_nat d, s)"
    by (subst first_track_loop.simps) (simp only: if_False)
  then show ?case using 0 d by (auto simp: bam_ok_def)
next
  case (Suc n)
  let ?L = "unat (get_param p LAST_TRACK s)" and ?D = "get_param p DIR_TRACK s"
  have d: "d < ?L" "d < 128" using Suc.hyps(2) Suc.prems(5) by linarith+
  have "int d < int ?L" using d(1) by (simp only: of_nat_less_iff)
  then have du: "int d < uint (get_param p LAST_TRACK s)" "- int d < uint (get_param p LAST_TRACK s)"
    by (simp_all del: get_param_simps)
  obtain s1 where S: "sectors_free p (?D - of_nat d) s = Some (of_nat (card (free_on p (?D - of_nat d) s)), s1)"
    "cache_ok s1" "same_view s1 s"
    by (rule sectors_free_any [OF Suc.prems(1,2)])
  note V1 = same_view_params [OF S(3)] same_view_free_on [OF S(3)]
  note ok1 = same_view_bam_ok [OF S(3,2) Suc.prems(1)]
  have r1: "part_ready p s1" using S(3) Suc.prems(2) by (simp add: same_view_def)
  show ?case
  proof (cases "free_on p (?D - of_nat d) s = {}")
    case False
    have e: "first_track_loop p (of_nat d) s = Some (of_nat d, s1)"
      using False d du S(1) by (subst first_track_loop.simps) (simp add: sint_small card_free_on del: get_param_simps)
    have "nearest p d (of_nat d) s" using False d by (auto simp: nearest_def)
    moreover have "\<not> empty_at p d s" using False by (simp add: empty_at_def)
    ultimately show ?thesis using e S d by auto
  next
    case lo: True
    obtain s2 where T: "sectors_free p (?D + of_nat d) s1 = Some (of_nat (card (free_on p (?D + of_nat d) s)), s2)"
      "cache_ok s2" "same_view s2 s1"
      using sectors_free_any [OF ok1 r1, of "?D + of_nat d"] V1(4) by metis
    have v2: "same_view s2 s" using T(3) S(3) by (rule same_view_trans)
    note V2 = same_view_params [OF v2] same_view_free_on [OF v2]
    have e1: "first_track_loop p (of_nat d) s = first_track_loop p (- of_nat d) s1"
      using lo d du S(1) Suc.prems(3) by (subst first_track_loop.simps) (simp add: sint_small Let_def del: get_param_simps)
    show ?thesis
    proof (cases "free_on p (?D + of_nat d) s = {}")
      case False
      have e: "first_track_loop p (of_nat d) s = Some (- of_nat d, s2)"
        unfolding e1 using False d du T(1)
        by (subst first_track_loop.simps) (simp add: sint_small card_free_on V1 del: get_param_simps)
      have "nearest p d (- of_nat d) s" using False d by (auto simp: nearest_def intro!: exI [of _ d])
      moreover have "\<not> empty_at p d s" using False by (simp add: empty_at_def)
      ultimately show ?thesis using e T(2) v2 d by auto
    next
      case hi: True
      have e: "first_track_loop p (of_nat d) s = first_track_loop p (of_nat (Suc d)) s2"
        unfolding e1 using hi d du T(1) Suc.prems(3)
        by (subst first_track_loop.simps) (simp add: sint_small V1 add.commute del: get_param_simps)
      have em: "empty_at p d s" using lo hi by (simp add: empty_at_def)
      have "\<exists>dist s'. first_track_loop p (of_nat (Suc d)) s2 = Some (dist, s') \<and> cache_ok s' \<and> same_view s' s2 \<and>
        (if \<forall>k. Suc d \<le> k \<and> k < unat (get_param p LAST_TRACK s2) \<longrightarrow> empty_at p k s2
         then dist = of_nat (unat (get_param p LAST_TRACK s2)) else nearest p (Suc d) dist s2)"
        by (rule Suc.hyps(1)) (use Suc.hyps(2) Suc.prems d same_view_bam_ok [OF v2 T(2) Suc.prems(1)] v2 in
          \<open>simp_all add: V2(1) same_view_def del: get_param_simps\<close>)
      then obtain dist s' where R: "first_track_loop p (of_nat (Suc d)) s2 = Some (dist, s')" "cache_ok s'" "same_view s' s2"
        "if \<forall>k. Suc d \<le> k \<and> k < ?L \<longrightarrow> empty_at p k s then dist = of_nat ?L else nearest p (Suc d) dist s"
        unfolding V2 by blast
      have q: "(\<forall>k. d \<le> k \<and> k < N \<longrightarrow> empty_at p k s) = (\<forall>k. Suc d \<le> k \<and> k < N \<longrightarrow> empty_at p k s)" for N
        using em by (metis Suc_leD le_antisym not_less_eq_eq)
      have "nearest p (Suc d) dist s \<Longrightarrow> nearest p d dist s"
        unfolding nearest_def q using Suc_leD by blast
      then show ?thesis using R same_view_trans [OF R(3) v2] unfolding q e by (auto split: if_splits)
    qed
  qed
qed

section \<open>The search for a sector\<close>

lemma first_free_sector_ok:
  assumes "bam_ok s" "part_ready p s" "se \<in> free_on p track s" "n \<le> unat se" "\<forall>x \<in> free_on p track s. n \<le> unat x"
    "\<forall>x \<in> free_on p track s. unat se \<le> unat x"
  shows "\<exists>s'. first_free_sector p track (of_nat n) s = Some (Some se, s')"
  using assms
proof (induction "unat se - n" arbitrary: n s)
  case 0
  then have "n = unat se" by simp
  then have n: "of_nat n = se" by simp
  have v: "\<not> bad_ts p track se s" using 0(4) by (simp add: free_on_def free_set_def)
  then have c: "w se < sectors_per_track p track s" by (simp add: bad_ts_def not_le)
  obtain s1 where "is_free p track se s = Some (if sector_free p track se s then 1 else 0, s1)"
    using is_free_ok [OF _ 0(3) v] 0(2) by (auto simp: bam_ok_def)
  moreover have "sector_free p track se s" using 0(4) by (simp add: free_on_def free_set_def)
  ultimately show ?case unfolding n using c by (subst first_free_sector.simps) simp
next
  case (Suc k)
  have lt: "n < unat se" using Suc.hyps(2) by linarith
  then have n: "unat (of_nat n :: u8) = n" using u8_lt_256 [of se] by (intro unat_of_nat_u8) linarith
  have "\<not> bad_ts p track se s" using Suc.prems(3) by (simp add: free_on_def free_set_def)
  then have v: "\<not> bad_ts p track (of_nat n) s" using lt n by (simp add: valid_iff valid_ts_def)
  then have c: "w (of_nat n) < sectors_per_track p track s" by (simp only: bad_ts_def not_le de_Morgan_disj)
  have nf: "of_nat n \<notin> free_on p track s" using Suc.prems(6) lt n by force
  then have "\<not> sector_free p track (of_nat n) s" using v Suc.prems(2) by (simp add: free_on_def free_set_def)
  then obtain s1 where I: "is_free p track (of_nat n) s = Some (0, s1)" "cache_ok s1" "same_view s1 s"
    using is_free_ok [OF _ Suc.prems(2) v] Suc.prems(1) by (auto simp: bam_ok_def)
  have sn: "(of_nat (Suc n) :: u8) = of_nat n + 1" by simp
  have st: "first_free_sector p track x s = first_free_sector p track (x + 1) s1"
    if "w x < sectors_per_track p track s" "is_free p track x s = Some (0, s1)" for x
    using that by (subst first_free_sector.simps) simp
  have "first_free_sector p track (of_nat n) s = first_free_sector p track (of_nat (Suc n)) s1"
    unfolding sn by (rule st [OF c I(1)])
  moreover have "\<exists>s'. first_free_sector p track (of_nat (Suc n)) s1 = Some (Some se, s')"
  proof (rule Suc.hyps(1))
    show "bam_ok s1" by (rule same_view_bam_ok [OF I(3,2) Suc.prems(1)])
    show "part_ready p s1" using I(3) Suc.prems(2) by (simp add: same_view_def)
  qed (use Suc.hyps(2) Suc.prems lt I(3) in \<open>auto simp: same_view_free_on\<close>)
  ultimately show ?case by simp
qed

lemma first_sector_on_ok:
  assumes "bam_ok s" "part_ready p s" "free_on p track s \<noteq> {}"
  shows "\<exists>se s'. first_sector_on p track s = Some (0, track, se, s') \<and> se \<in> free_on p track s \<and>
    (\<forall>x \<in> free_on p track s. se \<le> x)"
proof -
  obtain se where se: "se \<in> free_on p track s" "\<forall>x \<in> free_on p track s. se \<le> x"
    using Min_in [OF finite_u8 assms(3)] Min_le [OF finite_u8] by blast
  have "\<exists>s'. first_free_sector p track (of_nat 0) s = Some (Some se, s')"
    using first_free_sector_ok [OF assms(1,2) se(1), of 0] se(2) by (simp add: word_le_nat_alt)
  then show ?thesis using se by (auto simp: first_sector_on_def)
qed

text \<open>Words at a distance from the directory track: the track number does not wrap.\<close>

lemma track_distance:
  assumes "1 \<le> unat t" "unat t \<le> l" "1 \<le> unat (dir :: u8)" "unat dir \<le> l" "l < 128"
  shows "t = dir - of_nat e \<Longrightarrow> e < l \<Longrightarrow> int (unat dir) - int (unat t) = int e"
    "t = dir + of_nat e \<Longrightarrow> e < l \<Longrightarrow> int (unat t) - int (unat dir) = int e"
proof -
  have e: "unat (of_nat e :: u8) = e" if "e < l" using that assms(5) by (intro unat_of_nat_u8) simp
  show "int (unat dir) - int (unat t) = int e" if "t = dir - of_nat e" "e < l"
  proof (cases "e \<le> unat dir")
    case True
    then show ?thesis using that e by (simp add: unat_sub word_le_nat_alt)
  next
    case False
    have "unat t = 256 + unat dir - e" using that False e [OF that(2)] by (simp add: unat_sub_if_size word_size)
    then show ?thesis using assms that(2) False by linarith
  qed
  show "int (unat t) - int (unat dir) = int e" if "t = dir + of_nat e" "e < l"
    using that e assms by (simp add: unat_word_ariths)
qed

section \<open>The first sector\<close>

definition gap :: "u8 \<Rightarrow> u8 \<Rightarrow> int" where
  "gap a b = \<bar>int (unat a) - int (unat b)\<bar>"

lemma disk_full_error:
  obtains s' where "disk_full s = Some s'" "current_error s' \<noteq> 0"
proof (cases "current_error s = 0")
  case True
  obtain s' where "set_error_ts 72 0 0 s = Some s'" "current_error s' = 72" by (rule set_error_frame [of 72 0 0 s]) simp_all
  then show ?thesis using that True by (simp add: disk_full_def set_error_def)
next
  case False
  then show ?thesis using that by (simp add: disk_full_def)
qed

lemma not_empty_at:
  assumes "part_ready p s" "1 \<le> get_param p DIR_TRACK s" "get_param p DIR_TRACK s \<le> get_param p LAST_TRACK s"
    "unat (get_param p LAST_TRACK s) < 128" "free_on p t s \<noteq> {}" "t \<noteq> get_param p DIR_TRACK s" "gap t (get_param p DIR_TRACK s) = int k"
  shows "\<not> empty_at p k s" "1 \<le> k" "k < unat (get_param p LAST_TRACK s)"
proof -
  let ?D = "get_param p DIR_TRACK s" and ?L = "unat (get_param p LAST_TRACK s)"
  have t: "1 \<le> unat t" "unat t \<le> ?L" using assms(5) free_on_valid_track by auto
  have D: "1 \<le> unat ?D" "unat ?D \<le> ?L" using assms(2,3) by (simp_all add: word_le_nat_alt)
  have ne: "unat t \<noteq> unat ?D" using assms(6) by (simp add: u8_eq_iff)
  show "1 \<le> k" "k < ?L" using assms(7) ne t D unfolding gap_def by linarith+
  have "t = ?D - of_nat k \<or> t = ?D + of_nat k"
  proof (cases "unat t < unat ?D")
    case True
    then have "unat ?D = unat t + k" using assms(7) unfolding gap_def by linarith
    then have "of_nat (unat ?D) = (of_nat (unat t + k) :: u8)" by (simp only:)
    then show ?thesis by (simp add: algebra_simps del: get_param_simps)
  next
    case False
    then have "unat t = unat ?D + k" using assms(7) unfolding gap_def by linarith
    then have "of_nat (unat t) = (of_nat (unat ?D + k) :: u8)" by (simp only:)
    then show ?thesis by (simp del: get_param_simps)
  qed
  then show "\<not> empty_at p k s" using assms(5) by (auto simp: empty_at_def simp del: get_param_simps)
qed

lemma get_first_sector_ok:
  assumes "bam_ok s" "part_ready p s" "imagetype p s \<noteq> 1" "1 \<le> get_param p DIR_TRACK s"
    "get_param p DIR_TRACK s \<le> get_param p LAST_TRACK s" "unat (get_param p LAST_TRACK s) < 128"
  shows "\<exists>res t se s'. get_first_sector p s = Some (res, t, se, s') \<and>
    (if \<exists>x. x \<noteq> get_param p DIR_TRACK s \<and> free_on p x s \<noteq> {}
     then res = 0 \<and> t \<noteq> get_param p DIR_TRACK s \<and> se \<in> free_on p t s \<and> (\<forall>x \<in> free_on p t s. se \<le> x) \<and>
       (\<forall>x. x \<noteq> get_param p DIR_TRACK s \<longrightarrow> free_on p x s \<noteq> {} \<longrightarrow> gap t (get_param p DIR_TRACK s) \<le> gap x (get_param p DIR_TRACK s))
     else res = 1 \<and> current_error s' \<noteq> 0)"
proof -
  let ?D = "get_param p DIR_TRACK s" and ?L = "unat (get_param p LAST_TRACK s)"
  have D: "1 \<le> unat ?D" "unat ?D \<le> ?L" using assms(4,5) by (simp_all add: word_le_nat_alt)
  obtain dist s1 where F: "first_track_loop p 1 s = Some (dist, s1)" "cache_ok s1" "same_view s1 s"
    "if \<forall>k. 1 \<le> k \<and> k < ?L \<longrightarrow> empty_at p k s then dist = of_nat ?L else nearest p 1 dist s"
    using first_track_loop_ok [OF assms(1,2), of 1] D assms(6) by auto
  note V = same_view_params [OF F(3)] same_view_free_on [OF F(3)]
  have ok1: "bam_ok s1" "part_ready p s1" using same_view_bam_ok [OF F(3,2) assms(1)] F(3) assms(2) by (simp_all add: same_view_def)
  have at: "\<exists>k. gap x ?D = int k \<and> 1 \<le> k \<and> k < ?L \<and> \<not> empty_at p k s" if "x \<noteq> ?D" "free_on p x s \<noteq> {}" for x
  proof -
    obtain k where k: "gap x ?D = int k" using nonneg_int_cases [of "gap x ?D"] by (auto simp: gap_def)
    then show ?thesis using not_empty_at [OF assms(2,4,5,6) that(2,1) k] by blast
  qed
  show ?thesis
  proof (cases "\<forall>k. 1 \<le> k \<and> k < ?L \<longrightarrow> empty_at p k s")
    case True
    obtain s2 where s2: "disk_full s1 = Some s2" "current_error s2 \<noteq> 0" by (rule disk_full_error)
    have "sint dist = int ?L" using F(4) True sint_small(1) [OF assms(6)] by simp
    then have "get_first_sector p s = Some (1, 0, 0, s2)"
      using F(1) assms(3) s2(1) by (simp add: get_first_sector_def V(1) del: get_param_simps)
    moreover have "\<not> (\<exists>x. x \<noteq> ?D \<and> free_on p x s \<noteq> {})" using at True by blast
    ultimately show ?thesis using s2(2) by auto
  next
    case False
    then have "nearest p 1 dist s" using F(4) by (simp only: if_False)
    then obtain e where N: "1 \<le> e" "e < ?L" "\<forall>k. 1 \<le> k \<and> k < e \<longrightarrow> empty_at p k s" "dist = of_nat e \<or> dist = - of_nat e"
      "free_on p (?D - dist) s \<noteq> {}"
      unfolding nearest_def by blast
    let ?t = "?D - dist"
    have t: "1 \<le> unat ?t" "unat ?t \<le> ?L" using N(5) free_on_valid_track [of _ p ?t s] by auto
    have g: "gap ?t ?D = int e"
      using track_distance [OF t D assms(6), of e] N(2,4) by (auto simp: gap_def)
    then have nd: "?t \<noteq> ?D" using N(1) by (auto simp: gap_def)
    have "e < 128" using N(2) assms(6) by linarith
    then have "sint dist = int e \<or> sint dist = - int e" using N(4) sint_small [of e] by blast
    then have "sint dist \<noteq> int ?L" using N(2) by linarith
    moreover obtain se s2 where S: "first_sector_on p ?t s1 = Some (0, ?t, se, s2)" "se \<in> free_on p ?t s" "\<forall>x \<in> free_on p ?t s. se \<le> x"
      using first_sector_on_ok [OF ok1, of ?t] N(5) V(4) by metis
    ultimately have r: "get_first_sector p s = Some (0, ?t, se, s2)"
      using F(1) assms(3) by (simp add: get_first_sector_def V(1) del: get_param_simps)
    have "gap ?t ?D \<le> gap x ?D" if x: "x \<noteq> ?D" "free_on p x s \<noteq> {}" for x
    proof -
      obtain k where k: "gap x ?D = int k" "1 \<le> k" "\<not> empty_at p k s" using at [OF x] by blast
      have "\<not> k < e" using N(3) k by blast
      then show ?thesis using g k(1) by simp
    qed
    moreover have ex: "\<exists>x. x \<noteq> ?D \<and> free_on p x s \<noteq> {}" using nd N(5) by blast
    ultimately show ?thesis unfolding if_P [OF ex] using r nd S(2,3) by blast
  qed
qed

end
