(* ===== verification/D64_Bam_Props.thy ===== *)
theory D64_Bam_Props
  imports D64_First
begin

text \<open>
  Properties of the block allocation map of mounted images: the cache is invisible, and the
  allocation functions keep the set of free sectors and its counters.
\<close>

section \<open>A mounted image for the concrete instances\<close>

definition disk1 :: fw where
  "disk1 = disk0\<lparr>max_part := 1\<rparr>"

lemma disk1_simps:
  "partitions disk1 = partitions disk0" "io_script disk1 = []" "bam_buffer disk1 = None" "bam_buffer2 disk1 = None"
  "buffers disk1 = buffers (buffers_init fw0)" "max_part disk1 = 1"
  by (simp_all add: disk1_def disk0_simps)

lemma disk1_pool: "pool_ok disk1"
proof -
  have "bufs_ok disk1" using disk0_bufs by (simp add: disk1_def bufs_ok_def cnt_def)
  moreover have "length (b_data (buf k disk1)) = 256" if "k < 32" for k
    using that by (simp add: disk1_simps buffers_init_def fw0_def upd_buf_def buf_clear_def buf_zero_def nth_append)
  ultimately show ?thesis by (simp add: pool_ok_def)
qed

lemma disk1_mount:
  obtains path' s' where "d64_mount path0 [] disk1 = Some (0, path', s')" "part 0 s' = (part 0 disk0)\<lparr>pt_d64data := d41param, pt_imagetype := 2\<rparr>"
proof -
  let ?s = "upd_part 0 (\<lambda>pt. pt\<lparr>pt_d64data := d41param\<rparr>) disk1"
  have "bam_buffer_alloc ?s \<noteq> None \<and> fst (the (bam_buffer_alloc ?s)) = 0"
    using bam_alloc_first [of ?s] by (simp add: disk1_simps)
  then obtain bp s2 where "bam_buffer_alloc ?s = Some (0, bp, s2)" by force
  then obtain path' s' where m: "d64_mount path0 [] disk1 = Some (0, path', s')"
    by (simp add: d64_mount_def path0_def d64_image_kind_def disk0_simps disk1_simps Let_def)
  obtain ty param where K: "d64_image_kind [] (fl_size (image 0 disk1)) = Some (Some (ty, param))"
    "partitions s' = partitions (upd_part 0 (\<lambda>pt. pt\<lparr>pt_d64data := param, pt_imagetype := ty\<rparr>) disk1)"
    by (rule d64_mount_cases [OF m]) (simp add: path0_def)
  have "ty = 2" "param = d41param" using K(1) by (simp_all add: d64_image_kind_def disk0_simps disk1_simps)
  then show ?thesis using K(2) disk0_simps(1) by (intro that [OF m]) (simp add: upd_part_def disk1_simps)
qed

lemma mounted1:
  obtains s :: fw where "bam_ok s" "part_ready 0 s" "ty_of 0 s = 2" "lst_of 0 s = 35" "free_set s = {}"
    "pt_d64data (part 0 s) = d41param"
proof -
  obtain path' s where m: "d64_mount path0 [] disk1 = Some (0, path', s)"
    "part 0 s = (part 0 disk0)\<lparr>pt_d64data := d41param, pt_imagetype := 2\<rparr>"
    by (rule disk1_mount)
  obtain i where C: "cache_ok s" "bam_buffer s = Some i" "fst (slot_tag i s) = 255" "bam_buffer2 s = None"
    "max_part s = max_part disk1"
    by (rule mount_starts_cache [OF m(1) disk1_pool]) (simp_all add: disk1_simps)
  have d: "disk_ready 0 s" "image 0 s = image 0 disk0"
    using d64_mount_ready [OF m(1)] disk0_simps by (simp_all add: path0_def disk1_simps)
  have t: "ty_of 0 s = 2" "lst_of 0 s = 35" using m(2) by (simp_all add: d41param_def)
  have r: "part_ready q s \<longleftrightarrow> q = 0" for q
    using d C(5) disk0_simps(5) m(2) by (auto simp: part_ready_def disk1_simps word_less_nat_alt unat_eq_0)
  have z: "bam_view 0 t sec s = replicate 256 0" for t sec
    using view_uncached [OF C(2-4), of 0 t sec] d(2) disk0_simps(8)
    by (simp add: sector_data_def mem_read_def map_replicate_const)
  have k: "unat pos + unat se div 8 < 256" if "\<not> bad_ts 0 tr se s" "bam_position (ty_of 0 s) tr BAM_BITFIELD = (t, sec, pos)" for tr se t sec pos
  proof -
    have "part_ready 0 s" by (simp add: r)
    from ready_track [OF this that(1)] have ok: "track_ok (ty_of 0 s) (lst_of 0 s) tr" .
    show ?thesis using field_bound [OF ok position_field [OF ok that(2)]] valid_bound(2) [OF part_ready_sound [OF \<open>part_ready 0 s\<close>]] that(1)
      by (simp add: valid_iff)
  qed
  have f: "free_set s = {}"
    using k by (fastforce simp: free_set_def r sector_free_def z)
  have "counts s (q, tr) = 0" for q tr
    by (auto simp: counts_def counted_def r free_count_def z split: prod.split)
  then have "counts_exact s" using f by (simp add: counts_exact_def free_on_def)
  then show thesis using that C(1) r t f m(2) by (simp add: bam_ok_def)
qed

section \<open>Properties\<close>

text \<open>
  C7. Moving the BAM window is invisible: for every track of a mounted image it succeeds,
  the first buffer then holds the BAM sector of the track as it was (cached or on the
  image), the contents of all sectors of all images as the BAM code sees them stay the same,
  and the cache stays coherent, whatever had to be allocated, swapped, written back or read.
\<close>

theorem bam_window_transparent:
  assumes "cache_ok s" "part_ready p s" "1 \<le> track" "track \<le> get_param p LAST_TRACK s"
    "bam_position (ty_of p s) track type = (t, sec, pos)"
  shows "\<exists>i s'. move_bam_window p track type s = Some (0, unat pos, s') \<and> bam_buffer s' = Some i \<and>
    b_data (buf i s') = bam_view p t sec s \<and> same_view s' s \<and> cache_ok s'"
proof -
  have "track_ok (ty_of p s) (lst_of p s) track"
    using assms(3,4) part_ready_sound [OF assms(2)] by (simp add: track_ok_def word_le_nat_alt)
  note nb = position_ready [OF assms(2) this assms(5)]
  obtain i s' where M: "move_bam_window p track type s = Some (0, unat pos, s')" "cache_ok s'" "same_view s' s"
    "at_window i p t sec s'"
    by (rule move_bam_window_ok [OF assms(1,2,5) nb])
  have "b_data (buf i s') = bam_view p t sec s"
    using view_hit [of s' i p t sec] same_view_view [OF M(3) assms(2) nb] M(4) by (simp add: at_window_def)
  then show ?thesis using M by (auto simp: at_window_def)
qed

theorem bam_window_transparent_witness:
  "\<exists>(s :: fw) i s'. bam_position (ty_of 0 s) 1 BAM_BITFIELD = (18, 0, 5) \<and>
    move_bam_window 0 1 BAM_BITFIELD s = Some (0, 5, s') \<and> bam_buffer s' = Some i \<and>
    b_data (buf i s') = bam_view 0 18 0 s \<and> same_view s' s \<and> cache_ok s'"
proof -
  obtain s :: fw where M: "bam_ok s" "part_ready 0 s" "ty_of 0 s = 2" "lst_of 0 s = 35" by (rule mounted1)
  have P: "bam_position (ty_of 0 s) 1 BAM_BITFIELD = (18, 0, 5)" unfolding M(3) by (simp add: bam_position_def)
  have "\<exists>i s'. move_bam_window 0 1 BAM_BITFIELD s = Some (0, unat (5 :: u8), s') \<and> bam_buffer s' = Some i \<and>
    b_data (buf i s') = bam_view 0 18 0 s \<and> same_view s' s \<and> cache_ok s'"
    by (rule bam_window_transparent [OF _ M(2) _ _ P])
      (use M(1,4) in \<open>simp_all add: bam_ok_def word_le_nat_alt get_param_def\<close>)
  then show ?thesis using P by auto
qed

text \<open>
  C30. \<open>allocate_sector\<close> on a sector of a mounted image succeeds, takes exactly this sector
  out of the set of free sectors of all images, and lowers exactly the counter of its track
  by one, if the sector was free and the counter is not zero (DNP images have none).
\<close>

theorem allocate_sector_takes:
  assumes "cache_ok s" "part_ready p s" "\<not> bad_ts p track sector s"
  shows "\<exists>s'. allocate_sector p track sector s = Some (0, s') \<and> cache_ok s' \<and>
    free_set s' = free_set s - {(p, track, sector)} \<and>
    counts s' = (if (p, track, sector) \<in> free_set s \<and> counts s (p, track) > 0
      then (counts s)((p, track) := counts s (p, track) - 1) else counts s)"
  by (rule allocate_sector_ok [OF assms]) (auto simp: counts_less_def)

theorem allocate_sector_takes_witness:
  "\<exists>(s :: fw) s'. allocate_sector 0 1 0 s = Some (0, s') \<and> free_set s' = {} \<and> counts s' = counts s"
proof -
  obtain s :: fw where M: "bam_ok s" "part_ready 0 s" "ty_of 0 s = 2" "lst_of 0 s = 35" "free_set s = {}"
    by (rule mounted1)
  have "\<not> bad_ts 0 1 0 s" using M(3,4) by (simp add: valid_iff) (simp add: valid_ts_def spt_of_def Let_def)
  then show ?thesis using allocate_sector_takes [of s 0 1 0] M by (auto simp: bam_ok_def)
qed

text \<open>
  C31. \<open>free_sector\<close> on a sector of a mounted image succeeds, adds exactly this sector to the
  set of free sectors, and raises the counter of its track by one if the sector was
  allocated, never above the number of sectors on the track.
\<close>

theorem free_sector_gives:
  assumes "cache_ok s" "part_ready p s" "\<not> bad_ts p track sector s"
  shows "\<exists>s'. free_sector p track sector s = Some (0, s') \<and> cache_ok s' \<and>
    free_set s' = insert (p, track, sector) (free_set s) \<and>
    counts s' = (if (p, track, sector) \<notin> free_set s \<and> counted p track s \<and>
        unat (counts s (p, track)) < unat (sectors_per_track p track s)
      then (counts s)((p, track) := counts s (p, track) + 1) else counts s)"
  by (rule free_sector_ok [OF assms]) (auto simp: counts_more_def word_less_nat_alt)

theorem free_sector_gives_witness:
  "\<exists>(s :: fw) s'. free_sector 0 1 0 s = Some (0, s') \<and> free_set s' = {(0, 1, 0)}"
proof -
  obtain s :: fw where M: "bam_ok s" "part_ready 0 s" "ty_of 0 s = 2" "lst_of 0 s = 35" "free_set s = {}"
    by (rule mounted1)
  have "\<not> bad_ts 0 1 0 s" using M(3,4) by (simp add: valid_iff) (simp add: valid_ts_def spt_of_def Let_def)
  then show ?thesis using free_sector_gives [of s 0 1 0] M by (auto simp: bam_ok_def)
qed



section \<open>Laying out an image\<close>

lemma track_pairs_valid:
  assumes "part_ready p s"
  shows "(t, sec) \<in> set (track_pairs p (all_tracks p s) s) \<longleftrightarrow> \<not> bad_ts p t sec s"
proof
  assume "(t, sec) \<in> set (track_pairs p (all_tracks p s) s)"
  then obtain tn sn where "tn \<in> {1..<unat (lst_of p s) + 1}" "sn \<in> {0..<unat (sectors_per_track p (of_nat tn) s)}"
    "(t, sec) = (of_nat tn, of_nat sn)"
    unfolding track_pairs_def all_tracks_def set_concat set_map set_upt get_param_simps image_image by blast
  then have n: "t = of_nat tn" "sec = of_nat sn" "1 \<le> tn" "tn \<le> unat (lst_of p s)"
    "sn < unat (sectors_per_track p t s)" by simp_all
  have "tn < 256" using n(4) u8_lt_256 [of "lst_of p s"] by linarith
  then have "unat t = tn" using n(1) by (simp add: unat_of_nat_u8)
  moreover have "unat (sec :: u8) \<le> sn" using n(2) by (simp add: unat_of_nat)
  ultimately show "\<not> bad_ts p t sec s" using n
    by (auto simp: bad_ts_def word_le_nat_alt word_less_nat_alt)
next
  assume "\<not> bad_ts p t sec s"
  then have "unat t \<in> {1..<unat (lst_of p s) + 1}" "unat sec \<in> {0..<unat (sectors_per_track p (of_nat (unat t)) s)}"
    "(t, sec) = (of_nat (unat t), of_nat (unat sec))"
    by (auto simp: bad_ts_def word_le_nat_alt word_less_nat_alt not_less)
  then show "(t, sec) \<in> set (track_pairs p (all_tracks p s) s)"
    unfolding track_pairs_def all_tracks_def set_concat set_map set_upt get_param_simps image_image by blast
qed

text \<open>
  C32. The layout step of formatting: after \<open>free_sectors_loop\<close> over all tracks and
  \<open>allocate_sectors\<close> for the reserved sectors of a track, the free sectors of the image are
  exactly those inside it that are not reserved, and all counters are exact.
\<close>

theorem format_layout:
  assumes "cache_ok s" "counts_exact s" "part_ready p s"
    "\<forall>sec \<in> set secs. sec < 256 \<and> \<not> bad_ts p track (of_nat sec) s"
  shows "\<exists>s1 s2. free_sectors_loop p (track_pairs p (all_tracks p s) s) s = Some s1 \<and>
    allocate_sectors p track secs s1 = Some s2 \<and> counts_exact s2 \<and>
    (\<forall>t sec. (p, t, sec) \<in> free_set s2 \<longleftrightarrow> \<not> bad_ts p t sec s \<and> \<not> (t = track \<and> unat sec \<in> set secs))"
proof -
  let ?ks = "map (\<lambda>(t, sec). (p, t, sec)) (track_pairs p (all_tracks p s) s)"
  let ?rs = "map (\<lambda>sec. (p, track, of_nat sec)) secs :: (u8 \<times> u8 \<times> u8) list"
  have ks: "\<forall>k \<in> set ?ks. on_disk k s" "\<forall>k \<in> set ?rs. on_disk k s"
    using track_pairs_valid [OF assms(3)] assms(3,4) by (auto simp: on_disk_def)
  have ok: "bam_ok s" using assms(1,2) by (simp add: bam_ok_def)
  obtain s1 s2 where S: "each sector_give ?ks s = Some s1" "each sector_take ?rs s1 = Some s2" "bam_ok s2"
    "free_set s2 = (set ?ks \<union> free_set s) - set ?rs"
    using bam.layout [OF ok ks] by blast
  have "(p, t, sec) \<in> set ?ks \<union> free_set s \<longleftrightarrow> \<not> bad_ts p t sec s" for t sec
    using track_pairs_valid [OF assms(3)] by (auto simp: free_set_def)
  moreover have "(p, t, sec) \<in> set ?rs \<longleftrightarrow> t = track \<and> unat sec \<in> set secs" for t sec
    using assms(4) by (force simp: image_iff unat_of_nat_u8)
  ultimately show ?thesis using S by (auto simp: free_loop_each allocate_sectors_each bam_ok_def)
qed

theorem format_layout_witness:
  "\<exists>(s :: fw) s1 s2. free_sectors_loop 0 (track_pairs 0 (all_tracks 0 s) s) s = Some s1 \<and>
    allocate_sectors 0 18 [0, 1] s1 = Some s2 \<and> (0, 18, 0) \<notin> free_set s2 \<and> (0, 18, 2) \<in> free_set s2"
proof -
  obtain s :: fw where M: "bam_ok s" "part_ready 0 s" "ty_of 0 s = 2" "lst_of 0 s = 35" "free_set s = {}"
    by (rule mounted1)
  have v: "\<not> bad_ts 0 18 0 s" "\<not> bad_ts 0 18 1 s" "\<not> bad_ts 0 18 2 s"
    using M(3,4) by (simp_all add: valid_iff) (simp_all add: valid_ts_def spt_of_def Let_def)
  have "\<exists>s1 s2. free_sectors_loop 0 (track_pairs 0 (all_tracks 0 s) s) s = Some s1 \<and>
    allocate_sectors 0 18 [0, 1] s1 = Some s2 \<and> counts_exact s2 \<and>
    (\<forall>t sec. (0, t, sec) \<in> free_set s2 \<longleftrightarrow> \<not> bad_ts 0 t sec s \<and> \<not> (t = 18 \<and> unat sec \<in> set [0, 1]))"
    by (rule format_layout) (use M(1,2) v in \<open>simp_all add: bam_ok_def\<close>)
  then show ?thesis using v by fastforce
qed

section \<open>The first sector of a file\<close>

lemma sound_last: "part_ready p s \<Longrightarrow> ty_of p s \<noteq> 1 \<Longrightarrow> unat (lst_of p s) < 128"
  using part_ready_sound [of p s] by (auto simp: sound_type_def)

text \<open>
  C33. On D41, D71 and D81 images \<open>get_first_sector\<close> always ends.  If any track but the
  directory track has a free sector, it returns a free sector: the lowest one on a track
  than which none with free sectors is nearer to the directory track.  Otherwise it fails
  with an error on the error channel.
\<close>

theorem get_first_sector_nearest:
  assumes "cache_ok s" "counts_exact s" "part_ready p s" "ty_of p s \<noteq> 1"
    "1 \<le> get_param p DIR_TRACK s" "get_param p DIR_TRACK s \<le> get_param p LAST_TRACK s"
  shows "\<exists>res t sec s'. get_first_sector p s = Some (res, t, sec, s') \<and>
    (if \<exists>t' sec'. t' \<noteq> get_param p DIR_TRACK s \<and> (p, t', sec') \<in> free_set s
     then res = 0 \<and> t \<noteq> get_param p DIR_TRACK s \<and> (p, t, sec) \<in> free_set s \<and>
       (\<forall>sec'. (p, t, sec') \<in> free_set s \<longrightarrow> sec \<le> sec') \<and>
       (\<forall>t' sec'. t' \<noteq> get_param p DIR_TRACK s \<longrightarrow> (p, t', sec') \<in> free_set s \<longrightarrow>
         \<bar>int (unat t) - int (unat (get_param p DIR_TRACK s))\<bar> \<le> \<bar>int (unat t') - int (unat (get_param p DIR_TRACK s))\<bar>)
     else res = 1 \<and> current_error s' \<noteq> 0)"
proof -
  have ok: "bam_ok s" using assms(1,2) by (simp add: bam_ok_def)
  have i: "imagetype p s \<noteq> 1" using assms(4) by auto
  have l: "unat (get_param p LAST_TRACK s) < 128" using sound_last [OF assms(3,4)] by simp
  let ?D = "get_param p DIR_TRACK s"
  obtain res t se s' where G: "get_first_sector p s = Some (res, t, se, s')"
    "if \<exists>x. x \<noteq> ?D \<and> free_on p x s \<noteq> {}
     then res = 0 \<and> t \<noteq> ?D \<and> se \<in> free_on p t s \<and> (\<forall>x \<in> free_on p t s. se \<le> x) \<and>
       (\<forall>x. x \<noteq> ?D \<longrightarrow> free_on p x s \<noteq> {} \<longrightarrow> gap t ?D \<le> gap x ?D)
     else res = 1 \<and> current_error s' \<noteq> 0"
    using get_first_sector_ok [OF ok assms(3) i assms(5,6) l] by blast
  show ?thesis
  proof (cases "\<exists>x. x \<noteq> ?D \<and> free_on p x s \<noteq> {}")
    case True
    then have cond: "\<exists>t' sec'. t' \<noteq> ?D \<and> (p, t', sec') \<in> free_set s" by (auto simp: free_on_def)
    have "res = 0" "t \<noteq> ?D" "(p, t, se) \<in> free_set s" and R: "\<forall>x \<in> free_on p t s. se \<le> x"
      "\<forall>x. x \<noteq> ?D \<longrightarrow> free_on p x s \<noteq> {} \<longrightarrow> gap t ?D \<le> gap x ?D"
      using G(2) unfolding if_P [OF True] by (simp_all add: free_on_def del: get_param_simps)
    moreover have "\<forall>sec'. (p, t, sec') \<in> free_set s \<longrightarrow> se \<le> sec'" using R(1) by (simp add: free_on_def)
    moreover have "\<forall>t' sec'. t' \<noteq> ?D \<longrightarrow> (p, t', sec') \<in> free_set s \<longrightarrow>
         \<bar>int (unat t) - int (unat ?D)\<bar> \<le> \<bar>int (unat t') - int (unat ?D)\<bar>"
      using R(2) unfolding gap_def free_on_def by blast
    ultimately show ?thesis unfolding if_P [OF cond] using G(1) by blast
  next
    case False
    then have cond: "\<not> (\<exists>t' sec'. t' \<noteq> ?D \<and> (p, t', sec') \<in> free_set s)" by (auto simp: free_on_def)
    show ?thesis unfolding if_not_P [OF cond] using G unfolding if_not_P [OF False] by blast
  qed
qed

theorem get_first_sector_nearest_witness:
  "\<exists>(s :: fw) s'. cache_ok s \<and> counts_exact s \<and> part_ready 0 s \<and> get_first_sector 0 s = Some (0, 17, 5, s')"
proof -
  obtain s0 :: fw where M: "bam_ok s0" "part_ready 0 s0" "ty_of 0 s0 = 2" "pt_d64data (part 0 s0) = d41param" "free_set s0 = {}"
    by (rule mounted1)
  have l0: "lst_of 0 s0 = 35" "get_param 0 DIR_TRACK s0 = 18" using M(4) by (simp_all add: d41param_def)
  have v: "\<not> bad_ts 0 17 5 s0" using M(3) l0(1) by (simp add: valid_iff) (simp add: valid_ts_def spt_of_def Let_def word_less_nat_alt)
  have c: "cache_ok s0" "counts_exact s0" using M(1) by (simp_all add: bam_ok_def)
  obtain s where S: "free_sector 0 17 5 s0 = Some (0, s)" "cache_ok s" "same_geo s s0"
    "free_set s = insert (0, 17, 5) (free_set s0)"
    "counts s = (if (0, 17, 5) \<in> free_set s0 then counts s0 else counts_more 0 17 s0)"
    by (rule free_sector_ok [OF c(1) M(2) v])
  have e: "counts_exact s" by (rule free_exact [OF c(2) S(3) M(2) v S(4,5)])
  have g: "part_ready 0 s" "ty_of 0 s = 2" "get_param 0 DIR_TRACK s = 18" "get_param 0 LAST_TRACK s = 35"
    using same_geo_simps(1-3) [OF S(3), where q = 0] M(2,3,4) by (simp_all add: d41param_def)
  have f: "free_set s = {(0, 17, 5)}" using S(4) M(5) by simp
  have "\<exists>res t sec s'. get_first_sector 0 s = Some (res, t, sec, s') \<and> res = 0 \<and> (0, t, sec) \<in> free_set s"
    using get_first_sector_nearest [OF S(2) e g(1)] unfolding g(2-4) by (simp add: f word_le_nat_alt)
  then show ?thesis using S(2) e g(1) f by auto
qed

section \<open>Unmounting\<close>

lemma slot_cleanup:
  assumes "bam_slot i s" "pool_ok s"
  obtains s' where "run_cleanup (b_cleanup (buf i s)) i s = Some (0, s')" "bam_buffer s' = bam_buffer s"
    "bam_buffer2 s' = bam_buffer2 s" "bam_refcount s' = bam_refcount s"
proof -
  obtain q t sec where tag: "slot_tag i s = (q, t, sec)" by (cases "slot_tag i s")
  have v: "bam_part (b_bam (buf i s)) = q" "bam_track (b_bam (buf i s)) = t" "bam_sector (b_bam (buf i s)) = sec"
    using tag by (simp_all add: slot_tag_def Let_def)
  have cl: "run_cleanup (b_cleanup (buf i s)) i s = bam_buffer_flush i s"
    using assms(1) by (simp add: run_cleanup_def bam_slot_def)
  show thesis
  proof (cases "b_mustflush (buf i s) \<and> q < max_part s")
    case False
    then have "bam_buffer_flush i s = Some (0, s)" by (auto simp: bam_buffer_flush_def v Let_def)
    then show ?thesis using that cl by simp
  next
    case True
    have l: "length (b_data (buf i s)) = 256" using assms by (simp add: pool_ok_def bam_slot_def)
    have "q \<noteq> 255" using True u8_lt_256 [of "max_part s"] unfolding word_less_nat_alt by (intro notI) simp
    then have r: "part_ready q s" "\<not> bad_ts q t sec s"
      using assms(1) tag by (simp_all add: bam_slot_def slot_coherent_def)
    then show ?thesis using write_at [of q s t sec "b_data (buf i s)" True] True l cl
      by (intro that [of "upd_buf i (\<lambda>b. b\<lparr>b_mustflush := False\<rparr>)
            (upd_image q (put_file (sector_pos q t sec s) (b_data (buf i s))) s)"])
        (simp_all add: bam_buffer_flush_def v Let_def part_ready_def)
  qed
qed

lemma drop_bam_ok:
  assumes "bam_slot i s" "pool_ok s"
  obtains s1 where "drop_bam p (Some i) s = Some s1" "bam_buffer s1 = bam_buffer s" "bam_buffer2 s1 = bam_buffer2 s"
    "bam_refcount s1 = bam_refcount s"
  by (rule slot_cleanup [OF assms]) (use that in \<open>simp add: drop_bam_def\<close>)

lemma drop_first_ok:
  assumes "cache_ok s" "bam_buffer s = Some i"
  obtains s1 where "drop_bam p (Some i) s = Some s1" "bam_buffer s1 = bam_buffer s" "bam_buffer2 s1 = bam_buffer2 s"
    "bam_refcount s1 = bam_refcount s" "cache_ok s1"
proof -
  obtain s1 where F: "bam_cleanup i s = Some (0, s1)" "cache_ok s1" "bam_buffer s1 = Some i" "bam_buffer2 s1 = bam_buffer2 s"
    "bam_refcount s1 = bam_refcount s"
    by (rule flush_ok [OF assms])
  have c: "bam_slot i s1" "pool_ok s1" "\<forall>j. bam_buffer2 s1 = Some j \<longrightarrow> bam_slot j s1 \<and> slots_apart i j s1"
    using F(2,3) by (auto elim: cache_okE)
  let ?s = "upd_buf i (\<lambda>b. b\<lparr>b_bam := (b_bam b)\<lparr>bam_part := 255\<rparr>\<rparr>) s1"
  have l: "length (buffers s1) = 33" "i < 32" using c by (simp_all add: pool_ok_def bufs_ok_def bam_slot_def)
  have ti: "fst (slot_tag i ?s) = 255" using l by (simp add: slot_tag_def Let_def)
  have "bam_slot i ?s" using c(1) l ti by (simp add: bam_slot_def slot_coherent_def split_def)
  moreover have "bam_slot j ?s" "i \<noteq> j" if "bam_slot j s1" "slots_apart i j s1" for j
    using that slot_cong(2) [of ?s s1 j] by (auto simp: slots_apart_def same_disks_def)
  moreover have "pool_ok ?s" by (rule pool_ok_upd) (use c(2) l in \<open>simp_all add: pool_ok_def\<close>)
  ultimately have ca: "cache_ok ?s" using F(3) c(3) ti by (auto simp: cache_ok_def slots_apart_def)
  have "bam_slot i s" using assms by (auto elim: cache_okE)
  then have "run_cleanup (b_cleanup (buf i s)) i s = Some (0, s1)"
    using F(1) by (simp add: run_cleanup_def bam_cleanup_def bam_slot_def)
  then show thesis using that F ca assms(2) by (simp add: drop_bam_def split: if_splits)
qed

text \<open>
  The reference count of the BAM buffers is tested the wrong way round: with another
  image mounted, \<open>d64_unmount\<close> drops the buffers, after which every access to the BAM of the
  other images goes through a null pointer; with the last image the buffers are kept.
\<close>

theorem unmount_drops_shared_bam:
  assumes "cache_ok s"
  shows "\<exists>s'. d64_unmount p s = Some s' \<and>
    (if bam_refcount s = 1 then bam_buffer s' = bam_buffer s
     else bam_buffer s' = None \<and> (\<forall>q track type. move_bam_window q track type s' = None))"
proof -
  obtain i where i: "bam_buffer s = Some i" using assms by (rule cache_okE)
  obtain s1 where S: "drop_bam p (Some i) s = Some s1" "bam_buffer s1 = bam_buffer s" "bam_buffer2 s1 = bam_buffer2 s"
    "bam_refcount s1 = bam_refcount s" "cache_ok s1"
    by (rule drop_first_ok [OF assms i])
  have c: "pool_ok s1" "\<forall>j. bam_buffer2 s1 = Some j \<longrightarrow> bam_slot j s1" using S(5) by (auto elim: cache_okE)
  obtain s2 where T: "drop_bam p (bam_buffer2 s1) s1 = Some s2" "bam_buffer s2 = bam_buffer s1" "bam_refcount s2 = bam_refcount s1"
  proof (cases "bam_buffer2 s1")
    case None
    then show ?thesis using that by (simp add: drop_bam_def)
  next
    case (Some j)
    have "bam_slot j s1" using c(2) Some by blast
    from drop_bam_ok [OF this c(1), of p] show ?thesis using that Some by metis
  qed
  have z: "bam_refcount s - 1 = 0 \<longleftrightarrow> bam_refcount s = 1" by (rule right_minus_eq)
  then show ?thesis using S T i by (auto simp: d64_unmount_def Let_def move_bam_window_def split: prod.split)
qed

theorem unmount_drops_shared_bam_witness:
  "\<exists>(s :: fw) s'. cache_ok s \<and> bam_refcount s = 2 \<and> d64_unmount 1 s = Some s' \<and> bam_buffer s' = None \<and>
    move_bam_window 0 1 BAM_BITFIELD s' = None"
proof -
  obtain s0 :: fw where M: "bam_ok s0" by (rule mounted1)
  let ?s = "s0\<lparr>bam_refcount := 2\<rparr>"
  have c: "cache_ok ?s" by (rule cache_frame(1) [of s0])
      (use M in \<open>auto simp: bam_ok_def same_disks_def pool_ok_def bufs_ok_def cnt_def elim: cache_okE\<close>)
  obtain s' where "d64_unmount 1 ?s = Some s'" "bam_buffer s' = None" "move_bam_window 0 1 BAM_BITFIELD s' = None"
    using unmount_drops_shared_bam [OF c, of 1] by auto
  then show ?thesis using c by (intro exI [of _ ?s] exI [of _ s']) simp
qed

end
