(* ===== verification/Eeprom_Conf.thy ===== *)
theory Eeprom_Conf
  imports Buffers Eepromfs_Store
begin

text \<open>
  The settings in the EEPROM, \<^verbatim>\<open>src/src/eeprom-conf.c\<close>, as compiled for petSD+: two buses, an
  onboard display, jumpers shared with the buttons, and one drive type (no drive
  configuration).  The structure \<open>storedconfig\<close> starts at EEPROM address 0 and is accessed
  through byte offsets.  Debug output and the registers of the display are left out.  \<open>None\<close>
  is an access outside the EEPROM or behind the end of \<open>rom_filename\<close>.
\<close>

section \<open>State\<close>

text \<open>
  The global flags other than \<open>POSTMATCH\<close> and \<open>EXTENSION_HIDING\<close>, which the base state has as
  booleans, are in \<open>flags_rest\<close>; \<open>key_sel\<close> and \<open>key_next\<close> are the keys or jumpers as sampled.
\<close>

record conf = fw +
  flags_rest :: u8
  device_address :: u8
  active_bus :: u8
  menu_system_enabled :: u8
  lcd_contrast :: u8
  lcd_brightness :: u8
  key_sel :: bool
  key_next :: bool

definition EXTENSION_HIDING :: u8 where [simp]: "EXTENSION_HIDING = 8"
definition POSTMATCH :: u8 where [simp]: "POSTMATCH = 16"
definition ROM_NAME_LENGTH :: nat where [simp]: "ROM_NAME_LENGTH = 16"
definition CONFIG_DEFAULT_ADDR :: u8 where [simp]: "CONFIG_DEFAULT_ADDR = 11"

definition globalflags :: "'a conf_scheme \<Rightarrow> u8" where
  "globalflags s = (flags_rest s AND NOT (POSTMATCH OR EXTENSION_HIDING)) OR
     (if postmatch s then POSTMATCH else 0) OR (if extension_hiding s then EXTENSION_HIDING else 0)"

definition set_globalflags :: "u8 \<Rightarrow> 'a conf_scheme \<Rightarrow> 'a conf_scheme" where
  "set_globalflags v s = s\<lparr>flags_rest := v AND NOT (POSTMATCH OR EXTENSION_HIDING),
     postmatch := (v AND POSTMATCH \<noteq> 0), extension_hiding := (v AND EXTENSION_HIDING \<noteq> 0)\<rparr>"

section \<open>Layout\<close>

definition ofs_checksum :: nat where [simp]: "ofs_checksum = 1"
definition ofs_structsize :: nat where [simp]: "ofs_structsize = 2"
definition ofs_global_flags :: nat where [simp]: "ofs_global_flags = 5"
definition ofs_address :: nat where [simp]: "ofs_address = 6"
definition ofs_hardaddress :: nat where [simp]: "ofs_hardaddress = 7"
definition ofs_fileexts :: nat where [simp]: "ofs_fileexts = 8"
definition ofs_imagedirs :: nat where [simp]: "ofs_imagedirs = 13"
definition ofs_romname :: nat where [simp]: "ofs_romname = 14"
definition ofs_active_bus :: nat where [simp]: "ofs_active_bus = 30"
definition ofs_menu :: nat where [simp]: "ofs_menu = 31"
definition ofs_contrast :: nat where [simp]: "ofs_contrast = 32"
definition ofs_brightness :: nat where [simp]: "ofs_brightness = 33"
definition sizeof_storedconfig :: nat where [simp]: "sizeof_storedconfig = 34"

definition eeprom_write_byte :: "nat \<Rightarrow> u8 \<Rightarrow> mem \<Rightarrow> mem option" where
  "eeprom_write_byte a b m = eeprom_write_block m a [b]"

definition eeprom_write_word :: "nat \<Rightarrow> u16 \<Rightarrow> mem \<Rightarrow> mem option" where
  "eeprom_write_word a x m = eeprom_write_block m a [ucast x, ucast (drop_bit 8 x)]"

definition eeprom_read_byte :: "nat \<Rightarrow> mem \<Rightarrow> u8 option" where
  "eeprom_read_byte a m = (if a < EEPROM_SIZE then Some (m a) else None)"

definition eeprom_read_word :: "nat \<Rightarrow> mem \<Rightarrow> u16 option" where
  "eeprom_read_word a m = do {
     lo \<leftarrow> eeprom_read_byte a m; hi \<leftarrow> eeprom_read_byte (a + 1) m;
     Some (ucast lo OR push_bit 8 (ucast hi)) }"

section \<open>Operations\<close>

text \<open>The address that the jumpers select, unless the buttons serve the menu.\<close>

definition device_hw_address :: "'a conf_scheme \<Rightarrow> u8" where
  "device_hw_address s =
     (if menu_system_enabled s \<noteq> 0 then CONFIG_DEFAULT_ADDR
      else 8 + (if key_sel s then 1 else 0) + (if key_next s then 2 else 0))"

fun conf_checksum :: "nat list \<Rightarrow> mem \<Rightarrow> u8 \<Rightarrow> u8 option" where
  "conf_checksum [] m checksum = Some checksum"
| "conf_checksum (i # is) m checksum = do {
     b \<leftarrow> eeprom_read_byte i m;
     conf_checksum is m (checksum + b) }"

definition pad_rom_filename :: "u8 list \<Rightarrow> u8 list option" where
  "pad_rom_filename name =
     (let len = length (cstr name) in
      if len < length name then Some (take len name @ replicate (length name - len) 0) else None)"

definition write_configuration :: "'a conf_scheme \<Rightarrow> 'a conf_scheme option" where
  "write_configuration s = do {
     let m = eeprom s;
     m \<leftarrow> eeprom_write_word ofs_structsize (of_nat sizeof_storedconfig) m;
     m \<leftarrow> eeprom_write_byte ofs_global_flags (globalflags s AND (POSTMATCH OR EXTENSION_HIDING)) m;
     m \<leftarrow> eeprom_write_byte ofs_address (device_address s) m;
     m \<leftarrow> eeprom_write_byte ofs_hardaddress (device_hw_address s) m;
     m \<leftarrow> eeprom_write_byte ofs_fileexts (file_extension_mode s) m;
     m \<leftarrow> eeprom_write_byte ofs_imagedirs (image_as_dir s) m;
     rom \<leftarrow> pad_rom_filename (rom_filename s);
     m \<leftarrow> eeprom_write_block m ofs_romname (take ROM_NAME_LENGTH rom);
     m \<leftarrow> eeprom_write_byte ofs_active_bus (active_bus s) m;
     m \<leftarrow> eeprom_write_byte ofs_menu (menu_system_enabled s) m;
     m \<leftarrow> eeprom_write_byte ofs_contrast (lcd_contrast s) m;
     m \<leftarrow> eeprom_write_byte ofs_brightness (lcd_brightness s) m;
     checksum \<leftarrow> conf_checksum [2..<sizeof_storedconfig] m 0;
     m \<leftarrow> eeprom_write_byte ofs_checksum checksum m;
     Some (s\<lparr>rom_filename := rom, eeprom := m\<rparr>) }"

definition conf_defaults :: "'a conf_scheme \<Rightarrow> 'a conf_scheme" where
  "conf_defaults s = s\<lparr>postmatch := True, file_extension_mode := 0, rom_filename := replicate (ROM_NAME_LENGTH + 1) 0\<rparr>"

text \<open>A field that is read only when the stored structure is long enough.\<close>

definition conf_field :: "bool \<Rightarrow> nat \<Rightarrow> (u8 \<Rightarrow> 'a conf_scheme \<Rightarrow> 'a conf_scheme) \<Rightarrow> 'a conf_scheme \<Rightarrow> 'a conf_scheme option" where
  "conf_field c a f s =
     (if c then do { b \<leftarrow> eeprom_read_byte a (eeprom s); Some (f b s) } else Some s)"

definition load_configuration :: "nat \<Rightarrow> 'a conf_scheme \<Rightarrow> (bool \<times> 'a conf_scheme) option" where
  "load_configuration ssize s = do {
     s \<leftarrow> conf_field (ssize > 31) ofs_menu (\<lambda>b s. s\<lparr>menu_system_enabled := b\<rparr>) s;
     s \<leftarrow> conf_field True ofs_global_flags
           (\<lambda>b s. set_globalflags ((globalflags s AND NOT (POSTMATCH OR EXTENSION_HIDING)) OR b) s) s;
     let current_hw_addr = device_hw_address s;
     stored_hw_addr \<leftarrow> eeprom_read_byte ofs_hardaddress (eeprom s);
     stored_sw_addr \<leftarrow> eeprom_read_byte ofs_address (eeprom s);
     let rewrite = (current_hw_addr \<noteq> stored_hw_addr);
     let s = s\<lparr>device_address := (if rewrite then current_hw_addr else stored_sw_addr)\<rparr>;
     s \<leftarrow> conf_field True ofs_fileexts (\<lambda>b s. s\<lparr>file_extension_mode := b\<rparr>) s;
     s \<leftarrow> conf_field (ssize > 13) ofs_imagedirs (\<lambda>b s. s\<lparr>image_as_dir := b\<rparr>) s;
     s \<leftarrow> (if ssize > 29 then do {
             bs \<leftarrow> eeprom_read_block (eeprom s) ofs_romname ROM_NAME_LENGTH;
             Some (s\<lparr>rom_filename := put_at 0 bs (rom_filename s)\<rparr>) }
           else Some s);
     s \<leftarrow> conf_field (ssize > 30) ofs_active_bus (\<lambda>b s. s\<lparr>active_bus := b\<rparr>) s;
     s \<leftarrow> conf_field (ssize > 32) ofs_contrast (\<lambda>b s. s\<lparr>lcd_contrast := b\<rparr>) s;
     s \<leftarrow> conf_field (ssize > 32) ofs_brightness (\<lambda>b s. s\<lparr>lcd_brightness := b\<rparr>) s;
     Some (rewrite, s) }"

definition read_configuration :: "'a conf_scheme \<Rightarrow> 'a conf_scheme option" where
  "read_configuration s = do {
     let s = conf_defaults s;
     ssize \<leftarrow> eeprom_read_word ofs_structsize (eeprom s);
     (if ssize = 0xffff then write_configuration s
      else do {
        checksum \<leftarrow> conf_checksum [2..<unat ssize] (eeprom s) 0;
        stored \<leftarrow> eeprom_read_byte ofs_checksum (eeprom s);
        (if checksum \<noteq> stored then write_configuration s
         else do {
           (rewrite, s) \<leftarrow> load_configuration (unat ssize) s;
           (if rewrite then write_configuration s else Some s) }) }) }"

section \<open>What is stored\<close>

lemma conf_checksum_total:
  "\<forall>i \<in> set is. i < EEPROM_SIZE \<Longrightarrow> conf_checksum is m c = Some (c + sum_list (map m is))"
  by (induction "is" m c rule: conf_checksum.induct) (simp_all add: eeprom_read_byte_def add.assoc)

text \<open>The settings as they are in the EEPROM.\<close>

definition conf_stored :: "'a conf_scheme \<Rightarrow> mem \<Rightarrow> bool" where
  "conf_stored s m \<longleftrightarrow> m 2 = 34 \<and> m 3 = 0 \<and> m 5 = globalflags s AND 24 \<and> m 6 = device_address s \<and>
     m 7 = device_hw_address s \<and> m 8 = file_extension_mode s \<and> m 13 = image_as_dir s \<and>
     (\<forall>i < 16. m (14 + i) = rom_filename s ! i) \<and> m 30 = active_bus s \<and> m 31 = menu_system_enabled s \<and>
     m 32 = lcd_contrast s \<and> m 33 = lcd_brightness s \<and> m 1 = sum_list (map m [2..<34])"

definition conf_ok :: "'a conf_scheme \<Rightarrow> bool" where
  "conf_ok s \<longleftrightarrow> length (rom_filename s) = 17 \<and> 0 \<in> set (rom_filename s)"

lemma length_cstr: "0 \<in> set bs \<Longrightarrow> length (cstr bs) < length bs"
  by (induction bs) (auto simp: cstr_def)

lemma pad_rom:
  assumes "conf_ok s"
  obtains rom where "pad_rom_filename (rom_filename s) = Some rom" "length rom = 17" "cstr rom = cstr (rom_filename s)" "rom ! 16 = 0"
proof -
  let ?n = "rom_filename s" and ?l = "length (cstr (rom_filename s))"
  have l: "?l < 17" using assms length_cstr [of ?n] by (simp add: conf_ok_def)
  have t: "take ?l ?n = cstr ?n" by (simp add: cstr_def takeWhile_eq_take [symmetric])
  have "pad_rom_filename ?n = Some (cstr ?n @ replicate (17 - ?l) 0)"
    using assms l by (simp add: pad_rom_filename_def conf_ok_def t)
  moreover have "cstr (cstr ?n @ replicate (17 - ?l) 0) = cstr ?n"
    using l nul_notin_cstr [of ?n] by (cases "17 - ?l") (simp_all add: cstr_append_nul)
  moreover have "(cstr ?n @ replicate (17 - ?l) 0) ! 16 = 0" using l by (simp add: nth_append)
  ultimately show thesis using that l by simp
qed

lemma write_byte_at: "write_block m a [b] = m(a := b)"
  by (auto simp: write_block_apply fun_eq_iff)

lemma write_configuration_ok:
  assumes "conf_ok s"
  obtains rom m where "write_configuration s = Some (s\<lparr>rom_filename := rom, eeprom := m\<rparr>)" "length rom = 17"
    "cstr rom = cstr (rom_filename s)" "rom ! 16 = 0" "conf_stored (s\<lparr>rom_filename := rom\<rparr>) m" "\<forall>a \<ge> 34. m a = eeprom s a"
proof -
  obtain rom where R: "pad_rom_filename (rom_filename s) = Some rom" "length rom = 17" "cstr rom = cstr (rom_filename s)" "rom ! 16 = 0"
    by (rule pad_rom [OF assms])
  define m0 where "m0 = (let m = write_block (eeprom s) 2 [34, 0]; m = write_block m 5 [globalflags s AND 24];
      m = write_block m 6 [device_address s]; m = write_block m 7 [device_hw_address s];
      m = write_block m 8 [file_extension_mode s]; m = write_block m 13 [image_as_dir s];
      m = write_block m 14 (take 16 rom); m = write_block m 30 [active_bus s]; m = write_block m 31 [menu_system_enabled s];
      m = write_block m 32 [lcd_contrast s] in write_block m 33 [lcd_brightness s])"
  let ?m = "write_block m0 1 [sum_list (map m0 [2..<34])]"
  have e: "write_configuration s = Some (s\<lparr>rom_filename := rom, eeprom := ?m\<rparr>)"
    using R(1,2) by (simp add: write_configuration_def eeprom_write_word_def eeprom_write_byte_def eeprom_write_block_def
        conf_checksum_total m0_def Let_def del: upt_rec_numeral)
  have h: "\<forall>a \<ge> 34. ?m a = eeprom s a"
    using R(2) by (simp add: m0_def Let_def write_block_apply)
  have "map ?m [2..<34] = map m0 [2..<34]" by (rule map_cong [OF refl]) (simp add: write_byte_at set_upt del: upt_rec_numeral)
  then have c: "?m 1 = sum_list (map ?m [2..<34])" by (simp only: write_byte_at fun_upd_same)
  have "\<forall>i < 16. ?m (14 + i) = rom ! i" using R(2) by (simp add: m0_def Let_def write_block_apply)
  moreover have "m0 2 = 34" "m0 3 = 0" "m0 5 = globalflags s AND 24" "m0 6 = device_address s" "m0 7 = device_hw_address s"
    "m0 8 = file_extension_mode s" "m0 13 = image_as_dir s" "m0 30 = active_bus s" "m0 31 = menu_system_enabled s"
    "m0 32 = lcd_contrast s" "m0 33 = lcd_brightness s"
    using R(2) by (simp_all add: m0_def Let_def write_block_apply)
  ultimately have "conf_stored (s\<lparr>rom_filename := rom\<rparr>) ?m"
    using c unfolding conf_stored_def write_byte_at
    by (simp add: globalflags_def device_hw_address_def del: upt_rec_numeral)
  then show thesis using that e R h by blast
qed

section \<open>Reading it back\<close>

lemma flag_16: "(x :: u8) AND 16 \<noteq> 0 \<longleftrightarrow> bit x 4" and flag_8: "(x :: u8) AND 8 \<noteq> 0 \<longleftrightarrow> bit x 3"
  using and_pow2_neq_0 [of 4 x] and_pow2_neq_0 [of 3 x] by simp_all

lemma flags_roundtrip:
  "postmatch (set_globalflags ((globalflags r AND NOT 24) OR (globalflags s AND 24)) r) = postmatch s"
  "extension_hiding (set_globalflags ((globalflags r AND NOT 24) OR (globalflags s AND 24)) r) = extension_hiding s"
  by (simp_all add: set_globalflags_def flag_16 flag_8 bit_simps globalflags_def)

lemma set_globalflags_other [simp]:
  "eeprom (set_globalflags v s) = eeprom s" "rom_filename (set_globalflags v s) = rom_filename s"
  "menu_system_enabled (set_globalflags v s) = menu_system_enabled s"
  "device_hw_address (set_globalflags v s) = device_hw_address s"
  by (simp_all add: set_globalflags_def device_hw_address_def)

text \<open>The settings of two states agree.\<close>

definition same_settings :: "'a conf_scheme \<Rightarrow> 'a conf_scheme \<Rightarrow> bool" where
  "same_settings r s \<longleftrightarrow> postmatch r = postmatch s \<and> extension_hiding r = extension_hiding s \<and>
     device_address r = device_address s \<and> file_extension_mode r = file_extension_mode s \<and> image_as_dir r = image_as_dir s \<and>
     cstr (rom_filename r) = cstr (rom_filename s) \<and> active_bus r = active_bus s \<and>
     menu_system_enabled r = menu_system_enabled s \<and> lcd_contrast r = lcd_contrast s \<and> lcd_brightness r = lcd_brightness s"

lemma read_configuration_ok:
  fixes r s :: "'a conf_scheme"
  assumes "conf_stored s (eeprom r)" "length (rom_filename s) = 17" "rom_filename s ! 16 = 0"
    "key_sel r = key_sel s" "key_next r = key_next s"
  shows "\<exists>r'. read_configuration r = Some r' \<and> same_settings r' s \<and> eeprom r' = eeprom r"
proof -
  note S = assms(1) [unfolded conf_stored_def]
  have w: "eeprom_read_word 2 (eeprom r) = Some 34" using S by (simp add: eeprom_read_word_def eeprom_read_byte_def)
  have c: "conf_checksum [2..<34] (eeprom r) 0 = Some (eeprom r 1)"
    using S conf_checksum_total [of "[2..<34]" "eeprom r" 0] by (simp del: upt_rec_numeral)
  have "read_block (eeprom r) 14 16 = take 16 (rom_filename s)"
    using S assms(2) by (simp add: list_eq_iff_nth_eq nth_read_block)
  moreover have "rom_filename s = take 16 (rom_filename s) @ [0]"
    using assms(2,3) by (simp add: list_eq_iff_nth_eq nth_append less_Suc_eq eval_nat_numeral)
  ultimately have rom: "put_at 0 (read_block (eeprom r) 14 16) (replicate 17 0) = rom_filename s"
    using assms(2) by (simp add: put_at_def)
  define s1 where "s1 = (conf_defaults r)\<lparr>menu_system_enabled := menu_system_enabled s\<rparr>"
  define s2 where "s2 = set_globalflags ((globalflags s1 AND NOT 24) OR (globalflags s AND 24)) s1"
  have f: "eeprom s1 = eeprom r" "rom_filename s1 = replicate 17 0" "device_hw_address s1 = device_hw_address s"
    "menu_system_enabled s1 = menu_system_enabled s"
    using assms(4,5) by (simp_all add: s1_def conf_defaults_def device_hw_address_def)
  have g: "eeprom s2 = eeprom r" "rom_filename s2 = replicate 17 0" "device_hw_address s2 = device_hw_address s"
    "menu_system_enabled s2 = menu_system_enabled s" "postmatch s2 = postmatch s" "extension_hiding s2 = extension_hiding s"
    using f flags_roundtrip [of s1 s] by (simp_all add: s2_def)
  define r' where "r' = s2\<lparr>device_address := device_address s, file_extension_mode := file_extension_mode s,
    image_as_dir := image_as_dir s, rom_filename := rom_filename s, active_bus := active_bus s,
    lcd_contrast := lcd_contrast s, lcd_brightness := lcd_brightness s\<rparr>"
  have l: "load_configuration 34 (conf_defaults r) = Some (False, r')"
  proof -
    have "conf_field True ofs_menu (\<lambda>b s. s\<lparr>menu_system_enabled := b\<rparr>) (conf_defaults r) = Some s1"
      using S by (simp add: conf_field_def eeprom_read_byte_def s1_def conf_defaults_def)
    moreover have "conf_field True ofs_global_flags
           (\<lambda>b s. set_globalflags ((globalflags s AND NOT (POSTMATCH OR EXTENSION_HIDING)) OR b) s) s1 = Some s2"
      using S f by (simp add: conf_field_def eeprom_read_byte_def s2_def)
    ultimately show ?thesis using S f g rom
      by (simp add: load_configuration_def conf_field_def eeprom_read_byte_def eeprom_read_block_def r'_def Let_def)
  qed
  have "read_configuration r = Some r'"
    using w c l S by (simp add: read_configuration_def eeprom_read_byte_def conf_defaults_def del: upt_rec_numeral)
  moreover have "same_settings r' s" using g by (simp add: same_settings_def r'_def)
  ultimately show ?thesis using g(1) by (simp add: r'_def)
qed

section \<open>The EEPROM file system beside it\<close>

lemma holds_above:
  assumes "holds s st" "\<forall>a \<ge> 512. m a = eeprom s a"
  shows "holds (s\<lparr>eeprom := m\<rparr>) st"
proof -
  have "ent m = ent (eeprom s)" "sec m = sec (eeprom s)"
    using assms(2) by (auto simp: fun_eq_iff ent_def sec_def intro!: read_block_cong)
  then have "fs_ok (s\<lparr>eeprom := m\<rparr>) fl = fs_ok s fl" "store m fl = store (eeprom s) fl" for fl
    by (simp_all add: fs_ok_def file_ok_def chain_ok_def store_def file_data_def contents_def)
  then show ?thesis using assms(1) by (simp add: holds_def)
qed

lemma holds_rom [simp]: "holds (s\<lparr>rom_filename := x\<rparr> :: 'a conf_scheme) st = holds s st"
  by (simp add: holds_def fs_ok_def)

lemma write_keeps_files:
  assumes "conf_ok s" "holds s st" "write_configuration s = Some s1"
  shows "holds s1 st"
proof -
  obtain rom m where W: "write_configuration s = Some (s\<lparr>rom_filename := rom, eeprom := m\<rparr>)" "\<forall>a \<ge> 34. m a = eeprom s a"
    by (rule write_configuration_ok [OF assms(1)])
  have "holds ((s\<lparr>rom_filename := rom\<rparr>)\<lparr>eeprom := m\<rparr>) st"
    by (rule holds_above) (use W(2) assms(2) in simp_all)
  then show ?thesis using W(1) assms(3) by simp
qed

section \<open>Properties\<close>

text \<open>
  C34. Saving the settings succeeds, keeps every file of the EEPROM file system, and after a
  restart with the same jumpers \<open>read_configuration\<close> restores all settings from the EEPROM,
  whatever is in the RAM, and does not write to the EEPROM.
\<close>

theorem configuration_roundtrip:
  fixes s :: "'a conf_scheme"
  assumes "conf_ok s"
  shows "\<exists>s1. write_configuration s = Some s1 \<and> (\<forall>st. holds s st \<longrightarrow> holds s1 st) \<and>
    (\<forall>r :: 'a conf_scheme. eeprom r = eeprom s1 \<longrightarrow> key_sel r = key_sel s \<longrightarrow> key_next r = key_next s \<longrightarrow>
      (\<exists>r'. read_configuration r = Some r' \<and> same_settings r' s \<and> eeprom r' = eeprom r))"
proof -
  obtain rom m where W: "write_configuration s = Some (s\<lparr>rom_filename := rom, eeprom := m\<rparr>)" "length rom = 17"
    "cstr rom = cstr (rom_filename s)" "rom ! 16 = 0" "conf_stored (s\<lparr>rom_filename := rom\<rparr>) m"
    by (rule write_configuration_ok [OF assms])
  have "\<exists>r'. read_configuration r = Some r' \<and> same_settings r' s \<and> eeprom r' = eeprom r"
    if "eeprom r = m" "key_sel r = key_sel s" "key_next r = key_next s" for r :: "'a conf_scheme"
  proof -
    have "\<exists>r'. read_configuration r = Some r' \<and> same_settings r' (s\<lparr>rom_filename := rom\<rparr>) \<and> eeprom r' = eeprom r"
      by (rule read_configuration_ok) (use W that in simp_all)
    then show ?thesis using W(3) by (simp add: same_settings_def)
  qed
  then show ?thesis using W(1) write_keeps_files [OF assms] by simp
qed

definition conf0 :: conf where
  "conf0 = fw.extend (fw0\<lparr>rom_filename := replicate 17 0\<rparr>) \<lparr>flags_rest = 0, device_address = 9, active_bus = 1,
     menu_system_enabled = 0, lcd_contrast = 5, lcd_brightness = 6, key_sel = True, key_next = False\<rparr>"

lemma conf0_ok: "conf_ok conf0"
  by (simp add: conf_ok_def conf0_def fw.defs)

theorem configuration_roundtrip_witness:
  "conf_ok conf0 \<and> (\<exists>s1 r'. write_configuration conf0 = Some s1 \<and> read_configuration s1 = Some r' \<and> device_address r' = 9 \<and>
    lcd_contrast r' = 5)"
proof -
  obtain s1 where S: "write_configuration conf0 = Some s1"
    "\<forall>r :: conf. eeprom r = eeprom s1 \<longrightarrow> key_sel r = key_sel conf0 \<longrightarrow> key_next r = key_next conf0 \<longrightarrow>
      (\<exists>r'. read_configuration r = Some r' \<and> same_settings r' conf0 \<and> eeprom r' = eeprom r)"
    using configuration_roundtrip [OF conf0_ok] by blast
  obtain rom m where "write_configuration conf0 = Some (conf0\<lparr>rom_filename := rom, eeprom := m\<rparr>)"
    by (rule write_configuration_ok [OF conf0_ok])
  then have k: "key_sel s1 = key_sel conf0" "key_next s1 = key_next conf0" using S(1) by auto
  obtain r' where "read_configuration s1 = Some r'" "same_settings r' conf0" using S(2) k by blast
  moreover have "device_address conf0 = 9" "lcd_contrast conf0 = 5" by (simp_all add: conf0_def fw.defs)
  ultimately show ?thesis using S(1) conf0_ok by (auto simp: same_settings_def)
qed



end
