(* ===== verification/Wrapops.thy ===== *)
theory Wrapops
  imports D64_Format Eeprom_Conf
begin

text \<open>
  The indirect calls of \<^verbatim>\<open>src/src/wrapops.h\<close>: every partition carries a pointer to a table of
  file operations, and the wrapper macros call through the table of the partition that a
  path, directory handle or partition number names.  The tables of disk images and of the
  EEPROM file system are built from their operations; the table of FAT partitions is the
  argument \<open>fat\<close> of everything that calls through a wrapper.  The theory also declares the
  state of the channel layer: the command buffer of \<^verbatim>\<open>src/src/doscmd.c\<close>, the directory handle of
  \<^verbatim>\<open>src/src/buffers.c\<close> for name matching and the file that \<open>LOAD"*"\<close> opens again.
\<close>

section \<open>State of the channel layer\<close>

definition CONFIG_COMMAND_BUFFER_SIZE :: nat where [simp]: "CONFIG_COMMAND_BUFFER_SIZE = 120"

datatype diskstates = DISK_CHANGED | DISK_REMOVED | DISK_OK | DISK_ERROR

datatype fastloaderid_t =
    FL_NONE | FL_DREAMLOAD | FL_DREAMLOAD_OLD | FL_TURBODISK | FL_FC3_LOAD | FL_FC3_SAVE | FL_FC3_FREEZED
  | FL_ULOAD3 | FL_GI_JOE | FL_EPYXCART | FL_GEOS_S1_64 | FL_GEOS_S1_128 | FL_GEOS_S23_1541
  | FL_GEOS_S23_1571 | FL_GEOS_S23_1581 | FL_WHEELS_S1_64 | FL_WHEELS_S1_128 | FL_WHEELS_S2
  | FL_WHEELS44_S2 | FL_WHEELS44_S2_1581 | FL_NIPPON | FL_AR6_1581_LOAD | FL_AR6_1581_SAVE | FL_ELOAD1
  | FL_FC3_OLDFREEZED | FL_MMZAK | FL_N0SDOS_FILEREAD | FL_SAMSJOURNEY

datatype rxtx_t =
    RXTX_NONE | RXTX_GEOS_1MHZ | RXTX_GEOS_2MHZ | RXTX_GEOS_1581_21 | RXTX_WHEELS_1MHZ | RXTX_WHEELS_2MHZ
  | RXTX_WHEELS44_1541 | RXTX_WHEELS44_1581 | RXTX_FC3OF_PAL | RXTX_FC3OF_NTSC

datatype rtcstate_t = RTC_NOT_FOUND | RTC_INVALID | RTC_OK

record drive = conf +
  command_buffer :: "u8 list"
  command_length :: u8
  original_length :: u8
  matchdh :: dh_t
  date_match_start :: date_t
  date_match_end :: date_t
  previous_file_dirent :: cbmdirent_t
  previous_file_path :: path_t
  dir_changed :: bool
  disk_state :: diskstates
  rtc_state :: rtcstate_t
  datacrc :: u16
  detected_loader :: fastloaderid_t
  previous_loader :: fastloaderid_t
  fast_rxtx :: rxtx_t
  capture_buffer :: "nat option"
  capture_address :: u16
  capture_remain :: u16
  capture_offset :: u8
  was_reset :: bool
  stack_dirent :: cbmdirent_t

text \<open>
  \<open>detected_loader\<close> to \<open>capture_offset\<close> are the variables of the fast loader detection, with the
  pair of transfer functions as its index \<open>fast_rxtx\<close> in the table.  \<open>was_reset\<close> is set by a call of
  \<open>system_reset\<close>, which does not return.  \<open>stack_dirent\<close> is what an uninitialised local directory
  entry holds: any value.
\<close>

section \<open>Tables of file operations\<close>

text \<open>
  Results as in the component theories: an operation that fills an array returns its bytes,
  one that changes the directory entry or path it is given returns it.  The new name of
  \<open>fo_rename\<close> is the array it is stored in, which \<open>eefs_rename\<close> pads in place.
\<close>

record 's fileops =
  fo_open_read :: "path_t \<Rightarrow> cbmdirent_t \<Rightarrow> nat \<Rightarrow> 's \<Rightarrow> (cbmdirent_t \<times> 's) option"
  fo_open_write :: "path_t \<Rightarrow> cbmdirent_t \<Rightarrow> u8 \<Rightarrow> nat \<Rightarrow> bool \<Rightarrow> 's \<Rightarrow> (cbmdirent_t \<times> 's) option"
  fo_open_rel :: "path_t \<Rightarrow> cbmdirent_t \<Rightarrow> nat \<Rightarrow> u8 \<Rightarrow> u8 \<Rightarrow> 's \<Rightarrow> 's option"
  fo_file_delete :: "path_t \<Rightarrow> cbmdirent_t \<Rightarrow> 's \<Rightarrow> (u8 \<times> cbmdirent_t \<times> 's) option"
  fo_disk_label :: "u8 \<Rightarrow> 's \<Rightarrow> (u8 \<times> u8 list \<times> 's) option"
  fo_dir_label :: "path_t \<Rightarrow> 's \<Rightarrow> (u8 \<times> u8 list \<times> 's) option"
  fo_disk_id :: "path_t \<Rightarrow> 's \<Rightarrow> (u8 \<times> u8 list \<times> 's) option"
  fo_disk_free :: "u8 \<Rightarrow> 's \<Rightarrow> (u16 \<times> 's) option"
  fo_read_sector :: "nat \<Rightarrow> u8 \<Rightarrow> u8 \<Rightarrow> u8 \<Rightarrow> 's \<Rightarrow> 's option"
  fo_write_sector :: "nat \<Rightarrow> u8 \<Rightarrow> u8 \<Rightarrow> u8 \<Rightarrow> 's \<Rightarrow> 's option"
  fo_format :: "u8 \<Rightarrow> u8 list \<Rightarrow> u8 list option \<Rightarrow> 's \<Rightarrow> 's option"
  fo_opendir :: "path_t \<Rightarrow> 's \<Rightarrow> (u8 \<times> dh_t \<times> 's) option"
  fo_readdir :: "dh_t \<Rightarrow> 's \<Rightarrow> (int \<times> cbmdirent_t option \<times> dh_t \<times> 's) option"
  fo_mkdir :: "path_t \<Rightarrow> u8 list \<Rightarrow> 's \<Rightarrow> 's option"
  fo_chdir :: "path_t \<Rightarrow> cbmdirent_t \<Rightarrow> 's \<Rightarrow> (u8 \<times> path_t \<times> 's) option"
  fo_rename :: "path_t \<Rightarrow> cbmdirent_t \<Rightarrow> u8 list \<Rightarrow> 's \<Rightarrow> (u8 list \<times> 's) option"

definition d64ops :: "'a fw_scheme fileops" where
  "d64ops = \<lparr>
     fo_open_read = (\<lambda>path dent i s. map_option (Pair dent) (d64_open_read path dent i s)),
     fo_open_write = (\<lambda>path dent ty i app s. map_option (Pair dent) (d64_open_write path dent ty i app s)),
     fo_open_rel = d64_open_rel,
     fo_file_delete = (\<lambda>path dent s. map_option (\<lambda>(r, s). (r, dent, s)) (d64_delete path dent s)),
     fo_disk_label = d64_getdisklabel,
     fo_dir_label = d64_getdirlabel,
     fo_disk_id = d64_getid,
     fo_disk_free = d64_freeblocks,
     fo_read_sector = d64_read_sector,
     fo_write_sector = d64_write_sector,
     fo_format = d64_format,
     fo_opendir = d64_opendir,
     fo_readdir = d64_readdir,
     fo_mkdir = d64_mkdir,
     fo_chdir = d64_chdir,
     fo_rename = (\<lambda>path dent newname s. map_option (Pair newname) (d64_rename path dent (cstr newname) s))\<rparr>"

definition eefs_ops :: "'a fw_scheme fileops" where
  "eefs_ops = \<lparr>
     fo_open_read = eefs_open_read,
     fo_open_write = eefs_open_write,
     fo_open_rel = eefs_open_rel,
     fo_file_delete = eefs_delete,
     fo_disk_label = (\<lambda>p s. Some (0, eefs_disk_label p, s)),
     fo_dir_label = (\<lambda>path s. Some (0, eefs_dir_label path, s)),
     fo_disk_id = (\<lambda>path s. Some (0, eefs_disk_id path, s)),
     fo_disk_free = (\<lambda>p s. Some (eefs_disk_free p s, s)),
     fo_read_sector = eefs_read_sector,
     fo_write_sector = eefs_write_sector,
     fo_format = eefs_format,
     fo_opendir = eefs_opendir,
     fo_readdir = eefs_readdir,
     fo_mkdir = image_mkdir,
     fo_chdir = (\<lambda>path dent s. map_option (\<lambda>(r, s). (r, path, s)) (eefs_chdir path dent s)),
     fo_rename = (\<lambda>path dent newname s. map_option snd (eefs_rename path dent newname s))\<rparr>"

fun fops :: "'a fw_scheme fileops \<Rightarrow> fop_t \<Rightarrow> 'a fw_scheme fileops" where
  "fops fat FATOPS = fat"
| "fops fat D64OPS = d64ops"
| "fops fat EEFSOPS = eefs_ops"

text \<open>The table of a partition; \<open>None\<close> behind the end of the partition array.\<close>

definition fop_of :: "'a fw_scheme fileops \<Rightarrow> u8 \<Rightarrow> 'a fw_scheme \<Rightarrow> 'a fw_scheme fileops option" where
  "fop_of fat p s = (if unat p < length (partitions s) then Some (fops fat (pt_fop (part p s))) else None)"

section \<open>The wrappers\<close>

definition w_open_read where
  "w_open_read fat path dent i s = do { f \<leftarrow> fop_of fat (path_part path) s; fo_open_read f path dent i s }"

definition w_open_write where
  "w_open_write fat path dent ty i app s =
     do { f \<leftarrow> fop_of fat (path_part path) s; fo_open_write f path dent ty i app s }"

definition w_open_rel where
  "w_open_rel fat path dent i len mode s =
     do { f \<leftarrow> fop_of fat (path_part path) s; fo_open_rel f path dent i len mode s }"

definition w_file_delete where
  "w_file_delete fat path dent s = do { f \<leftarrow> fop_of fat (path_part path) s; fo_file_delete f path dent s }"

definition w_disk_label where
  "w_disk_label fat p s = do { f \<leftarrow> fop_of fat p s; fo_disk_label f p s }"

definition w_dir_label where
  "w_dir_label fat path s = do { f \<leftarrow> fop_of fat (path_part path) s; fo_dir_label f path s }"

definition w_disk_id where
  "w_disk_id fat path s = do { f \<leftarrow> fop_of fat (path_part path) s; fo_disk_id f path s }"

definition w_disk_free where
  "w_disk_free fat p s = do { f \<leftarrow> fop_of fat p s; fo_disk_free f p s }"

definition w_read_sector where
  "w_read_sector fat i p t sc s = do { f \<leftarrow> fop_of fat p s; fo_read_sector f i p t sc s }"

definition w_write_sector where
  "w_write_sector fat i p t sc s = do { f \<leftarrow> fop_of fat p s; fo_write_sector f i p t sc s }"

definition w_format where
  "w_format fat p name diskid s = do { f \<leftarrow> fop_of fat p s; fo_format f p name diskid s }"

definition w_opendir where
  "w_opendir fat path s = do { f \<leftarrow> fop_of fat (path_part path) s; fo_opendir f path s }"

definition w_readdir where
  "w_readdir fat dh s = do { f \<leftarrow> fop_of fat (dh_part dh) s; fo_readdir f dh s }"

definition w_mkdir where
  "w_mkdir fat path dirname s = do { f \<leftarrow> fop_of fat (path_part path) s; fo_mkdir f path dirname s }"

definition w_chdir where
  "w_chdir fat path dent s = do { f \<leftarrow> fop_of fat (path_part path) s; fo_chdir f path dent s }"

definition w_rename where
  "w_rename fat path dent newname s = do { f \<leftarrow> fop_of fat (path_part path) s; fo_rename f path dent newname s }"

lemmas wrap_defs = w_open_read_def w_open_write_def w_open_rel_def w_file_delete_def w_disk_label_def
  w_dir_label_def w_disk_id_def w_disk_free_def w_read_sector_def w_write_sector_def w_format_def
  w_opendir_def w_readdir_def w_mkdir_def w_chdir_def w_rename_def

lemma fop_of_eefs: "unat p < length (partitions s) \<Longrightarrow> pt_fop (part p s) = EEFSOPS \<Longrightarrow> fop_of fat p s = Some eefs_ops"
  by (simp add: fop_of_def)

lemma fop_of_d64: "unat p < length (partitions s) \<Longrightarrow> pt_fop (part p s) = D64OPS \<Longrightarrow> fop_of fat p s = Some d64ops"
  by (simp add: fop_of_def)

end
