(* ===== verification/Match.thy ===== *)
theory Match
  imports Wrapops
begin

text \<open>
  The second half of \<^verbatim>\<open>src/src/parser.c\<close>: searching a directory for a matching entry and parsing
  a path in front of a file name.  Strings the channel layer works on lie in the command
  buffer: a pointer is an index into that array, which is zero behind the command, so the
  strings in it are terminated.  \<open>None\<close> is undefined behaviour of the C code or a directory
  search that does not end.
\<close>

section \<open>Strings in the command buffer\<close>

definition cstr_at :: "u8 list \<Rightarrow> nat \<Rightarrow> u8 list" where
  "cstr_at m i = cstr (drop i m)"

definition ustrchr :: "u8 list \<Rightarrow> nat \<Rightarrow> u8 \<Rightarrow> nat option" where
  "ustrchr m i c = map_option (\<lambda>k. i + k) (find (\<lambda>k. cstr_at m i ! k = c) [0..<length (cstr_at m i)])"

section \<open>Matching directory entries\<close>

fun mem_less :: "u8 list \<Rightarrow> u8 list \<Rightarrow> bool" where
  "mem_less (a # as) (b # bs) \<longleftrightarrow> a < b \<or> a = b \<and> mem_less as bs"
| "mem_less _ _ \<longleftrightarrow> False"

text \<open>The bytes of the packed date structure, which the code compares with \<open>memcmp\<close>.\<close>

definition date_bytes :: "date_t \<Rightarrow> u8 list" where
  "date_bytes d = [d_year d, d_month d, d_day d, d_hour d, d_minute d, d_second d]"

definition entry_matches ::
  "bool \<Rightarrow> u8 list option \<Rightarrow> date_t option \<Rightarrow> date_t option \<Rightarrow> u8 \<Rightarrow> cbmdirent_t \<Rightarrow> bool option" where
  "entry_matches pm matchstr start end' type dent =
     (if type AND TYPE_MASK \<noteq> 0 \<and> ce_typeflags dent AND TYPE_MASK \<noteq> type AND TYPE_MASK then Some False
      else if ce_typeflags dent AND FLAG_HIDDEN \<noteq> 0 \<and> type AND FLAG_HIDDEN = 0 then Some False
      else do {
        m \<leftarrow> (case matchstr of
                None \<Rightarrow> Some True
              | Some ms \<Rightarrow> match_name pm ms (ce_name dent) (ce_opstype dent = OPSTYPE_FAT));
        Some (m \<and>
          (case start of None \<Rightarrow> True | Some d \<Rightarrow> \<not> mem_less (date_bytes (ce_date dent)) (date_bytes d)) \<and>
          (case end' of None \<Rightarrow> True | Some d \<Rightarrow> \<not> mem_less (date_bytes d) (date_bytes (ce_date dent)))) })"

text \<open>The result is that of \<open>readdir\<close>: 0 with an entry, -1 at the end of the directory, or an error.\<close>

partial_function (option) next_match ::
  "'a fw_scheme fileops \<Rightarrow> dh_t \<Rightarrow> u8 list option \<Rightarrow> date_t option \<Rightarrow> date_t option \<Rightarrow> u8 \<Rightarrow> 'a fw_scheme \<Rightarrow>
   (int \<times> cbmdirent_t option \<times> dh_t \<times> 'a fw_scheme) option" where
  "next_match fat dh matchstr start end' type s = do {
     (res, d, dh, s) \<leftarrow> w_readdir fat dh s;
     (case d of
        Some dent \<Rightarrow>
          if res = 0 then do {
            ok \<leftarrow> entry_matches (postmatch s) matchstr start end' type dent;
            (if ok then Some (0, Some dent, dh, s) else next_match fat dh matchstr start end' type s) }
          else Some (res, None, dh, s)
      | None \<Rightarrow> Some (res, None, dh, s)) }"

definition first_match ::
  "'a drive_scheme fileops \<Rightarrow> path_t \<Rightarrow> u8 list \<Rightarrow> u8 \<Rightarrow> 'a drive_scheme \<Rightarrow>
   (int \<times> cbmdirent_t option \<times> 'a drive_scheme) option" where
  "first_match fat path matchstr type s = do {
     (r, dh, s) \<leftarrow> w_opendir fat path s;
     let s = s\<lparr>matchdh := dh\<rparr>;
     (if r \<noteq> 0 then Some (1, None, s)
      else do {
        (res, d, dh, s) \<leftarrow> next_match fat (matchdh s) (Some matchstr) None None type s;
        let s = s\<lparr>matchdh := dh\<rparr>;
        s \<leftarrow> (if res < 0 then set_error ERROR_FILE_NOT_FOUND s else Some s);
        Some (res, d, s) }) }"

section \<open>Paths\<close>

definition component_end :: "u8 list \<Rightarrow> nat \<Rightarrow> nat" where
  "component_end m i =
     i + length (takeWhile (\<lambda>c. c \<noteq> 0 \<and> c \<noteq> asc CHR ''/'' \<and> c \<noteq> asc CHR '':'') (drop i m))"

text \<open>
  The loop over the components of a path.  The path, the index of the name (\<open>None\<close> when it is
  left unset) and the array are returned; a component is terminated in place for the search
  and the terminator stays when the search fails.
\<close>

partial_function (option) path_loop ::
  "'a drive_scheme fileops \<Rightarrow> bool \<Rightarrow> u8 list \<Rightarrow> nat \<Rightarrow> path_t \<Rightarrow> 'a drive_scheme \<Rightarrow>
   (u8 \<times> path_t \<times> nat option \<times> u8 list \<times> 'a drive_scheme) option" where
  "path_loop fat for_cd m i path s =
     (if cchar m i = 0 then Some (0, path, Some i, m, s)
      else if cchar m i = asc CHR '':'' then Some (0, path, Some (Suc i), m, s)
      else if cchar m i \<noteq> asc CHR ''/'' then path_loop fat for_cd m (Suc i) path s
      else if cchar m (Suc i) = asc CHR ''/'' then do {
        (_, path, s) \<leftarrow> w_chdir fat path dirent_zero s;
        path_loop fat for_cd m (Suc i) path s }
      else if cchar m (Suc i) = 0 then Some (0, path, Some (Suc i), m, s)
      else if cchar m (Suc i) = asc CHR '':'' then Some (0, path, Some (Suc (Suc i)), m, s)
      else do {
        let e = component_end m (Suc i);
        let m' = m[e := 0];
        let name = cstr_at m' (Suc i);
        (res, d, s) \<leftarrow> first_match fat path name FLAG_HIDDEN s;
        (case d of
           None \<Rightarrow> do {
             s \<leftarrow> (if current_error s = ERROR_FILE_NOT_FOUND then set_error ERROR_FILE_NOT_FOUND_39 s else Some s);
             Some (1, path, None, m', s) }
         | Some dent \<Rightarrow>
             if ce_typeflags dent AND TYPE_MASK \<noteq> TYPE_DIR then
               (if for_cd \<and> cchar m e = 0 \<and> check_imageext name \<noteq> IMG_UNKNOWN
                then Some (0, path, Some (Suc i), m', s)
                else do { s \<leftarrow> set_error ERROR_FILE_NOT_FOUND_39 s; Some (1, path, None, m', s) })
             else do {
               (_, path, s) \<leftarrow> w_chdir fat path dent s;
               path_loop fat for_cd m e path s }) })"

definition current_path :: "u8 \<Rightarrow> 'a fw_scheme \<Rightarrow> path_t" where
  "current_path p s = \<lparr>path_part = p, path_dir = pt_current_dir (part p s)\<rparr>"

text \<open>The path and the name are \<open>None\<close> when the C code returns without setting them.\<close>

definition parse_path ::
  "'a drive_scheme fileops \<Rightarrow> u8 list \<Rightarrow> nat \<Rightarrow> bool \<Rightarrow> 'a drive_scheme \<Rightarrow>
   (u8 \<times> path_t option \<times> nat option \<times> u8 list \<times> 'a drive_scheme) option" where
  "parse_path fat m i for_cd s =
     (if for_cd \<or> ustrchr m i (asc CHR '':'') \<noteq> None then
        (let (rest, p) = parse_partition (eefs_partition s) (current_part s) (cstr_at m i);
             j = i + (length (cstr_at m i) - length rest) in
         if max_part s \<le> p then do {
           s \<leftarrow> set_error ERROR_DRIVE_NOT_READY s;
           Some (1, None, None, m, s) }
         else if cchar m j \<noteq> asc CHR ''/'' then
           Some (0, Some (current_path p s),
                 Some (case ustrchr m j (asc CHR '':'') of None \<Rightarrow> j | Some k \<Rightarrow> Suc k), m, s)
         else do {
           (r, path, n, m, s) \<leftarrow> path_loop fat for_cd m j (current_path p s) s;
           Some (r, Some path, n, m, s) })
      else Some (0, Some (current_path (current_part s) s), Some i, m, s))"

text \<open>Without an external display.\<close>

definition update_current_dir :: "path_t \<Rightarrow> 'a drive_scheme \<Rightarrow> 'a drive_scheme" where
  "update_current_dir path s =
     (upd_part (path_part path) (\<lambda>pt. pt\<lparr>pt_current_dir := path_dir path\<rparr>) s)\<lparr>dir_changed := True\<rparr>"

end
