(* ===== verification/Fileops.thy ===== *)
theory Fileops
  imports Match
begin

text \<open>
  Opening of channels, \<^verbatim>\<open>src/src/fileops.c\<close>: the directory listings with their refill callbacks,
  direct access buffers and the analysis of a file name with its type and mode suffixes.
  The compile-time choices are those of petSD+ with IEC bus.
\<close>

section \<open>Tables\<close>

definition HEADER_OFFSET_DRIVE :: nat where [simp]: "HEADER_OFFSET_DRIVE = 4"
definition HEADER_OFFSET_NAME :: nat where [simp]: "HEADER_OFFSET_NAME = 8"
definition HEADER_OFFSET_ID :: nat where [simp]: "HEADER_OFFSET_ID = 26"
definition BAM_OFFSET_NAME :: nat where [simp]: "BAM_OFFSET_NAME = 0x90"
definition BAM_OFFSET_ID :: nat where [simp]: "BAM_OFFSET_ID = 0xa2"
definition BAM_A0_AREA_SIZE :: nat where [simp]: "BAM_A0_AREA_SIZE = 0xaa - 0x90 + 1"

definition dirheader :: "u8 list" where
  "dirheader = [1, 4, 1, 1, 0, 0, 0x12, 0x22] @ str ''NODISKEMU       '' @ [0x22, 0x20] @ str ''DS 2A'' @ [0]"

definition syspart_line :: "u8 list" where
  "syspart_line = [1, 1, 0, 0] @ str ''   '' @ [0x22] @ str ''SYSTEM'' @ [0x22] @ str ''           SYS  '' @ [0]"

definition dirfooter :: "u8 list" where
  "dirfooter = [1, 1, 0, 0] @ str ''BLOCKS FREE.             '' @ [0, 0, 0]"

definition TYPE_LENGTH :: nat where [simp]: "TYPE_LENGTH = 3"
definition EXT_TYPE_MASK :: u8 where [simp]: "EXT_TYPE_MASK = 15"
definition TYPE_DEL :: u8 where [simp]: "TYPE_DEL = 0"
definition TYPE_SEQ :: u8 where [simp]: "TYPE_SEQ = 1"
definition TYPE_USR :: u8 where [simp]: "TYPE_USR = 3"
definition TYPE_REL :: u8 where [simp]: "TYPE_REL = 4"
definition TYPE_CBM :: u8 where [simp]: "TYPE_CBM = 5"
definition TYPE_NAT :: u8 where [simp]: "TYPE_NAT = 8"
definition FLAG_RO :: u8 where [simp]: "FLAG_RO = 0x40"
definition DIR_FMT_CBM :: u8 where [simp]: "DIR_FMT_CBM = 0"
definition DIR_FMT_CMD_SHORT :: u8 where [simp]: "DIR_FMT_CMD_SHORT = 1"
definition DIR_FMT_CMD_LONG :: u8 where [simp]: "DIR_FMT_CMD_LONG = 2"
definition IMAGE_DIR_NORMAL :: u8 where [simp]: "IMAGE_DIR_NORMAL = 0"
definition IMAGE_DIR_DIR :: u8 where [simp]: "IMAGE_DIR_DIR = 1"
definition BUFFER_SEC_CHAIN :: u8 where [simp]: "BUFFER_SEC_CHAIN = BUFFER_SEC_SYSTEM - 1"
definition ERROR_FILE_TYPE_MISMATCH :: u8 where [simp]: "ERROR_FILE_TYPE_MISMATCH = 64"

section \<open>A line of the directory listing\<close>

definition line_length :: "u8 \<Rightarrow> nat" where
  "line_length format =
     (if format = DIR_FMT_CMD_LONG then 63 else if format = DIR_FMT_CMD_SHORT then 41 else 31)"

text \<open>The position of the quote in front of the name: fewer digits of the block count, more fill.\<close>

definition quote_pos :: "u16 \<Rightarrow> nat" where
  "quote_pos blocks = 4 + (if blocks < 1000 then 1 else 0) + (if blocks < 100 then 1 else 0) + (if blocks < 10 then 1 else 0)"

text \<open>
  The 17 bytes behind the quote: the name, closed by a quote at its first quote or zero byte
  or behind 16 characters; from there on zero bytes are blanks and bit 7 is cleared.
\<close>

definition quoted_name :: "u8 list \<Rightarrow> u8 list" where
  "quoted_name name =
     (let n = length (takeWhile (\<lambda>c. c \<noteq> 0x22 \<and> c \<noteq> 0) (take CBM_NAME_LENGTH name));
          d = (take CBM_NAME_LENGTH name @ [asc CHR '' ''])[n := 0x22]
      in take n d @ map (\<lambda>c. if c = 0 then asc CHR '' '' else c AND 0x7f) (drop n d))"

text \<open>\<open>appendnumber\<close> at a position of the data area: the data and the position behind the number.\<close>

definition put_number :: "u8 \<Rightarrow> u8 list \<times> nat \<Rightarrow> u8 list \<times> nat" where
  "put_number v dp = (case dp of (d, p) \<Rightarrow> (put_at p (appendnumber [] v) d, p + length (appendnumber [] v)))"

definition put_char :: "u8 \<Rightarrow> u8 list \<times> nat \<Rightarrow> u8 list \<times> nat" where
  "put_char c dp = (case dp of (d, p) \<Rightarrow> (d[p := c], Suc p))"

definition skip_char :: "nat \<Rightarrow> u8 list \<times> nat \<Rightarrow> u8 list \<times> nat" where
  "skip_char n dp = (fst dp, snd dp + n)"

text \<open>The loops that overwrite the rest of a line with ones up to its end marker.\<close>

definition fill_ones :: "u8 list \<times> nat \<Rightarrow> u8 list option" where
  "fill_ones dp =
     (case dp of (d, p) \<Rightarrow>
        if 0 \<in> set (drop p d)
        then Some (take p d @ map (\<lambda>_. 1) (takeWhile (\<lambda>c. c \<noteq> 0) (drop p d)) @ dropWhile (\<lambda>c. c \<noteq> 0) (drop p d))
        else None)"

definition hour12 :: "u8 \<Rightarrow> u8" where
  "hour12 h = (if h > 12 then h - 12 else h)"

definition am_pm :: "u8 \<Rightarrow> u8" where
  "am_pm h = (if h > 11 then asc CHR ''P'' else asc CHR ''A'')"

definition long_date :: "date_t \<Rightarrow> u8 list \<times> nat \<Rightarrow> u8 list option" where
  "long_date t dp = fill_ones
     (put_char (asc CHR ''M'') (put_char (am_pm (d_hour t)) (skip_char 1 (put_number (d_minute t)
       (put_char (asc CHR ''.'') (put_number (hour12 (d_hour t)) (skip_char 3 (put_number (d_year t mod 100)
       (put_char (asc CHR ''/'') (put_number (d_day t) (put_char (asc CHR ''/'') (put_number (d_month t)
       (skip_char 7 dp)))))))))))))"

definition short_date :: "date_t \<Rightarrow> u8 list \<times> nat \<Rightarrow> u8 list option" where
  "short_date t dp = fill_ones
     (put_char (am_pm (d_hour t)) (skip_char 1 (put_number (d_minute t)
       (put_char (asc CHR ''.'') (put_number (hour12 (d_hour t)) (skip_char 1 (put_number (d_day t)
       (put_char (asc CHR ''/'') (put_number (d_month t) (skip_char 3 dp)))))))))) "

text \<open>
  The data area of a buffer after \<open>createentry\<close>; \<open>None\<close> is a file type behind the end of the
  type table or a line without end marker.
\<close>

definition createentry :: "cbmdirent_t \<Rightarrow> u8 \<Rightarrow> u8 list \<Rightarrow> u8 list option" where
  "createentry dent format data =
     (let n = line_length format;
          d = (put_at 0 (replicate n (asc CHR '' '')) data)[n := 0];
          d = put_at 0 [if ce_remainder dent \<noteq> 0xff then ce_remainder dent + 2 else 1, 1,
                        ucast (ce_blocksize dent AND 0xff), ucast (drop_bit 8 (ce_blocksize dent))] d;
          q = quote_pos (ce_blocksize dent);
          d = put_at (Suc q) (quoted_name (ce_name dent)) (d[q := 0x22]);
          p = q + CBM_NAME_LENGTH + 2;
          d = (if ce_typeflags dent AND FLAG_SPLAT \<noteq> 0 then d[p := asc CHR ''*''] else d);
          ty = TYPE_LENGTH * unat (ce_typeflags dent AND EXT_TYPE_MASK);
          len = (if format AND DIR_FMT_CMD_SHORT \<noteq> 0 then 1 else TYPE_LENGTH) in
      if length filetypes < ty + len then None
      else
        (let d = put_at (Suc p) (take len (drop ty filetypes)) d;
             d = (if ce_typeflags dent AND FLAG_RO \<noteq> 0 then d[p + 4 := asc CHR ''<''] else d) in
         if format AND DIR_FMT_CMD_LONG \<noteq> 0 then long_date (ce_date dent) (d, p)
         else if format = DIR_FMT_CMD_SHORT then short_date (ce_date dent) (d, p)
         else Some (if ce_typeflags dent AND FLAG_HIDDEN \<noteq> 0 then d[p + 5 := asc CHR ''H''] else d)))"

definition put_entry :: "cbmdirent_t \<Rightarrow> nat \<Rightarrow> u8 \<Rightarrow> 'a fw_scheme \<Rightarrow> 'a fw_scheme option" where
  "put_entry dent i format s = do {
     d \<leftarrow> createentry dent format (b_data (buf i s));
     Some (upd_buf i (\<lambda>b. b\<lparr>b_lastused := of_nat (line_length format), b_data := d\<rparr>) s) }"

section \<open>Directory callbacks\<close>

definition upd_dir :: "nat \<Rightarrow> (dir_pvt \<Rightarrow> dir_pvt) \<Rightarrow> 'a fw_scheme \<Rightarrow> 'a fw_scheme" where
  "upd_dir i f s = upd_buf i (\<lambda>b. b\<lparr>b_dir := f (b_dir b)\<rparr>) s"

definition dir_footer :: "'a fw_scheme fileops \<Rightarrow> nat \<Rightarrow> 'a fw_scheme \<Rightarrow> (u8 \<times> 'a fw_scheme) option" where
  "dir_footer fat i s = do {
     let s = upd_buf i (\<lambda>b. b\<lparr>b_data := put_at 0 dirfooter (b_data b)\<rparr>) s;
     (blocks, s) \<leftarrow> w_disk_free fat (dh_part (dr_dh (b_dir (buf i s)))) s;
     Some (0, upd_buf i (\<lambda>b. b\<lparr>b_data := put_at 2 [ucast (blocks AND 0xff), ucast (drop_bit 8 blocks)] (b_data b),
                b_position := 0, b_lastused := 31, b_sendeoi := True\<rparr>) s) }"

text \<open>
  The entry for a partition: name, number and type are set, everything else is what the
  uninitialised local variable holds.
\<close>

definition partition_entry :: "u8 \<Rightarrow> u8 list \<Rightarrow> 'a drive_scheme \<Rightarrow> cbmdirent_t" where
  "partition_entry p label s =
     (stack_dirent s)\<lparr>ce_name := take 17 (label @ drop (length label) (ce_name (stack_dirent s))),
        ce_blocksize := ucast p + 1,
        ce_typeflags := (if pt_fop (part p s) = D64OPS
                         then (pt_imagetype (part p s) AND D64_TYPE_MASK) + TYPE_NAT - 1 else TYPE_NAT)\<rparr>"

partial_function (option) pdir_loop :: "'a drive_scheme fileops \<Rightarrow> nat \<Rightarrow> 'a drive_scheme \<Rightarrow> (u8 \<times> 'a drive_scheme) option" where
  "pdir_loop fat i s =
     (let p = pd_part (b_pdir (buf i s)) in
      if p < max_part s then do {
        (res, label, s) \<leftarrow> w_disk_label fat p s;
        (if res \<noteq> 0 then Some (1, free_buffer (Some i) s)
         else do {
           let dent = partition_entry p label s;
           let s = upd_buf i (\<lambda>b. b\<lparr>b_pdir := (b_pdir b)\<lparr>pd_part := p + 1\<rparr>\<rparr>) s;
           m \<leftarrow> (case pd_matchstr (b_pdir (buf i s)) of
                   None \<Rightarrow> Some True
                 | Some k \<Rightarrow> match_name (postmatch s) (cstr_at (command_buffer s) k) (ce_name dent) False);
           (if \<not> m then pdir_loop fat i s
            else do { s \<leftarrow> put_entry dent i DIR_FMT_CBM s; Some (0, s) }) }) }
      else Some (0, upd_buf i (\<lambda>b. b\<lparr>b_lastused := 1, b_sendeoi := True, b_data := put_at 0 [0, 0] (b_data b)\<rparr>) s))"

definition pdir_refill :: "'a drive_scheme fileops \<Rightarrow> nat \<Rightarrow> 'a drive_scheme \<Rightarrow> (u8 \<times> 'a drive_scheme) option" where
  "pdir_refill fat i s = pdir_loop fat i (upd_buf i (\<lambda>b. b\<lparr>b_position := 0\<rparr>) s)"

text \<open>Whether an entry is an image file that the listing shows as a directory.\<close>

definition shown_as_dir :: "cbmdirent_t \<Rightarrow> 'a fw_scheme \<Rightarrow> bool" where
  "shown_as_dir dent s \<longleftrightarrow> image_as_dir s \<noteq> IMAGE_DIR_NORMAL \<and> ce_opstype dent = OPSTYPE_FAT \<and>
     check_imageext (cstr (ce_realname dent)) \<noteq> IMG_UNKNOWN"

definition dir_refill :: "'a drive_scheme fileops \<Rightarrow> nat \<Rightarrow> 'a drive_scheme \<Rightarrow> (u8 \<times> 'a drive_scheme) option" where
  "dir_refill fat i s =
     (let s = upd_buf i (\<lambda>b. b\<lparr>b_position := 0\<rparr>) s;
          v = b_dir (buf i s) in
      if dr_counter v \<noteq> 0 then do {
        let s = upd_dir i (\<lambda>v. v\<lparr>dr_counter := 0\<rparr>) s;
        s \<leftarrow> put_entry ((dr_saved v)\<lparr>ce_typeflags := TYPE_DIR\<rparr>) i (dr_format v) s;
        Some (0, s) }
      else do {
        (res, d, dh, s) \<leftarrow> next_match fat (dr_dh v) (map_option (cstr_at (command_buffer s)) (dr_matchstr v))
            (if dr_match_start v then Some (date_match_start s) else None)
            (if dr_match_end v then Some (date_match_end s) else None) (dr_filetype v) s;
        let s = upd_dir i (\<lambda>v. v\<lparr>dr_dh := dh\<rparr>) s;
        (case d of
           Some dent \<Rightarrow> do {
             let (dent, s) =
               (if shown_as_dir dent s then
                  if image_as_dir s = IMAGE_DIR_DIR
                  then (dent\<lparr>ce_typeflags := (ce_typeflags dent AND 0xf0) OR TYPE_DIR\<rparr>, s)
                  else (dent, upd_dir i (\<lambda>v. v\<lparr>dr_counter := 1, dr_saved := dent\<rparr>) s)
                else (dent, s));
             s \<leftarrow> put_entry dent i (dr_format v) s;
             Some (0, s) }
         | None \<Rightarrow>
             if res = -1 then dir_footer fat i s else Some (1, free_buffer (Some i) s)) })"

definition rawdir_dummy_refill :: "nat \<Rightarrow> 'a fw_scheme \<Rightarrow> (u8 \<times> 'a fw_scheme) option" where
  "rawdir_dummy_refill i s =
     (let c = dr_counter (b_dir (buf i s));
          s = upd_dir i (\<lambda>v. v\<lparr>dr_counter := c + 1\<rparr>) s;
          s = upd_buf i (\<lambda>b. b\<lparr>b_position := (if c \<noteq> 0 then 0 else 2)\<rparr>) s
      in Some (0, if c + 1 = 8 then upd_buf i (\<lambda>b. b\<lparr>b_sendeoi := True\<rparr>) s else s))"

definition raw_entry :: "cbmdirent_t \<Rightarrow> u8 list \<Rightarrow> u8 list" where
  "raw_entry dent d =
     (let d = d[DIR_OFS_TRACK := 1, DIR_OFS_SIZE_LOW := ucast (ce_blocksize dent AND 0xff),
                DIR_OFS_SIZE_HI := ucast (drop_bit 8 (ce_blocksize dent)),
                DIR_OFS_FILE_TYPE := ce_typeflags dent XOR FLAG_SPLAT];
          d = put_at DIR_OFS_FILE_NAME (replicate CBM_NAME_LENGTH 0xa0) d
      in put_at DIR_OFS_FILE_NAME (cstr (ce_name dent)) d)"

definition rawdir_put :: "cbmdirent_t \<Rightarrow> nat \<Rightarrow> 'a fw_scheme \<Rightarrow> 'a fw_scheme" where
  "rawdir_put dent i s =
     (let s = upd_buf i (\<lambda>b. b\<lparr>b_data := raw_entry dent (b_data b)\<rparr>) s;
          c = dr_counter (b_dir (buf i s));
          s = upd_dir i (\<lambda>v. v\<lparr>dr_counter := c + 1\<rparr>) s;
          s = upd_buf i (\<lambda>b. b\<lparr>b_position := (if c AND 0x7f \<noteq> 0 then 0 else 2), b_lastused := 31\<rparr>) s
      in if (c + 1) AND 0x7f = 8 then upd_dir i (\<lambda>v. v\<lparr>dr_counter := (c + 1) AND 0x80\<rparr>) s else s)"

definition rawdir_refill :: "'a fw_scheme fileops \<Rightarrow> nat \<Rightarrow> 'a fw_scheme \<Rightarrow> (u8 \<times> 'a fw_scheme) option" where
  "rawdir_refill fat i s =
     (let s = upd_buf i (\<lambda>b. b\<lparr>b_data := put_at 0 (replicate 32 0) (b_data b)\<rparr>) s;
          v = b_dir (buf i s) in
      if dr_counter v AND 0x80 = 0 then do {
        (res, d, dh, s) \<leftarrow> w_readdir fat (dr_dh v) s;
        let s = upd_dir i (\<lambda>v. v\<lparr>dr_dh := dh\<rparr>) s;
        (case d of
           None \<Rightarrow> if res = -1 then rawdir_dummy_refill i s else Some (1, free_buffer (Some i) s)
         | Some dent \<Rightarrow>
             (let (dent, s) =
                (if shown_as_dir dent s then
                   if image_as_dir s = IMAGE_DIR_DIR
                   then (dent\<lparr>ce_typeflags := (ce_typeflags dent AND 0xf0) OR TYPE_DIR\<rparr>, s)
                   else (dent, upd_dir i (\<lambda>v. v\<lparr>dr_counter := dr_counter v OR 0x80, dr_saved := dent\<rparr>) s)
                 else (dent, s))
              in Some (0, rawdir_put dent i s))) }
      else
        (let s = upd_dir i (\<lambda>v. v\<lparr>dr_counter := dr_counter v AND 0x7f\<rparr>) s
         in Some (0, rawdir_put ((dr_saved v)\<lparr>ce_typeflags := TYPE_DIR\<rparr>) i s)))"

section \<open>Opening a directory\<close>

definition dir_filetype :: "u8 \<Rightarrow> u8" where
  "dir_filetype c =
     (if c = asc CHR ''S'' then TYPE_SEQ else if c = asc CHR ''P'' then TYPE_PRG
      else if c = asc CHR ''U'' then TYPE_USR else if c = asc CHR ''R'' then TYPE_REL
      else if c = asc CHR ''C'' then TYPE_CBM else if c = asc CHR ''B'' \<or> c = asc CHR ''D'' then TYPE_DIR
      else if c = asc CHR ''H'' then FLAG_HIDDEN else 0)"

text \<open>The options behind the file type: date limits and formats, separated by commas.\<close>

definition date_given :: "date_t \<Rightarrow> bool" where
  "date_given d \<longleftrightarrow> d_month d \<noteq> 0 \<and> d_day d \<noteq> 0"

partial_function (option) dir_options :: "nat \<Rightarrow> nat \<Rightarrow> 'a drive_scheme \<Rightarrow> 'a drive_scheme option" where
  "dir_options i n s =
     (let m = command_buffer s; c = cchar m n in
      if c = 0 then Some s
      else do {
        (stop, n, s) \<leftarrow> Some
          (if c = asc CHR ''>'' then
             (let (err, d, n) = parse_date m (Suc n) (date_match_start s); s = s\<lparr>date_match_start := d\<rparr>
              in (err, n, if \<not> err \<and> date_given d then upd_dir i (\<lambda>v. v\<lparr>dr_match_start := True\<rparr>) s else s))
           else if c = asc CHR ''<'' then
             (let (err, d, n) = parse_date m (Suc n) (date_match_end s); s = s\<lparr>date_match_end := d\<rparr>
              in (err, n, if \<not> err \<and> date_given d then upd_dir i (\<lambda>v. v\<lparr>dr_match_end := True\<rparr>) s else s))
           else if c = asc CHR ''L'' then
             (False, Suc n, if dr_format (b_dir (buf i s)) \<noteq> DIR_FMT_CBM
                            then upd_dir i (\<lambda>v. v\<lparr>dr_format := DIR_FMT_CMD_LONG\<rparr>) s else s)
           else if c = asc CHR ''N'' then
             (False, Suc n, upd_dir i (\<lambda>v. v\<lparr>dr_format := DIR_FMT_CBM\<rparr>) s)
           else (True, Suc n, s));
        (if stop then Some s
         else if cchar m n = 0 then Some s
         else if cchar m n \<noteq> asc CHR '','' then Some s
         else dir_options i (Suc n) s) })"

text \<open>The part of the command behind the first \<open>=\<close> of the name pattern.\<close>

definition dir_suffix :: "nat \<Rightarrow> nat \<Rightarrow> 'a drive_scheme \<Rightarrow> 'a drive_scheme option" where
  "dir_suffix i name s =
     (case ustrchr (command_buffer s) name (asc CHR ''='') of
        None \<Rightarrow> Some s
      | Some e \<Rightarrow>
          (let s = s\<lparr>command_buffer := (command_buffer s)[e := 0]\<rparr>;
               n = Suc e;
               ft = dir_filetype (cchar (command_buffer s) n);
               s = upd_dir i (\<lambda>v. v\<lparr>dr_filetype := (if ft \<noteq> 0 then ft else dr_filetype v)\<rparr>) s in
           if dr_filetype (b_dir (buf i s)) \<noteq> 0 then
             (if cchar (command_buffer s) (Suc n) \<noteq> asc CHR '','' then Some s
              else dir_options i (Suc (Suc n)) s)
           else dir_options i n s))"

text \<open>
  The analysis of the directory command: the path, or \<open>None\<close> when the function returns.  The
  handle of the opened directory is stored in the buffer.
\<close>

definition open_dir_at :: "'a drive_scheme fileops \<Rightarrow> path_t \<Rightarrow> nat \<Rightarrow> 'a drive_scheme \<Rightarrow> (path_t option \<times> 'a drive_scheme) option" where
  "open_dir_at fat path i s = do {
     (r, dh, s) \<leftarrow> w_opendir fat path s;
     let s = upd_dir i (\<lambda>v. v\<lparr>dr_dh := dh\<rparr>) s;
     Some (if r \<noteq> 0 then (None, s) else (Some path, s)) }"

definition scan_dir_command ::
  "'a drive_scheme fileops \<Rightarrow> nat \<Rightarrow> nat \<Rightarrow> 'a drive_scheme \<Rightarrow> (path_t option \<times> 'a drive_scheme) option" where
  "scan_dir_command fat pos i s =
     (let cb = command_buffer s; c = cchar cb 1 in
      if cchar cb pos = 0 then open_dir_at fat (current_path (current_part s) s) i s
      else if command_length s > 2 then do {
        (r, path, name, m, s) \<leftarrow> parse_path fat cb pos False s;
        let s = s\<lparr>command_buffer := m\<rparr>;
        (if r \<noteq> 0 then Some (None, s)
         else do {
           path \<leftarrow> path;
           name \<leftarrow> name;
           (p, s) \<leftarrow> open_dir_at fat path i s;
           (case p of
              None \<Rightarrow> Some (None, s)
            | Some path \<Rightarrow> do {
                s \<leftarrow> dir_suffix i name (upd_dir i (\<lambda>v. v\<lparr>dr_matchstr := Some name\<rparr>) s);
                Some (Some path, s) }) }) }
      else
        (let (p, s) =
           (if c = asc CHR ''0'' then (current_part s, s)
            else if c_isdigit c then (c - asc CHR ''0'' - 1, s)
            else if c = asc CHR ''!'' \<and> eefs_partition s \<noteq> 255 then (eefs_partition s, s)
            else (current_part s, upd_dir i (\<lambda>v. v\<lparr>dr_matchstr := Some 1\<rparr>) s)) in
         if max_part s \<le> p then do { s \<leftarrow> set_error ERROR_DRIVE_NOT_READY s; Some (None, s) }
         else open_dir_at fat (current_path p s) i s))"

text \<open>Trailing blanks of the 16 bytes of a label become shifted blanks.\<close>

definition pad_label :: "u8 list \<Rightarrow> u8 list" where
  "pad_label l = (let n = length (takeWhile (\<lambda>c. c = asc CHR '' '') (rev l)) in take (length l - n) l @ replicate n 0xa0)"

definition raw_header :: "'a drive_scheme fileops \<Rightarrow> path_t \<Rightarrow> nat \<Rightarrow> 'a drive_scheme \<Rightarrow> 'a drive_scheme option" where
  "raw_header fat path i s =
     (if pt_fop (part (path_part path) s) = D64OPS then d64_raw_directory path i s
      else do {
        let s = upd_buf i (\<lambda>b. b\<lparr>b_data := put_at (BAM_OFFSET_NAME - 2) (replicate BAM_A0_AREA_SIZE 0xa0)
                                    (put_at 0 (replicate 256 0) (b_data b))\<rparr>) s;
        (r, label, s) \<leftarrow> w_dir_label fat path s;
        let s = upd_buf i (\<lambda>b. b\<lparr>b_data := put_at (BAM_OFFSET_NAME - 2) label (b_data b)\<rparr>) s;
        (if r \<noteq> 0 then Some s
         else do {
           (r, diskid, s) \<leftarrow> w_disk_id fat path s;
           let s = upd_buf i (\<lambda>b. b\<lparr>b_data := put_at (BAM_OFFSET_ID - 2) diskid (b_data b)\<rparr>) s;
           (if r \<noteq> 0 then Some s
            else Some (stick_buffer i (upd_buf i (\<lambda>b.
                (let d = b_data b;
                     d = put_at (BAM_OFFSET_NAME - 2)
                           (pad_label (take CBM_NAME_LENGTH (drop (BAM_OFFSET_NAME - 2) d))) d;
                     d = (if d ! BAM_OFFSET_ID = 0x20 then d[BAM_OFFSET_ID := 0xa0] else d)
                 in b\<lparr>b_data := d[0 := asc CHR ''A''], b_refill := Refill_rawdir, b_lastused := 253\<rparr>)) s))) }) })"

definition list_header :: "'a drive_scheme fileops \<Rightarrow> path_t \<Rightarrow> nat \<Rightarrow> 'a drive_scheme \<Rightarrow> 'a drive_scheme option" where
  "list_header fat path i s = do {
     let s = upd_buf i (\<lambda>b. b\<lparr>b_data := (put_at 0 dirheader (b_data b))[HEADER_OFFSET_DRIVE := path_part path + 1]\<rparr>) s;
     (r, label, s) \<leftarrow> w_dir_label fat path s;
     let s = upd_buf i (\<lambda>b. b\<lparr>b_data := put_at HEADER_OFFSET_NAME label (b_data b)\<rparr>) s;
     (if r \<noteq> 0 then Some s
      else do {
        (r, diskid, s) \<leftarrow> w_disk_id fat path s;
        let s = upd_buf i (\<lambda>b. b\<lparr>b_data := put_at HEADER_OFFSET_ID diskid (b_data b)\<rparr>) s;
        (if r \<noteq> 0 then Some s
         else Some (stick_buffer i (upd_buf i (\<lambda>b. b\<lparr>b_refill := Refill_dir\<rparr>) s))) }) }"

definition partition_header :: "'a drive_scheme fileops \<Rightarrow> nat \<Rightarrow> 'a drive_scheme \<Rightarrow> 'a drive_scheme option" where
  "partition_header fat i s = do {
     let s = upd_buf i (\<lambda>b. b\<lparr>b_data := (put_at 32 syspart_line (put_at 0 dirheader (b_data b)))[HEADER_OFFSET_DRIVE := max_part s],
                b_lastused := 63, b_refill := Refill_pdir\<rparr>) s;
     (if command_length s > 3 then do {
        (r, _, name, m, s) \<leftarrow> parse_path fat (command_buffer s) 3 False s;
        let s = s\<lparr>command_buffer := m\<rparr>;
        Some (if r \<noteq> 0 then s
              else stick_buffer i (upd_buf i (\<lambda>b. b\<lparr>b_pdir := (b_pdir b)\<lparr>pd_matchstr := name\<rparr>\<rparr>) s)) }
      else Some (stick_buffer i s)) }"

definition load_directory :: "'a drive_scheme fileops \<Rightarrow> u8 \<Rightarrow> 'a drive_scheme \<Rightarrow> 'a drive_scheme option" where
  "load_directory fat secondary s = do {
     (bp, s) \<leftarrow> alloc_buffer s;
     (case bp of
        None \<Rightarrow> Some s
      | Some i \<Rightarrow>
          (let s = upd_buf i (\<lambda>b. b\<lparr>b_secondary := secondary, b_read := True, b_lastused := 31\<rparr>) s;
               cb = command_buffer s;
               extended = (command_length s > 2 \<and> secondary = 0 \<and> cchar cb 1 = asc CHR ''='') in
           if extended \<and> cchar cb 2 = asc CHR ''P'' then partition_header fat i s
           else
             (let timed = (extended \<and> cchar cb 2 = asc CHR ''T'');
                  s = (if timed then upd_dir i (\<lambda>v. v\<lparr>dr_format := DIR_FMT_CMD_SHORT\<rparr>) s else s) in do {
                (path, s) \<leftarrow> scan_dir_command fat (if timed then 3 else 1) i s;
                (case path of
                   None \<Rightarrow> Some s
                 | Some path \<Rightarrow> if secondary \<noteq> 0 then raw_header fat path i s else list_header fat path i s) }))) }"

section \<open>Direct access buffers\<close>

text \<open>
  The refill callback of \<open>#\<close> buffers hands the secondary address on to the next buffer of the
  chain, after the last one to the first; \<open>None\<close> is a chain without first buffer.
\<close>

definition directbuffer_refill :: "nat \<Rightarrow> 'a fw_scheme \<Rightarrow> (u8 \<times> 'a fw_scheme) option" where
  "directbuffer_refill i s =
     (let sc = b_secondary (buf i s);
          s = upd_buf i (\<lambda>b. b\<lparr>b_secondary := BUFFER_SEC_CHAIN - sc\<rparr>) s;
          c = b_chain (buf i s) in do {
        j \<leftarrow> (case ch_next c of None \<Rightarrow> ch_first c | Some j \<Rightarrow> Some j);
        Some (0, upd_buf j (\<lambda>b. b\<lparr>b_secondary := sc, b_position := 0, b_mustflush := False\<rparr>) s) })"

definition setup_direct :: "u8 \<Rightarrow> nat \<Rightarrow> 'a fw_scheme \<Rightarrow> 'a fw_scheme" where
  "setup_direct secondary i s =
     mark_write_buffer i (upd_buf i (\<lambda>b. b\<lparr>b_secondary := BUFFER_SEC_CHAIN - secondary,
       b_refill := Refill_directbuffer, b_cleanup := Cleanup_largebuffer, b_read := True, b_lastused := 255,
       b_chain := (b_chain b)\<lparr>ch_part := current_part s\<rparr>\<rparr>) s)"

text \<open>The loop over a chain returns the last buffer as well.\<close>

partial_function (option) setup_chain :: "u8 \<Rightarrow> nat \<Rightarrow> 'a fw_scheme \<Rightarrow> (nat \<times> 'a fw_scheme) option" where
  "setup_chain secondary i s =
     (let s = setup_direct secondary i s in
      case ch_next (b_chain (buf i s)) of
        None \<Rightarrow> Some (i, s)
      | Some j \<Rightarrow> setup_chain secondary j s)"

definition open_buffer :: "u8 \<Rightarrow> 'a drive_scheme \<Rightarrow> 'a drive_scheme option" where
  "open_buffer secondary s =
     (if command_length s = 3 \<and> cchar (command_buffer s) 1 = asc CHR ''#'' then
        (let count = cchar (command_buffer s) 2 - asc CHR ''0'' in
         if count = 0 then Some s
         else do {
           (bp, s) \<leftarrow> alloc_linked_buffers count s;
           (case bp of
              None \<Rightarrow> Some s
            | Some i \<Rightarrow> do {
                (prev, s) \<leftarrow> setup_chain secondary i s;
                let s = upd_buf prev (\<lambda>b. b\<lparr>b_sendeoi := True\<rparr>) s;
                first \<leftarrow> ch_first (b_chain (buf prev s));
                Some (upd_buf first (\<lambda>b. b\<lparr>b_secondary := secondary\<rparr>) s) }) })
      else do {
        (bp, s) \<leftarrow> alloc_buffer s;
        (case bp of
           None \<Rightarrow> Some s
         | Some i \<Rightarrow> Some (mark_write_buffer i (upd_buf i (\<lambda>b. b\<lparr>b_secondary := secondary, b_read := True,
               b_position := 1, b_lastused := 255, b_sendeoi := True, b_refill := Refill_directbuffer,
               b_chain := (b_chain b)\<lparr>ch_size := 1, ch_part := current_part s, ch_first := Some i\<rparr>\<rparr>) s))) })"

section \<open>Refill callbacks\<close>

text \<open>The function behind a refill callback.  The callbacks of FAT files are not modelled.\<close>

definition run_refill :: "'a drive_scheme fileops \<Rightarrow> refill_cb \<Rightarrow> nat \<Rightarrow> 'a drive_scheme \<Rightarrow> (u8 \<times> 'a drive_scheme) option" where
  "run_refill fat cb i s =
     (case cb of
        Refill_dummy \<Rightarrow> callback_dummy i s
      | Refill_set_ok_message \<Rightarrow> set_ok_message i s
      | Refill_d64_read \<Rightarrow> d64_read i s
      | Refill_d64_write \<Rightarrow> d64_write i s
      | Refill_eefs_read \<Rightarrow> eefs_refill_read i s
      | Refill_eefs_write \<Rightarrow> eefs_refill_write i s
      | Refill_pdir \<Rightarrow> pdir_refill fat i s
      | Refill_rawdir \<Rightarrow> rawdir_refill fat i s
      | Refill_dir \<Rightarrow> dir_refill fat i s
      | Refill_directbuffer \<Rightarrow> directbuffer_refill i s
      | _ \<Rightarrow> None)"

section \<open>Opening a file\<close>

datatype open_modes = OPEN_READ | OPEN_WRITE | OPEN_APPEND | OPEN_MODIFY

definition clean_cmdbuffer :: "'a drive_scheme \<Rightarrow> 'a drive_scheme" where
  "clean_cmdbuffer s =
     s\<lparr>command_buffer := take (unat (command_length s)) (command_buffer s) @
         replicate (length (command_buffer s) - unat (command_length s)) 0\<rparr>"

definition file_open_previous :: "'a drive_scheme fileops \<Rightarrow> 'a drive_scheme \<Rightarrow> 'a drive_scheme option" where
  "file_open_previous fat s = do {
     (bp, s) \<leftarrow> alloc_buffer s;
     (case bp of
        None \<Rightarrow> Some s
      | Some i \<Rightarrow> do {
          (_, s) \<leftarrow> w_open_read fat (previous_file_path s) (previous_file_dirent s) i
                      (upd_buf i (\<lambda>b. b\<lparr>b_secondary := 0\<rparr>) s);
          Some s }) }"

text \<open>
  At most two suffixes behind commas, each cut off in place; a relative file ends the scan
  with the byte behind the next comma as its record length.
\<close>

fun scan_suffixes :: "nat \<Rightarrow> u8 list \<Rightarrow> nat \<Rightarrow> open_modes \<Rightarrow> u8 \<Rightarrow> u8 list \<times> open_modes \<times> u8 \<times> u8" where
  "scan_suffixes 0 m p mode ft = (m, mode, ft, 0)"
| "scan_suffixes (Suc n) m p mode ft =
     (if cchar m p = 0 then (m, mode, ft, 0)
      else (case ustrchr m p (asc CHR '','') of
              None \<Rightarrow> (m, mode, ft, 0)
            | Some q \<Rightarrow>
                (let m = m[q := 0]; p = Suc q; c = cchar m p in
                 if c = asc CHR ''R'' then scan_suffixes n m p OPEN_READ ft
                 else if c = asc CHR ''W'' then scan_suffixes n m p OPEN_WRITE ft
                 else if c = asc CHR ''A'' then scan_suffixes n m p OPEN_APPEND ft
                 else if c = asc CHR ''M'' then scan_suffixes n m p OPEN_MODIFY ft
                 else if c = asc CHR ''D'' then scan_suffixes n m p mode TYPE_DEL
                 else if c = asc CHR ''S'' then scan_suffixes n m p mode TYPE_SEQ
                 else if c = asc CHR ''P'' then scan_suffixes n m p mode TYPE_PRG
                 else if c = asc CHR ''U'' then scan_suffixes n m p mode TYPE_USR
                 else if c = asc CHR ''L'' then
                   (m, OPEN_WRITE, TYPE_REL,
                    case ustrchr m p (asc CHR '','') of None \<Rightarrow> 0 | Some r \<Rightarrow> cchar m (Suc r))
                 else scan_suffixes n m p mode ft)))"

text \<open>
  The search for the file: deleted entries and directories only match when the file is to be
  written.
\<close>

partial_function (option) find_file ::
  "'a drive_scheme fileops \<Rightarrow> u8 list \<Rightarrow> bool \<Rightarrow> 'a drive_scheme \<Rightarrow> (int \<times> cbmdirent_t option \<times> 'a drive_scheme) option" where
  "find_file fat fname for_write s = do {
     (res, d, dh, s) \<leftarrow> next_match fat (matchdh s) (Some fname) None None FLAG_HIDDEN s;
     let s = s\<lparr>matchdh := dh\<rparr>;
     (case d of
        None \<Rightarrow> Some (res, None, s)
      | Some dent \<Rightarrow>
          if ce_typeflags dent AND TYPE_MASK \<noteq> TYPE_DEL \<and> ce_typeflags dent AND TYPE_MASK \<noteq> TYPE_DIR \<or> for_write
          then Some (0, Some dent, s)
          else find_file fat fname for_write s) }"

definition new_dirent :: "u8 list \<Rightarrow> cbmdirent_t" where
  "new_dirent fname = dirent_zero\<lparr>ce_name := take CBM_NAME_LENGTH (fname @ replicate CBM_NAME_LENGTH 0) @ [0]\<rparr>"

text \<open>The mode and type after the rules for relative files and secondary addresses 0 and 1.\<close>

definition effective_mode :: "u8 \<Rightarrow> open_modes \<Rightarrow> open_modes" where
  "effective_mode secondary mode =
     (if secondary = 0 then OPEN_READ else if secondary = 1 then OPEN_WRITE else mode)"

definition effective_type :: "u8 \<Rightarrow> u8 \<Rightarrow> u8" where
  "effective_type secondary ft =
     (if ft \<noteq> TYPE_DEL then ft else if secondary = 0 \<or> secondary = 1 then TYPE_PRG else TYPE_SEQ)"

text \<open>
  The entry to open: the one found, a new one for a file to be written, or \<open>None\<close> with an
  error set.  With \<open>@\<close> in front the old file is deleted first.
\<close>

definition prepare_entry ::
  "'a drive_scheme fileops \<Rightarrow> path_t \<Rightarrow> u8 list \<Rightarrow> open_modes \<Rightarrow> cbmdirent_t option \<Rightarrow> 'a drive_scheme \<Rightarrow>
   (cbmdirent_t option \<times> 'a drive_scheme) option" where
  "prepare_entry fat path fname mode d s =
     (if mode = OPEN_WRITE then
        (case d of
           Some dent \<Rightarrow>
             if cchar (command_buffer s) 0 = asc CHR ''@'' then
               (if \<not> check_free_buffers s then do { s \<leftarrow> set_error ERROR_NO_CHANNEL s; Some (None, s) }
                else do {
                  (r, _, s) \<leftarrow> w_file_delete fat path dent s;
                  Some (if r = 255 then None else Some dent, s) })
             else do { s \<leftarrow> set_error ERROR_FILE_EXISTS s; Some (None, s) }
         | None \<Rightarrow> do { s \<leftarrow> set_error ERROR_OK s; Some (Some (new_dirent fname), s) })
      else (case d of
              Some dent \<Rightarrow> Some (Some dent, s)
            | None \<Rightarrow> do { s \<leftarrow> set_error ERROR_FILE_NOT_FOUND s; Some (None, s) }))"

definition open_entry ::
  "'a drive_scheme fileops \<Rightarrow> u8 \<Rightarrow> path_t \<Rightarrow> cbmdirent_t \<Rightarrow> open_modes \<Rightarrow> u8 \<Rightarrow> u8 \<Rightarrow> 'a drive_scheme \<Rightarrow>
   'a drive_scheme option" where
  "open_entry fat secondary path dent mode ft recordlen s = do {
     (bp, s) \<leftarrow> alloc_buffer s;
     (case bp of
        None \<Rightarrow> Some s
      | Some i \<Rightarrow>
          (let s = upd_buf i (\<lambda>b. b\<lparr>b_secondary := secondary\<rparr>) s in
           if ft = TYPE_REL then w_open_rel fat path dent i recordlen (if mode = OPEN_MODIFY then 1 else 0) s
           else
             (let s = s\<lparr>previous_file_path := path, previous_file_dirent := dent\<rparr> in do {
                (_, s) \<leftarrow> (if mode = OPEN_MODIFY \<or> mode = OPEN_READ then w_open_read fat path dent i s
                           else w_open_write fat path dent ft i (mode = OPEN_APPEND) s);
                Some s }))) }"

definition open_named ::
  "'a drive_scheme fileops \<Rightarrow> u8 \<Rightarrow> open_modes \<Rightarrow> u8 \<Rightarrow> u8 \<Rightarrow> 'a drive_scheme \<Rightarrow> 'a drive_scheme option" where
  "open_named fat secondary mode ft recordlen s = do {
     (r, path, name, m, s) \<leftarrow> parse_path fat (command_buffer s) 0 False s;
     let s = s\<lparr>command_buffer := m\<rparr>;
     (if r \<noteq> 0 then Some s
      else do {
        path \<leftarrow> path;
        name \<leftarrow> name;
        let fname = cstr_at (command_buffer s) name;
        (r, dh, s) \<leftarrow> w_opendir fat path s;
        let s = s\<lparr>matchdh := dh\<rparr>;
        (if r \<noteq> 0 then Some s
         else do {
           (res, d, s) \<leftarrow> find_file fat fname (mode = OPEN_WRITE \<or> secondary = 1) s;
           let found_rel = (case d of None \<Rightarrow> False | Some dent \<Rightarrow> ce_typeflags dent AND TYPE_MASK = TYPE_REL);
           (if res > 0 then Some s
            else if d = None \<and> ft = TYPE_REL \<and> recordlen = 0 then set_error ERROR_SYNTAX_UNABLE s
            else if found_rel \<and> ft \<noteq> TYPE_REL \<and> ft \<noteq> TYPE_DEL then set_error ERROR_FILE_TYPE_MISMATCH s
            else do {
              let ft = (if found_rel then TYPE_REL else ft);
              let mode = effective_mode secondary (if found_rel then OPEN_MODIFY else mode);
              let ft = effective_type secondary ft;
              (dent, s) \<leftarrow> prepare_entry fat path fname mode d s;
              (case dent of
                 None \<Rightarrow> Some s
               | Some dent \<Rightarrow> open_entry fat secondary path dent mode ft recordlen s) }) }) }) }"

definition strip_cr :: "u8 list \<Rightarrow> u8 \<Rightarrow> u8" where
  "strip_cr cb len =
     (if len > 1 then
        (if cchar cb (unat len - 1) = 0x0d then len - 1
         else if cchar cb (unat len - 2) = 0x0d then len - 2 else len)
      else len)"

definition file_open :: "'a drive_scheme fileops \<Rightarrow> u8 \<Rightarrow> 'a drive_scheme \<Rightarrow> 'a drive_scheme option" where
  "file_open fat secondary s = do {
     s \<leftarrow> (case find_buffer secondary s of
             None \<Rightarrow> Some s
           | Some i \<Rightarrow> cleanup_and_free_buffer run_cleanup i s);
     s \<leftarrow> set_error ERROR_OK s;
     let s = clean_cmdbuffer (s\<lparr>command_length := strip_cr (command_buffer s) (command_length s)\<rparr>);
     (if cchar (command_buffer s) 0 = asc CHR ''#'' then open_buffer secondary s
      else
        (let star = (secondary = 0 \<and> command_length s = 1 \<and> cchar (command_buffer s) 0 = asc CHR ''*'') in
         if star \<and> cchar (ce_name (previous_file_dirent s)) 0 \<noteq> 0 then file_open_previous fat s
         else
           (let (m, mode, ft, recordlen) =
                  scan_suffixes 2 (command_buffer s) 0 OPEN_READ (if star then TYPE_PRG else TYPE_DEL);
                s = s\<lparr>command_buffer := m\<rparr> in
            if cchar (command_buffer s) 0 = asc CHR ''$'' then load_directory fat secondary s
            else open_named fat secondary mode ft recordlen s))) }"

end
