(* ===== verification/Doscmd_Disk.thy ===== *)
theory Doscmd_Disk
  imports Fileops
begin

text \<open>
  The commands of \<^verbatim>\<open>src/src/doscmd.c\<close> that work on directories, files and blocks: CD, MD and RD,
  block access, copy, partition change, new, position, rename and scratch.  The private data
  of a buffer is a union in C; block commands on a buffer that is not a direct access buffer
  read another member of it and are \<open>None\<close> here.
\<close>

section \<open>Errors and constants\<close>

definition ERROR_SCRATCHED :: u8 where [simp]: "ERROR_SCRATCHED = 1"
definition ERROR_PARTITION_SELECTED :: u8 where [simp]: "ERROR_PARTITION_SELECTED = 2"
definition ERROR_READ_NOSYNC :: u8 where [simp]: "ERROR_READ_NOSYNC = 21"
definition ERROR_SYNTAX_TOOLONG :: u8 where [simp]: "ERROR_SYNTAX_TOOLONG = 32"
definition ERROR_SYNTAX_NONAME :: u8 where [simp]: "ERROR_SYNTAX_NONAME = 34"
definition ERROR_RECORD_OVERFLOW :: u8 where [simp]: "ERROR_RECORD_OVERFLOW = 51"
definition ERROR_PARTITION_ILLEGAL :: u8 where [simp]: "ERROR_PARTITION_ILLEGAL = 77"
definition CURSOR_RIGHT :: u8 where [simp]: "CURSOR_RIGHT = 0x1d"

section \<open>Parsing helpers\<close>

text \<open>Up to \<open>n\<close> block parameters from index \<open>i\<close> on.\<close>

definition skip_separators :: "u8 list \<Rightarrow> nat \<Rightarrow> nat" where
  "skip_separators m i =
     i + length (takeWhile (\<lambda>c. c = asc CHR '' '' \<or> c = CURSOR_RIGHT \<or> c = asc CHR '','') (drop i m))"

fun block_values :: "nat \<Rightarrow> u8 list \<Rightarrow> nat \<Rightarrow> u8 list" where
  "block_values 0 m i = []"
| "block_values (Suc n) m i =
     (if cchar m i = 0 then []
      else (let i = skip_separators m i in
            if cchar m i = 0 then []
            else (let (v, i) = parse_number m i in ucast v # block_values n m i)))"

text \<open>The parameters, or \<open>None\<close> for a command that is too short.\<close>

definition parse_blockparam :: "u8 list \<Rightarrow> u8 list option" where
  "parse_blockparam m =
     (case ustrchr m 0 (asc CHR '':'') of
        Some k \<Rightarrow> Some (block_values 4 m (Suc k))
      | None \<Rightarrow> if length (cstr m) < 3 then None else Some (block_values 4 m 3))"

definition parse_bool :: "'a drive_scheme \<Rightarrow> (u8 \<times> 'a drive_scheme) option" where
  "parse_bool s =
     (let c = cchar (command_buffer s) 2 in
      if c = asc CHR ''+'' then Some (1, s)
      else if c = asc CHR ''-'' then Some (0, s)
      else do { s \<leftarrow> set_error ERROR_SYNTAX_UNKNOWN s; Some (255, s) })"

text \<open>\<open>parse_path\<close> on the command buffer; the continuation runs when it succeeds.\<close>

definition with_path ::
  "'a drive_scheme fileops \<Rightarrow> nat \<Rightarrow> bool \<Rightarrow> (path_t \<Rightarrow> nat \<Rightarrow> 'a drive_scheme \<Rightarrow> 'a drive_scheme option) \<Rightarrow>
   'a drive_scheme \<Rightarrow> 'a drive_scheme option" where
  "with_path fat i for_cd k s = do {
     (r, path, name, m, s) \<leftarrow> parse_path fat (command_buffer s) i for_cd s;
     let s = s\<lparr>command_buffer := m\<rparr>;
     (if r \<noteq> 0 then Some s else do { path \<leftarrow> path; name \<leftarrow> name; k path name s }) }"

section \<open>Directories\<close>

definition parse_mkdir :: "'a drive_scheme fileops \<Rightarrow> 'a drive_scheme \<Rightarrow> 'a drive_scheme option" where
  "parse_mkdir fat s =
     (if ustrchr (command_buffer s) 0 (asc CHR '':'') = None then set_error ERROR_SYNTAX_NONAME s
      else with_path fat 2 False (\<lambda>path name s. w_mkdir fat path (cstr_at (command_buffer s) name) s) s)"

text \<open>
  \<open>ustrcpy\<close> of the name into the 17 bytes of a local directory entry; \<open>None\<close> is a longer name,
  which overwrites the stack.
\<close>

definition do_chdir :: "'a drive_scheme fileops \<Rightarrow> nat \<Rightarrow> 'a drive_scheme \<Rightarrow> 'a drive_scheme option" where
  "do_chdir fat i s =
     with_path fat i True (\<lambda>path name s.
       (let s = s\<lparr>previous_file_dirent := (previous_file_dirent s)
                    \<lparr>ce_name := (ce_name (previous_file_dirent s))[0 := 0]\<rparr>\<rparr>;
            n = cstr_at (command_buffer s) name in
        if n = [] then
          (if ustrchr (command_buffer s) i (asc CHR ''/'') = None then set_error ERROR_FILE_NOT_FOUND_39 s
           else Some (update_current_dir path s))
        else do {
          (res, d, s) \<leftarrow>
            (if cchar n 0 = asc CHR ''_'' then
               (if CBM_NAME_LENGTH < length n then None
                else Some (0, Some ((stack_dirent s)\<lparr>ce_name := put_at 0 (n @ [0]) (ce_name (stack_dirent s))\<rparr>), s))
             else first_match fat path n FLAG_HIDDEN s);
          (case d of
             None \<Rightarrow> Some s
           | Some dent \<Rightarrow> do {
               (r, path, s) \<leftarrow> w_chdir fat path dent s;
               Some (if r \<noteq> 0 then s else update_current_dir path s) }) })) s"

definition parse_chdir :: "'a drive_scheme fileops \<Rightarrow> 'a drive_scheme \<Rightarrow> 'a drive_scheme option" where
  "parse_chdir fat s = do_chdir fat 2 s"

text \<open>The partition number is not checked; \<open>None\<close> is a partition that does not exist.\<close>

definition parse_rmdir :: "'a drive_scheme fileops \<Rightarrow> 'a drive_scheme \<Rightarrow> 'a drive_scheme option" where
  "parse_rmdir fat s =
     (let m = command_buffer s in
      if ustrchr m 0 (asc CHR ''/'') \<noteq> None then set_error ERROR_SYNTAX_NONAME s
      else
        (let (rest, p) = parse_partition (eefs_partition s) (current_part s) (cstr_at m 2);
             k = 2 + (length (cstr_at m 2) - length rest) in
         if cchar m k \<noteq> asc CHR '':'' then set_error ERROR_SYNTAX_NONAME s
         else if length (partitions s) \<le> unat p then None
         else do {
           (_, d, s) \<leftarrow> first_match fat (current_path p s) (cstr_at m (Suc k)) TYPE_DIR s;
           (case d of
              None \<Rightarrow> Some s
            | Some dent \<Rightarrow> do {
                (r, path, s) \<leftarrow> w_chdir fat (current_path p s) dent s;
                (if r \<noteq> 0 then Some s
                 else do {
                   (r, dh, s) \<leftarrow> w_opendir fat path s;
                   (if r \<noteq> 0 then Some s
                    else do {
                      (res, _, _, s) \<leftarrow> w_readdir fat dh s;
                      (if res \<noteq> -1 then
                         (if current_error s = 0 then set_error ERROR_FILE_EXISTS s else Some s)
                       else do {
                         (r, _, s) \<leftarrow> w_file_delete fat (path\<lparr>path_dir := pt_current_dir (part p s)\<rparr>) dent s;
                         (if r \<noteq> 255 then set_error_ts ERROR_SCRATCHED r 0 s else Some s) }) }) }) }) }))"

definition parse_dircommand :: "'a drive_scheme fileops \<Rightarrow> 'a drive_scheme \<Rightarrow> 'a drive_scheme option" where
  "parse_dircommand fat s =
     (let s = clean_cmdbuffer s; c = cchar (command_buffer s) 0 in
      if c = asc CHR ''M'' then parse_mkdir fat s
      else if c = asc CHR ''C'' then parse_chdir fat s
      else if c = asc CHR ''R'' then parse_rmdir fat s
      else set_error ERROR_SYNTAX_UNKNOWN s)"

section \<open>Blocks\<close>

text \<open>The private data of a direct access buffer.\<close>

definition direct_pvt :: "nat \<Rightarrow> 'a fw_scheme \<Rightarrow> chain_pvt option" where
  "direct_pvt i s = (if b_refill (buf i s) = Refill_directbuffer then Some (b_chain (buf i s)) else None)"

definition block_read :: "'a drive_scheme fileops \<Rightarrow> nat \<Rightarrow> u8 list \<Rightarrow> 'a drive_scheme \<Rightarrow> 'a drive_scheme option" where
  "block_read fat i ps s = do {
     c \<leftarrow> direct_pvt i s;
     s \<leftarrow> w_read_sector fat i (ch_part c) (ps ! 2) (ps ! 3) s;
     Some (if cchar (command_buffer s) 0 = asc CHR ''B''
           then upd_buf i (\<lambda>b. b\<lparr>b_position := 1, b_lastused := b_data b ! 0\<rparr>) s
           else upd_buf i (\<lambda>b. b\<lparr>b_position := 0, b_lastused := 255\<rparr>) s) }"

definition block_write :: "'a drive_scheme fileops \<Rightarrow> nat \<Rightarrow> u8 list \<Rightarrow> 'a drive_scheme \<Rightarrow> 'a drive_scheme option" where
  "block_write fat i ps s = do {
     c \<leftarrow> direct_pvt i s;
     w_write_sector fat i (ch_part c) (ps ! 2) (ps ! 3)
       (if cchar (command_buffer s) 0 = asc CHR ''B''
        then upd_buf i (\<lambda>b. b\<lparr>b_data := (b_data b)[0 := b_position b - 1]\<rparr>) s else s) }"

fun walk_chain :: "nat \<Rightarrow> nat \<Rightarrow> 'a fw_scheme \<Rightarrow> nat option" where
  "walk_chain 0 i s = Some i"
| "walk_chain (Suc n) i s =
     (case ch_next (b_chain (buf i s)) of
        Some j \<Rightarrow> walk_chain n j s
      | None \<Rightarrow> (case ch_first (b_chain (buf i s)) of None \<Rightarrow> None | Some j \<Rightarrow> walk_chain n j s))"

definition block_position :: "nat \<Rightarrow> u8 list \<Rightarrow> 'a fw_scheme \<Rightarrow> 'a fw_scheme option" where
  "block_position i ps s = do {
     c \<leftarrow> direct_pvt i s;
     (i, s) \<leftarrow> (if ch_size c \<noteq> 1 then do {
         let s = upd_buf i (\<lambda>b. b\<lparr>b_secondary := BUFFER_SEC_CHAIN - ps ! 0\<rparr>) s;
         f \<leftarrow> ch_first c;
         j \<leftarrow> walk_chain (unat (ps ! 2)) f s;
         Some (j, upd_buf j (\<lambda>b. b\<lparr>b_secondary := ps ! 0, b_mustflush := False\<rparr>) s) }
       else Some (i, s));
     Some (upd_buf i (\<lambda>b. b\<lparr>b_position := ps ! 1\<rparr>) s) }"

definition parse_block :: "'a drive_scheme fileops \<Rightarrow> 'a drive_scheme \<Rightarrow> 'a drive_scheme option" where
  "parse_block fat s =
     (let s = clean_cmdbuffer s; m = command_buffer s in
      case ustrchr m 0 (asc CHR ''-'') of
        None \<Rightarrow> set_error ERROR_SYNTAX_UNABLE s
      | Some k \<Rightarrow>
          (case parse_blockparam m of
             None \<Rightarrow> Some s
           | Some vs \<Rightarrow>
               (let ps = vs @ replicate (4 - length vs) 0; c = cchar m (Suc k) in
                if c = asc CHR ''R'' \<or> c = asc CHR ''W'' \<or> c = asc CHR ''P'' then
                  (case find_buffer (ps ! 0) s of
                     None \<Rightarrow> set_error ERROR_NO_CHANNEL s
                   | Some i \<Rightarrow>
                       if c = asc CHR ''R'' then block_read fat i ps s
                       else if c = asc CHR ''W'' then block_write fat i ps s
                       else block_position i ps s)
                else set_error ERROR_SYNTAX_UNABLE s)))"

section \<open>Copy\<close>

text \<open>How many bytes one round copies; the sizes are computed as \<open>int\<close> and kept in a byte.\<close>

definition copy_count :: "bool \<Rightarrow> buffer_t \<Rightarrow> buffer_t \<Rightarrow> u8" where
  "copy_count rel src dst =
     (let n = (if rel then b_recordlen src else - b_position dst);
          avail = uint (b_lastused src) - uint (b_position src) + 1;
          n = (if uint n > avail then of_int avail else n);
          room = 256 - uint (b_position dst)
      in if uint n > room then of_int room else n)"

text \<open>
  One round of the copy loop: the state and whether the last data has been copied.  \<open>None\<close> in
  the first place is an access behind the end of a data area.
\<close>

definition copy_round :: "bool \<Rightarrow> nat \<Rightarrow> nat \<Rightarrow> 'a fw_scheme \<Rightarrow> (bool \<times> 'a fw_scheme) option" where
  "copy_round rel si di s =
     (let src = buf si s; dst = buf di s; n = copy_count rel src dst in
      if 256 < unat (b_position src) + unat n \<or> 256 < unat (b_position dst) + unat n then None
      else
        (let s = upd_buf di (\<lambda>b. b\<lparr>b_data := put_at (unat (b_position dst))
                   (take (unat n) (drop (unat (b_position src)) (b_data src))) (b_data b)\<rparr>) s;
             s = mark_buffer_dirty di s;
             s = upd_buf si (\<lambda>b. b\<lparr>b_position := b_position b + n - 1\<rparr>) s;
             s = upd_buf di (\<lambda>b. b\<lparr>b_position := b_position b + n, b_lastused := b_position b + n - 1\<rparr>) s
         in Some (b_sendeoi (buf si s) \<and> b_position (buf si s) = b_lastused (buf si s), s)))"

text \<open>Refilling the source and the destination after a round; the flag is an error.\<close>

definition copy_refill :: "'a drive_scheme fileops \<Rightarrow> nat \<Rightarrow> nat \<Rightarrow> 'a drive_scheme \<Rightarrow> (bool \<times> 'a drive_scheme) option" where
  "copy_refill fat si di s = do {
     let src = buf si s;
     (r, s) \<leftarrow> (if b_recordlen src \<noteq> 0 then run_refill fat (b_refill src) si s
                else (let s = upd_buf si (\<lambda>b. b\<lparr>b_position := b_position b + 1\<rparr>) s in
                      if b_position src = b_lastused src then run_refill fat (b_refill src) si s else Some (0, s)));
     (if r \<noteq> 0 then Some (True, s)
      else do {
        let dst = buf di s;
        (r, s) \<leftarrow> (if b_recordlen dst \<noteq> 0 \<or> b_position dst = 0 then run_refill fat (b_refill dst) di s else Some (0, s));
        Some (r \<noteq> 0, s) }) }"

text \<open>The copy loop of one source; the flag is an error.\<close>

partial_function (option) copy_loop ::
  "'a drive_scheme fileops \<Rightarrow> bool \<Rightarrow> nat \<Rightarrow> nat \<Rightarrow> 'a drive_scheme \<Rightarrow> (bool \<times> 'a drive_scheme) option" where
  "copy_loop fat rel si di s = do {
     (finished, s) \<leftarrow> copy_round rel si di s;
     (if finished then Some (False, s)
      else do {
        (err, s) \<leftarrow> copy_refill fat si di s;
        (if err then Some (True, s) else copy_loop fat rel si di s) }) }"

text \<open>Opening a source and, for the first one, the destination; \<open>None\<close> in the result is an error.\<close>

definition copy_open ::
  "'a drive_scheme fileops \<Rightarrow> path_t \<Rightarrow> u8 list \<Rightarrow> path_t \<Rightarrow> cbmdirent_t \<Rightarrow> u8 \<Rightarrow> nat \<Rightarrow> nat \<Rightarrow> 'a drive_scheme \<Rightarrow>
   (u8 option \<times> 'a drive_scheme) option" where
  "copy_open fat dstpath dstname srcpath dent savedtype si di s =
     (let ty = ce_typeflags dent AND TYPE_MASK; rel = (ty = TYPE_REL) in
      if rel \<and> savedtype \<noteq> 0 \<and> savedtype \<noteq> TYPE_REL \<or> \<not> rel \<and> savedtype = TYPE_REL
      then do { s \<leftarrow> set_error ERROR_FILE_TYPE_MISMATCH s; Some (None, s) }
      else do {
        s \<leftarrow> (if rel then w_open_rel fat srcpath dent si 0 1 s
              else map_option snd (w_open_read fat srcpath dent si s));
        (if current_error s \<noteq> 0 then Some (None, s)
         else if savedtype \<noteq> 0 then Some (Some savedtype, s)
         else do {
           s \<leftarrow> (if rel then w_open_rel fat dstpath (new_dirent dstname) di (b_recordlen (buf si s)) 1 s
                 else map_option snd (w_open_write fat dstpath (new_dirent dstname) ty di False s));
           Some (Some ty, s) }) })"

text \<open>
  The loop over the sources, which are separated by commas; it ends with the source buffer in
  use.  A new source buffer is allocated after each file.
\<close>

partial_function (option) copy_sources ::
  "'a drive_scheme fileops \<Rightarrow> path_t \<Rightarrow> u8 list \<Rightarrow> nat \<Rightarrow> nat \<Rightarrow> u8 \<Rightarrow> nat \<Rightarrow> 'a drive_scheme \<Rightarrow>
   (nat \<times> 'a drive_scheme) option" where
  "copy_sources fat dstpath dstname si di savedtype tok s = do {
     (m, t) \<leftarrow> ustr1tok (command_buffer s) (asc CHR '','') tok;
     let s = s\<lparr>command_buffer := m\<rparr>;
     (case t of
        None \<Rightarrow> Some (si, s)
      | Some (srcname, tok) \<Rightarrow> do {
          (r, path, name, m, s) \<leftarrow> parse_path fat (command_buffer s) srcname False s;
          let s = s\<lparr>command_buffer := m\<rparr>;
          (if r \<noteq> 0 then Some (si, s)
           else do {
             path \<leftarrow> path;
             name \<leftarrow> name;
             (res, d, s) \<leftarrow> first_match fat path (cstr_at (command_buffer s) name) FLAG_HIDDEN s;
             (case d of
                None \<Rightarrow> Some (si, s)
              | Some dent \<Rightarrow> do {
                  (ty, s) \<leftarrow> copy_open fat dstpath dstname path dent savedtype si di s;
                  (case ty of
                     None \<Rightarrow> Some (si, s)
                   | Some savedtype \<Rightarrow> do {
                       (err, s) \<leftarrow> copy_loop fat (savedtype = TYPE_REL) si di s;
                       (if err then Some (si, s)
                        else do {
                          s \<leftarrow> cleanup_and_free_buffer run_cleanup si s;
                          (bp, s) \<leftarrow> alloc_buffer s;
                          si \<leftarrow> bp;
                          copy_sources fat dstpath dstname si di savedtype tok s }) }) }) }) }) }"

definition parse_copy :: "'a drive_scheme fileops \<Rightarrow> 'a drive_scheme \<Rightarrow> 'a drive_scheme option" where
  "parse_copy fat s =
     (let s = clean_cmdbuffer s in
      case ustrchr (command_buffer s) 0 (asc CHR ''='') of
        None \<Rightarrow> set_error ERROR_SYNTAX_UNKNOWN s
      | Some e \<Rightarrow>
          with_path fat 1 False (\<lambda>dstpath name s.
            (let dstname = cstr_at (command_buffer s) name in
             if dstname = [] then set_error ERROR_SYNTAX_NONAME s
             else if check_invalid_name dstname then set_error ERROR_SYNTAX_UNKNOWN s
             else do {
               (res, d, s) \<leftarrow> first_match fat dstpath dstname FLAG_HIDDEN s;
               (if res = 0 then set_error ERROR_FILE_EXISTS s
                else if res > 0 then Some s
                else do {
                  s \<leftarrow> set_error ERROR_OK s;
                  (sp, s) \<leftarrow> alloc_buffer s;
                  (dp, s) \<leftarrow> alloc_buffer s;
                  (case (sp, dp) of
                     (Some si, Some di) \<Rightarrow> do {
                       (si, s) \<leftarrow> copy_sources fat dstpath dstname si di 0 (Suc e) s;
                       (_, s) \<leftarrow> run_cleanup (b_cleanup (buf si s)) si s;
                       cleanup_and_free_buffer run_cleanup di s }
                   | _ \<Rightarrow> Some s) }) }))
            (s\<lparr>command_buffer := (command_buffer s)[e := 0]\<rparr>))"

section \<open>Partitions, formatting and positions\<close>

definition parse_changepart :: "'a drive_scheme \<Rightarrow> 'a drive_scheme option" where
  "parse_changepart s =
     (let (p, s) =
        (if cchar (command_buffer s) 1 = asc CHR ''P''
         then (let s = clean_cmdbuffer s
               in (snd (parse_partition (eefs_partition s) (current_part s) (cstr_at (command_buffer s) 2)), s))
         else (cchar (command_buffer s) 2 - 1, s)) in
      if max_part s \<le> p then set_error_ts ERROR_PARTITION_ILLEGAL (p + 1) 0 s
      else set_error_ts ERROR_PARTITION_SELECTED (p + 1) 0 (s\<lparr>current_part := p\<rparr>))"

definition parse_initialize :: "'a drive_scheme \<Rightarrow> 'a drive_scheme option" where
  "parse_initialize s =
     (if disk_state s \<noteq> DISK_OK then set_error_ts ERROR_READ_NOSYNC 18 0 s
      else do { (_, s) \<leftarrow> free_multiple_buffers run_cleanup FMB_USER_CLEAN s; Some s })"

text \<open>The partition number is not checked; \<open>None\<close> is a partition that does not exist.\<close>

definition parse_new :: "'a drive_scheme fileops \<Rightarrow> 'a drive_scheme \<Rightarrow> 'a drive_scheme option" where
  "parse_new fat s =
     (let s = clean_cmdbuffer s; m = command_buffer s;
          p = snd (parse_partition (eefs_partition s) (current_part s) (cstr_at m 1)) in
      case ustrchr m 0 (asc CHR '':'') of
        None \<Rightarrow> set_error ERROR_SYNTAX_NONAME s
      | Some k \<Rightarrow>
          (case ustrchr m (Suc k) (asc CHR '','') of
             None \<Rightarrow> w_format fat p (cstr_at m (Suc k)) None s
           | Some j \<Rightarrow>
               (let m = m[j := 0]
                in w_format fat p (cstr_at m (Suc k)) (Some (cstr_at m (Suc j))) (s\<lparr>command_buffer := m\<rparr>))))"

definition run_seek :: "seek_cb \<Rightarrow> nat \<Rightarrow> u32 \<Rightarrow> u8 \<Rightarrow> 'a fw_scheme \<Rightarrow> (u8 \<times> 'a fw_scheme) option" where
  "run_seek cb i pos index s = (case cb of Seek_d64 \<Rightarrow> d64_seek i pos index s | _ \<Rightarrow> None)"

definition le32 :: "u8 \<Rightarrow> u8 \<Rightarrow> u8 \<Rightarrow> u8 \<Rightarrow> u32" where
  "le32 a b c d = ucast a OR push_bit 8 (ucast b) OR push_bit 16 (ucast c) OR push_bit 24 (ucast d)"

definition parse_position :: "'a drive_scheme \<Rightarrow> 'a drive_scheme option" where
  "parse_position s =
     (let s = clean_cmdbuffer (s\<lparr>command_length := original_length s\<rparr>); m = command_buffer s;
          bp = (if command_length s < 2 then None else find_buffer (cchar m 1 AND 0x0f) s) in
      case bp of
        None \<Rightarrow> set_error ERROR_NO_CHANNEL s
      | Some i \<Rightarrow>
          if b_seek (buf i s) = Seek_null then set_error ERROR_SYNTAX_UNABLE s
          else if b_recordlen (buf i s) \<noteq> 0 then
            (let record = ucast (cchar m 2) :: u16;
                 record = (if command_length s > 2 then record OR push_bit 8 (ucast (cchar m 3)) else record);
                 pos = (if command_length s > 3 then cchar m 4 else 1) in
             if pos > b_recordlen (buf i s) then set_error ERROR_RECORD_OVERFLOW s
             else do {
               (_, s) \<leftarrow> run_seek (b_seek (buf i s)) i
                  (ucast (if record \<noteq> 0 then record - 1 else record) * ucast (b_recordlen (buf i s)))
                  (if pos \<noteq> 0 then pos - 1 else pos) s;
               Some s })
          else do {
            (_, s) \<leftarrow> run_seek (b_seek (buf i s)) i (le32 (cchar m 2) (cchar m 3) (cchar m 4) (cchar m 5)) 0 s;
            Some s })"

section \<open>Rename and scratch\<close>

text \<open>The paths are compared by directory only, as the code does.\<close>

definition parse_rename :: "'a drive_scheme fileops \<Rightarrow> 'a drive_scheme \<Rightarrow> 'a drive_scheme option" where
  "parse_rename fat s =
     (let s = clean_cmdbuffer s in
      case ustrchr (command_buffer s) 0 (asc CHR ''='') of
        None \<Rightarrow> set_error ERROR_SYNTAX_UNKNOWN s
      | Some e \<Rightarrow>
          with_path fat 1 False (\<lambda>newpath newname s.
            with_path fat (Suc e) False (\<lambda>oldpath oldname s.
              (let new = cstr_at (command_buffer s) newname in
               if path_dir oldpath \<noteq> path_dir newpath then set_error ERROR_FILE_NOT_FOUND s
               else if check_invalid_name new then set_error ERROR_SYNTAX_UNKNOWN s
               else if new = [] then set_error ERROR_SYNTAX_NONAME s
               else do {
                 (res, d, s) \<leftarrow> first_match fat newpath new FLAG_HIDDEN s;
                 (if res = 0 then set_error ERROR_FILE_EXISTS s
                  else if res > 0 then Some s
                  else do {
                    s \<leftarrow> set_error ERROR_OK s;
                    (res, d, s) \<leftarrow> first_match fat oldpath (cstr_at (command_buffer s) oldname) FLAG_HIDDEN s;
                    (case d of
                       None \<Rightarrow> Some s
                     | Some dent \<Rightarrow> do {
                         (arr, s) \<leftarrow> w_rename fat oldpath dent (drop newname (command_buffer s)) s;
                         Some (s\<lparr>command_buffer := take newname (command_buffer s) @ arr\<rparr>) }) }) })) s)
            (s\<lparr>command_buffer := (command_buffer s)[e := 0]\<rparr>))"

text \<open>
  Deleting all files that match one pattern.  The first component of the result tells
  whether the command goes on; the count is a byte.
\<close>

partial_function (option) scratch_loop ::
  "'a drive_scheme fileops \<Rightarrow> path_t \<Rightarrow> u8 list \<Rightarrow> u8 \<Rightarrow> 'a drive_scheme \<Rightarrow> (bool \<times> u8 \<times> 'a drive_scheme) option" where
  "scratch_loop fat path name count s = do {
     (res, d, dh, s) \<leftarrow> next_match fat (matchdh s) (Some name) None None FLAG_HIDDEN s;
     let s = s\<lparr>matchdh := dh\<rparr>;
     (case d of
        None \<Rightarrow> Some (res < 0, count, s)
      | Some dent \<Rightarrow>
          if ce_typeflags dent AND TYPE_MASK = TYPE_DIR then scratch_loop fat path name count s
          else do {
            (cnt, _, s) \<leftarrow> w_file_delete fat path dent s;
            (if cnt \<noteq> 255 then scratch_loop fat path name (count + cnt) s else Some (False, count, s)) }) }"

text \<open>
  The result of \<open>parse_path\<close> is not checked: an unset path or name is an uninitialised variable
  and \<open>None\<close> here.
\<close>

partial_function (option) scratch_names ::
  "'a drive_scheme fileops \<Rightarrow> nat \<Rightarrow> u8 \<Rightarrow> 'a drive_scheme \<Rightarrow> 'a drive_scheme option" where
  "scratch_names fat tok count s = do {
     (m, t) \<leftarrow> ustr1tok (command_buffer s) (asc CHR '','') tok;
     let s = s\<lparr>command_buffer := m\<rparr>;
     (case t of
        None \<Rightarrow> set_error_ts ERROR_SCRATCHED count 0 s
      | Some (filename, tok) \<Rightarrow> do {
          (_, path, name, m, s) \<leftarrow> parse_path fat (command_buffer s) filename False s;
          let s = s\<lparr>command_buffer := m\<rparr>;
          path \<leftarrow> path;
          (r, dh, s) \<leftarrow> w_opendir fat path s;
          let s = s\<lparr>matchdh := dh\<rparr>;
          (if r \<noteq> 0 then Some s
           else do {
             name \<leftarrow> name;
             (go, count, s) \<leftarrow> scratch_loop fat path (cstr_at (command_buffer s) name) count s;
             (if \<not> go then Some s else scratch_names fat tok count s) }) }) }"

definition parse_scratch :: "'a drive_scheme fileops \<Rightarrow> 'a drive_scheme \<Rightarrow> 'a drive_scheme option" where
  "parse_scratch fat s = scratch_names fat 1 0 (set_dirty_led True (clean_cmdbuffer s))"

end
