(* ===== verification/Doscmd_System.thy ===== *)
theory Doscmd_System
  imports Doscmd_Disk
begin

text \<open>
  The commands of \<^verbatim>\<open>src/src/doscmd.c\<close> that work on the drive itself: memory commands with the
  detection of fast loaders, direct sector access, partition information, clock, user and
  extended commands.  What they call outside the modelled code is a record of functions: the
  fast loaders, the sector drivers of \<^verbatim>\<open>src/src/diskio.h\<close> and FatFs.
\<close>

section \<open>Code outside the model\<close>

datatype fl_handler =
    Load_turbodisk | Load_fc3 | Save_fc3 | Load_fc3oldfreeze | Load_dreamload | Load_uload3 | Load_eload1
  | Load_gijoe | Load_epyxcart | Load_geos_s1 | Load_geos | Load_wheels_s1 | Load_wheels_s2 | Load_nippon
  | Load_ar6_1581 | Save_ar6_1581

datatype DRESULT = RES_OK | RES_ERROR | RES_WRPRT | RES_NOTRDY | RES_PARERR

text \<open>
  \<open>ex_f_open\<close> opens a file for reading by partition, directory cluster and name; \<open>ex_fatfs\<close> are the
  base sector, the number of clusters plus one and the cluster size of a FAT partition.
\<close>

record 's extern =
  ex_fat :: "'s fileops"
  ex_loader :: "fl_handler \<Rightarrow> u8 \<Rightarrow> 's \<Rightarrow> 's option"
  ex_disk_getinfo :: "u8 \<Rightarrow> u8 \<Rightarrow> 's \<Rightarrow> DRESULT \<times> u8 list \<times> 's"
  ex_disk_read :: "u8 \<Rightarrow> u32 \<Rightarrow> 's \<Rightarrow> DRESULT \<times> u8 list \<times> 's"
  ex_disk_write :: "u8 \<Rightarrow> u8 list \<Rightarrow> u32 \<Rightarrow> 's \<Rightarrow> DRESULT \<times> 's"
  ex_f_open :: "u8 \<Rightarrow> u32 \<Rightarrow> u8 list \<Rightarrow> 's \<Rightarrow> fil option"
  ex_fatfs :: "u8 \<Rightarrow> 's \<Rightarrow> u32 \<times> u32 \<times> u8"

definition ERROR_BUFFER_TOO_SMALL :: u8 where [simp]: "ERROR_BUFFER_TOO_SMALL = 78"
definition ERROR_UNKNOWN_DRIVECODE :: u8 where [simp]: "ERROR_UNKNOWN_DRIVECODE = 98"
definition BUFFER_SYS_CAPTURE1 :: u8 where [simp]: "BUFFER_SYS_CAPTURE1 = BUFFER_SEC_SYSTEM + 2"
definition FMB_USER :: u8 where [simp]: "FMB_USER = FMB_FREE_STICKY"
definition VC20MODE :: u8 where [simp]: "VC20MODE = 1"

section \<open>Fast loader tables\<close>

definition fl_crc_table :: "(u16 \<times> fastloaderid_t \<times> rxtx_t) list" where
  "fl_crc_table =
     [(0x9c9f, FL_TURBODISK, RXTX_NONE), (0xdab0, FL_FC3_LOAD, RXTX_NONE), (0x973b, FL_FC3_LOAD, RXTX_NONE),
      (0x7e38, FL_FC3_LOAD, RXTX_NONE), (0x1b30, FL_FC3_SAVE, RXTX_NONE), (0x8b0e, FL_FC3_SAVE, RXTX_NONE),
      (0x9930, FL_FC3_FREEZED, RXTX_NONE), (0x0281, FL_FC3_OLDFREEZED, RXTX_FC3OF_PAL),
      (0xc196, FL_FC3_OLDFREEZED, RXTX_FC3OF_NTSC), (0x2e69, FL_DREAMLOAD, RXTX_NONE),
      (0xdd81, FL_ULOAD3, RXTX_NONE), (0x393e, FL_ELOAD1, RXTX_NONE), (0x5a01, FL_EPYXCART, RXTX_NONE),
      (0xb979, FL_GEOS_S1_64, RXTX_GEOS_1MHZ), (0x2469, FL_GEOS_S1_128, RXTX_GEOS_1MHZ),
      (0x4d79, FL_GEOS_S23_1541, RXTX_GEOS_1MHZ), (0xb2bc, FL_GEOS_S23_1541, RXTX_GEOS_1MHZ),
      (0xb272, FL_GEOS_S23_1541, RXTX_GEOS_1MHZ), (0xdaed, FL_GEOS_S23_1571, RXTX_GEOS_2MHZ),
      (0x3f8d, FL_GEOS_S23_1581, RXTX_GEOS_2MHZ), (0xc947, FL_GEOS_S23_1581, RXTX_GEOS_1581_21),
      (0xf140, FL_WHEELS_S1_64, RXTX_WHEELS_1MHZ), (0x737e, FL_WHEELS_S1_128, RXTX_WHEELS_1MHZ),
      (0x755a, FL_WHEELS_S2, RXTX_WHEELS_1MHZ), (0x2920, FL_WHEELS_S2, RXTX_WHEELS_1MHZ),
      (0x18e9, FL_WHEELS_S2, RXTX_WHEELS_2MHZ), (0x9804, FL_WHEELS_S2, RXTX_WHEELS_2MHZ),
      (0x48f5, FL_WHEELS_S2, RXTX_WHEELS_2MHZ), (0x1356, FL_WHEELS_S2, RXTX_WHEELS_2MHZ),
      (0xe885, FL_WHEELS_S2, RXTX_WHEELS_2MHZ), (0x4eca, FL_WHEELS_S2, RXTX_WHEELS_2MHZ),
      (0xdbf6, FL_WHEELS_S2, RXTX_WHEELS_2MHZ), (0xe4ab, FL_WHEELS_S2, RXTX_WHEELS_2MHZ),
      (0x6de5, FL_WHEELS_S2, RXTX_WHEELS_2MHZ), (0x30ff, FL_WHEELS_S2, RXTX_WHEELS_2MHZ),
      (0x46e7, FL_WHEELS_S2, RXTX_WHEELS_2MHZ), (0x2253, FL_WHEELS_S2, RXTX_WHEELS_2MHZ),
      (0xc26a, FL_WHEELS44_S2, RXTX_WHEELS44_1541), (0x550c, FL_WHEELS44_S2, RXTX_WHEELS44_1541),
      (0x825b, FL_WHEELS44_S2_1581, RXTX_WHEELS44_1581), (0x245b, FL_WHEELS44_S2_1581, RXTX_WHEELS44_1581),
      (0x7021, FL_WHEELS44_S2_1581, RXTX_WHEELS44_1581), (0xd537, FL_WHEELS44_S2_1581, RXTX_WHEELS44_1581),
      (0xf635, FL_WHEELS44_S2_1581, RXTX_WHEELS44_1581), (0x43c1, FL_NIPPON, RXTX_NONE),
      (0x4870, FL_AR6_1581_LOAD, RXTX_NONE), (0x2925, FL_AR6_1581_SAVE, RXTX_NONE)]"

definition fl_handler_table :: "(u16 \<times> fastloaderid_t \<times> fl_handler \<times> u8) list" where
  "fl_handler_table =
     [(0x0303, FL_TURBODISK, Load_turbodisk, 0), (0x059a, FL_FC3_LOAD, Load_fc3, 0),
      (0x0400, FL_FC3_LOAD, Load_fc3, 0), (0x059c, FL_FC3_SAVE, Save_fc3, 0), (0x059a, FL_FC3_SAVE, Save_fc3, 0),
      (0x0403, FL_FC3_FREEZED, Load_fc3, 1), (0x057f, FL_FC3_OLDFREEZED, Load_fc3oldfreeze, 0),
      (0x0700, FL_DREAMLOAD, Load_dreamload, 0), (0x0336, FL_ULOAD3, Load_uload3, 0),
      (0x0300, FL_ELOAD1, Load_eload1, 0), (0x0500, FL_GI_JOE, Load_gijoe, 0),
      (0x01a9, FL_EPYXCART, Load_epyxcart, 0), (0x0457, FL_GEOS_S1_64, Load_geos_s1, 0),
      (0x0470, FL_GEOS_S1_128, Load_geos_s1, 1), (0x03e2, FL_GEOS_S23_1541, Load_geos, 0),
      (0x03dc, FL_GEOS_S23_1541, Load_geos, 0), (0x03ff, FL_GEOS_S23_1571, Load_geos, 0),
      (0x040f, FL_GEOS_S23_1581, Load_geos, 0), (0x0400, FL_WHEELS_S1_64, Load_wheels_s1, 0),
      (0x0400, FL_WHEELS_S1_128, Load_wheels_s1, 1), (0x0300, FL_WHEELS_S2, Load_wheels_s2, 0),
      (0x0400, FL_WHEELS44_S2, Load_wheels_s2, 0), (0x0300, FL_WHEELS44_S2_1581, Load_wheels_s2, 0),
      (0x0500, FL_WHEELS44_S2_1581, Load_wheels_s2, 0), (0x0300, FL_NIPPON, Load_nippon, 0),
      (0x0500, FL_AR6_1581_LOAD, Load_ar6_1581, 0), (0x05f4, FL_AR6_1581_SAVE, Save_ar6_1581, 0)]"

definition fl_capture_table :: "(fastloaderid_t \<times> u16 \<times> u8 \<times> u8) list" where
  "fl_capture_table =
     [(FL_GEOS_S1_64, 0x42a, 255, BUFFER_SYS_CAPTURE1), (FL_GEOS_S1_128, 0x44f, 255, BUFFER_SYS_CAPTURE1)]"

definition c1541_magics :: "(u16 \<times> u8 list) list" where
  "c1541_magics = [(0xfea0, [0x0d, 0xed]), (0xe5c6, [0x34, 0xb1]), (0xfffe, [0x00, 0x00])]"

definition system_partition_info :: "u8 list" where
  "system_partition_info =
     [0xff, 0xe2, 0x00, 0x53, 0x59, 0x53, 0x54, 0x45, 0x4d, 0xa0, 0xa0, 0xa0, 0xa0, 0xa0, 0xa0, 0xa0,
      0xa0, 0xa0, 0xa0, 0x00, 0x00, 0x00, 0x00, 0x00, 0x00, 0x00, 0x00, 0x00, 0x00, 0x00, 0x0d]"

section \<open>Memory commands\<close>

definition cmd_address :: "'a drive_scheme \<Rightarrow> u16" where
  "cmd_address s = ucast (cchar (command_buffer s) 3) + push_bit 8 (ucast (cchar (command_buffer s) 4))"

definition run_loader :: "'a drive_scheme extern \<Rightarrow> u16 \<Rightarrow> 'a drive_scheme \<Rightarrow> 'a drive_scheme option" where
  "run_loader ex address s =
     (let s = (if detected_loader s = FL_NONE then s\<lparr>detected_loader := previous_loader s\<rparr> else s) in do {
        s \<leftarrow> (case find (\<lambda>(a, l, _). detected_loader s = l \<and> address = a) fl_handler_table of
                Some (_, _, handler, parameter) \<Rightarrow> ex_loader ex handler parameter s
              | None \<Rightarrow> set_error_ts ERROR_UNKNOWN_DRIVECODE (ucast (drop_bit 8 (datacrc s)))
                          (ucast (datacrc s AND 0xff)) s);
        Some (s\<lparr>datacrc := 0xffff, previous_loader := detected_loader s, detected_loader := FL_NONE\<rparr>) })"

definition handle_memexec :: "'a drive_scheme extern \<Rightarrow> 'a drive_scheme \<Rightarrow> 'a drive_scheme option" where
  "handle_memexec ex s = (if command_length s < 5 then Some s else run_loader ex (cmd_address s) s)"

definition error_data :: "nat \<Rightarrow> u8 list \<Rightarrow> 'a fw_scheme \<Rightarrow> 'a fw_scheme" where
  "error_data p xs s = upd_buf ERRORBUFFER_IDX (\<lambda>b. b\<lparr>b_data := put_at p xs (b_data b)\<rparr>) s"

text \<open>The rom file: in the current directory, in the root or in the root of the first partition.\<close>

definition open_rom :: "'a drive_scheme extern \<Rightarrow> 'a drive_scheme \<Rightarrow> fil option" where
  "open_rom ex s =
     (let n = cstr (rom_filename s); p = current_part s in
      case ex_f_open ex p (dir_fat (pt_current_dir (part p s))) n s of
        Some f \<Rightarrow> Some f
      | None \<Rightarrow> (case ex_f_open ex p 0 n s of Some f \<Rightarrow> Some f | None \<Rightarrow> ex_f_open ex 0 0 n s))"

definition rom_address :: "nat \<Rightarrow> u16 \<Rightarrow> u16" where
  "rom_address sz address =
     (let a = address - 0x8000;
          a = (if sz < 32 * 1024 then a AND 0x3fff else a)
      in if sz mod 0x4000 \<noteq> 0 then a + of_nat (sz mod 0x4000) else a)"

text \<open>Reading from the rom file: the bytes read and whether all of them could be read.\<close>

definition rom_read :: "fil \<Rightarrow> u16 \<Rightarrow> nat \<Rightarrow> 'a fw_scheme \<Rightarrow> bool \<times> u8 list \<times> 'a fw_scheme" where
  "rom_read f a n s =
     (case next_io s of
        (IO_ERR _, s) \<Rightarrow> (False, [], s)
      | (_, s) \<Rightarrow>
          (case next_io s of
             (IO_ERR _, s) \<Rightarrow> (False, [], s)
           | (_, s) \<Rightarrow> (let f = seek_to (unat a) f; k = min n (fl_size f - fl_ptr f)
                        in (k = n, mem_read (fl_data f) (fl_ptr f) k, s))))"

definition magic_values :: "u16 \<Rightarrow> 'a fw_scheme \<Rightarrow> 'a fw_scheme" where
  "magic_values address s =
     (case find (\<lambda>(a, _). a = address) c1541_magics of None \<Rightarrow> s | Some (_, v) \<Rightarrow> error_data 0 v s)"

definition handle_memread :: "'a drive_scheme extern \<Rightarrow> 'a drive_scheme \<Rightarrow> 'a drive_scheme option" where
  "handle_memread ex s =
     (if command_length s < 6 then Some s
      else
        (let address = cmd_address s; count = cchar (command_buffer s) 5;
             s = (if address \<ge> 0x8000 \<and> cchar (rom_filename s) 0 \<noteq> 0 then
                    (case open_rom ex s of
                       None \<Rightarrow> magic_values address s
                     | Some f \<Rightarrow>
                         (let a = rom_address (fl_size f) address;
                              (ok, xs, s) = rom_read f a (min (unat count) CONFIG_ERROR_BUFFER_SIZE) s;
                              s = error_data 0 xs s
                          in if ok then s else magic_values a s))
                  else magic_values address s)
         in Some (upd_buf ERRORBUFFER_IDX (\<lambda>b. b\<lparr>b_position := 0, b_lastused := count - 1\<rparr>) s)))"

text \<open>\<open>_crc16_update\<close> of the C library: CRC-16 with the polynomial \<open>0xa001\<close>.\<close>

definition crc16_bit :: "u16 \<Rightarrow> u16" where
  "crc16_bit crc = (if bit crc 0 then drop_bit 1 crc XOR 0xa001 else drop_bit 1 crc)"

definition crc16_update :: "u16 \<Rightarrow> u8 \<Rightarrow> u16" where
  "crc16_update crc a = (crc16_bit ^^ 8) (crc XOR ucast a)"

text \<open>The checksum over the uploaded bytes, with the loader that is recognised while counting.\<close>

fun memwrite_crc :: "u8 list \<Rightarrow> u16 \<times> fastloaderid_t \<Rightarrow> u16 \<times> fastloaderid_t" where
  "memwrite_crc [] st = st"
| "memwrite_crc (b # bs) st =
     (case st of (crc, l) \<Rightarrow>
        (let crc = crc16_update crc b
         in memwrite_crc bs (crc, if crc = 0x38a2 \<and> b = 0x60 then FL_GI_JOE else l)))"

text \<open>\<open>None\<close> is copying from behind the command buffer or to behind the capture buffer.\<close>

definition capture_fl_data :: "u16 \<Rightarrow> u8 \<Rightarrow> 'a drive_scheme \<Rightarrow> 'a drive_scheme option" where
  "capture_fl_data address len s = do {
     i \<leftarrow> capture_buffer s;
     let dataofs = (ucast (capture_address s - address) :: u8);
     let bytes = (ucast (min (capture_remain s) (ucast len - ucast dataofs)) :: u8);
     (if length (command_buffer s) < 6 + unat dataofs + unat bytes \<or> 256 < unat (capture_offset s) + unat bytes then None
      else
        (let s = upd_buf i (\<lambda>b. b\<lparr>b_data := put_at (unat (capture_offset s))
                   (take (unat bytes) (drop (6 + unat dataofs) (command_buffer s))) (b_data b)\<rparr>) s;
             s = s\<lparr>capture_offset := capture_offset s + bytes, capture_address := capture_address s + ucast bytes,
                   capture_remain := capture_remain s - ucast bytes\<rparr>
         in Some (if capture_remain s = 0 then s\<lparr>capture_buffer := None\<rparr> else s))) }"

definition start_capture :: "fastloaderid_t \<Rightarrow> 'a drive_scheme \<Rightarrow> (bool \<times> 'a drive_scheme) option" where
  "start_capture loader s =
     (case find (\<lambda>(l, _). l = loader) fl_capture_table of
        None \<Rightarrow> Some (False, s)
      | Some (_, start, len, buffer_id) \<Rightarrow> do {
          let s = s\<lparr>capture_address := start, capture_remain := ucast len + 1, capture_offset := 0\<rparr>;
          (bp, s) \<leftarrow> alloc_system_buffer s;
          let s = s\<lparr>capture_buffer := bp\<rparr>;
          Some (True, case bp of
             None \<Rightarrow> s
           | Some i \<Rightarrow> upd_buf i (\<lambda>b. b\<lparr>b_secondary := buffer_id\<rparr>) (stick_buffer i s)) })"

definition handle_memwrite :: "'a drive_scheme \<Rightarrow> 'a drive_scheme option" where
  "handle_memwrite s =
     (if command_length s < 6 then Some s
      else
        (let m = command_buffer s; address = cmd_address s; len = cchar m 5 in
         if address = 119 then Some (s\<lparr>device_address := cchar m 6 AND 0x1f\<rparr>)
         else if address = 0x1c06 \<or> address = 0x1c07 \<or> address = 0x1802 then Some s
         else if length m < 6 + unat len then None
         else do {
           let (crc, l) = memwrite_crc (take (unat len) (drop 6 m)) (datacrc s, detected_loader s);
           let s = s\<lparr>previous_loader := FL_NONE, datacrc := crc, detected_loader := l\<rparr>;
           let row = find (\<lambda>(c, _). c = crc) fl_crc_table;
           let s = (case row of
                      None \<Rightarrow> s
                    | Some (_, l, x) \<Rightarrow> s\<lparr>detected_loader := l, fast_rxtx := (if x \<noteq> RXTX_NONE then x else fast_rxtx s)\<rparr>);
           s \<leftarrow> (if capture_buffer s \<noteq> None then capture_fl_data address len s else Some s);
           (case row of
              Some (_, l, _) \<Rightarrow>
                if capture_buffer s = None then do {
                  (started, s) \<leftarrow> start_capture l s;
                  (if started then capture_fl_data address len s else Some s) }
                else Some s
            | None \<Rightarrow> Some s) }))"

definition parse_memory :: "'a drive_scheme extern \<Rightarrow> 'a drive_scheme \<Rightarrow> 'a drive_scheme option" where
  "parse_memory ex s =
     (let c = cchar (command_buffer s) 2 in
      if c = asc CHR ''W'' then handle_memwrite s
      else if c = asc CHR ''E'' then handle_memexec ex s
      else if c = asc CHR ''R'' then handle_memread ex s
      else set_error ERROR_SYNTAX_UNKNOWN s)"

section \<open>Direct sector access\<close>

text \<open>A sector of 512 bytes in two neighbouring data areas.\<close>

definition store_sector :: "nat \<Rightarrow> u8 list \<Rightarrow> 'a fw_scheme \<Rightarrow> 'a fw_scheme" where
  "store_sector i xs s =
     upd_buf (Suc i) (\<lambda>b. b\<lparr>b_data := put_at 0 (drop 256 xs) (b_data b)\<rparr>)
       (upd_buf i (\<lambda>b. b\<lparr>b_data := put_at 0 (take 256 xs) (b_data b)\<rparr>) s)"

fun dresult_num :: "DRESULT \<Rightarrow> u8" where
  "dresult_num RES_OK = 0" | "dresult_num RES_ERROR = 1" | "dresult_num RES_WRPRT = 2"
| "dresult_num RES_NOTRDY = 3" | "dresult_num RES_PARERR = 4"

definition direct_read :: "'a drive_scheme extern \<Rightarrow> nat \<Rightarrow> u8 \<Rightarrow> u32 \<Rightarrow> 'a drive_scheme \<Rightarrow> 'a drive_scheme option" where
  "direct_read ex i drive sector s =
     (let (res, xs, s) = ex_disk_read ex drive sector s; s = store_sector i xs s in
      case res of
        RES_OK \<Rightarrow> Some s
      | RES_ERROR \<Rightarrow> set_error ERROR_READ_NOHEADER s
      | _ \<Rightarrow> set_error_ts ERROR_DRIVE_NOT_READY (dresult_num res) 0 s)"

definition direct_write :: "'a drive_scheme extern \<Rightarrow> nat \<Rightarrow> u8 \<Rightarrow> u32 \<Rightarrow> 'a drive_scheme \<Rightarrow> 'a drive_scheme option" where
  "direct_write ex i drive sector s =
     (let (res, s) = ex_disk_write ex drive (b_data (buf i s) @ b_data (buf (Suc i) s)) sector s in
      case res of
        RES_OK \<Rightarrow> Some s
      | RES_WRPRT \<Rightarrow> set_error ERROR_WRITE_PROTECT s
      | RES_ERROR \<Rightarrow> set_error ERROR_WRITE_VERIFY s
      | _ \<Rightarrow> set_error_ts ERROR_DRIVE_NOT_READY (dresult_num res) 0 s)"

definition parse_direct :: "'a drive_scheme extern \<Rightarrow> 'a drive_scheme \<Rightarrow> 'a drive_scheme option" where
  "parse_direct ex s =
     (let m = command_buffer s; c = cchar m 1 in
      case find_buffer (cchar m 2) s of
        None \<Rightarrow> set_error ERROR_NO_CHANNEL s
      | Some i \<Rightarrow> do {
          v \<leftarrow> direct_pvt i s;
          (i, s) \<leftarrow> (if ch_size v > 1 then do {
              let oldsec = b_secondary (buf i s);
              f \<leftarrow> ch_first v;
              Some (f, upd_buf f (\<lambda>b. b\<lparr>b_secondary := oldsec\<rparr>)
                         (upd_buf i (\<lambda>b. b\<lparr>b_secondary := BUFFER_SEC_CHAIN - oldsec\<rparr>) s)) }
            else Some (i, s));
          let s = upd_buf i (\<lambda>b. b\<lparr>b_position := 0, b_lastused := 255\<rparr>) s;
          let drive = cchar m 3;
          let sector = le32 (cchar m 4) (cchar m 5) (cchar m 6) (cchar m 7);
          (if c = asc CHR ''I'' then
             (let s = upd_buf i (\<lambda>b. b\<lparr>b_data := put_at 0 (replicate 256 0) (b_data b)\<rparr>) s;
                  (res, xs, s) = ex_disk_getinfo ex drive (cchar m 4) s;
                  s = upd_buf i (\<lambda>b. b\<lparr>b_data := put_at 0 xs (b_data b)\<rparr>) s
              in if res \<noteq> RES_OK then set_error ERROR_DRIVE_NOT_READY s else Some s)
           else if c = asc CHR ''R'' \<or> c = asc CHR ''W'' then
             (if ch_size (b_chain (buf i s)) < 2 then set_error ERROR_BUFFER_TOO_SMALL s
              else if c = asc CHR ''R'' then direct_read ex i drive sector s
              else direct_write ex i drive sector s)
           else set_error ERROR_SYNTAX_UNABLE s) })"

section \<open>Partition information\<close>

definition be24 :: "u32 \<Rightarrow> u8 list" where
  "be24 v = [ucast (drop_bit 16 v AND 0xff), ucast (drop_bit 8 v AND 0xff), ucast (v AND 0xff)]"

definition partition_size :: "'a drive_scheme extern \<Rightarrow> u8 \<Rightarrow> 'a drive_scheme \<Rightarrow> u32" where
  "partition_size ex p s =
     (let sz = (if pt_fop (part p s) = D64OPS then (of_nat (fl_size (pt_imagehandle (part p s))) + 511) div 512
                else (let (_, max_clust, csize) = ex_fatfs ex p s in (max_clust - 1) * ucast csize))
      in if sz > 0xffffff then 0xffffff else sz)"

text \<open>The label is read into the scratch area; \<open>None\<close> is a label that does not fit there.\<close>

definition parse_getpartition :: "'a drive_scheme extern \<Rightarrow> 'a drive_scheme \<Rightarrow> 'a drive_scheme option" where
  "parse_getpartition ex s =
     (let m = command_buffer s in
      if command_length s < 3 then Some s
      else if cchar m 1 \<noteq> asc CHR ''-'' \<or> cchar m 2 \<noteq> asc CHR ''P'' then set_error ERROR_SYNTAX_UNKNOWN s
      else
        (let p = (if command_length s = 3 \<or> cchar m 3 = 0xff then current_part s + 1 else cchar m 3);
             s = upd_buf ERRORBUFFER_IDX (\<lambda>b. b\<lparr>b_position := 0, b_lastused := 30,
                    b_data := put_at 0 (replicate 30 0 @ [13]) (b_data b)\<rparr>) s in
         if p > max_part s then Some s
         else if p = 0 then Some (error_data 0 system_partition_info s)
         else
           (let p = p - 1;
                s = error_data 0 ([if pt_fop (part p s) = D64OPS then pt_imagetype (part p s) AND D64_TYPE_MASK else 1,
                       0xe2, p + 1] @ replicate 16 0xa0) s in do {
              (r, label, s) \<leftarrow> w_disk_label (ex_fat ex) p s;
              let s = s\<lparr>ops_scratch := put_at 0 label (ops_scratch s)\<rparr>;
              (if r \<noteq> 0 then Some s
               else if CBM_NAME_LENGTH < length (cstr (ops_scratch s)) then None
               else
                 (let s = error_data 3 (cstr (ops_scratch s)) s;
                      s = error_data 19 (be24 (fst (ex_fatfs ex p s))) s
                  in Some (error_data 27 (be24 (partition_size ex p s)) s))) })))"

section \<open>Clock\<close>

definition downames :: "u8 list" where
  "downames = str ''SUN.MON.TUESWED.THURFRI.SAT.'' @ [0]"

definition asciitime_skel :: "u8 list" where
  "asciitime_skel = str '' xx/xx/xx xx:xx:xx xM'' @ [13, 0]"

text \<open>Several numbers and characters written into the error buffer at their places.\<close>

definition error_puts :: "(nat \<times> u8 list) list \<Rightarrow> 'a fw_scheme \<Rightarrow> 'a fw_scheme" where
  "error_puts xs s = fold (\<lambda>(p, x) s. error_data p x s) xs s"

definition error_last :: "u8 \<Rightarrow> 'a fw_scheme \<Rightarrow> 'a fw_scheme" where
  "error_last n s = upd_buf ERRORBUFFER_IDX (\<lambda>b. b\<lparr>b_lastused := n\<rparr>) s"

definition hour_1_12 :: "u8 \<Rightarrow> u8" where
  "hour_1_12 h = (if h mod 12 = 0 then 12 else h mod 12)"

definition iso_time :: "tm_t \<Rightarrow> u8 list" where
  "iso_time t =
     appendnumber [] (19 + tm_year t div 100) @ appendnumber [] (tm_year t mod 100) @ str ''-'' @
     appendnumber [] (tm_mon t + 1) @ str ''-'' @ appendnumber [] (tm_mday t) @ str ''T'' @
     appendnumber [] (tm_hour t) @ str '':'' @ appendnumber [] (tm_min t) @ str '':'' @
     appendnumber [] (tm_sec t) @ str '' ''"

text \<open>
  The clock delivers \<open>rtc s\<close>.  \<open>None\<close> is a day of the week behind the end of the name table.
\<close>

definition parse_timeread :: "'a drive_scheme \<Rightarrow> 'a drive_scheme option" where
  "parse_timeread s =
     (let t = rtc s; c = cchar (command_buffer s) 3; hour = hour_1_12 (tm_hour t);
          dow = 4 * unat (tm_wday t); pm = (if tm_hour t \<ge> 12 then 1 else 0) in
      if rtc_state s \<noteq> RTC_OK then set_error ERROR_SYNTAX_UNABLE s
      else if c = asc CHR ''A'' then
        (if length downames < dow + 4 then None
         else Some (error_last 25 (error_puts
           [(4, asciitime_skel), (0, take 4 (drop dow downames)), (5, appendnumber [] (tm_mon t + 1)),
            (8, appendnumber [] (tm_mday t)), (11, appendnumber [] (tm_year t mod 100)), (14, appendnumber [] hour),
            (17, appendnumber [] (tm_min t)), (20, appendnumber [] (tm_sec t)),
            (23, [if tm_hour t < 12 then asc CHR ''A'' else asc CHR ''P''])] s)))
      else if c = asc CHR ''B'' then
        Some (error_last 8 (error_data 0
          [tm_wday t, int2bcd (tm_year t mod 100), int2bcd (tm_mon t + 1), int2bcd (tm_mday t), int2bcd hour,
           int2bcd (tm_min t), int2bcd (tm_sec t), pm, 13] s))
      else if c = asc CHR ''D'' then
        Some (error_last 8 (error_data 0
          [tm_wday t, tm_year t, tm_mon t + 1, tm_mday t, hour, tm_min t, tm_sec t, pm, 13] s))
      else if c = asc CHR ''I'' then
        (if length downames < dow + 3 then None
         else Some (error_last 23 (error_puts
           [(0, iso_time t), (20, take 3 (drop dow downames)), (23, [13])] s)))
      else set_error ERROR_SYNTAX_UNKNOWN s)"

text \<open>The day is a byte: the year is added to it modulo 256.\<close>

definition day_of_week :: "u16 \<Rightarrow> u8 \<Rightarrow> u8 \<Rightarrow> u8" where
  "day_of_week y m d =
     (let y = y + 1900;
          (d, y) = (if m < 3 then (d + ucast y, y - 1) else (d + ucast (y - 2), y))
      in of_int ((23 * uint m div 9 + uint d + 4 + uint y div 4 - uint y div 100 + uint y div 400) mod 7))"

text \<open>
  The time of a write command before the checks, with the month from 1 to 12; \<open>Inl\<close> is the error
  number.
\<close>

definition numbers6 :: "u8 list \<Rightarrow> nat \<Rightarrow> u16 \<times> u16 \<times> u16 \<times> u16 \<times> u16 \<times> u16" where
  "numbers6 m i =
     (let (a, i) = parse_number m i; (b, i) = parse_number m (Suc i); (c, i) = parse_number m (Suc i);
          (d, i) = parse_number m (Suc i); (e, i) = parse_number m (Suc i); (f, i) = parse_number m (Suc i)
      in (a, b, c, d, e, f))"

definition hour_24 :: "u8 \<Rightarrow> bool \<Rightarrow> u8" where
  "hour_24 h pm = (let h = (if h = 12 then 0 else h) in if pm then h + 12 else h)"

definition scan_time :: "u8 list \<Rightarrow> u8 \<Rightarrow> u8 + tm_t" where
  "scan_time m len =
     (let c = cchar m 3 in
      if c = asc CHR ''A'' then
        (if len < 27 then Inl ERROR_SYNTAX_UNABLE
         else (case find (\<lambda>i. take 2 (drop (4 * i) downames) = take 2 (drop 4 m)) [0..<7] of
                 None \<Rightarrow> Inl ERROR_SYNTAX_UNABLE
               | Some i \<Rightarrow>
                   (let (mo, d, y, h, mi, sc) = numbers6 m 9
                    in Inr \<lparr>tm_sec = ucast sc, tm_min = ucast mi,
                          tm_hour = (if cchar m 28 = asc CHR ''M'' then hour_24 (ucast h) (cchar m 27 = asc CHR ''P'') else ucast h),
                          tm_mday = ucast d, tm_mon = ucast mo, tm_year = ucast y, tm_wday = of_nat i\<rparr>)))
      else if c = asc CHR ''B'' then
        (if len < 12 then Inl ERROR_SYNTAX_UNABLE
         else Inr \<lparr>tm_sec = bcd2int (cchar m 10), tm_min = bcd2int (cchar m 9),
                tm_hour = hour_24 (bcd2int (cchar m 8)) (cchar m 11 \<noteq> 0), tm_mday = bcd2int (cchar m 7),
                tm_mon = bcd2int (cchar m 6), tm_year = bcd2int (cchar m 5), tm_wday = cchar m 4\<rparr>)
      else if c = asc CHR ''D'' then
        (if len < 12 then Inl ERROR_SYNTAX_UNABLE
         else Inr \<lparr>tm_sec = cchar m 10, tm_min = cchar m 9, tm_hour = hour_24 (cchar m 8) (cchar m 11 \<noteq> 0),
                tm_mday = cchar m 7, tm_mon = cchar m 6, tm_year = cchar m 5, tm_wday = cchar m 4\<rparr>)
      else if c = asc CHR ''I'' then
        (if len < 23 then Inl ERROR_SYNTAX_UNABLE
         else (let (y, mo, d, h, mi, sc) = numbers6 m 4; y = (ucast (y - 1900) :: u8)
               in Inr \<lparr>tm_sec = ucast sc, tm_min = ucast mi, tm_hour = ucast h, tm_mday = ucast d, tm_mon = ucast mo,
                     tm_year = y, tm_wday = day_of_week (ucast y) (ucast mo) (ucast d)\<rparr>))
      else Inl ERROR_SYNTAX_UNKNOWN)"

definition time_ok :: "tm_t \<Rightarrow> bool" where
  "time_ok t \<longleftrightarrow> \<not> (tm_mday t = 0 \<or> tm_mday t > 31 \<or> tm_mon t > 11 \<or> tm_wday t > 6 \<or> tm_hour t > 23 \<or>
     tm_min t > 59 \<or> tm_sec t > 59)"

definition parse_timewrite :: "'a drive_scheme \<Rightarrow> 'a drive_scheme option" where
  "parse_timewrite s =
     (case scan_time (command_buffer s) (command_length s) of
        Inl e \<Rightarrow> set_error e s
      | Inr t \<Rightarrow>
          (let t = t\<lparr>tm_mon := tm_mon t - 1\<rparr>;
               t = (if tm_year t < 80 then t\<lparr>tm_year := tm_year t + 100\<rparr> else t) in
           if \<not> time_ok t then set_error ERROR_SYNTAX_UNABLE s
           else Some (s\<lparr>rtc := t, rtc_state := RTC_OK\<rparr>)))"

definition parse_time_command :: "'a drive_scheme \<Rightarrow> 'a drive_scheme option" where
  "parse_time_command s =
     (let c = cchar (command_buffer s) 2 in
      if rtc_state s = RTC_NOT_FOUND then set_error ERROR_SYNTAX_UNKNOWN s
      else if c = asc CHR ''R'' then parse_timeread s
      else if c = asc CHR ''W'' then parse_timewrite s
      else set_error ERROR_SYNTAX_UNKNOWN s)"

section \<open>User and extended commands\<close>

definition user_soft_reset :: "'a drive_scheme \<Rightarrow> 'a drive_scheme option" where
  "user_soft_reset s =
     (let c = cchar (command_buffer s) 2 in
      if command_length s = 2 then set_error ERROR_DOSVERSION s
      else if c = asc CHR ''+'' then Some (s\<lparr>flags_rest := flags_rest s AND NOT VC20MODE\<rparr>)
      else if c = asc CHR ''-'' then Some (s\<lparr>flags_rest := flags_rest s OR VC20MODE\<rparr>)
      else set_error ERROR_DOSVERSION s)"

text \<open>The case labels are compared with the low nibble of the command, as in the code.\<close>

definition parse_user :: "'a drive_scheme extern \<Rightarrow> 'a drive_scheme \<Rightarrow> 'a drive_scheme option" where
  "parse_user ex s =
     (let m = command_buffer s; c = cchar m 1 AND 15 in
      if cchar m 1 = 202 then Some (s\<lparr>was_reset := True\<rparr>)
      else if c = 0 then
        (if cchar m 2 AND 0x1f = 0x1e \<and> 4 \<le> cchar m 3 \<and> cchar m 3 \<le> 30
         then Some (s\<lparr>device_address := cchar m 3\<rparr>)
         else set_error ERROR_SYNTAX_UNKNOWN s)
      else if c = 1 then parse_block (ex_fat ex) (s\<lparr>command_buffer := m[0 := asc CHR ''-'', 1 := asc CHR ''R'']\<rparr>)
      else if c = 2 then parse_block (ex_fat ex) (s\<lparr>command_buffer := m[0 := asc CHR ''-'', 1 := asc CHR ''W'']\<rparr>)
      else if c = asc CHR ''9'' then user_soft_reset s
      else if c = 10 then do {
        (_, s) \<leftarrow> free_multiple_buffers run_cleanup FMB_USER s;
        set_error ERROR_DOSVERSION s }
      else run_loader ex (0x500 + 3 * (ucast (cchar m 1) - ucast (asc CHR ''3''))) s)"

definition status_message :: "'a drive_scheme \<Rightarrow> 'a drive_scheme option" where
  "status_message s = set_error_ts ERROR_STATUS (device_address s) 0 s"

definition set_extension_mode :: "'a drive_scheme \<Rightarrow> 'a drive_scheme option" where
  "set_extension_mode s =
     (let m = command_buffer s; num = (ucast (fst (parse_number m 2)) :: u8) in do {
        s \<leftarrow> (if cchar m 2 = asc CHR ''+'' then Some (s\<lparr>extension_hiding := True\<rparr>)
              else if cchar m 2 = asc CHR ''-'' then Some (s\<lparr>extension_hiding := False\<rparr>)
              else if num > 4 then set_error ERROR_SYNTAX_UNKNOWN s
              else Some (s\<lparr>file_extension_mode := num, extension_hiding := (num \<ge> 3 \<or> extension_hiding s)\<rparr>));
        status_message s })"

definition set_menu_system :: "'a drive_scheme \<Rightarrow> 'a drive_scheme option" where
  "set_menu_system s =
     (let c = cchar (command_buffer s) 2 in
      if c \<noteq> asc CHR ''+'' \<and> c \<noteq> asc CHR ''-'' then set_error ERROR_SYNTAX_UNKNOWN s
      else do {
        s \<leftarrow> write_configuration (s\<lparr>menu_system_enabled := (if c = asc CHR ''+'' then 1 else 0)\<rparr>);
        Some (s\<lparr>was_reset := True\<rparr>) })"

definition set_rom_name :: "'a drive_scheme \<Rightarrow> 'a drive_scheme option" where
  "set_rom_name s =
     (if cchar (command_buffer s) 2 = asc CHR '':'' then
        (if unat (command_length s) > ROM_NAME_LENGTH + 3 then set_error ERROR_SYNTAX_TOOLONG s
         else Some (s\<lparr>rom_filename := put_at 0 (cstr_at (command_buffer s) 3 @ [0]) (rom_filename s)\<rparr>))
      else Some (s\<lparr>rom_filename := (rom_filename s)[0 := 0]\<rparr>))"

definition parse_xcommand :: "'a drive_scheme fileops \<Rightarrow> 'a drive_scheme \<Rightarrow> 'a drive_scheme option" where
  "parse_xcommand fat s =
     (let s = clean_cmdbuffer s; m = command_buffer s; c = cchar m 1 in
      if c = asc CHR ''E'' then set_extension_mode s
      else if c = asc CHR ''D'' then set_error ERROR_SYNTAX_UNKNOWN s
      else if c = asc CHR ''I'' then
        (let num = (ucast (fst (parse_number m 2)) :: u8)
         in if num \<le> 2 then Some (s\<lparr>image_as_dir := num\<rparr>) else set_error ERROR_SYNTAX_UNKNOWN s)
      else if c = asc CHR ''M'' then set_menu_system s
      else if c = asc CHR ''W'' then do { s \<leftarrow> write_configuration s; status_message s }
      else if c = asc CHR ''R'' then set_rom_name s
      else if c = asc CHR ''S'' then with_path fat 2 False (\<lambda>path name s. Some s) s
      else if c = asc CHR ''*'' then do {
        (b, s) \<leftarrow> parse_bool s;
        (if b \<noteq> 255 then status_message (s\<lparr>postmatch := (b \<noteq> 0)\<rparr>) else Some s) }
      else if c = asc CHR ''?'' then set_error ERROR_LONGVERSION s
      else if command_length s \<noteq> 1 then set_error ERROR_SYNTAX_UNKNOWN s
      else status_message s)"

section \<open>The command parser\<close>

definition parse_doscommand :: "'a drive_scheme extern \<Rightarrow> 'a drive_scheme \<Rightarrow> 'a drive_scheme option" where
  "parse_doscommand ex s = do {
     s \<leftarrow> set_error ERROR_OK s;
     (if unat (command_length s) = CONFIG_COMMAND_BUFFER_SIZE then set_error ERROR_SYNTAX_TOOLONG s
      else
        (let s = s\<lparr>original_length := command_length s\<rparr>;
             s = (if command_length s > 0 \<and> cchar (command_buffer s) (unat (command_length s) - 1) = 0x0d
                  then s\<lparr>command_length := command_length s - 1\<rparr> else s);
             m = command_buffer s; c = cchar m 0; fat = ex_fat ex in
         if command_length s = 0 then set_error ERROR_SYNTAX_UNABLE s
         else if c \<noteq> asc CHR ''X'' \<and> cchar m 1 = asc CHR ''D'' then parse_dircommand fat s
         else if c = asc CHR ''B'' then parse_block fat s
         else if c = asc CHR ''C'' then
           (if cchar m 1 = asc CHR ''P'' \<or> cchar m 1 = 0xd0 then parse_changepart s else parse_copy fat s)
         else if c = asc CHR ''D'' then parse_direct ex s
         else if c = asc CHR ''G'' then parse_getpartition ex s
         else if c = asc CHR ''I'' then parse_initialize s
         else if c = asc CHR ''M'' then parse_memory ex s
         else if c = asc CHR ''N'' then parse_new fat s
         else if c = asc CHR ''P'' then parse_position s
         else if c = asc CHR ''R'' then parse_rename fat s
         else if c = asc CHR ''S'' then
           (if command_length s = 3 \<and> cchar m 1 = asc CHR ''-'' then set_error ERROR_SYNTAX_UNABLE s
            else parse_scratch fat s)
         else if c = asc CHR ''T'' then parse_time_command s
         else if c = asc CHR ''U'' then parse_user ex s
         else if c = asc CHR ''X'' then parse_xcommand fat s
         else set_error ERROR_SYNTAX_UNKNOWN s)) }"

end
