(* ===== verification/Ieee.thy ===== *)
theory Ieee
  imports Doscmd_System
begin

text \<open>
  The IEEE-488 bus interface, \<^verbatim>\<open>src/src/ieee.c\<close>, above the handshake on the bus lines.  The
  controller's side of the bus is a sequence of events: a command byte sent while ATN is
  active, a data byte for the listeners with the EOI line, a listener taking the byte that
  the device offers, and the interface clear line.  A command byte or interface clear aborts
  a loop that waits for something else.  The bytes that the device sends are collected with
  their EOI flags.  Switching the bus drivers, debug output and the display are left out.
\<close>

section \<open>State and events\<close>

datatype bus_event = Ev_cmd u8 | Ev_data u8 bool | Ev_take | Ev_ifc

record bus = drive +
  ieee488_ListenActive :: u8
  ieee488_TalkingDevice :: u8
  command_received :: bool
  open_active :: bool
  open_sa :: u8

definition IEEE_LISTEN :: u8 where [simp]: "IEEE_LISTEN = 0x20"
definition IEEE_UNLISTEN :: u8 where [simp]: "IEEE_UNLISTEN = 0x3f"
definition IEEE_TALK :: u8 where [simp]: "IEEE_TALK = 0x40"
definition IEEE_UNTALK :: u8 where [simp]: "IEEE_UNTALK = 0x5f"
definition IEEE_SECONDARY :: u8 where [simp]: "IEEE_SECONDARY = 0x60"
definition IEEE_CLOSE :: u8 where [simp]: "IEEE_CLOSE = 0xe0"
definition IEEE_OPEN :: u8 where [simp]: "IEEE_OPEN = 0xf0"

definition ieee488_Init :: "'a bus_scheme \<Rightarrow> 'a bus_scheme" where
  "ieee488_Init s = s\<lparr>ieee488_ListenActive := 0, ieee488_TalkingDevice := 0, open_sa := 0, command_received := False,
     open_active := False, device_address := device_hw_address s\<rparr>"

section \<open>Receiving\<close>

definition RxChar :: "u8 \<Rightarrow> 'a drive_scheme \<Rightarrow> 'a drive_scheme" where
  "RxChar c s =
     (if unat (command_length s) < CONFIG_COMMAND_BUFFER_SIZE
      then s\<lparr>command_buffer := (command_buffer s)[unat (command_length s) := c], command_length := command_length s + 1\<rparr>
      else s)"

fun is_data :: "bus_event \<Rightarrow> bool" where
  "is_data (Ev_data _ _) = True"
| "is_data _ = False"

definition ieee488_IgnoreBytes :: "bus_event list \<Rightarrow> bus_event list" where
  "ieee488_IgnoreBytes evs = dropWhile is_data evs"

text \<open>Storing a received byte in a buffer.\<close>

definition put_byte :: "u8 \<Rightarrow> nat \<Rightarrow> 'a fw_scheme \<Rightarrow> 'a fw_scheme option" where
  "put_byte c i s =
     (if length (b_data (buf i s)) \<le> unat (b_position (buf i s)) then None
      else
        (let s = upd_buf i (\<lambda>b. b\<lparr>b_data := (b_data b)[unat (b_position b) := c]\<rparr>) s;
             s = mark_buffer_dirty i s;
             s = upd_buf i (\<lambda>b. b\<lparr>b_lastused := (if b_lastused b < b_position b then b_position b else b_lastused b)\<rparr>) s;
             s = upd_buf i (\<lambda>b. b\<lparr>b_position := b_position b + 1\<rparr>) s
         in Some (if b_position (buf i s) = 0 then upd_buf i (\<lambda>b. b\<lparr>b_mustflush := True\<rparr>) s else s)))"

text \<open>
  Writing out a full buffer: the buffer that takes the next byte, which is another one for
  large buffers, or \<open>None\<close> when the callback fails.  A buffer that has vanished is a null
  pointer.
\<close>

definition flush_full :: "'a drive_scheme fileops \<Rightarrow> u8 \<Rightarrow> nat \<Rightarrow> 'a drive_scheme \<Rightarrow> (nat option \<times> 'a drive_scheme) option" where
  "flush_full fat sa i s =
     (if b_mustflush (buf i s) then do {
        (r, s) \<leftarrow> run_refill fat (b_refill (buf i s)) i s;
        (if r \<noteq> 0 then Some (None, s) else do { j \<leftarrow> find_buffer sa s; Some (Some j, s) }) }
      else Some (Some i, s))"

text \<open>Relative files are written out at the end of each record; the flag is an error.\<close>

definition sync_record :: "'a drive_scheme fileops \<Rightarrow> nat \<Rightarrow> bool \<Rightarrow> 'a drive_scheme \<Rightarrow> (bool \<times> 'a drive_scheme) option" where
  "sync_record fat i eoi s =
     (if b_recordlen (buf i s) \<noteq> 0 \<and> eoi then do {
        (r, s) \<leftarrow> run_refill fat (b_refill (buf i s)) i s;
        Some (r \<noteq> 0, s) }
      else Some (False, s))"

text \<open>The receive loop for a data channel: the events that are left and the state.\<close>

fun listen_data ::
  "'a drive_scheme fileops \<Rightarrow> u8 \<Rightarrow> nat \<Rightarrow> bus_event list \<Rightarrow> 'a drive_scheme \<Rightarrow> (bus_event list \<times> 'a drive_scheme) option" where
  "listen_data fat sa i (Ev_data c eoi # evs) s = do {
     (bp, s) \<leftarrow> flush_full fat sa i s;
     (case bp of
        None \<Rightarrow> Some (ieee488_IgnoreBytes evs, s)
      | Some i \<Rightarrow> do {
          s \<leftarrow> put_byte c i s;
          (err, s) \<leftarrow> sync_record fat i eoi s;
          (if err then Some (ieee488_IgnoreBytes evs, s) else listen_data fat sa i evs s) }) }"
| "listen_data fat sa i evs s = Some (evs, s)"

text \<open>The receive loop for file names and commands.\<close>

fun listen_text :: "bus_event list \<Rightarrow> 'a drive_scheme \<Rightarrow> bus_event list \<times> 'a drive_scheme" where
  "listen_text (Ev_data c eoi # evs) s = listen_text evs (RxChar c s)"
| "listen_text evs s = (evs, s)"

definition ieee488_ListenLoop ::
  "'a bus_scheme fileops \<Rightarrow> bool \<Rightarrow> u8 \<Rightarrow> bus_event list \<Rightarrow> 'a bus_scheme \<Rightarrow> (bus_event list \<times> 'a bus_scheme) option" where
  "ieee488_ListenLoop fat opening sa evs s =
     (let bp = find_buffer sa s in
      if (case bp of None \<Rightarrow> True | Some i \<Rightarrow> \<not> b_write (buf i s)) \<and> \<not> opening
      then Some (ieee488_IgnoreBytes evs, s)
      else
        (let s = (if sa = 15 then s\<lparr>command_received := True\<rparr> else s) in
         if opening \<or> command_received s then Some (listen_text evs s)
         else do { i \<leftarrow> bp; listen_data fat sa i evs s }))"

section \<open>Sending\<close>

text \<open>
  The byte that is offered next, with the EOI line; \<open>None\<close> is a position behind the end of the
  data area.
\<close>

definition offered :: "buffer_t \<Rightarrow> (u8 \<times> bool) option" where
  "offered b =
     (if unat (b_position b) < length (b_data b)
      then Some (b_data b ! unat (b_position b), b_position b = b_lastused b \<and> b_sendeoi b) else None)"

text \<open>
  The send loop from a buffer that is open for reading: the bytes sent, the events left and
  the state.  The loop ends when the last byte has gone out with EOI, except on the command
  channel, relative files and direct access buffers, which start over.
\<close>

fun talk_data ::
  "'a drive_scheme fileops \<Rightarrow> u8 \<Rightarrow> nat \<Rightarrow> bus_event list \<Rightarrow> 'a drive_scheme \<Rightarrow>
   ((u8 \<times> bool) list \<times> bus_event list \<times> 'a drive_scheme) option" where
  "talk_data fat sa i (Ev_take # evs) s = do {
     x \<leftarrow> offered (buf i s);
     let more = (b_position (buf i s) < b_lastused (buf i s));
     let s = upd_buf i (\<lambda>b. b\<lparr>b_position := b_position b + 1\<rparr>) s;
     (out, evs, s) \<leftarrow>
       (if more then talk_data fat sa i evs s
        else if b_sendeoi (buf i s) \<and> sa \<noteq> 15 \<and> b_recordlen (buf i s) = 0 \<and> b_refill (buf i s) \<noteq> Refill_directbuffer
        then Some ([], evs, upd_buf i (\<lambda>b. b\<lparr>b_read := False\<rparr>) s)
        else do {
          (r, s) \<leftarrow> run_refill fat (b_refill (buf i s)) i s;
          (if r \<noteq> 0 then Some ([], evs, s)
           else do {
             j \<leftarrow> find_buffer sa s;
             (if b_read (buf j s) then talk_data fat sa j evs s else Some ([], evs, s)) }) });
     Some (x # out, evs, s) }"
| "talk_data fat sa i evs s = Some ([], evs, s)"

definition ieee488_TalkLoop ::
  "'a drive_scheme fileops \<Rightarrow> u8 \<Rightarrow> bus_event list \<Rightarrow> 'a drive_scheme \<Rightarrow>
   ((u8 \<times> bool) list \<times> bus_event list \<times> 'a drive_scheme) option" where
  "ieee488_TalkLoop fat sa evs s =
     (case find_buffer sa s of
        None \<Rightarrow> Some ([], evs, s)
      | Some i \<Rightarrow> if b_read (buf i s) then talk_data fat sa i evs s else Some ([], evs, s))"

section \<open>Bus commands\<close>

definition ieee488_Unlisten :: "'a bus_scheme extern \<Rightarrow> 'a bus_scheme \<Rightarrow> 'a bus_scheme option" where
  "ieee488_Unlisten ex s = do {
     s \<leftarrow> (if command_received s then parse_doscommand ex s
           else if open_active s then file_open (ex_fat ex) (open_sa s) (s\<lparr>datacrc := 0xffff\<rparr>)
           else Some s);
     Some (s\<lparr>ieee488_ListenActive := 0, command_received := False, open_active := False, command_length := 0\<rparr>) }"

definition ieee488_Untalk :: "'a bus_scheme \<Rightarrow> 'a bus_scheme" where
  "ieee488_Untalk s = s\<lparr>ieee488_TalkingDevice := 0\<rparr>"

definition ieee488_ProcessIFC :: "'a bus_scheme \<Rightarrow> 'a bus_scheme option" where
  "ieee488_ProcessIFC s = do {
     (_, s) \<leftarrow> free_multiple_buffers run_cleanup FMB_USER_CLEAN s;
     s \<leftarrow> read_configuration (ieee488_Init s);
     set_error ERROR_DOSVERSION s }"

definition close_channel :: "u8 \<Rightarrow> 'a bus_scheme \<Rightarrow> 'a bus_scheme option" where
  "close_channel sa s =
     (if sa = 15 then do {
        (_, s) \<leftarrow> free_multiple_buffers run_cleanup FMB_USER_CLEAN s;
        Some (s\<lparr>ieee488_TalkingDevice := 0\<rparr>) }
      else (case find_buffer sa s of
              None \<Rightarrow> Some s
            | Some i \<Rightarrow> cleanup_and_free_buffer run_cleanup i s))"

text \<open>One command byte; the loops it starts consume events.\<close>

definition ieee488_command ::
  "'a bus_scheme extern \<Rightarrow> u8 \<Rightarrow> bus_event list \<Rightarrow> 'a bus_scheme \<Rightarrow>
   ((u8 \<times> bool) list \<times> bus_event list \<times> 'a bus_scheme) option" where
  "ieee488_command ex cmd evs s =
     (let cmd3 = cmd AND 0xe0; cmd4 = cmd AND 0xf0; Device = cmd AND 0x1f; sa = cmd AND 0x0f in
      if cmd = IEEE_UNLISTEN then do { s \<leftarrow> ieee488_Unlisten ex s; Some ([], evs, s) }
      else if cmd = IEEE_UNTALK then Some ([], evs, ieee488_Untalk s)
      else if cmd3 = IEEE_LISTEN then
        Some ([], evs, if Device = device_address s
                       then s\<lparr>ieee488_ListenActive := Device, ieee488_TalkingDevice := 0\<rparr> else s)
      else if cmd3 = IEEE_TALK then
        Some ([], evs, if Device = device_address s
                       then s\<lparr>ieee488_TalkingDevice := Device, ieee488_ListenActive := 0\<rparr> else s)
      else if cmd4 = IEEE_SECONDARY then
        (if ieee488_ListenActive s \<noteq> 0 then do {
           (evs, s) \<leftarrow> ieee488_ListenLoop (ex_fat ex) False sa evs s;
           Some ([], evs, s) }
         else if ieee488_TalkingDevice s \<noteq> 0 then ieee488_TalkLoop (ex_fat ex) sa evs s
         else Some ([], evs, s))
      else if cmd4 = IEEE_CLOSE then
        (if ieee488_ListenActive s \<noteq> 0 then do { s \<leftarrow> close_channel sa s; Some ([], evs, s) }
         else Some ([], evs, s))
      else if cmd4 = IEEE_OPEN then
        (if ieee488_ListenActive s \<noteq> 0 then do {
           (evs, s) \<leftarrow> ieee488_ListenLoop (ex_fat ex) True sa evs (s\<lparr>open_active := True, open_sa := sa\<rparr>);
           Some ([], evs, s) }
         else Some ([], evs, s))
      else Some ([], evs, s))"

text \<open>
  The device on a sequence of events: the bytes it sends and the final state.  Data that
  nobody listens to and handshakes nobody answers have no effect.
\<close>

partial_function (option) handle_ieee488 ::
  "'a bus_scheme extern \<Rightarrow> bus_event list \<Rightarrow> 'a bus_scheme \<Rightarrow> ((u8 \<times> bool) list \<times> 'a bus_scheme) option" where
  "handle_ieee488 ex evs s =
     (case evs of
        [] \<Rightarrow> Some ([], s)
      | Ev_cmd cmd # evs \<Rightarrow> do {
          (out, evs, s) \<leftarrow> ieee488_command ex cmd evs s;
          (out', s) \<leftarrow> handle_ieee488 ex evs s;
          Some (out @ out', s) }
      | Ev_ifc # evs \<Rightarrow> do { s \<leftarrow> ieee488_ProcessIFC s; handle_ieee488 ex evs s }
      | _ # evs \<Rightarrow> handle_ieee488 ex evs s)"

end
