(* ===== verification/Eefs_Frame.thy ===== *)
theory Eefs_Frame
  imports Eefs_Ops Eepromfs_Store
begin

text \<open>
  The EEPROM file system as a part of the firmware: its functions change only their own five
  variables, and its invariant depends on nothing else.  This lets the results on the file
  system be used for buffers and channels.
\<close>

section \<open>Frames\<close>

text \<open>
  Two states that agree on everything outside the file system agree on \<open>eefs_state.more\<close>: one
  is the other with the five variables replaced.
\<close>

lemma eefs_more_eq:
  fixes s s' :: "'a eefs_state_scheme"
  assumes "eefs_state.more s' = eefs_state.more s"
  shows "s' = s\<lparr>ops_scratch := ops_scratch s', eeprom := eeprom s', used_sectors := used_sectors s',
     used_entries := used_entries s', free_sectors := free_sectors s'\<rparr>"
  using assms by (cases s, cases s') simp

lemma fs_ok_cong:
  assumes "ops_scratch s' = ops_scratch s" "eeprom s' = eeprom s" "used_sectors s' = used_sectors s"
    "used_entries s' = used_entries s" "free_sectors s' = free_sectors s"
  shows "fs_ok s' fl = fs_ok s fl" "holds s' st = holds s st"
  using assms by (simp_all add: fs_ok_def holds_def)

section \<open>The functions of the file system\<close>

named_theorems frame_dests

lemma read_entry_frame [frame_dests]: "ee_read_entry i s = Some s' \<Longrightarrow> eefs_state.more s' = eefs_state.more s"
  by (auto simp: ee_read_entry_def bind_eq_Some_conv)

lemma write_entry_frame [frame_dests]: "ee_write_entry i s = Some s' \<Longrightarrow> eefs_state.more s' = eefs_state.more s"
  by (auto simp: ee_write_entry_def bind_eq_Some_conv)

lemma mark_sector_frame [frame_dests]: "mark_sector k u s = Some s' \<Longrightarrow> eefs_state.more s' = eefs_state.more s"
  by (auto simp: mark_sector_def bind_eq_Some_conv)

lemma next_free_entry_frame [frame_dests]: "next_free_entry k s = Some (e, s') \<Longrightarrow> eefs_state.more s' = eefs_state.more s"
  by (auto simp: next_free_entry_def bind_eq_Some_conv split: if_splits)

lemma find_entry_loop_frame: "find_entry_loop is name s = Some (e, s') \<Longrightarrow> eefs_state.more s' = eefs_state.more s"
proof (induction "is" name s rule: find_entry_loop.induct)
  case (2 idx "is" name s)
  then obtain y where y: "ee_read_entry (of_nat idx) s = Some y" by (auto simp: bind_eq_Some_conv)
  then show ?case using 2 read_entry_frame [OF y] by (auto split: if_splits)
qed simp

lemma find_entry_frame [frame_dests]: "find_entry name s = Some (e, s') \<Longrightarrow> eefs_state.more s' = eefs_state.more s"
  unfolding find_entry_def by (rule find_entry_loop_frame)

lemma readdir_frame [frame_dests]: "eepromfs_readdir dh s = Some (n, d, s') \<Longrightarrow> eefs_state.more s' = eefs_state.more s"
proof (induction dh s rule: eepromfs_readdir.induct)
  case (1 dh s)
  show ?case
  proof (cases "dh < EEPROMFS_ENTRIES")
    case True
    then obtain y where y: "ee_read_entry (of_nat dh) s = Some y"
      using 1(2) by (subst (asm) eepromfs_readdir.simps) (auto simp: bind_eq_Some_conv)
    show ?thesis
    proof (cases "ent_flags (ops_scratch y) AND EEFS_FLAG_DELETED \<noteq> 0 \<or> curentry_is_listentry y")
      case skip: True
      then have "eepromfs_readdir (Suc dh) y = Some (n, d, s')"
        using 1(2) True y by (subst (asm) eepromfs_readdir.simps) simp
      then show ?thesis using 1(1) [OF True y skip] read_entry_frame [OF y] by simp
    next
      case False
      then have "s' = y" using 1(2) True y by (subst (asm) eepromfs_readdir.simps) simp
      then show ?thesis using read_entry_frame [OF y] by simp
    qed
  next
    case False
    then show ?thesis using 1(2) by (subst (asm) eepromfs_readdir.simps) simp
  qed
qed

lemma last_entry_loop_frame [frame_dests]:
  "last_entry_loop n d s = Some (e, s') \<Longrightarrow> eefs_state.more s' = eefs_state.more s"
proof (induction n d s rule: last_entry_loop.induct)
  case (2 n d s)
  show ?case
  proof (cases "ent_next (ops_scratch s) = 0xff")
    case False
    then obtain y where y: "ee_read_entry (ent_next (ops_scratch s)) s = Some y"
      "last_entry_loop n (ent_next (ops_scratch s)) y = Some (e, s')"
      using 2(2) by (auto simp: bind_eq_Some_conv Let_def)
    then show ?thesis using 2(1) [OF False refl y] read_entry_frame [OF y(1)] by simp
  qed (use 2(2) in simp)
qed simp

lemma open_frame [frame_dests]:
  assumes "eepromfs_open name flags s = Some (err, fh, s')"
  shows "eefs_state.more s' = eefs_state.more s"
  using assms
  by (auto simp: eepromfs_open_def bind_eq_Some_conv Let_def split: if_splits dest!: find_entry_frame
      next_free_entry_frame write_entry_frame last_entry_loop_frame)

lemma alloc_sector_frame [frame_dests]:
  assumes "ee_alloc_sector fh s = Some (err, fh', s')"
  shows "eefs_state.more s' = eefs_state.more s"
  using assms
  unfolding ee_alloc_sector_def Let_def
  by (auto split: if_splits Option.bind_splits dest!: frame_dests)

lemma write_loop_frame:
  "eepromfs_write_loop n fh d len bw s = Some (err, fh', w, s') \<Longrightarrow> eefs_state.more s' = eefs_state.more s"
proof (induction n arbitrary: fh d len bw s)
  case (Suc n)
  then show ?case
    unfolding eepromfs_write_loop.simps Let_def
    by (auto split: if_splits Option.bind_splits dest!: alloc_sector_frame Suc.IH)
qed simp

lemma write_frame [frame_dests]:
  "eepromfs_write fh d len s = Some (err, fh', w, s') \<Longrightarrow> eefs_state.more s' = eefs_state.more s"
  unfolding eepromfs_write_def by (auto split: if_splits simp del: eepromfs_write_loop.simps dest: write_loop_frame)

lemma next_sector_frame [frame_dests]:
  "ee_next_sector fh s = Some (fh', s') \<Longrightarrow> eefs_state.more s' = eefs_state.more s"
  unfolding ee_next_sector_def Let_def
  by (auto split: if_splits Option.bind_splits dest!: read_entry_frame)

lemma read_loop_frame:
  "eepromfs_read_loop n fh acc len s = Some (fh', bs, s') \<Longrightarrow> eefs_state.more s' = eefs_state.more s"
proof (induction n arbitrary: fh acc len s)
  case (Suc n)
  then show ?case
    unfolding eepromfs_read_loop.simps Let_def
    by (auto split: if_splits Option.bind_splits dest!: next_sector_frame Suc.IH)
qed simp

lemma read_frame [frame_dests]:
  "eepromfs_read fh len s = Some (err, fh', bs, s') \<Longrightarrow> eefs_state.more s' = eefs_state.more s"
  unfolding eepromfs_read_def Let_def
  by (auto split: if_splits Option.bind_splits simp del: eepromfs_read_loop.simps dest: read_loop_frame)

lemma close_frame [frame_dests]:
  "eepromfs_close fh s = Some (fh', s') \<Longrightarrow> eefs_state.more s' = eefs_state.more s"
  unfolding eepromfs_close_def by (auto split: if_splits Option.bind_splits dest!: frame_dests)

lemma delete_sectors_frame [frame_dests]:
  "delete_sectors is s = Some s' \<Longrightarrow> eefs_state.more s' = eefs_state.more s"
proof (induction "is" arbitrary: s)
  case (Cons i "is")
  then show ?case by (auto split: if_splits Option.bind_splits dest!: mark_sector_frame Cons.IH)
qed simp

lemma delete_loop_frame [frame_dests]: "delete_loop n d s = Some s' \<Longrightarrow> eefs_state.more s' = eefs_state.more s"
proof (induction n arbitrary: d s)
  case (Suc n)
  then show ?case
    unfolding delete_loop.simps Let_def
    by (auto split: if_splits Option.bind_splits simp del: delete_sectors.simps upt_Suc
        dest!: delete_sectors_frame write_entry_frame read_entry_frame Suc.IH)
qed simp

lemma delete_frame [frame_dests]:
  "eepromfs_delete name s = Some (err, s') \<Longrightarrow> eefs_state.more s' = eefs_state.more s"
  unfolding eepromfs_delete_def
  by (auto split: if_splits Option.bind_splits simp del: delete_loop.simps dest!: find_entry_frame delete_loop_frame)

lemma rename_frame [frame_dests]:
  "eepromfs_rename old new s = Some (err, s') \<Longrightarrow> eefs_state.more s' = eefs_state.more s"
  unfolding eepromfs_rename_def
  by (auto split: if_splits Option.bind_splits dest!: find_entry_frame write_entry_frame)

end
