(* ===== verification/Channel.thy ===== *)
theory Channel
  imports Ieee Eefs_Frame Buffers_Props
begin

text \<open>
  Channels as the bus loops see them: what a step on one channel leaves alone, and the
  contract of a buffer that delivers a sequence of bytes.  The send loop is shown to move the
  bytes of any such source to the bus.
\<close>

section \<open>What the callbacks keep\<close>

definition kept :: "'a fw_scheme \<Rightarrow> 'a fw_scheme \<Rightarrow> bool" where
  "kept s s' \<longleftrightarrow> fw.more s' = fw.more s \<and> partitions s' = partitions s \<and> current_part s' = current_part s \<and>
     max_part s' = max_part s \<and> eefs_partition s' = eefs_partition s \<and> postmatch s' = postmatch s"

lemma kept_refl [simp]: "kept s s"
  by (simp add: kept_def)

lemma kept_trans: "kept s s' \<Longrightarrow> kept s' s'' \<Longrightarrow> kept s s''"
  by (simp add: kept_def)

lemma kept_upd_buf [simp]: "kept s (upd_buf i f s') = kept s s'"
  by (simp add: kept_def upd_buf_def)

lemma kept_eefs:
  fixes s s' :: "'a fw_scheme"
  assumes "eefs_state.more s' = eefs_state.more s"
  shows "kept s s'" "buffers s' = buffers s" "active_buffers s' = active_buffers s" "current_error s' = current_error s"
  by (subst eefs_more_eq [OF assms], simp add: kept_def)+

lemma kept_drive:
  fixes s s' :: "'a drive_scheme"
  assumes "fw.more s' = fw.more s"
  shows "command_buffer s' = command_buffer s" "command_length s' = command_length s" "matchdh s' = matchdh s"
    "previous_file_dirent s' = previous_file_dirent s" "previous_file_path s' = previous_file_path s"
    "device_address s' = device_address s" "drive.more s' = drive.more s"
  using assms by (cases s, cases s', simp)+

text \<open>The buffers in use and their secondary addresses.\<close>

definition same_owners :: "'a fw_scheme \<Rightarrow> 'a fw_scheme \<Rightarrow> bool" where
  "same_owners s s' \<longleftrightarrow> length (buffers s') = length (buffers s) \<and>
     (\<forall>j. b_allocated (buf j s') = b_allocated (buf j s) \<and> b_secondary (buf j s') = b_secondary (buf j s))"

lemma find_buffer_owners: "same_owners s s' \<Longrightarrow> find_buffer sa s' = find_buffer sa s"
  by (simp add: same_owners_def find_buffer_def first_buffer_def)

text \<open>A step that changes the contents of one buffer only, apart from the file system.\<close>

definition in_buf :: "nat \<Rightarrow> 'a fw_scheme \<Rightarrow> 'a fw_scheme \<Rightarrow> bool" where
  "in_buf i s s' \<longleftrightarrow> kept s s' \<and> same_owners s s' \<and> (\<forall>j. j \<noteq> i \<longrightarrow> buf j s' = buf j s)"

lemma in_buf_refl [simp]: "in_buf i s s"
  by (simp add: in_buf_def same_owners_def)

lemma in_buf_trans: "in_buf i s s' \<Longrightarrow> in_buf i s' s'' \<Longrightarrow> in_buf i s s''"
  unfolding in_buf_def same_owners_def by (auto intro: kept_trans)

lemma in_buf_upd:
  assumes "in_buf i s s'" "i < length (buffers s)" "\<And>b. b_allocated (f b) = b_allocated b" "\<And>b. b_secondary (f b) = b_secondary b"
  shows "in_buf i s (upd_buf i f s')"
proof -
  have l: "i < length (buffers s')" using assms(1,2) by (simp add: in_buf_def same_owners_def)
  have "b_allocated (buf j (upd_buf i f s')) = b_allocated (buf j s') \<and>
      b_secondary (buf j (upd_buf i f s')) = b_secondary (buf j s')" for j
    using l assms(3,4) by (cases "j = i") simp_all
  then show ?thesis using assms(1) by (simp add: in_buf_def same_owners_def)
qed

lemma in_buf_eefs: "eefs_state.more s' = eefs_state.more s \<Longrightarrow> in_buf i s s'"
  using kept_eefs [of s' s] by (simp add: in_buf_def same_owners_def)

section \<open>Sources of bytes\<close>

text \<open>The bytes on the bus: EOI with the last one only.\<close>

definition with_eoi :: "u8 list \<Rightarrow> (u8 \<times> bool) list" where
  "with_eoi D = map (\<lambda>x. (x, False)) (butlast D) @ [(last D, True)]"

lemma with_eoi_Cons: "D \<noteq> [] \<Longrightarrow> with_eoi (x # D) = (x, False) # with_eoi D"
  by (simp add: with_eoi_def)

text \<open>
  \<open>chan i D s\<close>: buffer \<open>i\<close> will deliver the bytes \<open>D\<close>.  \<open>Q\<close> is what the source keeps of the rest of the
  state.
\<close>

locale byte_source =
  fixes fat :: "'a drive_scheme fileops"
    and chan :: "nat \<Rightarrow> u8 list \<Rightarrow> 'a drive_scheme \<Rightarrow> bool"
    and Q :: "'a drive_scheme \<Rightarrow> bool"
  assumes not_empty: "chan i D s \<Longrightarrow> D \<noteq> []"
    and buffer: "chan i D s \<Longrightarrow> i < 32 \<and> length (buffers s) = 33 \<and> length (b_data (buf i s)) = 256 \<and> b_read (buf i s) \<and>
      b_recordlen (buf i s) = 0 \<and> b_refill (buf i s) \<noteq> Refill_directbuffer"
    and offers: "chan i (x # D) s \<Longrightarrow> offered (buf i s) = Some (x, D = [])"
    and ends: "chan i [x] s \<Longrightarrow> \<not> b_position (buf i s) < b_lastused (buf i s) \<and> b_sendeoi (buf i s)"
    and steps: "chan i (x # D) s \<Longrightarrow> b_position (buf i s) < b_lastused (buf i s) \<Longrightarrow>
      chan i D (upd_buf i (\<lambda>b. b\<lparr>b_position := b_position b + 1\<rparr>) s)"
    and refills: "chan i (x # D) s \<Longrightarrow> \<not> b_position (buf i s) < b_lastused (buf i s) \<Longrightarrow> D \<noteq> [] \<Longrightarrow>
      \<not> b_sendeoi (buf i s) \<and>
      (\<exists>s'. run_refill fat (b_refill (buf i s)) i (upd_buf i (\<lambda>b. b\<lparr>b_position := b_position b + 1\<rparr>) s) = Some (0, s') \<and>
         chan i D s' \<and> in_buf i s s' \<and> b_cleanup (buf i s') = b_cleanup (buf i s))"
    and keeps: "chan i D s \<Longrightarrow> Q s"
    and keeps_upd: "Q (upd_buf i f s) = Q s"
begin

text \<open>The send loop delivers all bytes, EOI with the last one only.\<close>

lemma talk_source:
  assumes "chan i D s" "find_buffer sa s = Some i" "sa \<noteq> 15"
  shows "\<exists>s'. talk_data fat sa i (replicate (length D) Ev_take @ evs) s = Some (with_eoi D, evs, s') \<and>
    Q s' \<and> in_buf i s s' \<and> b_cleanup (buf i s') = b_cleanup (buf i s) \<and> length (b_data (buf i s')) = 256"
  using assms(1,2)
proof (induction D arbitrary: s)
  case Nil
  then show ?case using not_empty by blast
next
  case (Cons x D)
  let ?b = "buf i s"
  let ?s = "upd_buf i (\<lambda>b. b\<lparr>b_position := b_position b + 1\<rparr>) s"
  note B = buffer [OF Cons.prems(1)]
  have i: "i < length (buffers s)" using B by simp
  have in1: "in_buf i s ?s" using i by (intro in_buf_upd) simp_all
  have b1: "buf i ?s = ?b\<lparr>b_position := b_position ?b + 1\<rparr>" using i by simp
  show ?case
  proof (cases "D = []")
    case True
    let ?s' = "upd_buf i (\<lambda>b. b\<lparr>b_read := False\<rparr>) ?s"
    note E = ends [OF Cons.prems(1) [unfolded True]]
    have "in_buf i s ?s'" using in1 i by (intro in_buf_upd) simp_all
    then show ?thesis
      using E B i assms(3) offers [OF Cons.prems(1)] True keeps [OF Cons.prems(1)]
      by (intro exI [of _ ?s']) (simp add: Let_def with_eoi_def keeps_upd)
  next
    case False
    have "\<exists>s1. chan i D s1 \<and> in_buf i s s1 \<and> b_cleanup (buf i s1) = b_cleanup ?b \<and>
        talk_data fat sa i (Ev_take # replicate (length D) Ev_take @ evs) s =
          map_option (\<lambda>(out, evs, s). ((x, False) # out, evs, s)) (talk_data fat sa i (replicate (length D) Ev_take @ evs) s1)"
    proof (cases "b_position ?b < b_lastused ?b")
      case True
      then show ?thesis
        using steps [OF Cons.prems(1) True] in1 b1 offers [OF Cons.prems(1)] False
        by (intro exI [of _ ?s]) (auto simp: Let_def split: Option.bind_splits)
    next
      case last: False
      obtain s1 where S: "\<not> b_sendeoi ?b" "run_refill fat (b_refill ?b) i ?s = Some (0, s1)" "chan i D s1" "in_buf i s s1"
        "b_cleanup (buf i s1) = b_cleanup ?b"
        using refills [OF Cons.prems(1) last False] by blast
      have "find_buffer sa s1 = Some i" using find_buffer_owners [of s s1] S(4) Cons.prems(2) by (simp add: in_buf_def)
      then show ?thesis
        using S last b1 offers [OF Cons.prems(1)] False buffer [OF S(3)]
        by (intro exI [of _ s1]) (auto simp: Let_def split: Option.bind_splits)
    qed
    then obtain s1 where S1: "chan i D s1" "in_buf i s s1" "b_cleanup (buf i s1) = b_cleanup ?b"
      "talk_data fat sa i (Ev_take # replicate (length D) Ev_take @ evs) s =
        map_option (\<lambda>(out, evs, s). ((x, False) # out, evs, s)) (talk_data fat sa i (replicate (length D) Ev_take @ evs) s1)" by blast
    have f1: "find_buffer sa s1 = Some i" using find_buffer_owners [of s s1] S1(2) Cons.prems(2) by (simp add: in_buf_def)
    obtain s' where I: "talk_data fat sa i (replicate (length D) Ev_take @ evs) s1 = Some (with_eoi D, evs, s')" "Q s'" "in_buf i s1 s'"
      "b_cleanup (buf i s') = b_cleanup (buf i s1)" "length (b_data (buf i s')) = 256" using Cons.IH [OF S1(1) f1] by blast
    show ?thesis
      using S1(3,4) I in_buf_trans [OF S1(2) I(3)] False by (intro exI [of _ s']) (simp add: with_eoi_Cons)
  qed
qed

end

end
