(* ===== verification/Eefs_Chan.thy ===== *)
theory Eefs_Chan
  imports Channel Parser_Props
begin

text \<open>
  Channels on files of the EEPROM file system.  A read channel is described by the bytes it
  will still deliver, a write channel by the bytes it has received; the callbacks and the bus
  loops are shown to move bytes from the one and to the other.
\<close>

lemma eefs_upd_buf [simp]:
  "eeprom (upd_buf i f s) = eeprom s" "used_sectors (upd_buf i f s) = used_sectors s"
  "used_entries (upd_buf i f s) = used_entries s" "free_sectors (upd_buf i f s) = free_sectors s"
  "fs_ok (upd_buf i f s) fl = fs_ok s fl" "holds (upd_buf i f s) st = holds s st"
  by (simp_all add: upd_buf_def fs_ok_def holds_def)

section \<open>Reading\<close>

definition reading :: "nat \<Rightarrow> afile list \<Rightarrow> afile \<Rightarrow> u8 list \<Rightarrow> 'a fw_scheme \<Rightarrow> bool" where
  "reading i fl f D s \<longleftrightarrow> fs_ok s fl \<and> f \<in> set fl \<and> length (buffers s) = 33 \<and> i < 32 \<and>
     (let b = buf i s in length (b_data b) = 256 \<and> b_read b \<and> b_recordlen b = 0 \<and> b_refill b = Refill_eefs_read \<and>
        unat (b_position b) \<le> unat (b_lastused b) \<and>
        (\<exists>k. rh_ok (b_eefh b) f k \<and> (b_sendeoi b \<longleftrightarrow> k = unat (af_size f)) \<and>
           D = take (Suc (unat (b_lastused b)) - unat (b_position b)) (drop (unat (b_position b)) (b_data b)) @
               drop k (file_data (eeprom s) f)))"

lemma length_file_data:
  assumes "fs_ok s fl" "f \<in> set fl"
  shows "length (file_data (eeprom s) f) = unat (af_size f)"
  using fs_okD(4) [OF assms] by (simp add: file_data_def length_contents file_ok_def)

lemma drop_take_put_at:
  "i + length bs \<le> length xs \<Longrightarrow> n = length bs \<Longrightarrow> take n (drop i (put_at i bs xs)) = bs"
  by (simp add: put_at_def)

lemma refill_read_reading:
  assumes fs: "fs_ok s fl" "f \<in> set fl" and i: "length (buffers s) = 33" "i < 32"
    and b: "length (b_data (buf i s)) = 256" "b_read (buf i s)" "b_recordlen (buf i s) = 0" "b_refill (buf i s) = Refill_eefs_read"
    and rh: "rh_ok (b_eefh (buf i s)) f k" "k < unat (af_size f)"
  obtains s' where "eefs_refill_read i s = Some (0, s')" "reading i fl f (drop k (file_data (eeprom s) f)) s'"
    "eeprom s' = eeprom s" "in_buf i s s'" "current_error s' = current_error s"
    "b_cleanup (buf i s') = b_cleanup (buf i s)" "b_dirty (buf i s') = b_dirty (buf i s)" "b_position (buf i s') = 2"
proof -
  let ?N = "unat (af_size f)" and ?d = "file_data (eeprom s) f"
  define bs where "bs = take 254 (drop k ?d)"
  obtain fh s1 where R: "eepromfs_read (b_eefh (buf i s)) 254 s = Some (EEFS_ERROR_OK, fh, bs, s1)"
    "rh_ok fh f (min (k + 254) ?N)" "fs_ok s1 fl" "eeprom s1 = eeprom s"
    using eepromfs_read_ok [OF fs rh(1), of 254] by (auto simp: bs_def file_data_def)
  have more: "eefs_state.more s1 = eefs_state.more s" by (rule read_frame [OF R(1)])
  note K = kept_eefs [OF more]
  have len: "length bs = min 254 (?N - k)" "0 < length bs" "length bs \<le> 254"
    using length_file_data [OF fs] rh(2) by (simp_all add: bs_def min.commute)
  let ?l = "of_nat (length bs) + 1 :: u8"
  have l: "unat ?l = length bs + 1" using len(3) by (simp add: unat_word_ariths unat_of_nat_u8)
  have off: "(length bs < 254 \<or> fh_cur_offset fh = fh_size fh) \<longleftrightarrow> min (k + 254) ?N = ?N"
    using R(2) len(1) rh(2) by (auto simp: rh_ok_def word_unat_eq_iff)
  define s2 where "s2 = upd_buf i (\<lambda>b. b\<lparr>b_position := 2, b_lastused := ?l,
             b_sendeoi := (length bs < 254 \<or> fh_cur_offset fh = fh_size fh)\<rparr>)
             (upd_buf i (\<lambda>b. b\<lparr>b_eefh := fh, b_data := put_at 2 bs (b_data b)\<rparr>) s1)"
  have run: "eefs_refill_read i s = Some (0, s2)"
    using R(1) by (simp add: eefs_refill_read_def s2_def)
  have i1: "i < length (buffers s1)" using i K(2) by simp
  have b2: "buf i s2 = (buf i s)\<lparr>b_eefh := fh, b_data := put_at 2 bs (b_data (buf i s)), b_position := 2, b_lastused := ?l,
      b_sendeoi := (min (k + 254) ?N = ?N)\<rparr>"
    using i1 off K(2) by (simp add: s2_def)
  have tk: "take (Suc (unat ?l) - 2) (drop 2 (put_at 2 bs (b_data (buf i s)))) = bs"
    using len(3) b(1) l by (intro drop_take_put_at) simp_all
  have D: "drop k ?d = bs @ drop (min (k + 254) ?N) ?d"
  proof -
    have "drop (min (k + 254) ?N) ?d = drop 254 (drop k ?d)"
      using length_file_data [OF fs] by (simp add: min_def add.commute)
    then show ?thesis unfolding bs_def by (simp only: append_take_drop_id)
  qed
  have "reading i fl f (drop k ?d) s2"
    unfolding reading_def Let_def b2
    using fs(2) R(2,3,4) i i1 b len l tk D K(2)
    by (simp add: s2_def) (intro conjI exI [of _ "min (k + 254) ?N"]; simp)
  moreover have "in_buf i s s2"
    unfolding s2_def using i by (intro in_buf_upd in_buf_eefs more) simp_all
  ultimately show ?thesis using that run R(4) K(4) b2 by (simp add: s2_def)
qed

lemma readingD:
  assumes "reading i fl f D s"
  shows "fs_ok s fl" "f \<in> set fl" "length (buffers s) = 33" "i < 32" "length (b_data (buf i s)) = 256" "b_read (buf i s)"
    "b_recordlen (buf i s) = 0" "b_refill (buf i s) = Refill_eefs_read"
    "unat (b_position (buf i s)) \<le> unat (b_lastused (buf i s))"
  using assms by (simp_all add: reading_def Let_def)

lemma reading_next:
  assumes "reading i fl f D s"
  obtains x D' k where "D = x # D'" "offered (buf i s) = Some (x, b_position (buf i s) = b_lastused (buf i s) \<and> b_sendeoi (buf i s))"
    "rh_ok (b_eefh (buf i s)) f k" "b_sendeoi (buf i s) \<longleftrightarrow> k = unat (af_size f)"
    "D' = take (unat (b_lastused (buf i s)) - unat (b_position (buf i s))) (drop (Suc (unat (b_position (buf i s)))) (b_data (buf i s))) @
       drop k (file_data (eeprom s) f)"
proof -
  let ?b = "buf i s" and ?p = "unat (b_position (buf i s))" and ?l = "unat (b_lastused (buf i s))"
  note R = readingD [OF assms]
  obtain k where k: "rh_ok (b_eefh ?b) f k" "b_sendeoi ?b \<longleftrightarrow> k = unat (af_size f)"
    "D = take (Suc ?l - ?p) (drop ?p (b_data ?b)) @ drop k (file_data (eeprom s) f)"
    using assms unfolding reading_def Let_def by blast
  have p: "?p < length (b_data ?b)" using R(5) u8_lt_256 [of "b_position ?b"] by linarith
  have "D = (b_data ?b ! ?p) # take (?l - ?p) (drop (Suc ?p) (b_data ?b)) @ drop k (file_data (eeprom s) f)"
    using k(3) p R(9) by (simp add: Suc_diff_le flip: Cons_nth_drop_Suc)
  moreover have "offered ?b = Some (b_data ?b ! ?p, b_position ?b = b_lastused ?b \<and> b_sendeoi ?b)"
    using p by (simp add: offered_def)
  ultimately show ?thesis by (rule that [OF _ _ k(1,2) refl])
qed

lemma reading_ne: "reading i fl f D s \<Longrightarrow> D \<noteq> []"
  by (erule reading_next) simp

lemma line_rest:
  assumes "length (b_data b) = 256" "unat (b_position b) \<le> unat (b_lastused b)"
  shows "take (unat (b_lastused b) - unat (b_position b)) (drop (Suc (unat (b_position b))) (b_data b)) = [] \<longleftrightarrow>
    unat (b_position b) = unat (b_lastused b)"
proof -
  have "length (take (unat (b_lastused b) - unat (b_position b)) (drop (Suc (unat (b_position b))) (b_data b))) =
      unat (b_lastused b) - unat (b_position b)"
    unfolding length_take length_drop assms(1) using u8_lt_256 [of "b_lastused b"] by (intro min_absorb2) linarith
  then show ?thesis using assms(2) by (metis diff_is_0_eq le_antisym le_refl length_0_conv)
qed

text \<open>A read channel as a source of bytes.\<close>

interpretation eefs_read: byte_source fat "\<lambda>i D s. reading i fl f D s \<and> eeprom s = m" "\<lambda>s. fs_ok s fl \<and> eeprom s = m"
proof
  fix i D and s :: "'a drive_scheme"
  assume c: "reading i fl f D s \<and> eeprom s = m"
  show "D \<noteq> []" using c reading_ne by blast
  show "fs_ok s fl \<and> eeprom s = m" using c readingD(1) by blast
  show "i < 32 \<and> length (buffers s) = 33 \<and> length (b_data (buf i s)) = 256 \<and> b_read (buf i s) \<and>
      b_recordlen (buf i s) = 0 \<and> b_refill (buf i s) \<noteq> Refill_directbuffer"
    using c readingD [of i fl f D s] by simp
next
  fix i x D and s :: "'a drive_scheme"
  assume c: "reading i fl f (x # D) s \<and> eeprom s = m"
  note R = readingD [OF conjunct1 [OF c]]
  obtain k where E: "offered (buf i s) = Some (x, b_position (buf i s) = b_lastused (buf i s) \<and> b_sendeoi (buf i s))"
    "b_sendeoi (buf i s) \<longleftrightarrow> k = unat (af_size f)" "rh_ok (b_eefh (buf i s)) f k"
    "D = take (unat (b_lastused (buf i s)) - unat (b_position (buf i s))) (drop (Suc (unat (b_position (buf i s)))) (b_data (buf i s))) @
       drop k (file_data (eeprom s) f)"
    by (rule reading_next [OF conjunct1 [OF c]]) (simp add: that)
  have k: "k \<le> unat (af_size f)" using E(3) by (simp add: rh_ok_def)
  have len: "length (file_data (eeprom s) f) = unat (af_size f)" by (rule length_file_data [OF R(1,2)])
  have empty: "D = [] \<longleftrightarrow> b_position (buf i s) = b_lastused (buf i s) \<and> b_sendeoi (buf i s)"
    using E(2,4) k len R(9) line_rest [OF R(5,9)] by (auto simp: word_unat_eq_iff)
  show "offered (buf i s) = Some (x, D = [])" using E(1) empty by simp
  have i: "i < length (buffers s)" "i < 32" using R by simp_all
  let ?s = "upd_buf i (\<lambda>b. b\<lparr>b_position := b_position b + 1\<rparr>) s"
  have b1: "buf i ?s = (buf i s)\<lparr>b_position := b_position (buf i s) + 1\<rparr>" using i by simp
  {
    assume "b_position (buf i s) < b_lastused (buf i s)"
    then have lt: "unat (b_position (buf i s)) < unat (b_lastused (buf i s))" by (simp add: word_less_nat_alt)
    have p1: "unat (b_position (buf i s) + 1) = Suc (unat (b_position (buf i s)))"
      using lt u8_lt_256 [of "b_lastused (buf i s)"] by (intro unat_Suc_u8) linarith
    show "reading i fl f D ?s \<and> eeprom ?s = m"
      using c R E(2,3) lt p1 unfolding reading_def Let_def b1
      by simp (intro exI [of _ k], simp add: E(4) Suc_diff_Suc)
  }
  assume last: "\<not> b_position (buf i s) < b_lastused (buf i s)" and "D \<noteq> []"
  then have pl: "b_position (buf i s) = b_lastused (buf i s)" using R by (simp add: word_less_nat_alt word_unat_eq_iff)
  then have n: "\<not> b_sendeoi (buf i s)" using empty \<open>D \<noteq> []\<close> by simp
  then have kl: "k < unat (af_size f)" using E(2) k by simp
  obtain s' where S: "eefs_refill_read i ?s = Some (0, s')" "reading i fl f (drop k (file_data (eeprom ?s) f)) s'"
    "eeprom s' = eeprom ?s" "in_buf i ?s s'" "b_cleanup (buf i s') = b_cleanup (buf i ?s)"
  proof (rule refill_read_reading [of ?s fl f i k])
  qed (use R b1 E(3) kl that i in simp_all)
  have "in_buf i s ?s" using i by (intro in_buf_upd) simp_all
  from in_buf_trans [OF this S(4)] show "\<not> b_sendeoi (buf i s) \<and>
      (\<exists>s'. run_refill fat (b_refill (buf i s)) i ?s = Some (0, s') \<and>
         (reading i fl f D s' \<and> eeprom s' = m) \<and> in_buf i s s' \<and> b_cleanup (buf i s') = b_cleanup (buf i s))"
    using n S R(8) E(4) pl c b1 by (simp add: run_refill_def)
next
  fix i x and s :: "'a drive_scheme"
  assume c: "reading i fl f [x] s \<and> eeprom s = m"
  obtain k where "b_sendeoi (buf i s) \<longleftrightarrow> k = unat (af_size f)" "rh_ok (b_eefh (buf i s)) f k"
    "[] = take (unat (b_lastused (buf i s)) - unat (b_position (buf i s))) (drop (Suc (unat (b_position (buf i s)))) (b_data (buf i s))) @
       drop k (file_data (eeprom s) f)"
    by (rule reading_next [OF conjunct1 [OF c]]) (simp add: that)
  moreover note R = readingD [OF conjunct1 [OF c]] and l = length_file_data [OF R(1,2)]
  ultimately show "\<not> b_position (buf i s) < b_lastused (buf i s) \<and> b_sendeoi (buf i s)"
    using line_rest [OF R(5,9)] by (auto simp: rh_ok_def word_less_nat_alt)
qed simp

lemma talk_reading:
  assumes "reading i fl f D s" "find_buffer sa s = Some i" "sa \<noteq> 15"
  shows "\<exists>s'. talk_data fat sa i (replicate (length D) Ev_take @ evs) s = Some (with_eoi D, evs, s') \<and>
     (fs_ok s' fl \<and> eeprom s' = eeprom s) \<and> in_buf i s s' \<and> b_cleanup (buf i s') = b_cleanup (buf i s) \<and> length (b_data (buf i s')) = 256"
  using assms by (intro eefs_read.talk_source) simp_all

section \<open>Writing\<close>

text \<open>The received bytes that are still in the buffer.\<close>

definition pend :: "buffer_t \<Rightarrow> u8 list" where
  "pend b = (if b_mustflush b then drop 2 (b_data b) else take (unat (b_position b) - 2) (drop 2 (b_data b)))"

definition wbuf_ok :: "buffer_t \<Rightarrow> bool" where
  "wbuf_ok b \<longleftrightarrow> length (b_data b) = 256 \<and> b_write b \<and> b_allocated b \<and> b_recordlen b = 0 \<and>
     b_refill b = Refill_eefs_write \<and> b_cleanup b = Cleanup_eefs_write \<and>
     (if b_mustflush b then b_position b = 0 \<and> b_lastused b = 255 else 2 \<le> unat (b_position b))"

definition writing :: "nat \<Rightarrow> afile \<Rightarrow> afile list \<Rightarrow> u8 list \<Rightarrow> 'a fw_scheme \<Rightarrow> bool" where
  "writing i f rest W s \<longleftrightarrow> fs_ok s (f # rest) \<and> length (buffers s) = 33 \<and> i < 32 \<and> wbuf_ok (buf i s) \<and>
     (\<exists>c. wh_ok (b_eefh (buf i s)) f c \<and> W = contents (eeprom s) (af_secs f) c @ pend (buf i s))"

text \<open>Room for \<open>n\<close> bytes in a file beside the files \<open>rest\<close>, within one directory entry.\<close>

definition fits :: "nat \<Rightarrow> afile list \<Rightarrow> bool" where
  "fits n rest \<longleftrightarrow> n \<le> 768 \<and> n \<le> 64 * (52 - length (all_secs rest))"

definition same_file :: "afile \<Rightarrow> afile \<Rightarrow> bool" where
  "same_file f f' \<longleftrightarrow> af_name f' = af_name f \<and> hd (af_ents f') = hd (af_ents f)"

lemma write_fits:
  assumes "write_post s f rest c d len err fh k s' f'" "fits (c + len) rest"
  shows "err = EEFS_ERROR_OK \<and> k = len \<and> wh_ok fh f' (c + len)"
proof (rule ccontr)
  assume "\<not> ?thesis"
  then have k: "k < len" "c + k = 64 * length (af_secs f')"
    "length (all_secs (f' # rest)) = 52 \<or> nents (Suc (length (af_secs f'))) \<noteq> nents (length (af_secs f'))"
    using assms(1) unfolding write_post_def by auto
  have "length (af_secs f') < 12" using k assms(2) by (simp add: fits_def)
  then have "nents (Suc (length (af_secs f'))) = nents (length (af_secs f'))" by (simp add: nents_def)
  then have "length (af_secs f') = 52 - length (all_secs rest)" using k(3) by simp
  then show False using k assms(2) by (simp add: fits_def)
qed

lemma eepromfs_write_fits:
  assumes fs: "fs_ok s (f # rest)" "wh_ok fh f c" and d: "unat len \<le> length d" "fits (c + unat len) rest"
  obtains fh' s' f' where "eepromfs_write fh d len s = Some (EEFS_ERROR_OK, fh', len, s')"
    "fs_ok s' (f' # rest)" "wh_ok fh' f' (c + unat len)" "same_file f f'"
    "contents (eeprom s') (af_secs f') (c + unat len) = contents (eeprom s) (af_secs f) c @ take (unat len) d"
    "\<forall>j \<in> set (all_secs rest). sec (eeprom s') j = sec (eeprom s) j"
proof -
  have "fh_filemode fh = EEFS_MODE_WRITE" using fs(2) by (simp add: wh_ok_def wh_core_def)
  then have e: "eepromfs_write fh d len s = eepromfs_write_loop (unat len + 1) fh d len 0 s"
    using d(1) by (simp add: eepromfs_write_def)
  obtain err fh' k s' f' where W: "eepromfs_write_loop (unat len + 1) fh d len 0 s = Some (err, fh', 0 + of_nat k, s')"
    "write_post s f rest c d (unat len) err fh' k s' f'"
    using write_loop_ok [OF fs d(1), of "unat len + 1" 0] by auto
  note F = write_fits [OF W(2) d(2)]
  have P: "fs_ok s' (f' # rest)" "same_file f f'"
    "contents (eeprom s') (af_secs f') (c + unat len) = contents (eeprom s) (af_secs f) c @ take (unat len) d"
    "\<forall>j \<in> set (all_secs rest). sec (eeprom s') j = sec (eeprom s) j"
    using W(2) F unfolding write_post_def same_file_def by auto
  have "eepromfs_write fh d len s = Some (EEFS_ERROR_OK, fh', len, s')"
    unfolding e using W(1) F by simp
  then show ?thesis using that F P by blast
qed

lemma pend_length:
  assumes "wbuf_ok b" "b' = (if b_mustflush b then b else b\<lparr>b_lastused := b_position b - 1\<rparr>)"
  shows "unat (ucast (b_lastused b') - 1 :: u16) = length (pend b)"
    "take (length (pend b)) (drop 2 (b_data b)) = pend b" "length (pend b) \<le> 254"
proof -
  have l: "length (drop 2 (b_data b)) = 254" using assms(1) by (simp add: wbuf_ok_def)
  have p: "unat (b_position b) \<le> 255" using u8_lt_256 [of "b_position b"] by linarith
  have lp: "length (pend b) = (if b_mustflush b then 254 else unat (b_position b) - 2)"
    using l p by (simp add: pend_def)
  show "take (length (pend b)) (drop 2 (b_data b)) = pend b" using l lp by (simp add: pend_def)
  show "length (pend b) \<le> 254" unfolding lp if_split [of "\<lambda>x. x \<le> 254"] using p by linarith
  show "unat (ucast (b_lastused b') - 1 :: u16) = length (pend b)"
  proof (cases "b_mustflush b")
    case True
    then show ?thesis using assms lp by (simp add: wbuf_ok_def)
  next
    case False
    then have "2 \<le> unat (b_position b)" using assms(1) by (simp add: wbuf_ok_def)
    moreover from this have "unat (b_position b - 1) = unat (b_position b) - 1" by (intro unat_sub_u8 [THEN trans]) simp_all
    ultimately show ?thesis using False assms(2) lp by (simp add: unat_diff_u16)
  qed
qed

lemma upd_dirty:
  assumes "i < length (buffers s)"
  shows "buffers (mark_buffer_clean i s) = (buffers s)[i := (buf i s)\<lparr>b_dirty := False\<rparr>]"
    "buffers (mark_buffer_dirty i s) = (buffers s)[i := (buf i s)\<lparr>b_dirty := True\<rparr>]"
proof -
  have id: "(buffers s)[i := (buf i s)\<lparr>b_dirty := x\<rparr>] = buffers s" if "b_dirty (buf i s) = x" for x
  proof -
    have "(buf i s)\<lparr>b_dirty := x\<rparr> = buf i s" using that by auto
    then show ?thesis by (metis list_update_id)
  qed
  show "buffers (mark_buffer_clean i s) = (buffers s)[i := (buf i s)\<lparr>b_dirty := False\<rparr>]"
    "buffers (mark_buffer_dirty i s) = (buffers s)[i := (buf i s)\<lparr>b_dirty := True\<rparr>]"
    using id [of False] id [of True]
    by (auto simp: mark_buffer_clean_def mark_buffer_dirty_def Let_def set_dirty_led_def upd_buf_def)
qed

lemma dirty_kept:
  "kept s (mark_buffer_clean i s)" "kept s (mark_buffer_dirty i s)"
  "eeprom (mark_buffer_clean i s) = eeprom s" "eeprom (mark_buffer_dirty i s) = eeprom s"
  "fs_ok (mark_buffer_clean i s) fl = fs_ok s fl" "fs_ok (mark_buffer_dirty i s) fl = fs_ok s fl"
  "current_error (mark_buffer_clean i s) = current_error s" "current_error (mark_buffer_dirty i s) = current_error s"
  by (auto simp: mark_buffer_clean_def mark_buffer_dirty_def Let_def set_dirty_led_def upd_buf_def kept_def fs_ok_def)

lemma in_buf_dirty:
  assumes "in_buf i s s'" "i < length (buffers s)"
  shows "in_buf i s (mark_buffer_clean i s')" "in_buf i s (mark_buffer_dirty i s')"
proof -
  have l: "i < length (buffers s')" using assms by (simp add: in_buf_def same_owners_def)
  note U = upd_dirty [OF l]
  have "b_allocated ((buffers s')[i := (buf i s')\<lparr>b_dirty := x\<rparr>] ! j) = b_allocated (buf j s') \<and>
      b_secondary ((buffers s')[i := (buf i s')\<lparr>b_dirty := x\<rparr>] ! j) = b_secondary (buf j s')" for j x
    using l by (cases "j = i") simp_all
  then show "in_buf i s (mark_buffer_clean i s')" "in_buf i s (mark_buffer_dirty i s')"
    using assms(1) kept_trans [OF _ dirty_kept(1) [of s' i]] kept_trans [OF _ dirty_kept(2) [of s' i]]
    unfolding in_buf_def same_owners_def U by (simp_all del: nth_list_update) 
qed

lemma refill_write_ok:
  assumes wr: "writing i f rest W s" and fit: "fits (length W) rest"
  obtains s' f' where "eefs_refill_write i s = Some (0, s')" "writing i f' rest W s'" "same_file f f'"
    "\<not> b_mustflush (buf i s')" "b_position (buf i s') = 2" "in_buf i s s'"
    "\<forall>j \<in> set (all_secs rest). sec (eeprom s') j = sec (eeprom s) j"
proof -
  let ?b = "buf i s"
  obtain c where fs: "fs_ok s (f # rest)" and l: "length (buffers s) = 33" "i < 32" and b: "wbuf_ok ?b"
    and c: "wh_ok (b_eefh ?b) f c" "W = contents (eeprom s) (af_secs f) c @ pend ?b"
    using wr unfolding writing_def by blast
  have il: "i < length (buffers s)" using l by simp
  define s0 where "s0 = (if \<not> b_mustflush ?b then upd_buf i (\<lambda>b. b\<lparr>b_lastused := b_position b - 1\<rparr>) s else s)"
  define b0 where "b0 = (if b_mustflush ?b then ?b else ?b\<lparr>b_lastused := b_position ?b - 1\<rparr>)"
  have b0: "buf i s0 = b0" "fs_ok s0 (f # rest)" "eeprom s0 = eeprom s" "length (buffers s0) = 33"
    using fs l by (simp_all add: s0_def b0_def)
  have in0: "in_buf i s s0" using il by (auto simp: s0_def intro: in_buf_upd)
  define len where "len = (ucast (b_lastused b0) - 1 :: u16)"
  note P = pend_length [OF b b0_def, folded len_def]
  have bd: "b_eefh b0 = b_eefh ?b" "b_data b0 = b_data ?b" "length (b_data ?b) = 256"
    using b by (simp_all add: b0_def wbuf_ok_def)
  have cl: "length (contents (eeprom s) (af_secs f) c) = c"
    using c(1) by (intro length_contents) (simp add: wh_ok_def)
  have fit': "fits (c + unat len) rest" using fit c(2) P(1) cl by simp
  have room: "unat len \<le> length (drop 2 (b_data ?b))" using P(1,3) bd(3) by simp
  obtain fh s1 f' where S1: "eepromfs_write (b_eefh ?b) (drop 2 (b_data ?b)) len s0 = Some (EEFS_ERROR_OK, fh, len, s1)"
    "fs_ok s1 (f' # rest)" "wh_ok fh f' (c + unat len)" "same_file f f'"
    "contents (eeprom s1) (af_secs f') (c + unat len) = contents (eeprom s0) (af_secs f) c @ take (unat len) (drop 2 (b_data ?b))"
    "\<forall>j \<in> set (all_secs rest). sec (eeprom s1) j = sec (eeprom s0) j"
    by (rule eepromfs_write_fits [OF b0(2) c(1) room fit'])
  have more: "eefs_state.more s1 = eefs_state.more s0" by (rule write_frame [OF S1(1)])
  note K = kept_eefs [OF more]
  define s2 where "s2 = upd_buf i (\<lambda>b. b\<lparr>b_eefh := fh\<rparr>) s1"
  define s3 where "s3 = upd_buf i (\<lambda>b. b\<lparr>b_mustflush := False, b_position := 2, b_lastused := 2\<rparr>) (mark_buffer_clean i s2)"
  have run: "eefs_refill_write i s = Some (0, s3)"
    using S1(1) b0(1) bd unfolding eefs_refill_write_def
    by (simp add: s0_def [symmetric] len_def s2_def [symmetric] s3_def [symmetric] Let_def)
  have i2: "i < length (buffers s2)" using b0(4) l(2) K(2) by (simp add: s2_def)
  have b3: "buf i s3 = b0\<lparr>b_eefh := fh, b_dirty := False, b_mustflush := False, b_position := 2, b_lastused := 2\<rparr>"
    using i2 upd_dirty(1) [OF i2] K(2) b0(1,4) by (simp add: s3_def s2_def)
  have l3: "length (buffers s3) = 33" using upd_dirty(1) [OF i2] b0(4) K(2) by (simp add: s3_def s2_def)
  have "wbuf_ok (buf i s3)" using b by (simp add: b3 wbuf_ok_def b0_def)
  moreover have "pend (buf i s3) = []" by (simp add: pend_def b3)
  moreover have "eeprom s3 = eeprom s1" "fs_ok s3 (f' # rest)"
    using S1(2) by (simp_all add: s3_def dirty_kept s2_def)
  moreover have "W = contents (eeprom s1) (af_secs f') (c + unat len)" using S1(5) c(2) P(1,2) b0(3) by simp
  ultimately have W: "writing i f' rest W s3"
    unfolding writing_def using S1(3) l3 l(2) by (auto simp: b3)
  have "in_buf i s s3"
    unfolding s3_def s2_def using il b0(4)
    by (intro in_buf_upd in_buf_dirty in_buf_trans [OF in0 in_buf_eefs [OF more]]) simp_all
  then show ?thesis
    using that [OF run W S1(4)] S1(6) b0(3) \<open>eeprom s3 = eeprom s1\<close> by (simp add: b3)
qed

lemma put_byte_ok:
  assumes wr: "writing i f rest W s" and nf: "\<not> b_mustflush (buf i s)"
  obtains s' where "put_byte x i s = Some s'" "writing i f rest (W @ [x]) s'" "in_buf i s s'" "eeprom s' = eeprom s"
proof -
  let ?b = "buf i s" and ?p = "b_position (buf i s)"
  obtain c where fs: "fs_ok s (f # rest)" and l: "length (buffers s) = 33" "i < 32" and b: "wbuf_ok ?b"
    and c: "wh_ok (b_eefh ?b) f c" "W = contents (eeprom s) (af_secs f) c @ pend ?b"
    using wr unfolding writing_def by blast
  have il: "i < length (buffers s)" using l by simp
  have B: "length (b_data ?b) = 256" "2 \<le> unat ?p" using b nf by (simp_all add: wbuf_ok_def)
  have p: "unat ?p < 256" by (rule u8_lt_256)
  define s1 where "s1 = mark_buffer_dirty i (upd_buf i (\<lambda>b. b\<lparr>b_data := (b_data b)[unat (b_position b) := x]\<rparr>) s)"
  define s2 where "s2 = upd_buf i (\<lambda>b. b\<lparr>b_position := b_position b + 1\<rparr>)
     (upd_buf i (\<lambda>b. b\<lparr>b_lastused := (if b_lastused b < b_position b then b_position b else b_lastused b)\<rparr>) s1)"
  define s3 where "s3 = (if b_position (buf i s2) = 0 then upd_buf i (\<lambda>b. b\<lparr>b_mustflush := True\<rparr>) s2 else s2)"
  have run: "put_byte x i s = Some s3"
    using B(1) p unfolding put_byte_def Let_def
    by (simp add: not_le s1_def [symmetric] s2_def [symmetric]) (simp add: s3_def)
  let ?L = "if b_lastused ?b < ?p then ?p else b_lastused ?b"
  have i1: "i < length (buffers s1)" using il upd_dirty(2) [of i "upd_buf i (\<lambda>b. b\<lparr>b_data := (b_data b)[unat (b_position b) := x]\<rparr>) s"]
    by (simp add: s1_def)
  have b1: "buf i s1 = ?b\<lparr>b_data := (b_data ?b)[unat ?p := x], b_dirty := True\<rparr>"
    using il upd_dirty(2) [of i "upd_buf i (\<lambda>b. b\<lparr>b_data := (b_data b)[unat (b_position b) := x]\<rparr>) s"]
    by (simp add: s1_def)
  have b2: "buf i s2 = ?b\<lparr>b_data := (b_data ?b)[unat ?p := x], b_dirty := True, b_lastused := ?L, b_position := ?p + 1\<rparr>"
    using i1 b1 by (simp add: s2_def)
  have b3: "buf i s3 = ?b\<lparr>b_data := (b_data ?b)[unat ?p := x], b_dirty := True, b_lastused := ?L, b_position := ?p + 1,
      b_mustflush := (?p + 1 = 0)\<rparr>"
    using i1 b2 nf by (simp add: s3_def s2_def)
  have E: "eeprom s3 = eeprom s" "fs_ok s3 (f # rest)" using fs by (simp_all add: s3_def s2_def s1_def dirty_kept)
  have in3: "in_buf i s s3"
    unfolding s3_def s2_def s1_def using il by (auto intro!: in_buf_upd in_buf_dirty)
  have wrap: "?p + 1 = 0 \<longleftrightarrow> unat ?p = 255"
  proof
    assume "?p + 1 = 0"
    then have "?p + 1 = 255 + 1" by simp
    then have "?p = 255" by (simp only: add_right_cancel)
    then show "unat ?p = 255" by simp
  next
    assume "unat ?p = 255"
    then have "?p = 255" by (simp add: u8_eq_iff)
    then show "?p + 1 = 0" by simp
  qed
  have tk: "take (unat ?p - 1) (drop 2 ((b_data ?b)[unat ?p := x])) = pend ?b @ [x]"
  proof -
    have "take (unat ?p - 1) (drop 2 ((b_data ?b)[unat ?p := x])) = drop 2 (take (Suc (unat ?p)) ((b_data ?b)[unat ?p := x]))"
      using B by (simp add: drop_take)
    also have "\<dots> = drop 2 (take (unat ?p) (b_data ?b) @ [x])"
      using B p by (simp add: take_Suc_conv_app_nth)
    also have "\<dots> = pend ?b @ [x]" using B p nf by (simp add: pend_def drop_take)
    finally show ?thesis .
  qed
  have ok: "wbuf_ok (buf i s3) \<and> pend (buf i s3) = pend ?b @ [x]"
  proof (cases "unat ?p = 255")
    case True
    then have p255: "?p = 255" by (simp add: u8_eq_iff)
    have "unat (b_lastused ?b) < 255 \<or> unat (b_lastused ?b) = 255" using u8_lt_256 [of "b_lastused ?b"] by linarith
    then have "b_lastused ?b < 255 \<or> b_lastused ?b = 255" by (simp add: word_less_nat_alt u8_eq_iff)
    then have "?L = 255" using p255 by auto
    moreover have "drop 2 ((b_data ?b)[unat ?p := x]) = take (unat ?p - 1) (drop 2 ((b_data ?b)[unat ?p := x]))"
      using True B(1) by simp
    ultimately show ?thesis using True wrap b tk by (simp add: b3 wbuf_ok_def pend_def)
  next
    case False
    then have "unat (?p + 1) = Suc (unat ?p)" using p by (intro unat_Suc_u8) linarith
    then show ?thesis using False wrap b B tk by (simp add: b3 wbuf_ok_def pend_def)
  qed
  have "length (buffers s3) = 33" using in3 l(1) by (simp add: in_buf_def same_owners_def)
  then have "writing i f rest (W @ [x]) s3"
    unfolding writing_def using E ok c l(2) by (intro conjI exI [of _ c]) (simp_all add: b3)
  then show ?thesis using that [OF run _ in3 E(1)] by blast
qed

text \<open>Receiving bytes until a command arrives.\<close>

lemma listen_writing:
  assumes "writing i f rest W s" "find_buffer sa s = Some i" "fits (length W + length ds) rest"
  shows "\<exists>f' s'. listen_data fat sa i (map (\<lambda>(x, e). Ev_data x e) ds @ evs) s = listen_data fat sa i evs s' \<and>
     writing i f' rest (W @ map fst ds) s' \<and> same_file f f' \<and> in_buf i s s' \<and>
     (\<forall>j \<in> set (all_secs rest). sec (eeprom s') j = sec (eeprom s) j)"
  using assms
proof (induction ds arbitrary: f W s)
  case Nil
  then show ?case by (intro exI [of _ f] exI [of _ s]) (simp add: same_file_def)
next
  case (Cons d ds)
  obtain x e where d: "d = (x, e)" by (cases d)
  have flush: "\<exists>f1 s1. flush_full fat sa i s = Some (Some i, s1) \<and> writing i f1 rest W s1 \<and> \<not> b_mustflush (buf i s1) \<and>
      same_file f f1 \<and> in_buf i s s1 \<and> (\<forall>j \<in> set (all_secs rest). sec (eeprom s1) j = sec (eeprom s) j)"
  proof (cases "b_mustflush (buf i s)")
    case True
    have fit: "fits (length W) rest" using Cons.prems(3) by (simp add: fits_def)
    obtain s1 f1 where R: "eefs_refill_write i s = Some (0, s1)" "writing i f1 rest W s1" "same_file f f1"
      "\<not> b_mustflush (buf i s1)" "in_buf i s s1" "\<forall>j \<in> set (all_secs rest). sec (eeprom s1) j = sec (eeprom s) j"
      by (rule refill_write_ok [OF Cons.prems(1) fit])
    have "find_buffer sa s1 = Some i" using find_buffer_owners [of s s1] R(5) Cons.prems(2) by (simp add: in_buf_def)
    moreover have "b_refill (buf i s) = Refill_eefs_write" using Cons.prems(1) by (simp add: writing_def wbuf_ok_def)
    ultimately have "flush_full fat sa i s = Some (Some i, s1)" using True R(1) by (simp add: flush_full_def run_refill_def)
    then show ?thesis using R by blast
  next
    case False
    then show ?thesis using Cons.prems(1) by (intro exI [of _ f] exI [of _ s]) (simp add: flush_full_def same_file_def)
  qed
  then obtain f1 s1 where F: "flush_full fat sa i s = Some (Some i, s1)" "writing i f1 rest W s1" "\<not> b_mustflush (buf i s1)"
    "same_file f f1" "in_buf i s s1" "\<forall>j \<in> set (all_secs rest). sec (eeprom s1) j = sec (eeprom s) j" by blast
  obtain s2 where P: "put_byte x i s1 = Some s2" "writing i f1 rest (W @ [x]) s2" "in_buf i s1 s2" "eeprom s2 = eeprom s1"
    by (rule put_byte_ok [OF F(2,3)])
  have in2: "in_buf i s s2" by (rule in_buf_trans [OF F(5) P(3)])
  have fb: "find_buffer sa s2 = Some i" using find_buffer_owners [of s s2] in2 Cons.prems(2) by (simp add: in_buf_def)
  have "b_recordlen (buf i s2) = 0" using P(2) by (simp add: writing_def wbuf_ok_def)
  then have step: "listen_data fat sa i (map (\<lambda>(x, e). Ev_data x e) (d # ds) @ evs) s =
      listen_data fat sa i (map (\<lambda>(x, e). Ev_data x e) ds @ evs) s2"
    using F(1) P(1) by (simp add: d sync_record_def)
  have "fits (length (W @ [x]) + length ds) rest" using Cons.prems(3) by simp
  from Cons.IH [OF P(2) fb this] obtain f' s' where
    I: "listen_data fat sa i (map (\<lambda>(x, e). Ev_data x e) ds @ evs) s2 = listen_data fat sa i evs s'"
    "writing i f' rest ((W @ [x]) @ map fst ds) s'" "same_file f1 f'" "in_buf i s2 s'"
    "\<forall>j \<in> set (all_secs rest). sec (eeprom s') j = sec (eeprom s2) j" by blast
  show ?case
    unfolding step using I F(4,6) P(4) in_buf_trans [OF in2 I(4)]
    by (intro exI [of _ f'] exI [of _ s']) (auto simp: d same_file_def)
qed

section \<open>Opening and closing\<close>

definition same_eefs :: "'a eefs_state_scheme \<Rightarrow> 'a eefs_state_scheme \<Rightarrow> bool" where
  "same_eefs s s' \<longleftrightarrow> ops_scratch s' = ops_scratch s \<and> eeprom s' = eeprom s \<and> used_sectors s' = used_sectors s \<and>
     used_entries s' = used_entries s \<and> free_sectors s' = free_sectors s"

lemma same_eefsD:
  assumes "same_eefs s s'"
  shows "fs_ok s' fl = fs_ok s fl" "holds s' st = holds s st" "eeprom s' = eeprom s"
    "used_entries s' = used_entries s" "free_sectors s' = free_sectors s"
  using assms fs_ok_cong [of s' s] by (simp_all add: same_eefs_def)

lemma free_buffer_frame:
  assumes "i < length (buffers s)" "b_secondary (buf i s) \<noteq> 15" "b_allocated (buf i s)"
  shows "kept s (free_buffer (Some i) s)" "same_eefs s (free_buffer (Some i) s)"
    "buffers (free_buffer (Some i) s) = (buffers s)[i := (buf i s)\<lparr>b_allocated := False\<rparr>]"
    "current_error (free_buffer (Some i) s) = current_error s"
  using assms by (auto simp: free_buffer_def Let_def update_leds_def kept_def same_eefs_def upd_buf_def)

lemma close_writing:
  assumes wr: "writing i f rest W s" and fit: "fits (length W) rest" and sa: "b_secondary (buf i s) \<noteq> 15"
  obtains s' f' where "cleanup_and_free_buffer run_cleanup i s = Some s'" "fs_ok s' (f' # rest)" "af_name f' = af_name f"
    "file_data (eeprom s') f' = W" "\<forall>j \<in> set (all_secs rest). sec (eeprom s') j = sec (eeprom s) j"
    "kept s s'" "length (buffers s') = 33" "\<forall>j. j \<noteq> i \<longrightarrow> buf j s' = buf j s" "\<not> b_allocated (buf i s')"
    "length (b_data (buf i s')) = 256"
proof -
  have b: "wbuf_ok (buf i s)" and l: "length (buffers s) = 33" "i < 32" using wr by (simp_all add: writing_def)
  obtain s1 f1 where R: "eefs_refill_write i s = Some (0, s1)" "writing i f1 rest W s1" "same_file f f1"
    "\<not> b_mustflush (buf i s1)" "b_position (buf i s1) = 2" "in_buf i s s1"
    "\<forall>j \<in> set (all_secs rest). sec (eeprom s1) j = sec (eeprom s) j"
    by (rule refill_write_ok [OF wr fit])
  obtain c where fs: "fs_ok s1 (f1 # rest)" and l1: "length (buffers s1) = 33" and b1: "wbuf_ok (buf i s1)"
    and c: "wh_ok (b_eefh (buf i s1)) f1 c" "W = contents (eeprom s1) (af_secs f1) c @ pend (buf i s1)"
    using R(2) unfolding writing_def by blast
  have W: "W = contents (eeprom s1) (af_secs f1) c" using c(2) R(4,5) by (simp add: pend_def)
  let ?fh = "b_eefh (buf i s1)"
  have H: "fh_entry ?fh = of_nat (hd (af_ents f1))" "fh_filemode ?fh \<noteq> EEFS_MODE_READ"
    "unat (fh_size ?fh) \<le> 64 * length (af_secs f1)" "unat (fh_size ?fh) = c"
    using c(1) by (simp_all add: wh_ok_def wh_core_def)
  obtain s2 where C: "eepromfs_close ?fh s1 = Some (?fh\<lparr>fh_filemode := 0\<rparr>, s2)"
    "fs_ok s2 (f1\<lparr>af_size := fh_size ?fh\<rparr> # rest)" "\<forall>k. sec (eeprom s2) k = sec (eeprom s1) k"
    by (rule eepromfs_close_write_ok [OF fs H(1-3)])
  note K = kept_eefs [OF close_frame [OF C(1)]]
  define s3 where "s3 = upd_buf i (\<lambda>b. b\<lparr>b_eefh := ?fh\<lparr>fh_filemode := 0\<rparr>, b_cleanup := Cleanup_dummy\<rparr>) s2"
  have clean: "eefs_cleanup_write i s = Some (0, s3)"
    using b R(1) C(1) by (simp add: eefs_cleanup_write_def wbuf_ok_def s3_def)
  have run: "cleanup_and_free_buffer run_cleanup i s = Some (free_buffer (Some i) s3)"
    using b clean by (simp add: cleanup_and_free_buffer_def run_cleanup_def wbuf_ok_def)
  have b3: "buf i s3 = (buf i s1)\<lparr>b_eefh := ?fh\<lparr>fh_filemode := 0\<rparr>, b_cleanup := Cleanup_dummy\<rparr>"
    "i < length (buffers s3)" "length (buffers s3) = 33" "\<forall>j. j \<noteq> i \<longrightarrow> buf j s3 = buf j s"
    using l l1 K(2) R(6) by (simp_all add: s3_def in_buf_def)
  have sec3: "b_secondary (buf i s3) \<noteq> 15" "b_allocated (buf i s3)"
    using b1 sa R(6) by (simp_all add: b3 wbuf_ok_def in_buf_def same_owners_def)
  note F = free_buffer_frame [OF b3(2) sec3]
  have k3: "kept s s3" using kept_trans [OF _ K(1)] R(6) by (simp add: s3_def in_buf_def)
  have e3: "eeprom s3 = eeprom s2" "fs_ok s3 (f1\<lparr>af_size := fh_size ?fh\<rparr> # rest)" using C(2) by (simp_all add: s3_def)
  have "file_data (eeprom s3) (f1\<lparr>af_size := fh_size ?fh\<rparr>) = W"
    using W H(4) C(3) contents_frame [of "af_secs f1" "eeprom s2" "eeprom s1"] e3(1) by (simp add: file_data_def)
  then show ?thesis
    using that [OF run] e3 same_eefsD [OF F(2)] R(3,7) C(3) kept_trans [OF k3 F(1)] F(3) b3 b1
    by (simp add: same_file_def wbuf_ok_def)
qed

text \<open>An error message, in particular the message of success.\<close>

lemma set_error_plain:
  assumes "plain_error e" "length (buffers s) = 33"
  obtains s' where "set_error_ts e t sc s = Some s'" "in_buf 32 s s'" "same_eefs s s'" "current_error s' = e"
    "active_buffers s' = active_buffers s"
proof -
  let ?f = "\<lambda>b. b\<lparr>b_position := 0, b_lastused := of_nat (length (error_line e t sc)),
            b_data := error_line e t sc @ 13 # replicate (99 - length (error_line e t sc)) 0\<rparr>"
  have in1: "in_buf 32 s (s\<lparr>current_error := e\<rparr>)" by (simp add: in_buf_def kept_def same_owners_def)
  have in2: "in_buf 32 s (upd_buf 32 ?f (s\<lparr>current_error := e\<rparr>))"
    using assms(2) by (intro in_buf_upd in1) simp_all
  define s' where "s' = (let s = upd_buf 32 ?f (s\<lparr>current_error := e\<rparr>)
      in if e \<ge> 20 then s\<lparr>led_state := led_state s OR 1\<rparr>
         else set_error_led False (s\<lparr>led_state := led_state s AND NOT 1\<rparr>))"
  have "set_error_ts e t sc s = Some s'" unfolding s'_def by (rule set_error_ts_plain [OF assms(1)])
  moreover have "in_buf 32 s s'"
    using in2 by (simp add: s'_def Let_def set_error_led_def update_leds_def in_buf_def kept_def same_owners_def)
  moreover have "same_eefs s s'" "current_error s' = e" "active_buffers s' = active_buffers s"
    by (simp_all add: s'_def Let_def set_error_led_def update_leds_def same_eefs_def upd_buf_def)
  ultimately show ?thesis by (rule that)
qed

lemma plain_0 [simp]: "plain_error 0"
  by (simp add: plain_error_def)

lemma alloc_fresh:
  assumes "length (buffers s) = 33" "\<exists>i < 32. \<not> b_allocated (buf i s)"
  obtains i s' where "alloc_buffer s = Some (Some i, s')" "i < 32" "\<not> b_allocated (buf i s)"
    "buffers s' = (buffers s)[i := (buf_clear (buf i s))\<lparr>b_allocated := True, b_refill := Refill_dummy, b_cleanup := Cleanup_dummy, b_secondary := 0\<rparr>]"
    "kept s s'" "same_eefs s s'" "current_error s' = current_error s"
proof (cases "first_buffer (\<lambda>b. \<not> b_allocated b) 32 s")
  case None
  then show ?thesis using assms(2) unfolding first_buffer_def by (auto dest: find_upt_None)
next
  case (Some i)
  then have i: "i < 32" "\<not> b_allocated (buf i s)" unfolding first_buffer_def by (auto dest: find_upt_Some)
  then show ?thesis
    using that Some assms(1)
    by (auto simp: alloc_buffer_def alloc_system_buffer_def alloc_specific_buffer_def Let_def upd_buf_def
        set_busy_led_def kept_def same_eefs_def)
qed

lemma find_entry_loop_take: "find_entry_loop is (take 16 n) s = find_entry_loop is n s"
proof (induction "is" arbitrary: s)
  case (Cons i "is")
  then show ?case by (cases "ee_read_entry (of_nat i) s") simp_all
qed simp

lemma find_entry_take: "find_entry (take 16 n) s = find_entry n s"
  by (simp only: find_entry_def find_entry_loop_take)

lemma eepromfs_open_take: "eepromfs_open (take 16 n) flags s = eepromfs_open n flags s"
proof -
  have "new_nameentry (take 16 n) e = new_nameentry n e" for e by (simp add: new_nameentry_def)
  then show ?thesis by (simp only: eepromfs_open_def find_entry_take)
qed

lemma eepromfs_delete_take: "eepromfs_delete (take 16 n) s = eepromfs_delete n s"
  by (simp only: eepromfs_delete_def find_entry_take)

text \<open>Steps that change one buffer, the error buffer and the file system.\<close>

definition in_chan :: "nat \<Rightarrow> 'a fw_scheme \<Rightarrow> 'a fw_scheme \<Rightarrow> bool" where
  "in_chan i s s' \<longleftrightarrow> kept s s' \<and> same_owners s s' \<and> (\<forall>j. j \<noteq> i \<longrightarrow> j \<noteq> 32 \<longrightarrow> buf j s' = buf j s)"

lemma in_chanI: "in_buf i s s' \<Longrightarrow> in_chan i s s'" "in_buf 32 s s' \<Longrightarrow> in_chan i s s'"
  by (simp_all add: in_buf_def in_chan_def)

lemma in_chan_trans: "in_chan i s s' \<Longrightarrow> in_chan i s' s'' \<Longrightarrow> in_chan i s s''"
  unfolding in_chan_def same_owners_def by (auto intro: kept_trans)

lemma open_reading:
  assumes fs: "fs_ok s fl" "f \<in> set fl" "0 < unat (af_size f)" and nm: "repad_filename (ce_name dent) = Some nm" "take 16 nm = af_name f"
    and b: "length (buffers s) = 33" "i < 32" "length (b_data (buf i s)) = 256" "b_recordlen (buf i s) = 0"
  obtains s' where "eefs_open_read path dent i s = Some (dent\<lparr>ce_name := nm\<rparr>, s')" "reading i fl f (file_data (eeprom s) f) s'"
    "eeprom s' = eeprom s" "in_chan i s s'" "current_error s' = 0"
    "b_cleanup (buf i s') = b_cleanup (buf i s)" "b_dirty (buf i s') = b_dirty (buf i s)" "b_position (buf i s') = 2"
proof -
  obtain fh s1 where O: "eepromfs_open (af_name f) EEFS_MODE_READ s = Some (EEFS_ERROR_OK, fh, s1)"
    "rh_ok fh f 0" "fs_ok s1 fl" "eeprom s1 = eeprom s"
    by (rule eepromfs_open_read_ok [OF fs(1,2)])
  have O1: "eepromfs_open nm EEFS_MODE_READ s = Some (EEFS_ERROR_OK, fh, s1)"
    using O(1) eepromfs_open_take [of nm EEFS_MODE_READ s] nm(2) by simp
  note K = kept_eefs [OF open_frame [OF O(1)]]
  define s2 where "s2 = upd_buf i (\<lambda>b. b\<lparr>b_eefh := fh\<rparr>) s1"
  have l2: "length (buffers s2) = 33" using b(1) K(2) by (simp add: s2_def)
  have in2: "in_buf i s s2"
    unfolding s2_def using b by (intro in_buf_upd in_buf_eefs open_frame [OF O(1)]) simp_all
  obtain s3 where E: "set_error_ts 0 0 0 s2 = Some s3" "in_buf 32 s2 s3" "same_eefs s2 s3" "current_error s3 = 0"
    by (rule set_error_plain [OF plain_0 l2])
  have b3: "buf i s3 = (buf i s)\<lparr>b_eefh := fh\<rparr>"
    using E(2) b K(2) by (simp add: in_buf_def s2_def)
  define s4 where "s4 = stick_buffer i (upd_buf i (\<lambda>b. b\<lparr>b_read := True, b_refill := Refill_eefs_read\<rparr>) s3)"
  have l3: "length (buffers s3) = 33" using E(2) l2 by (simp add: in_buf_def same_owners_def)
  have b4: "buf i s4 = (buf i s)\<lparr>b_eefh := fh, b_read := True, b_refill := Refill_eefs_read, b_sticky := True\<rparr>"
    using l3 b(2) b3 by (simp add: s4_def stick_buffer_def)
  have l4: "length (buffers s4) = 33" using l3 by (simp add: s4_def stick_buffer_def)
  have f4: "fs_ok s4 fl" "eeprom s4 = eeprom s" "current_error s4 = 0"
    using same_eefsD [OF E(3)] O(3,4) E(4) by (simp_all add: s4_def stick_buffer_def s2_def)
  obtain s5 where R: "eefs_refill_read i s4 = Some (0, s5)" "reading i fl f (drop 0 (file_data (eeprom s4) f)) s5"
    "eeprom s5 = eeprom s4" "in_buf i s4 s5" "current_error s5 = current_error s4"
    "b_cleanup (buf i s5) = b_cleanup (buf i s4)" "b_dirty (buf i s5) = b_dirty (buf i s4)" "b_position (buf i s5) = 2"
    by (rule refill_read_reading [OF f4(1) fs(2) l4 b(2), of 0]) (use b4 b O(2) fs(3) in simp_all)
  have "eefs_open_read path dent i s = Some (dent\<lparr>ce_name := nm\<rparr>, s5)"
    using nm(1) O1 E(1) R(1)
    by (simp add: eefs_open_read_def translate_error_def set_error_def s2_def [symmetric] s4_def [symmetric])
  moreover have "in_chan i s s5"
  proof -
    have "in_buf i s3 s4" unfolding s4_def stick_buffer_def using l3 b(2) by (intro in_buf_upd) simp_all
    then show ?thesis
      using in_chan_trans in_chanI(1) [OF in2] in_chanI(2) [OF E(2)] in_chanI(1) [OF R(4)] in_chanI(1) by metis
  qed
  ultimately show ?thesis using that R f4 b4 by simp
qed

lemma open_writing:
  assumes fs: "fs_ok s fl" "\<forall>f \<in> set fl. af_name f \<noteq> take 16 nm" "\<exists>k < 8. \<not> bm_get (used_entries s) k"
    and nm: "repad_filename (ce_name dent) = Some nm" "length (take 16 nm) = 16"
    and b: "length (buffers s) = 33" "i < 32" "length (b_data (buf i s)) = 256" "b_recordlen (buf i s) = 0"
      "b_allocated (buf i s)" "\<not> b_mustflush (buf i s)"
  obtains s' f where "eefs_open_write path dent ty i False s = Some (dent\<lparr>ce_name := nm\<rparr>, s')"
    "writing i f fl [] s'" "af_name f = take 16 nm" "\<forall>k. sec (eeprom s') k = sec (eeprom s) k" "in_chan i s s'"
    "current_error s' = 0"
proof (cases rule: eepromfs_open_write_ok [OF fs(1,2) nm(2)])
  case (1 fh)
  then show ?thesis using fs(3) by blast
next
  case (2 fh s1 j)
  let ?f = "\<lparr>af_name = take 16 nm, af_size = 0, af_ents = [j], af_secs = []\<rparr>"
  have O1: "eepromfs_open nm EEFS_MODE_WRITE s = Some (EEFS_ERROR_OK, fh, s1)"
    using 2(1) by (simp add: eepromfs_open_take)
  note more = open_frame [OF O1] and K = kept_eefs [OF open_frame [OF O1]]
  define s2 where "s2 = upd_buf i (\<lambda>b. b\<lparr>b_eefh := fh\<rparr>) s1"
  have l2: "length (buffers s2) = 33" using b(1) K(2) by (simp add: s2_def)
  have in2: "in_buf i s s2"
    unfolding s2_def using b by (intro in_buf_upd in_buf_eefs more) simp_all
  obtain s3 where E: "set_error_ts 0 0 0 s2 = Some s3" "in_buf 32 s2 s3" "same_eefs s2 s3" "current_error s3 = 0"
    by (rule set_error_plain [OF plain_0 l2])
  have b3: "buf i s3 = (buf i s)\<lparr>b_eefh := fh\<rparr>" and l3: "length (buffers s3) = 33"
    using E(2) b K(2) l2 by (simp_all add: in_buf_def same_owners_def s2_def)
  define s4 where "s4 = upd_buf i (\<lambda>b. b\<lparr>b_position := 2, b_lastused := 2, b_data := (b_data b)[2 := 0x0d],
              b_refill := Refill_eefs_write, b_cleanup := Cleanup_eefs_write\<rparr>) (mark_write_buffer i s3)"
  have b4: "buf i s4 = (buf i s)\<lparr>b_eefh := fh, b_write := True, b_sticky := True, b_position := 2, b_lastused := 2,
      b_data := (b_data (buf i s))[2 := 0x0d], b_refill := Refill_eefs_write, b_cleanup := Cleanup_eefs_write\<rparr>"
    using l3 b(2) b3 by (simp add: s4_def mark_write_buffer_def stick_buffer_def)
  have l4: "length (buffers s4) = 33" using l3 by (simp add: s4_def mark_write_buffer_def stick_buffer_def)
  have f4: "fs_ok s4 (?f # fl)" "eeprom s4 = eeprom s1" "current_error s4 = 0"
    using same_eefsD [OF E(3)] 2(2) E(4) by (simp_all add: s4_def mark_write_buffer_def stick_buffer_def s2_def)
  have run: "eefs_open_write path dent ty i False s = Some (dent\<lparr>ce_name := nm\<rparr>, s4)"
    using nm(1) O1 E(1)
    by (simp add: eefs_open_write_def translate_error_def set_error_def s2_def [symmetric] s4_def [symmetric])
  have "writing i ?f fl [] s4"
    unfolding writing_def using f4 l4 b 2(3)
    by (intro conjI exI [of _ 0]) (simp_all add: b4 wbuf_ok_def pend_def contents_def)
  moreover have "in_chan i s s4"
  proof -
    have "in_buf i s3 s4"
      unfolding s4_def mark_write_buffer_def stick_buffer_def using l3 b(2) by (intro in_buf_upd) simp_all
    then show ?thesis
      using in_chan_trans in_chanI(1) [OF in2] in_chanI(2) [OF E(2)] in_chanI(1) by metis
  qed
  ultimately show ?thesis using that [OF run] 2(4) f4 by simp
qed

end
