(* ===== verification/Dir_Search.thy ===== *)
theory Dir_Search
  imports Match Eefs_Frame Parser_Props
begin

text \<open>
  The directory search of \<open>next_match\<close> over any file system whose \<open>readdir\<close> lists its entries one
  after the other: the locale \<open>dir_source\<close> is that contract, its interpretation the directory of
  the EEPROM file system.
\<close>

section \<open>The contract of a directory\<close>

text \<open>
  \<open>at dh s es\<close>: reading from the handle \<open>dh\<close> lists the entries \<open>es\<close> and then reports the end.  \<open>keeps\<close>
  relates the states before and after reading.
\<close>

locale dir_source =
  fixes fat :: "'a fw_scheme fileops"
    and at :: "dh_t \<Rightarrow> 'a fw_scheme \<Rightarrow> cbmdirent_t list \<Rightarrow> bool"
    and keeps :: "'a fw_scheme \<Rightarrow> 'a fw_scheme \<Rightarrow> bool"
  assumes at_end: "at dh s [] \<Longrightarrow> \<exists>dh' s'. w_readdir fat dh s = Some (-1, None, dh', s') \<and> at dh' s' [] \<and> keeps s s'"
    and at_entry: "at dh s (e # es) \<Longrightarrow>
      \<exists>dh' s'. w_readdir fat dh s = Some (0, Some e, dh', s') \<and> at dh' s' es \<and> keeps s s'"
    and keeps_trans: "keeps s s' \<Longrightarrow> keeps s' s'' \<Longrightarrow> keeps s s''"
    and keeps_postmatch: "keeps s s' \<Longrightarrow> postmatch s' = postmatch s"
begin

text \<open>The search returns the first entry that matches, or the end of the directory.\<close>

lemma next_match_first:
  assumes "at dh s es" "\<And>e. e \<in> set es \<Longrightarrow> entry_matches (postmatch s) ms start end' ty e = Some (P e)"
  shows "\<exists>dh' s'. keeps s s' \<and>
    (case dropWhile (\<lambda>e. \<not> P e) es of
       [] \<Rightarrow> next_match fat dh ms start end' ty s = Some (-1, None, dh', s') \<and> at dh' s' []
     | e # es' \<Rightarrow> next_match fat dh ms start end' ty s = Some (0, Some e, dh', s') \<and> at dh' s' es')"
  using assms
proof (induction es arbitrary: dh s)
  case Nil
  obtain dh' s' where "w_readdir fat dh s = Some (-1, None, dh', s')" "at dh' s' []" "keeps s s'"
    using at_end [OF Nil(1)] by blast
  then show ?case by (subst next_match.simps) auto
next
  case (Cons e es)
  obtain dh1 s1 where R: "w_readdir fat dh s = Some (0, Some e, dh1, s1)" "at dh1 s1 es" "keeps s s1"
    using at_entry [OF Cons.prems(1)] by blast
  have m: "entry_matches (postmatch s1) ms start end' ty e = Some (P e)"
    using Cons.prems(2) keeps_postmatch [OF R(3)] by simp
  show ?case
  proof (cases "P e")
    case True
    then have "next_match fat dh ms start end' ty s = Some (0, Some e, dh1, s1)"
      using R(1) m by (subst next_match.simps) simp
    then show ?thesis using R True by auto
  next
    case False
    then have step: "next_match fat dh ms start end' ty s = next_match fat dh1 ms start end' ty s1"
      using R(1) m by (subst next_match.simps) simp
    have "\<And>e. e \<in> set es \<Longrightarrow> entry_matches (postmatch s1) ms start end' ty e = Some (P e)"
      using Cons.prems(2) keeps_postmatch [OF R(3)] by simp
    from Cons.IH [OF R(2) this] obtain dh' s' where "keeps s1 s'"
      "case dropWhile (\<lambda>e. \<not> P e) es of
         [] \<Rightarrow> next_match fat dh1 ms start end' ty s1 = Some (-1, None, dh', s') \<and> at dh' s' []
       | e # es' \<Rightarrow> next_match fat dh1 ms start end' ty s1 = Some (0, Some e, dh', s') \<and> at dh' s' es'" by blast
    then show ?thesis
      unfolding step by (intro exI [of _ dh'] exI [of _ s']) (simp add: False keeps_trans [OF R(3)])
  qed
qed

end

section \<open>The directory of the EEPROM file system\<close>

text \<open>Its files in the order of their directory entries, as the channel layer sees them.\<close>

definition dir_order :: "afile list \<Rightarrow> afile list" where
  "dir_order fl = sort_key (\<lambda>f. hd (af_ents f)) fl"

definition shown :: "u8 list \<Rightarrow> u8 list" where
  "shown n = take CBM_NAME_LENGTH (terminate_filename n) @ [0]"

definition eefs_entry :: "afile \<Rightarrow> cbmdirent_t" where
  "eefs_entry f = \<lparr>ce_name = shown (af_name f), ce_typeflags = TYPE_PRG,
     ce_blocksize = of_nat ((unat (af_size f) + 255) div 256), ce_remainder = 0, ce_date = date_zero,
     ce_opstype = OPSTYPE_EEFS, ce_cluster = 0, ce_realname = replicate 13 0, ce_dh = d64dh_zero\<rparr>"

definition eefs_at :: "afile list \<Rightarrow> dh_t \<Rightarrow> 'a fw_scheme \<Rightarrow> cbmdirent_t list \<Rightarrow> bool" where
  "eefs_at fl dh s es \<longleftrightarrow> fs_ok s fl \<and> dh_eefs dh \<le> 8 \<and>
     unat (dh_part dh) < length (partitions s) \<and> pt_fop (part (dh_part dh) s) = EEFSOPS \<and>
     es = map eefs_entry (filter (\<lambda>f. dh_eefs dh \<le> hd (af_ents f)) (dir_order fl))"

definition eefs_keeps :: "'a fw_scheme \<Rightarrow> 'a fw_scheme \<Rightarrow> bool" where
  "eefs_keeps s s' \<longleftrightarrow> eefs_state.more s' = eefs_state.more s \<and> eeprom s' = eeprom s \<and>
     used_entries s' = used_entries s \<and> free_sectors s' = free_sectors s"

lemma dir_order_facts [simp]:
  "set (dir_order fl) = set fl" "sorted (map (\<lambda>f. hd (af_ents f)) (dir_order fl))"
  by (simp_all add: dir_order_def)

lemma filter_from_min:
  fixes k :: "'b \<Rightarrow> nat"
  assumes "sorted (map k xs)" "inj_on k (set xs)" "distinct xs" "x \<in> set xs" "n \<le> k x"
    "\<forall>y \<in> set xs. k y < n \<or> k x \<le> k y"
  shows "filter (\<lambda>y. n \<le> k y) xs = x # filter (\<lambda>y. Suc (k x) \<le> k y) xs"
  using assms
proof (induction xs)
  case (Cons y ys)
  show ?case
  proof (cases "y = x")
    case True
    then have "filter (\<lambda>y. n \<le> k y) ys = filter (\<lambda>y. Suc (k x) \<le> k y) ys"
      using Cons.prems by (intro filter_cong) (fastforce simp: inj_on_def Suc_le_eq le_less)+
    then show ?thesis using True Cons.prems(5) by simp
  next
    case False
    then have "x \<in> set ys" using Cons.prems(4) by simp
    then have "k y \<le> k x" "k y \<noteq> k x" using Cons.prems(1,2) False by (auto simp: inj_on_def)
    then have "k y < n" using Cons.prems(6) by auto
    then show ?thesis using Cons \<open>x \<in> set ys\<close> \<open>k y \<le> k x\<close> by (auto simp: inj_on_def)
  qed
qed simp

lemma files_distinct: "fs_ok s fl \<Longrightarrow> distinct fl"
  using fs_okD(9) distinct_map by blast

lemma w_readdir_eefs:
  "unat (dh_part dh) < length (partitions s) \<Longrightarrow> pt_fop (part (dh_part dh) s) = EEFSOPS \<Longrightarrow>
   w_readdir fat dh s = eefs_readdir dh s"
  by (simp add: w_readdir_def fop_of_eefs eefs_ops_def)

lemma partitions_frame:
  fixes s s' :: "'a fw_scheme"
  assumes "eefs_state.more s' = eefs_state.more s"
  shows "partitions s' = partitions s" "postmatch s' = postmatch s"
  by (subst eefs_more_eq [OF assms], simp)+

lemma readdir_keeps:
  assumes "eepromfs_readdir n s = Some (m, d, s')"
  shows "used_entries s' = used_entries s \<and> free_sectors s' = free_sectors s"
  using assms
proof (induction n s rule: eepromfs_readdir.induct)
  case (1 n s)
  show ?case
  proof (cases "n < EEPROMFS_ENTRIES")
    case True
    then obtain y where y: "ee_read_entry (of_nat n) s = Some y"
      using 1(2) by (subst (asm) eepromfs_readdir.simps) (auto simp: bind_eq_Some_conv)
    have yk: "used_entries y = used_entries s \<and> free_sectors y = free_sectors s"
      using y by (auto simp: ee_read_entry_def bind_eq_Some_conv)
    show ?thesis
    proof (cases "ent_flags (ops_scratch y) AND EEFS_FLAG_DELETED \<noteq> 0 \<or> curentry_is_listentry y")
      case skip: True
      then have "eepromfs_readdir (Suc n) y = Some (m, d, s')"
        using 1(2) True y by (subst (asm) eepromfs_readdir.simps) simp
      then show ?thesis using 1(1) [OF True y skip] yk by simp
    next
      case False
      then have "s' = y" using 1(2) True y by (subst (asm) eepromfs_readdir.simps) simp
      then show ?thesis using yk by simp
    qed
  next
    case False
    then show ?thesis using 1(2) by (subst (asm) eepromfs_readdir.simps) simp
  qed
qed

lemma eefs_at_step:
  assumes at: "eefs_at fl dh s es"
  shows "\<exists>dh' s'. w_readdir fat dh s = Some (case es of [] \<Rightarrow> (-1, None, dh', s') | e # _ \<Rightarrow> (0, Some e, dh', s')) \<and>
    eefs_at fl dh' s' (tl es) \<and> eefs_keeps s s'"
proof -
  note A = at [unfolded eefs_at_def]
  have rd: "w_readdir fat dh s = eefs_readdir dh s" using A by (simp add: w_readdir_eefs)
  have fs: "fs_ok s fl" and le: "dh_eefs dh \<le> 8" using A by simp_all
  show ?thesis
  proof (cases rule: readdir_step [OF fs le])
    case (1 s')
    note K = readdir_frame [OF 1(1)] readdir_keeps [OF 1(1)]
    have "es = []" using A 1(4) by (auto simp: filter_empty_conv)
    then show ?thesis
      using A 1 rd K partitions_frame [OF K(1)] head_entry(1) [OF 1(2)]
      by (intro exI [of _ "dh\<lparr>dh_eefs := 8\<rparr>"] exI [of _ s'])
        (auto simp: eefs_readdir_def eefs_at_def eefs_keeps_def filter_empty_conv)
  next
    case (2 f s')
    note K = readdir_frame [OF 2(1)] readdir_keeps [OF 2(1)]
    have "filter (\<lambda>g. dh_eefs dh \<le> hd (af_ents g)) (dir_order fl) =
        f # filter (\<lambda>g. Suc (hd (af_ents f)) \<le> hd (af_ents g)) (dir_order fl)"
      using 2(2,5,6) files_distinct [OF fs] heads_inj [OF fs]
      by (intro filter_from_min) (auto simp: inj_on_def dir_order_def)
    then have es: "es = eefs_entry f # map eefs_entry (filter (\<lambda>g. Suc (hd (af_ents f)) \<le> hd (af_ents g)) (dir_order fl))"
      using A by simp
    have h: "Suc (hd (af_ents f)) \<le> 8" using head_entry(1) [OF fs 2(2)] by simp
    have e: "eefs_readdir dh s = Some (0, Some (eefs_entry f), dh\<lparr>dh_eefs := Suc (hd (af_ents f))\<rparr>, s')"
      using 2(1) by (simp add: eefs_readdir_def dirent_of_def eefs_entry_def shown_def)
    have P: "unat (dh_part dh) < length (partitions s)" "pt_fop (part (dh_part dh) s) = EEFSOPS" using A by simp_all
    show ?thesis
      unfolding es using P 2(3,4) rd e h K partitions_frame [OF K(1)]
      by (intro exI [of _ "dh\<lparr>dh_eefs := Suc (hd (af_ents f))\<rparr>"] exI [of _ s'])
        (simp add: eefs_at_def eefs_keeps_def)
  qed
qed

interpretation eefs_dir: dir_source fat "eefs_at fl" eefs_keeps
proof
  fix dh :: dh_t and s :: "'a fw_scheme"
  assume "eefs_at fl dh s []"
  then show "\<exists>dh' s'. w_readdir fat dh s = Some (-1, None, dh', s') \<and> eefs_at fl dh' s' [] \<and> eefs_keeps s s'"
    using eefs_at_step [of fl dh s "[]" fat] by simp
next
  fix dh :: dh_t and s :: "'a fw_scheme" and e es
  assume "eefs_at fl dh s (e # es)"
  then show "\<exists>dh' s'. w_readdir fat dh s = Some (0, Some e, dh', s') \<and> eefs_at fl dh' s' es \<and> eefs_keeps s s'"
    using eefs_at_step [of fl dh s "e # es" fat] by simp
qed (auto simp: eefs_keeps_def dest: partitions_frame(2))

end
