(* ===== verification/Eefs_Session.thy ===== *)
theory Eefs_Session
  imports Eefs_Chan Dir_Search
begin

text \<open>
  Opening files of the EEPROM file system by name over the bus: from the name in the command
  buffer through the directory search to an open channel.
\<close>

section \<open>Names\<close>

text \<open>A character without a meaning for the command parser; names are padded with \<open>0xa0\<close>.\<close>

definition plain_char :: "u8 \<Rightarrow> bool" where
  "plain_char c \<longleftrightarrow> c \<noteq> 0 \<and> c \<noteq> 0x0d \<and> c \<noteq> 0xa0 \<and> c \<noteq> asc CHR '','' \<and> c \<noteq> asc CHR '':'' \<and> c \<noteq> asc CHR ''*'' \<and>
     c \<noteq> asc CHR ''?'' \<and> c \<noteq> asc CHR ''#'' \<and> c \<noteq> asc CHR ''$'' \<and> c \<noteq> asc CHR ''@''"

definition plain_name :: "u8 list \<Rightarrow> bool" where
  "plain_name n \<longleftrightarrow> n \<noteq> [] \<and> length n \<le> 16 \<and> (\<forall>c \<in> set n. plain_char c)"

definition pad_name :: "u8 list \<Rightarrow> u8 list" where
  "pad_name n = n @ replicate (16 - length n) 0xa0"

lemma plain_nameD:
  assumes "plain_name n"
  shows "n \<noteq> []" "length n \<le> 16" "0 \<notin> set n" "0x0d \<notin> set n" "0xa0 \<notin> set n" "44 \<notin> set n" "58 \<notin> set n" "42 \<notin> set n" "63 \<notin> set n"
    "35 \<notin> set n" "36 \<notin> set n" "64 \<notin> set n"
  using assms by (auto simp: plain_name_def plain_char_def)

lemma length_pad_name [simp]: "length n \<le> 16 \<Longrightarrow> length (pad_name n) = 16"
  by (simp add: pad_name_def)

lemma shown_pad:
  assumes "plain_name n"
  shows "shown (pad_name n) = n @ replicate (17 - length n) 0"
proof -
  note P = plain_nameD [OF assms]
  have "map (\<lambda>c. if c = 0xa0 then 0 else c) n = n" using P(5) by (induction n) auto
  then show ?thesis
    using P(2) by (simp add: shown_def terminate_filename_def pad_name_def Suc_diff_le replicate_append_same flip: replicate_Suc)
qed

lemma length_shown: "length k = 16 \<Longrightarrow> length (shown k) = 17"
  by (simp add: shown_def terminate_filename_def)

lemma cstr_zeros: "0 \<notin> set n \<Longrightarrow> cstr (n @ replicate k 0) = n"
  by (cases k) (simp_all add: cstr_no_nul cstr_append_nul)

lemma repad_plain:
  assumes "plain_name n" "x = n @ replicate (17 - length n) 0"
  shows "repad_filename x = Some (pad_name n @ [0])"
proof -
  note P = plain_nameD [OF assms(1)]
  have c: "cstr x = n" using P(3) by (simp add: assms(2) cstr_zeros)
  have "drop 16 x = [0]" using P(2) by (simp add: assms(2) Suc_diff_le)
  moreover have "take (length n) x = n" "\<not> 16 < length n" "\<not> length x \<le> length n"
    using P(2) by (simp_all add: assms(2))
  ultimately show ?thesis by (simp add: repad_filename_def c Let_def pad_name_def)
qed

lemma new_dirent_name: "plain_name n \<Longrightarrow> ce_name (new_dirent n) = n @ replicate (17 - length n) 0"
  using plain_nameD(2) [of n]
  by (simp add: new_dirent_def Suc_diff_le replicate_append_same flip: replicate_Suc)

section \<open>Matching\<close>

lemma match_loop_nostar:
  assumes "42 \<notin> set ms"
  shows "match_loop pm ic ms name n mi fi = match_loop False ic ms name n mi fi"
proof (induction n arbitrary: mi fi)
  case 0
  then show ?case by (subst (1 2) match_loop.simps) simp
next
  case (Suc n)
  have "cchar ms mi \<noteq> 42"
  proof (cases "mi < length ms")
    case True
    then have "ms ! mi \<noteq> 42" using assms nth_mem [OF True] by metis
    then show ?thesis using True by (simp add: cchar_def)
  qed (simp add: cchar_def)
  then show ?case using Suc by (subst (1 2) match_loop.simps) (simp add: Let_def)
qed

lemma pmatch_plain:
  "42 \<notin> set p \<Longrightarrow> 63 \<notin> set p \<Longrightarrow> pmatch False p n \<longleftrightarrow> p = n"
proof (induction False p n rule: pmatch.induct)
  case (4 p ps c cs)
  then show ?case by (auto simp: fold_case_def)
qed auto

lemma match_plain:
  assumes "plain_name n" "length x = 17"
  shows "match_name pm n x False = Some (take 16 (cstr x) = n)"
proof -
  note P = plain_nameD [OF assms(1)]
  have "match_name pm n x False = Some (pmatch False (take 16 n) (take 16 (cstr x)))"
    using match_loop_pmatch [OF assms(2) P(3), of 16 0 False]
    unfolding match_name_def match_loop_nostar [OF P(8), of pm] by simp
  then show ?thesis using P(2,8,9) by (auto simp: pmatch_plain)
qed

lemma take_cstr_shown: "length k = 16 \<Longrightarrow> take 16 (cstr (shown k)) = cstr (shown k)"
proof -
  assume "length k = 16"
  then have "length (cstr (shown k)) \<le> 16"
    by (auto simp: shown_def terminate_filename_def cstr_def takeWhile_append intro: order_trans [OF length_takeWhile_le])
  then show ?thesis by simp
qed

lemma entry_matches_plain:
  assumes "plain_name n" "length (af_name f) = 16"
  shows "entry_matches pm (Some n) None None FLAG_HIDDEN (eefs_entry f) = Some (cstr (shown (af_name f)) = n)"
  using match_plain [OF assms(1) length_shown [OF assms(2)]] take_cstr_shown [OF assms(2)]
  by (simp add: entry_matches_def eefs_entry_def)

section \<open>The drive between two channels\<close>

text \<open>What opening, using and closing a channel keeps.\<close>

definition same_cfg :: "'a drive_scheme \<Rightarrow> 'a drive_scheme \<Rightarrow> bool" where
  "same_cfg s s' \<longleftrightarrow> partitions s' = partitions s \<and> current_part s' = current_part s \<and>
     device_address s' = device_address s \<and> drive.more s' = drive.more s \<and>
     length (command_buffer s') = length (command_buffer s)"

lemma same_cfg_refl [simp]: "same_cfg s s"
  by (simp add: same_cfg_def)

lemma same_cfg_trans: "same_cfg s s' \<Longrightarrow> same_cfg s' s'' \<Longrightarrow> same_cfg s s''"
  by (simp add: same_cfg_def)

lemma kept_cfg: "kept s s' \<Longrightarrow> same_cfg s s'"
  using kept_drive [of s' s] by (simp add: kept_def same_cfg_def)

text \<open>The drive with the EEPROM file system as its current partition.\<close>

definition eefs_drive :: "'a drive_scheme \<Rightarrow> bool" where
  "eefs_drive s \<longleftrightarrow> length (command_buffer s) = CONFIG_COMMAND_BUFFER_SIZE + 2 \<and> length (buffers s) = 33 \<and>
     (\<forall>i < 32. length (b_data (buf i s)) = 256) \<and> b_allocated (buf 32 s) \<and> b_secondary (buf 32 s) = 15 \<and>
     unat (current_part s) < length (partitions s) \<and> pt_fop (part (current_part s) s) = EEFSOPS"

definition opened :: "nat \<Rightarrow> u8 \<Rightarrow> 'a drive_scheme \<Rightarrow> 'a drive_scheme \<Rightarrow> bool" where
  "opened i sa s s' \<longleftrightarrow> same_cfg s s' \<and> i < 32 \<and> \<not> b_allocated (buf i s) \<and> length (buffers s') = length (buffers s) \<and>
     (\<forall>j. j \<noteq> i \<longrightarrow> j \<noteq> 32 \<longrightarrow> buf j s' = buf j s) \<and>
     b_allocated (buf 32 s') = b_allocated (buf 32 s) \<and> b_secondary (buf 32 s') = b_secondary (buf 32 s) \<and>
     b_allocated (buf i s') \<and> b_secondary (buf i s') = sa \<and> length (b_data (buf i s')) = 256"

lemma find_buffer_Some: "find_buffer sa s = Some i \<Longrightarrow> i < 33 \<and> b_allocated (buf i s) \<and> b_secondary (buf i s) = sa"
  unfolding find_buffer_def first_buffer_def by (auto dest: find_upt_Some)

lemma find_buffer_None: "find_buffer sa s = None \<Longrightarrow> i < 33 \<Longrightarrow> b_allocated (buf i s) \<Longrightarrow> b_secondary (buf i s) \<noteq> sa"
  unfolding find_buffer_def first_buffer_def by (auto dest: find_upt_None)

lemma find_buffer_NoneI: "(\<And>i. i < 33 \<Longrightarrow> b_allocated (buf i s) \<Longrightarrow> b_secondary (buf i s) \<noteq> sa) \<Longrightarrow> find_buffer sa s = None"
  by (cases "find_buffer sa s") (auto dest: find_buffer_Some)

lemma opened_find:
  assumes "opened i sa s s'" "find_buffer sa s = None"
  shows "find_buffer sa s' = Some i"
proof (cases "find_buffer sa s'")
  case None
  then show ?thesis using assms(1) find_buffer_None [OF None, of i] by (simp add: opened_def)
next
  case (Some j)
  note J = find_buffer_Some [OF Some]
  have "j = i"
  proof (rule ccontr)
    assume "j \<noteq> i"
    then have "b_allocated (buf j s) \<and> b_secondary (buf j s) = sa" using J assms(1) by (cases "j = 32") (auto simp: opened_def)
    then show False using find_buffer_None [OF assms(2), of j] J by blast
  qed
  then show ?thesis using Some by simp
qed

section \<open>Finding a file\<close>

lemma find_file_eefs:
  assumes "plain_name n" "eefs_at fl (matchdh s) s (map eefs_entry fs)" "\<forall>f \<in> set fs. length (af_name f) = 16"
  obtains s' dh where "eefs_keeps s s'" "fs_ok s' fl"
    "find_file fat n wr s = Some (case dropWhile (\<lambda>f. cstr (shown (af_name f)) \<noteq> n) fs of
       [] \<Rightarrow> (-1, None, s'\<lparr>matchdh := dh\<rparr>) | f # _ \<Rightarrow> (0, Some (eefs_entry f), s'\<lparr>matchdh := dh\<rparr>))"
proof -
  let ?P = "\<lambda>e. cstr (ce_name e) = n"
  have m: "entry_matches (postmatch s) (Some n) None None FLAG_HIDDEN e = Some (?P e)" if "e \<in> set (map eefs_entry fs)" for e
    using that entry_matches_plain [OF assms(1)] assms(3) by (auto simp: eefs_entry_def)
  have dw: "dropWhile (\<lambda>e. \<not> ?P e) (map eefs_entry fs) = map eefs_entry (dropWhile (\<lambda>f. cstr (shown (af_name f)) \<noteq> n) fs)"
    by (simp add: dropWhile_map o_def eefs_entry_def)
  obtain dh s' where K: "eefs_keeps s s'" and
    R: "case dropWhile (\<lambda>e. \<not> ?P e) (map eefs_entry fs) of
       [] \<Rightarrow> next_match fat (matchdh s) (Some n) None None FLAG_HIDDEN s = Some (-1, None, dh, s') \<and> eefs_at fl dh s' []
     | e # es' \<Rightarrow> next_match fat (matchdh s) (Some n) None None FLAG_HIDDEN s = Some (0, Some e, dh, s') \<and> eefs_at fl dh s' es'"
    using eefs_dir.next_match_first [OF assms(2) m] by blast
  have "fs_ok s' fl" using R by (auto simp: eefs_at_def split: list.splits)
  moreover have "find_file fat n wr s = Some (case dropWhile (\<lambda>f. cstr (shown (af_name f)) \<noteq> n) fs of
       [] \<Rightarrow> (-1, None, s'\<lparr>matchdh := dh\<rparr>) | f # _ \<Rightarrow> (0, Some (eefs_entry f), s'\<lparr>matchdh := dh\<rparr>))"
    using R unfolding dw
    by (cases "dropWhile (\<lambda>f. cstr (shown (af_name f)) \<noteq> n) fs"; subst find_file.simps)
      (simp_all add: eefs_entry_def del: dropWhile_eq_Nil_conv)
  ultimately show ?thesis using that K by blast
qed

section \<open>Opening by name\<close>

text \<open>Steps that change no channel.\<close>

definition no_chan :: "'a drive_scheme \<Rightarrow> 'a drive_scheme \<Rightarrow> bool" where
  "no_chan s s' \<longleftrightarrow> same_cfg s s' \<and> length (buffers s') = length (buffers s) \<and> (\<forall>j. j \<noteq> 32 \<longrightarrow> buf j s' = buf j s) \<and>
     b_allocated (buf 32 s') = b_allocated (buf 32 s) \<and> b_secondary (buf 32 s') = b_secondary (buf 32 s)"

lemma no_chan_trans: "no_chan s s' \<Longrightarrow> no_chan s' s'' \<Longrightarrow> no_chan s s''"
  unfolding no_chan_def by (auto intro: same_cfg_trans)

lemma no_chanI: "in_buf 32 s s' \<Longrightarrow> no_chan s s'"
  using kept_cfg [of s s'] by (simp add: in_buf_def no_chan_def same_owners_def)

lemma no_chan_drive: "no_chan s s' \<Longrightarrow> eefs_drive s \<Longrightarrow> eefs_drive s'"
  by (simp add: no_chan_def eefs_drive_def same_cfg_def)

lemma no_chan_upd [simp]:
  "no_chan s (s'\<lparr>matchdh := dh\<rparr>) = no_chan s s'"
  "no_chan s (s'\<lparr>command_length := l\<rparr>) = no_chan s s'"
  "length m = length (command_buffer s') \<Longrightarrow> no_chan s (s'\<lparr>command_buffer := m\<rparr>) = no_chan s s'"
  by (simp_all add: no_chan_def same_cfg_def)

lemma ustrchr_none: "c \<notin> set (cstr_at m i) \<Longrightarrow> ustrchr m i c = None"
  by (auto simp: ustrchr_def find_None_iff dest: nth_mem)

lemma cstr_at_plain: "plain_name n \<Longrightarrow> cstr_at (n @ replicate k 0) 0 = n"
  using plain_nameD(3) by (simp add: cstr_at_def cstr_zeros)

lemma cchar_prefix: "k < length n \<Longrightarrow> take (length n) m = n \<Longrightarrow> cchar m k = n ! k"
  by (metis cchar_def length_take min_less_iff_conj nth_take)

lemma strip_cr_plain:
  assumes "plain_name n" "take (length n) m = n" "unat l = length n"
  shows "strip_cr m l = l"
proof -
  have "cchar m k \<noteq> 0x0d" if "k < length n" for k
    using cchar_prefix [OF that assms(2)] nth_mem [OF that] plain_nameD(4) [OF assms(1)] by metis
  then show ?thesis using assms(3) plain_nameD(1) [OF assms(1)] by (auto simp: strip_cr_def word_less_nat_alt)
qed

lemma plain_first:
  assumes "plain_name n"
  shows "cchar (n @ xs) 0 \<noteq> 35" "cchar (n @ xs) 0 \<noteq> 42" "cchar (n @ xs) 0 \<noteq> 36" "cchar (n @ xs) 0 \<noteq> 64" "cchar (n @ xs) 0 \<noteq> 0"
  using plain_nameD [OF assms] by (cases n; auto simp: cchar_def)+

lemma scan_plain:
  assumes "plain_name n"
  shows "scan_suffixes 2 (n @ replicate k 0) 0 mode ft = (n @ replicate k 0, mode, ft, 0)"
  using ustrchr_none [of 44 "n @ replicate k 0" 0] cstr_at_plain [OF assms, of k] plain_nameD(6) [OF assms]
  by (simp add: numeral_2_eq_2)

lemma file_open_plain:
  assumes dr: "eefs_drive s" and n: "plain_name n" "take (length n) (command_buffer s) = n" "unat (command_length s) = length n"
    and sa: "find_buffer sa s = None"
  obtains s' where "file_open fat sa s = open_named fat sa OPEN_READ TYPE_DEL 0 s'"
    "command_buffer s' = n @ replicate (122 - length n) 0" "no_chan s s'" "same_eefs s s'"
proof -
  have l: "length (buffers s) = 33" "length (command_buffer s) = 122" using dr by (simp_all add: eefs_drive_def)
  obtain s1 where E: "set_error_ts 0 0 0 s = Some s1" "in_buf 32 s s1" "same_eefs s s1"
    by (rule set_error_plain [OF plain_0 l(1)])
  have "fw.more s1 = fw.more s" using E(2) by (simp add: in_buf_def kept_def)
  note D = kept_drive [OF this]
  let ?m = "n @ replicate (122 - length n) 0"
  define s2 where "s2 = clean_cmdbuffer (s1\<lparr>command_length := command_length s\<rparr>)"
  have m2: "command_buffer s2 = ?m" using D n(2,3) l(2) by (simp add: s2_def clean_cmdbuffer_def)
  have st: "strip_cr (command_buffer s1) (command_length s1) = command_length s"
    using strip_cr_plain [OF n] D by simp
  have "file_open fat sa s = open_named fat sa OPEN_READ TYPE_DEL 0 (s2\<lparr>command_buffer := ?m\<rparr>)"
    using sa E(1) plain_first [OF n(1), of "replicate (122 - length n) 0"] scan_plain [OF n(1)]
    by (simp add: file_open_def set_error_def st s2_def [symmetric] m2 Let_def)
  moreover have "no_chan s (s2\<lparr>command_buffer := ?m\<rparr>)" "same_eefs s (s2\<lparr>command_buffer := ?m\<rparr>)"
    using no_chanI [OF E(2)] E(3) m2 l(2) n(2,3) D plain_nameD(2) [OF n(1)]
    by (simp_all add: s2_def clean_cmdbuffer_def no_chan_def same_cfg_def same_eefs_def)
  ultimately show ?thesis using that [of "s2\<lparr>command_buffer := ?m\<rparr>"] by simp
qed

text \<open>The file of the EEPROM file system that a name selects: the first one listed under it.\<close>

definition selected :: "u8 list \<Rightarrow> afile list \<Rightarrow> afile option" where
  "selected n fl = find (\<lambda>f. cstr (shown (af_name f)) = n) (dir_order fl)"

lemma dropWhile_find: "find P xs = (case dropWhile (\<lambda>x. \<not> P x) xs of [] \<Rightarrow> None | x # _ \<Rightarrow> Some x)"
  by (induction xs) auto

lemma open_named_plain:
  assumes dr: "eefs_drive s" and n: "plain_name n" "command_buffer s = n @ replicate (122 - length n) 0" and fs: "fs_ok s fl"
    and path: "path = current_path (current_part s) s"
  obtains s' where "no_chan s s'" "fs_ok s' fl" "eeprom s' = eeprom s" "used_entries s' = used_entries s"
    "command_buffer s' = command_buffer s"
    "open_named fat sa OPEN_READ TYPE_DEL 0 s = do {
       (dent, s) \<leftarrow> prepare_entry fat path n (effective_mode sa OPEN_READ)
                     (map_option eefs_entry (selected n fl)) s';
       (case dent of
          None \<Rightarrow> Some s
        | Some dent \<Rightarrow> open_entry fat sa path dent (effective_mode sa OPEN_READ)
                         (effective_type sa TYPE_DEL) 0 s) }"
proof -
  let ?m = "n @ replicate (122 - length n) 0"
  have P: "unat (current_part s) < length (partitions s)" "pt_fop (part (current_part s) s) = EEFSOPS"
    using dr by (simp_all add: eefs_drive_def)
  define dh where "dh = \<lparr>dh_part = current_part s, dh_fat = fatdir_zero, dh_d64 = d64dh_zero, dh_eefs = eepromfs_opendir\<rparr>"
  define s1 where "s1 = s\<lparr>command_buffer := ?m, matchdh := dh\<rparr>"
  have p: "parse_path fat (command_buffer s) 0 False s = Some (0, Some path, Some 0, ?m, s)"
    using ustrchr_none [of 58 ?m 0] cstr_at_plain [OF n(1)] plain_nameD(7) [OF n(1)] n(2) by (simp add: parse_path_def path)
  have o: "w_opendir fat path (s\<lparr>command_buffer := ?m\<rparr>) = Some (0, dh, s\<lparr>command_buffer := ?m\<rparr>)"
    using P by (simp add: w_opendir_def fop_of_def eefs_ops_def eefs_opendir_def current_path_def dh_def path)
  have at: "eefs_at fl (matchdh s1) s1 (map eefs_entry (dir_order fl))"
    using P fs by (simp add: eefs_at_def s1_def dh_def eepromfs_opendir_def fs_ok_def)
  obtain s2 dh' where F: "eefs_keeps s1 s2" "fs_ok s2 fl"
    "find_file fat n (sa = 1) s1 = Some (case dropWhile (\<lambda>f. cstr (shown (af_name f)) \<noteq> n) (dir_order fl) of
       [] \<Rightarrow> (-1, None, s2\<lparr>matchdh := dh'\<rparr>) | f # _ \<Rightarrow> (0, Some (eefs_entry f), s2\<lparr>matchdh := dh'\<rparr>))"
    by (rule find_file_eefs [OF n(1) at, of fat "sa = 1"]) (use name_length [OF fs] in auto)
  have more: "eefs_state.more s2 = eefs_state.more s1" and e2: "eeprom s2 = eeprom s" "used_entries s2 = used_entries s"
    using F(1) by (simp_all add: eefs_keeps_def s1_def)
  note K = kept_eefs [OF more]
  have k: "fw.more s2 = fw.more s1" "partitions s2 = partitions s" "current_part s2 = current_part s"
    using K(1) by (simp_all add: kept_def s1_def)
  note D = kept_drive [OF k(1)]
  have nc: "no_chan s (s2\<lparr>matchdh := dh'\<rparr>)"
    using K(2) k D n(2) plain_nameD(2) [OF n(1)] by (simp add: no_chan_def same_cfg_def s1_def)
  have d: "dropWhile (\<lambda>f. cstr (shown (af_name f)) \<noteq> n) (dir_order fl) = [] \<and> selected n fl = None \<or>
      (\<exists>f r. dropWhile (\<lambda>f. cstr (shown (af_name f)) \<noteq> n) (dir_order fl) = f # r \<and> selected n fl = Some f)"
    unfolding selected_def dropWhile_find by (cases "dropWhile (\<lambda>f. cstr (shown (af_name f)) \<noteq> n) (dir_order fl)") (simp_all del: dropWhile_eq_Nil_conv)
  have ff: "find_file fat n (sa = 1) s1 = Some (if selected n fl = None then -1 else 0, map_option eefs_entry (selected n fl), s2\<lparr>matchdh := dh'\<rparr>)"
    unfolding F(3) using d by (auto simp del: dropWhile_eq_Nil_conv)
  have "open_named fat sa OPEN_READ TYPE_DEL 0 s = do {
       (dent, s) \<leftarrow> prepare_entry fat path n (effective_mode sa OPEN_READ) (map_option eefs_entry (selected n fl)) (s2\<lparr>matchdh := dh'\<rparr>);
       (case dent of
          None \<Rightarrow> Some s
        | Some dent \<Rightarrow> open_entry fat sa path dent (effective_mode sa OPEN_READ) (effective_type sa TYPE_DEL) 0 s) }"
    using o cstr_at_plain [OF n(1)] ff
    unfolding open_named_def p
    by (cases "selected n fl") (simp_all add: s1_def [symmetric] eefs_entry_def Let_def del: n(2))
  moreover have "fs_ok (s2\<lparr>matchdh := dh'\<rparr>) fl" using F(2) by (simp add: fs_ok_def)
  moreover have "command_buffer (s2\<lparr>matchdh := dh'\<rparr>) = command_buffer s" using D(1) n(2) by (simp add: s1_def)
  ultimately show ?thesis using that [OF nc] e2 by simp
qed

text \<open>The buffer for a new channel.\<close>

lemma new_channel:
  assumes dr: "eefs_drive s" and free: "\<exists>i < 32. \<not> b_allocated (buf i s)" and fs: "fs_ok s fl"
  obtains i s0 s' where "alloc_buffer s = Some (Some i, s0)"
    "s' = (upd_buf i (\<lambda>b. b\<lparr>b_secondary := sa\<rparr>) s0)\<lparr>previous_file_path := path, previous_file_dirent := dent\<rparr>"
    "opened i sa s s'" "i < 32" "fs_ok s' fl" "eeprom s' = eeprom s" "used_entries s' = used_entries s" "length (buffers s') = 33"
    "length (b_data (buf i s')) = 256" "b_recordlen (buf i s') = 0" "\<not> b_mustflush (buf i s')" "b_cleanup (buf i s') = Cleanup_dummy"
    "fop_of fat (current_part s) s' = Some eefs_ops" "b_allocated (buf i s')"
proof -
  have l: "length (buffers s) = 33" using dr by (simp add: eefs_drive_def)
  obtain i s0 where A: "alloc_buffer s = Some (Some i, s0)" "i < 32" "\<not> b_allocated (buf i s)"
    "buffers s0 = (buffers s)[i := (buf_clear (buf i s))\<lparr>b_allocated := True, b_refill := Refill_dummy, b_cleanup := Cleanup_dummy, b_secondary := 0\<rparr>]"
    "kept s s0" "same_eefs s s0"
    by (rule alloc_fresh [OF l free])
  define s' where "s' = (upd_buf i (\<lambda>b. b\<lparr>b_secondary := sa\<rparr>) s0)\<lparr>previous_file_path := path, previous_file_dirent := dent\<rparr>"
  have d: "length (b_data (buf i s)) = 256" using dr A(2) by (simp add: eefs_drive_def)
  have b: "buffers s' = (buffers s)[i := (buf_clear (buf i s))\<lparr>b_allocated := True, b_refill := Refill_dummy, b_cleanup := Cleanup_dummy,
      b_secondary := sa\<rparr>]"
    using A(2,4) l by (simp add: s'_def upd_buf_def)
  have cfg: "same_cfg s s'" using kept_cfg [OF A(5)] by (simp add: s'_def same_cfg_def upd_buf_def)
  have "opened i sa s s'" using A(2,3) l cfg d by (simp add: opened_def b buf_clear_def)
  moreover have "fop_of fat (current_part s) s' = Some eefs_ops"
    using dr cfg by (simp add: fop_of_eefs eefs_drive_def same_cfg_def)
  moreover have "fs_ok s0 fl" using same_eefsD(1) [OF A(6)] fs by simp
  then have "fs_ok s' fl" by (simp add: s'_def fs_ok_def upd_buf_def)
  moreover have "eeprom s' = eeprom s" "used_entries s' = used_entries s"
    using same_eefsD [OF A(6)] by (simp_all add: s'_def upd_buf_def)
  ultimately show ?thesis
    using that [OF A(1) s'_def] A(2) l d by (simp add: b buf_clear_def)
qed

lemma opened_chan:
  assumes "opened i sa s s'" "in_chan i s' s''" "length (b_data (buf i s'')) = 256"
  shows "opened i sa s s''"
proof -
  have "same_cfg s s'" "same_cfg s' s''" using assms(1,2) kept_cfg [of s' s''] by (simp_all add: opened_def in_chan_def)
  then have "same_cfg s s''" by (rule same_cfg_trans)
  then show ?thesis using assms by (simp add: opened_def in_chan_def same_owners_def)
qed

lemma opened_no_chan:
  assumes "no_chan s s'" "opened i sa s' s''"
  shows "opened i sa s s''"
proof -
  have "same_cfg s s'" "same_cfg s' s''" using assms by (simp_all add: opened_def no_chan_def)
  then have "same_cfg s s''" by (rule same_cfg_trans)
  then show ?thesis using assms by (auto simp: opened_def no_chan_def)
qed

lemma open_load:
  assumes dr: "eefs_drive s" and n: "plain_name n" "take (length n) (command_buffer s) = n" "unat (command_length s) = length n"
    and sa: "find_buffer 0 s = None" and free: "\<exists>i < 32. \<not> b_allocated (buf i s)"
    and fs: "fs_ok s fl" "f \<in> set fl" "0 < unat (af_size f)" and f: "selected n fl = Some f" "af_name f = pad_name n"
  obtains i s' where "file_open fat 0 s = Some s'" "reading i fl f (file_data (eeprom s) f) s'" "eeprom s' = eeprom s"
    "opened i 0 s s'" "current_error s' = 0" "b_cleanup (buf i s') = Cleanup_dummy"
proof -
  obtain s1 where S1: "file_open fat 0 s = open_named fat 0 OPEN_READ TYPE_DEL 0 s1"
    "command_buffer s1 = n @ replicate (122 - length n) 0" "no_chan s s1" "same_eefs s s1"
    by (rule file_open_plain [OF dr n sa])
  note dr1 = no_chan_drive [OF S1(3) dr]
  have fs1: "fs_ok s1 fl" using same_eefsD [OF S1(4)] fs(1) by simp
  define path where "path = current_path (current_part s1) s1"
  obtain s2 where S2: "no_chan s1 s2" "fs_ok s2 fl" "eeprom s2 = eeprom s1"
    "open_named fat 0 OPEN_READ TYPE_DEL 0 s1 = do {
       (dent, s) \<leftarrow> prepare_entry fat path n (effective_mode 0 OPEN_READ) (map_option eefs_entry (selected n fl)) s2;
       (case dent of
          None \<Rightarrow> Some s
        | Some dent \<Rightarrow> open_entry fat 0 path dent (effective_mode 0 OPEN_READ) (effective_type 0 TYPE_DEL) 0 s) }"
    by (rule open_named_plain [OF dr1 n(1) S1(2) fs1 path_def])
  note nc2 = no_chan_trans [OF S1(3) S2(1)] and dr2 = no_chan_drive [OF S2(1) dr1]
  have "current_part s2 = current_part s1" using S2(1) by (simp add: no_chan_def same_cfg_def)
  then have pp: "path_part path = current_part s2" by (simp add: path_def current_path_def)
  have free2: "\<exists>i < 32. \<not> b_allocated (buf i s2)" using free nc2 by (auto simp: no_chan_def)
  obtain i s0 s3 where S3: "alloc_buffer s2 = Some (Some i, s0)"
    "s3 = (upd_buf i (\<lambda>b. b\<lparr>b_secondary := 0\<rparr>) s0)\<lparr>previous_file_path := path, previous_file_dirent := eefs_entry f\<rparr>"
    "opened i 0 s2 s3" "i < 32" "fs_ok s3 fl" "eeprom s3 = eeprom s2" "length (buffers s3) = 33"
    "length (b_data (buf i s3)) = 256" "b_recordlen (buf i s3) = 0" "b_cleanup (buf i s3) = Cleanup_dummy"
    "fop_of fat (current_part s2) s3 = Some eefs_ops"
    by (rule new_channel [OF dr2 free2 S2(2), where sa = 0 and path = path and dent = "eefs_entry f" and fat = fat])
  have nm: "repad_filename (ce_name (eefs_entry f)) = Some (pad_name n @ [0])" "take 16 (pad_name n @ [0]) = af_name f"
    using repad_plain [OF n(1) refl] shown_pad [OF n(1)] f(2) plain_nameD(2) [OF n(1)] by (simp_all add: eefs_entry_def)
  obtain s4 where S4: "eefs_open_read path (eefs_entry f) i s3 = Some ((eefs_entry f)\<lparr>ce_name := pad_name n @ [0]\<rparr>, s4)"
    "reading i fl f (file_data (eeprom s3) f) s4" "eeprom s4 = eeprom s3" "in_chan i s3 s4" "current_error s4 = 0"
    "b_cleanup (buf i s4) = b_cleanup (buf i s3)"
    by (rule open_reading [OF S3(5) fs(2,3) nm S3(7,4,8,9)])
  have "file_open fat 0 s = Some s4"
    unfolding S1(1) S2(4) using S3(1,11) S4(1) f(1)
    by (simp add: prepare_entry_def effective_mode_def effective_type_def open_entry_def w_open_read_def pp
        S3(2) [symmetric] eefs_ops_def)
  moreover have "opened i 0 s s4"
    using opened_no_chan [OF nc2 opened_chan [OF S3(3) S4(4)]] readingD(5) [OF S4(2)] by simp
  ultimately show ?thesis using that S4 S3(6,10) S2(3) same_eefsD(3) [OF S1(4)] by simp
qed

lemma open_save:
  assumes dr: "eefs_drive s" and n: "plain_name n" "take (length n) (command_buffer s) = n" "unat (command_length s) = length n"
    and sa: "find_buffer 1 s = None" and free: "\<exists>i < 32. \<not> b_allocated (buf i s)"
    and fs: "fs_ok s fl" "\<exists>k < 8. \<not> bm_get (used_entries s) k" and f: "\<forall>f \<in> set fl. cstr (shown (af_name f)) \<noteq> n"
  obtains i f s' where "file_open fat 1 s = Some s'" "writing i f fl [] s'" "af_name f = pad_name n"
    "\<forall>k. sec (eeprom s') k = sec (eeprom s) k" "opened i 1 s s'" "current_error s' = 0"
proof -
  obtain s1 where S1: "file_open fat 1 s = open_named fat 1 OPEN_READ TYPE_DEL 0 s1"
    "command_buffer s1 = n @ replicate (122 - length n) 0" "no_chan s s1" "same_eefs s s1"
    by (rule file_open_plain [OF dr n sa])
  note dr1 = no_chan_drive [OF S1(3) dr]
  have fs1: "fs_ok s1 fl" using same_eefsD [OF S1(4)] fs(1) by simp
  define path where "path = current_path (current_part s1) s1"
  obtain s2 where S2: "no_chan s1 s2" "fs_ok s2 fl" "eeprom s2 = eeprom s1" "used_entries s2 = used_entries s1"
    "open_named fat 1 OPEN_READ TYPE_DEL 0 s1 = do {
       (dent, s) \<leftarrow> prepare_entry fat path n (effective_mode 1 OPEN_READ) (map_option eefs_entry (selected n fl)) s2;
       (case dent of
          None \<Rightarrow> Some s
        | Some dent \<Rightarrow> open_entry fat 1 path dent (effective_mode 1 OPEN_READ) (effective_type 1 TYPE_DEL) 0 s) }"
    by (rule open_named_plain [OF dr1 n(1) S1(2) fs1 path_def])
  have none: "selected n fl = None" using f by (auto simp: selected_def find_None_iff)
  have l2: "length (buffers s2) = 33" using no_chan_drive [OF S2(1) dr1] by (simp add: eefs_drive_def)
  obtain s2' where E: "set_error_ts 0 0 0 s2 = Some s2'" "in_buf 32 s2 s2'" "same_eefs s2 s2'"
    by (rule set_error_plain [OF plain_0 l2])
  note nc2 = no_chan_trans [OF no_chan_trans [OF S1(3) S2(1)] no_chanI [OF E(2)]]
  note dr2 = no_chan_drive [OF nc2 dr]
  have fs2: "fs_ok s2' fl" "eeprom s2' = eeprom s" "used_entries s2' = used_entries s"
    using same_eefsD [OF E(3)] same_eefsD [OF S1(4)] S2 by simp_all
  have "current_part s2' = current_part s1" using nc2 S1(3) by (simp add: no_chan_def same_cfg_def)
  then have pp: "path_part path = current_part s2'" by (simp add: path_def current_path_def)
  have free2: "\<exists>i < 32. \<not> b_allocated (buf i s2')" using free nc2 by (auto simp: no_chan_def)
  obtain i s0 s3 where S3: "alloc_buffer s2' = Some (Some i, s0)"
    "s3 = (upd_buf i (\<lambda>b. b\<lparr>b_secondary := 1\<rparr>) s0)\<lparr>previous_file_path := path, previous_file_dirent := new_dirent n\<rparr>"
    "opened i 1 s2' s3" "i < 32" "fs_ok s3 fl" "eeprom s3 = eeprom s2'" "used_entries s3 = used_entries s2'" "length (buffers s3) = 33"
    "length (b_data (buf i s3)) = 256" "b_recordlen (buf i s3) = 0" "\<not> b_mustflush (buf i s3)"
    "fop_of fat (current_part s2') s3 = Some eefs_ops" "b_allocated (buf i s3)"
    by (rule new_channel [OF dr2 free2 fs2(1), where sa = 1 and path = path and dent = "new_dirent n" and fat = fat])
  have nm: "repad_filename (ce_name (new_dirent n)) = Some (pad_name n @ [0])" "take 16 (pad_name n @ [0]) = pad_name n"
    using repad_plain [OF n(1) new_dirent_name [OF n(1)]] plain_nameD(2) [OF n(1)] by simp_all
  have fresh: "\<forall>f \<in> set fl. af_name f \<noteq> take 16 (pad_name n @ [0])"
    using f cstr_zeros [OF plain_nameD(3) [OF n(1)]] shown_pad [OF n(1)] nm(2) by metis
  have k3: "\<exists>k < 8. \<not> bm_get (used_entries s3) k" using fs(2) fs2(3) S3(7) by simp
  have l16: "length (take 16 (pad_name n @ [0])) = 16" using nm(2) plain_nameD(2) [OF n(1)] by simp
  obtain s4 f where S4: "eefs_open_write path (new_dirent n) TYPE_PRG i False s3 = Some ((new_dirent n)\<lparr>ce_name := pad_name n @ [0]\<rparr>, s4)"
    "writing i f fl [] s4" "af_name f = take 16 (pad_name n @ [0])" "\<forall>k. sec (eeprom s4) k = sec (eeprom s3) k" "in_chan i s3 s4"
    "current_error s4 = 0"
    by (rule open_writing [OF S3(5) fresh k3 nm(1) l16 S3(8,4,9,10,13,11)])
  have "file_open fat 1 s = Some s4"
    unfolding S1(1) S2(5) using S3(1,12) S4(1) none E(1)
    by (simp add: prepare_entry_def effective_mode_def effective_type_def open_entry_def w_open_write_def pp set_error_def
        S3(2) [symmetric] eefs_ops_def)
  moreover have "length (b_data (buf i s4)) = 256" using S4(2) by (simp add: writing_def wbuf_ok_def)
  then have "opened i 1 s s4" using opened_no_chan [OF nc2 opened_chan [OF S3(3) S4(5)]] by simp
  ultimately show ?thesis using that S4 S3(6) fs2(2) nm(2) by simp
qed

text \<open>The names that are refused: a missing file for reading, an existing one for writing.\<close>

lemma open_refused:
  assumes dr: "eefs_drive s" and n: "plain_name n" "take (length n) (command_buffer s) = n" "unat (command_length s) = length n"
    and sa: "find_buffer sa s = None" and fs: "fs_ok s fl"
    and e: "sa = 0 \<and> selected n fl = None \<and> e = 62 \<or> sa = 1 \<and> selected n fl \<noteq> None \<and> e = 63"
  obtains s' where "file_open fat sa s = Some s'" "fs_ok s' fl" "eeprom s' = eeprom s" "no_chan s s'" "current_error s' = e"
proof -
  obtain s1 where S1: "file_open fat sa s = open_named fat sa OPEN_READ TYPE_DEL 0 s1"
    "command_buffer s1 = n @ replicate (122 - length n) 0" "no_chan s s1" "same_eefs s s1"
    by (rule file_open_plain [OF dr n sa])
  note dr1 = no_chan_drive [OF S1(3) dr]
  have fs1: "fs_ok s1 fl" using same_eefsD [OF S1(4)] fs by simp
  define path where "path = current_path (current_part s1) s1"
  obtain s2 where S2: "no_chan s1 s2" "fs_ok s2 fl" "eeprom s2 = eeprom s1" "command_buffer s2 = command_buffer s1"
    "open_named fat sa OPEN_READ TYPE_DEL 0 s1 = do {
       (dent, s) \<leftarrow> prepare_entry fat path n (effective_mode sa OPEN_READ) (map_option eefs_entry (selected n fl)) s2;
       (case dent of
          None \<Rightarrow> Some s
        | Some dent \<Rightarrow> open_entry fat sa path dent (effective_mode sa OPEN_READ) (effective_type sa TYPE_DEL) 0 s) }"
    by (rule open_named_plain [OF dr1 n(1) S1(2) fs1 path_def])
  have l2: "length (buffers s2) = 33" using no_chan_drive [OF S2(1) dr1] by (simp add: eefs_drive_def)
  have pe: "plain_error e" using e by (auto simp: plain_error_def)
  obtain s3 where E: "set_error_ts e 0 0 s2 = Some s3" "in_buf 32 s2 s3" "same_eefs s2 s3" "current_error s3 = e"
    by (rule set_error_plain [OF pe l2])
  have at: "cchar (command_buffer s2) 0 \<noteq> 64" using plain_first(4) [OF n(1)] S2(4) S1(2) by simp
  have "file_open fat sa s = Some s3"
    unfolding S1(1) S2(5) using e E(1) at by (auto simp: prepare_entry_def effective_mode_def set_error_def)
  then show ?thesis
    using that E(4) same_eefsD [OF E(3)] S2(2,3) same_eefsD(3) [OF S1(4)]
      no_chan_trans [OF no_chan_trans [OF S1(3) S2(1)] no_chanI [OF E(2)]] by simp
qed

end
