(* ===== verification/Bus_Session.thy ===== *)
theory Bus_Session
  imports Eefs_Session
begin

text \<open>
  Sessions on the IEEE-488 bus with the EEPROM file system: the command sequences that a
  controller sends for SAVE and LOAD, and what the device makes of them.
\<close>

section \<open>Command bytes\<close>

lemma small_byte:
  assumes "unat (x :: u8) < n"
  shows "x \<in> set (map of_nat [0..<n])"
proof -
  have "of_nat (unat x) = x" by simp
  then show ?thesis using assms by (metis atLeastLessThan_upt image_eqI lessThan_atLeast0 lessThan_iff list.set_map)
qed

lemma dev_bits:
  assumes "(dev :: u8) < 31"
  shows "(32 OR dev) AND 224 = 32" "(32 OR dev) AND 31 = dev" "32 OR dev \<noteq> 63" "32 OR dev \<noteq> 95"
    "(64 OR dev) AND 224 = 64" "(64 OR dev) AND 31 = dev" "64 OR dev \<noteq> 63" "64 OR dev \<noteq> 95"
proof -
  have "dev \<in> set (map of_nat [0..<31])" using assms by (intro small_byte) (simp add: word_less_nat_alt)
  then show "(32 OR dev) AND 224 = 32" "(32 OR dev) AND 31 = dev" "32 OR dev \<noteq> 63" "32 OR dev \<noteq> 95"
    "(64 OR dev) AND 224 = 64" "(64 OR dev) AND 31 = dev" "64 OR dev \<noteq> 63" "64 OR dev \<noteq> 95"
    by (auto simp: upt_rec)
qed

lemma sa_bits:
  assumes "(sa :: u8) < 16"
  shows "(96 OR sa) AND 224 = 96" "(96 OR sa) AND 240 = 96" "(96 OR sa) AND 15 = sa" "96 OR sa \<noteq> 63" "96 OR sa \<noteq> 95"
    "(224 OR sa) AND 224 = 224" "(224 OR sa) AND 240 = 224" "(224 OR sa) AND 15 = sa" "224 OR sa \<noteq> 63" "224 OR sa \<noteq> 95"
    "(240 OR sa) AND 224 = 224" "(240 OR sa) AND 240 = 240" "(240 OR sa) AND 15 = sa" "240 OR sa \<noteq> 63" "240 OR sa \<noteq> 95"
proof -
  have "sa \<in> set (map of_nat [0..<16])" using assms by (intro small_byte) (simp add: word_less_nat_alt)
  then show "(96 OR sa) AND 224 = 96" "(96 OR sa) AND 240 = 96" "(96 OR sa) AND 15 = sa" "96 OR sa \<noteq> 63" "96 OR sa \<noteq> 95"
    "(224 OR sa) AND 224 = 224" "(224 OR sa) AND 240 = 224" "(224 OR sa) AND 15 = sa" "224 OR sa \<noteq> 63" "224 OR sa \<noteq> 95"
    "(240 OR sa) AND 224 = 224" "(240 OR sa) AND 240 = 240" "(240 OR sa) AND 15 = sa" "240 OR sa \<noteq> 63" "240 OR sa \<noteq> 95"
    by (auto simp: upt_rec)
qed

text \<open>The device on single commands.\<close>

lemma bind_pair_id [simp]: "Option.bind m (\<lambda>(a, b). Some (a, b)) = m"
  by (cases m) auto

lemma bus_silent:
  assumes "ieee488_command ex cmd evs s = Some ([], evs', s')"
  shows "handle_ieee488 ex (Ev_cmd cmd # evs) s = handle_ieee488 ex evs' s'"
  by (subst handle_ieee488.simps) (simp add: assms)

lemma bus_listen:
  assumes "dev < 31" "device_address s = dev"
  shows "handle_ieee488 ex (Ev_cmd (IEEE_LISTEN OR dev) # evs) s =
    handle_ieee488 ex evs (s\<lparr>ieee488_ListenActive := dev, ieee488_TalkingDevice := 0\<rparr>)"
  using assms(2) dev_bits [OF assms(1)] by (intro bus_silent) (simp add: ieee488_command_def Let_def)

lemma bus_talk:
  assumes "dev < 31" "device_address s = dev"
  shows "handle_ieee488 ex (Ev_cmd (IEEE_TALK OR dev) # evs) s =
    handle_ieee488 ex evs (s\<lparr>ieee488_TalkingDevice := dev, ieee488_ListenActive := 0\<rparr>)"
  using assms(2) dev_bits [OF assms(1)] by (intro bus_silent) (simp add: ieee488_command_def Let_def)

lemma bus_untalk: "handle_ieee488 ex (Ev_cmd IEEE_UNTALK # evs) s = handle_ieee488 ex evs (ieee488_Untalk s)"
  by (intro bus_silent) (simp add: ieee488_command_def Let_def)

lemma bus_unlisten:
  "ieee488_Unlisten ex s = Some s' \<Longrightarrow> handle_ieee488 ex (Ev_cmd IEEE_UNLISTEN # evs) s = handle_ieee488 ex evs s'"
  by (intro bus_silent) (simp add: ieee488_command_def Let_def)

lemma bus_open:
  assumes "sa < 16" "ieee488_ListenActive s \<noteq> 0"
    "ieee488_ListenLoop (ex_fat ex) True sa evs (s\<lparr>open_active := True, open_sa := sa\<rparr>) = Some (evs', s')"
  shows "handle_ieee488 ex (Ev_cmd (IEEE_OPEN OR sa) # evs) s = handle_ieee488 ex evs' s'"
  using assms(2,3) sa_bits [OF assms(1)] by (intro bus_silent) (simp add: ieee488_command_def Let_def)

lemma bus_write:
  assumes "sa < 16" "ieee488_ListenActive s \<noteq> 0" "ieee488_ListenLoop (ex_fat ex) False sa evs s = Some (evs', s')"
  shows "handle_ieee488 ex (Ev_cmd (IEEE_SECONDARY OR sa) # evs) s = handle_ieee488 ex evs' s'"
  using assms(2,3) sa_bits [OF assms(1)] by (intro bus_silent) (simp add: ieee488_command_def Let_def)

lemma bus_close:
  assumes "sa < 16" "ieee488_ListenActive s \<noteq> 0" "close_channel sa s = Some s'"
  shows "handle_ieee488 ex (Ev_cmd (IEEE_CLOSE OR sa) # evs) s = handle_ieee488 ex evs s'"
  using assms(2,3) sa_bits [OF assms(1)] by (intro bus_silent) (simp add: ieee488_command_def Let_def)

lemma bus_read:
  assumes "sa < 16" "ieee488_ListenActive s = 0" "ieee488_TalkingDevice s \<noteq> 0"
    "ieee488_TalkLoop (ex_fat ex) sa evs s = Some (out, evs', s')"
  shows "handle_ieee488 ex (Ev_cmd (IEEE_SECONDARY OR sa) # evs) s = map_option (apfst ((@) out)) (handle_ieee488 ex evs' s')"
  using assms(2,3,4) sa_bits [OF assms(1)]
  by (subst handle_ieee488.simps, cases "handle_ieee488 ex evs' s'") (auto simp: ieee488_command_def Let_def)

section \<open>Receiving a name\<close>

abbreviation data_events :: "(u8 \<times> bool) list \<Rightarrow> bus_event list" where
  "data_events ds \<equiv> map (\<lambda>(x, e). Ev_data x e) ds"

lemma listen_text_data:
  assumes "unat (command_length s) + length ds \<le> CONFIG_COMMAND_BUFFER_SIZE" "length (command_buffer s) = 122"
  shows "\<exists>m l. listen_text (data_events ds @ Ev_cmd c # evs) s = (Ev_cmd c # evs, s\<lparr>command_buffer := m, command_length := l\<rparr>) \<and>
    length m = 122 \<and> unat l = unat (command_length s) + length ds \<and>
    take (unat l) m = take (unat (command_length s)) (command_buffer s) @ map fst ds"
  using assms
proof (induction ds arbitrary: s)
  case Nil
  then show ?case by (intro exI [of _ "command_buffer s"] exI [of _ "command_length s"]) simp
next
  case (Cons d ds)
  obtain x e where d: "d = (x, e)" by (cases d)
  let ?k = "unat (command_length s)"
  let ?s = "s\<lparr>command_buffer := (command_buffer s)[?k := x], command_length := command_length s + 1\<rparr>"
  have k: "?k < 120" using Cons.prems(1) by simp
  have l: "unat (command_length s + 1) = Suc ?k" using k by (intro unat_Suc_u8) simp
  have r: "RxChar x s = ?s" using k by (simp add: RxChar_def)
  have "unat (command_length ?s) + length ds \<le> CONFIG_COMMAND_BUFFER_SIZE" using Cons.prems(1) l by simp
  moreover have "length (command_buffer ?s) = 122" using Cons.prems(2) by simp
  ultimately obtain m l' where M: "listen_text (data_events ds @ Ev_cmd c # evs) ?s =
      (Ev_cmd c # evs, ?s\<lparr>command_buffer := m, command_length := l'\<rparr>)"
    "length m = 122" "unat l' = unat (command_length ?s) + length ds"
    "take (unat l') m = take (unat (command_length ?s)) (command_buffer ?s) @ map fst ds" using Cons.IH by blast
  have "take (Suc ?k) ((command_buffer s)[?k := x]) = take ?k (command_buffer s) @ [x]"
    using k Cons.prems(2) by (simp add: take_Suc_conv_app_nth)
  then show ?case
    using M l by (intro exI [of _ m] exI [of _ l']) (simp add: d r)
qed

section \<open>Idle devices\<close>

text \<open>
  No command is under way and the channels for SAVE and LOAD are not in use; a buffer is free.
\<close>

definition unused :: "u8 \<Rightarrow> 'a drive_scheme \<Rightarrow> bool" where
  "unused dev s \<longleftrightarrow> eefs_drive s \<and> dev \<noteq> 0 \<and> dev < 31 \<and> device_address s = dev \<and>
     find_buffer 0 s = None \<and> find_buffer 1 s = None \<and> (\<exists>i < 32. \<not> b_allocated (buf i s))"

definition idle :: "u8 \<Rightarrow> 'a bus_scheme \<Rightarrow> bool" where
  "idle dev s \<longleftrightarrow> unused dev s \<and> command_length s = 0 \<and> \<not> command_received s \<and> \<not> open_active s"

text \<open>The state in which a file name has been received.\<close>

definition named :: "u8 \<Rightarrow> u8 list \<Rightarrow> 'a bus_scheme \<Rightarrow> 'a bus_scheme \<Rightarrow> bool" where
  "named sa n s s' \<longleftrightarrow> (\<exists>t m l. s' = s\<lparr>ieee488_ListenActive := t, ieee488_TalkingDevice := 0, open_active := True, open_sa := sa,
       command_buffer := m, command_length := l, datacrc := 0xffff\<rparr> \<and> length m = length (command_buffer s) \<and>
     take (length n) m = n \<and> unat l = length n)"

lemma namedD:
  assumes "named sa n s s'"
  shows "take (length n) (command_buffer s') = n" "unat (command_length s') = length n" "length (command_buffer s') = length (command_buffer s)"
    "buffers s' = buffers s" "eeprom s' = eeprom s" "fs_ok s' fl = fs_ok s fl" "used_entries s' = used_entries s"
    "free_sectors s' = free_sectors s" "find_buffer k s' = find_buffer k s"
    "partitions s' = partitions s" "current_part s' = current_part s" "device_address s' = device_address s"
    "command_received s' = command_received s" "eefs_drive s' = eefs_drive s" "unused dev s' = unused dev s"
  using assms by (auto simp: named_def fs_ok_def find_buffer_def first_buffer_def eefs_drive_def unused_def)

lemma bus_name:
  assumes id: "idle dev s" and n: "ns \<noteq> []" "length ns \<le> 120" and sa: "sa < 15"
  obtains s1 where "named sa (map fst ns) s s1"
    "\<And>s'. file_open (ex_fat ex) sa s1 = Some s' \<Longrightarrow>
      handle_ieee488 ex (Ev_cmd (IEEE_LISTEN OR dev) # Ev_cmd (IEEE_OPEN OR sa) # data_events ns @ Ev_cmd IEEE_UNLISTEN # evs) s =
      handle_ieee488 ex evs (s'\<lparr>ieee488_ListenActive := 0, command_received := False, open_active := False, command_length := 0\<rparr>)"
proof -
  have I: "dev < 31" "device_address s = dev" "dev \<noteq> 0" "command_length s = 0" "\<not> command_received s" "length (command_buffer s) = 122"
    using id by (simp_all add: idle_def unused_def eefs_drive_def)
  let ?s = "s\<lparr>ieee488_ListenActive := dev, ieee488_TalkingDevice := 0, open_active := True, open_sa := sa\<rparr>"
  have "unat (command_length ?s) + length ns \<le> CONFIG_COMMAND_BUFFER_SIZE" "length (command_buffer ?s) = 122" using I n by simp_all
  from listen_text_data [OF this, of IEEE_UNLISTEN evs] obtain m l where M:
    "listen_text (data_events ns @ Ev_cmd IEEE_UNLISTEN # evs) ?s = (Ev_cmd IEEE_UNLISTEN # evs, ?s\<lparr>command_buffer := m, command_length := l\<rparr>)"
    "length m = 122" "unat l = length ns" "take (length ns) m = map fst ns" using I by auto
  define s1 where "s1 = ?s\<lparr>command_buffer := m, command_length := l\<rparr>"
  have sa': "sa < 16" "sa \<noteq> 15" using sa by (auto simp: word_less_nat_alt)
  have L: "ieee488_ListenLoop (ex_fat ex) True sa (data_events ns @ Ev_cmd IEEE_UNLISTEN # evs) ?s = Some (Ev_cmd IEEE_UNLISTEN # evs, s1)"
    using M(1) sa' I by (simp add: ieee488_ListenLoop_def Let_def s1_def)
  have "named sa (map fst ns) s (s1\<lparr>datacrc := 0xffff\<rparr>)"
    unfolding named_def s1_def using M(2-4) I by (intro exI [of _ dev] exI [of _ m] exI [of _ l]) simp
  moreover have "handle_ieee488 ex (Ev_cmd (IEEE_LISTEN OR dev) # Ev_cmd (IEEE_OPEN OR sa) # data_events ns @ Ev_cmd IEEE_UNLISTEN # evs) s =
      handle_ieee488 ex evs (s'\<lparr>ieee488_ListenActive := 0, command_received := False, open_active := False, command_length := 0\<rparr>)"
    if f: "file_open (ex_fat ex) sa (s1\<lparr>datacrc := 0xffff\<rparr>) = Some s'" for s'
  proof -
    have u: "ieee488_Unlisten ex s1 =
        Some (s'\<lparr>ieee488_ListenActive := 0, command_received := False, open_active := False, command_length := 0\<rparr>)"
      using f I by (simp add: ieee488_Unlisten_def s1_def)
    have "handle_ieee488 ex (Ev_cmd (IEEE_OPEN OR sa) # data_events ns @ Ev_cmd IEEE_UNLISTEN # evs)
        (s\<lparr>ieee488_ListenActive := dev, ieee488_TalkingDevice := 0\<rparr>) = handle_ieee488 ex (Ev_cmd IEEE_UNLISTEN # evs) s1"
      using I(3) L by (intro bus_open [OF sa'(1)]) simp_all
    then show ?thesis unfolding bus_listen [OF I(1,2)] using bus_unlisten [OF u] by simp
  qed
  ultimately show ?thesis by (rule that)
qed

text \<open>The variables of the bus interface are not part of a channel.\<close>

lemma bus_fields:
  fixes s :: "'a bus_scheme"
  assumes "drive.more s' = drive.more s"
  shows "ieee488_ListenActive s' = ieee488_ListenActive s" "ieee488_TalkingDevice s' = ieee488_TalkingDevice s"
    "command_received s' = command_received s" "open_active s' = open_active s"
  using assms by (cases s, cases s', simp)+

lemma fs_ok_bus [simp]:
  "fs_ok (s\<lparr>ieee488_ListenActive := x\<rparr>) fl = fs_ok s fl" "fs_ok (s\<lparr>ieee488_TalkingDevice := x\<rparr>) fl = fs_ok s fl"
  "fs_ok (s\<lparr>command_received := b\<rparr>) fl = fs_ok s fl" "fs_ok (s\<lparr>open_active := b\<rparr>) fl = fs_ok s fl"
  "fs_ok (s\<lparr>command_length := x\<rparr>) fl = fs_ok s fl"
  by (simp_all add: fs_ok_def)

lemma writing_bus [simp]:
  "writing i f fl W (s\<lparr>ieee488_ListenActive := x\<rparr>) = writing i f fl W s" "writing i f fl W (s\<lparr>ieee488_TalkingDevice := x\<rparr>) = writing i f fl W s"
  "writing i f fl W (s\<lparr>command_received := b\<rparr>) = writing i f fl W s" "writing i f fl W (s\<lparr>open_active := b\<rparr>) = writing i f fl W s"
  "writing i f fl W (s\<lparr>command_length := x\<rparr>) = writing i f fl W s"
  by (simp_all add: writing_def)

lemma reading_bus [simp]:
  "reading i fl f D (s\<lparr>ieee488_ListenActive := x\<rparr>) = reading i fl f D s" "reading i fl f D (s\<lparr>ieee488_TalkingDevice := x\<rparr>) = reading i fl f D s"
  "reading i fl f D (s\<lparr>command_received := b\<rparr>) = reading i fl f D s" "reading i fl f D (s\<lparr>open_active := b\<rparr>) = reading i fl f D s"
  "reading i fl f D (s\<lparr>command_length := x\<rparr>) = reading i fl f D s"
  by (simp_all add: reading_def)

lemma find_buffer_bus [simp]:
  "find_buffer k (s\<lparr>ieee488_ListenActive := x\<rparr>) = find_buffer k s" "find_buffer k (s\<lparr>ieee488_TalkingDevice := x\<rparr>) = find_buffer k s"
  "find_buffer k (s\<lparr>command_received := b\<rparr>) = find_buffer k s" "find_buffer k (s\<lparr>open_active := b\<rparr>) = find_buffer k s"
  "find_buffer k (s\<lparr>command_length := x\<rparr>) = find_buffer k s"
  by (simp_all add: find_buffer_def first_buffer_def)

lemma eefs_drive_bus [simp]:
  "eefs_drive (s\<lparr>ieee488_ListenActive := x\<rparr>) = eefs_drive s" "eefs_drive (s\<lparr>ieee488_TalkingDevice := x\<rparr>) = eefs_drive s"
  "eefs_drive (s\<lparr>command_received := b\<rparr>) = eefs_drive s" "eefs_drive (s\<lparr>open_active := b\<rparr>) = eefs_drive s"
  "eefs_drive (s\<lparr>command_length := x\<rparr>) = eefs_drive s"
  by (simp_all add: eefs_drive_def)

text \<open>Ending a transmission to the device.\<close>

definition at_rest :: "'a bus_scheme \<Rightarrow> 'a bus_scheme" where
  "at_rest s = s\<lparr>ieee488_ListenActive := 0, command_received := False, open_active := False, command_length := 0\<rparr>"

lemma bus_end:
  "\<not> command_received s \<Longrightarrow> \<not> open_active s \<Longrightarrow>
   handle_ieee488 ex (Ev_cmd IEEE_UNLISTEN # evs) s = handle_ieee488 ex evs (at_rest s)"
  by (intro bus_unlisten) (simp add: ieee488_Unlisten_def at_rest_def)

lemma opened_drive:
  assumes "opened i sa s s'" "eefs_drive s"
  shows "eefs_drive s'"
proof -
  have "length (b_data (buf j s')) = 256" if "j < 32" for j
    using assms that by (cases "j = i") (simp_all add: opened_def eefs_drive_def)
  then show ?thesis using assms by (simp add: opened_def eefs_drive_def same_cfg_def)
qed

definition same_disk :: "'a drive_scheme \<Rightarrow> 'a drive_scheme \<Rightarrow> bool" where
  "same_disk s s' \<longleftrightarrow> partitions s' = partitions s \<and> current_part s' = current_part s \<and>
     device_address s' = device_address s \<and> length (command_buffer s') = length (command_buffer s)"

lemma same_diskI: "same_cfg s s' \<Longrightarrow> same_disk s s'" "kept s s' \<Longrightarrow> same_disk s s'" "in_buf i s s' \<Longrightarrow> same_disk s s'"
  using kept_cfg [of s s'] by (simp_all add: same_cfg_def same_disk_def in_buf_def)

lemma same_disk_trans: "same_disk s s' \<Longrightarrow> same_disk s' s'' \<Longrightarrow> same_disk s s''"
  by (simp add: same_disk_def)

lemma same_disk_bus [simp]:
  "same_disk s (at_rest s') = same_disk s s'" "same_disk s (s'\<lparr>ieee488_ListenActive := x\<rparr>) = same_disk s s'"
  "same_disk s (s'\<lparr>ieee488_TalkingDevice := x\<rparr>) = same_disk s s'"
  "same_disk (at_rest s) s' = same_disk s s'" "same_disk (s\<lparr>ieee488_ListenActive := x\<rparr>) s' = same_disk s s'"
  "same_disk (s\<lparr>ieee488_TalkingDevice := x\<rparr>) s' = same_disk s s'"
  by (simp_all add: same_disk_def at_rest_def)

lemma at_rest_simps [simp]:
  "buffers (at_rest s) = buffers s" "eeprom (at_rest s) = eeprom s" "fs_ok (at_rest s) fl = fs_ok s fl"
  "writing i f fl W (at_rest s) = writing i f fl W s" "reading i fl f D (at_rest s) = reading i fl f D s"
  "find_buffer k (at_rest s) = find_buffer k s" "device_address (at_rest s) = device_address s"
  "\<not> command_received (at_rest s)" "\<not> open_active (at_rest s)" "command_length (at_rest s) = 0"
  "ieee488_ListenActive (at_rest s) = 0" "free_sectors (at_rest s) = free_sectors s" "used_entries (at_rest s) = used_entries s"
  by (simp_all add: at_rest_def)

text \<open>Closing the only channel that was opened: the device is idle again.\<close>

lemma idle_again:
  assumes id: "unused dev s" and op: "opened i sa s s1"
    and fr: "same_disk s1 s2" "\<forall>j. j \<noteq> i \<longrightarrow> buf j s2 = buf j s1" "length (buffers s2) = 33"
      "\<not> b_allocated (buf i s2)" "length (b_data (buf i s2)) = 256"
    and r: "\<not> command_received s2" "\<not> open_active s2" "command_length s2 = 0"
  shows "idle dev s2"
proof -
  have i: "i < 32" using op by (simp add: opened_def)
  have cfg: "same_disk s s2" using same_disk_trans [OF same_diskI(1) fr(1)] op by (simp add: opened_def)
  have f: "find_buffer k s2 = None" if "find_buffer k s = None" for k
  proof (rule find_buffer_NoneI)
    fix j assume j: "j < 33" "b_allocated (buf j s2)"
    then have "j \<noteq> i" using fr(4) by auto
    then have "b_allocated (buf j s) \<and> b_secondary (buf j s) = b_secondary (buf j s2)"
      using j fr(2) op by (cases "j = 32") (auto simp: opened_def)
    then show "b_secondary (buf j s2) \<noteq> k" using find_buffer_None [OF that j(1)] by metis
  qed
  have "eefs_drive s1" using opened_drive [OF op] id by (simp add: unused_def)
  then have "length (b_data (buf j s2)) = 256" if "j < 32" for j
    using fr(2,5) that by (cases "j = i") (simp_all add: eefs_drive_def)
  moreover have "b_allocated (buf 32 s2) \<and> b_secondary (buf 32 s2) = 15"
    using fr(2) i op id by (simp add: opened_def unused_def eefs_drive_def)
  ultimately have "eefs_drive s2" using cfg fr(3) id by (simp add: eefs_drive_def unused_def same_disk_def)
  moreover have "\<exists>j < 32. \<not> b_allocated (buf j s2)" using fr(4) i by blast
  ultimately show ?thesis using id f cfg r by (simp add: idle_def unused_def same_disk_def)
qed

section \<open>SAVE\<close>

definition save_events :: "u8 \<Rightarrow> (u8 \<times> bool) list \<Rightarrow> (u8 \<times> bool) list \<Rightarrow> bus_event list" where
  "save_events dev ns ds =
     [Ev_cmd (IEEE_LISTEN OR dev), Ev_cmd (IEEE_OPEN OR 1)] @ data_events ns @ [Ev_cmd IEEE_UNLISTEN] @
     [Ev_cmd (IEEE_LISTEN OR dev), Ev_cmd (IEEE_SECONDARY OR 1)] @ data_events ds @ [Ev_cmd IEEE_UNLISTEN] @
     [Ev_cmd (IEEE_LISTEN OR dev), Ev_cmd (IEEE_CLOSE OR 1), Ev_cmd IEEE_UNLISTEN]"

text \<open>The data phase of SAVE.\<close>

lemma bus_data:
  assumes s: "device_address s = dev" "dev < 31" "dev \<noteq> 0" "\<not> command_received s" "\<not> open_active s"
    and w: "writing i f fl [] s" "find_buffer 1 s = Some i" "fits (length ds) fl"
  obtains f' s' where "handle_ieee488 ex (Ev_cmd (IEEE_LISTEN OR dev) # Ev_cmd (IEEE_SECONDARY OR 1) # data_events ds @ Ev_cmd IEEE_UNLISTEN # evs) s =
      handle_ieee488 ex evs (at_rest s')" "writing i f' fl (map fst ds) s'" "same_file f f'"
    "in_buf i (s\<lparr>ieee488_ListenActive := dev, ieee488_TalkingDevice := 0\<rparr>) s'"
    "\<forall>j \<in> set (all_secs fl). sec (eeprom s') j = sec (eeprom s) j"
proof -
  let ?s = "s\<lparr>ieee488_ListenActive := dev, ieee488_TalkingDevice := 0\<rparr>" and ?evs = "Ev_cmd IEEE_UNLISTEN # evs"
  have W: "writing i f fl [] ?s" "find_buffer 1 ?s = Some i" "fits (length ([] :: u8 list) + length ds) fl" using w by simp_all
  obtain f' s' where L: "listen_data (ex_fat ex) 1 i (data_events ds @ ?evs) ?s = listen_data (ex_fat ex) 1 i ?evs s'"
    "writing i f' fl ([] @ map fst ds) s'" "same_file f f'" "in_buf i ?s s'" "\<forall>j \<in> set (all_secs fl). sec (eeprom s') j = sec (eeprom ?s) j"
    using listen_writing [OF W] by blast
  have wr: "b_write (buf i ?s)" using w(1) by (simp add: writing_def wbuf_ok_def)
  have loop: "ieee488_ListenLoop (ex_fat ex) False 1 (data_events ds @ ?evs) ?s = Some (?evs, s')"
    using w(2) wr s(4) L(1) by (simp add: ieee488_ListenLoop_def Let_def)
  have "drive.more s' = drive.more ?s" using L(4) kept_cfg [of ?s s'] by (simp add: in_buf_def same_cfg_def)
  note B = bus_fields [OF this]
  have "handle_ieee488 ex (Ev_cmd (IEEE_SECONDARY OR 1) # data_events ds @ ?evs) ?s = handle_ieee488 ex ?evs s'"
    using s(3) loop by (intro bus_write) simp_all
  then have "handle_ieee488 ex (Ev_cmd (IEEE_LISTEN OR dev) # Ev_cmd (IEEE_SECONDARY OR 1) # data_events ds @ ?evs) s =
      handle_ieee488 ex evs (at_rest s')"
    using bus_listen [OF s(2,1)] bus_end [of s'] B s(4,5) by simp
  then show ?thesis using that L by simp
qed

text \<open>The end of SAVE and LOAD.\<close>

lemma bus_close_chan:
  assumes s: "device_address s = dev" "dev < 31" "dev \<noteq> 0" "\<not> command_received s" "\<not> open_active s" "sa < 15"
    and c: "find_buffer sa s = Some i"
      "cleanup_and_free_buffer run_cleanup i (s\<lparr>ieee488_ListenActive := dev, ieee488_TalkingDevice := 0\<rparr>) = Some s'"
      "kept (s\<lparr>ieee488_ListenActive := dev, ieee488_TalkingDevice := 0\<rparr>) s'"
  shows "handle_ieee488 ex (Ev_cmd (IEEE_LISTEN OR dev) # Ev_cmd (IEEE_CLOSE OR sa) # Ev_cmd IEEE_UNLISTEN # evs) s =
      handle_ieee488 ex evs (at_rest s')"
proof -
  let ?s = "s\<lparr>ieee488_ListenActive := dev, ieee488_TalkingDevice := 0\<rparr>"
  have sa: "sa < 16" "sa \<noteq> 15" using s(6) by (auto simp: word_less_nat_alt)
  have "drive.more s' = drive.more ?s" using kept_cfg [OF c(3)] by (simp add: same_cfg_def)
  note B = bus_fields [OF this]
  have "handle_ieee488 ex (Ev_cmd (IEEE_CLOSE OR sa) # Ev_cmd IEEE_UNLISTEN # evs) ?s = handle_ieee488 ex (Ev_cmd IEEE_UNLISTEN # evs) s'"
    using s(3) c(1,2) sa(2) by (intro bus_close [OF sa(1)]) (simp_all add: close_channel_def)
  then show ?thesis using bus_listen [OF s(2,1)] bus_end [of s'] B s(4,5) by simp
qed

lemma save_session:
  assumes id: "idle dev s" and fs: "fs_ok s fl" "\<exists>k < 8. \<not> bm_get (used_entries s) k"
    and n: "plain_name (map fst ns)" "\<forall>f \<in> set fl. cstr (shown (af_name f)) \<noteq> map fst ns" and fit: "fits (length ds) fl"
  obtains f s' where "handle_ieee488 ex (save_events dev ns ds @ evs) s = handle_ieee488 ex evs s'" "idle dev s'"
    "fs_ok s' (f # fl)" "af_name f = pad_name (map fst ns)" "file_data (eeprom s') f = map fst ds"
    "\<forall>j \<in> set (all_secs fl). sec (eeprom s') j = sec (eeprom s) j"
proof -
  let ?n = "map fst ns"
  let ?E3 = "[Ev_cmd (IEEE_LISTEN OR dev), Ev_cmd (IEEE_CLOSE OR 1), Ev_cmd IEEE_UNLISTEN] @ evs"
  let ?E2 = "[Ev_cmd (IEEE_LISTEN OR dev), Ev_cmd (IEEE_SECONDARY OR 1)] @ data_events ds @ [Ev_cmd IEEE_UNLISTEN] @ ?E3"
  have ns: "ns \<noteq> []" "length ns \<le> 120" using plain_nameD(1,2) [OF n(1)] by simp_all
  obtain s1 where S1: "named 1 ?n s s1"
    "\<And>s'. file_open (ex_fat ex) 1 s1 = Some s' \<Longrightarrow>
      handle_ieee488 ex (Ev_cmd (IEEE_LISTEN OR dev) # Ev_cmd (IEEE_OPEN OR 1) # data_events ns @ Ev_cmd IEEE_UNLISTEN # ?E2) s =
      handle_ieee488 ex ?E2 (s'\<lparr>ieee488_ListenActive := 0, command_received := False, open_active := False, command_length := 0\<rparr>)"
    by (rule bus_name [OF id ns, where sa = 1 and ex = ex and evs = ?E2]) auto
  note N = namedD [OF S1(1)]
  have un: "unused dev s1" using id N(15) by (simp add: idle_def)
  then have u: "eefs_drive s1" "find_buffer 1 s1 = None" "\<exists>i < 32. \<not> b_allocated (buf i s1)" "dev < 31" "dev \<noteq> 0" "device_address s1 = dev"
    by (simp_all add: unused_def)
  have fs1: "fs_ok s1 fl" "\<exists>k < 8. \<not> bm_get (used_entries s1) k" using fs N(6,7) by simp_all
  obtain i f s2 where S2: "file_open (ex_fat ex) 1 s1 = Some s2" "writing i f fl [] s2" "af_name f = pad_name ?n"
    "\<forall>k. sec (eeprom s2) k = sec (eeprom s1) k" "opened i 1 s1 s2"
    by (rule open_save [OF u(1) n(1) N(1,2) u(2,3) fs1 n(2)])
  note fb2 = opened_find [OF S2(5) u(2)]
  have a2: "device_address (at_rest s2) = dev" using S2(5) u(6) by (simp add: opened_def same_cfg_def)
  have w2: "writing i f fl [] (at_rest s2)" "find_buffer 1 (at_rest s2) = Some i" using S2(2) fb2 by simp_all
  obtain f3 s3 where S3: "handle_ieee488 ex (Ev_cmd (IEEE_LISTEN OR dev) # Ev_cmd (IEEE_SECONDARY OR 1) # data_events ds @ Ev_cmd IEEE_UNLISTEN # ?E3) (at_rest s2) =
      handle_ieee488 ex ?E3 (at_rest s3)" "writing i f3 fl (map fst ds) s3" "same_file f f3"
    "in_buf i ((at_rest s2)\<lparr>ieee488_ListenActive := dev, ieee488_TalkingDevice := 0\<rparr>) s3"
    "\<forall>j \<in> set (all_secs fl). sec (eeprom s3) j = sec (eeprom (at_rest s2)) j"
    by (rule bus_data [OF a2 u(4,5) _ _ w2 fit, where ex = ex and evs = ?E3]) simp_all
  define s3r where "s3r = (at_rest s3)\<lparr>ieee488_ListenActive := dev, ieee488_TalkingDevice := 0\<rparr>"
  have d3: "same_disk s2 s3" using same_diskI(3) [OF S3(4)] by simp
  have a3: "device_address (at_rest s3) = dev" using d3 a2 by (simp add: same_disk_def)
  have fb3: "find_buffer 1 (at_rest s3) = Some i"
    using S3(4) find_buffer_owners [of _ s3 1] fb2 by (auto simp: in_buf_def)
  have "b_secondary (buf i s3r) \<noteq> 15" using find_buffer_Some [OF fb3] by (simp add: s3r_def)
  moreover have "writing i f3 fl (map fst ds) s3r" using S3(2) by (simp add: s3r_def)
  ultimately obtain s4 f4 where S4: "cleanup_and_free_buffer run_cleanup i s3r = Some s4" "fs_ok s4 (f4 # fl)" "af_name f4 = af_name f3"
    "file_data (eeprom s4) f4 = map fst ds" "\<forall>j \<in> set (all_secs fl). sec (eeprom s4) j = sec (eeprom s3r) j"
    "kept s3r s4" "length (buffers s4) = 33" "\<forall>j. j \<noteq> i \<longrightarrow> buf j s4 = buf j s3r" "\<not> b_allocated (buf i s4)"
    "length (b_data (buf i s4)) = 256"
    using close_writing [of i f3 fl "map fst ds" s3r] fit by (metis length_map)
  have run: "handle_ieee488 ex ?E3 (at_rest s3) = handle_ieee488 ex evs (at_rest s4)"
    using bus_close_chan [OF a3 u(4,5) _ _ _ fb3, where ex = ex and evs = evs and s' = s4] S4(1,6) by (simp add: s3r_def [symmetric])
  have d4: "same_disk s2 (at_rest s4)" using same_disk_trans [OF d3, of s4] same_diskI(2) [OF S4(6)] by (simp add: s3r_def)
  have "idle dev (at_rest s4)"
    by (rule idle_again [OF un S2(5) d4]) (use S4(7-10) S3(4) in \<open>simp_all add: in_buf_def s3r_def\<close>)
  moreover have "handle_ieee488 ex (save_events dev ns ds @ evs) s = handle_ieee488 ex evs (at_rest s4)"
    using S1(2) [OF S2(1)] S3(1) run unfolding save_events_def at_rest_def by simp
  moreover have "af_name f4 = pad_name ?n" using S4(3) S3(3) S2(3) by (simp add: same_file_def)
  moreover have "\<forall>j \<in> set (all_secs fl). sec (eeprom s4) j = sec (eeprom s) j"
    using S4(5) S3(5) S2(4) N(5) by (simp add: s3r_def)
  ultimately show ?thesis using that S4(2,4) by simp
qed

section \<open>LOAD\<close>

definition load_events :: "u8 \<Rightarrow> (u8 \<times> bool) list \<Rightarrow> nat \<Rightarrow> bus_event list" where
  "load_events dev ns k =
     [Ev_cmd (IEEE_LISTEN OR dev), Ev_cmd (IEEE_OPEN OR 0)] @ data_events ns @ [Ev_cmd IEEE_UNLISTEN] @
     [Ev_cmd (IEEE_TALK OR dev), Ev_cmd (IEEE_SECONDARY OR 0)] @ replicate k Ev_take @ [Ev_cmd IEEE_UNTALK] @
     [Ev_cmd (IEEE_LISTEN OR dev), Ev_cmd (IEEE_CLOSE OR 0), Ev_cmd IEEE_UNLISTEN]"

lemma close_reading:
  assumes "i < length (buffers s)" "b_secondary (buf i s) \<noteq> 15" "b_allocated (buf i s)" "b_cleanup (buf i s) = Cleanup_dummy"
  shows "cleanup_and_free_buffer run_cleanup i s = Some (free_buffer (Some i) s)"
  using assms by (simp add: cleanup_and_free_buffer_def run_cleanup_def callback_dummy_def)

text \<open>
  LOAD from a channel that delivers the bytes \<open>D\<close>, up to the end of the session; \<open>Q\<close> is a property of
  the file system.
\<close>

lemma load_tail:
  assumes un: "unused dev s1" and op: "opened i 0 s1 s2" and rd: "b_read (buf i s2)" "b_cleanup (buf i s2) = Cleanup_dummy"
    and Q: "\<And>s s'. same_eefs s s' \<Longrightarrow> Q s \<Longrightarrow> Q s'"
    and talk: "\<exists>s'. talk_data (ex_fat ex) 0 i (replicate k Ev_take @ Ev_cmd IEEE_UNTALK # Ev_cmd (IEEE_LISTEN OR dev) #
        Ev_cmd (IEEE_CLOSE OR 0) # Ev_cmd IEEE_UNLISTEN # evs) ((at_rest s2)\<lparr>ieee488_TalkingDevice := dev, ieee488_ListenActive := 0\<rparr>) =
        Some (out, Ev_cmd IEEE_UNTALK # Ev_cmd (IEEE_LISTEN OR dev) # Ev_cmd (IEEE_CLOSE OR 0) # Ev_cmd IEEE_UNLISTEN # evs, s') \<and> Q s' \<and>
        in_buf i ((at_rest s2)\<lparr>ieee488_TalkingDevice := dev, ieee488_ListenActive := 0\<rparr>) s' \<and>
        b_cleanup (buf i s') = b_cleanup (buf i s2) \<and> length (b_data (buf i s')) = 256"
  obtains s' where "handle_ieee488 ex ([Ev_cmd (IEEE_TALK OR dev), Ev_cmd (IEEE_SECONDARY OR 0)] @ replicate k Ev_take @
      [Ev_cmd IEEE_UNTALK, Ev_cmd (IEEE_LISTEN OR dev), Ev_cmd (IEEE_CLOSE OR 0), Ev_cmd IEEE_UNLISTEN] @ evs) (at_rest s2) =
      map_option (apfst ((@) out)) (handle_ieee488 ex evs s')" "idle dev s'" "Q s'"
proof -
  let ?E3 = "Ev_cmd (IEEE_LISTEN OR dev) # Ev_cmd (IEEE_CLOSE OR 0) # Ev_cmd IEEE_UNLISTEN # evs"
  let ?s = "(at_rest s2)\<lparr>ieee488_TalkingDevice := dev, ieee488_ListenActive := 0\<rparr>" and ?evs = "Ev_cmd IEEE_UNTALK # ?E3"
  have u: "find_buffer 0 s1 = None" "dev < 31" "dev \<noteq> 0" "device_address s1 = dev" "eefs_drive s1" using un by (simp_all add: unused_def)
  have a2: "device_address (at_rest s2) = dev" using op u(4) by (simp add: opened_def same_cfg_def)
  have fb2: "find_buffer 0 ?s = Some i" using opened_find [OF op u(1)] by simp
  obtain s3 where T: "talk_data (ex_fat ex) 0 i (replicate k Ev_take @ ?evs) ?s = Some (out, ?evs, s3)" "Q s3" "in_buf i ?s s3"
    "b_cleanup (buf i s3) = Cleanup_dummy" "length (b_data (buf i s3)) = 256"
    using talk rd(2) by auto
  have loop: "ieee488_TalkLoop (ex_fat ex) 0 (replicate k Ev_take @ ?evs) ?s = Some (out, ?evs, s3)"
    using fb2 rd(1) T(1) by (simp add: ieee488_TalkLoop_def)
  have "handle_ieee488 ex (Ev_cmd (IEEE_SECONDARY OR 0) # replicate k Ev_take @ ?evs) ?s =
      map_option (apfst ((@) out)) (handle_ieee488 ex ?evs s3)"
    using u(3) loop by (intro bus_read) simp_all
  then have run1: "handle_ieee488 ex (Ev_cmd (IEEE_TALK OR dev) # Ev_cmd (IEEE_SECONDARY OR 0) # replicate k Ev_take @ ?evs) (at_rest s2) =
      map_option (apfst ((@) out)) (handle_ieee488 ex ?E3 (ieee488_Untalk s3))"
    using bus_talk [OF u(2) a2] bus_untalk [of ex ?E3 s3] by simp
  have d3: "same_disk s2 s3" using same_diskI(3) [OF T(3)] by simp
  have B: "\<not> command_received s3" "\<not> open_active s3"
    using bus_fields(3,4) [of s3 ?s] T(3) kept_cfg [of ?s s3] by (simp_all add: in_buf_def same_cfg_def)
  define s3r where "s3r = (ieee488_Untalk s3)\<lparr>ieee488_ListenActive := dev, ieee488_TalkingDevice := 0\<rparr>"
  have fb3: "find_buffer 0 (ieee488_Untalk s3) = Some i"
    using T(3) find_buffer_owners [of ?s s3 0] fb2 by (simp add: in_buf_def ieee488_Untalk_def)
  have i3: "i < 32" "length (buffers s3) = 33"
    using op T(3) u(5) by (simp_all add: opened_def in_buf_def same_owners_def eefs_drive_def)
  have b3: "b_secondary (buf i s3r) \<noteq> 15" "b_allocated (buf i s3r)" "b_cleanup (buf i s3r) = Cleanup_dummy" "i < length (buffers s3r)"
    using find_buffer_Some [OF fb3] T(4) i3 by (simp_all add: s3r_def ieee488_Untalk_def)
  define s4 where "s4 = free_buffer (Some i) s3r"
  note F = free_buffer_frame [OF b3(4,1,2), folded s4_def]
  have clean: "cleanup_and_free_buffer run_cleanup i s3r = Some s4" unfolding s4_def by (rule close_reading [OF b3(4,1,2,3)])
  have a3: "device_address (ieee488_Untalk s3) = dev" using d3 a2 by (simp add: same_disk_def ieee488_Untalk_def)
  have run2: "handle_ieee488 ex ?E3 (ieee488_Untalk s3) = handle_ieee488 ex evs (at_rest s4)"
    using bus_close_chan [OF a3 u(2,3) _ _ _ fb3, where ex = ex and evs = evs and s' = s4] clean F(1) B
    by (simp add: s3r_def ieee488_Untalk_def)
  have d4: "same_disk s2 (at_rest s4)"
    using same_disk_trans [OF d3, of s4] same_diskI(2) [OF F(1)] by (simp add: s3r_def ieee488_Untalk_def)
  have "idle dev (at_rest s4)"
    by (rule idle_again [OF un op d4]) (use F(3) i3 T(3,5) in \<open>simp_all add: in_buf_def s3r_def ieee488_Untalk_def\<close>)
  moreover have "same_eefs s3 s4" using F(2) by (simp add: same_eefs_def s3r_def ieee488_Untalk_def)
  then have "same_eefs s3 (at_rest s4)" by (simp add: same_eefs_def at_rest_def)
  then have "Q (at_rest s4)" using Q T(2) by blast
  ultimately show ?thesis using that [of "at_rest s4"] run1 run2 by simp
qed

lemma load_session:
  assumes id: "idle dev s" and fs: "fs_ok s fl" "f \<in> set fl" "0 < unat (af_size f)"
    and n: "plain_name (map fst ns)" "selected (map fst ns) fl = Some f" "af_name f = pad_name (map fst ns)"
  obtains s' where "handle_ieee488 ex (load_events dev ns (unat (af_size f)) @ evs) s =
      map_option (apfst ((@) (with_eoi (file_data (eeprom s) f)))) (handle_ieee488 ex evs s')"
    "idle dev s'" "fs_ok s' fl" "eeprom s' = eeprom s"
proof -
  let ?n = "map fst ns" and ?D = "file_data (eeprom s) f"
  let ?E2 = "[Ev_cmd (IEEE_TALK OR dev), Ev_cmd (IEEE_SECONDARY OR 0)] @ replicate (unat (af_size f)) Ev_take @
      [Ev_cmd IEEE_UNTALK, Ev_cmd (IEEE_LISTEN OR dev), Ev_cmd (IEEE_CLOSE OR 0), Ev_cmd IEEE_UNLISTEN] @ evs"
  have ns: "ns \<noteq> []" "length ns \<le> 120" using plain_nameD(1,2) [OF n(1)] by simp_all
  obtain s1 where S1: "named 0 ?n s s1"
    "\<And>s'. file_open (ex_fat ex) 0 s1 = Some s' \<Longrightarrow>
      handle_ieee488 ex (Ev_cmd (IEEE_LISTEN OR dev) # Ev_cmd (IEEE_OPEN OR 0) # data_events ns @ Ev_cmd IEEE_UNLISTEN # ?E2) s =
      handle_ieee488 ex ?E2 (s'\<lparr>ieee488_ListenActive := 0, command_received := False, open_active := False, command_length := 0\<rparr>)"
    by (rule bus_name [OF id ns, where sa = 0 and ex = ex and evs = ?E2]) auto
  note N = namedD [OF S1(1)]
  have un: "unused dev s1" using id N(15) by (simp add: idle_def)
  then have u: "eefs_drive s1" "find_buffer 0 s1 = None" "\<exists>i < 32. \<not> b_allocated (buf i s1)" by (simp_all add: unused_def)
  have fs1: "fs_ok s1 fl" using fs(1) N(6) by simp
  obtain i s2 where S2: "file_open (ex_fat ex) 0 s1 = Some s2" "reading i fl f (file_data (eeprom s1) f) s2" "eeprom s2 = eeprom s1"
    "opened i 0 s1 s2" "b_cleanup (buf i s2) = Cleanup_dummy"
    by (rule open_load [OF u(1) n(1) N(1,2) u(2,3) fs1 fs(2,3) n(2,3)])
  have k: "unat (af_size f) = length ?D" by (rule length_file_data [OF fs(1,2), symmetric])
  let ?s = "(at_rest s2)\<lparr>ieee488_TalkingDevice := dev, ieee488_ListenActive := 0\<rparr>"
  have r: "reading i fl f ?D ?s" "find_buffer 0 ?s = Some i" "(0 :: u8) \<noteq> 15" "eeprom ?s = eeprom s"
    using S2(2,3) N(5) opened_find [OF S2(4) u(2)] by simp_all
  have Q: "fs_ok t' fl \<and> eeprom t' = eeprom s" if "same_eefs t t'" "fs_ok t fl \<and> eeprom t = eeprom s" for t t' :: "'a bus_scheme"
    using same_eefsD(1,3) [OF that(1)] that(2) by simp
  obtain s' where L: "handle_ieee488 ex ?E2 (at_rest s2) = map_option (apfst ((@) (with_eoi ?D))) (handle_ieee488 ex evs s')" "idle dev s'"
    "fs_ok s' fl \<and> eeprom s' = eeprom s"
  proof (rule load_tail [OF un S2(4) _ S2(5), where Q = "\<lambda>s'. fs_ok s' fl \<and> eeprom s' = eeprom s" and out = "with_eoi ?D" and evs = evs
        and k = "unat (af_size f)" and ex = ex])
    show "\<exists>s'. talk_data (ex_fat ex) 0 i (replicate (unat (af_size f)) Ev_take @ Ev_cmd IEEE_UNTALK # Ev_cmd (IEEE_LISTEN OR dev) #
        Ev_cmd (IEEE_CLOSE OR 0) # Ev_cmd IEEE_UNLISTEN # evs) ?s =
        Some (with_eoi ?D, Ev_cmd IEEE_UNTALK # Ev_cmd (IEEE_LISTEN OR dev) # Ev_cmd (IEEE_CLOSE OR 0) # Ev_cmd IEEE_UNLISTEN # evs, s') \<and>
        (fs_ok s' fl \<and> eeprom s' = eeprom s) \<and> in_buf i ?s s' \<and> b_cleanup (buf i s') = b_cleanup (buf i s2) \<and> length (b_data (buf i s')) = 256"
      using talk_reading [OF r(1-3), where fat = "ex_fat ex"] r(4) unfolding k by simp
  qed (use readingD(6) [OF S2(2)] Q in auto)
  have "handle_ieee488 ex (load_events dev ns (unat (af_size f)) @ evs) s = map_option (apfst ((@) (with_eoi ?D))) (handle_ieee488 ex evs s')"
    using S1(2) [OF S2(1)] L(1) unfolding load_events_def at_rest_def by simp
  then show ?thesis using that L(2,3) by blast
qed

end
