(* ===== verification/Bus_Props.thy ===== *)
theory Bus_Props
  imports Bus_Session Eepromfs_Props
begin

text \<open>
  SAVE and LOAD over the IEEE-488 bus, stated over the files that the EEPROM file system
  holds.
\<close>

section \<open>A device\<close>

text \<open>Device 8 with an empty EEPROM file system as its only partition, after \<open>buffers_init\<close>.\<close>

definition bus0 :: bus where
  "bus0 = buffers_init \<lparr>ops_scratch = replicate 33 0, eeprom = (\<lambda>_. 0xff), used_sectors = replicate 7 0,
     used_entries = [0], free_sectors = 52,
     buffers = replicate CONFIG_BUFFER_COUNT (buf_zero 256) @ [buf_zero CONFIG_ERROR_BUFFER_SIZE],
     active_buffers = 0, current_error = 0, led_state = 0, busy_led = False, dirty_led = False,
     partitions = [part_zero\<lparr>pt_fop := EEFSOPS\<rparr>], current_part = 0, max_part = 1,
     eefs_partition = 0, bam_buffer = None, bam_buffer2 = None, bam_refcount = 0, ec_part = 0,
     ec_track = 0, ec_errors = replicate 40 0, io_script = [],
     rtc = \<lparr>tm_sec = 0, tm_min = 0, tm_hour = 0, tm_mday = 1, tm_mon = 0, tm_year = 80, tm_wday = 0\<rparr>,
     file_extension_mode = 0, image_as_dir = 0, extension_hiding = False, postmatch = False,
     rom_filename = [], versionstr = [], longverstr = [],
     flags_rest = 0, device_address = 8, active_bus = 0, menu_system_enabled = 0, lcd_contrast = 0, lcd_brightness = 0,
     key_sel = False, key_next = False,
     command_buffer = replicate (CONFIG_COMMAND_BUFFER_SIZE + 2) 0, command_length = 0, original_length = 0,
     matchdh = \<lparr>dh_part = 0, dh_fat = fatdir_zero, dh_d64 = d64dh_zero, dh_eefs = 0\<rparr>,
     date_match_start = date_zero, date_match_end = date_zero, previous_file_dirent = dirent_zero,
     previous_file_path = \<lparr>path_part = 0, path_dir = pt_current_dir part_zero\<rparr>, dir_changed = False, disk_state = DISK_OK,
     rtc_state = RTC_NOT_FOUND, datacrc = 0, detected_loader = FL_NONE, previous_loader = FL_NONE, fast_rxtx = RXTX_NONE,
     capture_buffer = None, capture_address = 0, capture_remain = 0, capture_offset = 0, was_reset = False,
     stack_dirent = dirent_zero,
     ieee488_ListenActive = 0, ieee488_TalkingDevice = 0, command_received = False, open_active = False, open_sa = 0\<rparr>"

lemma bus0_fs: "fs_ok bus0 []"
proof -
  have "eeprom bus0 = eeprom blank" "used_sectors bus0 = used_sectors blank" "used_entries bus0 = used_entries blank"
    "free_sectors bus0 = free_sectors blank" "length (ops_scratch bus0) = length (ops_scratch blank)"
    by (simp_all add: bus0_def buffers_init_def upd_buf_def blank_def)
  then show ?thesis using fs_ok_blank by (simp add: fs_ok_def)
qed

lemma bus0_holds: "holds bus0 Map.empty"
  by (rule holdsI [OF bus0_fs]) simp

lemma bus0_idle: "idle 8 bus0"
proof -
  have b: "\<not> b_allocated (buf i bus0)" "length (b_data (buf i bus0)) = 256" if "i < 32" for i
    using that by (simp_all add: bus0_def buffers_init_def upd_buf_def buf_clear_def buf_zero_def nth_append)
  have e: "b_allocated (buf 32 bus0)" "b_secondary (buf 32 bus0) = 15"
    by (simp_all add: bus0_def buffers_init_def upd_buf_def buf_clear_def)
  have "find_buffer k bus0 = None" if k: "k \<noteq> 15" for k
  proof (rule find_buffer_NoneI)
    fix i assume i: "i < 33" "b_allocated (buf i bus0)"
    then have "\<not> i < 32" using b(1) by blast
    then have "i = 32" using i(1) by simp
    then show "b_secondary (buf i bus0) \<noteq> k" using e(2) k by simp
  qed
  moreover have "\<exists>i < 32. \<not> b_allocated (buf i bus0)" using b(1) [of 0] by (intro exI [of _ 0]) simp
  moreover have "length (buffers bus0) = 33" "command_length bus0 = 0" "\<not> command_received bus0" "\<not> open_active bus0"
    "device_address bus0 = 8" "current_part bus0 = 0" "partitions bus0 = [part_zero\<lparr>pt_fop := EEFSOPS\<rparr>]"
    "length (command_buffer bus0) = 122"
    by (simp_all add: bus0_def buffers_init_def upd_buf_def)
  ultimately show ?thesis using b(2) e unfolding idle_def unused_def eefs_drive_def by simp
qed

lemma bus0_entry: "\<exists>k < 8. \<not> bm_get (used_entries bus0) k"
  using entry_free_blank [of 0] by (intro exI [of _ 0]) (simp add: bus0_def buffers_init_def upd_buf_def blank_def)

lemma bus0_free: "unat (free_sectors bus0) = 52"
  by (simp add: bus0_def buffers_init_def upd_buf_def)

section \<open>SAVE and LOAD\<close>

lemma map_fst_with_eoi: "d \<noteq> [] \<Longrightarrow> map fst (with_eoi d) = d"
  by (simp add: with_eoi_def o_def)

lemma length_with_eoi: "d \<noteq> [] \<Longrightarrow> length (with_eoi d) = length d"
  by (simp add: with_eoi_def)

lemma store_name:
  assumes "fs_ok s fl" "store (eeprom s) fl k = Some d"
  obtains f where "f \<in> set fl" "af_name f = k" "file_data (eeprom s) f = d"
  using assms(2) by (auto simp: store_def dest!: map_of_SomeD)

lemma bus_save_step:
  assumes id: "idle dev s" and st: "holds s st" "\<exists>k < 8. \<not> bm_get (used_entries s) k"
    and n: "plain_name n" "\<forall>k \<in> dom st. cstr (shown k) \<noteq> n"
    and d: "d \<noteq> []" "length d \<le> 768" "length d \<le> 64 * unat (free_sectors s)"
  obtains s' where "handle_ieee488 ex (save_events dev (with_eoi n) (with_eoi d) @ evs) s = handle_ieee488 ex evs s'"
    "idle dev s'" "holds s' (st(pad_name n \<mapsto> d))"
proof -
  obtain fl where fl: "fs_ok s fl" "store (eeprom s) fl = st" using st(1) by (auto simp: holds_def)
  have nm: "map fst (with_eoi n) = n" "map fst (with_eoi d) = d" "length (with_eoi d) = length d"
    using plain_nameD(1) [OF n(1)] d(1) by (simp_all add: map_fst_with_eoi length_with_eoi)
  have fit: "fits (length (with_eoi d)) fl" using d nm(3) fs_okD(13) [OF fl(1)] by (simp add: fits_def)
  have free: "\<forall>f \<in> set fl. cstr (shown (af_name f)) \<noteq> map fst (with_eoi n)"
    using n(2) fl(2) dom_store [of "eeprom s" fl] nm(1) by auto
  have pn: "plain_name (map fst (with_eoi n))" using n(1) nm(1) by simp
  obtain f s' where S: "handle_ieee488 ex (save_events dev (with_eoi n) (with_eoi d) @ evs) s = handle_ieee488 ex evs s'" "idle dev s'"
    "fs_ok s' (f # fl)" "af_name f = pad_name (map fst (with_eoi n))" "file_data (eeprom s') f = map fst (with_eoi d)"
    "\<forall>j \<in> set (all_secs fl). sec (eeprom s') j = sec (eeprom s) j"
    by (rule save_session [OF id fl(1) st(2) pn free fit])
  have "store (eeprom s') fl = st" using store_frame [of fl "eeprom s'" "eeprom s"] S(6) fl(2) by simp
  then have "holds s' (st(pad_name n \<mapsto> d))" using S(4,5) nm by (intro holdsI [OF S(3)]) simp
  then show ?thesis using that S(1,2) by blast
qed

lemma selected_unique:
  assumes fs: "fs_ok s fl" "f \<in> set fl" and n: "plain_name n" "af_name f = pad_name n"
    and u: "\<forall>g \<in> set fl. cstr (shown (af_name g)) = n \<longrightarrow> af_name g = pad_name n"
  shows "selected n fl = Some f"
proof (cases "selected n fl")
  case None
  then show ?thesis
    using fs(2) n shown_pad [OF n(1)] plain_nameD(3) [OF n(1)] by (auto simp: selected_def find_None_iff cstr_zeros)
next
  case (Some g)
  then have "g \<in> set (dir_order fl) \<and> cstr (shown (af_name g)) = n"
    unfolding selected_def by (auto simp del: dir_order_facts simp: find_Some_iff)
  then have g: "g \<in> set fl" "cstr (shown (af_name g)) = n" by simp_all
  then have "g = f" using u n(2) fs fs_okD(9) [OF fs(1)] by (auto simp: distinct_map inj_on_def)
  then show ?thesis using Some by simp
qed

lemma bus_load_step:
  assumes id: "idle dev s" and st: "holds s st" "st (pad_name n) = Some d" and d: "d \<noteq> []"
    and n: "plain_name n" "\<forall>k \<in> dom st. cstr (shown k) = n \<longrightarrow> k = pad_name n"
  obtains s' where "handle_ieee488 ex (load_events dev (with_eoi n) (length d) @ evs) s =
      map_option (apfst ((@) (with_eoi d))) (handle_ieee488 ex evs s')" "idle dev s'" "holds s' st"
proof -
  obtain fl where fl: "fs_ok s fl" "store (eeprom s) fl = st" using st(1) by (auto simp: holds_def)
  obtain f where f: "f \<in> set fl" "af_name f = pad_name n" "file_data (eeprom s) f = d"
    using store_name [OF fl(1)] st(2) fl(2) by blast
  have "unat (af_size f) = length d" using length_file_data [OF fl(1) f(1)] f(3) by simp
  then have len: "unat (af_size f) = length d" "0 < unat (af_size f)" using d by (metis length_greater_0_conv)+
  have nm: "map fst (with_eoi n) = n" using plain_nameD(1) [OF n(1)] by (simp add: map_fst_with_eoi)
  have sel: "selected n fl = Some f"
    using n(2) fl(2) dom_store [of "eeprom s" fl] by (intro selected_unique [OF fl(1) f(1) n(1) f(2)]) auto
  obtain s' where S: "handle_ieee488 ex (load_events dev (with_eoi n) (unat (af_size f)) @ evs) s =
      map_option (apfst ((@) (with_eoi (file_data (eeprom s) f)))) (handle_ieee488 ex evs s')" "idle dev s'" "fs_ok s' fl" "eeprom s' = eeprom s"
    by (rule load_session [OF id fl(1) f(1) len(2), of "with_eoi n"]) (use n(1) nm sel f(2) in auto)
  have "holds s' st" using fl(2) S(4) by (intro holdsI [OF S(3)]) simp
  then show ?thesis using that S(1,2) f(3) len(1) by simp
qed

section \<open>Refused sessions\<close>

lemma unused_no_chan:
  assumes "unused dev s" "no_chan s s'"
  shows "unused dev s'"
proof -
  have o: "b_allocated (buf j s') = b_allocated (buf j s) \<and> b_secondary (buf j s') = b_secondary (buf j s)" for j
    using assms(2) by (cases "j = 32") (simp_all add: no_chan_def)
  then have "same_owners s s'" using assms(2) by (simp add: same_owners_def no_chan_def)
  then show ?thesis
    using assms no_chan_drive [OF assms(2)] o by (simp add: unused_def find_buffer_owners no_chan_def same_cfg_def)
qed

lemma bus_skip_takes: "handle_ieee488 ex (replicate k Ev_take @ evs) s = handle_ieee488 ex evs s"
  by (induction k) (simp, subst handle_ieee488.simps, simp)

lemma idle_at_rest: "unused dev s \<Longrightarrow> idle dev (at_rest s)"
  by (simp add: idle_def unused_def at_rest_def)

text \<open>A close command for a channel that is not open.\<close>

lemma bus_close_none:
  assumes "idle dev s" "find_buffer sa s = None" "sa < 15"
  shows "handle_ieee488 ex (Ev_cmd (IEEE_LISTEN OR dev) # Ev_cmd (IEEE_CLOSE OR sa) # Ev_cmd IEEE_UNLISTEN # evs) s =
    handle_ieee488 ex evs (s\<lparr>ieee488_ListenActive := 0, ieee488_TalkingDevice := 0\<rparr>)"
proof -
  let ?s = "s\<lparr>ieee488_ListenActive := dev, ieee488_TalkingDevice := 0\<rparr>"
  have I: "dev < 31" "device_address s = dev" "dev \<noteq> 0" "\<not> command_received s" "\<not> open_active s" "command_length s = 0"
    using assms(1) by (simp_all add: idle_def unused_def)
  have sa: "sa < 16" "sa \<noteq> 15" using assms(3) by (auto simp: word_less_nat_alt)
  have "handle_ieee488 ex (Ev_cmd (IEEE_CLOSE OR sa) # Ev_cmd IEEE_UNLISTEN # evs) ?s = handle_ieee488 ex (Ev_cmd IEEE_UNLISTEN # evs) ?s"
    using I(3) sa(2) assms(2) by (intro bus_close [OF sa(1)]) (simp_all add: close_channel_def)
  moreover have "at_rest ?s = s\<lparr>ieee488_ListenActive := 0, ieee488_TalkingDevice := 0\<rparr>"
    using I(4-6) by (simp add: at_rest_def)
  ultimately show ?thesis using bus_listen [OF I(1,2)] bus_end [of ?s] I(4,5) by simp
qed

lemma bus_refused_open:
  assumes id: "idle dev s" and fs: "fs_ok s fl" and n: "plain_name (map fst ns)"
    and e: "sa = 0 \<and> selected (map fst ns) fl = None \<and> e = 62 \<or> sa = 1 \<and> selected (map fst ns) fl \<noteq> None \<and> e = 63"
  obtains s' where "handle_ieee488 ex (Ev_cmd (IEEE_LISTEN OR dev) # Ev_cmd (IEEE_OPEN OR sa) # data_events ns @ Ev_cmd IEEE_UNLISTEN # evs) s =
      handle_ieee488 ex evs s'"
    "idle dev s'" "fs_ok s' fl" "eeprom s' = eeprom s" "current_error s' = e"
proof -
  have ns: "ns \<noteq> []" "length ns \<le> 120" "sa < 15" using plain_nameD(1,2) [OF n] e by auto
  obtain s1 where S1: "named sa (map fst ns) s s1"
    "\<And>s'. file_open (ex_fat ex) sa s1 = Some s' \<Longrightarrow>
      handle_ieee488 ex (Ev_cmd (IEEE_LISTEN OR dev) # Ev_cmd (IEEE_OPEN OR sa) # data_events ns @ Ev_cmd IEEE_UNLISTEN # evs) s =
      handle_ieee488 ex evs (s'\<lparr>ieee488_ListenActive := 0, command_received := False, open_active := False, command_length := 0\<rparr>)"
    by (rule bus_name [OF id ns(1,2,3), where ex = ex and evs = evs]) auto
  note N = namedD [OF S1(1)]
  have un: "unused dev s1" using id N(15) by (simp add: idle_def)
  then have u: "eefs_drive s1" "find_buffer sa s1 = None" using e by (auto simp: unused_def)
  have fs1: "fs_ok s1 fl" using fs N(6) by simp
  obtain s2 where S2: "file_open (ex_fat ex) sa s1 = Some s2" "fs_ok s2 fl" "eeprom s2 = eeprom s1" "no_chan s1 s2" "current_error s2 = e"
    by (rule open_refused [OF u(1) n N(1,2) u(2) fs1 e])
  have "idle dev (at_rest s2)" by (rule idle_at_rest [OF unused_no_chan [OF un S2(4)]])
  moreover have "current_error (at_rest s2) = e" using S2(5) by (simp add: at_rest_def)
  ultimately show ?thesis using that [of "at_rest s2"] S1(2) [OF S2(1)] S2(2,3) N(5) by (simp add: at_rest_def)
qed

lemma idle_bus [simp]:
  "idle dev (s\<lparr>ieee488_ListenActive := x\<rparr>) = idle dev s" "idle dev (s\<lparr>ieee488_TalkingDevice := x\<rparr>) = idle dev s"
  by (simp_all add: idle_def unused_def)

lemma idleD:
  assumes "idle dev s"
  shows "dev < 31" "device_address s = dev" "dev \<noteq> 0" "\<not> command_received s" "\<not> open_active s" "command_length s = 0"
    "find_buffer 0 s = None" "find_buffer 1 s = None"
  using assms by (simp_all add: idle_def unused_def)

lemma bus_load_refused:
  assumes id: "idle dev s" and fs: "fs_ok s fl" and n: "plain_name (map fst ns)" "selected (map fst ns) fl = None"
  obtains s' where "handle_ieee488 ex (load_events dev ns k) s = Some ([], s')"
    "idle dev s'" "fs_ok s' fl" "eeprom s' = eeprom s" "current_error s' = 62"
proof -
  let ?E3 = "Ev_cmd (IEEE_LISTEN OR dev) # Ev_cmd (IEEE_CLOSE OR 0) # Ev_cmd IEEE_UNLISTEN # []"
  let ?E2 = "Ev_cmd (IEEE_TALK OR dev) # Ev_cmd (IEEE_SECONDARY OR 0) # replicate k Ev_take @ Ev_cmd IEEE_UNTALK # ?E3"
  obtain s1 where S1: "handle_ieee488 ex (Ev_cmd (IEEE_LISTEN OR dev) # Ev_cmd (IEEE_OPEN OR 0) # data_events ns @ Ev_cmd IEEE_UNLISTEN # ?E2) s =
      handle_ieee488 ex ?E2 s1" "idle dev s1" "fs_ok s1 fl" "eeprom s1 = eeprom s" "current_error s1 = 62"
    by (rule bus_refused_open [OF id fs n(1), where sa = 0 and e = 62 and ex = ex and evs = ?E2]) (use n(2) in auto)
  note I = idleD [OF S1(2)]
  let ?s = "s1\<lparr>ieee488_TalkingDevice := dev, ieee488_ListenActive := 0\<rparr>"
  have "ieee488_TalkLoop (ex_fat ex) 0 (replicate k Ev_take @ Ev_cmd IEEE_UNTALK # ?E3) ?s = Some ([], replicate k Ev_take @ Ev_cmd IEEE_UNTALK # ?E3, ?s)"
    using I(7) by (simp add: ieee488_TalkLoop_def)
  then have "handle_ieee488 ex (Ev_cmd (IEEE_SECONDARY OR 0) # replicate k Ev_take @ Ev_cmd IEEE_UNTALK # ?E3) ?s =
      map_option (apfst ((@) [])) (handle_ieee488 ex (replicate k Ev_take @ Ev_cmd IEEE_UNTALK # ?E3) ?s)"
    using I(3) by (intro bus_read) simp_all
  moreover have "apfst ((@) []) = (\<lambda>x :: (u8 \<times> bool) list \<times> 'a bus_scheme. x)" by auto
  moreover have "handle_ieee488 ex (replicate k Ev_take @ Ev_cmd IEEE_UNTALK # ?E3) ?s = handle_ieee488 ex ?E3 (ieee488_Untalk ?s)"
    using bus_skip_takes [of ex k "Ev_cmd IEEE_UNTALK # ?E3" ?s] bus_untalk [of ex ?E3 ?s] by simp
  moreover have "handle_ieee488 ex ?E3 (ieee488_Untalk ?s) = Some ([], ?s\<lparr>ieee488_ListenActive := 0, ieee488_TalkingDevice := 0\<rparr>)"
    using bus_close_none [of dev "ieee488_Untalk ?s" 0 ex "[]"] S1(2) I(7) handle_ieee488.simps [of ex "[]"] by (simp add: ieee488_Untalk_def)
  ultimately have "handle_ieee488 ex (load_events dev ns k) s = Some ([], ?s\<lparr>ieee488_ListenActive := 0, ieee488_TalkingDevice := 0\<rparr>)"
    using S1(1) bus_talk [OF I(1,2), of ex] by (simp add: load_events_def)
  then show ?thesis using that S1(2-5) by simp
qed

lemma bus_save_refused:
  assumes id: "idle dev s" and fs: "fs_ok s fl" and n: "plain_name (map fst ns)" "selected (map fst ns) fl \<noteq> None"
  obtains s' where "handle_ieee488 ex (save_events dev ns ds) s = Some ([], s')"
    "idle dev s'" "fs_ok s' fl" "eeprom s' = eeprom s" "current_error s' = 63"
proof -
  let ?E3 = "Ev_cmd (IEEE_LISTEN OR dev) # Ev_cmd (IEEE_CLOSE OR 1) # Ev_cmd IEEE_UNLISTEN # []"
  let ?E2 = "Ev_cmd (IEEE_LISTEN OR dev) # Ev_cmd (IEEE_SECONDARY OR 1) # data_events ds @ Ev_cmd IEEE_UNLISTEN # ?E3"
  obtain s1 where S1: "handle_ieee488 ex (Ev_cmd (IEEE_LISTEN OR dev) # Ev_cmd (IEEE_OPEN OR 1) # data_events ns @ Ev_cmd IEEE_UNLISTEN # ?E2) s =
      handle_ieee488 ex ?E2 s1" "idle dev s1" "fs_ok s1 fl" "eeprom s1 = eeprom s" "current_error s1 = 63"
    by (rule bus_refused_open [OF id fs n(1), where sa = 1 and e = 63 and ex = ex and evs = ?E2]) (use n(2) in auto)
  note I = idleD [OF S1(2)]
  let ?s = "s1\<lparr>ieee488_ListenActive := dev, ieee488_TalkingDevice := 0\<rparr>"
  have id1: "idle dev (at_rest ?s)" using S1(2) idle_at_rest [of dev ?s] by (simp add: idle_def unused_def)
  have "ieee488_IgnoreBytes (data_events ds @ Ev_cmd IEEE_UNLISTEN # ?E3) = Ev_cmd IEEE_UNLISTEN # ?E3"
    by (induction ds) (auto simp: ieee488_IgnoreBytes_def)
  then have "ieee488_ListenLoop (ex_fat ex) False 1 (data_events ds @ Ev_cmd IEEE_UNLISTEN # ?E3) ?s = Some (Ev_cmd IEEE_UNLISTEN # ?E3, ?s)"
    using I(8) by (simp add: ieee488_ListenLoop_def)
  then have "handle_ieee488 ex (Ev_cmd (IEEE_SECONDARY OR 1) # data_events ds @ Ev_cmd IEEE_UNLISTEN # ?E3) ?s =
      handle_ieee488 ex (Ev_cmd IEEE_UNLISTEN # ?E3) ?s"
    using I(3) by (intro bus_write) simp_all
  moreover have "handle_ieee488 ex (Ev_cmd IEEE_UNLISTEN # ?E3) ?s = handle_ieee488 ex ?E3 (at_rest ?s)"
    using I(4,5) by (intro bus_end) simp_all
  moreover have "handle_ieee488 ex ?E3 (at_rest ?s) = Some ([], (at_rest ?s)\<lparr>ieee488_ListenActive := 0, ieee488_TalkingDevice := 0\<rparr>)"
    using bus_close_none [OF id1, of 1 ex "[]"] I(8) handle_ieee488.simps [of ex "[]"] by simp
  ultimately have "handle_ieee488 ex (save_events dev ns ds) s = Some ([], (at_rest ?s)\<lparr>ieee488_ListenActive := 0, ieee488_TalkingDevice := 0\<rparr>)"
    using S1(1) bus_listen [OF I(1,2), of ex] by (simp add: save_events_def)
  moreover have "current_error (at_rest ?s) = 63" using S1(5) by (simp add: at_rest_def)
  ultimately show ?thesis using that id1 S1(3,4) by simp
qed

section \<open>Theorems\<close>

text \<open>
  C1. SAVE and then LOAD over the bus: a device that is idle and whose EEPROM file system
  holds the files \<open>st\<close>, none of them listed under the name \<open>n\<close>, receives the command sequence of
  SAVE with the bytes \<open>d\<close> and then that of LOAD.  It returns from both, sends exactly \<open>d\<close> with EOI on
  the last byte only, is idle again and holds the files of \<open>st\<close> and the new file.  A file needs
  a directory entry and enough free sectors.
\<close>

theorem bus_save_load:
  assumes "idle dev s" "holds s st" "\<exists>k < 8. \<not> bm_get (used_entries s) k" "plain_name n" "\<forall>k \<in> dom st. cstr (shown k) \<noteq> n"
    "d \<noteq> []" "length d \<le> 768" "length d \<le> 64 * unat (free_sectors s)"
  shows "\<exists>s'. handle_ieee488 ex (save_events dev (with_eoi n) (with_eoi d) @ load_events dev (with_eoi n) (length d)) s =
      Some (with_eoi d, s') \<and> idle dev s' \<and> holds s' (st(pad_name n \<mapsto> d))"
proof -
  obtain s1 where S: "handle_ieee488 ex (save_events dev (with_eoi n) (with_eoi d) @ load_events dev (with_eoi n) (length d)) s =
      handle_ieee488 ex (load_events dev (with_eoi n) (length d)) s1" "idle dev s1" "holds s1 (st(pad_name n \<mapsto> d))"
    by (rule bus_save_step [OF assms])
  have u: "\<forall>k \<in> dom (st(pad_name n \<mapsto> d)). cstr (shown k) = n \<longrightarrow> k = pad_name n" using assms(5) by auto
  obtain s2 where L: "handle_ieee488 ex (load_events dev (with_eoi n) (length d) @ []) s1 =
      map_option (apfst ((@) (with_eoi d))) (handle_ieee488 ex [] s2)" "idle dev s2" "holds s2 (st(pad_name n \<mapsto> d))"
    by (rule bus_load_step [OF S(2,3) _ assms(6,4) u, where ex = ex and evs = "[]"]) simp_all
  show ?thesis using S(1) L handle_ieee488.simps [of ex "[]" s2] by auto
qed

text \<open>A table for FAT partitions and the other external calls that are never used here.\<close>

definition no_extern :: "bus extern" where
  "no_extern = \<lparr>ex_fat = d64ops, ex_loader = (\<lambda>_ _ _. None), ex_disk_getinfo = (\<lambda>_ _ s. (RES_ERROR, [], s)),
     ex_disk_read = (\<lambda>_ _ s. (RES_ERROR, [], s)), ex_disk_write = (\<lambda>_ _ _ s. (RES_ERROR, s)),
     ex_f_open = (\<lambda>_ _ _ _. None), ex_fatfs = (\<lambda>_ _. (0, 0, 0))\<rparr>"

lemma plain_HELLO: "plain_name (str ''HELLO'')"
  by (simp add: plain_name_def plain_char_def)

theorem bus_save_load_witness:
  "\<exists>s'. handle_ieee488 no_extern
      (save_events 8 (with_eoi (str ''HELLO'')) (with_eoi [1, 8, 42]) @ load_events 8 (with_eoi (str ''HELLO'')) 3) bus0 =
      Some ([(1, False), (8, False), (42, True)], s')"
  using bus_save_load [OF bus0_idle bus0_holds bus0_entry plain_HELLO, of "[1, 8, 42]" no_extern] bus0_free
  by (auto simp: with_eoi_def eval_nat_numeral)

text \<open>
  SAVE: the device takes the name and the bytes, sends nothing, and afterwards the EEPROM
  holds the file under the padded name beside the unchanged other files; the device is idle,
  so that the next session can follow.
\<close>

theorem bus_save:
  assumes "idle dev s" "holds s st" "\<exists>k < 8. \<not> bm_get (used_entries s) k" "plain_name n" "\<forall>k \<in> dom st. cstr (shown k) \<noteq> n"
    "d \<noteq> []" "length d \<le> 768" "length d \<le> 64 * unat (free_sectors s)"
  shows "\<exists>s'. handle_ieee488 ex (save_events dev (with_eoi n) (with_eoi d)) s = Some ([], s') \<and>
    idle dev s' \<and> holds s' (st(pad_name n \<mapsto> d))"
proof -
  obtain s' where "handle_ieee488 ex (save_events dev (with_eoi n) (with_eoi d) @ []) s = handle_ieee488 ex [] s'"
    "idle dev s'" "holds s' (st(pad_name n \<mapsto> d))"
    by (rule bus_save_step [OF assms])
  then show ?thesis using handle_ieee488.simps [of ex "[]" s'] by simp
qed

theorem bus_save_witness:
  "\<exists>s'. handle_ieee488 no_extern (save_events 8 (with_eoi (str ''HELLO'')) (with_eoi (replicate 700 7))) bus0 = Some ([], s') \<and>
    holds s' (Map.empty(pad_name (str ''HELLO'') \<mapsto> replicate 700 7))"
proof -
  have "length (replicate 700 (7 :: u8)) \<le> 64 * unat (free_sectors bus0)" using bus0_free by simp
  then show ?thesis
    using bus_save [OF bus0_idle bus0_holds bus0_entry plain_HELLO, of "replicate 700 7" no_extern] by auto
qed

text \<open>
  LOAD: for a file that is the only one listed under its name, the device sends its bytes
  in order, EOI with the last one and no other, when the controller takes as many bytes; the
  files are unchanged and the device is idle again.
\<close>

theorem bus_load:
  assumes "idle dev s" "holds s st" "st (pad_name n) = Some d" "d \<noteq> []" "plain_name n"
    "\<forall>k \<in> dom st. cstr (shown k) = n \<longrightarrow> k = pad_name n"
  shows "\<exists>s'. handle_ieee488 ex (load_events dev (with_eoi n) (length d)) s = Some (with_eoi d, s') \<and> idle dev s' \<and> holds s' st"
proof -
  obtain s' where "handle_ieee488 ex (load_events dev (with_eoi n) (length d) @ []) s =
      map_option (apfst ((@) (with_eoi d))) (handle_ieee488 ex [] s')" "idle dev s'" "holds s' st"
    by (rule bus_load_step [OF assms])
  then show ?thesis using handle_ieee488.simps [of ex "[]" s'] by simp
qed

theorem bus_load_witness:
  "\<exists>s s'. holds s (Map.empty(pad_name (str ''HELLO'') \<mapsto> [1, 2])) \<and>
    handle_ieee488 no_extern (load_events 8 (with_eoi (str ''HELLO'')) 2) s = Some ([(1, False), (2, True)], s')"
proof -
  obtain s :: bus where s: "idle 8 s" "holds s (Map.empty(pad_name (str ''HELLO'') \<mapsto> [1, 2]))"
    by (rule bus_save_step [OF bus0_idle bus0_holds bus0_entry plain_HELLO, where d = "[1, 2]" and ex = no_extern and evs = "[]"])
      (use bus0_free in auto)
  obtain s' where "handle_ieee488 no_extern (load_events 8 (with_eoi (str ''HELLO'')) 2) s = Some ([(1, False), (2, True)], s')"
    using bus_load [OF s _ _ plain_HELLO, of "[1, 2]" no_extern] by (auto simp: with_eoi_def numeral_2_eq_2)
  then show ?thesis using s(2) by blast
qed

text \<open>
  C11. Refused sessions.  LOAD of a name that no file is listed under sends nothing, however
  many bytes the controller tries to take, and reports error 62; SAVE under a name that is
  already listed throws the data away and reports error 63.  In both cases the files are
  unchanged and the device is idle.
\<close>

theorem bus_refused:
  assumes "idle dev s" "holds s st" "plain_name n"
  shows "if \<exists>k \<in> dom st. cstr (shown k) = n
    then \<exists>s'. handle_ieee488 ex (save_events dev (with_eoi n) ds) s = Some ([], s') \<and> idle dev s' \<and> holds s' st \<and> current_error s' = 63
    else \<exists>s'. handle_ieee488 ex (load_events dev (with_eoi n) k) s = Some ([], s') \<and> idle dev s' \<and> holds s' st \<and> current_error s' = 62"
proof -
  obtain fl where fl: "fs_ok s fl" "store (eeprom s) fl = st" using assms(2) by (auto simp: holds_def)
  have nm: "map fst (with_eoi n) = n" using plain_nameD(1) [OF assms(3)] by (simp add: map_fst_with_eoi)
  have pn: "plain_name (map fst (with_eoi n))" using assms(3) nm by simp
  have sel: "selected (map fst (with_eoi n)) fl \<noteq> None \<longleftrightarrow> (\<exists>k \<in> dom st. cstr (shown k) = n)"
    unfolding nm fl(2) [symmetric] dom_store by (auto simp: selected_def find_None_iff)
  show ?thesis
  proof (cases "\<exists>k \<in> dom st. cstr (shown k) = n")
    case True
    then have "selected (map fst (with_eoi n)) fl \<noteq> None" using sel by blast
    then obtain s' where "handle_ieee488 ex (save_events dev (with_eoi n) ds) s = Some ([], s')"
      "idle dev s'" "fs_ok s' fl" "eeprom s' = eeprom s" "current_error s' = 63"
      by (rule bus_save_refused [OF assms(1) fl(1) pn])
    then show ?thesis using True fl(2) holdsI [of s' fl st] by auto
  next
    case False
    then have "selected (map fst (with_eoi n)) fl = None" using sel by blast
    then obtain s' where "handle_ieee488 ex (load_events dev (with_eoi n) k) s = Some ([], s')"
      "idle dev s'" "fs_ok s' fl" "eeprom s' = eeprom s" "current_error s' = 62"
      by (rule bus_load_refused [OF assms(1) fl(1) pn])
    then show ?thesis using False fl(2) holdsI [of s' fl st] by auto
  qed
qed

theorem bus_refused_witness:
  "\<exists>s'. handle_ieee488 no_extern (load_events 8 (with_eoi (str ''HELLO'')) 5) bus0 = Some ([], s') \<and> current_error s' = 62"
  using bus_refused [OF bus0_idle bus0_holds plain_HELLO, of no_extern "[]" 5] by auto

end
