(* ===== verification/Dir_List.thy ===== *)
theory Dir_List
  imports Bus_Props
begin

text \<open>
  Directory listings: the layout of a line, and LOAD of the directory of the EEPROM file
  system over the bus.
\<close>

section \<open>The layout of a line\<close>

lemma put_at_mid: "length xs = i \<Longrightarrow> length ys = length bs \<Longrightarrow> put_at i bs (xs @ ys @ zs) = xs @ bs @ zs"
  by (simp add: put_at_def)

lemma length_take_map_drop: "length (take n d @ map f (drop n d)) = length d"
  by (metis append_take_drop_id length_append length_map)

lemma length_quoted_name: "16 \<le> length name \<Longrightarrow> length (quoted_name name) = 17"
  unfolding quoted_name_def Let_def length_take_map_drop by simp

lemma quote_pos_bounds: "4 \<le> quote_pos b" "quote_pos b \<le> 7"
  by (simp_all add: quote_pos_def)

text \<open>
  A line of the standard format: the link bytes, the block count as line number, blanks up to
  the quote, the name in quotes, the marks and the type, and the end of the line.
\<close>

definition type_name :: "cbmdirent_t \<Rightarrow> u8 list" where
  "type_name e = take 3 (drop (3 * unat (ce_typeflags e AND EXT_TYPE_MASK)) filetypes)"

definition mark :: "u8 \<Rightarrow> u8 \<Rightarrow> cbmdirent_t \<Rightarrow> u8" where
  "mark flag c e = (if ce_typeflags e AND flag \<noteq> 0 then c else asc CHR '' '')"

definition list_line :: "cbmdirent_t \<Rightarrow> u8 list" where
  "list_line e =
     (let q = quote_pos (ce_blocksize e) in
      [if ce_remainder e \<noteq> 0xff then ce_remainder e + 2 else 1, 1,
       ucast (ce_blocksize e AND 0xff), ucast (drop_bit 8 (ce_blocksize e))] @
      replicate (q - 4) (asc CHR '' '') @ [0x22] @ quoted_name (ce_name e) @
      [mark FLAG_SPLAT (asc CHR ''*'') e] @ type_name e @ [mark FLAG_RO (asc CHR ''<'') e] @ [mark FLAG_HIDDEN (asc CHR ''H'') e] @
      replicate (7 - q) (asc CHR '' '') @ [0])"

lemma list_upd_mid: "length xs = i \<Longrightarrow> (xs @ y # zs)[i := v] = xs @ v # zs"
  by auto

lemma createentry_line:
  assumes d: "length data = 256" and n: "16 \<le> length (ce_name e)"
    and ty: "3 * unat (ce_typeflags e AND EXT_TYPE_MASK) + 3 \<le> length filetypes"
  shows "createentry e DIR_FMT_CBM data = Some (list_line e @ drop 32 data)"
proof -
  let ?sp = "asc CHR '' '' :: u8" and ?b = "ce_blocksize e"
  define q where "q = quote_pos ?b"
  define h where "h = [if ce_remainder e \<noteq> 0xff then ce_remainder e + 2 else 1, 1, ucast (?b AND 0xff), ucast (drop_bit 8 ?b)]"
  define A where "A = h @ replicate (q - 4) ?sp"
  define N where "N = quoted_name (ce_name e)"
  define Z where "Z = replicate (7 - q) ?sp @ [0] @ drop 32 data"
  have q: "4 \<le> q" "q \<le> 7" using quote_pos_bounds [of ?b] by (simp_all add: q_def)
  have lA: "length A = q" "length h = 4" using q by (simp_all add: A_def h_def)
  have lN: "length N = 17" using length_quoted_name [OF n] by (simp add: N_def)
  have lT: "length (type_name e) = 3" using ty by (simp add: type_name_def)
  have d31: "drop 31 data = data ! 31 # drop 32 data" using d by (simp flip: Cons_nth_drop_Suc)
  have "put_at 0 (replicate 31 ?sp) data = replicate 31 ?sp @ data ! 31 # drop 32 data" using d d31 by (simp add: put_at_def)
  then have s0: "(put_at 0 (replicate 31 ?sp) data)[31 := 0] = replicate 31 ?sp @ 0 # drop 32 data"
    by (simp only: list_upd_mid length_replicate)
  have split: "replicate 31 ?sp = replicate 4 ?sp @ replicate (q - 4) ?sp @ [?sp] @ replicate 17 ?sp @ [?sp] @ replicate 3 ?sp @
      [?sp] @ [?sp] @ replicate (7 - q) ?sp"
  proof -
    have "(31 :: nat) = 4 + (q - 4) + 1 + 17 + 1 + 3 + 1 + 1 + (7 - q)" using q by simp
    then have "replicate 31 ?sp = replicate (4 + (q - 4) + 1 + 17 + 1 + 3 + 1 + 1 + (7 - q)) ?sp" by simp
    then show ?thesis by (simp only: replicate_add) simp
  qed
  have s1: "put_at 0 h (replicate 31 ?sp @ 0 # drop 32 data) = A @ ?sp # replicate 17 ?sp @ ?sp # replicate 3 ?sp @ ?sp # ?sp # Z"
    unfolding split using lA(2) by (simp add: put_at_def A_def Z_def)
  have s2: "put_at (Suc q) N ((A @ ?sp # replicate 17 ?sp @ ?sp # replicate 3 ?sp @ ?sp # ?sp # Z)[q := 0x22]) =
      (A @ 0x22 # N) @ ?sp # replicate 3 ?sp @ ?sp # ?sp # Z"
    using lA(1) lN put_at_mid [of "A @ [0x22]" "Suc q" "replicate 17 ?sp" N] by (simp add: list_upd_mid)
  define p where "p = q + 18"
  have lp: "length (A @ 0x22 # N) = p" using lA(1) lN by (simp add: p_def)
  have s3: "(if ce_typeflags e AND FLAG_SPLAT \<noteq> 0 then ((A @ 0x22 # N) @ ?sp # replicate 3 ?sp @ ?sp # ?sp # Z)[p := asc CHR ''*'']
      else (A @ 0x22 # N) @ ?sp # replicate 3 ?sp @ ?sp # ?sp # Z) =
      (A @ 0x22 # N @ [mark FLAG_SPLAT (asc CHR ''*'') e]) @ replicate 3 ?sp @ ?sp # ?sp # Z"
    using lp list_upd_mid [OF lp, of ?sp "replicate 3 ?sp @ ?sp # ?sp # Z" "asc CHR ''*''"] by (simp add: mark_def)
  have s4: "put_at (Suc p) (type_name e) ((A @ 0x22 # N @ [mark FLAG_SPLAT (asc CHR ''*'') e]) @ replicate 3 ?sp @ ?sp # ?sp # Z) =
      (A @ 0x22 # N @ mark FLAG_SPLAT (asc CHR ''*'') e # type_name e) @ ?sp # ?sp # Z"
    using lp lT put_at_mid [of "A @ 0x22 # N @ [mark FLAG_SPLAT (asc CHR ''*'') e]" "Suc p" "replicate 3 ?sp" "type_name e"] by simp
  let ?X = "A @ 0x22 # N @ mark FLAG_SPLAT (asc CHR ''*'') e # type_name e"
  have lX: "length ?X = p + 4" using lp lT by simp
  have s5: "(if ce_typeflags e AND FLAG_RO \<noteq> 0 then (?X @ ?sp # ?sp # Z)[p + 4 := asc CHR ''<''] else ?X @ ?sp # ?sp # Z) =
      (?X @ [mark FLAG_RO (asc CHR ''<'') e]) @ ?sp # Z"
    using list_upd_mid [OF lX, of ?sp "?sp # Z" "asc CHR ''<''"] by (simp add: mark_def)
  have s6: "(if ce_typeflags e AND FLAG_HIDDEN \<noteq> 0 then ((?X @ [mark FLAG_RO (asc CHR ''<'') e]) @ ?sp # Z)[p + 5 := asc CHR ''H'']
      else (?X @ [mark FLAG_RO (asc CHR ''<'') e]) @ ?sp # Z) = list_line e @ drop 32 data"
    using lX list_upd_mid [of "?X @ [mark FLAG_RO (asc CHR ''<'') e]" "p + 5" ?sp Z "asc CHR ''H''"]
    by (simp add: mark_def list_line_def Let_def q_def [symmetric] A_def h_def N_def Z_def)
  have c: "line_length DIR_FMT_CBM = 31" "(if DIR_FMT_CBM AND DIR_FMT_CMD_SHORT \<noteq> 0 then 1 else TYPE_LENGTH) = 3"
    "q + CBM_NAME_LENGTH + 2 = p" "(DIR_FMT_CBM AND DIR_FMT_CMD_LONG \<noteq> 0) = False" "(DIR_FMT_CBM = DIR_FMT_CMD_SHORT) = False"
    "(length filetypes < TYPE_LENGTH * unat (ce_typeflags e AND EXT_TYPE_MASK) + 3) = False"
    "take 3 (drop (TYPE_LENGTH * unat (ce_typeflags e AND EXT_TYPE_MASK)) filetypes) = type_name e"
    using ty by (simp_all add: line_length_def p_def type_name_def)
  show ?thesis
    unfolding createentry_def Let_def q_def [symmetric] h_def [symmetric] N_def [symmetric] c if_False s0 s1 s2 s3 s4 s5 s6 ..
qed

lemma length_list_line: "16 \<le> length (ce_name e) \<Longrightarrow> length (type_name e) = 3 \<Longrightarrow> length (list_line e) = 32"
  using quote_pos_bounds [of "ce_blocksize e"] by (simp add: list_line_def Let_def length_quoted_name)

section \<open>A listing as a source of bytes\<close>

definition dir_foot :: "u16 \<Rightarrow> u8 list" where
  "dir_foot blocks = put_at 2 [ucast (blocks AND 0xff), ucast (drop_bit 8 blocks)] dirfooter"

lemma length_dir_foot: "length (dir_foot n) = 32" "length dirfooter = 32"
  by (simp_all add: dir_foot_def dirfooter_def)

lemma eefs_entry_line:
  assumes "length (af_name f) = 16"
  shows "16 \<le> length (ce_name (eefs_entry f))" "3 * unat (ce_typeflags (eefs_entry f) AND EXT_TYPE_MASK) + 3 \<le> length filetypes"
    "length (list_line (eefs_entry f)) = 32"
proof -
  show n: "16 \<le> length (ce_name (eefs_entry f))" using length_shown [OF assms] by (simp add: eefs_entry_def)
  show t: "3 * unat (ce_typeflags (eefs_entry f) AND EXT_TYPE_MASK) + 3 \<le> length filetypes"
    by (simp add: eefs_entry_def filetypes_def)
  then have "length (type_name (eefs_entry f)) = 3" by (simp add: type_name_def)
  then show "length (list_line (eefs_entry f)) = 32" by (rule length_list_line [OF n])
qed

text \<open>The bytes between the position and the end of a buffer.\<close>

definition unsent :: "buffer_t \<Rightarrow> u8 list" where
  "unsent b = take (Suc (unat (b_lastused b)) - unat (b_position b)) (drop (unat (b_position b)) (b_data b))"

definition listing :: "afile list \<Rightarrow> nat \<Rightarrow> u8 list \<Rightarrow> 'a drive_scheme \<Rightarrow> bool" where
  "listing fl i D s \<longleftrightarrow> length (buffers s) = 33 \<and> i < 32 \<and>
     (let b = buf i s; v = b_dir b in length (b_data b) = 256 \<and> b_read b \<and> b_recordlen b = 0 \<and> b_refill b = Refill_dir \<and>
        dr_counter v = 0 \<and> dr_format v = DIR_FMT_CBM \<and> dr_matchstr v = None \<and> \<not> dr_match_start v \<and> \<not> dr_match_end v \<and>
        dr_filetype v = 0 \<and> unat (b_position b) \<le> unat (b_lastused b) \<and>
        (\<exists>es. eefs_at fl (dr_dh v) s es \<and>
           D = unsent b @ (if b_sendeoi b then [] else concat (map list_line es) @ dir_foot (eefs_disk_free 0 s))))"

lemma listingD:
  assumes "listing fl i D s"
  shows "length (buffers s) = 33" "i < 32" "length (b_data (buf i s)) = 256" "b_read (buf i s)" "b_recordlen (buf i s) = 0"
    "b_refill (buf i s) = Refill_dir" "unat (b_position (buf i s)) \<le> unat (b_lastused (buf i s))" "fs_ok s fl"
  using assms by (auto simp: listing_def Let_def eefs_at_def)

lemma eefs_at_upd [simp]: "eefs_at fl dh (upd_buf i f s) es = eefs_at fl dh s es" "eefs_disk_free p (upd_buf i f s) = eefs_disk_free p s"
  by (simp_all add: eefs_at_def eefs_disk_free_def eepromfs_free_sectors_def upd_buf_def fs_ok_def)

lemma eefs_keeps_free: "eefs_keeps s s' \<Longrightarrow> eefs_disk_free p s' = eefs_disk_free p s"
  by (simp add: eefs_keeps_def eefs_disk_free_def eepromfs_free_sectors_def)

lemma eefs_at_entries:
  assumes "eefs_at fl dh s (e # es)"
  obtains f where "f \<in> set fl" "e = eefs_entry f" "length (af_name f) = 16"
proof -
  have A: "e # es = map eefs_entry (filter (\<lambda>f. dh_eefs dh \<le> hd (af_ents f)) (dir_order fl))" "fs_ok s fl"
    using assms by (simp_all add: eefs_at_def)
  have "e \<in> set (e # es)" by simp
  then have "e \<in> eefs_entry ` set fl" unfolding A(1) by auto
  then show ?thesis using that name_length [OF A(2)] by auto
qed

lemma next_entry:
  assumes "eefs_at fl dh s es"
  obtains dh' s' where "eefs_keeps s s'" "eefs_at fl dh' s' (tl es)"
    "next_match fat dh None None None 0 s = Some (case es of [] \<Rightarrow> (-1, None, dh', s') | e # _ \<Rightarrow> (0, Some e, dh', s'))"
proof -
  have "entry_matches (postmatch s) None None None 0 e = Some True" if "e \<in> set es" for e
  proof -
    have "e \<in> eefs_entry ` set fl" using that assms by (auto simp: eefs_at_def)
    then show ?thesis by (auto simp: entry_matches_def eefs_entry_def)
  qed
  from eefs_dir.next_match_first [OF assms this, of fat] show ?thesis using that by (cases es) auto
qed

lemma dir_refill_listing:
  assumes l: "listing fl i D s" and e: "\<not> b_sendeoi (buf i s)"
  obtains s' where "dir_refill fat i (upd_buf i (\<lambda>b. b\<lparr>b_position := b_position b + 1\<rparr>) s) = Some (0, s')"
    "\<forall>U. D = unsent (buf i s) @ U \<longrightarrow> listing fl i U s'" "eeprom s' = eeprom s" "in_buf i s s'" "b_cleanup (buf i s') = b_cleanup (buf i s)"
proof -
  let ?b = "buf i s" and ?v = "b_dir (buf i s)"
  note L = listingD [OF l]
  obtain es where V: "dr_counter ?v = 0" "dr_format ?v = DIR_FMT_CBM" "dr_matchstr ?v = None" "\<not> dr_match_start ?v" "\<not> dr_match_end ?v"
    "dr_filetype ?v = 0" "eefs_at fl (dr_dh ?v) s es" "D = unsent ?b @ concat (map list_line es) @ dir_foot (eefs_disk_free 0 s)"
    using l e unfolding listing_def Let_def by auto
  have i: "i < length (buffers s)" using L by simp
  define s0 where "s0 = upd_buf i (\<lambda>b. b\<lparr>b_position := 0\<rparr>) (upd_buf i (\<lambda>b. b\<lparr>b_position := b_position b + 1\<rparr>) s)"
  have b0: "buf i s0 = ?b\<lparr>b_position := 0\<rparr>" using i by (simp add: s0_def)
  have at0: "eefs_at fl (dr_dh ?v) s0 es" using V(7) by (simp add: s0_def)
  have in0: "in_buf i s s0" unfolding s0_def using i by (intro in_buf_upd) simp_all
  obtain dh s1 where N: "eefs_keeps s0 s1" "eefs_at fl dh s1 (tl es)"
    "next_match fat (dr_dh ?v) None None None 0 s0 = Some (case es of [] \<Rightarrow> (-1, None, dh, s1) | e # _ \<Rightarrow> (0, Some e, dh, s1))"
    by (rule next_entry [OF at0])
  have more: "eefs_state.more s1 = eefs_state.more s0" using N(1) by (simp add: eefs_keeps_def)
  note K = kept_eefs [OF more]
  define s2 where "s2 = upd_dir i (\<lambda>v. v\<lparr>dr_dh := dh\<rparr>) s1"
  have i2: "i < length (buffers s2)" "i < length (buffers s1)" using i K(2) by (simp_all add: s2_def upd_dir_def s0_def)
  have b2: "buf i s2 = ?b\<lparr>b_position := 0, b_dir := ?v\<lparr>dr_dh := dh\<rparr>\<rparr>"
    using i2 K(2) b0 by (simp add: s2_def upd_dir_def)
  have at2: "eefs_at fl dh s2 (tl es)" using N(2) by (simp add: s2_def upd_dir_def)
  have in2: "in_buf i s s2"
    unfolding s2_def upd_dir_def using i in_buf_trans [OF in0 in_buf_eefs [OF more]] by (intro in_buf_upd) simp_all
  have f2: "eefs_disk_free 0 s2 = eefs_disk_free 0 s" "eeprom s2 = eeprom s"
    using eefs_keeps_free [OF N(1), of 0] N(1) by (simp_all add: s2_def upd_dir_def s0_def eefs_keeps_def)
  have start: "dir_refill fat i (upd_buf i (\<lambda>b. b\<lparr>b_position := b_position b + 1\<rparr>) s) =
      (case es of [] \<Rightarrow> dir_footer fat i s2
       | e # _ \<Rightarrow> do { s \<leftarrow> put_entry e i DIR_FMT_CBM s2; Some (0, s) })"
  proof (cases es)
    case (Cons e es')
    obtain f where "e = eefs_entry f" using at0 unfolding Cons by (rule eefs_at_entries)
    then have "\<not> shown_as_dir e s2" by (simp add: shown_as_dir_def eefs_entry_def)
    then show ?thesis using N(3) V Cons b0 by (simp add: dir_refill_def Let_def s0_def [symmetric] s2_def [symmetric])
  qed (use N(3) V b0 in \<open>simp add: dir_refill_def Let_def s0_def [symmetric] s2_def [symmetric]\<close>)
  show ?thesis
  proof (cases es)
    case Nil
    define s3 where "s3 = upd_buf i (\<lambda>b. b\<lparr>b_data := put_at 2 [ucast (eefs_disk_free 0 s AND 0xff), ucast (drop_bit 8 (eefs_disk_free 0 s))] (b_data b),
                b_position := 0, b_lastused := 31, b_sendeoi := True\<rparr>) (upd_buf i (\<lambda>b. b\<lparr>b_data := put_at 0 dirfooter (b_data b)\<rparr>) s2)"
    have "fop_of fat (dh_part dh) (upd_buf i (\<lambda>b. b\<lparr>b_data := put_at 0 dirfooter (b_data b)\<rparr>) s2) = Some eefs_ops"
      using at2 by (intro fop_of_eefs) (simp_all add: eefs_at_def upd_buf_def)
    moreover have "eefs_disk_free p s2 = eefs_disk_free 0 s" for p using f2(1) by (simp add: eefs_disk_free_def)
    ultimately have run: "dir_footer fat i s2 = Some (0, s3)"
      using i2 b2 by (simp add: dir_footer_def w_disk_free_def eefs_ops_def s3_def)
    have b3: "buf i s3 = ?b\<lparr>b_dir := ?v\<lparr>dr_dh := dh\<rparr>, b_data := put_at 2 [ucast (eefs_disk_free 0 s AND 0xff), ucast (drop_bit 8 (eefs_disk_free 0 s))]
        (put_at 0 dirfooter (b_data ?b)), b_position := 0, b_lastused := 31, b_sendeoi := True\<rparr>"
      using i2 b2 by (simp add: s3_def)
    have "put_at 2 [x, y] (put_at 0 dirfooter (b_data ?b)) = put_at 2 [x, y] dirfooter @ drop 32 (b_data ?b)" for x y
      using L(3) length_dir_foot(2) by (simp add: put_at_def)
    then have u3: "unsent (buf i s3) = dir_foot (eefs_disk_free 0 s)"
      using length_dir_foot(1) [of "eefs_disk_free 0 s"] by (simp add: unsent_def b3 dir_foot_def)
    have "listing fl i (dir_foot (eefs_disk_free 0 s)) s3"
      unfolding listing_def Let_def u3 using V(1-6) at2 L i2 length_dir_foot(2) K(2)
      by (simp add: b3) (auto simp: s3_def s2_def upd_dir_def s0_def)
    moreover have "in_buf i s s3" unfolding s3_def using i in2 by (intro in_buf_upd) simp_all
    ultimately show ?thesis
      using that [of s3] start run Nil V(8) f2(2) by (simp add: b3) (simp add: s3_def)
  next
    case (Cons e es')
    obtain f where f: "e = eefs_entry f" "length (af_name f) = 16" using at0 unfolding Cons by (rule eefs_at_entries)
    note ln = eefs_entry_line [OF f(2), folded f(1)]
    define s3 where "s3 = upd_buf i (\<lambda>b. b\<lparr>b_lastused := of_nat (line_length DIR_FMT_CBM), b_data := list_line e @ drop 32 (b_data ?b)\<rparr>) s2"
    have run: "put_entry e i DIR_FMT_CBM s2 = Some s3"
      using createentry_line [OF L(3) ln(1,2)] b2 unfolding put_entry_def by (simp add: s3_def)
    have b3: "buf i s3 = ?b\<lparr>b_position := 0, b_dir := ?v\<lparr>dr_dh := dh\<rparr>, b_lastused := 31, b_data := list_line e @ drop 32 (b_data ?b)\<rparr>"
      using i2 b2 by (simp add: s3_def line_length_def)
    have u3: "unsent (buf i s3) = list_line e" using ln(3) by (simp add: unsent_def b3)
    have "listing fl i (list_line e @ concat (map list_line es') @ dir_foot (eefs_disk_free 0 s)) s3"
      unfolding listing_def Let_def u3 using V(1-6) at2 L i2 ln(3) e f2(1) K(2) Cons
      by (simp add: b3) (auto simp: s3_def s2_def upd_dir_def s0_def)
    moreover have "in_buf i s s3" unfolding s3_def using i in2 by (intro in_buf_upd) simp_all
    ultimately show ?thesis
      using that [of s3] start run Cons V(8) f2(2) by (simp add: b3) (simp add: s3_def)
  qed
qed

lemma unsent_Cons:
  assumes "length (b_data b) = 256" "unat (b_position b) \<le> unat (b_lastused b)"
  shows "unsent b = b_data b ! unat (b_position b) #
    take (unat (b_lastused b) - unat (b_position b)) (drop (Suc (unat (b_position b))) (b_data b))"
proof -
  have "unat (b_position b) < length (b_data b)" using assms(1) u8_lt_256 [of "b_position b"] by linarith
  then show ?thesis using assms(2) by (simp add: unsent_def Suc_diff_le flip: Cons_nth_drop_Suc)
qed

text \<open>What follows the bytes in the buffer.\<close>

definition after :: "afile list \<Rightarrow> nat \<Rightarrow> u8 list \<Rightarrow> 'a drive_scheme \<Rightarrow> bool" where
  "after fl i U s \<longleftrightarrow> (\<exists>es. eefs_at fl (dr_dh (b_dir (buf i s))) s es \<and>
     U = (if b_sendeoi (buf i s) then [] else concat (map list_line es) @ dir_foot (eefs_disk_free 0 s)))"

lemma listing_after:
  assumes "listing fl i D s"
  obtains U where "after fl i U s" "D = unsent (buf i s) @ U" "U = [] \<longleftrightarrow> b_sendeoi (buf i s)"
proof -
  obtain U where U: "after fl i U s" "D = unsent (buf i s) @ U"
    using assms unfolding listing_def Let_def after_def by blast
  then have "U = [] \<longleftrightarrow> b_sendeoi (buf i s)"
    using length_dir_foot(1) [of "eefs_disk_free 0 s"] by (cases "b_sendeoi (buf i s)") (auto simp: after_def)
  then show ?thesis using that U by blast
qed

interpretation eefs_list: byte_source fat "\<lambda>i D s. listing fl i D s \<and> eeprom s = m" "\<lambda>s. fs_ok s fl \<and> eeprom s = m"
proof
  fix i D and s :: "'a drive_scheme"
  assume c: "listing fl i D s \<and> eeprom s = m"
  note L = listingD [OF conjunct1 [OF c]]
  show "fs_ok s fl \<and> eeprom s = m" using c L by simp
  show "i < 32 \<and> length (buffers s) = 33 \<and> length (b_data (buf i s)) = 256 \<and> b_read (buf i s) \<and>
      b_recordlen (buf i s) = 0 \<and> b_refill (buf i s) \<noteq> Refill_directbuffer" using L by simp
  show "D \<noteq> []" using listing_after [OF conjunct1 [OF c]] unsent_Cons [OF L(3,7)] by auto
next
  fix i x D and s :: "'a drive_scheme"
  assume c: "listing fl i (x # D) s \<and> eeprom s = m"
  note L = listingD [OF conjunct1 [OF c]]
  let ?b = "buf i s"
  obtain U where U: "after fl i U s" "x # D = unsent ?b @ U" "U = [] \<longleftrightarrow> b_sendeoi ?b"
    by (rule listing_after [OF conjunct1 [OF c]])
  note X = U(2) [unfolded unsent_Cons [OF L(3,7)]]
  have empty: "D = [] \<longleftrightarrow> b_position ?b = b_lastused ?b \<and> b_sendeoi ?b"
    using X U(3) line_rest [OF L(3,7)] by (auto simp: word_unat_eq_iff)
  have p: "unat (b_position ?b) < length (b_data ?b)" using L(3) u8_lt_256 [of "b_position ?b"] by linarith
  show "offered ?b = Some (x, D = [])" using X p empty by (simp add: offered_def)
  have i: "i < length (buffers s)" "i < 32" using L by simp_all
  let ?s = "upd_buf i (\<lambda>b. b\<lparr>b_position := b_position b + 1\<rparr>) s"
  have b1: "buf i ?s = ?b\<lparr>b_position := b_position ?b + 1\<rparr>" using i by simp
  {
    assume "b_position ?b < b_lastused ?b"
    then have lt: "unat (b_position ?b) < unat (b_lastused ?b)" by (simp add: word_less_nat_alt)
    have p1: "unat (b_position ?b + 1) = Suc (unat (b_position ?b))"
      using lt u8_lt_256 [of "b_lastused ?b"] by (intro unat_Suc_u8) linarith
    have "unsent (buf i ?s) = tl (unsent ?b)" using unsent_Cons [OF L(3,7)] lt p1 by (simp add: unsent_def b1 Suc_diff_Suc)
    then have "D = unsent (buf i ?s) @ U" using X unsent_Cons [OF L(3,7)] by simp
    then show "listing fl i D ?s \<and> eeprom ?s = m"
      using c lt p1 U(1) unfolding listing_def Let_def after_def b1 by auto
  }
  assume last: "\<not> b_position ?b < b_lastused ?b" and ne: "D \<noteq> []"
  then have pl: "b_position ?b = b_lastused ?b" using L by (simp add: word_less_nat_alt word_unat_eq_iff)
  then have n: "\<not> b_sendeoi ?b" using empty ne by simp
  obtain s' where S: "dir_refill fat i ?s = Some (0, s')" "\<forall>U. x # D = unsent ?b @ U \<longrightarrow> listing fl i U s'" "eeprom s' = eeprom s"
    "in_buf i s s'" "b_cleanup (buf i s') = b_cleanup ?b"
    by (rule dir_refill_listing [OF conjunct1 [OF c] n, where fat = fat])
  have "D = U" using X pl by simp
  then show "\<not> b_sendeoi ?b \<and> (\<exists>s'. run_refill fat (b_refill ?b) i ?s = Some (0, s') \<and> (listing fl i D s' \<and> eeprom s' = m) \<and>
      in_buf i s s' \<and> b_cleanup (buf i s') = b_cleanup ?b)"
    using n S(1,3,4,5) S(2) [rule_format, OF U(2)] L(6) c by (simp add: run_refill_def)
next
  fix i x and s :: "'a drive_scheme"
  assume c: "listing fl i [x] s \<and> eeprom s = m"
  note L = listingD [OF conjunct1 [OF c]]
  obtain U where U: "[x] = unsent (buf i s) @ U" "U = [] \<longleftrightarrow> b_sendeoi (buf i s)"
    by (rule listing_after [OF conjunct1 [OF c]])
  then show "\<not> b_position (buf i s) < b_lastused (buf i s) \<and> b_sendeoi (buf i s)"
    using line_rest [OF L(3,7)] unfolding unsent_Cons [OF L(3,7)] by (auto simp: word_less_nat_alt)
qed simp

section \<open>Opening a listing\<close>

definition dir_head :: "u8 \<Rightarrow> u8 list" where
  "dir_head p = put_at HEADER_OFFSET_ID disk_id (put_at HEADER_OFFSET_NAME (take 16 disk_label) (dirheader[HEADER_OFFSET_DRIVE := p + 1]))"

lemma put_at_append: "i + length bs \<le> length xs \<Longrightarrow> put_at i bs (xs @ ys) = put_at i bs xs @ ys"
  by (simp add: put_at_def)

lemma length_dir_head: "length (dir_head p) = 32"
  by (simp add: dir_head_def dirheader_def disk_id_def disk_label_def)

lemma file_open_dollar:
  assumes dr: "eefs_drive s" and n: "cchar (command_buffer s) 0 = 36" "command_length s = 1" and sa: "find_buffer sa s = None"
  obtains s' where "file_open fat sa s = load_directory fat sa s'" "command_buffer s' = 36 # replicate 121 0" "command_length s' = 1"
    "no_chan s s'" "same_eefs s s'"
proof -
  have l: "length (buffers s) = 33" "length (command_buffer s) = 122" using dr by (simp_all add: eefs_drive_def)
  obtain s1 where E: "set_error_ts 0 0 0 s = Some s1" "in_buf 32 s s1" "same_eefs s s1"
    by (rule set_error_plain [OF plain_0 l(1)])
  have "fw.more s1 = fw.more s" using E(2) by (simp add: in_buf_def kept_def)
  note D = kept_drive [OF this]
  let ?m = "36 # replicate 121 0 :: u8 list"
  define s2 where "s2 = clean_cmdbuffer (s1\<lparr>command_length := 1\<rparr>)"
  have "take 1 (command_buffer s) = [36]" using n(1) l(2) by (cases "command_buffer s") (simp_all add: cchar_def)
  then have m2: "command_buffer s2 = ?m" using D l(2) by (simp add: s2_def clean_cmdbuffer_def)
  have c: "cchar ?m 0 = 36" "cchar ?m 1 = 0" by (simp_all add: cchar_def)
  have "cstr_at ?m 0 = [36]" using cstr_zeros [of "[36]" 121] by (simp add: cstr_at_def)
  then have u: "ustrchr ?m 0 44 = None" by (intro ustrchr_none) simp
  have sc: "scan_suffixes (Suc 1) ?m 0 mode ft = (?m, mode, ft, 0)" for mode ft
    using u c(1) by simp
  have "file_open fat sa s = load_directory fat sa (s2\<lparr>command_buffer := ?m\<rparr>)"
    using sa E(1) c sc [unfolded Suc_1] D n(2)
    by (simp add: file_open_def set_error_def strip_cr_def s2_def [symmetric] m2 Let_def)
  moreover have "no_chan s (s2\<lparr>command_buffer := ?m\<rparr>)" "same_eefs s (s2\<lparr>command_buffer := ?m\<rparr>)"
    using no_chanI [OF E(2)] E(3) m2 l(2) D
    by (simp_all add: s2_def clean_cmdbuffer_def no_chan_def same_cfg_def same_eefs_def)
  moreover have "command_length (s2\<lparr>command_buffer := ?m\<rparr>) = 1" by (simp add: s2_def clean_cmdbuffer_def)
  ultimately show ?thesis using that [of "s2\<lparr>command_buffer := ?m\<rparr>"] by simp
qed

lemma open_list:
  assumes dr: "eefs_drive s" and n: "cchar (command_buffer s) 0 = 36" "command_length s = 1" and sa: "find_buffer 0 s = None"
    and free: "\<exists>i < 32. \<not> b_allocated (buf i s)" and fs: "fs_ok s fl"
  obtains i s' where "file_open fat 0 s = Some s'"
    "listing fl i (dir_head (current_part s) @ concat (map (list_line \<circ> eefs_entry) (dir_order fl)) @ dir_foot (eefs_disk_free 0 s)) s'"
    "eeprom s' = eeprom s" "opened i 0 s s'" "b_cleanup (buf i s') = Cleanup_dummy"
proof -
  obtain s1 where S1: "file_open fat 0 s = load_directory fat 0 s1" "command_buffer s1 = 36 # replicate 121 0" "command_length s1 = 1"
    "no_chan s s1" "same_eefs s s1"
    by (rule file_open_dollar [OF dr n sa])
  note dr1 = no_chan_drive [OF S1(4) dr]
  have l1: "length (buffers s1) = 33" using dr1 by (simp add: eefs_drive_def)
  have free1: "\<exists>i < 32. \<not> b_allocated (buf i s1)" using free S1(4) by (auto simp: no_chan_def)
  obtain i s2 where A: "alloc_buffer s1 = Some (Some i, s2)" "i < 32" "\<not> b_allocated (buf i s1)"
    "buffers s2 = (buffers s1)[i := (buf_clear (buf i s1))\<lparr>b_allocated := True, b_refill := Refill_dummy, b_cleanup := Cleanup_dummy, b_secondary := 0\<rparr>]"
    "kept s1 s2" "same_eefs s1 s2"
    by (rule alloc_fresh [OF l1 free1])
  have "fw.more s2 = fw.more s1" using A(5) by (simp add: kept_def)
  note D = kept_drive [OF this]
  have P: "unat (current_part s2) < length (partitions s2)" "pt_fop (part (current_part s2) s2) = EEFSOPS" "current_part s2 = current_part s"
    using dr1 A(5) S1(4) by (simp_all add: eefs_drive_def kept_def no_chan_def same_cfg_def)
  let ?p = "current_part s"
  define s3 where "s3 = upd_buf i (\<lambda>b. b\<lparr>b_secondary := 0, b_read := True, b_lastused := 31\<rparr>) s2"
  define dh where "dh = \<lparr>dh_part = ?p, dh_fat = fatdir_zero, dh_d64 = d64dh_zero, dh_eefs = eepromfs_opendir\<rparr>"
  define s4 where "s4 = upd_dir i (\<lambda>v. v\<lparr>dr_dh := dh\<rparr>) s3"
  have fop: "fop_of fat ?p s = Some eefs_ops" if "partitions s = partitions s2" for s
    using P that fop_of_eefs [of ?p s fat] by simp
  have p3: "path_part (current_path (current_part s3) s3) = ?p" using P(3) by (simp add: current_path_def s3_def upd_buf_def)
  have ps: "partitions s3 = partitions s2" "partitions s4 = partitions s2" "command_buffer s3 = 36 # replicate 121 0" "command_length s3 = 1"
    using D S1(2,3) by (simp_all add: s3_def s4_def upd_dir_def upd_buf_def)
  have od: "open_dir_at fat (current_path (current_part s3) s3) i s3 = Some (Some (current_path (current_part s3) s3), s4)"
    using fop [OF ps(1)] p3 by (simp add: open_dir_at_def w_opendir_def eefs_ops_def eefs_opendir_def s4_def dh_def)
  have scan: "scan_dir_command fat 1 i s3 = Some (Some (current_path (current_part s3) s3), s4)"
    using od ps(3) by (simp add: scan_dir_command_def cchar_def)
  define s5 where "s5 = upd_buf i (\<lambda>b. b\<lparr>b_data := put_at HEADER_OFFSET_ID disk_id (b_data b)\<rparr>)
     (upd_buf i (\<lambda>b. b\<lparr>b_data := put_at HEADER_OFFSET_NAME (take 16 disk_label) (b_data b)\<rparr>)
     (upd_buf i (\<lambda>b. b\<lparr>b_data := (put_at 0 dirheader (b_data b))[HEADER_OFFSET_DRIVE := ?p + 1]\<rparr>) s4))"
  define s6 where "s6 = stick_buffer i (upd_buf i (\<lambda>b. b\<lparr>b_refill := Refill_dir\<rparr>) s5)"
  have "list_header fat (current_path (current_part s3) s3) i s4 = Some s6"
    using fop ps(2) p3
    by (simp add: list_header_def w_dir_label_def w_disk_id_def eefs_ops_def eefs_dir_label_def eefs_disk_id_def s5_def s6_def upd_buf_def)
  then have run: "file_open fat 0 s = Some s6"
    unfolding S1(1) using A(1) ps(3,4) scan by (simp add: load_directory_def s3_def [symmetric])
  let ?B = "(buf_clear (buf i s1))\<lparr>b_allocated := True, b_refill := Refill_dummy, b_cleanup := Cleanup_dummy, b_secondary := 0\<rparr>"
  have i: "i < length (buffers s2)" "length (buffers s2) = 33" using A(2,4) l1 by simp_all
  have d: "length (b_data (buf i s1)) = 256" using dr1 A(2) by (simp add: eefs_drive_def)
  have hd: "put_at HEADER_OFFSET_ID disk_id (put_at HEADER_OFFSET_NAME (take 16 disk_label)
      ((put_at 0 dirheader (b_data (buf i s1)))[HEADER_OFFSET_DRIVE := ?p + 1])) = dir_head ?p @ drop 32 (b_data (buf i s1))"
  proof -
    have l: "length dirheader = 32" by (simp add: dirheader_def)
    then have "put_at 0 dirheader (b_data (buf i s1)) = dirheader @ drop 32 (b_data (buf i s1))" by (simp add: put_at_def)
    with l show ?thesis
      by (simp add: list_update_append1 put_at_append dir_head_def disk_id_def disk_label_def)
  qed
  have b6: "buf i s6 = ?B\<lparr>b_read := True, b_lastused := 31, b_dir := dir_zero\<lparr>dr_dh := dh\<rparr>, b_data := dir_head ?p @ drop 32 (b_data (buf i s1)),
      b_refill := Refill_dir, b_sticky := True\<rparr>"
    using i A(2,4) l1 hd by (simp add: s6_def s5_def s4_def s3_def stick_buffer_def upd_dir_def buf_clear_def)
  have ot: "buf j s6 = buf j s1" if "j \<noteq> i" for j
    using that A(4) by (simp add: s6_def s5_def s4_def s3_def stick_buffer_def upd_dir_def)
  have e6: "eeprom s6 = eeprom s" "eefs_disk_free 0 s6 = eefs_disk_free 0 s" "fs_ok s6 fl"
    using same_eefsD [OF A(6)] same_eefsD [OF S1(5)] fs
    by (simp_all add: s6_def s5_def s4_def s3_def stick_buffer_def upd_dir_def eefs_disk_free_def eepromfs_free_sectors_def)
  have p6: "partitions s6 = partitions s2" "length (buffers s6) = 33"
    using i by (simp_all add: s6_def s5_def s4_def s3_def stick_buffer_def upd_dir_def upd_buf_def)
  have "eefs_at fl dh s6 (map eefs_entry (dir_order fl))" using e6(3) P p6(1) by (simp add: eefs_at_def dh_def eepromfs_opendir_def)
  moreover have "unsent (buf i s6) = dir_head ?p" using length_dir_head [of ?p] by (simp add: unsent_def b6 buf_clear_def)
  ultimately have "listing fl i (dir_head ?p @ concat (map (list_line \<circ> eefs_entry) (dir_order fl)) @ dir_foot (eefs_disk_free 0 s)) s6"
    unfolding listing_def Let_def using p6(2) A(2) d length_dir_head [of ?p] e6(2)
    by (simp add: b6 buf_clear_def dir_zero_def) (auto simp: o_def)
  moreover have "same_cfg s s6"
    using same_cfg_trans [of s s1 s2] kept_cfg [OF A(5)] S1(4)
    by (simp add: no_chan_def same_cfg_def s6_def s5_def s4_def s3_def stick_buffer_def upd_dir_def upd_buf_def)
  then have "opened i 0 s s6"
    using A(2,3) S1(4) ot p6(2) d length_dir_head [of ?p] l1 by (simp add: opened_def b6 no_chan_def buf_clear_def)
  ultimately show ?thesis using that run e6(1) by (simp add: b6)
qed

section \<open>LOAD of the directory\<close>

lemma listing_bus [simp]:
  "listing fl i D (s\<lparr>ieee488_ListenActive := x\<rparr>) = listing fl i D s" "listing fl i D (s\<lparr>ieee488_TalkingDevice := x\<rparr>) = listing fl i D s"
  "listing fl i D (at_rest s) = listing fl i D s"
  by (simp_all add: listing_def eefs_at_def at_rest_def eefs_disk_free_def eepromfs_free_sectors_def)

lemma concat_lines:
  assumes "fs_ok s fl"
  shows "length (concat (map (list_line \<circ> eefs_entry) (dir_order fl))) = 32 * length fl"
proof -
  have "length (concat (map g fs)) = 32 * length fs" if "\<forall>f \<in> set fs. length (g f) = 32" for g :: "afile \<Rightarrow> u8 list" and fs
    using that by (induction fs) auto
  from this [of "dir_order fl" "list_line \<circ> eefs_entry"] show ?thesis
    using eefs_entry_line(3) name_length [OF assms] by (simp add: dir_order_def)
qed

text \<open>
  C6. LOAD"$" over the bus with the EEPROM file system: the device sends the header line, for
  every file one line with its size in blocks, its name in quotes and its type, in the order
  of the directory entries, and the line with the number of free blocks; EOI comes with the
  very last byte.  No file changes and the device is idle again.
\<close>

theorem bus_list_directory:
  assumes "idle dev s" "fs_ok s fl"
  shows "\<exists>s'. handle_ieee488 ex (load_events dev (with_eoi (str ''$'')) (64 + 32 * length fl)) s =
      Some (with_eoi (dir_head (current_part s) @ concat (map (list_line \<circ> eefs_entry) (dir_order fl)) @ dir_foot (eefs_disk_free 0 s)), s') \<and>
    idle dev s' \<and> fs_ok s' fl \<and> eeprom s' = eeprom s"
proof -
  let ?D = "dir_head (current_part s) @ concat (map (list_line \<circ> eefs_entry) (dir_order fl)) @ dir_foot (eefs_disk_free 0 s)"
  let ?ns = "with_eoi (str ''$'')"
  let ?E2 = "[Ev_cmd (IEEE_TALK OR dev), Ev_cmd (IEEE_SECONDARY OR 0)] @ replicate (length ?D) Ev_take @
      [Ev_cmd IEEE_UNTALK, Ev_cmd (IEEE_LISTEN OR dev), Ev_cmd (IEEE_CLOSE OR 0), Ev_cmd IEEE_UNLISTEN] @ []"
  have k: "64 + 32 * length fl = length ?D" using concat_lines [OF assms(2)] length_dir_head length_dir_foot(1) by simp
  have ns: "?ns \<noteq> []" "length ?ns \<le> 120" "map fst ?ns = [36]" by (simp_all add: with_eoi_def)
  obtain s1 where S1: "named 0 (map fst ?ns) s s1"
    "\<And>s'. file_open (ex_fat ex) 0 s1 = Some s' \<Longrightarrow>
      handle_ieee488 ex (Ev_cmd (IEEE_LISTEN OR dev) # Ev_cmd (IEEE_OPEN OR 0) # data_events ?ns @ Ev_cmd IEEE_UNLISTEN # ?E2) s =
      handle_ieee488 ex ?E2 (s'\<lparr>ieee488_ListenActive := 0, command_received := False, open_active := False, command_length := 0\<rparr>)"
    by (rule bus_name [OF assms(1) ns(1,2), where sa = 0 and ex = ex and evs = ?E2]) auto
  note N = namedD [OF S1(1), unfolded ns(3)]
  have un: "unused dev s1" using assms(1) N(15) by (simp add: idle_def)
  then have u: "eefs_drive s1" "find_buffer 0 s1 = None" "\<exists>i < 32. \<not> b_allocated (buf i s1)" by (simp_all add: unused_def)
  have fs1: "fs_ok s1 fl" using assms(2) N(6) by simp
  have c1: "cchar (command_buffer s1) 0 = 36" "command_length s1 = 1"
    using cchar_prefix [of 0 "[36]" "command_buffer s1"] N(1,2) by (simp_all add: word_unat_eq_iff)
  have D1: "current_part s1 = current_part s" "eefs_disk_free 0 s1 = eefs_disk_free 0 s"
    using N(8,11) by (simp_all add: eefs_disk_free_def eepromfs_free_sectors_def)
  obtain i s2 where S2: "file_open (ex_fat ex) 0 s1 = Some s2" "listing fl i ?D s2" "eeprom s2 = eeprom s1" "opened i 0 s1 s2"
    "b_cleanup (buf i s2) = Cleanup_dummy"
    by (rule open_list [OF u(1) c1 u(2,3) fs1, unfolded D1])
  let ?s = "(at_rest s2)\<lparr>ieee488_TalkingDevice := dev, ieee488_ListenActive := 0\<rparr>"
  have r: "listing fl i ?D ?s \<and> eeprom ?s = eeprom s" "find_buffer 0 ?s = Some i" "(0 :: u8) \<noteq> 15"
    using S2(2,3) N(5) opened_find [OF S2(4) u(2)] by simp_all
  have Q: "fs_ok t' fl \<and> eeprom t' = eeprom s" if "same_eefs t t'" "fs_ok t fl \<and> eeprom t = eeprom s" for t t' :: "'a bus_scheme"
    using same_eefsD(1,3) [OF that(1)] that(2) by simp
  obtain s' where L: "handle_ieee488 ex ?E2 (at_rest s2) = map_option (apfst ((@) (with_eoi ?D))) (handle_ieee488 ex [] s')" "idle dev s'"
    "fs_ok s' fl \<and> eeprom s' = eeprom s"
  proof (rule load_tail [OF un S2(4) _ S2(5), where Q = "\<lambda>s'. fs_ok s' fl \<and> eeprom s' = eeprom s" and out = "with_eoi ?D" and evs = "[]"
        and k = "length ?D" and ex = ex])
    show "\<exists>s'. talk_data (ex_fat ex) 0 i (replicate (length ?D) Ev_take @ Ev_cmd IEEE_UNTALK # Ev_cmd (IEEE_LISTEN OR dev) #
        Ev_cmd (IEEE_CLOSE OR 0) # Ev_cmd IEEE_UNLISTEN # []) ?s =
        Some (with_eoi ?D, Ev_cmd IEEE_UNTALK # Ev_cmd (IEEE_LISTEN OR dev) # Ev_cmd (IEEE_CLOSE OR 0) # Ev_cmd IEEE_UNLISTEN # [], s') \<and>
        (fs_ok s' fl \<and> eeprom s' = eeprom s) \<and> in_buf i ?s s' \<and> b_cleanup (buf i s') = b_cleanup (buf i s2) \<and> length (b_data (buf i s')) = 256"
      using eefs_list.talk_source [OF r, where fat = "ex_fat ex"] by simp
  qed (use listingD(4) [OF S2(2)] Q in auto)
  have "handle_ieee488 ex (load_events dev ?ns (length ?D)) s = Some (with_eoi ?D, s')"
    using S1(2) [OF S2(1)] L(1) handle_ieee488.simps [of ex "[]" s'] unfolding load_events_def at_rest_def by simp
  then show ?thesis unfolding k using L(2,3) by blast
qed

theorem bus_list_directory_witness:
  "\<exists>(s :: bus) s' f. fs_ok s [f] \<and> af_name f = pad_name (str ''HELLO'') \<and>
    handle_ieee488 no_extern (load_events 8 (with_eoi (str ''$'')) 96) s =
      Some (with_eoi (dir_head (current_part s) @ list_line (eefs_entry f) @ dir_foot (eefs_disk_free 0 s)), s')"
proof -
  have m: "map fst (with_eoi (str ''HELLO'')) = str ''HELLO''" by (simp add: with_eoi_def)
  obtain f and s :: bus where s: "idle 8 s" "fs_ok s [f]" "af_name f = pad_name (str ''HELLO'')"
    by (rule save_session [OF bus0_idle bus0_fs bus0_entry, where ns = "with_eoi (str ''HELLO'')" and ds = "[(7, True)]" and ex = no_extern and evs = "[]",
          unfolded m]) (use plain_HELLO in \<open>auto simp: fits_def\<close>)
  have "dir_order [f] = [f]" by (simp add: dir_order_def)
  then show ?thesis using bus_list_directory [OF s(1,2), of no_extern] s(2,3) by auto
qed

end
