(* ===== verification/Status_Chan.thy ===== *)
theory Status_Chan
  imports Bus_Props
begin

text \<open>
  The error channel on the bus: reading secondary address 15 sends the current message with
  EOI on its carriage return and replaces it by the message of success.
\<close>

section \<open>The error buffer as a channel\<close>

definition status_channel :: "'a fw_scheme \<Rightarrow> bool" where
  "status_channel s \<longleftrightarrow> length (buffers s) = 33 \<and> find_buffer 15 s = Some 32 \<and>
     (let b = buf 32 s in b_read b \<and> b_sendeoi b \<and> b_recordlen b = 0 \<and> b_refill b = Refill_set_ok_message)"

text \<open>The bytes the error buffer will still send.\<close>

definition message :: "u8 list \<Rightarrow> 'a fw_scheme \<Rightarrow> bool" where
  "message D s \<longleftrightarrow> status_channel s \<and>
     (let b = buf 32 s in unat (b_position b) \<le> unat (b_lastused b) \<and> unat (b_lastused b) < length (b_data b) \<and>
        D = take (Suc (unat (b_lastused b)) - unat (b_position b)) (drop (unat (b_position b)) (b_data b)))"

lemma set_error_message:
  assumes "plain_error e" "status_channel s"
  obtains s' where "set_error_ts e t sc s = Some s'" "message (error_line e t sc @ [13]) s'" "current_error s' = e" "kept s s'"
proof -
  let ?l = "error_line e t sc"
  have l: "length ?l \<le> 38" "length (buffers s) = 33" using assms(2) length_error_line by (simp_all add: status_channel_def)
  obtain s' where S: "set_error_ts e t sc s = Some s'" "in_buf 32 s s'" "current_error s' = e"
    by (rule set_error_plain [OF assms(1) l(2)])
  have b: "buf 32 s' = (buf 32 s)\<lparr>b_position := 0, b_lastused := of_nat (length ?l), b_data := ?l @ 13 # replicate (99 - length ?l) 0\<rparr>"
    using S(1) l(2) by (auto simp: set_error_ts_plain [OF assms(1)] Let_def set_error_led_def update_leds_def)
  have u: "unat (of_nat (length ?l) :: u8) = length ?l" using l(1) by (simp add: unat_of_nat)
  have "status_channel s'"
    using assms(2) S(2) find_buffer_owners [of s s' 15] by (simp add: status_channel_def in_buf_def same_owners_def b Let_def)
  then have "message (?l @ [13]) s'" using l(1) by (simp add: message_def b u Let_def)
  then show ?thesis using that S by (simp add: in_buf_def)
qed

lemma message_ne: "message D s \<Longrightarrow> D \<noteq> []"
  by (auto simp: message_def Let_def)

lemma talk_message:
  assumes "message D s"
  shows "\<exists>s'. talk_data fat 15 32 (replicate (length D) Ev_take @ Ev_cmd c # evs) s = Some (with_eoi D, Ev_cmd c # evs, s') \<and>
    message (error_line 0 0 0 @ [13]) s' \<and> current_error s' = 0 \<and> kept s s'"
  using assms
proof (induction D arbitrary: s)
  case Nil
  then show ?case using message_ne by blast
next
  case (Cons x D)
  let ?b = "buf 32 s" and ?p = "unat (b_position (buf 32 s))" and ?l = "unat (b_lastused (buf 32 s))"
  have M: "length (buffers s) = 33" "find_buffer 15 s = Some 32" "b_read ?b" "b_sendeoi ?b" "b_recordlen ?b = 0"
    "b_refill ?b = Refill_set_ok_message" "?p \<le> ?l" "?l < length (b_data ?b)" "x # D = take (Suc ?l - ?p) (drop ?p (b_data ?b))"
    using Cons.prems by (simp_all add: message_def status_channel_def Let_def)
  have xD: "x = b_data ?b ! ?p" "D = take (?l - ?p) (drop (Suc ?p) (b_data ?b))"
    using M(7,8,9) by (simp_all add: Suc_diff_le flip: Cons_nth_drop_Suc)
  have o: "offered ?b = Some (x, b_position ?b = b_lastused ?b)" using M(4,7,8) xD(1) by (simp add: offered_def)
  define s1 where "s1 = upd_buf 32 (\<lambda>b. b\<lparr>b_position := b_position b + 1\<rparr>) s"
  have b1: "buf 32 s1 = ?b\<lparr>b_position := b_position ?b + 1\<rparr>" using M(1) by (simp add: s1_def)
  have in1: "in_buf 32 s s1" unfolding s1_def using M(1) by (intro in_buf_upd) simp_all
  have sc: "status_channel s1"
    using M(1-6) in1 find_buffer_owners [of s s1 15] by (simp add: status_channel_def b1 in_buf_def same_owners_def)
  show ?case
  proof (cases "b_position ?b < b_lastused ?b")
    case True
    then have lt: "?p < ?l" by (simp add: word_less_nat_alt)
    have p1: "unat (b_position ?b + 1) = Suc ?p" using lt u8_lt_256 [of "b_lastused ?b"] by (intro unat_Suc_u8) linarith
    have "message D s1" using sc lt M(8) by (simp add: message_def b1 p1 xD(2))
    from Cons.IH [OF this] obtain s' where I: "talk_data fat 15 32 (replicate (length D) Ev_take @ Ev_cmd c # evs) s1 = Some (with_eoi D, Ev_cmd c # evs, s')"
      "message (error_line 0 0 0 @ [13]) s'" "current_error s' = 0" "kept s1 s'" by blast
    have "D \<noteq> []" "b_position ?b \<noteq> b_lastused ?b" using message_ne [OF \<open>message D s1\<close>] True by auto
    then show ?thesis
      using I o True kept_trans [of s s1 s'] in1 by (intro exI [of _ s']) (simp add: Let_def with_eoi_Cons s1_def [symmetric] in_buf_def)
  next
    case False
    then have pl: "b_position ?b = b_lastused ?b" using M(7) by (simp add: word_less_nat_alt word_unat_eq_iff)
    obtain s2 where S2: "set_error_ts 0 0 0 s1 = Some s2" "message (error_line 0 0 0 @ [13]) s2" "current_error s2 = 0" "kept s1 s2"
      by (rule set_error_message [OF plain_0 sc])
    have "find_buffer 15 s2 = Some 32" "b_read (buf 32 s2)" using S2(2) by (simp_all add: message_def status_channel_def Let_def)
    moreover have "D = []" using xD(2) pl by simp
    ultimately show ?thesis
      using o False pl S2 M(6) b1 kept_trans [of s s1 s2] in1
      by (intro exI [of _ s2]) (simp add: Let_def with_eoi_def s1_def [symmetric] in_buf_def run_refill_def set_ok_message_def set_error_def)
  qed
qed

section \<open>Reading the status\<close>

definition status_events :: "u8 \<Rightarrow> nat \<Rightarrow> bus_event list" where
  "status_events dev k = [Ev_cmd (IEEE_TALK OR dev), Ev_cmd (IEEE_SECONDARY OR 15)] @ replicate k Ev_take @ [Ev_cmd IEEE_UNTALK]"

lemma bus_status:
  assumes s: "device_address s = dev" "dev < 31" "dev \<noteq> 0" and m: "message D s"
  obtains s' where "handle_ieee488 ex (status_events dev (length D) @ evs) s = map_option (apfst ((@) (with_eoi D))) (handle_ieee488 ex evs s')"
    "message (error_line 0 0 0 @ [13]) s'" "current_error s' = 0" "device_address s' = dev"
proof -
  let ?s = "s\<lparr>ieee488_TalkingDevice := dev, ieee488_ListenActive := 0\<rparr>" and ?evs = "Ev_cmd IEEE_UNTALK # evs"
  have m': "message D ?s" using m by (simp add: message_def status_channel_def)
  obtain s1 where T: "talk_data (ex_fat ex) 15 32 (replicate (length D) Ev_take @ ?evs) ?s = Some (with_eoi D, ?evs, s1)"
    "message (error_line 0 0 0 @ [13]) s1" "current_error s1 = 0" "kept ?s s1"
    using talk_message [OF m'] by blast
  have loop: "ieee488_TalkLoop (ex_fat ex) 15 (replicate (length D) Ev_take @ ?evs) ?s = Some (with_eoi D, ?evs, s1)"
    using m' T(1) by (simp add: ieee488_TalkLoop_def message_def status_channel_def Let_def)
  have "handle_ieee488 ex (Ev_cmd (IEEE_SECONDARY OR 15) # replicate (length D) Ev_take @ ?evs) ?s =
      map_option (apfst ((@) (with_eoi D))) (handle_ieee488 ex ?evs s1)"
    using s(3) loop by (intro bus_read) simp_all
  then have "handle_ieee488 ex (status_events dev (length D) @ evs) s =
      map_option (apfst ((@) (with_eoi D))) (handle_ieee488 ex evs (ieee488_Untalk s1))"
    using bus_talk [OF s(2,1)] bus_untalk [of ex evs s1] by (simp add: status_events_def)
  moreover have "device_address s1 = dev" using same_diskI(2) [OF T(4)] s(1) by (simp add: same_disk_def)
  ultimately show ?thesis
    using that [of "ieee488_Untalk s1"] T(2,3) by (simp add: ieee488_Untalk_def message_def status_channel_def)
qed


lemma bus0_status: "status_channel bus0" "device_address bus0 = 8"
proof -
  have l: "length (buffers bus0) = 33" "b_allocated (buf 32 bus0)" "b_secondary (buf 32 bus0) = 15"
    using bus0_idle by (simp_all add: idle_def unused_def eefs_drive_def)
  have "find_buffer 15 bus0 = Some 32"
  proof (cases "find_buffer 15 bus0")
    case None
    then show ?thesis using find_buffer_None [of 15 bus0 32] l by simp
  next
    case (Some i)
    have "\<not> b_allocated (buf i bus0)" if "i < 32"
      using that by (simp add: bus0_def buffers_init_def upd_buf_def buf_clear_def buf_zero_def nth_append)
    then have "i = 32" using find_buffer_Some [OF Some] by (cases "i < 32") auto
    then show ?thesis using Some by simp
  qed
  then show "status_channel bus0" "device_address bus0 = 8"
    using l(1) bus0_idle by (simp_all add: status_channel_def idle_def unused_def)
      (simp add: bus0_def buffers_init_def upd_buf_def buf_clear_def buf_zero_def nth_append)
qed


end
