(* ===== verification/Command_Props.thy ===== *)
theory Command_Props
  imports Status_Chan
begin

text \<open>
  The command channel: what becomes of a command sent over the bus, and the commands that
  change the partition, read the memory, copy files and set the clock.
\<close>

section \<open>Receiving a command\<close>

text \<open>Bytes behind the 120th are dropped.\<close>

lemma listen_text_any:
  assumes "unat (command_length s) \<le> 120" "length (command_buffer s) = 122"
  shows "\<exists>m l. listen_text (data_events ds @ Ev_cmd c # evs) s = (Ev_cmd c # evs, s\<lparr>command_buffer := m, command_length := l\<rparr>) \<and>
    length m = 122 \<and> unat l = min 120 (unat (command_length s) + length ds) \<and>
    take (unat l) m = take 120 (take (unat (command_length s)) (command_buffer s) @ map fst ds)"
  using assms
proof (induction ds arbitrary: s)
  case Nil
  then show ?case by (intro exI [of _ "command_buffer s"] exI [of _ "command_length s"]) simp
next
  case (Cons d ds)
  obtain x e where d: "d = (x, e)" by (cases d)
  let ?k = "unat (command_length s)"
  show ?case
  proof (cases "?k < 120")
    case True
    let ?s = "s\<lparr>command_buffer := (command_buffer s)[?k := x], command_length := command_length s + 1\<rparr>"
    have l: "unat (command_length s + 1) = Suc ?k" using True by (intro unat_Suc_u8) simp
    have r: "RxChar x s = ?s" using True by (simp add: RxChar_def)
    have "unat (command_length ?s) \<le> 120" "length (command_buffer ?s) = 122" using True l Cons.prems(2) by simp_all
    then obtain m l' where M: "listen_text (data_events ds @ Ev_cmd c # evs) ?s =
        (Ev_cmd c # evs, ?s\<lparr>command_buffer := m, command_length := l'\<rparr>)"
      "length m = 122" "unat l' = min 120 (unat (command_length ?s) + length ds)"
      "take (unat l') m = take 120 (take (unat (command_length ?s)) (command_buffer ?s) @ map fst ds)" using Cons.IH by blast
    have "take (Suc ?k) ((command_buffer s)[?k := x]) = take ?k (command_buffer s) @ [x]"
      using True Cons.prems(2) by (simp add: take_Suc_conv_app_nth)
    then show ?thesis using M l by (intro exI [of _ m] exI [of _ l']) (simp add: d r)
  next
    case False
    then have k: "?k = 120" using Cons.prems(1) by simp
    then have r: "RxChar x s = s" by (simp add: RxChar_def)
    obtain m l' where M: "listen_text (data_events ds @ Ev_cmd c # evs) s = (Ev_cmd c # evs, s\<lparr>command_buffer := m, command_length := l'\<rparr>)"
      "length m = 122" "unat l' = min 120 (?k + length ds)" "take (unat l') m = take 120 (take ?k (command_buffer s) @ map fst ds)"
      using Cons.IH [OF Cons.prems] by blast
    show ?thesis using M k Cons.prems(2) by (intro exI [of _ m] exI [of _ l']) (simp add: d r)
  qed
qed

definition command_events :: "u8 \<Rightarrow> (u8 \<times> bool) list \<Rightarrow> bus_event list" where
  "command_events dev ds = [Ev_cmd (IEEE_LISTEN OR dev), Ev_cmd (IEEE_SECONDARY OR 15)] @ data_events ds @ [Ev_cmd IEEE_UNLISTEN]"

text \<open>The device waits for commands.\<close>

definition command_ready :: "u8 \<Rightarrow> 'a bus_scheme \<Rightarrow> bool" where
  "command_ready dev s \<longleftrightarrow> device_address s = dev \<and> dev < 31 \<and> dev \<noteq> 0 \<and> length (command_buffer s) = 122 \<and> command_length s = 0 \<and>
     length (buffers s) = 33 \<and> find_buffer 15 s = Some 32 \<and> b_write (buf 32 s)"

text \<open>The state in which a command has been received.\<close>

definition commanded :: "u8 list \<Rightarrow> 'a bus_scheme \<Rightarrow> 'a bus_scheme \<Rightarrow> bool" where
  "commanded bs s s' \<longleftrightarrow> (\<exists>t m l. s' = s\<lparr>ieee488_ListenActive := t, ieee488_TalkingDevice := 0, command_received := True,
       command_buffer := m, command_length := l\<rparr> \<and> length m = 122 \<and> unat l = min 120 (length bs) \<and> take (unat l) m = take 120 bs)"

lemma bus_command:
  assumes rd: "command_ready dev s"
  obtains s1 where "commanded (map fst ds) s s1"
    "\<And>s'. parse_doscommand ex s1 = Some s' \<Longrightarrow>
      handle_ieee488 ex (command_events dev ds @ evs) s =
      handle_ieee488 ex evs (s'\<lparr>ieee488_ListenActive := 0, command_received := False, open_active := False, command_length := 0\<rparr>)"
proof -
  have R: "device_address s = dev" "dev < 31" "dev \<noteq> 0" "length (command_buffer s) = 122" "command_length s = 0"
    "find_buffer 15 s = Some 32" "b_write (buf 32 s)" using rd by (simp_all add: command_ready_def)
  let ?s = "s\<lparr>ieee488_ListenActive := dev, ieee488_TalkingDevice := 0\<rparr>"
  let ?s' = "?s\<lparr>command_received := True\<rparr>"
  have "unat (command_length ?s') \<le> 120" "length (command_buffer ?s') = 122" using R by simp_all
  from listen_text_any [OF this, of ds IEEE_UNLISTEN evs] obtain m l where M:
    "listen_text (data_events ds @ Ev_cmd IEEE_UNLISTEN # evs) ?s' = (Ev_cmd IEEE_UNLISTEN # evs, ?s'\<lparr>command_buffer := m, command_length := l\<rparr>)"
    "length m = 122" "unat l = min 120 (length ds)" "take (unat l) m = take 120 (map fst ds)" using R by auto
  define s1 where "s1 = ?s'\<lparr>command_buffer := m, command_length := l\<rparr>"
  have L: "ieee488_ListenLoop (ex_fat ex) False 15 (data_events ds @ Ev_cmd IEEE_UNLISTEN # evs) ?s = Some (Ev_cmd IEEE_UNLISTEN # evs, s1)"
    using M(1) R(6,7) by (simp add: ieee488_ListenLoop_def Let_def s1_def)
  have "commanded (map fst ds) s s1"
    unfolding commanded_def s1_def using M(2-4) by (intro exI [of _ dev] exI [of _ m] exI [of _ l]) simp
  moreover have "handle_ieee488 ex (command_events dev ds @ evs) s =
      handle_ieee488 ex evs (s'\<lparr>ieee488_ListenActive := 0, command_received := False, open_active := False, command_length := 0\<rparr>)"
    if p: "parse_doscommand ex s1 = Some s'" for s'
  proof -
    have "handle_ieee488 ex (Ev_cmd (IEEE_SECONDARY OR 15) # data_events ds @ Ev_cmd IEEE_UNLISTEN # evs) ?s =
        handle_ieee488 ex (Ev_cmd IEEE_UNLISTEN # evs) s1"
      using R(3) L by (intro bus_write) simp_all
    moreover have "ieee488_Unlisten ex s1 =
        Some (s'\<lparr>ieee488_ListenActive := 0, command_received := False, open_active := False, command_length := 0\<rparr>)"
      using p by (simp add: ieee488_Unlisten_def s1_def)
    ultimately show ?thesis using bus_listen [OF R(2,1)] bus_unlisten [of ex s1] by (simp add: command_events_def)
  qed
  ultimately show ?thesis by (rule that)
qed

lemma commandedD:
  assumes "commanded bs s s'"
  shows "length (command_buffer s') = 122" "unat (command_length s') = min 120 (length bs)"
    "take (unat (command_length s')) (command_buffer s') = take 120 bs" "buffers s' = buffers s" "partitions s' = partitions s"
  using assms by (auto simp: commanded_def)

section \<open>Refused commands\<close>

text \<open>The error for a command: too long, empty but for a carriage return, or unknown.\<close>

definition known_commands :: "u8 list" where
  "known_commands = str ''BCDGIMNPRSTUX''"

definition refused_with :: "u8 list \<Rightarrow> u8" where
  "refused_with bs = (if 120 \<le> length bs then 32 else if bs = [] \<or> bs = [13] then 31 else 30)"

text \<open>Only the message and the command buffer change.\<close>

definition harmless :: "'a drive_scheme \<Rightarrow> 'a drive_scheme \<Rightarrow> bool" where
  "harmless s s' \<longleftrightarrow> same_eefs s s' \<and> partitions s' = partitions s \<and> current_part s' = current_part s \<and>
     device_address s' = device_address s \<and> length (command_buffer s') = length (command_buffer s) \<and>
     (\<forall>j. j \<noteq> 32 \<longrightarrow> buf j s' = buf j s)"

lemma harmless_trans: "harmless s s' \<Longrightarrow> harmless s' s'' \<Longrightarrow> harmless s s''"
  by (auto simp: harmless_def same_eefs_def)

lemma set_error_harmless:
  assumes "plain_error e" "length (buffers s) = 33"
  obtains s' where "set_error e s = Some s'" "harmless s s'" "current_error s' = e" "length (buffers s') = 33"
    "command_buffer s' = command_buffer s" "command_length s' = command_length s" "drive.more s' = drive.more s"
proof -
  obtain s' where S: "set_error_ts e 0 0 s = Some s'" "in_buf 32 s s'" "same_eefs s s'" "current_error s' = e"
    by (rule set_error_plain [OF assms])
  have "fw.more s' = fw.more s" "partitions s' = partitions s" "current_part s' = current_part s"
    using S(2) by (simp_all add: in_buf_def kept_def)
  note D = kept_drive [OF this(1)]
  then show ?thesis
    using that S assms(2) \<open>partitions s' = partitions s\<close> \<open>current_part s' = current_part s\<close>
    by (simp add: set_error_def harmless_def in_buf_def same_owners_def)
qed

lemma parse_doscommand_refused:
  assumes c: "length (command_buffer s) = 122" "unat (command_length s) = min 120 (length bs)"
      "take (unat (command_length s)) (command_buffer s) = take 120 bs" and b: "length (buffers s) = 33"
    and bs: "120 \<le> length bs \<or> bs = [] \<or> hd bs \<notin> set known_commands"
  obtains s' where "parse_doscommand ex s = Some s'" "current_error s' = refused_with bs" "harmless s s'" "drive.more s' = drive.more s"
proof -
  have plain: "plain_error 0" "plain_error 30" "plain_error 31" "plain_error 32" by (simp_all add: plain_error_def)
  obtain s1 where S1: "set_error 0 s = Some s1" "harmless s s1" "length (buffers s1) = 33" "command_buffer s1 = command_buffer s"
    "command_length s1 = command_length s" "drive.more s1 = drive.more s"
    by (rule set_error_harmless [OF plain(1) b])
  show ?thesis
  proof (cases "120 \<le> length bs")
    case True
    then have l: "unat (command_length s1) = 120" using c(2) S1(5) by simp
    obtain s2 where "set_error 32 s1 = Some s2" "harmless s1 s2" "current_error s2 = 32" "drive.more s2 = drive.more s1"
      by (rule set_error_harmless [OF plain(4) S1(3)])
    then show ?thesis using that [of s2] True l S1 harmless_trans [OF S1(2)] by (simp add: parse_doscommand_def refused_with_def)
  next
    case False
    then have l: "unat (command_length s) = length bs" "take (length bs) (command_buffer s) = bs" using c(2,3) by simp_all
    define s2 where "s2 = (let s = s1\<lparr>original_length := command_length s1\<rparr>
       in if command_length s > 0 \<and> cchar (command_buffer s) (unat (command_length s) - 1) = 0x0d
          then s\<lparr>command_length := command_length s - 1\<rparr> else s)"
    have s2: "harmless s1 s2" "length (buffers s2) = 33" "drive.more s2 = drive.more s1" "command_buffer s2 = command_buffer s"
      using S1(3,4) by (auto simp: s2_def Let_def harmless_def same_eefs_def)
    have nz: "command_length s2 = 0 \<longleftrightarrow> bs = [] \<or> bs = [13]"
    proof -
      have z: "cchar (command_buffer s) (length bs - 1) = last bs" if "bs \<noteq> []"
        using cchar_prefix [of "length bs - 1" bs "command_buffer s"] l(2) that by (simp add: last_conv_nth)
      have u: "unat (command_length s - 1) = length bs - 1" if "bs \<noteq> []"
      proof -
        have "1 \<le> unat (command_length s)" using l(1) that by (cases bs) simp_all
        then show ?thesis using l(1) by (intro unat_sub_u8 [THEN trans]) simp_all
      qed
      show ?thesis
      proof (cases "bs = []")
        case True
        then have "command_length s = 0" using l(1) by (simp add: word_unat_eq_iff)
        then show ?thesis using True S1(5) by (simp add: s2_def Let_def)
      next
        case ne: False
        then have g: "command_length s > 0" "command_length s \<noteq> 0" using l(1) by (auto simp: word_less_nat_alt word_unat_eq_iff)
        show ?thesis
        proof (cases "last bs = 13")
          case True
          then have "command_length s2 = command_length s - 1" using g z [OF ne] l(1) S1(4,5) by (simp add: s2_def Let_def)
          then have "command_length s2 = 0 \<longleftrightarrow> length bs = 1" using u [OF ne] ne by (simp add: word_unat_eq_iff le_Suc_eq)
          also have "\<dots> \<longleftrightarrow> bs = [13]" using True by (auto simp: length_Suc_conv)
          finally show ?thesis using ne by simp
        next
          case False
          then have "command_length s2 = command_length s" using z [OF ne] l(1) S1(4,5) by (simp add: s2_def Let_def)
          then show ?thesis using g ne False by auto
        qed
      qed
    qed
    have c120: "unat (command_length s1) \<noteq> 120" using False l(1) S1(5) by simp
    have e: "command_length s2 = 0 \<Longrightarrow> parse_doscommand ex s = set_error ERROR_SYNTAX_UNABLE s2"
      "command_length s2 \<noteq> 0 \<Longrightarrow> cchar (command_buffer s2) 0 \<notin> set known_commands \<Longrightarrow> parse_doscommand ex s =
        (if cchar (command_buffer s2) 1 = asc CHR ''D'' then parse_dircommand (ex_fat ex) s2 else set_error ERROR_SYNTAX_UNKNOWN s2)"
      unfolding parse_doscommand_def ERROR_OK_def S1(1) Let_def Option.bind.bind_lunit CONFIG_COMMAND_BUFFER_SIZE_def if_not_P [OF c120]
        s2_def [unfolded Let_def, symmetric]
      by (simp_all add: known_commands_def)
    show ?thesis
    proof (cases "bs = [] \<or> bs = [13]")
      case True
      obtain s3 where "set_error 31 s2 = Some s3" "harmless s2 s3" "current_error s3 = 31" "drive.more s3 = drive.more s2"
        by (rule set_error_harmless [OF plain(3) s2(2)])
      then show ?thesis
        using that [of s3] True False nz e(1) S1(2,6) s2(1,3) harmless_trans [OF harmless_trans [OF S1(2) s2(1)]] by (simp add: refused_with_def)
    next
      case ne: False
      have c0: "cchar (command_buffer s2) 0 = hd bs"
        using cchar_prefix [of 0 bs "command_buffer s"] l(2) s2(4) ne by (cases bs) simp_all
      have k: "hd bs \<notin> set known_commands" using bs False ne by blast
      have "\<exists>s3. harmless s2 s3 \<and> length (buffers s3) = 33 \<and> drive.more s3 = drive.more s2 \<and> parse_doscommand ex s = set_error 30 s3"
      proof (cases "cchar (command_buffer s2) 1 = asc CHR ''D''")
        case True
        let ?s = "clean_cmdbuffer s2"
        have "0 < unat (command_length s2)" using nz ne by (simp add: unat_gt_0)
        then have "cchar (command_buffer ?s) 0 = hd bs"
          using c0 c(1) s2(4) by (cases "command_buffer s") (auto simp: clean_cmdbuffer_def cchar_def nth_append)
        then have "parse_dircommand (ex_fat ex) s2 = set_error 30 ?s" using k by (simp add: parse_dircommand_def Let_def known_commands_def)
        moreover have "unat (command_length s2) \<le> 122"
        proof -
          have "unat (command_length s - 1) = unat (command_length s) - 1" if "command_length s > 0"
            using that by (intro unat_sub_u8 [THEN trans]) (simp_all add: word_less_nat_alt)
          then have "unat (command_length s2) \<le> unat (command_length s)" using S1(5) by (simp add: s2_def Let_def)
          then show ?thesis using c(2) by simp
        qed
        ultimately show ?thesis
          using e(2) nz ne k c0 True s2(2) by (intro exI [of _ ?s]) (simp add: clean_cmdbuffer_def harmless_def same_eefs_def)
      next
        case False
        then show ?thesis using e(2) nz ne k c0 s2(2) by (intro exI [of _ s2]) (simp add: harmless_def same_eefs_def)
      qed
      then obtain s3 where S3: "harmless s2 s3" "length (buffers s3) = 33" "drive.more s3 = drive.more s2" "parse_doscommand ex s = set_error 30 s3" by blast
      obtain s4 where "set_error 30 s3 = Some s4" "harmless s3 s4" "current_error s4 = 30" "drive.more s4 = drive.more s3"
        by (rule set_error_harmless [OF plain(2) S3(2)])
      then show ?thesis
        using that [of s4] False ne S3 S1(6) s2(3) harmless_trans [OF harmless_trans [OF harmless_trans [OF S1(2) s2(1)] S3(1)]]
        by (simp add: refused_with_def)
    qed
  qed
qed

text \<open>
  C12. A command that cannot be executed: one of 120 or more bytes is refused with error 32 and
  never written behind the end of the command buffer, an empty one with error 31 and one with
  an unknown letter with error 30; files, channels, partitions and the device address are
  unchanged and the device accepts the next command.
\<close>

theorem bus_command_refused:
  assumes "command_ready dev s" "120 \<le> length bs \<or> bs = [] \<or> hd bs \<notin> set known_commands" "map fst ds = bs"
  shows "\<exists>s'. handle_ieee488 ex (command_events dev ds) s = Some ([], s') \<and> current_error s' = refused_with bs \<and>
    same_eefs s s' \<and> partitions s' = partitions s \<and> current_part s' = current_part s \<and> (\<forall>j. j \<noteq> 32 \<longrightarrow> buf j s' = buf j s) \<and>
    device_address s' = dev \<and> length (command_buffer s') = 122 \<and> command_length s' = 0"
proof -
  obtain s1 where S1: "commanded (map fst ds) s s1"
    "\<And>s'. parse_doscommand ex s1 = Some s' \<Longrightarrow>
      handle_ieee488 ex (command_events dev ds @ []) s =
      handle_ieee488 ex [] (s'\<lparr>ieee488_ListenActive := 0, command_received := False, open_active := False, command_length := 0\<rparr>)"
    by (rule bus_command [OF assms(1), where ds = ds and ex = ex and evs = "[]"]) auto
  note C = commandedD [OF S1(1) [unfolded assms(3)]]
  have l: "length (buffers s1) = 33" using C(4) assms(1) by (simp add: command_ready_def)
  obtain s2 where S2: "parse_doscommand ex s1 = Some s2" "current_error s2 = refused_with bs" "harmless s1 s2"
    by (rule parse_doscommand_refused [OF C(1-3) l assms(2)])
  let ?s = "s2\<lparr>ieee488_ListenActive := 0, command_received := False, open_active := False, command_length := 0\<rparr>"
  have "harmless s ?s" using S1(1) S2(3) C(1) assms(1) by (auto simp: commanded_def harmless_def same_eefs_def command_ready_def)
  then show ?thesis
    using S1(2) [OF S2(1)] S2(2) handle_ieee488.simps [of ex "[]" ?s] assms(1) C(1)
    by (intro exI [of _ ?s]) (simp add: harmless_def command_ready_def same_eefs_def)
qed

lemma bus0_command: "command_ready 8 bus0"
  using bus0_status by (simp add: command_ready_def status_channel_def)
    (simp add: bus0_def buffers_init_def upd_buf_def buf_clear_def buf_zero_def nth_append)

theorem bus_command_refused_witness:
  "\<exists>s'. handle_ieee488 no_extern (command_events 8 (map (\<lambda>x. (x, False)) (replicate 200 65))) bus0 = Some ([], s') \<and> current_error s' = 32"
  using bus_command_refused [OF bus0_command, of "replicate 200 65" "map (\<lambda>x. (x, False)) (replicate 200 65)" no_extern]
  by (auto simp: refused_with_def o_def)

end
