(* ===== verification/Copy_Props.thy ===== *)
theory Copy_Props
  imports Bus_Props
begin

text \<open>
  The copy command when its destination could not be opened: the loop makes no progress.
\<close>

text \<open>
  A source with data at position 1 or later, and a destination buffer as \<open>alloc_buffer\<close> leaves it.
\<close>

definition stuck :: "nat \<Rightarrow> nat \<Rightarrow> 'a fw_scheme \<Rightarrow> bool" where
  "stuck si di s \<longleftrightarrow> si \<noteq> di \<and> si < length (buffers s) \<and> di < length (buffers s) \<and>
     b_position (buf di s) = 0 \<and> b_recordlen (buf di s) = 0 \<and> b_refill (buf di s) = Refill_dummy \<and>
     b_recordlen (buf si s) = 0 \<and> 0 < unat (b_position (buf si s)) \<and> unat (b_position (buf si s)) \<le> unat (b_lastused (buf si s))"

lemma stuck_round:
  assumes "stuck si di s"
  obtains s1 s2 where "copy_round False si di s = Some (False, s1)" "copy_refill fat si di s1 = Some (False, s2)" "stuck si di s2"
proof -
  let ?src = "buf si s" and ?dst = "buf di s" and ?p = "b_position (buf si s)"
  have S: "si \<noteq> di" "si < length (buffers s)" "di < length (buffers s)" "b_position ?dst = 0" "b_recordlen ?dst = 0"
    "b_refill ?dst = Refill_dummy" "b_recordlen ?src = 0" "0 < unat ?p" "unat ?p \<le> unat (b_lastused ?src)"
    using assms by (simp_all add: stuck_def)
  have n: "copy_count False ?src ?dst = 0"
  proof -
    have "uint ?p \<le> uint (b_lastused ?src)" using S(9) by (simp add: word_le_nat_alt flip: word_le_def)
    then have "\<not> uint (0 :: u8) > uint (b_lastused ?src) - uint ?p + 1" by simp
    then show ?thesis unfolding copy_count_def Let_def S(4) by simp
  qed
  define sa where "sa = mark_buffer_dirty di (upd_buf di (\<lambda>b. b\<lparr>b_data := put_at 0 [] (b_data b)\<rparr>) s)"
  define s1 where "s1 = upd_buf di (\<lambda>b. b\<lparr>b_lastused := b_position b - 1\<rparr>) (upd_buf si (\<lambda>b. b\<lparr>b_position := b_position b - 1\<rparr>) sa)"
  let ?sd = "upd_buf di (\<lambda>b. b\<lparr>b_data := put_at 0 [] (b_data b)\<rparr>) s"
  have ld: "di < length (buffers ?sd)" using S(3) by simp
  have ba: "buffers sa = (buffers s)[di := ?dst\<lparr>b_dirty := True\<rparr>]"
    unfolding sa_def upd_dirty(2) [OF ld] using S(3) by (simp add: upd_buf_def put_at_def)
  have b1: "buf si s1 = ?src\<lparr>b_position := ?p - 1\<rparr>" "buf di s1 = ?dst\<lparr>b_dirty := True, b_position := 0, b_lastused := -1\<rparr>"
    "length (buffers s1) = length (buffers s)"
    using S(1-4) by (simp_all add: s1_def upd_buf_def ba)
  have p1: "unat (?p - 1) = unat ?p - 1" using S(8) by (intro unat_sub_u8 [THEN trans]) simp_all
  then have ne: "?p - 1 \<noteq> b_lastused ?src" using S(8,9) by (auto simp: word_unat_eq_iff)
  have "\<not> 256 < unat ?p" using u8_lt_256 [of ?p] by linarith
  then have run1: "copy_round False si di s = Some (False, s1)"
    using n S(4) ne b1(1) unfolding copy_round_def Let_def
    by (simp add: sa_def [symmetric] s1_def [symmetric])
  define s2 where "s2 = upd_buf si (\<lambda>b. b\<lparr>b_position := b_position b + 1\<rparr>) s1"
  have b2: "buf si s2 = ?src" "buf di s2 = buf di s1" "length (buffers s2) = length (buffers s)"
    using S(1,2) b1 by (simp_all add: s2_def)
  have run2: "copy_refill fat si di s1 = Some (False, s2)"
    using S ne b1 b2 unfolding copy_refill_def Let_def
    by (simp add: s2_def [symmetric] run_refill_def callback_dummy_def)
  have "stuck si di s2" unfolding stuck_def b2 using S b1 by simp
  then show ?thesis using that run1 run2 by blast
qed

lemma stuck_None:
  assumes "stuck si di s"
  shows "copy_loop fat False si di s = None"
proof (rule ccontr)
  assume "copy_loop fat False si di s \<noteq> None"
  then obtain r where R: "copy_loop fat False si di s = Some r" by auto
  have "\<not> False \<longrightarrow> \<not> stuck si di s"
  proof (rule copy_loop.raw_induct [of "\<lambda>fat rel si di s r. \<not> rel \<longrightarrow> \<not> stuck si di s", OF _ R], intro impI notI)
    fix loop fat rel si di s r
    assume IH: "\<And>fat rel si di s r. loop fat rel si di s = Some r \<Longrightarrow> \<not> rel \<longrightarrow> \<not> stuck si di s"
      and body: "do { (finished, s) \<leftarrow> copy_round rel si di s;
        if finished then Some (False, s)
        else do { (err, s) \<leftarrow> copy_refill fat si di s; if err then Some (True, s) else loop fat rel si di s } } = Some r"
      and n: "\<not> rel" and st: "stuck si di s"
    obtain s1 s2 where S: "copy_round False si di s = Some (False, s1)" "copy_refill fat si di s1 = Some (False, s2)" "stuck si di s2"
      by (rule stuck_round [OF st])
    then have "loop fat False si di s2 = Some r" using body n by simp
    then show False using IH S(3) by blast
  qed
  then show False using assms by simp
qed

text \<open>Opening a file for writing when no directory entry is free leaves the buffer as it was.\<close>

lemma open_write_full:
  assumes fs: "fs_ok s fl" "\<forall>f \<in> set fl. af_name f \<noteq> pad_name n" "\<forall>k < 8. bm_get (used_entries s) k"
    and n: "plain_name n" and b: "length (buffers s) = 33" "i < 32"
  obtains s' fh where "eefs_open_write path (new_dirent n) ty i False s = Some ((new_dirent n)\<lparr>ce_name := pad_name n @ [0]\<rparr>, s')"
    "buf i s' = (buf i s)\<lparr>b_eefh := fh\<rparr>" "\<forall>j. j \<noteq> i \<longrightarrow> j \<noteq> 32 \<longrightarrow> buf j s' = buf j s" "length (buffers s') = 33" "current_error s' = 72"
proof -
  have nm: "repad_filename (ce_name (new_dirent n)) = Some (pad_name n @ [0])" "take 16 (pad_name n @ [0]) = pad_name n" "length (pad_name n) = 16"
    using repad_plain [OF n new_dirent_name [OF n]] plain_nameD(2) [OF n] by simp_all
  have "\<exists>fh. eepromfs_open (pad_name n) EEFS_MODE_WRITE s = Some (EEFS_ERROR_DIRFULL, fh, load 7 s)"
    by (cases rule: eepromfs_open_write_ok [OF fs(1,2) nm(3)]) (use fs(3) in blast)+
  then obtain fh where O: "eepromfs_open (pad_name n @ [0]) EEFS_MODE_WRITE s = Some (EEFS_ERROR_DIRFULL, fh, load 7 s)"
    using eepromfs_open_take [of "pad_name n @ [0]" EEFS_MODE_WRITE s] nm(2) by auto
  note K = kept_eefs [OF open_frame [OF O]]
  define s1 where "s1 = upd_buf i (\<lambda>b. b\<lparr>b_eefh := fh\<rparr>) (load 7 s)"
  have l1: "length (buffers s1) = 33" using b(1) K(2) by (simp add: s1_def)
  have pe: "plain_error 72" by (simp add: plain_error_def)
  obtain s2 where E: "set_error_ts 72 (eefs_error_num EEFS_ERROR_DIRFULL) 0 s1 = Some s2" "in_buf 32 s1 s2" "current_error s2 = 72"
    by (rule set_error_plain [OF pe l1])
  have "eefs_open_write path (new_dirent n) ty i False s = Some ((new_dirent n)\<lparr>ce_name := pad_name n @ [0]\<rparr>, s2)"
    using nm(1) O E(1) by (simp add: eefs_open_write_def translate_error_def s1_def [symmetric])
  moreover have "buf i s2 = (buf i s)\<lparr>b_eefh := fh\<rparr>" "\<forall>j. j \<noteq> i \<longrightarrow> j \<noteq> 32 \<longrightarrow> buf j s2 = buf j s" "length (buffers s2) = 33"
    using E(2) b K(2) l1 by (simp_all add: in_buf_def same_owners_def s1_def)
  ultimately show ?thesis using that E(3) by blast
qed

text \<open>
  C23. Copying a file of the EEPROM file system when no directory entry is free for the copy:
  the failure to open the destination (error 72) is not noticed, every round of the copy loop
  copies nothing and leaves the buffers so that the next round does the same.  The command
  never ends.
\<close>

theorem copy_to_full_directory_hangs:
  assumes fs: "fs_ok s fl" "f \<in> set fl" "0 < unat (af_size f)" "length (all_ents fl) = 8"
    and n: "plain_name m" "af_name f = pad_name m" "plain_name n" "\<forall>g \<in> set fl. af_name g \<noteq> pad_name n"
    and b: "length (buffers s) = 33" "si < 32" "di < 32" "si \<noteq> di" "length (b_data (buf si s)) = 256" "b_recordlen (buf si s) = 0"
      "b_position (buf di s) = 0" "b_recordlen (buf di s) = 0" "b_refill (buf di s) = Refill_dummy"
    and p: "fop_of fat (path_part srcpath) s = Some eefs_ops" "fop_of fat (path_part dstpath) s = Some eefs_ops"
  shows "\<exists>s'. copy_open fat dstpath n srcpath (eefs_entry f) 0 si di s = Some (Some TYPE_PRG, s') \<and> current_error s' = 72 \<and>
    copy_loop fat False si di s' = None \<and>
    (\<exists>s1 s2. copy_round False si di s' = Some (False, s1) \<and> copy_refill fat si di s1 = Some (False, s2) \<and> stuck si di s2)"
proof -
  have nm: "repad_filename (ce_name (eefs_entry f)) = Some (pad_name m @ [0])" "take 16 (pad_name m @ [0]) = af_name f"
    using repad_plain [OF n(1) refl] shown_pad [OF n(1)] n(2) plain_nameD(2) [OF n(1)] by (simp_all add: eefs_entry_def)
  obtain s1 where S1: "eefs_open_read srcpath (eefs_entry f) si s = Some ((eefs_entry f)\<lparr>ce_name := pad_name m @ [0]\<rparr>, s1)"
    "reading si fl f (file_data (eeprom s) f) s1" "in_chan si s s1" "current_error s1 = 0" "b_position (buf si s1) = 2"
    by (rule open_reading [OF fs(1-3) nm b(1,2,5,6)])
  note R = readingD [OF S1(2)]
  have full: "\<forall>k < 8. bm_get (used_entries s1) k"
  proof -
    have "card (set (all_ents fl)) = 8" using fs_okD(5) [OF R(1)] fs(4) by (simp add: distinct_card)
    then have "set (all_ents fl) = {..<8}" using fs_okD(6) [OF R(1)] by (intro card_subset_eq) simp_all
    then show ?thesis using fs_okD(11) [OF R(1)] by blast
  qed
  obtain s2 fh where S2: "eefs_open_write dstpath (new_dirent n) TYPE_PRG di False s1 = Some ((new_dirent n)\<lparr>ce_name := pad_name n @ [0]\<rparr>, s2)"
    "buf di s2 = (buf di s1)\<lparr>b_eefh := fh\<rparr>" "\<forall>j. j \<noteq> di \<longrightarrow> j \<noteq> 32 \<longrightarrow> buf j s2 = buf j s1" "length (buffers s2) = 33" "current_error s2 = 72"
    by (rule open_write_full [OF R(1) n(4) full n(3) R(3) b(3)])
  have d1: "buf di s1 = buf di s" "partitions s1 = partitions s" using S1(3) b by (simp_all add: in_chan_def kept_def)
  have f1: "fop_of fat (path_part dstpath) s1 = Some eefs_ops" using p(2) d1(2) by (simp add: fop_of_def split: if_splits)
  have ty: "ce_typeflags (eefs_entry f) AND TYPE_MASK = TYPE_PRG" "TYPE_PRG \<noteq> TYPE_REL" by (simp_all add: eefs_entry_def)
  have run: "copy_open fat dstpath n srcpath (eefs_entry f) 0 si di s = Some (Some TYPE_PRG, s2)"
    using S1(1,4) S2(1) p(1) f1 ty unfolding copy_open_def w_open_read_def w_open_write_def
    by (simp add: eefs_ops_def)
  have "buf si s2 = buf si s1" using S2(3) b by simp
  then have st: "stuck si di s2"
    unfolding stuck_def using b S1(5) S2(2,4) R(7,9) d1(1) by simp
  obtain s3 s4 where "copy_round False si di s2 = Some (False, s3)" "copy_refill fat si di s3 = Some (False, s4)" "stuck si di s4"
    by (rule stuck_round [OF st])
  then show ?thesis using run S2(5) stuck_None [OF st] by blast
qed

text \<open>A file system in which one file has data and the others take all remaining entries.\<close>

lemma nm_inj: "nm j = nm k \<Longrightarrow> j < 256 \<Longrightarrow> k < 256 \<Longrightarrow> j = k"
  by (simp add: nm_def u8_eq_iff unat_of_nat_u8)

lemma fill_directory:
  fixes s :: eefs_state
  assumes "fs_ok s fl" "\<forall>j < 8. bm_get (used_entries s) j \<longleftrightarrow> j \<in> set (all_ents fl)" "f \<in> set fl"
    "\<forall>g \<in> set fl. \<exists>j < k. af_name g = nm j" "k + (8 - length (all_ents fl)) < 256"
  shows "\<exists>(s' :: eefs_state) fl'. fs_ok s' fl' \<and> f \<in> set fl' \<and> length (all_ents fl') = 8 \<and> (\<forall>g \<in> set fl'. \<exists>j < 256. af_name g = nm j)"
  using assms
proof (induction "8 - length (all_ents fl)" arbitrary: s fl k rule: less_induct)
  case less
  have ents: "distinct (all_ents fl)" "set (all_ents fl) \<subseteq> {..<8}" using fs_okD(5,6) [OF less.prems(1)] by simp_all
  then have le: "length (all_ents fl) \<le> 8" using card_mono [OF finite_lessThan ents(2)] by (simp add: distinct_card)
  have k: "k < 256" using less.prems(5) by simp
  have fresh: "\<forall>g \<in> set fl. af_name g \<noteq> nm k"
  proof (intro ballI notI)
    fix g assume g: "g \<in> set fl" "af_name g = nm k"
    then have "\<exists>j < k. af_name g = nm j" using less.prems(4) by blast
    then obtain j where "j < k" "nm j = nm k" unfolding g(2) by metis
    then show False using nm_inj [of j k] k by simp
  qed
  show ?case
  proof (cases rule: eepromfs_open_write_ok [OF less.prems(1) fresh length_nm])
    case (1 fh)
    then have "{..<8} \<subseteq> set (all_ents fl)" using less.prems(2) by auto
    then have "set (all_ents fl) = {..<8}" using ents(2) by blast
    then have "card (set (all_ents fl)) = 8" by simp
    then have "length (all_ents fl) = 8" using ents(1) by (simp add: distinct_card)
    moreover have "\<forall>g \<in> set fl. \<exists>j < 256. af_name g = nm j" using less.prems(4) k order.strict_trans by blast
    ultimately show ?thesis using less.prems(1,3) by blast
  next
    case (2 fh s1 j)
    let ?g = "\<lparr>af_name = nm k, af_size = 0, af_ents = [j], af_secs = []\<rparr>"
    obtain s2 :: eefs_state where S: "fs_ok s2 (?g # fl)" "\<forall>j < 8. bm_get (used_entries s2) j \<longleftrightarrow> j \<in> set (all_ents (?g # fl))"
      by (rule eepromfs_init_ok [OF fs_ok_disk [OF 2(2)] fs_okD(1) [OF 2(2)]])
    have "length (all_ents (?g # fl)) \<le> 8"
      using fs_okD(5,6) [OF 2(2)] card_mono [OF finite_lessThan, of "set (all_ents (?g # fl))" 8] by (simp add: distinct_card)
    then have lt: "8 - length (all_ents (?g # fl)) < 8 - length (all_ents fl)" "Suc k + (8 - length (all_ents (?g # fl))) < 256"
      using less.prems(5) by simp_all
    show ?thesis
      by (rule less.hyps [OF lt(1) S(1,2) _ _ lt(2)]) (use less.prems(3,4) in \<open>auto simp: less_Suc_eq\<close>)
  qed
qed

theorem copy_to_full_directory_hangs_witness:
  "\<exists>(s :: bus) f s'. copy_open d64ops \<lparr>path_part = 0, path_dir = pt_current_dir part_zero\<rparr> (str ''HELLO'')
      \<lparr>path_part = 0, path_dir = pt_current_dir part_zero\<rparr> (eefs_entry f) 0 0 1 s = Some (Some TYPE_PRG, s') \<and>
    copy_loop d64ops False 0 1 s' = None"
proof -
  have pa: "plain_name (nm 65)" "pad_name (nm 65) = nm 65" by (simp_all add: plain_name_def plain_char_def pad_name_def nm_def)
  obtain s0 f where s0: "save (nm 65) [1] blank = Some (EEFS_ERROR_OK, s0)"
    and p: "save_post blank [] (nm 65) [1] EEFS_ERROR_OK s0 f (length [1 :: u8])"
    by (rule save_blank [of "[1]"]) simp
  have f: "fs_ok s0 [f]" "af_name f = nm 65" "file_data (eeprom s0) f = [1]" using p by (simp_all add: save_post_def)
  then have sz: "0 < unat (af_size f)" using length_file_data [OF f(1), of f] by simp
  obtain s1 :: eefs_state where S1: "fs_ok s1 [f]" "\<forall>j < 8. bm_get (used_entries s1) j \<longleftrightarrow> j \<in> set (all_ents [f])"
    by (rule eepromfs_init_ok [OF fs_ok_disk [OF f(1)] fs_okD(1) [OF f(1)]])
  obtain x :: eefs_state and fl where X: "fs_ok x fl" "f \<in> set fl" "length (all_ents fl) = 8" "\<forall>g \<in> set fl. \<exists>j < 256. af_name g = nm j"
  proof -
    have "\<forall>g \<in> set [f]. \<exists>j < 66. af_name g = nm j" using f(2) by (auto intro!: exI [of _ 65])
    moreover have "66 + (8 - length (all_ents [f])) < 256" by linarith
    ultimately show ?thesis using fill_directory [OF S1, of f 66] that by (meson list.set_intros(1))
  qed
  define s :: bus where "s = (upd_buf 1 (\<lambda>b. b\<lparr>b_refill := Refill_dummy\<rparr>) bus0)\<lparr>ops_scratch := ops_scratch x, eeprom := eeprom x,
     used_sectors := used_sectors x, used_entries := used_entries x, free_sectors := free_sectors x\<rparr>"
  have fs: "fs_ok s fl" using X(1) by (simp add: s_def fs_ok_def)
  have H: "\<forall>g \<in> set fl. af_name g \<noteq> pad_name (str ''HELLO'')"
  proof (intro ballI notI)
    fix g assume "g \<in> set fl" "af_name g = pad_name (str ''HELLO'')"
    then obtain j where "nm j = pad_name (str ''HELLO'')" using X(4) by metis
    then have e: "pad_name (str ''HELLO'') = nm j" by simp
    have "nm j ! 0 = nm j ! 1" by (simp add: nm_def)
    moreover have "pad_name (str ''HELLO'') ! 0 \<noteq> pad_name (str ''HELLO'') ! 1" by (simp add: pad_name_def)
    ultimately show False unfolding e by blast
  qed
  have b: "length (buffers bus0) = 33" "length (b_data (buf 0 bus0)) = 256" "b_recordlen (buf 0 bus0) = 0"
    "b_position (buf 1 bus0) = 0" "b_recordlen (buf 1 bus0) = 0" "partitions bus0 = [part_zero\<lparr>pt_fop := EEFSOPS\<rparr>]"
    by (simp_all add: bus0_def buffers_init_def upd_buf_def buf_clear_def buf_zero_def nth_append)
  have B: "length (buffers s) = 33" "length (b_data (buf 0 s)) = 256" "b_recordlen (buf 0 s) = 0"
    "b_position (buf 1 s) = 0" "b_recordlen (buf 1 s) = 0" "b_refill (buf 1 s) = Refill_dummy"
    using b by (simp_all add: s_def)
  have P: "fop_of d64ops (path_part \<lparr>path_part = 0, path_dir = pt_current_dir part_zero\<rparr>) s = Some eefs_ops"
    using b(6) by (intro fop_of_eefs) (simp_all add: s_def upd_buf_def)
  obtain s' where "copy_open d64ops \<lparr>path_part = 0, path_dir = pt_current_dir part_zero\<rparr> (str ''HELLO'')
      \<lparr>path_part = 0, path_dir = pt_current_dir part_zero\<rparr> (eefs_entry f) 0 0 1 s = Some (Some TYPE_PRG, s')" "copy_loop d64ops False 0 1 s' = None"
    using copy_to_full_directory_hangs [OF fs X(2) sz X(3) pa(1) _ plain_HELLO H B(1) _ _ _ B(2-6) P P] f(2) pa(2) by auto
  then show ?thesis by blast
qed

end
