(* ===== verification/Calendar.thy ===== *)
theory Calendar
  imports Main
begin

text \<open>
  The Gregorian calendar as a reference for the date computations of the clocks: leap years, the
  days before a year and before a month, and the day of the week.
\<close>

text \<open>Reference: days are counted from 1 January of the year 1, a Monday, in the Gregorian calendar.\<close>

definition leap_year :: "int \<Rightarrow> bool" where
  "leap_year y \<longleftrightarrow> 4 dvd y \<and> (\<not> 100 dvd y \<or> 400 dvd y)"

definition days_before_year :: "int \<Rightarrow> int" where
  "days_before_year y = 365 * (y - 1) + (y - 1) div 4 - (y - 1) div 100 + (y - 1) div 400"

definition days_before_month :: "int \<Rightarrow> int \<Rightarrow> int" where
  "days_before_month y m =
     sum_list (take (nat m - 1) [31, if leap_year y then 29 else 28, 31, 30, 31, 30, 31, 31, 30, 31, 30, 31])"

definition weekday :: "int \<Rightarrow> int \<Rightarrow> int \<Rightarrow> int" where
  "weekday y m d = (days_before_year y + days_before_month y m + d) mod 7"

lemma div_minus_1:
  fixes y k :: int
  assumes "0 < k"
  shows "y div k = (y - 1) div k + (if k dvd y then 1 else 0)"
proof (cases "k dvd y")
  case True
  then obtain q where "y = k * q" by blast
  moreover have "(k * q - 1) div k = q - 1"
    using assms by (intro int_div_pos_eq [of _ _ _ "k - 1"]) (simp_all add: algebra_simps)
  ultimately show ?thesis using assms by simp
next
  case False
  then have "0 \<noteq> y mod k" by (metis dvd_eq_mod_eq_0)
  with assms have "0 < y mod k" "y mod k < k" using pos_mod_sign [of k y] pos_mod_bound [of k y] by linarith+
  then have "(y - 1) div k = y div k"
    by (intro int_div_pos_eq [of _ _ _ "y mod k - 1"]) simp_all
  with False show ?thesis by simp
qed

lemma leap_days:
  fixes y :: int
  shows "y div 4 - y div 100 + y div 400 = (y - 1) div 4 - (y - 1) div 100 + (y - 1) div 400 + (if leap_year y then 1 else 0)"
proof -
  have sum: "a' - b' + c' = a - b + c + l" if "a' = a + i" "b' = b + j" "c' = c + k" "i - j + k = l"
    for a b c a' b' c' i j k l :: int using that by simp
  have gen: "(if a then 1 else 0) - (if b then 1 else 0) + (if c then 1 else 0) = (if a \<and> (\<not> b \<or> c) then 1 else (0 :: int))"
    if "b \<longrightarrow> a" "c \<longrightarrow> b" for a b c using that by (cases a; cases b; cases c; simp)
  have "100 dvd y \<longrightarrow> 4 dvd y" "400 dvd y \<longrightarrow> 100 dvd y"
    by (intro impI, rule dvd_trans [rotated], assumption, simp)+
  from gen [OF this] have "(if 4 dvd y then 1 else 0) - (if 100 dvd y then 1 else 0) + (if 400 dvd y then 1 else 0) =
      (if leap_year y then 1 else (0 :: int))"
    unfolding leap_year_def .
  then show ?thesis by (intro sum [OF div_minus_1 div_minus_1 div_minus_1]) simp_all
qed

end
