(* ===== verification/Clock_Props.thy ===== *)
theory Clock_Props
  imports Bus_Props Calendar
begin

text \<open>
  The clock commands: setting the clock with what the drive reports, and the computation of
  the day of the week.
\<close>

section \<open>Round trip of the time commands\<close>

definition clock_ok :: "tm_t \<Rightarrow> bool" where
  "clock_ok t \<longleftrightarrow> tm_mday t \<noteq> 0 \<and> tm_mday t \<le> 31 \<and> tm_mon t \<le> 11 \<and> tm_wday t \<le> 6 \<and> tm_hour t \<le> 23 \<and> tm_min t \<le> 59 \<and>
     tm_sec t \<le> 59 \<and> 80 \<le> tm_year t \<and> tm_year t < 180"

lemma unat_hour_1_12: "unat (hour_1_12 h) = (if unat h mod 12 = 0 then 12 else unat h mod 12)"
  by (simp add: hour_1_12_def u8_eq_iff unat_mod_distrib)

lemma hour_12_small: "unat (hour_1_12 h) < 100"
  using mod_less_divisor [of 12 "unat h"] unfolding unat_hour_1_12 by (simp split: if_splits) linarith

lemma hour_roundtrip:
  assumes "h \<le> 23"
  shows "hour_24 (hour_1_12 h) ((if 12 \<le> h then 1 else 0 :: u8) \<noteq> 0) = h"
proof -
  let ?k = "unat h"
  have h: "?k \<le> 23" using assms by (simp add: word_le_nat_alt)
  have twelve: "hour_1_12 h = 12 \<longleftrightarrow> ?k mod 12 = 0" using unat_hour_1_12 [of h] by (auto simp: u8_eq_iff)
  define x where "x = (if hour_1_12 h = 12 then 0 else hour_1_12 h)"
  have x: "unat x = ?k mod 12" using unat_hour_1_12 [of h] twelve by (simp add: x_def)
  show ?thesis
  proof (cases "12 \<le> h")
    case True
    then have k: "12 \<le> ?k" by (simp add: word_le_nat_alt)
    then have m: "?k mod 12 = ?k - 12" using h by (simp add: mod_if)
    have "unat (x + 12) = ?k" using x m k h by (simp add: unat_word_ariths)
    then have "x + 12 = h" by (simp add: u8_eq_iff)
    then show ?thesis unfolding hour_24_def Let_def x_def [symmetric] using True by simp
  next
    case False
    then have "?k < 12" by (simp add: word_le_nat_alt)
    then have "x = h" using x by (simp add: u8_eq_iff)
    then show ?thesis unfolding hour_24_def Let_def x_def [symmetric] using False by simp
  qed
qed

lemma unat_le_numeral: "x \<le> (y :: u8) \<longleftrightarrow> unat x \<le> unat y"
  by (rule word_le_nat_alt)

text \<open>What T-R puts into the error buffer in the binary and the BCD format.\<close>

definition clock_bytes :: "u8 \<Rightarrow> tm_t \<Rightarrow> u8 list" where
  "clock_bytes f t =
     (let pm = (if tm_hour t \<ge> 12 then 1 else 0) in
      if f = asc CHR ''B''
      then [tm_wday t, int2bcd (tm_year t mod 100), int2bcd (tm_mon t + 1), int2bcd (tm_mday t), int2bcd (hour_1_12 (tm_hour t)),
            int2bcd (tm_min t), int2bcd (tm_sec t), pm]
      else [tm_wday t, tm_year t, tm_mon t + 1, tm_mday t, hour_1_12 (tm_hour t), tm_min t, tm_sec t, pm])"

lemma read_clock:
  assumes "rtc_state s = RTC_OK" "cchar (command_buffer s) 3 = f" "f = asc CHR ''B'' \<or> f = asc CHR ''D''"
    "length (buffers s) = 33" "length (b_data (buf 32 s)) = 100"
  obtains s' where "parse_timeread s = Some s'" "take 9 (b_data (buf 32 s')) = clock_bytes f (rtc s) @ [13]" "b_lastused (buf 32 s') = 8"
    "length (b_data (buf 32 s')) = 100"
proof -
  let ?s = "error_last 8 (error_data 0 (clock_bytes f (rtc s) @ [13]) s)"
  have "length (clock_bytes f (rtc s)) = 8" by (simp add: clock_bytes_def Let_def)
  then have "take 9 (b_data (buf 32 ?s)) = clock_bytes f (rtc s) @ [13]" "b_lastused (buf 32 ?s) = 8" "length (b_data (buf 32 ?s)) = 100"
    using assms(4,5) by (simp_all add: error_last_def error_data_def put_at_def)
  moreover have "parse_timeread s = Some ?s"
    using assms(1-3) by (auto simp: parse_timeread_def Let_def clock_bytes_def)
  ultimately show ?thesis using that by blast
qed

lemma scan_clock:
  assumes ok: "clock_ok t" and f: "f = asc CHR ''B'' \<or> f = asc CHR ''D''" and l: "12 \<le> len"
    and m: "take 9 (drop 3 m) = f # clock_bytes f t"
  shows "scan_time m len = Inr (t\<lparr>tm_mon := tm_mon t + 1, tm_year := (if f = asc CHR ''B'' then tm_year t mod 100 else tm_year t)\<rparr>)"
proof -
  have lm: "12 \<le> length m"
  proof -
    have "length (take 9 (drop 3 m)) = 9" unfolding m by (simp add: clock_bytes_def Let_def)
    then show ?thesis by simp
  qed
  have nth: "cchar m (3 + k) = (f # clock_bytes f t) ! k" if "k < 9" for k
  proof -
    have "cchar m (3 + k) = m ! (3 + k)" using that lm by (simp add: cchar_def)
    also have "\<dots> = take 9 (drop 3 m) ! k" using that lm by simp
    finally show ?thesis unfolding m .
  qed
  have c: "cchar m 3 = f" "cchar m 4 = clock_bytes f t ! 0" "cchar m 5 = clock_bytes f t ! 1" "cchar m 6 = clock_bytes f t ! 2"
    "cchar m 7 = clock_bytes f t ! 3" "cchar m 8 = clock_bytes f t ! 4" "cchar m 9 = clock_bytes f t ! 5" "cchar m 10 = clock_bytes f t ! 6"
    "cchar m 11 = clock_bytes f t ! 7"
    using nth [of 0] nth [of 1] nth [of 2] nth [of 3] nth [of 4] nth [of 5] nth [of 6] nth [of 7] nth [of 8] by simp_all
  have T: "tm_mday t \<le> 31" "tm_mon t \<le> 11" "tm_hour t \<le> 23" "tm_min t \<le> 59" "tm_sec t \<le> 59"
    using ok by (simp_all add: clock_ok_def)
  have b: "unat (tm_mon t + 1) < 100" "unat (tm_mday t) < 100" "unat (tm_min t) < 100" "unat (tm_sec t) < 100"
    "unat (tm_year t mod 100) < 100" "unat (hour_1_12 (tm_hour t)) < 100"
    using T hour_12_small [of "tm_hour t"] by (simp_all add: word_le_nat_alt unat_word_ariths unat_mod_distrib)
  note R = bcd_roundtrip [OF b(1)] bcd_roundtrip [OF b(2)] bcd_roundtrip [OF b(3)] bcd_roundtrip [OF b(4)] bcd_roundtrip [OF b(5)]
    bcd_roundtrip [OF b(6)] hour_roundtrip [OF T(3)]
  have "\<not> len < 12" using l by simp
  from f show ?thesis
  proof
    assume "f = asc CHR ''B''"
    then show ?thesis using c R \<open>\<not> len < 12\<close> by (simp add: scan_time_def clock_bytes_def Let_def)
  next
    assume "f = asc CHR ''D''"
    then show ?thesis using c R \<open>\<not> len < 12\<close> by (simp add: scan_time_def clock_bytes_def Let_def)
  qed
qed



section \<open>The day of the week\<close>

text \<open>The formula of the code over unbounded numbers.\<close>

definition dow_formula :: "int \<Rightarrow> int \<Rightarrow> int \<Rightarrow> int" where
  "dow_formula y m d =
     (if m < 3 then 23 * m div 9 + (d + y) + 4 + (y - 1) div 4 - (y - 1) div 100 + (y - 1) div 400
      else 23 * m div 9 + (d + (y - 2)) + 4 + y div 4 - y div 100 + y div 400)"

lemma dow_formula_weekday:
  assumes "1 \<le> m" "m \<le> 12"
  shows "dow_formula y m d mod 7 = weekday y m d"
proof -
  define L where "L = (y - 1) div 4 - (y - 1) div 100 + (y - 1) div 400"
  define l where "l = (if leap_year y then 1 else 0 :: int)"
  have m: "m = 1 \<or> m = 2 \<or> m = 3 \<or> m = 4 \<or> m = 5 \<or> m = 6 \<or> m = 7 \<or> m = 8 \<or> m = 9 \<or> m = 10 \<or> m = 11 \<or> m = 12"
    using assms by presburger
  have f: "dow_formula y m d = 23 * m div 9 + d + y + 4 + L + (if m < 3 then 0 else l - 2)"
    using leap_days [of y] by (simp add: dow_formula_def L_def l_def)
  have b: "days_before_month y m = sum_list (take (nat m - 1) [31, 28 + l, 31, 30, 31, 30, 31, 31, 30, 31, 30, 31])"
    by (simp add: days_before_month_def l_def)
  have w: "weekday y m d = (365 * (y - 1) + L + days_before_month y m + d) mod 7"
    by (simp add: weekday_def days_before_year_def L_def algebra_simps)
  have "(a mod 7 = b mod 7) = (\<exists>k. a = b + 7 * k)" for a b :: int
    by (metis mod_eqE mod_mult_self2)
  then show ?thesis
    using m unfolding f b w
    by (elim disjE; simp; presburger)
qed

lemma day_of_week_bytes:
  assumes "y < 256" "m \<le> 12"
  shows "uint (day_of_week y m d) =
    (let D = uint d + (uint y + 1900) - (if m < 3 then 0 else 2)
     in (dow_formula (uint y + 1900) (uint m) (uint d) - D + D mod 256) mod 7)"
proof -
  have y: "uint y < 256" using assms(1) by (simp add: word_less_def)
  then have 1: "uint (y + 1900) = uint y + 1900"
    by (simp add: uint_word_ariths)
  have 2: "uint (y + 1899) = uint y + 1899" "uint (y + 1898) = uint y + 1898"
    using y by (simp_all add: uint_word_ariths)
  have 3: "uint (d + ucast z) = (uint d + uint z) mod 256" for z :: u16
    by (simp add: uint_word_ariths unsigned_ucast_eq take_bit_eq_mod mod_add_right_eq)
  have 4: "(m < 3) = (uint m < 3)" by (simp add: word_less_def)
  have 5: "uint (of_int (k mod 7) :: u8) = k mod 7" for k :: int
  proof -
    have "0 \<le> k mod 7" "k mod 7 < 7" by simp_all
    then have "k mod 7 mod 256 = k mod 7" by (intro mod_pos_pos_trivial) linarith+
    then show ?thesis by (simp add: uint_word_of_int take_bit_eq_mod)
  qed
  show ?thesis
    by (cases "uint m < 3") (simp_all add: day_of_week_def dow_formula_def Let_def 1 2 3 4 5 algebra_simps)
qed

text \<open>
  C24. The day of the week of the ISO time format is right exactly while the day of the month
  plus the year (less two from March on) is below 2048: the sum is kept in a byte, dropping 1792, a
  multiple of seven, before that and 2048, which is not one, from then on. The first wrong day is
  31 January 2017.
\<close>

theorem day_of_week_exact:
  assumes "y < 256" "1 \<le> m" "m \<le> 12" "1 \<le> d" "d \<le> 31"
  shows "uint (day_of_week y m d) = weekday (uint y + 1900) (uint m) (uint d) \<longleftrightarrow>
    uint d + (uint y + 1900) - (if m < 3 then 0 else 2) < 2048"
proof -
  define D where "D = uint d + (uint y + 1900) - (if m < 3 then 0 else 2)"
  define F where "F = dow_formula (uint y + 1900) (uint m) (uint d)"
  have r: "0 \<le> uint y" "uint y < 256" "1 \<le> uint m" "uint m \<le> 12" "1 \<le> uint d" "uint d \<le> 31"
    using assms by (simp_all add: word_less_def word_le_def)
  then have D: "1792 \<le> D" "D < 2304" unfolding D_def by simp_all
  have F: "F mod 7 = weekday (uint y + 1900) (uint m) (uint d)"
    unfolding F_def using r by (intro dow_formula_weekday)
  have "uint (day_of_week y m d) = (F - D + D mod 256) mod 7"
    using day_of_week_bytes [OF assms(1,3)] unfolding Let_def D_def F_def .
  moreover have "D mod 256 = (if D < 2048 then D - 1792 else D - 2048)"
  proof (cases "D < 2048")
    case True
    with D show ?thesis using mod_mult_self2 [of "D - 1792" 256 7] mod_pos_pos_trivial [of "D - 1792" 256] by simp
  next
    case False
    with D show ?thesis using mod_mult_self2 [of "D - 2048" 256 8] mod_pos_pos_trivial [of "D - 2048" 256] by simp
  qed
  ultimately have "uint (day_of_week y m d) = (if D < 2048 then F mod 7 else (F - 4 + 7 * (- 292)) mod 7)"
    using mod_mult_self2 [of F 7 "- 256"] by simp
  also have "(F - 4 + 7 * (- 292)) mod 7 = (F - 4) mod 7" by (rule mod_mult_self2)
  finally show ?thesis unfolding D_def [symmetric] F [symmetric]
    by (cases "D < 2048") (simp_all, presburger)
qed

theorem day_of_week_exact_witness:
  "uint (day_of_week 117 1 30) = weekday 2017 1 30 \<and> uint (day_of_week 117 1 31) \<noteq> weekday 2017 1 31"
  using day_of_week_exact [of 117 1 30] day_of_week_exact [of 117 1 31] by simp

end
