(* ===== verification/Rtc.thy ===== *)
theory Rtc
  imports Wrapops Calendar
begin

text \<open>
  The clocks: the drivers of the clock chips DS1307/DS3231 (\<^verbatim>\<open>src/src/ds1307-3231.c\<close>) and PCF8583
  (\<^verbatim>\<open>src/src/pcf8583.c\<close>), the clock of the LPC17xx controllers (\<^verbatim>\<open>src/src/lpc17xx/rtc_lpc17xx.c\<close>), the
  clock kept in software (\<^verbatim>\<open>src/src/avr/softrtc.c\<close>) and the selection among them with the time stamp
  of files (\<^verbatim>\<open>src/src/rtc.c\<close>).
\<close>

unbundle bit_operations_syntax

definition rtc_default_date :: tm_t where
  "rtc_default_date = \<lparr>tm_sec = 0, tm_min = 0, tm_hour = 0, tm_mday = 31, tm_mon = 8 - 1, tm_year = 82, tm_wday = 2\<rparr>"

section \<open>Chips on the I2C bus\<close>

text \<open>
  A chip is reached through the register transfers of \<^verbatim>\<open>src/src/i2c.h\<close>: a write of consecutive
  registers, which reports whether the chip did not answer, and a read, which is \<open>None\<close> when it did
  not.  A driver takes the transfers as its first argument, with the chip's own state as the type
  parameter.
\<close>

record 'c i2c =
  i2c_write_registers :: "u8 \<Rightarrow> u8 list \<Rightarrow> 'c \<Rightarrow> bool \<times> 'c"
  i2c_read_registers :: "u8 \<Rightarrow> nat \<Rightarrow> 'c \<Rightarrow> u8 list option"

definition i2c_write_register :: "'c i2c \<Rightarrow> u8 \<Rightarrow> u8 \<Rightarrow> 'c \<Rightarrow> bool \<times> 'c" where
  "i2c_write_register dev reg v c = i2c_write_registers dev reg [v] c"

definition i2c_read_register :: "'c i2c \<Rightarrow> u8 \<Rightarrow> 'c \<Rightarrow> u8 option" where
  "i2c_read_register dev reg c = map_option hd (i2c_read_registers dev reg 1 c)"

section \<open>DS1307 and DS3231\<close>

datatype dsrtc_type = RTC_1307 | RTC_3231

record 'c dsrtc =
  ds_chip :: 'c
  ds_state :: rtcstate_t
  ds_type :: dsrtc_type

definition dsrtc_time :: "u8 list \<Rightarrow> tm_t" where
  "dsrtc_time tmp =
     \<lparr>tm_sec = bcd2int (tmp ! 0 AND 0x7f), tm_min = bcd2int (tmp ! 1), tm_hour = bcd2int (tmp ! 2),
      tm_mday = bcd2int (tmp ! 4), tm_mon = bcd2int (tmp ! 5 AND 0x7f) - 1,
      tm_year = bcd2int (tmp ! 6) + (if tmp ! 5 AND 0x80 \<noteq> 0 then 100 else 0) + 100,
      tm_wday = bcd2int (tmp ! 3) - 1\<rparr>"

definition dsrtc_read :: "'c i2c \<Rightarrow> 'c dsrtc \<Rightarrow> tm_t" where
  "dsrtc_read dev s =
     (if ds_state s \<noteq> RTC_OK then rtc_default_date
      else (case i2c_read_registers dev 0 7 (ds_chip s) of
              None \<Rightarrow> rtc_default_date
            | Some tmp \<Rightarrow> dsrtc_time tmp))"

definition dsrtc_bytes :: "tm_t \<Rightarrow> u8 list" where
  "dsrtc_bytes t =
     [int2bcd (tm_sec t), int2bcd (tm_min t), int2bcd (tm_hour t), int2bcd (tm_wday t + 1), int2bcd (tm_mday t),
      int2bcd (tm_mon t + 1) OR (if uint (tm_year t) \<ge> 2100 then 0x80 else 0), int2bcd (tm_year t mod 100)]"

definition dsrtc_set :: "'c i2c \<Rightarrow> tm_t \<Rightarrow> 'c dsrtc \<Rightarrow> 'c dsrtc" where
  "dsrtc_set dev t s =
     (if ds_state s = RTC_NOT_FOUND then s
      else (let c = snd (i2c_write_registers dev 0 (dsrtc_bytes t) (ds_chip s));
                c = (case ds_type s of
                       RTC_1307 \<Rightarrow> snd (i2c_write_register dev 7 0 c)
                     | RTC_3231 \<Rightarrow> snd (i2c_write_register dev 15 0 (snd (i2c_write_register dev 14 0 c))))
            in s\<lparr>ds_chip := c, ds_state := RTC_OK\<rparr>))"

text \<open>
  A read that fails after the chip has been found gives -1, whose bit 7 is set, so it counts as a
  stopped oscillator.
\<close>

definition dsrtc_init :: "'c i2c \<Rightarrow> 'c dsrtc \<Rightarrow> 'c dsrtc" where
  "dsrtc_init dev s =
     (case i2c_read_register dev 0 (ds_chip s) of
        None \<Rightarrow> s\<lparr>ds_state := RTC_NOT_FOUND\<rparr>
      | Some _ \<Rightarrow>
          (let c = snd (i2c_write_register dev 18 0x55 (ds_chip s));
               ty = (if i2c_read_register dev 18 c = Some 0x55 then RTC_1307 else RTC_3231);
               tmp = (case ty of RTC_1307 \<Rightarrow> i2c_read_register dev 0 c | RTC_3231 \<Rightarrow> i2c_read_register dev 15 c);
               stopped = (case tmp of None \<Rightarrow> True | Some v \<Rightarrow> v AND 0x80 \<noteq> 0)
           in s\<lparr>ds_chip := c, ds_type := ty, ds_state := (if stopped then RTC_INVALID else RTC_OK)\<rparr>))"

section \<open>PCF8583\<close>

record 'c pcf8583 =
  pcf_chip :: 'c
  pcf_state :: rtcstate_t

definition le16 :: "u8 \<Rightarrow> u8 \<Rightarrow> u16" where
  "le16 lo hi = ucast lo OR push_bit 8 (ucast hi)"

definition lo8 :: "u16 \<Rightarrow> u8" where "lo8 v = ucast v"
definition hi8 :: "u16 \<Rightarrow> u8" where "hi8 v = ucast (drop_bit 8 v)"

definition year_bytes :: "u16 \<Rightarrow> u8 list" where
  "year_bytes y = [lo8 y, hi8 y, lo8 (NOT y), hi8 (NOT y)]"

text \<open>The year is raised until its lower two bits are those of the chip; three rounds reach every value.\<close>

definition roll_year :: "u16 \<Rightarrow> u8 \<Rightarrow> u16" where
  "roll_year y low =
     (if y AND 3 = ucast low then y else if (y + 1) AND 3 = ucast low then y + 1
      else if (y + 2) AND 3 = ucast low then y + 2 else y + 3)"

definition pcf8583_read :: "'c i2c \<Rightarrow> 'c pcf8583 \<Rightarrow> tm_t \<times> 'c pcf8583" where
  "pcf8583_read dev s =
     (if pcf_state s \<noteq> RTC_OK then (rtc_default_date, s)
      else (case i2c_read_registers dev 2 5 (pcf_chip s) of
              None \<Rightarrow> (rtc_default_date, s)
            | Some b \<Rightarrow>
                (let t = \<lparr>tm_sec = bcd2int (b ! 0), tm_min = bcd2int (b ! 1), tm_hour = bcd2int (b ! 2),
                          tm_mday = bcd2int (b ! 3 AND 0x3f), tm_mon = bcd2int (b ! 4 AND 0x1f) - 1, tm_year = 82,
                          tm_wday = bcd2int (drop_bit 5 (b ! 4))\<rparr>;
                     low = drop_bit 6 (b ! 3);
                     y = (case i2c_read_registers dev 16 4 (pcf_chip s) of
                            None \<Rightarrow> le16 (b ! 0) (b ! 1)
                          | Some v \<Rightarrow> le16 (v ! 0) (v ! 1));
                     y' = roll_year y low;
                     c = (if y AND 3 \<noteq> ucast low then snd (i2c_write_registers dev 16 (year_bytes y') (pcf_chip s))
                          else pcf_chip s)
                 in (t\<lparr>tm_year := ucast (y' - 1900)\<rparr>, s\<lparr>pcf_chip := c\<rparr>))))"

definition pcf8583_bytes :: "tm_t \<Rightarrow> u8 list" where
  "pcf8583_bytes t =
     [int2bcd (tm_sec t), int2bcd (tm_min t), int2bcd (tm_hour t), int2bcd (tm_mday t) OR push_bit 6 (tm_year t AND 3),
      int2bcd (tm_mon t + 1) OR push_bit 5 (tm_wday t)]"

definition pcf8583_set :: "'c i2c \<Rightarrow> tm_t \<Rightarrow> 'c pcf8583 \<Rightarrow> 'c pcf8583" where
  "pcf8583_set dev t s =
     (if pcf_state s = RTC_NOT_FOUND then s
      else (let c = snd (i2c_write_register dev 0 0x80 (pcf_chip s));
                c = snd (i2c_write_registers dev 2 (pcf8583_bytes t) c);
                c = snd (i2c_write_registers dev 16 (year_bytes (ucast (tm_year t) + 1900)) c);
                c = snd (i2c_write_register dev 0 0 c)
            in s\<lparr>pcf_chip := c, pcf_state := RTC_OK\<rparr>))"

text \<open>
  The initialisation ends with a read through \<open>read_rtc\<close> that brings the year up to date; \<open>muxed\<close> tells
  that \<open>read_rtc\<close> is the selecting one of \<^verbatim>\<open>src/src/rtc.c\<close>, which has no clock selected at this time.
\<close>

definition pcf8583_init :: "'c i2c \<Rightarrow> bool \<Rightarrow> 'c pcf8583 \<Rightarrow> 'c pcf8583" where
  "pcf8583_init dev muxed s =
     (let s = s\<lparr>pcf_state := RTC_NOT_FOUND\<rparr>; (err, c) = i2c_write_register dev 0 0 (pcf_chip s); s = s\<lparr>pcf_chip := c\<rparr> in
      if err then s
      else (case i2c_read_registers dev 16 4 c of
              None \<Rightarrow> s
            | Some v \<Rightarrow>
                if v ! 0 = v ! 2 XOR 0xff \<and> v ! 1 = v ! 3 XOR 0xff
                then (if muxed then s\<lparr>pcf_state := RTC_OK\<rparr> else snd (pcf8583_read dev (s\<lparr>pcf_state := RTC_OK\<rparr>)))
                else s\<lparr>pcf_state := RTC_INVALID\<rparr>))"

section \<open>The clock of the LPC17xx\<close>

record lpc_rtc =
  r_CCR :: u32
  r_SEC :: u32
  r_MIN :: u32
  r_HOUR :: u32
  r_DOM :: u32
  r_MONTH :: u32
  r_YEAR :: u32
  r_DOW :: u32
  r_GPREG0 :: u32
  r_GPREG1 :: u32
  lpc_state :: rtcstate_t

definition SIGNATURE_GPREG0 :: u32 where "SIGNATURE_GPREG0 = 0xdeadbeef"
definition SIGNATURE_GPREG1 :: u32 where "SIGNATURE_GPREG1 = 0xfce2ea31"

definition lpcrtc_init :: "lpc_rtc \<Rightarrow> lpc_rtc" where
  "lpcrtc_init s =
     s\<lparr>lpc_state :=
        (if r_CCR s AND 1 \<noteq> 0
         then (if r_GPREG0 s = SIGNATURE_GPREG0 \<and> r_GPREG1 s = SIGNATURE_GPREG1 then RTC_OK else RTC_INVALID)
         else RTC_INVALID)\<rparr>"

text \<open>
  The registers go on counting while they are read, so the read repeats until the seconds are the
  same before and after.  The argument is what the registers hold at each round and after it: the first
  round whose seconds agree gives the time; \<open>None\<close> when the observations end before.
\<close>

definition lpc_time :: "lpc_rtc \<Rightarrow> tm_t" where
  "lpc_time s =
     \<lparr>tm_sec = ucast (r_SEC s), tm_min = ucast (r_MIN s), tm_hour = ucast (r_HOUR s), tm_mday = ucast (r_DOM s),
      tm_mon = ucast (r_MONTH s), tm_year = ucast (r_YEAR s - 1900), tm_wday = ucast (r_DOW s)\<rparr>"

fun lpcrtc_read :: "(lpc_rtc \<times> u32) list \<Rightarrow> rtcstate_t \<Rightarrow> tm_t option" where
  "lpcrtc_read obs st =
     (if st \<noteq> RTC_OK then Some rtc_default_date
      else (case obs of
              [] \<Rightarrow> None
            | (r, after) # rest \<Rightarrow>
                if ucast (tm_sec (lpc_time r)) = after then Some (lpc_time r) else lpcrtc_read rest st))"

definition lpcrtc_set :: "tm_t \<Rightarrow> lpc_rtc \<Rightarrow> lpc_rtc" where
  "lpcrtc_set t s =
     s\<lparr>r_SEC := ucast (tm_sec t), r_MIN := ucast (tm_min t), r_HOUR := ucast (tm_hour t), r_DOM := ucast (tm_mday t),
       r_MONTH := ucast (tm_mon t), r_YEAR := ucast (tm_year t) + 1900, r_DOW := ucast (tm_wday t), r_CCR := 1,
       r_GPREG0 := SIGNATURE_GPREG0, r_GPREG1 := SIGNATURE_GPREG1, lpc_state := RTC_OK\<rparr>"

section \<open>The clock in software\<close>

record softrtc =
  ms :: u8
  softtime :: u32
  soft_state :: rtcstate_t

definition month_days :: "nat list" where
  "month_days = [31, 28, 31, 30, 31, 30, 31, 31, 30, 31, 30, 31]"

definition is_leap :: "nat \<Rightarrow> bool" where
  "is_leap year \<longleftrightarrow> year mod 4 = 0 \<and> (year mod 100 \<noteq> 0 \<or> year mod 400 = 0)"

definition days_in_year :: "nat \<Rightarrow> nat" where
  "days_in_year a = (if is_leap a then 366 else 365)"

text \<open>
  The controller's \<open>int\<close> has 16 bits.  The month is a byte, so for January \<open>mon - 2\<close> is 255, the test for
  a value of at most zero does not hold, and the product \<open>367 * mon\<close> exceeds the range of \<open>int\<close>, which is
  undefined: \<open>None\<close>.
\<close>

definition mktime :: "tm_t \<Rightarrow> u32 option" where
  "mktime t =
     (let mon = tm_mon t + 1 - 2; year = (ucast (tm_year t) + 1900 :: u16);
          (mon, year) = (if mon = 0 then (mon + 12, year - 1) else (mon, year)) in
      if 367 * unat mon \<ge> 2 ^ 15 then None
      else (let days = year div 4 - year div 100 + year div 400 + of_nat (367 * unat mon div 12) + ucast (tm_mday t)
            in Some ((((ucast days + ucast year * 365 - 719499) * 24 + ucast (tm_hour t)) * 60 + ucast (tm_min t)) * 60
                     + ucast (tm_sec t))))"

text \<open>The loop over the years: the days that are left and the year.\<close>

function gm_year :: "nat \<Rightarrow> nat \<Rightarrow> nat \<times> nat" where
  "gm_year tim i = (if days_in_year i \<le> tim then gm_year (tim - days_in_year i) (Suc i) else (tim, i))"
  by auto
termination by (relation "measure fst") (auto simp: days_in_year_def)

text \<open>The loop over the months; \<open>None\<close> is a read behind the end of \<open>month_days\<close>.\<close>

function gm_month :: "bool \<Rightarrow> u32 \<Rightarrow> nat \<Rightarrow> (u32 \<times> nat) option" where
  "gm_month leap tim i =
     (if length month_days \<le> i then None
      else if month_days ! i \<le> unat tim
      then gm_month leap (tim - of_nat (month_days ! i) - (if i = 1 \<and> leap then 1 else 0)) (Suc i)
      else Some (tim, i))"
  by auto
termination by (relation "measure (\<lambda>(leap, tim, i). length month_days - i)") auto

definition gmtime :: "u32 \<Rightarrow> tm_t option" where
  "gmtime t =
     (let m = t div 60; h = m div 60; d = h div 24; (left, i) = gm_year (unat d) 1970; year = (of_nat (i - 1900) :: u8) in
      case gm_month (is_leap (unat year)) (of_nat left) 0 of
        None \<Rightarrow> None
      | Some (tim, mon) \<Rightarrow>
          Some \<lparr>tm_sec = ucast (t mod 60), tm_min = ucast (m mod 60), tm_hour = ucast (h mod 24), tm_mday = ucast (tim + 1),
                tm_mon = of_nat mon, tm_year = year, tm_wday = ucast ((d + 4) mod 7)\<rparr>)"

definition softrtc_tick :: "softrtc \<Rightarrow> softrtc" where
  "softrtc_tick s =
     (if ms s + 1 = 100 then s\<lparr>softtime := softtime s + 1, ms := 0\<rparr> else s\<lparr>ms := ms s + 1\<rparr>)"

definition softrtc_read :: "softrtc \<Rightarrow> tm_t option" where
  "softrtc_read s = gmtime (softtime s)"

definition softrtc_set :: "tm_t \<Rightarrow> softrtc \<Rightarrow> softrtc option" where
  "softrtc_set t s = map_option (\<lambda>r. s\<lparr>softtime := r\<rparr>) (mktime t)"

definition softrtc_init :: "softrtc \<Rightarrow> softrtc" where
  "softrtc_init s = s\<lparr>soft_state := RTC_OK\<rparr>"

section \<open>Selection of a clock\<close>

text \<open>
  The selection for a controller with both chips and the software clock.  \<open>rtc_state\<close> is one variable
  of the program; the chip drivers keep it in their own part here and \<open>mux_state\<close> is its value after the
  initialisation.  When no clock is selected \<open>read_rtc\<close> leaves the caller's structure \<open>time\<close> as it is.
\<close>

datatype rtc_type_t = RTC_NONE | RTC_SOFTWARE | RTC_PCF8583 | RTC_LPC17XX | RTC_DSRTC

record ('c, 'd) rtcmux =
  current_rtc :: rtc_type_t
  mux_state :: rtcstate_t
  mux_ds :: "'c dsrtc"
  mux_pcf :: "'d pcf8583"
  mux_soft :: softrtc

definition rtc_init :: "'c i2c \<Rightarrow> 'd i2c \<Rightarrow> ('c, 'd) rtcmux \<Rightarrow> ('c, 'd) rtcmux" where
  "rtc_init dev1 dev2 s =
     (let s = s\<lparr>mux_ds := dsrtc_init dev1 (mux_ds s)\<rparr> in
      if ds_state (mux_ds s) \<noteq> RTC_NOT_FOUND then s\<lparr>current_rtc := RTC_DSRTC, mux_state := ds_state (mux_ds s)\<rparr>
      else (let s = s\<lparr>mux_pcf := pcf8583_init dev2 True (mux_pcf s)\<rparr> in
            if pcf_state (mux_pcf s) \<noteq> RTC_NOT_FOUND then s\<lparr>current_rtc := RTC_PCF8583, mux_state := pcf_state (mux_pcf s)\<rparr>
            else (let s = s\<lparr>mux_soft := softrtc_init (mux_soft s)\<rparr> in s\<lparr>mux_state := soft_state (mux_soft s)\<rparr>)))"

definition read_rtc :: "'c i2c \<Rightarrow> 'd i2c \<Rightarrow> tm_t \<Rightarrow> ('c, 'd) rtcmux \<Rightarrow> (tm_t \<times> ('c, 'd) rtcmux) option" where
  "read_rtc dev1 dev2 time s =
     (case current_rtc s of
        RTC_DSRTC \<Rightarrow> Some (dsrtc_read dev1 (mux_ds s), s)
      | RTC_PCF8583 \<Rightarrow> (let (t, p) = pcf8583_read dev2 (mux_pcf s) in Some (t, s\<lparr>mux_pcf := p\<rparr>))
      | RTC_SOFTWARE \<Rightarrow> map_option (\<lambda>t. (t, s)) (softrtc_read (mux_soft s))
      | _ \<Rightarrow> Some (time, s))"

definition set_rtc :: "'c i2c \<Rightarrow> 'd i2c \<Rightarrow> tm_t \<Rightarrow> ('c, 'd) rtcmux \<Rightarrow> ('c, 'd) rtcmux option" where
  "set_rtc dev1 dev2 time s =
     (case current_rtc s of
        RTC_DSRTC \<Rightarrow> Some (s\<lparr>mux_ds := dsrtc_set dev1 time (mux_ds s)\<rparr>)
      | RTC_PCF8583 \<Rightarrow> Some (s\<lparr>mux_pcf := pcf8583_set dev2 time (mux_pcf s)\<rparr>)
      | RTC_SOFTWARE \<Rightarrow> map_option (\<lambda>r. s\<lparr>mux_soft := r\<rparr>) (softrtc_set time (mux_soft s))
      | _ \<Rightarrow> Some s)"

section \<open>Time stamps of files\<close>

definition get_fattime :: "tm_t \<Rightarrow> u32" where
  "get_fattime time =
     push_bit 25 (ucast (tm_year time) - 80) OR push_bit 21 (ucast (tm_mon time) + 1) OR push_bit 16 (ucast (tm_mday time)) OR
     push_bit 11 (ucast (tm_hour time)) OR push_bit 5 (ucast (tm_min time)) OR drop_bit 1 (ucast (tm_sec time))"

end
