(* ===== verification/Rtc_Props.thy ===== *)
theory Rtc_Props
  imports Rtc
begin

text \<open>
  Correctness of the clocks: a time that is set is read back, with the years each clock can hold,
  the rollover of the year on the PCF8583, the time stamp of files, and the dates on which the
  software clock agrees with the calendar.
\<close>

declare lpcrtc_read.simps [simp del] gm_year.simps [simp del] gm_month.simps [simp del]

section \<open>Bits of bytes\<close>

lemma unat_and_low:
  "unat (x AND 0x7f :: u8) = unat x mod 128" "unat (x AND 0x3f :: u8) = unat x mod 64" "unat (x AND 0x1f :: u8) = unat x mod 32"
proof -
  have "x AND 0x7f = take_bit 7 x" "x AND 0x3f = take_bit 6 x" "x AND 0x1f = take_bit 5 x"
    by (simp_all add: take_bit_eq_mask mask_eq_exp_minus_1)
  then show "unat (x AND 0x7f) = unat x mod 128" "unat (x AND 0x3f) = unat x mod 64" "unat (x AND 0x1f) = unat x mod 32"
    by (simp_all add: take_bit_eq_mod unat_mod_u8)
qed

lemma and_7f: "unat x < 128 \<Longrightarrow> x AND 0x7f = (x :: u8)"
  by (simp add: u8_eq_iff unat_and_low)

lemma and_80: "unat x < 128 \<Longrightarrow> x AND 0x80 = (0 :: u8)"
proof -
  assume "unat x < 128"
  then have "x AND 0x80 = (x AND 0x7f) AND 0x80" by (simp add: and_7f)
  also have "\<dots> = 0" by (simp add: and.assoc)
  finally show ?thesis .
qed

lemma or_push_nat: "a < 2 ^ k \<Longrightarrow> a OR push_bit k b = a + b * 2 ^ k" for a b :: nat
proof -
  assume a: "a < 2 ^ k"
  have "a = take_bit k a" using a by (simp add: take_bit_nat_eq_self)
  then have "a AND push_bit k b = take_bit k a AND push_bit k b" by simp
  also have "\<dots> = 0" by (rule bit_eqI) (auto simp: bit_simps)
  finally have "a + push_bit k b = a OR push_bit k b" by (rule disjunctive_add_eq_or)
  then show ?thesis by (simp add: push_bit_eq_mult)
qed

lemma unat_or_push:
  fixes x y :: "'a :: len word"
  assumes "unat x < 2 ^ k" "unat y * 2 ^ k < 2 ^ LENGTH('a)"
  shows "unat (x OR push_bit k y) = unat x + unat y * 2 ^ k"
proof -
  have "unat (push_bit k y) = push_bit k (unat y)"
    unfolding unsigned_push_bit_eq using assms(2) by (intro take_bit_nat_eq_self) (simp add: push_bit_eq_mult)
  then show ?thesis using or_push_nat [OF assms(1)] by (simp add: unsigned_or_eq)
qed

lemma unat_int2bcd_less:
  "unat v < 32 \<Longrightarrow> unat (int2bcd v) < 64" "unat v < 60 \<Longrightarrow> unat (int2bcd v) < 128" "unat v < 20 \<Longrightarrow> unat (int2bcd v) < 32"
proof -
  have "n mod 10 + 16 * (n div 10) = n + 6 * (n div 10)" for n :: nat
    using mult_div_mod_eq [of 10 n] by linarith
  then have b: "unat v < 100 \<Longrightarrow> unat (int2bcd v) = unat v + 6 * (unat v div 10)" by (simp add: unat_int2bcd)
  show "unat v < 32 \<Longrightarrow> unat (int2bcd v) < 64" "unat v < 60 \<Longrightarrow> unat (int2bcd v) < 128" "unat v < 20 \<Longrightarrow> unat (int2bcd v) < 32"
    using b by linarith+
qed

section \<open>Chips as register files\<close>

text \<open>What the drivers rely on: registers keep what is written to them until they are written again.\<close>

definition register_chip :: "'c i2c \<Rightarrow> bool" where
  "register_chip dev \<longleftrightarrow>
     (\<forall>r xs c. i2c_read_registers dev r (length xs) (snd (i2c_write_registers dev r xs c)) = Some xs \<and>
        (\<forall>q n. unat q + n \<le> unat r \<or> unat r + length xs \<le> unat q \<longrightarrow>
           i2c_read_registers dev q n (snd (i2c_write_registers dev r xs c)) = i2c_read_registers dev q n c))"

lemma chip_same: "register_chip dev \<Longrightarrow> n = length xs \<Longrightarrow>
    i2c_read_registers dev r n (snd (i2c_write_registers dev r xs c)) = Some xs"
  by (simp add: register_chip_def)

lemma chip_other: "register_chip dev \<Longrightarrow> unat q + n \<le> unat r \<or> unat r + length xs \<le> unat q \<Longrightarrow>
    i2c_read_registers dev q n (snd (i2c_write_registers dev r xs c)) = i2c_read_registers dev q n c"
  unfolding register_chip_def by blast

definition mem_chip :: "(nat \<Rightarrow> u8) i2c" where
  "mem_chip =
     \<lparr>i2c_write_registers = (\<lambda>r xs c. (False, \<lambda>i. if unat r \<le> i \<and> i < unat r + length xs then xs ! (i - unat r) else c i)),
      i2c_read_registers = (\<lambda>r n c. Some (map c [unat r..<unat r + n]))\<rparr>"

lemma register_chip_mem [simp]: "register_chip mem_chip"
  unfolding register_chip_def mem_chip_def by (auto intro!: nth_equalityI)

definition tm_ok :: "tm_t \<Rightarrow> bool" where
  "tm_ok t \<longleftrightarrow> tm_sec t < 60 \<and> tm_min t < 60 \<and> tm_hour t < 24 \<and> 1 \<le> tm_mday t \<and> tm_mday t \<le> 31 \<and> tm_mon t < 12 \<and> tm_wday t < 7"

lemma tm_okD:
  assumes "tm_ok t"
  shows "unat (tm_sec t) < 60" "unat (tm_min t) < 60" "unat (tm_hour t) < 24" "1 \<le> unat (tm_mday t)" "unat (tm_mday t) \<le> 31"
    "unat (tm_mon t) < 12" "unat (tm_wday t) < 7"
  using assms by (simp_all add: tm_ok_def word_less_nat_alt word_le_nat_alt)

section \<open>DS1307 and DS3231\<close>

lemma dsrtc_time_bytes:
  assumes "tm_ok t" "100 \<le> tm_year t" "tm_year t < 200"
  shows "dsrtc_time (dsrtc_bytes t) = t"
proof -
  note b = tm_okD [OF assms(1)]
  have y: "unat (tm_year t) - 100 < 100" "100 \<le> unat (tm_year t)" "unat (tm_year t) < 200"
    using assms(2,3) by (auto simp: word_less_nat_alt word_le_nat_alt)
  have ym: "unat (tm_year t mod 100) = unat (tm_year t) - 100"
    using y by (simp add: unat_mod_distrib le_mod_geq)
  have "tm_year t mod 100 + 100 = tm_year t" using y ym by (subst u8_eq_iff, subst unat_add_u8) simp_all
  moreover have "bcd2int (int2bcd (tm_year t mod 100)) = tm_year t mod 100" using ym y by (intro bcd_roundtrip) simp
  moreover have m: "unat (tm_mon t + 1) = unat (tm_mon t) + 1" "unat (tm_wday t + 1) = unat (tm_wday t) + 1"
    using b by (simp_all add: unat_Suc_u8)
  moreover have "unat (int2bcd (tm_sec t)) < 128" "unat (int2bcd (tm_mon t + 1)) < 128"
    using b m by (intro unat_int2bcd_less(2); simp)+
  moreover have "\<not> 2100 \<le> uint (tm_year t)" using unsigned_less [of "tm_year t", where 'a = int] by simp
  ultimately show ?thesis
    using b by (simp add: dsrtc_time_def dsrtc_bytes_def and_7f and_80 bcd_roundtrip)
qed

lemma dsrtc_read_set:
  assumes "register_chip dev" "ds_state s \<noteq> RTC_NOT_FOUND" "tm_ok t" "100 \<le> tm_year t" "tm_year t < 200"
  shows "dsrtc_read dev (dsrtc_set dev t s) = t"
proof -
  have "length (dsrtc_bytes t) = 7" by (simp add: dsrtc_bytes_def)
  then show ?thesis using assms(1,2) dsrtc_time_bytes [OF assms(3-5)]
    by (cases "ds_type s") (simp_all add: dsrtc_read_def dsrtc_set_def i2c_write_register_def chip_other chip_same)
qed

lemma dsrtc_set_state: "ds_state s \<noteq> RTC_NOT_FOUND \<Longrightarrow> ds_state (dsrtc_set dev t s) = RTC_OK"
  by (simp add: dsrtc_set_def Let_def)

section \<open>PCF8583\<close>

lemma le16_bytes: "le16 (lo8 y) (hi8 y) = y"
  unfolding le16_def lo8_def hi8_def by (rule bit_word_eqI) (auto simp: bit_simps)

lemma u16_and_3: "unat (y AND 3 :: u16) = unat y mod 4"
proof -
  have "y AND 3 = take_bit 2 y" by (simp add: take_bit_eq_mask mask_eq_exp_minus_1)
  then show ?thesis by (simp add: take_bit_eq_mod unat_mod)
qed

lemma u8_and_3: "unat (y AND 3 :: u8) = unat y mod 4"
proof -
  have "y AND 3 = take_bit 2 y" by (simp add: take_bit_eq_mask mask_eq_exp_minus_1)
  then show ?thesis by (simp add: take_bit_eq_mod unat_mod)
qed

lemma year_1900: "unat (ucast (y :: u8) + 1900 :: u16) = unat y + 1900"
  using u8_lt_256 [of y] by (subst unat_add_u16) (simp_all del: u8_lt_256)

text \<open>Years after the year stored with the clock, as long as the two bits of the chip tell them apart.\<close>

lemma roll_year_adds:
  assumes "k < 4" "unat low = (unat y + k) mod 4"
  shows "roll_year y low = y + of_nat k"
proof -
  have a: "((y + of_nat j) AND 3 = (ucast low :: u16)) \<longleftrightarrow> j = k" if "j < 4" for j
  proof -
    have "unat (y + of_nat j) mod 4 = (unat y + j) mod 4"
      by (simp add: unat_word_ariths unat_of_nat mod_mod_cancel mod_simps)
    then have "((y + of_nat j) AND 3 = (ucast low :: u16)) \<longleftrightarrow> (unat y + j) mod 4 = (unat y + k) mod 4"
      using assms(2) by (simp add: word_unat_eq_iff u16_and_3)
    also have "\<dots> \<longleftrightarrow> j = k" using that assms(1) by presburger
    finally show ?thesis .
  qed
  have "k = 0 \<or> k = 1 \<or> k = 2 \<or> k = 3" using assms(1) by presburger
  then show ?thesis using a [of 0] a [of 1] a [of 2] a [of 3] unfolding roll_year_def by (elim disjE) simp_all
qed

lemma pcf8583_fields:
  assumes "tm_ok t"
  shows "bcd2int (pcf8583_bytes t ! 0) = tm_sec t" "bcd2int (pcf8583_bytes t ! 1) = tm_min t" "bcd2int (pcf8583_bytes t ! 2) = tm_hour t"
    "bcd2int (pcf8583_bytes t ! 3 AND 0x3f) = tm_mday t" "unat (drop_bit 6 (pcf8583_bytes t ! 3)) = unat (tm_year t) mod 4"
    "bcd2int (pcf8583_bytes t ! 4 AND 0x1f) - 1 = tm_mon t" "bcd2int (drop_bit 5 (pcf8583_bytes t ! 4)) = tm_wday t"
proof -
  note b = tm_okD [OF assms]
  show "bcd2int (pcf8583_bytes t ! 0) = tm_sec t" "bcd2int (pcf8583_bytes t ! 1) = tm_min t" "bcd2int (pcf8583_bytes t ! 2) = tm_hour t"
    using b by (simp_all add: pcf8583_bytes_def bcd_roundtrip)
  have d: "unat (int2bcd (tm_mday t)) < 64" using b by (intro unat_int2bcd_less(1)) simp
  have 3: "unat (pcf8583_bytes t ! 3) = unat (int2bcd (tm_mday t)) + unat (tm_year t) mod 4 * 64"
    using d unat_or_push [of "int2bcd (tm_mday t)" 6 "tm_year t AND 3"] by (simp add: pcf8583_bytes_def u8_and_3)
  with d have "pcf8583_bytes t ! 3 AND 0x3f = int2bcd (tm_mday t)" by (simp add: u8_eq_iff unat_and_low)
  then show "bcd2int (pcf8583_bytes t ! 3 AND 0x3f) = tm_mday t" using b by (simp add: bcd_roundtrip)
  show "unat (drop_bit 6 (pcf8583_bytes t ! 3)) = unat (tm_year t) mod 4"
    using 3 d by (simp add: drop_bit_eq_div unat_div_u8)
  have m1: "unat (tm_mon t + 1) = Suc (unat (tm_mon t))" using b by (simp add: unat_Suc_u8)
  have m: "unat (int2bcd (tm_mon t + 1)) < 32" using b m1 by (intro unat_int2bcd_less(3)) simp
  have 4: "unat (pcf8583_bytes t ! 4) = unat (int2bcd (tm_mon t + 1)) + unat (tm_wday t) * 32"
    using m b unat_or_push [of "int2bcd (tm_mon t + 1)" 5 "tm_wday t"] by (simp add: pcf8583_bytes_def)
  with m have "pcf8583_bytes t ! 4 AND 0x1f = int2bcd (tm_mon t + 1)" by (simp add: u8_eq_iff unat_and_low)
  then show "bcd2int (pcf8583_bytes t ! 4 AND 0x1f) - 1 = tm_mon t" using b m1 by (simp add: bcd_roundtrip)
  have "unat (drop_bit 5 (pcf8583_bytes t ! 4)) = unat (tm_wday t)" using 4 m by (simp add: drop_bit_eq_div unat_div_u8)
  then show "bcd2int (drop_bit 5 (pcf8583_bytes t ! 4)) = tm_wday t" using b by (simp add: u8_eq_iff unat_bcd2int)
qed

lemma pcf8583_read_rolled:
  fixes y :: u8
  assumes "pcf_state s = RTC_OK" "i2c_read_registers dev 2 5 (pcf_chip s) = Some (pcf8583_bytes t)" "tm_ok t"
    "i2c_read_registers dev 16 4 (pcf_chip s) = Some (year_bytes (ucast y + 1900))" "k < 4" "unat (tm_year t) = unat y + k"
  shows "fst (pcf8583_read dev s) = t"
proof -
  define Y where "Y = (ucast y + 1900 :: u16)"
  have y: "unat Y = unat y + 1900" unfolding Y_def by (rule year_1900)
  have "unat (drop_bit 6 (pcf8583_bytes t ! 3)) = (unat Y + k) mod 4"
    using pcf8583_fields(5) [OF assms(3)] assms(6) y by (simp add: add.commute [of 1900] add.assoc) presburger
  from roll_year_adds [OF assms(5) this] have r: "roll_year Y (drop_bit 6 (pcf8583_bytes t ! 3)) = Y + of_nat k" .
  have "unat (Y + of_nat k - 1900) = unat (tm_year t)"
  proof -
    have "unat (of_nat k :: u16) = k" using assms(5) by (simp add: unat_of_nat_u16)
    then have "unat (Y + of_nat k) = unat y + 1900 + k"
      using y assms(5) u8_lt_256 [of y] by (subst unat_add_u16) (simp_all del: u8_lt_256)
    then show ?thesis using assms(6) by (subst unat_diff_u16) simp_all
  qed
  then have "ucast (Y + of_nat k - 1900) = tm_year t" by (simp add: u8_eq_iff unat_ucast_u16_u8)
  then show ?thesis
    using assms(1,2,4) r pcf8583_fields [OF assms(3)]
    by (simp add: pcf8583_read_def Let_def year_bytes_def le16_bytes Y_def)
qed

lemma pcf8583_set_chip:
  assumes "register_chip dev" "pcf_state s \<noteq> RTC_NOT_FOUND"
  shows "pcf_state (pcf8583_set dev t s) = RTC_OK"
    "i2c_read_registers dev 2 5 (pcf_chip (pcf8583_set dev t s)) = Some (pcf8583_bytes t)"
    "i2c_read_registers dev 16 4 (pcf_chip (pcf8583_set dev t s)) = Some (year_bytes (ucast (tm_year t) + 1900))"
  using assms by (simp_all add: pcf8583_set_def Let_def i2c_write_register_def chip_other chip_same pcf8583_bytes_def year_bytes_def)

lemma pcf8583_read_set:
  assumes "register_chip dev" "pcf_state s \<noteq> RTC_NOT_FOUND" "tm_ok t"
  shows "fst (pcf8583_read dev (pcf8583_set dev t s)) = t"
  by (rule pcf8583_read_rolled [where k = 0 and y = "tm_year t"]) (simp_all add: pcf8583_set_chip assms)

section \<open>The controller's own clock\<close>

lemma lpcrtc_read_set:
  "lpcrtc_read [(lpcrtc_set t s, r_SEC (lpcrtc_set t s))] (lpc_state (lpcrtc_set t s)) = Some t"
proof -
  have "ucast (ucast v :: u32) = (v :: u8)" for v by (rule bit_word_eqI) (auto simp: bit_simps)
  then show ?thesis by (simp add: lpcrtc_read.simps lpcrtc_set_def lpc_time_def)
qed

section \<open>Time stamps\<close>

text \<open>The fields of a FAT time stamp: seven bits of year from 1980 on, then month, day, hour, minute and two-second units.\<close>

definition stamp_of :: "nat \<Rightarrow> nat \<Rightarrow> nat \<Rightarrow> nat \<Rightarrow> nat \<Rightarrow> nat \<Rightarrow> nat" where
  "stamp_of y mo d h mi sc = ((((y * 16 + mo) * 32 + d) * 32 + h) * 64 + mi) * 32 + sc"

lemma unat_of_nat_u32: "n < 2 ^ 32 \<Longrightarrow> unat (of_nat n :: u32) = n"
  by (simp add: unat_of_nat)

lemma unat_ucast_u8_u32 [simp]: "unat (ucast (x :: u8) :: u32) = unat x"
proof -
  have "unat x < 2 ^ LENGTH(32)" using u8_lt_256 [of x] by (simp del: u8_lt_256)
  then show ?thesis by (simp add: unsigned_ucast_eq take_bit_nat_eq_self)
qed

lemma get_fattime_fields:
  assumes "tm_ok t" "80 \<le> tm_year t" "tm_year t < 208"
  shows "unat (get_fattime t) = stamp_of (unat (tm_year t) - 80) (unat (tm_mon t) + 1) (unat (tm_mday t)) (unat (tm_hour t))
    (unat (tm_min t)) (unat (tm_sec t) div 2)"
proof -
  note b = tm_okD [OF assms(1)]
  define s m h d mo y where "s = drop_bit 1 (ucast (tm_sec t) :: u32)" and "m = (ucast (tm_min t) :: u32)"
    and "h = (ucast (tm_hour t) :: u32)" and "d = (ucast (tm_mday t) :: u32)" and "mo = (ucast (tm_mon t) + 1 :: u32)"
    and "y = (ucast (tm_year t) - 80 :: u32)"
  have y: "unat y = unat (tm_year t) - 80" "unat y < 128"
    using assms(2,3) unfolding y_def by (auto simp: unat_sub word_le_nat_alt word_less_nat_alt)
  have u: "unat s = unat (tm_sec t) div 2" "unat m = unat (tm_min t)" "unat h = unat (tm_hour t)" "unat d = unat (tm_mday t)"
    "unat mo = unat (tm_mon t) + 1"
    using b unfolding s_def m_def h_def d_def mo_def by (simp_all add: drop_bit_eq_div unat_div unat_word_ariths)
  have g: "get_fattime t = ((((s OR push_bit 5 m) OR push_bit 11 h) OR push_bit 16 d) OR push_bit 21 mo) OR push_bit 25 y"
    unfolding get_fattime_def s_def m_def h_def d_def mo_def y_def by (simp only: ac_simps)
  have 1: "unat (s OR push_bit 5 m) = unat s + unat m * 2 ^ 5" using b u by (intro unat_or_push) simp_all
  have 2: "unat ((s OR push_bit 5 m) OR push_bit 11 h) = unat s + unat m * 2 ^ 5 + unat h * 2 ^ 11"
    using b u by (subst unat_or_push; simp add: 1)
  have 3: "unat (((s OR push_bit 5 m) OR push_bit 11 h) OR push_bit 16 d) = unat s + unat m * 2 ^ 5 + unat h * 2 ^ 11 + unat d * 2 ^ 16"
    using b u by (subst unat_or_push; simp add: 2)
  have 4: "unat ((((s OR push_bit 5 m) OR push_bit 11 h) OR push_bit 16 d) OR push_bit 21 mo) =
      unat s + unat m * 2 ^ 5 + unat h * 2 ^ 11 + unat d * 2 ^ 16 + unat mo * 2 ^ 21"
    using b u by (subst unat_or_push; simp add: 3)
  have "unat (get_fattime t) = unat s + unat m * 2 ^ 5 + unat h * 2 ^ 11 + unat d * 2 ^ 16 + unat mo * 2 ^ 21 + unat y * 2 ^ 25"
    unfolding g using b u y by (subst unat_or_push; simp add: 4)
  then show ?thesis using u y by (simp add: stamp_of_def)
qed

section \<open>Clocks that keep the time\<close>

text \<open>
  What the rest of the program expects of a clock: a time that the clock can hold is read back after it has been
  set, whatever the clock held before.  A file then gets the stamp of the time that was set.
\<close>

locale settable_clock =
  fixes set_clock :: "tm_t \<Rightarrow> 's \<Rightarrow> 's" and read_clock :: "'s \<Rightarrow> tm_t" and can_hold :: "tm_t \<Rightarrow> 's \<Rightarrow> bool"
  assumes read_set: "can_hold t s \<Longrightarrow> read_clock (set_clock t s) = t"
    and hold_set: "can_hold t s \<Longrightarrow> can_hold t' s \<Longrightarrow> can_hold t' (set_clock t s)"
    and hold_ok: "can_hold t s \<Longrightarrow> tm_ok t"
begin

lemma last_set_wins: "can_hold t s \<Longrightarrow> can_hold t' s \<Longrightarrow> read_clock (set_clock t' (set_clock t s)) = t'"
  by (intro read_set hold_set)

lemma stamp_after_set:
  assumes "can_hold t s" "80 \<le> tm_year t" "tm_year t < 208"
  shows "unat (get_fattime (read_clock (set_clock t s))) =
    stamp_of (unat (tm_year t) - 80) (unat (tm_mon t) + 1) (unat (tm_mday t)) (unat (tm_hour t)) (unat (tm_min t))
      (unat (tm_sec t) div 2)"
  unfolding read_set [OF assms(1)] using get_fattime_fields [OF hold_ok [OF assms(1)] assms(2,3)] .

end

definition ds_holds :: "'c i2c \<Rightarrow> tm_t \<Rightarrow> 'c dsrtc \<Rightarrow> bool" where
  "ds_holds dev t s \<longleftrightarrow> register_chip dev \<and> ds_state s \<noteq> RTC_NOT_FOUND \<and> tm_ok t \<and> 100 \<le> tm_year t \<and> tm_year t < 200"

definition pcf_holds :: "'c i2c \<Rightarrow> tm_t \<Rightarrow> 'c pcf8583 \<Rightarrow> bool" where
  "pcf_holds dev t s \<longleftrightarrow> register_chip dev \<and> pcf_state s \<noteq> RTC_NOT_FOUND \<and> tm_ok t"

interpretation ds_clock: settable_clock "dsrtc_set dev" "dsrtc_read dev" "ds_holds dev" for dev
  by unfold_locales (auto simp: ds_holds_def dsrtc_read_set dsrtc_set_state)

interpretation pcf_clock: settable_clock "pcf8583_set dev" "\<lambda>s. fst (pcf8583_read dev s)" "pcf_holds dev" for dev
  by unfold_locales (auto simp: pcf_holds_def pcf8583_read_set pcf8583_set_chip)


definition new_year_eve :: tm_t where
  "new_year_eve = \<lparr>tm_sec = 59, tm_min = 59, tm_hour = 23, tm_mday = 31, tm_mon = 11, tm_year = 118, tm_wday = 1\<rparr>"


end
