(* ===== verification/Softrtc_Props.thy ===== *)
theory Softrtc_Props
  imports Rtc_Props
begin

text \<open>
  The clock kept in software against the calendar: the conversion from a date to seconds and back.
\<close>

section \<open>From seconds to the date\<close>

lemma days_in_year_pos [simp]: "0 < days_in_year y"
  by (simp add: days_in_year_def)

lemma gm_year_sum:
  assumes "a \<le> y" "r < days_in_year y"
  shows "gm_year (sum_list (map days_in_year [a..<y]) + r) a = (r, y)"
  using assms
proof (induction "y - a" arbitrary: a)
  case 0
  then show ?case by (simp add: gm_year.simps)
next
  case (Suc n)
  then have "a < y" by simp
  then have "[a..<y] = a # [Suc a..<y]" by (simp add: upt_conv_Cons)
  then show ?case
    using Suc.hyps(1) [of "Suc a"] Suc.hyps(2) Suc.prems \<open>a < y\<close> by (subst gm_year.simps) simp
qed

definition month_len :: "bool \<Rightarrow> nat \<Rightarrow> nat" where
  "month_len leap i = month_days ! i + (if i = 1 \<and> leap then 1 else 0)"

lemma month_days_bound: "i < 12 \<Longrightarrow> month_days ! i \<le> 31"
proof -
  assume "i < 12"
  then have "month_days ! i \<in> set month_days" by (intro nth_mem) (simp add: month_days_def)
  moreover have "\<forall>x \<in> set month_days. x \<le> 31" by (simp add: month_days_def)
  ultimately show ?thesis by blast
qed

lemma month_len_bound: "i < 12 \<Longrightarrow> month_len leap i \<le> 32"
  using month_days_bound [of i] unfolding month_len_def by (cases "i = 1 \<and> leap") auto

lemma gm_month_step:
  assumes "i < 12" "n < 1000"
  shows "gm_month leap (of_nat (month_len leap i + n)) i = gm_month leap (of_nat n) (Suc i)"
proof -
  have "month_len leap i \<le> 32" by (rule month_len_bound [OF assms(1)])
  then have u: "unat (of_nat (month_len leap i + n) :: u32) = month_len leap i + n"
    using assms(2) by (intro unat_of_nat_u32) simp
  have "month_days ! i \<le> month_len leap i + n" by (simp add: month_len_def)
  moreover have "\<not> length month_days \<le> i" using assms(1) by (simp add: month_days_def)
  moreover have "of_nat (month_len leap i + n) - of_nat (month_days ! i) - (if i = 1 \<and> leap then 1 else 0) = (of_nat n :: u32)"
    by (simp add: month_len_def)
  ultimately show ?thesis by (subst gm_month.simps) (simp only: u if_False if_True)
qed

lemma gm_month_sum:
  assumes "i \<le> m" "m < 12" "r < month_days ! m" "leap \<and> m = 1 \<longrightarrow> r < 28"
  shows "gm_month leap (of_nat (sum_list (map (month_len leap) [i..<m]) + r)) i = Some (of_nat r, m)"
  using assms(1)
proof (induction "m - i" arbitrary: i)
  case 0
  then have "i = m" by simp
  have "unat (of_nat r :: u32) = r" using assms(3) month_days_bound [OF assms(2)] by (intro unat_of_nat_u32) simp
  then show ?case using \<open>i = m\<close> assms by (subst gm_month.simps) (simp add: month_days_def not_le)
next
  case (Suc n)
  then have i: "i < m" "[i..<m] = i # [Suc i..<m]" by (auto simp: upt_conv_Cons)
  have "sum_list (map (month_len leap) [Suc i..<m]) \<le> sum_list (map (\<lambda>_. 32) [Suc i..<m])"
  proof (rule sum_list_mono)
    fix k assume "k \<in> set [Suc i..<m]"
    then show "month_len leap k \<le> 32" using assms(2) by (intro month_len_bound) simp
  qed
  also have "\<dots> \<le> 12 * 32" using assms(2) by (simp add: sum_list_triv)
  finally have "sum_list (map (month_len leap) [Suc i..<m]) + r < 1000" using assms(3) month_days_bound [OF assms(2)] by simp
  from gm_month_step [OF _ this, of i leap] show ?case
    using Suc.hyps(1) [of "Suc i"] Suc.hyps(2) i assms(2) by (simp add: add.assoc)
qed

text \<open>More days than the months have left run behind the table.\<close>

lemma gm_month_behind:
  assumes "2 \<le> i" "i \<le> 12" "32 * (12 - i) \<le> unat tim"
  shows "gm_month leap tim i = None"
  using assms
proof (induction "12 - i" arbitrary: i tim)
  case 0
  then show ?case by (subst gm_month.simps) (simp add: month_days_def)
next
  case (Suc n)
  then have i: "i < 12" and n: "32 + 32 * (12 - Suc i) \<le> unat tim" by linarith+
  have b: "month_days ! i \<le> 31" by (rule month_days_bound [OF i])
  then have k: "unat (of_nat (month_days ! i) :: u32) = month_days ! i" by (intro unat_of_nat_u32) simp
  then have "unat (tim - of_nat (month_days ! i)) = unat tim - month_days ! i"
    using b n by (subst unat_sub) (simp_all add: word_le_nat_alt)
  then have "gm_month leap (tim - of_nat (month_days ! i)) (Suc i) = None"
    using b n Suc by (intro Suc.hyps(1)) simp_all
  then show ?case using b n i Suc.prems by (subst gm_month.simps) (simp add: month_days_def)
qed

section \<open>Days since 1970\<close>

definition epoch_days :: "int \<Rightarrow> int \<Rightarrow> int \<Rightarrow> int" where
  "epoch_days y m d = days_before_year y + days_before_month y m + d - 1 - days_before_year 1970"

lemma is_leap_leap_year: "is_leap y \<longleftrightarrow> leap_year (int y)"
proof -
  have "k dvd int y \<longleftrightarrow> y mod nat k = 0" if "0 < k" for k :: int
    using that by (metis dvd_eq_mod_eq_0 int_dvd_int_iff int_nat_eq less_imp_le nat_int)
  from this [of 4] this [of 100] this [of 400] show ?thesis by (simp add: is_leap_def leap_year_def)
qed

lemma days_before_Suc_year: "days_before_year (y + 1) = days_before_year y + (if leap_year y then 366 else 365)"
  using leap_days [of y] unfolding days_before_year_def by (cases "leap_year y") (simp_all add: algebra_simps)

lemma sum_days_in_year: "a \<le> y \<Longrightarrow> int (sum_list (map days_in_year [a..<y])) = days_before_year (int y) - days_before_year (int a)"
proof (induction y rule: dec_induct)
  case (step n)
  have "int (days_in_year n) = days_before_year (int n + 1) - days_before_year (int n)"
    using days_before_Suc_year [of "int n"] by (simp add: days_in_year_def is_leap_leap_year)
  then show ?case using step by (simp add: add.commute)
qed simp

lemma sum_month_len:
  assumes "m < 12"
  shows "int (sum_list (map (month_len (leap_year y)) [0..<m])) = days_before_month y (int m + 1)"
proof -
  have "m = 0 \<or> m = 1 \<or> m = 2 \<or> m = 3 \<or> m = 4 \<or> m = 5 \<or> m = 6 \<or> m = 7 \<or> m = 8 \<or> m = 9 \<or> m = 10 \<or> m = 11"
    using assms by presburger
  then show ?thesis
    by (elim disjE; simp add: days_before_month_def month_len_def month_days_def upt_rec nat_add_distrib)
qed

lemma sum_list_upt_mono: "a \<le> b \<Longrightarrow> b \<le> c \<Longrightarrow> sum_list (map f [a..<b]) \<le> (sum_list (map f [a..<c]) :: nat)"
  by (metis le_add1 map_append sum_list_append upt_add_eq_append le_iff_add)

lemma month_part_bound:
  assumes "m < 12" "r < month_len (is_leap y) m"
  shows "sum_list (map (month_len (is_leap y)) [0..<m]) + r < days_in_year y"
proof -
  let ?f = "month_len (is_leap y)"
  have "sum_list (map ?f [0..<m]) + r < sum_list (map ?f [0..<Suc m])" using assms(2) by simp
  also have "\<dots> \<le> sum_list (map ?f [0..<12])" using assms(1) by (intro sum_list_upt_mono) simp_all
  also have "\<dots> = days_in_year y" by (simp add: month_len_def month_days_def days_in_year_def upt_rec)
  finally show ?thesis .
qed

lemma days_bound:
  assumes "1970 \<le> y" "y \<le> 2105" "r < days_in_year y"
  shows "sum_list (map days_in_year [1970..<y]) + r < 49673"
proof -
  have "sum_list (map days_in_year [1970..<y]) + r < sum_list (map days_in_year [1970..<Suc y])"
    using assms by simp
  also have "\<dots> \<le> sum_list (map days_in_year [1970..<2106])" using assms by (intro sum_list_upt_mono) simp_all
  also have "int \<dots> = 49673"
    using sum_days_in_year [of 1970 2106] by (simp add: days_before_year_def)
  then have "sum_list (map days_in_year [1970..<2106]) = 49673" by linarith
  finally show ?thesis .
qed

text \<open>The leap year test of the month loop is applied to the years since 1900; it differs for 2000 only.\<close>

lemma is_leap_since_1900:
  assumes "1970 \<le> y" "y \<le> 2105" "y \<noteq> 2000"
  shows "is_leap (y - 1900) = is_leap y"
proof (cases "y mod 100 = 0")
  case True
  then obtain k where k: "y = 100 * k" by blast
  then have "k = 20 \<or> k = 21" using assms by linarith
  then show ?thesis using k assms(3) by (elim disjE) (simp_all add: is_leap_def)
next
  case False
  have "y = (y - 1900) + 1900" using assms by simp
  then have "y mod 4 = (y - 1900) mod 4" "y mod 100 = (y - 1900) mod 100"
    using mod_mult_self1 [of "y - 1900" 475 4] mod_mult_self1 [of "y - 1900" 19 100] by simp_all
  with False show ?thesis by (simp add: is_leap_def)
qed

lemma gmtime_year:
  assumes "1970 \<le> y" "y \<le> 2105" "r < days_in_year y" "D = sum_list (map days_in_year [1970..<y]) + r" "h < 24" "mi < 60" "sc < 60"
  shows "gmtime (of_nat (((D * 24 + h) * 60 + mi) * 60 + sc)) =
    (case gm_month (is_leap (y - 1900)) (of_nat r) 0 of
       None \<Rightarrow> None
     | Some (tim, mon) \<Rightarrow>
         Some \<lparr>tm_sec = of_nat sc, tm_min = of_nat mi, tm_hour = of_nat h, tm_mday = ucast (tim + 1), tm_mon = of_nat mon,
           tm_year = of_nat (y - 1900), tm_wday = of_nat ((D + 4) mod 7)\<rparr>)"
proof -
  let ?T = "((D * 24 + h) * 60 + mi) * 60 + sc"
  have D: "D < 49673" unfolding assms(4) using days_bound [OF assms(1-3)] .
  have T: "unat (of_nat ?T :: u32) = ?T" using D assms(5-7) by (intro unat_of_nat_u32) simp
  have d: "unat (of_nat ?T div 60 :: u32) = (D * 24 + h) * 60 + mi" "unat (of_nat ?T div 60 div 60 :: u32) = D * 24 + h"
    "unat (of_nat ?T div 60 div 60 div 24 :: u32) = D"
    using assms(5-7) by (simp_all only: unat_div T) simp_all
  have u: "ucast (x :: u32) = (of_nat (unat x) :: u8)" for x by simp
  have m: "unat (of_nat ?T mod 60 :: u32) = sc" "unat (of_nat ?T div 60 mod 60 :: u32) = mi" "unat (of_nat ?T div 60 div 60 mod 24 :: u32) = h"
  proof -
    have g: "(a * k + x) mod k = x" if "x < k" for a k x :: nat using that by simp
    have n: "unat (60 :: u32) = 60" "unat (24 :: u32) = 24" by simp_all
    show "unat (of_nat ?T mod 60 :: u32) = sc" "unat (of_nat ?T div 60 mod 60 :: u32) = mi"
      "unat (of_nat ?T div 60 div 60 mod 24 :: u32) = h"
      unfolding unat_mod d T n using g [OF assms(7)] g [OF assms(6)] g [OF assms(5)] by blast+
  qed
  have wd: "unat ((of_nat ?T div 60 div 60 div 24 + 4) mod 7 :: u32) = (D + 4) mod 7"
    using D by (simp only: unat_mod unat_word_ariths(1) d) simp
  have gy: "gm_year D 1970 = (r, y)" unfolding assms(4) using assms(1,3) by (rule gm_year_sum)
  have yy: "unat (of_nat (y - 1900) :: u8) = y - 1900" using assms(1,2) by (intro unat_of_nat_u8) simp
  show ?thesis
    unfolding gmtime_def Let_def d gy prod.case yy u m wd ..
qed

lemma gmtime_date:
  assumes "1970 \<le> y" "y \<le> 2105" "y \<noteq> 2000" "m < 12" "r < month_days ! m" "h < 24" "mi < 60" "sc < 60"
    "D = sum_list (map days_in_year [1970..<y]) + (sum_list (map (month_len (is_leap y)) [0..<m]) + r)"
  shows "gmtime (of_nat (((D * 24 + h) * 60 + mi) * 60 + sc)) =
    Some \<lparr>tm_sec = of_nat sc, tm_min = of_nat mi, tm_hour = of_nat h, tm_mday = of_nat (r + 1), tm_mon = of_nat m,
      tm_year = of_nat (y - 1900), tm_wday = of_nat ((D + 4) mod 7)\<rparr>"
proof -
  let ?r = "sum_list (map (month_len (is_leap y)) [0..<m]) + r"
  have r: "?r < days_in_year y" using assms by (intro month_part_bound) (auto simp: month_len_def)
  have gm: "gm_month (is_leap (y - 1900)) (of_nat ?r) 0 = Some (of_nat r, m)"
    unfolding is_leap_since_1900 [OF assms(1-3)] using assms by (intro gm_month_sum) (auto simp: month_days_def)
  have "unat (of_nat r + 1 :: u32) = r + 1"
    using assms(5) month_days_bound [OF assms(4)] unat_of_nat_u32 [of "r + 1"] by (simp add: add.commute)
  then have rr: "ucast (of_nat r + 1 :: u32) = (of_nat (r + 1) :: u8)" by (metis of_nat_unat)
  show ?thesis unfolding gmtime_year [OF assms(1,2) r assms(9,6-8)] gm option.case prod.case rr ..
qed

section \<open>From the date to seconds\<close>

text \<open>The month and year that \<open>mktime\<close> computes with: February last.\<close>

definition shifted :: "nat \<Rightarrow> nat \<Rightarrow> nat \<times> nat" where
  "shifted y m = (if m = 1 then (12, y - 1) else (m - 1, y))"

lemma gauss_days:
  assumes "1970 \<le> y" "1 \<le> m" "m < 12" "shifted y m = (mon, yr)"
  shows "int (yr div 4) - int (yr div 100) + int (yr div 400) + int (367 * mon div 12) + int d + int yr * 365 - 719499 =
    epoch_days (int y) (int m + 1) (int d)"
proof -
  have y1: "int (y - 1) = int y - 1" "int (y - Suc 0) = int y - 1" using assms(1) by simp_all
  have b: "days_before_year 1970 = 719162" by (simp add: days_before_year_def)
  define L where "L = (int y - 1) div 4 - (int y - 1) div 100 + (int y - 1) div 400"
  define l where "l = (if leap_year (int y) then 1 else 0 :: int)"
  have L: "int y div 4 - int y div 100 + int y div 400 = L + l" using leap_days [of "int y"] unfolding L_def l_def .
  then have L': "int y div 4 + int y div 400 = L + (l + int y div 100)" by simp
  have e: "epoch_days (int y) (int m + 1) (int d) =
      365 * (int y - 1) + L + sum_list (take m [31, 28 + l, 31, 30, 31, 30, 31, 31, 30, 31, 30, 31]) + int d - 719163"
    unfolding epoch_days_def b days_before_month_def by (simp add: days_before_year_def L_def l_def nat_add_distrib)
  have "m = 1 \<or> m = 2 \<or> m = 3 \<or> m = 4 \<or> m = 5 \<or> m = 6 \<or> m = 7 \<or> m = 8 \<or> m = 9 \<or> m = 10 \<or> m = 11"
    using assms(2,3) by presburger
  then show ?thesis
  proof (cases "m = 1")
    case True
    then have "mon = 12" "yr = y - 1" using assms(4) by (simp_all add: shifted_def)
    then show ?thesis unfolding e zdiv_int y1 using True by (simp add: L_def zdiv_int y1 algebra_simps)
  next
    case False
    then have "mon = m - 1" "yr = y" using assms(4) by (simp_all add: shifted_def)
    then show ?thesis using \<open>m = 1 \<or> _\<close> False unfolding e
      by (elim disjE) (simp_all add: zdiv_int L' algebra_simps)
  qed
qed

lemma mktime_eval:
  assumes "unat (tm_mon t) = m" "1 \<le> m" "m < 12" "unat (tm_year t) + 1900 = y" "70 \<le> unat (tm_year t)"
    "shifted y m = (mon, yr)"
  shows "mktime t = Some (of_nat ((((yr div 4 - yr div 100 + yr div 400 + 367 * mon div 12 + unat (tm_mday t) + yr * 365 - 719499) * 24
    + unat (tm_hour t)) * 60 + unat (tm_min t)) * 60 + unat (tm_sec t)))"
proof -
  define y16 where "y16 = (ucast (tm_year t) + 1900 :: u16)"
  have y16: "unat y16 = y" unfolding y16_def year_1900 by (rule assms(4))
  have y: "1970 \<le> y" "y < 2156" using assms(4,5) u8_lt_256 [of "tm_year t"] by linarith+
  have m1: "tm_mon t + 1 - 2 = tm_mon t - 1" by simp
  have m2: "unat (tm_mon t - 1) = m - 1" using assms(1,2) by (subst unat_sub_u8) simp_all
  have c: "(tm_mon t - 1 = 0) \<longleftrightarrow> m = 1" using m2 assms(2) unfolding u8_eq_iff by auto
  obtain mw yw where w: "(if tm_mon t - 1 = 0 then (tm_mon t - 1 + 12, y16 - 1) else (tm_mon t - 1, y16)) = (mw, yw)" by fastforce
  have "unat (y16 - 1) = y - 1" using y16 y by (subst unat_diff_u16) simp_all
  then have u: "unat mw = mon" "unat yw = yr"
    using w c m2 y16 assms(6) by (auto simp: shifted_def split: if_splits)
  have s: "mon \<le> 12" "1969 \<le> yr" "yr < 2156" using assms(3,6) y by (auto simp: shifted_def split: if_splits)
  have q: "yr div 100 \<le> yr div 4" by (rule div_le_mono2) simp_all
  have days: "unat (yw div 4 - yw div 100 + yw div 400 + of_nat (367 * unat mw div 12) + ucast (tm_mday t)) =
      yr div 4 - yr div 100 + yr div 400 + 367 * mon div 12 + unat (tm_mday t)"
  proof -
    have b: "yr div 4 < 540" "yr div 400 < 10" "367 * mon div 12 < 400" "unat (tm_mday t) < 256"
      using s by (simp_all add: div_less_iff_less_mult)
    have 1: "unat (yw div 4 - yw div 100) = yr div 4 - yr div 100"
      using q by (subst unat_diff_u16) (simp_all add: unat_div u)
    have 2: "unat (yw div 4 - yw div 100 + yw div 400) = yr div 4 - yr div 100 + yr div 400"
      using b by (subst unat_add_u16; simp add: 1 unat_div u)
    have 3: "unat (yw div 4 - yw div 100 + yw div 400 + of_nat (367 * unat mw div 12)) = yr div 4 - yr div 100 + yr div 400 + 367 * mon div 12"
      using b by (subst unat_add_u16; simp add: 2 u unat_of_nat_u16)
    have "yr div 4 - yr div 100 + yr div 400 + 367 * mon div 12 + unat (tm_mday t) < 65536" using b by linarith
    then show ?thesis by (subst unat_add_u16; simp add: 3)
  qed
  have n: "\<not> 2 ^ 15 \<le> 367 * unat mw" using s u by simp
  have of: "ucast x = (of_nat (unat x) :: u32)" for x :: u16 by simp
  have of': "ucast x = (of_nat (unat x) :: u32)" for x :: u8 by simp
  have ge: "719499 \<le> yr div 4 - yr div 100 + yr div 400 + 367 * mon div 12 + unat (tm_mday t) + yr * 365"
  proof -
    have "492 \<le> yr div 4" "yr div 100 < 22" "4 \<le> yr div 400"
      using s div_le_mono [of 1969 yr 4] div_le_mono [of 1969 yr 400] by (simp_all add: div_less_iff_less_mult)
    moreover have "mon = 12 \<or> 1970 \<le> yr \<and> 30 \<le> 367 * mon div 12"
      using assms(2,6) y div_le_mono [of 367 "367 * mon" 12] by (auto simp: shifted_def split: if_splits)
    ultimately show ?thesis using s(2) by auto
  qed
  show ?thesis
    unfolding mktime_def Let_def m1 y16_def [symmetric] w prod.case if_not_P [OF n] of of' days
    unfolding u using ge q by (simp only: of_nat_add of_nat_mult of_nat_diff of_nat_numeral)
qed

lemma softrtc_set_date:
  assumes "tm_ok t" "tm_mon t \<noteq> 0" "70 \<le> tm_year t" "tm_year t < 206"
  shows "softrtc_set t s = Some (s\<lparr>softtime := of_nat (((nat (epoch_days (uint (tm_year t) + 1900) (uint (tm_mon t) + 1) (uint (tm_mday t))) * 24
    + unat (tm_hour t)) * 60 + unat (tm_min t)) * 60 + unat (tm_sec t))\<rparr>)"
proof -
  let ?y = "unat (tm_year t) + 1900" and ?m = "unat (tm_mon t)"
  have m: "1 \<le> ?m" using assms(2) by (simp add: u8_eq_iff Suc_le_eq)
  have y: "70 \<le> unat (tm_year t)" using assms(3) by (simp add: word_le_nat_alt)
  obtain mon yr where sh: "shifted ?y ?m = (mon, yr)" by fastforce
  have q: "yr div 100 \<le> yr div 4" by (rule div_le_mono2) simp_all
  have e: "int (yr div 4) - int (yr div 100) + int (yr div 400) + int (367 * mon div 12) + int (unat (tm_mday t)) + int yr * 365 - 719499 =
      epoch_days (uint (tm_year t) + 1900) (uint (tm_mon t) + 1) (uint (tm_mday t))"
    using gauss_days [OF _ m tm_okD(6) [OF assms(1)] sh, of "unat (tm_mday t)"] y by simp
  have n: "nat (epoch_days (uint (tm_year t) + 1900) (uint (tm_mon t) + 1) (uint (tm_mday t))) =
      yr div 4 - yr div 100 + yr div 400 + 367 * mon div 12 + unat (tm_mday t) + yr * 365 - 719499"
    unfolding e [symmetric] using q by linarith
  show ?thesis
    unfolding softrtc_set_def n mktime_eval [OF refl m tm_okD(6) [OF assms(1)] refl y sh] by (simp only: option.map)
qed

lemma epoch_days_sum:
  assumes "1970 \<le> y" "m < 12"
  shows "epoch_days (int y) (int m + 1) (int r + 1) =
    int (sum_list (map days_in_year [1970..<y]) + (sum_list (map (month_len (is_leap y)) [0..<m]) + r))"
  using sum_days_in_year [OF assms(1)] sum_month_len [OF assms(2), of "int y"]
  by (simp add: epoch_days_def is_leap_leap_year)

lemma epoch_weekday: "(epoch_days y m d + 4) mod 7 = weekday y m d"
proof -
  have "epoch_days y m d + 4 = days_before_year y + days_before_month y m + d + 7 * (- 102737)"
    unfolding epoch_days_def by (simp add: days_before_year_def)
  then show ?thesis unfolding weekday_def by (metis mod_mult_self2)
qed

section \<open>Round trip\<close>



text \<open>
  C37. The dates that the software clock cannot handle.  Setting it in January is undefined: the month,
  kept in a byte, does not become negative, and a product exceeds the range of \<open>int\<close>.  It can be set to
  29 February, but reading the time is then undefined on this day: the day count wraps below zero and the loop over the
  months runs behind the end of its table.
\<close>

theorem softrtc_january_and_leap_day:
  assumes "tm_ok t" "70 \<le> tm_year t" "tm_year t < 206" "tm_year t \<noteq> 100"
  shows "(tm_mon t = 0 \<longrightarrow> softrtc_set t s = None) \<and>
    (tm_mon t = 1 \<and> tm_mday t = 29 \<and> is_leap (unat (tm_year t) + 1900) \<longrightarrow>
      (\<exists>s'. softrtc_set t s = Some s' \<and> softrtc_read s' = None))"
proof (intro conjI impI; (elim conjE)?)
  assume "tm_mon t = 0"
  then have m: "tm_mon t + 1 - 2 = - 1" by simp
  have "unat (- 1 :: u8) = 255" by (simp only: unsigned_minus_1_eq_mask) (simp add: mask_eq_exp_minus_1)
  then show "softrtc_set t s = None" by (simp add: softrtc_set_def mktime_def Let_def m)
next
  define y where "y = unat (tm_year t) + 1900"
  assume d: "tm_mon t = 1" "tm_mday t = 29" and l: "is_leap (unat (tm_year t) + 1900)"
  have y: "1970 \<le> y" "y \<le> 2105" "y \<noteq> 2000"
    using assms(2-4) unfolding y_def by (auto simp: word_le_nat_alt word_less_nat_alt u8_eq_iff)
  have i: "uint (tm_year t) + 1900 = int y" "uint (tm_mon t) + 1 = int 1 + 1" "uint (tm_mday t) = int 28 + 1"
    using d unfolding y_def by simp_all
  define D where "D = sum_list (map days_in_year [1970..<y]) + 59"
  have "epoch_days (int y) (int 1 + 1) (int 28 + 1) = int D"
    using epoch_days_sum [OF y(1), of 1 28] unfolding D_def by (simp add: month_len_def month_days_def)
  then have set: "softrtc_set t s = Some (s\<lparr>softtime := of_nat (((D * 24 + unat (tm_hour t)) * 60 + unat (tm_min t)) * 60 + unat (tm_sec t))\<rparr>)"
    using softrtc_set_date [OF assms(1) _ assms(2,3), of s] d(1) unfolding i by (simp only: nat_int) simp
  have "gm_month True (of_nat 59) 0 = None"
  proof -
    have "unat (- 1 :: u32) = 2 ^ 32 - 1" by (simp only: unsigned_minus_1_eq_mask) (simp add: mask_eq_exp_minus_1)
    then have "gm_month True (- 1) 2 = None" by (intro gm_month_behind) simp_all
    then have "gm_month True (- 1) (Suc (Suc 0)) = None" by (simp only: numeral_2_eq_2)
    then show ?thesis by (simp add: gm_month.simps [of True 59 0] gm_month.simps [of True 28 "Suc 0"] month_days_def)
  qed
  moreover have "is_leap (y - 1900)" using is_leap_since_1900 [OF y] l unfolding y_def by simp
  moreover have "59 < days_in_year y" by (simp add: days_in_year_def)
  ultimately have "gmtime (of_nat (((D * 24 + unat (tm_hour t)) * 60 + unat (tm_min t)) * 60 + unat (tm_sec t))) = None"
    using gmtime_year [OF y(1,2) _ D_def tm_okD(3,2,1) [OF assms(1)]] by simp
  then show "\<exists>s'. softrtc_set t s = Some s' \<and> softrtc_read s' = None" unfolding set by (simp add: softrtc_read_def)
qed

theorem softrtc_january_and_leap_day_witness:
  "softrtc_set (new_year_eve\<lparr>tm_mon := 0\<rparr>) \<lparr>ms = 0, softtime = 0, soft_state = RTC_OK\<rparr> = None \<and>
   (\<exists>s'. softrtc_set (new_year_eve\<lparr>tm_mon := 1, tm_mday := 29, tm_year := 120\<rparr>) \<lparr>ms = 0, softtime = 0, soft_state = RTC_OK\<rparr> = Some s' \<and>
      softrtc_read s' = None)"
  using softrtc_january_and_leap_day [of "new_year_eve\<lparr>tm_mon := 0\<rparr>" "\<lparr>ms = 0, softtime = 0, soft_state = RTC_OK\<rparr>"]
    softrtc_january_and_leap_day [of "new_year_eve\<lparr>tm_mon := 1, tm_mday := 29, tm_year := 120\<rparr>" "\<lparr>ms = 0, softtime = 0, soft_state = RTC_OK\<rparr>"]
  by (simp add: new_year_eve_def tm_ok_def is_leap_def)

end
