(* ===== verification/Fatops.thy ===== *)
theory Fatops
  imports Fileops P00cache
begin

text \<open>
  Files and directories on FAT partitions, \<^verbatim>\<open>src/src/fatops.c\<close>: the callbacks of file buffers, the file
  and directory operations, sector access through a boot sector file, and the table of operations.

  FatFs (\<^verbatim>\<open>src/src/ff.c\<close>), a library kept in the tree, is used through its interface.  An open file is a
  \<open>fil\<close> as for image files: its contents, size and position, with the outcomes of calls on it taken from
  \<open>io_script\<close>.  The calls on a volume are a parameter \<open>ff\<close>, a record of functions on a volume of type \<open>'v\<close>: they
  take the partition, the current directory and a name.  A file carries the number \<open>fp_obj\<close> by which closing it
  refers to the volume.
\<close>

unbundle bit_operations_syntax

section \<open>FatFs\<close>

record filinfo =
  fi_fsize :: u32
  fi_fdate :: u16
  fi_ftime :: u16
  fi_fattrib :: u8
  fi_clust :: u32
  fi_fname :: "u8 list"
  fi_lfn :: "u8 list"

record 'v fatfs =
  ff_open :: "u8 \<Rightarrow> u32 \<Rightarrow> u8 list \<Rightarrow> u8 \<Rightarrow> 'v \<Rightarrow> FRESULT \<times> fil \<times> nat \<times> 'v"
  ff_opencluster :: "u8 \<Rightarrow> u32 \<Rightarrow> 'v \<Rightarrow> FRESULT \<times> fil \<times> nat"
  ff_close :: "fil \<Rightarrow> nat \<Rightarrow> 'v \<Rightarrow> FRESULT \<times> 'v"
  ff_opendir :: "u8 \<Rightarrow> u32 \<Rightarrow> 'v \<Rightarrow> FRESULT \<times> fatdir"
  ff_readdir :: "u8 \<Rightarrow> fatdir \<Rightarrow> 'v \<Rightarrow> FRESULT \<times> filinfo \<times> fatdir"
  ff_stat :: "u8 \<Rightarrow> u32 \<Rightarrow> u8 list \<Rightarrow> 'v \<Rightarrow> FRESULT \<times> filinfo"
  ff_unlink :: "u8 \<Rightarrow> u32 \<Rightarrow> u8 list \<Rightarrow> 'v \<Rightarrow> FRESULT \<times> 'v"
  ff_mkdir :: "u8 \<Rightarrow> u32 \<Rightarrow> u8 list \<Rightarrow> 'v \<Rightarrow> FRESULT \<times> 'v"
  ff_rename :: "u8 \<Rightarrow> u32 \<Rightarrow> u8 list \<Rightarrow> u8 list \<Rightarrow> 'v \<Rightarrow> FRESULT \<times> 'v"
  ff_getfree :: "u8 \<Rightarrow> u32 \<Rightarrow> 'v \<Rightarrow> FRESULT \<times> u32"
  ff_fs_type :: "u8 \<Rightarrow> 'v \<Rightarrow> u8"
  ff_mount :: "u8 \<Rightarrow> u8 \<Rightarrow> 'v \<Rightarrow> FRESULT \<times> 'v"

record 'v fatdrive = drive +
  volume :: 'v
  curr_dir :: "u8 \<Rightarrow> u32"
  img_obj :: "u8 \<Rightarrow> nat"
  p00 :: p00_state

definition FA_OPEN_EXISTING :: u8 where [simp]: "FA_OPEN_EXISTING = 0"
definition FA_READ :: u8 where [simp]: "FA_READ = 1"
definition FA_WRITE :: u8 where [simp]: "FA_WRITE = 2"
definition FA_CREATE_NEW :: u8 where [simp]: "FA_CREATE_NEW = 4"
definition FA_OPEN_ALWAYS :: u8 where [simp]: "FA_OPEN_ALWAYS = 0x10"
definition AM_RDO :: u8 where [simp]: "AM_RDO = 1"
definition AM_HID :: u8 where [simp]: "AM_HID = 2"
definition AM_SYS :: u8 where [simp]: "AM_SYS = 4"
definition AM_VOL :: u8 where [simp]: "AM_VOL = 8"
definition AM_DIR :: u8 where [simp]: "AM_DIR = 0x10"
definition P00_HEADER_SIZE :: nat where [simp]: "P00_HEADER_SIZE = 26"
definition P00_CBMNAME_OFFSET :: nat where [simp]: "P00_CBMNAME_OFFSET = 8"
definition P00_RECORDLEN_OFFSET :: nat where [simp]: "P00_RECORDLEN_OFFSET = 25"
definition BOOTSECTOR_FILE :: "u8 list" where "BOOTSECTOR_FILE = str ''bootsect.128''"
definition p00marker :: "u8 list" where "p00marker = str ''C64File''"
definition ERROR_RECORD_MISSING :: u8 where [simp]: "ERROR_RECORD_MISSING = 50"
definition ERROR_DIR_ERROR :: u8 where [simp]: "ERROR_DIR_ERROR = 71"

text \<open>The calls on an open file.\<close>

definition fil_lseek :: "u32 \<Rightarrow> fil \<Rightarrow> 'a fw_scheme \<Rightarrow> FRESULT \<times> fil \<times> 'a fw_scheme" where
  "fil_lseek ofs f s =
     (case next_io s of
        (IO_ERR r, s) \<Rightarrow> (r, f, s)
      | (_, s) \<Rightarrow> (FR_OK, seek_to (unat ofs) f, s))"

definition fil_read :: "nat \<Rightarrow> fil \<Rightarrow> 'a fw_scheme \<Rightarrow> FRESULT \<times> u8 list \<times> fil \<times> 'a fw_scheme" where
  "fil_read n f s =
     (case next_io s of
        (IO_ERR r, s) \<Rightarrow> (r, [], f, s)
      | (_, s) \<Rightarrow> (let n = min n (fl_size f - fl_ptr f)
                  in (FR_OK, mem_read (fl_data f) (fl_ptr f) n, f\<lparr>fl_ptr := fl_ptr f + n\<rparr>, s)))"

definition fil_write :: "u8 list \<Rightarrow> fil \<Rightarrow> 'a fw_scheme \<Rightarrow> FRESULT \<times> nat \<times> fil \<times> 'a fw_scheme" where
  "fil_write xs f s =
     (case next_io s of
        (IO_ERR r, s) \<Rightarrow> (r, 0, f, s)
      | (out, s) \<Rightarrow>
          if \<not> fl_write f then (FR_DENIED, 0, f, s)
          else (let xs = (case out of IO_SHORT k \<Rightarrow> take k xs | _ \<Rightarrow> xs) in (FR_OK, length xs, write_bytes xs f, s)))"

abbreviation fh :: "nat \<Rightarrow> 'a fw_scheme \<Rightarrow> fil" where
  "fh i s \<equiv> fp_fh (b_fat (buf i s))"

abbreviation headersize :: "nat \<Rightarrow> 'a fw_scheme \<Rightarrow> u8" where
  "headersize i s \<equiv> fp_headersize (b_fat (buf i s))"

definition set_fh :: "nat \<Rightarrow> fil \<Rightarrow> 'a fw_scheme \<Rightarrow> 'a fw_scheme" where
  "set_fh i f s = upd_buf i (\<lambda>b. b\<lparr>b_fat := (b_fat b)\<lparr>fp_fh := f\<rparr>\<rparr>) s"

definition set_headersize :: "nat \<Rightarrow> u8 \<Rightarrow> 'a fw_scheme \<Rightarrow> 'a fw_scheme" where
  "set_headersize i n s = upd_buf i (\<lambda>b. b\<lparr>b_fat := (b_fat b)\<lparr>fp_headersize := n\<rparr>\<rparr>) s"

definition buf_lseek :: "nat \<Rightarrow> u32 \<Rightarrow> 'a fw_scheme \<Rightarrow> FRESULT \<times> 'a fw_scheme" where
  "buf_lseek i ofs s = (let (res, f, s) = fil_lseek ofs (fh i s) s in (res, set_fh i f s))"

definition buf_close :: "'v fatfs \<Rightarrow> nat \<Rightarrow> ('v, 'a) fatdrive_scheme \<Rightarrow> FRESULT \<times> ('v, 'a) fatdrive_scheme" where
  "buf_close ff i s =
     (let (res, v) = ff_close ff (fh i s) (fp_obj (b_fat (buf i s))) (volume s) in (res, s\<lparr>volume := v\<rparr>))"

definition buf_open :: "'v fatfs \<Rightarrow> nat \<Rightarrow> u8 \<Rightarrow> u8 list \<Rightarrow> u8 \<Rightarrow> ('v, 'a) fatdrive_scheme \<Rightarrow> FRESULT \<times> ('v, 'a) fatdrive_scheme" where
  "buf_open ff i p name mode s =
     (let (res, f, obj, v) = ff_open ff p (curr_dir s p) name mode (volume s)
      in (res, (upd_buf i (\<lambda>b. b\<lparr>b_fat := (b_fat b)\<lparr>fp_fh := f, fp_obj := obj\<rparr>\<rparr>) s)\<lparr>volume := v\<rparr>))"

definition img_open :: "'v fatfs \<Rightarrow> u8 \<Rightarrow> u8 list \<Rightarrow> u8 \<Rightarrow> ('v, 'a) fatdrive_scheme \<Rightarrow> FRESULT \<times> ('v, 'a) fatdrive_scheme" where
  "img_open ff p name mode s =
     (let (res, f, obj, v) = ff_open ff p (curr_dir s p) name mode (volume s)
      in (res, (upd_image p (\<lambda>_. f) s)\<lparr>volume := v, img_obj := (img_obj s)(p := obj)\<rparr>))"

definition img_close :: "'v fatfs \<Rightarrow> u8 \<Rightarrow> ('v, 'a) fatdrive_scheme \<Rightarrow> FRESULT \<times> ('v, 'a) fatdrive_scheme" where
  "img_close ff p s = (let (res, v) = ff_close ff (image p s) (img_obj s p) (volume s) in (res, s\<lparr>volume := v\<rparr>))"

section \<open>Callbacks\<close>

text \<open>Zero bytes at the end of a record are dropped.\<close>

fun strip_nulls :: "u8 list \<Rightarrow> nat \<Rightarrow> nat" where
  "strip_nulls data 0 = 0"
| "strip_nulls data (Suc l) =
     (if data ! Suc l = 0 then (if l > 1 then strip_nulls data l else l) else Suc l)"

text \<open>\<open>None\<close> is a read of 255 bytes, for which the data area of the buffer is one byte too short.\<close>

definition fat_file_read :: "nat \<Rightarrow> 'a fw_scheme \<Rightarrow> (u8 \<times> 'a fw_scheme) option" where
  "fat_file_read i s =
     (let s = upd_buf i (\<lambda>b. b\<lparr>b_fptr := of_nat (fl_ptr (fh i s)) - ucast (headersize i s)\<rparr>) s;
          rl = b_recordlen (buf i s);
          (res, bs, f, s) = fil_read (if rl \<noteq> 0 then unat rl else 254) (fh i s) s;
          s = set_fh i f s in
      if 254 < length bs then None
      else
        (let s = upd_buf i (\<lambda>b. b\<lparr>b_data := put_at 2 bs (b_data b)\<rparr>) s in
         if res \<noteq> FR_OK then do { s \<leftarrow> parse_error res True s; Some (1, free_buffer (Some i) s) }
         else
           (let n = (if bs = [] then 1 else length bs);
                s = (if bs = [] then upd_buf i (\<lambda>b. b\<lparr>b_data := (b_data b)[2 := if rl \<noteq> 0 then 255 else 13]\<rparr>) s else s);
                last = (if rl \<noteq> 0 then strip_nulls (b_data (buf i s)) (n + 1) else n + 1)
            in Some (0, upd_buf i (\<lambda>b. b\<lparr>b_position := 2, b_lastused := of_nat last,
                      b_sendeoi := (n < 254 \<or> fl_size f - fl_ptr f = 0 \<or> rl \<noteq> 0)\<rparr>) s))))"

text \<open>
  \<open>None\<close> is an access behind the end of the data area: a record of 255 bytes, or a buffer whose position
  has wrapped around to zero or one without \<open>mustflush\<close>.
\<close>

definition write_fail :: "'v fatfs \<Rightarrow> nat \<Rightarrow> ('v, 'a) fatdrive_scheme \<Rightarrow> (u8 \<times> ('v, 'a) fatdrive_scheme) option" where
  "write_fail ff i s = (let (_, s) = buf_close ff i s in Some (1, free_buffer (Some i) s))"

definition write_data :: "'v fatfs \<Rightarrow> nat \<Rightarrow> ('v, 'a) fatdrive_scheme \<Rightarrow> (u8 \<times> ('v, 'a) fatdrive_scheme) option" where
  "write_data ff i s =
     (let s = (if \<not> b_mustflush (buf i s) then upd_buf i (\<lambda>b. b\<lparr>b_lastused := b_position b - 1\<rparr>) s else s);
          rl = unat (b_recordlen (buf i s)); last = unat (b_lastused (buf i s)) in
      if 254 < rl \<or> (rl = 0 \<and> last = 0) then None
      else
        (let s = (if rl + 1 > last
                  then upd_buf i (\<lambda>b. b\<lparr>b_data := put_at (last + 1) (replicate (rl + 1 - last) 0) (b_data b)\<rparr>) s else s);
             s = (if rl \<noteq> 0 then upd_buf i (\<lambda>b. b\<lparr>b_lastused := of_nat (rl + 1)\<rparr>) s else s);
             len = unat (b_lastused (buf i s)) - 1;
             (res, n, f, s) = fil_write (take len (drop 2 (b_data (buf i s)))) (fh i s) s;
             s = set_fh i f s in
         if res \<noteq> FR_OK then do { s \<leftarrow> parse_error res True s; write_fail ff i s }
         else if n \<noteq> len then do { s \<leftarrow> set_error ERROR_DISK_FULL s; write_fail ff i s }
         else Some (0, upd_buf i (\<lambda>b. b\<lparr>b_mustflush := False, b_position := 2, b_lastused := 2,
                        b_fptr := of_nat (fl_ptr f) - ucast (fp_headersize (b_fat b))\<rparr>) (mark_buffer_clean i s))))"

text \<open>The loop that fills the gap between the old end of the file and the data just written.\<close>

partial_function (option) fat_fill :: "'v fatfs \<Rightarrow> nat \<Rightarrow> u32 \<Rightarrow> ('v, 'a) fatdrive_scheme \<Rightarrow> (u8 \<times> ('v, 'a) fatdrive_scheme) option" where
  "fat_fill ff i n s =
     (if n = 0 then Some (0, s)
      else
        (let rl = b_recordlen (buf i s); last = (if rl \<noteq> 0 then rl else if n > 254 then 254 else ucast n);
             s = upd_buf i (\<lambda>b. b\<lparr>b_lastused := last, b_position := last + 2\<rparr>) s in
         do {
           (r, s) \<leftarrow> write_data ff i s;
           (if r \<noteq> 0 then Some (1, s) else fat_fill ff i (n - ucast last) s) }))"

definition fat_file_write :: "'v fatfs \<Rightarrow> nat \<Rightarrow> ('v, 'a) fatdrive_scheme \<Rightarrow> (u8 \<times> ('v, 'a) fatdrive_scheme) option" where
  "fat_file_write ff i s =
     (let hs = ucast (headersize i s); fptr = of_nat (fl_size (fh i s)) - hs; at = b_fptr (buf i s);
          (res, s) = (if at \<noteq> fptr then buf_lseek i (hs + at) s else (FR_OK, s)) in
      if res \<noteq> FR_OK then do { s \<leftarrow> parse_error res True s; write_fail ff i s }
      else do {
        (r, s) \<leftarrow> write_data ff i s;
        (if r \<noteq> 0 then Some (1, s)
         else if at > fptr then
           (let (res, s) = buf_lseek i (hs + fptr) s;
                s = upd_buf i (\<lambda>b. b\<lparr>b_mustflush := False, b_fptr := fptr,
                      b_data := take 2 (b_data b) @ (if b_recordlen b \<noteq> 0 then 255 else 0) # replicate 253 0\<rparr>) s in
            do {
              (r, s) \<leftarrow> (if res = FR_OK then fat_fill ff i (at - fptr) s else Some (0, s));
              (if r \<noteq> 0 then Some (1, s)
               else
                 (let (res, s) = buf_lseek i (of_nat (fl_size (fh i s))) s in
                  if res \<noteq> FR_OK then do { s \<leftarrow> parse_error res True s; write_fail ff i s }
                  else Some (0, upd_buf i (\<lambda>b. b\<lparr>b_fptr := of_nat (fl_ptr (fp_fh (b_fat b))) - hs\<rparr>) s))) })
         else Some (0, s)) })"

definition fat_file_seek ::
  "'v fatfs \<Rightarrow> nat \<Rightarrow> u32 \<Rightarrow> u8 \<Rightarrow> ('v, 'a) fatdrive_scheme \<Rightarrow> (u8 \<times> ('v, 'a) fatdrive_scheme) option" where
  "fat_file_seek ff i position index s =
     (let pos = position + ucast (headersize i s) in
      do {
        (r, s) \<leftarrow> (if b_dirty (buf i s) then fat_file_write ff i s else Some (0, s));
        (if r \<noteq> 0 then Some (1, s)
         else do {
           (r, s) \<leftarrow>
             (if fl_size (fh i s) \<ge> unat pos then
                (let (res, s) = buf_lseek i pos s in
                 if res \<noteq> FR_OK then do { s \<leftarrow> parse_error res False s; write_fail ff i s }
                 else fat_file_read i s)
              else
                do { s \<leftarrow> set_error ERROR_RECORD_MISSING
                       (upd_buf i (\<lambda>b. b\<lparr>b_data := (b_data b)[2 := if b_recordlen b \<noteq> 0 then 255 else 13],
                          b_lastused := 2, b_fptr := position\<rparr>) s);
                     Some (0, s) });
           (if r \<noteq> 0 then Some (1, s)
            else Some (0, upd_buf i (\<lambda>b. b\<lparr>b_position := (if unat index + 2 > unat (b_lastused b) then b_lastused b else index + 2)\<rparr>) s)) }) })"

definition fat_file_sync :: "'v fatfs \<Rightarrow> nat \<Rightarrow> ('v, 'a) fatdrive_scheme \<Rightarrow> (u8 \<times> ('v, 'a) fatdrive_scheme) option" where
  "fat_file_sync ff i s = fat_file_seek ff i (b_fptr (buf i s) + ucast (b_recordlen (buf i s))) 0 s"

text \<open>The refill callbacks of FAT files and, with them, all refill callbacks.\<close>

definition fat_refill :: "'v fatfs \<Rightarrow> refill_cb \<Rightarrow> nat \<Rightarrow> ('v, 'a) fatdrive_scheme \<Rightarrow> (u8 \<times> ('v, 'a) fatdrive_scheme) option" where
  "fat_refill ff cb i s =
     (case cb of
        Refill_fat_file_read \<Rightarrow> fat_file_read i s
      | Refill_fat_file_write \<Rightarrow> fat_file_write ff i s
      | Refill_fat_file_sync \<Rightarrow> fat_file_sync ff i s
      | _ \<Rightarrow> None)"

definition fat_file_close :: "'v fatfs \<Rightarrow> nat \<Rightarrow> ('v, 'a) fatdrive_scheme \<Rightarrow> (u8 \<times> ('v, 'a) fatdrive_scheme) option" where
  "fat_file_close ff i s =
     (if \<not> b_allocated (buf i s) then Some (0, s)
      else do {
        (r, s) \<leftarrow> (if b_write (buf i s) then fat_refill ff (b_refill (buf i s)) i s else Some (0, s));
        (if r \<noteq> 0 then Some (1, s)
         else
           (let (res, s) = buf_close ff i s in
            do {
              s \<leftarrow> parse_error res True s;
              Some (if res \<noteq> FR_OK then 1 else 0, upd_buf i (\<lambda>b. b\<lparr>b_cleanup := Cleanup_dummy\<rparr>) s) })) })"

definition fat_cleanup :: "'v fatfs \<Rightarrow> cleanup_cb \<Rightarrow> nat \<Rightarrow> ('v, 'a) fatdrive_scheme \<Rightarrow> (u8 \<times> ('v, 'a) fatdrive_scheme) option" where
  "fat_cleanup ff cb i s = (case cb of Cleanup_fat_file_close \<Rightarrow> fat_file_close ff i s | _ \<Rightarrow> run_cleanup cb i s)"

section \<open>Opening files\<close>

definition chdir_to :: "path_t \<Rightarrow> ('v, 'a) fatdrive_scheme \<Rightarrow> ('v, 'a) fatdrive_scheme" where
  "chdir_to path s = s\<lparr>curr_dir := (curr_dir s)(path_part path := dir_fat (path_dir path))\<rparr>"

definition fat_open_read :: "'v fatfs \<Rightarrow> path_t \<Rightarrow> cbmdirent_t \<Rightarrow> nat \<Rightarrow> ('v, 'a) fatdrive_scheme \<Rightarrow> (cbmdirent_t \<times> ('v, 'a) fatdrive_scheme) option" where
  "fat_open_read ff path dent i s =
     (let dent = dent\<lparr>ce_name := pet2asc (ce_name dent)\<rparr>;
          name = (if cchar (ce_realname dent) 0 \<noteq> 0 then cstr (ce_realname dent) else cstr (ce_name dent));
          (res, s) = buf_open ff i (path_part path) name (FA_READ OR FA_OPEN_EXISTING) (chdir_to path s) in
      if res \<noteq> FR_OK then do { s \<leftarrow> parse_error res True s; Some (dent, s) }
      else
        (let s = (if ce_opstype dent = OPSTYPE_FAT_X00
                  then set_headersize i (of_nat P00_HEADER_SIZE) (snd (buf_lseek i (of_nat P00_HEADER_SIZE) s)) else s);
             s = upd_buf i (\<lambda>b. b\<lparr>b_read := True, b_cleanup := Cleanup_fat_file_close, b_refill := Refill_fat_file_read,
                   b_seek := Seek_fat_file\<rparr>) s
         in do { (_, s) \<leftarrow> fat_file_read i (stick_buffer i s); Some (dent, s) }))"

text \<open>
  The search for a free name: while the name exists and has a PC64 extension, the number in the extension at
  position \<open>x\<close> is raised, and after 99 the search ends.  Without such an extension nothing changes from one round
  to the next.
\<close>

definition bump_ext :: "nat \<Rightarrow> u8 list \<Rightarrow> u8 list \<times> bool" where
  "bump_ext x name =
     (let name = name[x := name ! x + 1] in
      if name ! x \<noteq> asc CHR ''9'' + 1 then (name, False)
      else (let name = name[x := asc CHR ''0'']; name = name[x - 1 := name ! (x - 1) + 1]
            in (name, name ! (x - 1) = asc CHR ''9'' + 1)))"

partial_function (option) create_loop ::
  "'v fatfs \<Rightarrow> nat \<Rightarrow> u8 \<Rightarrow> u8 \<Rightarrow> nat option \<Rightarrow> u8 list \<Rightarrow> ('v, 'a) fatdrive_scheme \<Rightarrow> (FRESULT \<times> u8 list \<times> ('v, 'a) fatdrive_scheme) option" where
  "create_loop ff i p mode ext name s =
     (let (res, s) = buf_open ff i p name mode s in
      if res \<noteq> FR_EXIST then Some (res, name, s)
      else (case ext of
              None \<Rightarrow> create_loop ff i p mode ext name s
            | Some x \<Rightarrow> (let (name, stop) = bump_ext x name in
                if stop then Some (res, name, s) else create_loop ff i p mode ext name s)))"

definition p00_header :: "u8 list \<Rightarrow> u8 \<Rightarrow> u8 list" where
  "p00_header name recordlen = p00marker @ [0] @ take 16 name @ [0, recordlen]"

definition create_file ::
  "'v fatfs \<Rightarrow> path_t \<Rightarrow> cbmdirent_t \<Rightarrow> u8 \<Rightarrow> nat \<Rightarrow> u8 \<Rightarrow> ('v, 'a) fatdrive_scheme \<Rightarrow> (FRESULT \<times> ('v, 'a) fatdrive_scheme) option" where
  "create_file ff path dent ty i recordlen s = do {
     (name, ext) \<leftarrow> build_name (file_extension_mode s) (cstr (ce_name dent)) ty;
     (res, name, s) \<leftarrow> create_loop ff i (path_part path)
         (FA_WRITE OR FA_CREATE_NEW OR (if recordlen \<noteq> 0 then FA_READ else 0)) ext name (chdir_to path s);
     let s = s\<lparr>ops_scratch := put_at 0 (name @ [0]) (ops_scratch s)\<rparr>;
     (if res \<noteq> FR_OK then Some (res, s)
      else if ext = None \<and> recordlen = 0 then Some (FR_OK, s)
      else
        (let header = (if ext \<noteq> None then p00_header (ce_name dent) recordlen else [recordlen]);
             s = set_headersize i (of_nat (length header)) (s\<lparr>ops_scratch := put_at 0 header (ops_scratch s)\<rparr>);
             (res, n, f, s) = fil_write header (fh i s) s
         in Some (if res \<noteq> FR_OK \<or> n \<noteq> length header then res else FR_OK, set_fh i f s))) }"

definition fat_open_write ::
  "'v fatfs \<Rightarrow> path_t \<Rightarrow> cbmdirent_t \<Rightarrow> u8 \<Rightarrow> nat \<Rightarrow> bool \<Rightarrow> ('v, 'a) fatdrive_scheme \<Rightarrow> (cbmdirent_t \<times> ('v, 'a) fatdrive_scheme) option" where
  "fat_open_write ff path dent ty i app s = do {
     (res, s) \<leftarrow>
       (if app then
          (let (res, s) = buf_open ff i (path_part path) (cstr (ce_realname dent)) (FA_WRITE OR FA_OPEN_EXISTING) (chdir_to path s);
               s = (if ce_opstype dent = OPSTYPE_FAT_X00 then set_headersize i (of_nat P00_HEADER_SIZE) s else s);
               (res, s) = (if res = FR_OK then buf_lseek i (of_nat (fl_size (fh i s))) s else (res, s))
           in Some (res, upd_buf i (\<lambda>b. b\<lparr>b_fptr := of_nat (fl_size (fp_fh (b_fat b))) - ucast (fp_headersize (b_fat b))\<rparr>) s))
        else create_file ff path dent ty i 0 s);
     (if res \<noteq> FR_OK then do { s \<leftarrow> parse_error res False s; Some (dent, s) }
      else Some (dent, upd_buf i (\<lambda>b. b\<lparr>b_position := 2, b_lastused := 2, b_cleanup := Cleanup_fat_file_close,
             b_refill := Refill_fat_file_write, b_seek := Seek_fat_file, b_data := (b_data b)[2 := 13]\<rparr>) (mark_write_buffer i s))) }"

text \<open>\<open>bytesread\<close> is not initialised when the file cannot be opened; the result decides then.\<close>

definition fat_open_rel ::
  "'v fatfs \<Rightarrow> path_t \<Rightarrow> cbmdirent_t \<Rightarrow> nat \<Rightarrow> u8 \<Rightarrow> u8 \<Rightarrow> ('v, 'a) fatdrive_scheme \<Rightarrow> ('v, 'a) fatdrive_scheme option" where
  "fat_open_rel ff path dent i len mode s = do {
     (res, n, len, s) \<leftarrow>
       (if mode = 0 then do {
          (res, s) \<leftarrow> create_file ff path dent TYPE_REL i len s;
          Some (res, 1, len, s\<lparr>ops_scratch := (ops_scratch s)[0 := len]\<rparr>) }
        else
          (let (res, s) = buf_open ff i (path_part path) (cstr (ce_realname dent)) (FA_WRITE OR FA_READ OR FA_OPEN_EXISTING) (chdir_to path s) in
           if res \<noteq> FR_OK then Some (res, 1, len, s)
           else
             (let (res, s) = (if ce_opstype dent = OPSTYPE_FAT_X00 then buf_lseek i (of_nat P00_RECORDLEN_OFFSET) s else (FR_OK, s));
                  (res, bs, s) = (if res = FR_OK
                                  then (let (res, bs, f, s) = fil_read 1 (fh i s) s in (res, bs, set_fh i f s)) else (res, [0], s));
                  s = (if res = FR_OK then s\<lparr>ops_scratch := put_at 0 bs (ops_scratch s)\<rparr> else s)
              in Some (res, length bs, if len = 0 then ops_scratch s ! 0 else len, s))));
     (if res \<noteq> FR_OK \<or> n \<noteq> 1 then parse_error res False s
      else
        (let s = set_headersize i (of_nat (fl_ptr (fh i s))) s;
             s = mark_write_buffer i (upd_buf i (\<lambda>b. b\<lparr>b_recordlen := len\<rparr>) s);
             s = upd_buf i (\<lambda>b. b\<lparr>b_read := True, b_cleanup := Cleanup_fat_file_close, b_refill := Refill_fat_file_sync,
                   b_seek := Seek_fat_file\<rparr>) s in
         do {
           (r, s) \<leftarrow> fat_file_read i s;
           (if r = 0 \<and> len \<noteq> ops_scratch s ! 0 then set_error ERROR_RECORD_MISSING s else Some s) })) }"

section \<open>Directories\<close>

definition fat_opendir :: "'v fatfs \<Rightarrow> path_t \<Rightarrow> ('v, 'a) fatdrive_scheme \<Rightarrow> (u8 \<times> dh_t \<times> ('v, 'a) fatdrive_scheme) option" where
  "fat_opendir ff path s =
     (let (res, d) = ff_opendir ff (path_part path) (dir_fat (path_dir path)) (volume s);
          dh = dh_zero\<lparr>dh_part := path_part path, dh_fat := d\<rparr> in
      if res \<noteq> FR_OK then do { s \<leftarrow> parse_error res True s; Some (1, dh, s) } else Some (0, dh, s))"

text \<open>
  \<open>f_readdir\<close> stores the long name in the scratch area, empty when the file has none.  The loop skips the
  volume label and the two dot entries.
\<close>

definition store_lfn :: "u8 list \<Rightarrow> 'a eefs_state_scheme \<Rightarrow> 'a eefs_state_scheme" where
  "store_lfn lfn s = s\<lparr>ops_scratch := put_at 0 (lfn @ [0]) (ops_scratch s)\<rparr>"

definition skipped :: "filinfo \<Rightarrow> bool" where
  "skipped fi \<longleftrightarrow> fi_fname fi \<noteq> [] \<and> fi_fattrib fi AND AM_VOL \<noteq> 0 \<or> fi_fname fi = str ''.'' \<or> fi_fname fi = str ''..''"

partial_function (option) readdir_skip ::
  "'v fatfs \<Rightarrow> u8 \<Rightarrow> fatdir \<Rightarrow> ('v, 'a) fatdrive_scheme \<Rightarrow> (FRESULT \<times> filinfo \<times> fatdir \<times> ('v, 'a) fatdrive_scheme) option" where
  "readdir_skip ff p d s =
     (let (res, fi, d) = ff_readdir ff p d (volume s); s = store_lfn (fi_lfn fi) s in
      if res \<noteq> FR_OK \<or> \<not> skipped fi then Some (res, fi, d, s) else readdir_skip ff p d s)"

definition pad17 :: "u8 list \<Rightarrow> u8 list" where
  "pad17 xs = xs @ replicate (17 - length xs) 0"

text \<open>
  The name inside a PC64 file, from the cache or the file's header; \<open>Inl\<close> when it has no valid header, \<open>None\<close>
  when the name in the header is too long for the directory entry.
\<close>

definition p00_name ::
  "'v fatfs \<Rightarrow> u8 \<Rightarrow> u32 \<Rightarrow> ('v, 'a) fatdrive_scheme \<Rightarrow> ((unit + u8 list) \<times> ('v, 'a) fatdrive_scheme) option" where
  "p00_name ff p clust s =
     (case p00cache_lookup p clust (p00 s) of
        Some name \<Rightarrow> Some (Inr (take 16 name), s)
      | None \<Rightarrow>
          (let (res, f, obj) = ff_opencluster ff p clust (volume s);
               s = (upd_image p (\<lambda>_. f) s)\<lparr>img_obj := (img_obj s)(p := obj)\<rparr> in
           if res \<noteq> FR_OK then Some (Inl (), s)
           else
             (let (res, bs, f, s) = fil_read P00_HEADER_SIZE (image p s) s;
                  s = (upd_image p (\<lambda>_. f) s)\<lparr>ops_scratch := put_at 0 bs (ops_scratch s)\<rparr> in
              if res \<noteq> FR_OK \<or> take 7 (ops_scratch s) \<noteq> p00marker then Some (Inl (), s)
              else
                (let name = cstr (drop P00_CBMNAME_OFFSET (ops_scratch s)) in
                 if 16 < length name then None
                 else
                   (let name = map (\<lambda>c. if c = 0xa0 then 0 else c) (take 16 (pad17 name))
                    in Some (Inr name, s\<lparr>p00 := p00cache_add p clust name (p00 s)\<rparr>))))))"

definition fat_type :: "u8 \<Rightarrow> u8" where
  "fat_type c =
     (if c = asc CHR ''P'' then TYPE_PRG else if c = asc CHR ''S'' then TYPE_SEQ
      else if c = asc CHR ''U'' then TYPE_USR else if c = asc CHR ''R'' then TYPE_REL else 0)"

definition fat_date :: "filinfo \<Rightarrow> date_t" where
  "fat_date fi =
     \<lparr>d_year = ucast (drop_bit 9 (fi_fdate fi)) + 80, d_month = ucast (drop_bit 5 (fi_fdate fi) AND 0x0f),
      d_day = ucast (fi_fdate fi AND 0x1f), d_hour = ucast (drop_bit 11 (fi_ftime fi)),
      d_minute = ucast (drop_bit 5 (fi_ftime fi) AND 0x3f), d_second = ucast (push_bit 1 (fi_ftime fi AND 0x1f))\<rparr>"

definition fat_blocks :: "u32 \<Rightarrow> u16" where
  "fat_blocks fsize = (if fsize > 16255746 then 63999 else ucast ((fsize + 253) div 254))"

text \<open>
  The name and type of an entry.  \<open>lfn\<close> tells that the name is taken from the scratch area, where reading the
  header of a PC64 file overwrites it.
\<close>

definition fat_name :: "bool \<Rightarrow> filinfo \<Rightarrow> 'a eefs_state_scheme \<Rightarrow> u8 list" where
  "fat_name lfn fi s = (if lfn then cstr (ops_scratch s) else fi_fname fi)"

definition shown_name :: "u8 list \<Rightarrow> u8 list \<Rightarrow> u8 list" where
  "shown_name name fname = pad17 (map (\<lambda>c. if c = asc CHR ''~'' then 0xff else c) (if length name > CBM_NAME_LENGTH then fname else name))"

definition fat_entry ::
  "'v fatfs \<Rightarrow> u8 \<Rightarrow> filinfo \<Rightarrow> ('v, 'a) fatdrive_scheme \<Rightarrow> (u8 \<times> opstype_t \<times> u8 list \<times> u32 \<times> ('v, 'a) fatdrive_scheme) option" where
  "fat_entry ff p fi s =
     (let lfn = (fi_lfn fi \<noteq> [] \<and> length (fi_lfn fi) \<le> CBM_NAME_LENGTH + 4);
          s = (if lfn then s\<lparr>ops_scratch := asc2pet (ops_scratch s)\<rparr> else s);
          plain = (\<lambda>ty name s. Some (ty, OPSTYPE_FAT, shown_name name (fi_fname fi), fi_fsize fi, s)) in
      if fi_fattrib fi AND AM_DIR \<noteq> 0
      then plain (TYPE_DIR OR (if cchar (fat_name lfn fi s) 0 = asc CHR ''.'' then FLAG_HIDDEN else 0)) (fat_name lfn fi s) s
      else
        (let (ext, rest) = check_extension (fi_fname fi); c = (case rest of Some r \<Rightarrow> cchar r 0 | None \<Rightarrow> 0) in
         if ext = EXT_IS_X00 then do {
           (res, s) \<leftarrow> p00_name ff p (fi_clust fi) s;
           (case res of
              Inr name \<Rightarrow> Some (fat_type c, OPSTYPE_FAT_X00, pad17 name, fi_fsize fi - of_nat P00_HEADER_SIZE, s)
            | Inl _ \<Rightarrow> plain (fat_type c) (fat_name lfn fi s) s) }
         else if ext = EXT_IS_TYPE \<and> extension_hiding s then
           (let name = fat_name lfn fi s in
            if length name < 4 then None else plain (fat_type c) (take (length name - 4) name) s)
         else plain TYPE_PRG (fat_name lfn fi s) s))"

definition fat_readdir ::
  "'v fatfs \<Rightarrow> dh_t \<Rightarrow> ('v, 'a) fatdrive_scheme \<Rightarrow> (int \<times> cbmdirent_t option \<times> dh_t \<times> ('v, 'a) fatdrive_scheme) option" where
  "fat_readdir ff dh s = do {
     (res, fi, d, s) \<leftarrow> readdir_skip ff (dh_part dh) (dh_fat dh) s;
     let dh = dh\<lparr>dh_fat := d\<rparr>;
     (if res \<noteq> FR_OK then do {
        s \<leftarrow> (if res = FR_INVALID_OBJECT then set_error ERROR_DIR_ERROR s else parse_error res True s);
        Some (1, None, dh, s) }
      else if fi_fname fi = [] then Some (-1, None, dh, s)
      else do {
        (ty, ops, name, fsize, s) \<leftarrow> fat_entry ff (dh_part dh) fi s;
        Some (0, Some (dirent_zero\<lparr>ce_name := name, ce_opstype := ops,
            ce_realname := fi_fname fi @ replicate (13 - length (fi_fname fi)) 0,
            ce_typeflags := ty OR (if fi_fattrib fi AND AM_RDO \<noteq> 0 then FLAG_RO else 0)
              OR (if fi_fattrib fi AND (AM_HID OR AM_SYS) \<noteq> 0 then FLAG_HIDDEN else 0),
            ce_blocksize := fat_blocks fsize, ce_remainder := ucast (fsize mod 254), ce_cluster := fi_clust fi,
            ce_date := fat_date fi\<rparr>), dh, s) }) }"

section \<open>Other operations\<close>

definition fat_delete :: "'v fatfs \<Rightarrow> path_t \<Rightarrow> cbmdirent_t \<Rightarrow> ('v, 'a) fatdrive_scheme \<Rightarrow> (u8 \<times> cbmdirent_t \<times> ('v, 'a) fatdrive_scheme) option" where
  "fat_delete ff path dent s =
     (let s = set_dirty_led True s;
          (name, dent, s) =
            (if cchar (ce_realname dent) 0 \<noteq> 0 then (cstr (ce_realname dent), dent, s\<lparr>p00 := p00cache_invalidate (p00 s)\<rparr>)
             else (let dent = dent\<lparr>ce_name := pet2asc (ce_name dent)\<rparr> in (cstr (ce_name dent), dent, s)));
          s = chdir_to path s;
          (res, v) = ff_unlink ff (path_part path) (curr_dir s (path_part path)) name (volume s) in
      do {
        s \<leftarrow> parse_error res False (update_leds (s\<lparr>volume := v\<rparr>));
        Some (if res = FR_OK then 1 else if res = FR_NO_FILE then 0 else 255, dent, s) })"

definition fat_chdir :: "'v fatfs \<Rightarrow> path_t \<Rightarrow> cbmdirent_t \<Rightarrow> ('v, 'a) fatdrive_scheme \<Rightarrow> (u8 \<times> path_t \<times> ('v, 'a) fatdrive_scheme) option" where
  "fat_chdir ff path dent s =
     (let s = chdir_to path s; p = path_part path;
          to = (\<lambda>c. path\<lparr>path_dir := (path_dir path)\<lparr>dir_fat := c\<rparr>\<rparr>) in
      if is_left_arrow dent then
        (let s = store_lfn (str ''..'') s; (res, fi) = ff_stat ff p (curr_dir s p) (str ''..'') (volume s) in
         if res \<noteq> FR_OK then do { s \<leftarrow> parse_error res True s; Some (1, path, s) }
         else Some (0, to (fi_clust fi), s))
      else if cchar (ce_name dent) 0 = 0 then Some (0, to 0, s)
      else if ce_typeflags dent AND TYPE_MASK = TYPE_DIR then Some (0, to (ce_cluster dent), s)
      else if check_imageext (cstr (ce_realname dent)) = IMG_UNKNOWN then Some (0, path, s)
      else do {
        (_, s) \<leftarrow> free_multiple_buffers (fat_cleanup ff) FMB_USER_CLEAN s;
        let (res, s) = img_open ff p (cstr (ce_realname dent)) (FA_OPEN_EXISTING OR FA_READ OR FA_WRITE) s;
        let (res, s) = (if res = FR_DENIED \<or> res = FR_WRITE_PROTECTED
                        then img_open ff p (cstr (ce_realname dent)) (FA_OPEN_EXISTING OR FA_READ) s else (res, s));
        (if res \<noteq> FR_OK then do { s \<leftarrow> parse_error res True s; Some (1, path, s) }
         else do {
           (r, path, s) \<leftarrow> d64_mount path (cstr (ce_realname dent)) s;
           Some (if r \<noteq> 0 then (1, path, s) else (0, path, upd_part p (\<lambda>pt. pt\<lparr>pt_fop := D64OPS\<rparr>) s)) }) })"

definition fat_mkdir :: "'v fatfs \<Rightarrow> path_t \<Rightarrow> u8 list \<Rightarrow> ('v, 'a) fatdrive_scheme \<Rightarrow> ('v, 'a) fatdrive_scheme option" where
  "fat_mkdir ff path dirname s =
     (let s = chdir_to path s; p = path_part path;
          (res, v) = ff_mkdir ff p (curr_dir s p) (cstr (pet2asc dirname)) (volume s)
      in parse_error res False (s\<lparr>volume := v\<rparr>))"

text \<open>The search for the volume label; names have at most eleven characters and a dot.\<close>

partial_function (option) volume_loop :: "'v fatfs \<Rightarrow> u8 \<Rightarrow> fatdir \<Rightarrow> 'v \<Rightarrow> u8 list option" where
  "volume_loop ff p d v =
     (let (res, fi, d) = ff_readdir ff p d v in
      if res \<noteq> FR_OK \<or> fi_fname fi = [] then Some []
      else if fi_fattrib fi AND (AM_VOL OR AM_SYS OR AM_HID) = AM_VOL then Some (filter (\<lambda>c. c \<noteq> asc CHR ''.'') (fi_fname fi))
      else volume_loop ff p d v)"

definition fat_getvolumename :: "'v fatfs \<Rightarrow> u8 \<Rightarrow> ('v, 'a) fatdrive_scheme \<Rightarrow> (u8 \<times> u8 list \<times> ('v, 'a) fatdrive_scheme) option" where
  "fat_getvolumename ff p s =
     (let (res, d) = ff_opendir ff p 0 (volume s) in
      if res \<noteq> FR_OK then do { s \<leftarrow> parse_error res False s; Some (1, pad17 [], s) }
      else do { name \<leftarrow> volume_loop ff p d (volume s); Some (0, pad17 name, s) })"

text \<open>The name of a directory: its entry in the parent directory, found by its cluster.\<close>

partial_function (option) parent_loop ::
  "'v fatfs \<Rightarrow> u8 \<Rightarrow> u32 \<Rightarrow> fatdir \<Rightarrow> ('v, 'a) fatdrive_scheme \<Rightarrow> (FRESULT \<times> u8 list \<times> ('v, 'a) fatdrive_scheme) option" where
  "parent_loop ff p clust d s =
     (let (res, fi, d) = ff_readdir ff p d (volume s); s = store_lfn (fi_lfn fi) s in
      if res \<noteq> FR_OK \<or> fi_fname fi = [] then Some (res, fi_lfn fi, s)
      else if fi_clust fi = clust
      then Some (FR_OK, if fi_lfn fi = [] then fi_fname fi else asc2pet (fi_lfn fi), s)
      else parent_loop ff p clust d s)"

partial_function (option) label_loop ::
  "'v fatfs \<Rightarrow> u8 \<Rightarrow> u32 \<Rightarrow> fatdir \<Rightarrow> ('v, 'a) fatdrive_scheme \<Rightarrow> (FRESULT \<times> u8 list \<times> ('v, 'a) fatdrive_scheme) option" where
  "label_loop ff p clust d s =
     (let (res, fi, d) = ff_readdir ff p d (volume s); s = store_lfn (fi_lfn fi) s in
      if res \<noteq> FR_OK then Some (res, fi_lfn fi, s)
      else if cchar (fi_fname fi) 0 \<noteq> asc CHR ''.'' then do {
        (r, name, s) \<leftarrow> fat_getvolumename ff p s;
        Some (if r = 0 then FR_OK else FR_NOT_READY, cstr name, s\<lparr>ops_scratch := put_at 0 name (ops_scratch s)\<rparr>) }
      else if fi_fname fi = str ''..'' then
        (let (res, d) = ff_opendir ff p (fi_clust fi) (volume s) in
         if res \<noteq> FR_OK then Some (res, fi_lfn fi, s) else parent_loop ff p clust d s)
      else label_loop ff p clust d s)"

text \<open>
  The label is padded to 16 characters; a longer name is copied in full, behind the end of the caller's 16 bytes.
\<close>

definition fat_getdirlabel :: "'v fatfs \<Rightarrow> path_t \<Rightarrow> ('v, 'a) fatdrive_scheme \<Rightarrow> (u8 \<times> u8 list \<times> ('v, 'a) fatdrive_scheme) option" where
  "fat_getdirlabel ff path s =
     (let p = path_part path; clust = dir_fat (path_dir path); blank = replicate CBM_NAME_LENGTH (asc CHR '' '');
          (res, d) = ff_opendir ff p clust (volume s) in
      if res \<noteq> FR_OK then do { s \<leftarrow> parse_error res False s; Some (1, blank, s) }
      else do {
        (res, name, s) \<leftarrow> label_loop ff p clust d s;
        (if res = FR_OK then Some (0, put_at 0 name blank, s)
         else do { s \<leftarrow> parse_error res False s; Some (1, put_at 0 name blank, s) }) })"

definition fat_getid :: "'v fatfs \<Rightarrow> path_t \<Rightarrow> ('v, 'a) fatdrive_scheme \<Rightarrow> (u8 \<times> u8 list \<times> ('v, 'a) fatdrive_scheme) option" where
  "fat_getid ff path s =
     (let t = ff_fs_type ff (path_part path) (volume s)
      in Some (0, (if t = 1 then str ''12'' else if t = 2 then str ''16'' else if t = 3 then str ''32'' else []) @ str '' 2A'', s))"

definition fat_freeblocks :: "'v fatfs \<Rightarrow> u8 \<Rightarrow> ('v, 'a) fatdrive_scheme \<Rightarrow> (u16 \<times> ('v, 'a) fatdrive_scheme) option" where
  "fat_freeblocks ff p s =
     (let (res, clusters) = ff_getfree ff p 65535 (volume s)
      in Some (if res = FR_OK then (if clusters > 65535 then 65535 else ucast clusters) else 0, s))"

definition fat_readwrite_sector ::
  "'v fatfs \<Rightarrow> nat \<Rightarrow> u8 \<Rightarrow> u8 \<Rightarrow> u8 \<Rightarrow> bool \<Rightarrow> ('v, 'a) fatdrive_scheme \<Rightarrow> ('v, 'a) fatdrive_scheme option" where
  "fat_readwrite_sector ff i p track sector rwflag s =
     (if track \<noteq> 1 \<or> sector \<noteq> 0 then set_error_ts ERROR_READ_NOHEADER track sector s
      else
        (let (res, s) = img_open ff p BOOTSECTOR_FILE (if rwflag then FA_OPEN_EXISTING OR FA_READ else FA_OPEN_ALWAYS OR FA_WRITE) s in
         if res \<noteq> FR_OK then parse_error res rwflag s
         else
           (let (res, n, s) =
                  (if rwflag then
                     (let (res, bs, f, s) = fil_read 256 (image p s) s
                      in (res, length bs, upd_buf i (\<lambda>b. b\<lparr>b_data := put_at 0 bs (b_data b)\<rparr>) (upd_image p (\<lambda>_. f) s)))
                   else
                     (let (res, n, f, s) = fil_write (take 256 (b_data (buf i s))) (image p s) s in (res, n, upd_image p (\<lambda>_. f) s))) in
            do {
              s \<leftarrow> (if res \<noteq> FR_OK \<or> n \<noteq> 256 then parse_error res rwflag s else Some s);
              let (res, s) = img_close ff p s;
              (if res \<noteq> FR_OK then parse_error res rwflag s else Some s) })))"

definition fat_read_sector where "fat_read_sector ff i p track sector s = fat_readwrite_sector ff i p track sector True s"
definition fat_write_sector where "fat_write_sector ff i p track sector s = fat_readwrite_sector ff i p track sector False s"

text \<open>\<open>None\<close> is a new name that is too long for a directory entry.\<close>

definition fat_rename ::
  "'v fatfs \<Rightarrow> path_t \<Rightarrow> cbmdirent_t \<Rightarrow> u8 list \<Rightarrow> ('v, 'a) fatdrive_scheme \<Rightarrow> (u8 list \<times> ('v, 'a) fatdrive_scheme) option" where
  "fat_rename ff path dent newname s =
     (let s = chdir_to path s; p = path_part path; fail = (\<lambda>res s. do { s \<leftarrow> parse_error res False s; Some (newname, s) }) in
      if ce_opstype dent = OPSTYPE_FAT_X00 then
        (let s = s\<lparr>p00 := p00cache_invalidate (p00 s)\<rparr>;
             (res, s) = img_open ff p (cstr (ce_realname dent)) (FA_WRITE OR FA_OPEN_EXISTING) s in
         if res \<noteq> FR_OK then fail res s
         else
           (let (res, f, s) = fil_lseek (of_nat P00_CBMNAME_OFFSET) (image p s) s; s = upd_image p (\<lambda>_. f) s in
            if res \<noteq> FR_OK then fail res s
            else if CBM_NAME_LENGTH < length (cstr newname) then None
            else
              (let (res, n, f, s) = fil_write (take CBM_NAME_LENGTH (pad17 (cstr newname))) (image p s) s; s = upd_image p (\<lambda>_. f) s in
               if res \<noteq> FR_OK \<or> n \<noteq> CBM_NAME_LENGTH then fail res s
               else
                 (let (res, s) = img_close ff p s in if res \<noteq> FR_OK then fail res s else Some (newname, s)))))
      else if fst (check_extension (cstr (ce_realname dent))) = EXT_IS_TYPE then do {
        (name, _) \<leftarrow> build_name (file_extension_mode s) (cstr newname) (ce_typeflags dent AND TYPE_MASK);
        let s = store_lfn name s;
        let (res, v) = ff_rename ff p (curr_dir s p) (cstr (ce_realname dent)) name (volume s);
        let s = s\<lparr>volume := v\<rparr>;
        (if res \<noteq> FR_OK then fail res s else Some (newname, s)) }
      else
        (let newname = pet2asc newname;
             (res, v) = ff_rename ff p (curr_dir s p) (cstr (pet2asc (ce_name dent))) (cstr newname) (volume s);
             s = s\<lparr>volume := v\<rparr> in
         if res \<noteq> FR_OK then do { s \<leftarrow> parse_error res False s; Some (newname, s) } else Some (newname, s)))"

definition fatops :: "'v fatfs \<Rightarrow> ('v, 'a) fatdrive_scheme fileops" where
  "fatops ff = \<lparr>
     fo_open_read = fat_open_read ff, fo_open_write = fat_open_write ff, fo_open_rel = fat_open_rel ff,
     fo_file_delete = fat_delete ff, fo_disk_label = fat_getvolumename ff, fo_dir_label = fat_getdirlabel ff,
     fo_disk_id = fat_getid ff, fo_disk_free = fat_freeblocks ff, fo_read_sector = fat_read_sector ff,
     fo_write_sector = fat_write_sector ff, fo_format = (\<lambda>p name id s. format_dummy p name [] s),
     fo_opendir = fat_opendir ff, fo_readdir = fat_readdir ff, fo_mkdir = fat_mkdir ff, fo_chdir = fat_chdir ff,
     fo_rename = fat_rename ff\<rparr>"

section \<open>Mounting\<close>

definition MAX_DRIVES :: nat where [simp]: "MAX_DRIVES = 8"

text \<open>
  The search for partitions: drive and partition numbers and the partitions found so far.  Drives are not
  remapped in this configuration.
\<close>

function mount_loop :: "'v fatfs \<Rightarrow> bool \<Rightarrow> nat \<Rightarrow> nat \<Rightarrow> ('v, 'a) fatdrive_scheme \<Rightarrow> ('v, 'a) fatdrive_scheme" where
  "mount_loop ff preserve drive pn s =
     (if unat (max_part s) < CONFIG_MAX_PARTITIONS \<and> drive < MAX_DRIVES then
        (let m = max_part s; s = upd_part m (\<lambda>pt. pt\<lparr>pt_fop := FATOPS\<rparr>) s;
             (res, v) = ff_mount ff (of_nat (drive * 16 + pn)) m (volume s);
             s = s\<lparr>volume := v\<rparr>;
             s = (if preserve then s else upd_part m (\<lambda>pt. pt\<lparr>pt_current_dir := (pt_current_dir pt)\<lparr>dir_fat := 0\<rparr>\<rparr>) s);
             s = (if res = FR_OK then s\<lparr>max_part := m + 1\<rparr> else s) in
         if res \<noteq> FR_NOT_READY \<and> res \<noteq> FR_INVALID_OBJECT \<and> pn < 15 \<and> \<not> (res = FR_OK \<and> pn = 0)
         then mount_loop ff preserve drive (Suc pn) s
         else mount_loop ff preserve (Suc drive) 0 s)
      else s)"
  by auto
termination
  by (relation "(\<lambda>(ff, preserve, drive, pn, s). MAX_DRIVES - drive) <*mlex*> (\<lambda>(ff, preserve, drive, pn, s). 16 - pn) <*mlex*> {}")
    (auto simp: mlex_prod_def)

text \<open>With card change detection the absence of a card is not an error.\<close>

definition fatops_init :: "'v fatfs \<Rightarrow> bool \<Rightarrow> ('v, 'a) fatdrive_scheme \<Rightarrow> ('v, 'a) fatdrive_scheme" where
  "fatops_init ff preserve s =
     (let s = mount_loop ff preserve 0 0 (s\<lparr>max_part := 0\<rparr>);
          s = (if preserve then s
               else s\<lparr>current_part := 0, previous_file_dirent := (previous_file_dirent s)\<lparr>ce_name := (ce_name (previous_file_dirent s))[0 := 0]\<rparr>\<rparr>)
      in (d64_invalidate s)\<lparr>p00 := p00cache_invalidate (p00 s)\<rparr>)"

end
