(* ===== verification/Fatops_Props.thy ===== *)
theory Fatops_Props
  imports Fatops Rtc_Props
begin

text \<open>
  Correctness of the FAT operations: the choice of a free PC64 name, the names inside PC64 files, time stamps in
  directories, and the file_bytes of files written and read through a buffer.
\<close>

section \<open>Names of new files\<close>

definition x00_name :: "u8 list \<Rightarrow> nat \<Rightarrow> u8 list" where
  "x00_name base k = base @ [asc CHR ''0'' + of_nat (k div 10), asc CHR ''0'' + of_nat (k mod 10)]"

text \<open>Creating the name is refused because it exists, and the volume stays as it is.\<close>

definition taken :: "'v fatfs \<Rightarrow> u8 \<Rightarrow> u8 \<Rightarrow> ('v, 'a) fatdrive_scheme \<Rightarrow> u8 list \<Rightarrow> bool" where
  "taken ff p mode s name \<longleftrightarrow>
     (case ff_open ff p (curr_dir s p) name mode (volume s) of (res, _, _, v) \<Rightarrow> res = FR_EXIST \<and> v = volume s)"

lemma buf_open_taken:
  assumes "taken ff p mode s name"
  obtains s' where "buf_open ff i p name mode s = (FR_EXIST, s')" "\<And>n. taken ff p mode s' n = taken ff p mode s n"
    "\<And>n. buf_open ff i p n mode s' = buf_open ff i p n mode s"
proof -
  obtain f obj where o: "ff_open ff p (curr_dir s p) name mode (volume s) = (FR_EXIST, f, obj, volume s)"
    using assms unfolding taken_def by (auto split: prod.splits)
  define s' where "s' = upd_buf i (\<lambda>b. b\<lparr>b_fat := (b_fat b)\<lparr>fp_fh := f, fp_obj := obj\<rparr>\<rparr>) s"
  have 1: "buf_open ff i p name mode s = (FR_EXIST, s')" using o by (simp add: buf_open_def s'_def upd_buf_def)
  have c: "curr_dir s' = curr_dir s" "volume s' = volume s" by (simp_all add: s'_def upd_buf_def)
  then have 2: "taken ff p mode s' n = taken ff p mode s n" for n by (simp add: taken_def)
  have 3: "buf_open ff i p n mode s' = buf_open ff i p n mode s" for n
    unfolding buf_open_def c by (cases "i < length (buffers s)") (simp_all add: s'_def upd_buf_def Let_def not_less list_update_beyond split: prod.split)
  show thesis using that [OF 1 2 3] .
qed

lemma bump_ext_x00:
  assumes "k < 100"
  shows "bump_ext (length base + 1) (x00_name base k) =
    (if k = 99 then base @ [asc CHR ''9'' + 1, asc CHR ''0''] else x00_name base (Suc k), k = 99)"
proof -
  define a b where "a = k div 10" and "b = k mod 10"
  have k: "k = 10 * a + b" "a < 10" "b < 10" using assms by (simp_all add: a_def b_def)
  have nth: "(base @ [u, v]) ! (length base + 1) = v" "(base @ [u, v]) ! length base = u" for u v :: u8
    by (simp_all add: nth_append)
  have upd: "(base @ [u, v])[length base + 1 := c] = base @ [u, c]" "(base @ [u, v])[length base := c] = base @ [c, v]" for u v c :: u8
    by (simp_all add: list_update_append)
  have dig: "(asc CHR ''0'' + of_nat n + 1 = (asc CHR ''9'' + 1 :: u8)) \<longleftrightarrow> n = 9" if "n < 10" for n
  proof -
    have "(asc CHR ''0'' + of_nat n + 1 = (asc CHR ''9'' + 1 :: u8)) \<longleftrightarrow> (of_nat n :: u8) = of_nat 9"
      by (simp add: asc_def)
    also have "\<dots> \<longleftrightarrow> n = 9" using that by (simp only: u8_eq_iff unat_of_nat_u8)
    finally show ?thesis .
  qed
  show ?thesis
  proof (cases "b = 9")
    case False
    then have "Suc k div 10 = a" "Suc k mod 10 = Suc b" "k \<noteq> 99" using k by simp_all
    then show ?thesis using False k dig [of b]
      by (simp add: bump_ext_def x00_name_def a_def [symmetric] b_def [symmetric] nth [simplified] upd [simplified] algebra_simps Let_def)
  next
    case True
    then have "Suc k div 10 = Suc a" "Suc k mod 10 = 0" "k = 99 \<longleftrightarrow> a = 9" using k by simp_all
    then show ?thesis using True k dig [of b] dig [of a]
      by (cases "a = 9") (simp_all add: bump_ext_def x00_name_def a_def [symmetric] b_def [symmetric] nth [simplified] upd [simplified] algebra_simps Let_def)
  qed
qed

lemma create_loop_free:
  assumes "k \<le> m" "m < 100" "\<And>j. k \<le> j \<Longrightarrow> j < m \<Longrightarrow> taken ff p mode s (x00_name base j)"
    "fst (buf_open ff i p (x00_name base m) mode s) \<noteq> FR_EXIST"
  shows "create_loop ff i p mode (Some (length base + 1)) (x00_name base k) s =
    (let (res, s') = buf_open ff i p (x00_name base m) mode s in Some (res, x00_name base m, s'))"
  using assms(1,3,4)
proof (induction "m - k" arbitrary: k s)
  case 0
  then have "k = m" by simp
  obtain res s' where "buf_open ff i p (x00_name base m) mode s = (res, s')" by fastforce
  with 0 \<open>k = m\<close> show ?case by (subst create_loop.simps) simp
next
  case (Suc n)
  then have t: "taken ff p mode s (x00_name base k)" "k < m" by simp_all
  obtain s' where s': "buf_open ff i p (x00_name base k) mode s = (FR_EXIST, s')"
    "\<And>n. taken ff p mode s' n = taken ff p mode s n" "\<And>n. buf_open ff i p n mode s' = buf_open ff i p n mode s"
    using buf_open_taken [OF t(1)] by metis
  have "create_loop ff i p mode (Some (length base + 1)) (x00_name base (Suc k)) s' =
      (let (res, s') = buf_open ff i p (x00_name base m) mode s in Some (res, x00_name base m, s'))"
    using Suc.hyps(1) [of "Suc k" s'] Suc.hyps(2) Suc.prems t(2) unfolding s'(2,3) by simp
  then show ?case
    using t(2) assms(2) by (subst create_loop.simps) (simp add: s'(1) bump_ext_x00 [simplified])
qed

lemma create_loop_all_taken:
  assumes "k < 100" "\<And>j. k \<le> j \<Longrightarrow> j < 100 \<Longrightarrow> taken ff p mode s (x00_name base j)"
  shows "\<exists>name s'. create_loop ff i p mode (Some (length base + 1)) (x00_name base k) s = Some (FR_EXIST, name, s')"
  using assms
proof (induction "99 - k" arbitrary: k s)
  case 0
  then have k: "k = 99" and t: "taken ff p mode s (x00_name base 99)" by simp_all
  obtain s' where s': "buf_open ff i p (x00_name base 99) mode s = (FR_EXIST, s')"
    using buf_open_taken [OF t] by metis
  then show ?case unfolding k by (subst create_loop.simps) (simp add: bump_ext_x00 [simplified])
next
  case (Suc n)
  then have t: "taken ff p mode s (x00_name base k)" "k < 99" by simp_all
  obtain s' where s': "buf_open ff i p (x00_name base k) mode s = (FR_EXIST, s')"
    "\<And>n. taken ff p mode s' n = taken ff p mode s n"
    using buf_open_taken [OF t(1)] by metis
  have "\<exists>name t. create_loop ff i p mode (Some (length base + 1)) (x00_name base (Suc k)) s' = Some (FR_EXIST, name, t)"
    using Suc.hyps(2) Suc.prems t(2) unfolding s'(2) [symmetric] by (intro Suc.hyps(1)) simp_all
  then show ?case
    using t(2) by (subst create_loop.simps) (simp add: s'(1) bump_ext_x00 [simplified])
qed

lemma build_name_x00:
  assumes "build_name mode nm ty = Some (name, ext)" "ext \<noteq> None"
  obtains base where "name = x00_name base 0" "ext = Some (length base + 1)"
proof -
  define base where "base = map (\<lambda>c. if is_valid_fat_char c then c else asc CHR ''_'') (pet2asc nm) @ [asc CHR ''.'', filetypes ! (3 * unat ty)]"
  have "name = base @ [asc CHR ''0'', asc CHR ''0'']" "ext = Some (length base + 1)"
    using assms by (auto simp: build_name_def Let_def base_def split: if_splits)
  then show thesis by (intro that [of base]) (simp_all add: x00_name_def)
qed

text \<open>A name without such a number is tried over and over.\<close>

lemma create_loop_same:
  assumes "taken ff p mode s name"
  shows "create_loop ff i p mode None name s = None"
proof (rule ccontr)
  assume "create_loop ff i p mode None name s \<noteq> None"
  then obtain r where R: "create_loop ff i p mode None name s = Some r" by auto
  have "(None :: nat option) = None \<longrightarrow> \<not> taken ff p mode s name"
  proof (rule create_loop.raw_induct [of "\<lambda>ff i p mode ext name s r. ext = None \<longrightarrow> \<not> taken ff p mode s name", OF _ R], intro impI notI)
    fix loop ff i p mode name s r and ext :: "nat option"
    assume IH: "\<And>ff i p mode ext name s r. loop ff i p mode ext name s = Some r \<Longrightarrow> ext = None \<longrightarrow> \<not> taken ff p mode s name"
      and body: "(let (res, s) = buf_open ff i p name mode s in
         if res \<noteq> FR_EXIST then Some (res, name, s)
         else case ext of None \<Rightarrow> loop ff i p mode ext name s
              | Some x \<Rightarrow> let (name, stop) = bump_ext x name in if stop then Some (res, name, s) else loop ff i p mode ext name s) = Some r"
      and n: "ext = None" and t: "taken ff p mode s name"
    obtain s' where s': "buf_open ff i p name mode s = (FR_EXIST, s')" "\<And>n. taken ff p mode s' n = taken ff p mode s n"
      using buf_open_taken [OF t] by metis
    then have "loop ff i p mode None name s' = Some r" using body n by simp
    with IH s'(2) t show False by blast
  qed
  then show False using assms by simp
qed

section \<open>Contents of open files\<close>

definition file_bytes :: "fil \<Rightarrow> u8 list" where
  "file_bytes f = mem_read (fl_data f) 0 (fl_size f)"

lemma length_file_bytes [simp]: "length (file_bytes f) = fl_size f"
  by (simp add: file_bytes_def mem_read_def)

lemma file_bytes_nth: "k < fl_size f \<Longrightarrow> file_bytes f ! k = fl_data f k"
  by (simp add: file_bytes_def mem_read_def)

lemma mem_read_bytes: "a + n \<le> fl_size f \<Longrightarrow> mem_read (fl_data f) a n = take n (drop a (file_bytes f))"
  by (rule nth_equalityI) (auto simp: mem_read_def file_bytes_nth)

lemma file_bytes_append: "fl_ptr f = fl_size f \<Longrightarrow> file_bytes (write_bytes xs f) = file_bytes f @ xs"
  by (rule nth_equalityI) (auto simp: file_bytes_nth nth_append write_bytes_def mem_write_def)

text \<open>The parts of the state that writing a buffer leaves alone.\<close>

definition keeps :: "nat \<Rightarrow> ('v, 'a) fatdrive_scheme \<Rightarrow> ('v, 'a) fatdrive_scheme \<Rightarrow> bool" where
  "keeps i s s' \<longleftrightarrow> length (buffers s') = length (buffers s) \<and> io_script s' = io_script s \<and> volume s' = volume s \<and>
     b_recordlen (buf i s') = b_recordlen (buf i s) \<and> headersize i s' = headersize i s \<and>
     fp_obj (b_fat (buf i s')) = fp_obj (b_fat (buf i s)) \<and> b_refill (buf i s') = b_refill (buf i s) \<and>
     b_write (buf i s') = b_write (buf i s) \<and> b_allocated (buf i s') = b_allocated (buf i s)"

lemma keeps_trans: "keeps i s t \<Longrightarrow> keeps i t u \<Longrightarrow> keeps i s u"
  by (simp add: keeps_def)

lemma mark_buffer_clean_file:
  assumes "i < length (buffers s)"
  shows "keeps i s (mark_buffer_clean i s)" "buf i (mark_buffer_clean i s) = (buf i s)\<lparr>b_dirty := False\<rparr>"
  using assms by (auto simp: keeps_def mark_buffer_clean_def upd_buf_def set_dirty_led_def Let_def)

text \<open>A buffer with \<open>n\<close> bytes of data for a sequential file that is open for writing.\<close>

definition holds_block :: "nat \<Rightarrow> nat \<Rightarrow> ('v, 'a) fatdrive_scheme \<Rightarrow> bool" where
  "holds_block i n s \<longleftrightarrow> i < length (buffers s) \<and> io_script s = [] \<and> fl_write (fh i s) \<and> b_recordlen (buf i s) = 0 \<and>
     \<not> b_mustflush (buf i s) \<and> length (b_data (buf i s)) = 256 \<and> 1 \<le> n \<and> n \<le> 254 \<and> b_position (buf i s) = of_nat (n + 2)"

lemma write_data_block:
  assumes "holds_block i n s"
  obtains s' where "write_data ff i s = Some (0, s')" "keeps i s s'"
    "fh i s' = write_bytes (take n (drop 2 (b_data (buf i s)))) (fh i s)" "b_data (buf i s') = b_data (buf i s)"
    "\<not> b_mustflush (buf i s')" "\<not> b_dirty (buf i s')"
    "b_fptr (buf i s') = of_nat (fl_ptr (fh i s) + n) - ucast (headersize i s)"
proof -
  note a = assms [unfolded holds_block_def]
  have "of_nat (n + 2) - 1 = (of_nat (n + 1) :: u8)" by simp
  then have p: "b_position (buf i s) - 1 = of_nat (n + 1)" using a by simp
  have u: "unat (of_nat (n + 1) :: u8) = n + 1" using a by (intro unat_of_nat_u8) simp
  define s1 where "s1 = upd_buf i (\<lambda>b. b\<lparr>b_lastused := b_position b - 1\<rparr>) s"
  define f where "f = write_bytes (take n (drop 2 (b_data (buf i s)))) (fh i s)"
  define s2 where "s2 = mark_buffer_clean i (set_fh i f s1)"
  define s3 where "s3 = upd_buf i (\<lambda>b. b\<lparr>b_mustflush := False, b_position := 2, b_lastused := 2,
                        b_fptr := of_nat (fl_ptr f) - ucast (fp_headersize (b_fat b))\<rparr>) s2"
  have s1: "i < length (buffers s1)" "io_script s1 = []" "buf i s1 = (buf i s)\<lparr>b_lastused := of_nat (n + 1)\<rparr>"
    using a p by (simp_all add: s1_def upd_buf_def)
  have l: "length (take n (drop 2 (b_data (buf i s)))) = n" using a by simp
  have w: "fil_write (take n (drop 2 (b_data (buf i s)))) (fh i s) s1 = (FR_OK, n, f, s1)"
    using a s1 l unfolding fil_write_def f_def by (simp add: next_io_def)
  have i2: "i < length (buffers s2)"
    using s1 mark_buffer_clean_file(1) [of i "set_fh i f s1"] by (simp add: s2_def set_fh_def keeps_def)
  have "write_data ff i s = Some (0, s3)"
    using a s1 u w unfolding write_data_def s1_def [symmetric] s3_def s2_def by (simp add: Let_def)
  moreover have b: "buf i s2 = ((buf i s)\<lparr>b_lastused := of_nat (n + 1), b_fat := (b_fat (buf i s))\<lparr>fp_fh := f\<rparr>, b_dirty := False\<rparr>)"
    using s1 mark_buffer_clean_file(2) [of i "set_fh i f s1"] by (simp add: s2_def set_fh_def upd_buf_def)
  moreover have "keeps i s s3"
  proof -
    have "keeps i s s1" using a by (simp add: keeps_def s1_def upd_buf_def)
    moreover have "keeps i s1 (set_fh i f s1)" using s1 by (simp add: keeps_def set_fh_def upd_buf_def)
    moreover have "keeps i (set_fh i f s1) s2" using s1 by (simp add: s2_def mark_buffer_clean_file set_fh_def)
    moreover have "keeps i s2 s3" using i2 by (simp add: keeps_def s3_def upd_buf_def)
    ultimately show ?thesis by (blast intro: keeps_trans)
  qed
  moreover have "fl_ptr f = fl_ptr (fh i s) + n" using l by (simp add: f_def write_bytes_def)
  ultimately show thesis using i2 by (intro that [of s3]) (simp_all add: s3_def upd_buf_def f_def)
qed

section \<open>Sequential writing\<close>

definition at_end :: "nat \<Rightarrow> ('v, 'a) fatdrive_scheme \<Rightarrow> bool" where
  "at_end i s \<longleftrightarrow> fl_ptr (fh i s) = fl_size (fh i s) \<and> b_fptr (buf i s) = of_nat (fl_size (fh i s)) - ucast (headersize i s)"

definition block_of :: "nat \<Rightarrow> nat \<Rightarrow> ('v, 'a) fatdrive_scheme \<Rightarrow> u8 list" where
  "block_of i n s = take n (drop 2 (b_data (buf i s)))"

lemma length_block_of [simp]: "holds_block i n s \<Longrightarrow> length (block_of i n s) = n"
  by (simp add: block_of_def holds_block_def)

lemma fat_file_write_append:
  assumes "holds_block i n s" "at_end i s"
  obtains s' where "fat_file_write ff i s = Some (0, s')" "keeps i s s'" "at_end i s'" "fl_write (fh i s')"
    "file_bytes (fh i s') = file_bytes (fh i s) @ block_of i n s" "b_data (buf i s') = b_data (buf i s)"
    "\<not> b_mustflush (buf i s')" "\<not> b_dirty (buf i s')"
proof -
  obtain s' where s': "write_data ff i s = Some (0, s')" "keeps i s s'"
    "fh i s' = write_bytes (block_of i n s) (fh i s)" "b_data (buf i s') = b_data (buf i s)"
    "\<not> b_mustflush (buf i s')" "\<not> b_dirty (buf i s')"
    "b_fptr (buf i s') = of_nat (fl_ptr (fh i s) + n) - ucast (headersize i s)"
    unfolding block_of_def by (rule write_data_block [OF assms(1)])
  have "fat_file_write ff i s = Some (0, s')"
    using assms(2) s'(1) by (simp add: fat_file_write_def at_end_def Let_def)
  moreover have "at_end i s'"
    using assms(1,2) s'(2,3,7) by (simp add: at_end_def keeps_def write_bytes_def)
  moreover have "file_bytes (fh i s') = file_bytes (fh i s) @ block_of i n s"
    using assms(2) unfolding s'(3) by (intro file_bytes_append) (simp add: at_end_def)
  moreover have "fl_write (fh i s')" using assms(1) by (simp add: s'(3) write_bytes_def holds_block_def)
  ultimately show thesis using s' by (intro that [of s'])
qed

section \<open>Writing behind the end\<close>

lemma write_bytes_append: "write_bytes ys (write_bytes xs f) = write_bytes (xs @ ys) f"
proof -
  have "mem_write (mem_write m a xs) (a + length xs) ys = mem_write m a (xs @ ys)" for m a
    by (auto simp: mem_write_def nth_append fun_eq_iff)
  then show ?thesis by (simp add: write_bytes_def add.assoc max.assoc)
qed

lemma write_bytes_Nil: "fl_ptr f \<le> fl_size f \<Longrightarrow> write_bytes [] f = f"
proof -
  have "mem_write m a [] = m" for m a by (auto simp: mem_write_def fun_eq_iff)
  then show "fl_ptr f \<le> fl_size f \<Longrightarrow> write_bytes [] f = f" by (simp add: write_bytes_def)
qed

lemma unat_u32_diff: "k \<le> unat n \<Longrightarrow> unat (n - of_nat k :: u32) = unat n - k"
proof -
  assume k: "k \<le> unat n"
  then have "k < 2 ^ 32" using unsigned_less [of n, where 'a = nat] by simp
  then have "unat (of_nat k :: u32) = k" by (rule unat_of_nat_u32)
  then show ?thesis using k by (subst unat_sub) (simp_all add: word_le_nat_alt)
qed

lemma fat_fill_zeros:
  assumes "i < length (buffers s)" "io_script s = []" "fl_write (fh i s)" "b_recordlen (buf i s) = 0" "\<not> b_mustflush (buf i s)"
    "length (b_data (buf i s)) = 256" "drop 2 (b_data (buf i s)) = replicate 254 0" "fl_ptr (fh i s) \<le> fl_size (fh i s)"
  shows "\<exists>s'. fat_fill ff i n s = Some (0, s') \<and> keeps i s s' \<and> fh i s' = write_bytes (replicate (unat n) 0) (fh i s) \<and>
    b_data (buf i s') = b_data (buf i s) \<and> \<not> b_mustflush (buf i s') \<and> (n \<noteq> 0 \<longrightarrow> \<not> b_dirty (buf i s'))"
  using assms
proof (induction "unat n" arbitrary: n s rule: less_induct)
  case less
  show ?case
  proof (cases "n = 0")
    case True
    with less.prems(8) show ?thesis by (subst fat_fill.simps) (simp add: keeps_def write_bytes_Nil less.prems(5))
  next
    case False
    define k where "k = min 254 (unat n)"
    define last :: u8 where "last = (if n > 254 then 254 else ucast n)"
    have n0: "0 < unat n" using False by (simp add: unat_gt_0)
    then have k: "1 \<le> k" "k \<le> 254" "k \<le> unat n" by (simp_all add: k_def)
    have lk: "last = of_nat k"
    proof (cases "n > 254")
      case False
      then have "unat n \<le> 254" by (simp add: not_less word_le_nat_alt)
      then have "k = unat n" by (simp add: k_def)
      with False show ?thesis by (simp add: last_def)
    qed (auto simp: last_def k_def word_less_nat_alt)
    define s1 where "s1 = upd_buf i (\<lambda>b. b\<lparr>b_lastused := last, b_position := last + 2\<rparr>) s"
    have b1: "buf i s1 = (buf i s)\<lparr>b_lastused := last, b_position := last + 2\<rparr>" "length (buffers s1) = length (buffers s)" "io_script s1 = []"
      using less.prems(1,2) by (simp_all add: s1_def upd_buf_def)
    have h: "holds_block i k s1"
      using less.prems b1 k lk by (simp add: holds_block_def add.commute)
    have blk: "take k (drop 2 (b_data (buf i s1))) = replicate k 0"
      using less.prems(7) k b1 by (simp add: min_absorb1)
    obtain s2 where s2: "write_data ff i s1 = Some (0, s2)" "keeps i s1 s2"
      "fh i s2 = write_bytes (replicate k 0) (fh i s1)" "b_data (buf i s2) = b_data (buf i s1)"
      "\<not> b_mustflush (buf i s2)" "\<not> b_dirty (buf i s2)"
      by (rule write_data_block [OF h, of ff, unfolded blk]) metis
    have "keeps i s s1" using less.prems(1) by (simp add: keeps_def s1_def upd_buf_def)
    with s2(2) have kp: "keeps i s s2" by (rule keeps_trans [rotated])
    have cast: "ucast last = (of_nat k :: u32)"
    proof -
      have "unat (ucast last :: u32) = k" using lk k by (simp add: unat_of_nat_u8)
      then have "of_nat (unat (ucast last :: u32)) = (of_nat k :: u32)" by (rule arg_cong)
      then show ?thesis by simp
    qed
    have un: "unat (n - ucast last) = unat n - k" unfolding cast by (rule unat_u32_diff [OF k(3)])
    then have lt: "unat (n - ucast last) < unat n" using k by simp
    have p2: "i < length (buffers s2)" "io_script s2 = []" "fl_write (fh i s2)" "b_recordlen (buf i s2) = 0"
      "length (b_data (buf i s2)) = 256" "drop 2 (b_data (buf i s2)) = replicate 254 0" "fl_ptr (fh i s2) \<le> fl_size (fh i s2)"
      using kp less.prems s2(3,4) b1 by (simp_all add: keeps_def write_bytes_def)
    obtain s' where s': "fat_fill ff i (n - ucast last) s2 = Some (0, s')" "keeps i s2 s'"
      "fh i s' = write_bytes (replicate (unat n - k) 0) (fh i s2)" "b_data (buf i s') = b_data (buf i s2)"
      "\<not> b_mustflush (buf i s')" "n - ucast last \<noteq> 0 \<longrightarrow> \<not> b_dirty (buf i s')"
      using less.hyps [OF lt p2(1-4) s2(5) p2(5-7)] unfolding un by blast
    have z: "n - ucast last = 0 \<Longrightarrow> s' = s2" using s'(1) by (subst (asm) fat_fill.simps) simp
    have "fat_fill ff i n s = Some (0, s')"
      using False s2(1) s'(1) less.prems(4) unfolding s1_def last_def by (subst fat_fill.simps) (simp add: Let_def)
    moreover have "fh i s' = write_bytes (replicate (unat n) 0) (fh i s)"
      unfolding s'(3) s2(3) write_bytes_append replicate_add [symmetric] using k b1 by simp
    moreover have "\<not> b_dirty (buf i s')" using s'(6) z s2(6) by (cases "n - ucast last = 0") auto
    ultimately show ?thesis using keeps_trans [OF kp s'(2)] s'(4,5) s2(4) b1 by simp
  qed
qed

lemma buf_lseek_ok:
  "io_script s = [] \<Longrightarrow> buf_lseek i ofs s = (FR_OK, set_fh i (seek_to (unat ofs) (fh i s)) s)"
  by (simp add: buf_lseek_def fil_lseek_def next_io_def)

lemma set_fh_file:
  assumes "i < length (buffers s)"
  shows "buf i (set_fh i f s) = (buf i s)\<lparr>b_fat := (b_fat (buf i s))\<lparr>fp_fh := f\<rparr>\<rparr>" "keeps i s (set_fh i f s)"
  using assms by (simp_all add: set_fh_def upd_buf_def keeps_def)

lemma unat_u32_plus: "unat (x :: u32) + unat y < 2 ^ 32 \<Longrightarrow> unat (x + y) = unat x + unat y"
  by (simp add: unat_word_ariths)

lemma file_bytes_gap:
  assumes "g1 = (write_bytes xs (f\<lparr>fl_ptr := fl_size f + g, fl_size := fl_size f + g\<rparr>))\<lparr>fl_ptr := fl_size f\<rparr>"
  shows "file_bytes (write_bytes (replicate g 0) g1) = file_bytes f @ replicate g 0 @ xs"
proof (rule nth_equalityI)
  show "length (file_bytes (write_bytes (replicate g 0) g1)) = length (file_bytes f @ replicate g 0 @ xs)"
    by (simp add: assms write_bytes_def)
next
  fix k assume "k < length (file_bytes (write_bytes (replicate g 0) g1))"
  then have k: "k < fl_size f + g + length xs" by (simp add: assms write_bytes_def)
  then have "file_bytes (write_bytes (replicate g 0) g1) ! k = fl_data (write_bytes (replicate g 0) g1) k"
    by (intro file_bytes_nth) (simp add: assms write_bytes_def)
  also have "\<dots> = (file_bytes f @ replicate g 0 @ xs) ! k"
  proof (cases "k < fl_size f")
    case True
    then show ?thesis by (simp add: assms write_bytes_def mem_write_def nth_append file_bytes_nth)
  next
    case False
    with k show ?thesis
      by (cases "k < fl_size f + g")
        (auto simp: assms write_bytes_def mem_write_def nth_append less_diff_conv2 not_less algebra_simps)
  qed
  finally show "file_bytes (write_bytes (replicate g 0) g1) ! k = (file_bytes f @ replicate g 0 @ xs) ! k" .
qed

lemma fat_file_write_gap:
  assumes "holds_block i n s" "unat (headersize i s) \<le> fl_size (fh i s)" "0 < g" "fl_size (fh i s) + g + 254 < 2 ^ 32"
    "unat (b_fptr (buf i s)) = fl_size (fh i s) - unat (headersize i s) + g"
  shows "\<exists>s'. fat_file_write ff i s = Some (0, s') \<and> keeps i s s' \<and> at_end i s' \<and> fl_write (fh i s') \<and>
    file_bytes (fh i s') = file_bytes (fh i s) @ replicate g 0 @ block_of i n s \<and> \<not> b_mustflush (buf i s') \<and> \<not> b_dirty (buf i s')"
proof -
  define S where "S = fl_size (fh i s)"
  define hs :: u32 where "hs = ucast (headersize i s)"
  define fptr :: u32 where "fptr = of_nat S - hs"
  define at where "at = b_fptr (buf i s)"
  note a = assms(1) [unfolded holds_block_def]
  have i: "i < length (buffers s)" "io_script s = []" using a by simp_all
  have h: "unat hs = unat (headersize i s)" by (simp add: hs_def)
  have "unat (of_nat S :: u32) = S" using assms(4) by (intro unat_of_nat_u32) (simp add: S_def)
  then have f: "unat fptr = S - unat (headersize i s)" "unat fptr + unat hs = S"
    using assms(2) h unfolding fptr_def by (subst unat_sub; simp add: word_le_nat_alt S_def)+
  have at: "unat at = unat fptr + g" using assms(5) f by (simp add: at_def S_def)
  have gt: "at > fptr" "at \<noteq> fptr" using at assms(3) by (auto simp: word_less_nat_alt)
  have o1: "unat (hs + at) = S + g" "unat (hs + fptr) = S" "unat (at - fptr) = g"
    using at f assms(4) by (simp_all add: unat_u32_plus S_def unat_sub word_le_nat_alt)
  define f1 where "f1 = (fh i s)\<lparr>fl_ptr := S + g, fl_size := S + g\<rparr>"
  define s1 where "s1 = set_fh i f1 s"
  have l1: "buf_lseek i (hs + at) s = (FR_OK, s1)"
    using a assms(3) o1 by (simp add: buf_lseek_ok s1_def f1_def seek_to_def S_def)
  have b1: "buf i s1 = (buf i s)\<lparr>b_fat := (b_fat (buf i s))\<lparr>fp_fh := f1\<rparr>\<rparr>" "keeps i s s1"
    using i by (simp_all add: s1_def set_fh_file)
  have hb: "holds_block i n s1" using a b1 by (simp add: holds_block_def keeps_def f1_def)
  obtain s2 where s2: "write_data ff i s1 = Some (0, s2)" "keeps i s1 s2" "fh i s2 = write_bytes (block_of i n s) f1"
    "b_data (buf i s2) = b_data (buf i s)"
    by (rule write_data_block [OF hb, of ff]) (simp add: b1 block_of_def)
  have k2: "keeps i s s2" using b1(2) s2(2) by (rule keeps_trans)
  then have i2: "i < length (buffers s2)" "io_script s2 = []" "headersize i s2 = headersize i s" "b_recordlen (buf i s2) = 0"
    using i a by (simp_all add: keeps_def)
  define f3 where "f3 = (write_bytes (block_of i n s) f1)\<lparr>fl_ptr := S\<rparr>"
  define s3 where "s3 = upd_buf i (\<lambda>b. b\<lparr>b_mustflush := False, b_fptr := fptr,
      b_data := take 2 (b_data b) @ (if b_recordlen b \<noteq> 0 then 255 else 0) # replicate 253 0\<rparr>) (set_fh i f3 s2)"
  have l2: "buf_lseek i (hs + fptr) s2 = (FR_OK, set_fh i f3 s2)"
    using i2 o1 by (simp add: buf_lseek_ok s2(3) f3_def seek_to_def f1_def write_bytes_def)
  have b3: "fh i s3 = f3" "b_data (buf i s3) = take 2 (b_data (buf i s)) @ 0 # replicate 253 0" "\<not> b_mustflush (buf i s3)"
    "keeps i s2 s3"
    using i2 s2(4) by (simp_all add: s3_def upd_buf_def set_fh_def keeps_def)
  have k3: "keeps i s s3" using k2 b3(4) by (rule keeps_trans)
  have r: "(0 :: u8) # replicate 253 0 = replicate 254 0" by (metis replicate_Suc eval_nat_numeral(3) One_nat_def numeral_eq_Suc pred_numeral_simps(2) BitM.simps)
  obtain s4 where s4: "fat_fill ff i (at - fptr) s3 = Some (0, s4)" "keeps i s3 s4" "fh i s4 = write_bytes (replicate g 0) f3"
    "\<not> b_mustflush (buf i s4)" "\<not> b_dirty (buf i s4)"
    using fat_fill_zeros [of i s3 ff "at - fptr"] k3 a b3 gt r unfolding o1 b3(1) by (auto simp: keeps_def f3_def f1_def write_bytes_def)
  have k4: "keeps i s s4" using k3 s4(2) by (rule keeps_trans)
  then have i4: "i < length (buffers s4)" "io_script s4 = []" "headersize i s4 = headersize i s" using i by (simp_all add: keeps_def)
  define f5 where "f5 = (fh i s4)\<lparr>fl_ptr := fl_size (fh i s4)\<rparr>"
  define s5 where "s5 = set_fh i f5 s4"
  define s6 where "s6 = upd_buf i (\<lambda>b. b\<lparr>b_fptr := of_nat (fl_ptr (fp_fh (b_fat b))) - hs\<rparr>) s5"
  have sz: "fl_size (fh i s4) = S + g + n" using a unfolding s4(3) by (simp add: f3_def f1_def write_bytes_def block_of_def)
  then have "unat (of_nat (fl_size (fh i s4)) :: u32) = fl_size (fh i s4)"
    using a assms(4) by (intro unat_of_nat_u32) (simp add: S_def)
  then have l3: "buf_lseek i (of_nat (fl_size (fh i s4))) s4 = (FR_OK, s5)"
    using i4 by (simp add: buf_lseek_ok s5_def f5_def seek_to_def)
  have b6: "fh i s6 = f5" "b_fptr (buf i s6) = of_nat (fl_ptr f5) - hs" "\<not> b_mustflush (buf i s6)" "\<not> b_dirty (buf i s6)" "keeps i s4 s6"
    using i4 s4(4,5) by (simp_all add: s6_def s5_def set_fh_def upd_buf_def keeps_def)
  have "fat_file_write ff i s = Some (0, s6)"
    unfolding fat_file_write_def Let_def hs_def [symmetric] S_def [symmetric] fptr_def [symmetric] at_def [symmetric]
    using gt l1 s2(1) l2 s4(1) l3 by (simp add: s3_def [symmetric] s6_def)
  moreover have "file_bytes (fh i s6) = file_bytes (fh i s) @ replicate g 0 @ block_of i n s"
  proof -
    have "file_bytes (fh i s6) = file_bytes (write_bytes (replicate g 0) f3)"
      unfolding b6(1) f5_def s4(3) by (simp add: file_bytes_def)
    then show ?thesis using file_bytes_gap [where ?g1.0 = f3 and xs = "block_of i n s" and f = "fh i s" and g = g] by (simp add: f3_def f1_def S_def)
  qed
  moreover have "keeps i s s6" using k4 b6(5) by (rule keeps_trans)
  moreover have "at_end i s6" using b6 i4 by (simp add: at_end_def keeps_def f5_def hs_def)
  moreover have "fl_write (fh i s6)" using a unfolding b6(1) f5_def s4(3) by (simp add: f3_def f1_def write_bytes_def)
  ultimately show ?thesis using b6(3,4) by blast
qed

section \<open>Reading\<close>

definition readable :: "nat \<Rightarrow> 'a fw_scheme \<Rightarrow> u8 list" where
  "readable i s = take (unat (b_lastused (buf i s)) + 1 - unat (b_position (buf i s))) (drop (unat (b_position (buf i s))) (b_data (buf i s)))"

definition reads_file :: "nat \<Rightarrow> 'a fw_scheme \<Rightarrow> bool" where
  "reads_file i s \<longleftrightarrow> i < length (buffers s) \<and> io_script s = [] \<and> b_recordlen (buf i s) = 0 \<and> length (b_data (buf i s)) = 256 \<and>
     fl_ptr (fh i s) \<le> fl_size (fh i s)"

lemma put_at_Nil: "put_at k [] xs = xs"
  by (simp add: put_at_def)

lemma fat_file_read_next:
  assumes "reads_file i s"
  obtains s' where "fat_file_read i s = Some (0, s')" "reads_file i s'"
    "readable i s' = (if fl_ptr (fh i s) = fl_size (fh i s) then [13] else take 254 (drop (fl_ptr (fh i s)) (file_bytes (fh i s))))"
    "b_sendeoi (buf i s') \<longleftrightarrow> fl_size (fh i s) \<le> fl_ptr (fh i s) + 254"
    "fh i s' = (fh i s)\<lparr>fl_ptr := min (fl_size (fh i s)) (fl_ptr (fh i s) + 254)\<rparr>"
    "b_read (buf i s') = b_read (buf i s)" "b_refill (buf i s') = b_refill (buf i s)"
proof -
  note a = assms [unfolded reads_file_def]
  define P S where "P = fl_ptr (fh i s)" and "S = fl_size (fh i s)"
  define k where "k = min 254 (S - P)"
  define bs where "bs = take 254 (drop P (file_bytes (fh i s)))"
  define s1 where "s1 = upd_buf i (\<lambda>b. b\<lparr>b_fptr := of_nat (fl_ptr (fh i s)) - ucast (headersize i s)\<rparr>) s"
  define f where "f = (fh i s)\<lparr>fl_ptr := P + k\<rparr>"
  define s2 where "s2 = upd_buf i (\<lambda>b. b\<lparr>b_data := put_at 2 bs (b_data b)\<rparr>) (set_fh i f s1)"
  define s3 where "s3 = (if bs = [] then upd_buf i (\<lambda>b. b\<lparr>b_data := (b_data b)[2 := 13]\<rparr>) s2 else s2)"
  define n where "n = (if bs = [] then 1 else length bs)"
  define s4 where "s4 = upd_buf i (\<lambda>b. b\<lparr>b_position := 2, b_lastused := of_nat (n + 1), b_sendeoi := (n < 254 \<or> S - (P + k) = 0)\<rparr>) s3"
  have PS: "P \<le> S" using a by (simp add: P_def S_def)
  have lb: "length bs = k" by (simp add: bs_def k_def S_def)
  have b1: "buf i s1 = (buf i s)\<lparr>b_fptr := of_nat (fl_ptr (fh i s)) - ucast (headersize i s)\<rparr>" "io_script s1 = []" "i < length (buffers s1)"
    using a by (simp_all add: s1_def upd_buf_def)
  have "P + k \<le> S" using PS by (simp add: k_def)
  then have "mem_read (fl_data (fh i s)) P k = take k (drop P (file_bytes (fh i s)))"
    unfolding S_def by (rule mem_read_bytes)
  also have "\<dots> = bs" using lb unfolding bs_def by (metis take_all_iff length_take take_take min_def nle_le)
  finally have "mem_read (fl_data (fh i s)) P k = bs" .
  then have r: "fil_read 254 (fh i s) s1 = (FR_OK, bs, f, s1)"
    using b1 unfolding fil_read_def f_def by (simp add: next_io_def P_def S_def k_def)
  have "fat_file_read i s = Some (0, s4)"
    using a b1 r lb unfolding fat_file_read_def s1_def [symmetric]
    by (simp add: Let_def s2_def [symmetric] s3_def [symmetric] n_def [symmetric] s4_def k_def) (simp add: s3_def n_def s2_def set_fh_def upd_buf_def f_def P_def S_def k_def)
  moreover have d2: "buf i s2 = (buf i s1)\<lparr>b_data := put_at 2 bs (b_data (buf i s)), b_fat := (b_fat (buf i s))\<lparr>fp_fh := f\<rparr>\<rparr>"
    "i < length (buffers s2)" "io_script s2 = []"
    using b1 by (simp_all add: s2_def set_fh_def upd_buf_def)
  moreover have d3: "buf i s3 = (buf i s2)\<lparr>b_data := (if bs = [] then (b_data (buf i s))[2 := 13] else put_at 2 bs (b_data (buf i s)))\<rparr>"
    "i < length (buffers s3)" "io_script s3 = []"
    using d2 by (simp_all add: s3_def upd_buf_def put_at_Nil)
  moreover have d4: "buf i s4 = (buf i s3)\<lparr>b_position := 2, b_lastused := of_nat (n + 1), b_sendeoi := (n < 254 \<or> S - (P + k) = 0)\<rparr>"
    "i < length (buffers s4)" "io_script s4 = []"
    using d3 by (simp_all add: s4_def upd_buf_def)
  moreover have "unat (of_nat (n + 1) :: u8) = n + 1" using lb by (intro unat_of_nat_u8) (simp add: n_def k_def min_def)
  moreover have "take 1 (drop 2 ((b_data (buf i s))[2 := 13])) = [13]" "take k (drop 2 (put_at 2 bs (b_data (buf i s)))) = bs"
    using a lb by (simp_all add: take_Suc_conv_app_nth drop_update_swap put_at_def hd_drop_conv_nth take_Suc)
  moreover have "bs = [] \<longleftrightarrow> P = S" using lb PS by (cases bs) (auto simp: k_def)
  moreover have "(n < 254 \<or> S - (P + k) = 0) \<longleftrightarrow> S \<le> P + 254" using lb PS by (auto simp: n_def k_def)
  moreover have "P + k = min S (P + 254)" using PS by (simp add: k_def)
  ultimately show thesis
    using a b1 lb PS
    by (intro that [of s4]) (simp_all add: reads_file_def readable_def n_def f_def P_def [symmetric] S_def [symmetric] bs_def [symmetric] k_def)
qed

section \<open>Saving and loading\<close>

text \<open>A channel that writes a file: the bytes that are in the file so far, its identity and the volume.\<close>

definition writer :: "nat \<Rightarrow> u8 list \<Rightarrow> nat \<Rightarrow> 'v \<Rightarrow> ('v, 'a) fatdrive_scheme \<Rightarrow> bool" where
  "writer i xs obj v s \<longleftrightarrow> i < 32 \<and> length (buffers s) = 33 \<and> io_script s = [] \<and> volume s = v \<and> at_end i s \<and> fl_write (fh i s) \<and>
     file_bytes (fh i s) = xs \<and>
     (let b = buf i s in b_recordlen b = 0 \<and> \<not> b_mustflush b \<and> length (b_data b) = 256 \<and> b_allocated b \<and> b_write b \<and>
        b_refill b = Refill_fat_file_write \<and> fp_obj (b_fat b) = obj)"

definition fill_block :: "nat \<Rightarrow> u8 list \<Rightarrow> 'a fw_scheme \<Rightarrow> 'a fw_scheme" where
  "fill_block i xs s = upd_buf i (\<lambda>b. b\<lparr>b_data := put_at 2 xs (b_data b), b_position := of_nat (length xs + 2)\<rparr>) s"

fun put_blocks :: "'v fatfs \<Rightarrow> nat \<Rightarrow> u8 list list \<Rightarrow> ('v, 'a) fatdrive_scheme \<Rightarrow> ('v, 'a) fatdrive_scheme option" where
  "put_blocks ff i [] s = Some s"
| "put_blocks ff i (xs # xss) s = do {
     (r, s) \<leftarrow> fat_file_write ff i (fill_block i xs s);
     (if r = 0 then put_blocks ff i xss s else None) }"

lemma writer_block:
  assumes "writer i bs obj v s" "1 \<le> length xs" "length xs \<le> 254"
  obtains s' where "fat_file_write ff i (fill_block i xs s) = Some (0, s')" "writer i (bs @ xs) obj v s'"
proof -
  let ?s = "fill_block i xs s"
  note w = assms(1) [unfolded writer_def Let_def]
  have b: "buf i ?s = (buf i s)\<lparr>b_data := put_at 2 xs (b_data (buf i s)), b_position := of_nat (length xs + 2)\<rparr>"
    "length (buffers ?s) = 33" "io_script ?s = []" "volume ?s = v"
    using w by (simp_all add: fill_block_def upd_buf_def)
  have h: "holds_block i (length xs) ?s" and e: "at_end i ?s" and "block_of i (length xs) ?s = xs"
    using w b assms(2,3) by (simp_all add: holds_block_def at_end_def block_of_def put_at_def)
  then obtain s' where s': "fat_file_write ff i ?s = Some (0, s')" "keeps i ?s s'" "at_end i s'" "fl_write (fh i s')"
    "file_bytes (fh i s') = file_bytes (fh i ?s) @ xs" "b_data (buf i s') = b_data (buf i ?s)" "\<not> b_mustflush (buf i s')"
    using fat_file_write_append [OF h e, of ff] by metis
  have "writer i (bs @ xs) obj v s'"
    using w b s'(2-7) assms(2,3) by (simp add: writer_def keeps_def)
  with s'(1) show thesis by (rule that)
qed

lemma put_blocks_writer:
  assumes "writer i bs obj v s" "\<forall>xs \<in> set xss. 1 \<le> length xs \<and> length xs \<le> 254"
  shows "\<exists>s'. put_blocks ff i xss s = Some s' \<and> writer i (bs @ concat xss) obj v s'"
  using assms
proof (induction xss arbitrary: bs s)
  case (Cons xs xss)
  then have x: "1 \<le> length xs" "length xs \<le> 254" by simp_all
  obtain s' where s': "fat_file_write ff i (fill_block i xs s) = Some (0, s')" "writer i (bs @ xs) obj v s'"
    using writer_block [OF Cons.prems(1) x, of ff] by metis
  then show ?case using Cons.IH [OF s'(2)] Cons.prems(2) by simp
qed simp

lemma parse_error_ok:
  "\<exists>s'. parse_error FR_OK rd s = Some s' \<and> volume s' = volume s \<and> io_script s' = io_script s"
  by (auto simp: parse_error_def set_error_def set_error_ts_plain plain_error_def upd_buf_def set_error_led_def update_leds_def Let_def)

lemma writer_close:
  assumes "writer i bs obj v s" "1 \<le> length xs" "length xs \<le> 254" "\<And>g. \<exists>v'. ff_close ff g obj v = (FR_OK, v')"
  obtains s' g v' where "fat_file_close ff i (fill_block i xs s) = Some (0, s')" "file_bytes g = bs @ xs"
    "ff_close ff g obj v = (FR_OK, v')" "volume s' = v'" "io_script s' = []"
proof -
  obtain t where t: "fat_file_write ff i (fill_block i xs s) = Some (0, t)" "writer i (bs @ xs) obj v t"
    by (rule writer_block [OF assms(1-3)])
  obtain v' where v': "ff_close ff (fh i t) obj v = (FR_OK, v')" using assms(4) by blast
  define u where "u = t\<lparr>volume := v'\<rparr>"
  obtain u' where u': "parse_error FR_OK True u = Some u'" "volume u' = v'" "io_script u' = []"
    using parse_error_ok [of True u] t(2) by (auto simp: u_def writer_def)
  have c: "buf_close ff i t = (FR_OK, u)" using t(2) v' by (simp add: buf_close_def writer_def Let_def u_def)
  have b: "b_allocated (buf i (fill_block i xs s))" "b_write (buf i (fill_block i xs s))"
    "b_refill (buf i (fill_block i xs s)) = Refill_fat_file_write"
    using assms(1) by (simp_all add: fill_block_def upd_buf_def writer_def Let_def)
  have "fat_file_close ff i (fill_block i xs s) = Some (0, upd_buf i (\<lambda>b. b\<lparr>b_cleanup := Cleanup_dummy\<rparr>) u')"
    using t(1) c u'(1) b by (simp add: fat_file_close_def fat_refill_def)
  then show thesis using t(2) v' u'(2,3) by (intro that [of "upd_buf i (\<lambda>b. b\<lparr>b_cleanup := Cleanup_dummy\<rparr>) u'" "fh i t" v']) (simp_all add: writer_def upd_buf_def)
qed

definition fresh_buf :: "nat \<Rightarrow> ('v, 'a) fatdrive_scheme \<Rightarrow> bool" where
  "fresh_buf i s \<longleftrightarrow> i < 32 \<and> length (buffers s) = 33 \<and> io_script s = [] \<and>
     (let b = buf i s in b_recordlen b = 0 \<and> \<not> b_mustflush b \<and> length (b_data b) = 256 \<and> b_allocated b \<and> b_fptr b = 0 \<and>
        fp_headersize (b_fat b) = 0)"

lemma fat_open_write_new:
  assumes "fresh_buf i s" "build_name (file_extension_mode s) (cstr (ce_name dent)) ty = Some (name, None)"
    "ff_open ff (path_part path) (dir_fat (path_dir path)) name (FA_WRITE OR FA_CREATE_NEW) (volume s) = (FR_OK, f, obj, v)"
    "file_bytes f = []" "fl_ptr f = 0" "fl_write f"
  shows "\<exists>s'. fat_open_write ff path dent ty i False s = Some (dent, s') \<and> writer i [] obj v s'"
proof -
  note w = assms(1) [unfolded fresh_buf_def Let_def]
  have sz: "fl_size f = 0" using assms(4) length_file_bytes [of f] by simp
  define s1 where "s1 = (upd_buf i (\<lambda>b. b\<lparr>b_fat := (b_fat b)\<lparr>fp_fh := f, fp_obj := obj\<rparr>\<rparr>) (chdir_to path s))\<lparr>volume := v\<rparr>"
  define s2 where "s2 = s1\<lparr>ops_scratch := put_at 0 (name @ [0]) (ops_scratch s1)\<rparr>"
  define s3 where "s3 = upd_buf i (\<lambda>b. b\<lparr>b_position := 2, b_lastused := 2, b_cleanup := Cleanup_fat_file_close,
             b_refill := Refill_fat_file_write, b_seek := Seek_fat_file, b_data := (b_data b)[2 := 13]\<rparr>) (mark_write_buffer i s2)"
  have "buf_open ff i (path_part path) name (FA_WRITE OR FA_CREATE_NEW) (chdir_to path s) = (FR_OK, s1)"
    using assms(3) by (simp add: buf_open_def chdir_to_def s1_def)
  then have "create_loop ff i (path_part path) (FA_WRITE OR FA_CREATE_NEW) None name (chdir_to path s) = Some (FR_OK, name, s1)"
    by (subst create_loop.simps) simp
  then have "create_file ff path dent ty i 0 s = Some (FR_OK, s2)"
    using assms(2) by (simp add: create_file_def s2_def)
  then have "fat_open_write ff path dent ty i False s = Some (dent, s3)"
    by (simp add: fat_open_write_def s3_def)
  moreover have "buf i s2 = (buf i s)\<lparr>b_fat := (b_fat (buf i s))\<lparr>fp_fh := f, fp_obj := obj\<rparr>\<rparr>" "length (buffers s2) = 33"
    "io_script s2 = []" "volume s2 = v"
    using w by (simp_all add: s2_def s1_def upd_buf_def chdir_to_def)
  then have "writer i [] obj v s3"
    using w assms(4-6) sz by (simp add: writer_def s3_def mark_write_buffer_def stick_buffer_def upd_buf_def at_end_def Let_def)
  ultimately show ?thesis by blast
qed

lemma fat_open_read_file:
  assumes "fresh_buf j t" "cstr (ce_realname dent) = name" "name \<noteq> []" "ce_opstype dent = OPSTYPE_FAT"
    "ff_open ff (path_part path) (dir_fat (path_dir path)) name FA_READ (volume t) = (FR_OK, h, obj, v)" "fl_ptr h = 0"
  shows "\<exists>d s'. fat_open_read ff path dent j t = Some (d, s') \<and> b_read (buf j s') \<and> b_refill (buf j s') = Refill_fat_file_read \<and>
    reads_file j s' \<and> file_bytes (fh j s') = file_bytes h \<and> fl_ptr (fh j s') = min (fl_size h) 254 \<and>
    readable j s' = (if file_bytes h = [] then [13] else take 254 (file_bytes h)) \<and> (b_sendeoi (buf j s') \<longleftrightarrow> length (file_bytes h) \<le> 254)"
proof -
  note w = assms(1) [unfolded fresh_buf_def Let_def]
  define s1 where "s1 = (upd_buf j (\<lambda>b. b\<lparr>b_fat := (b_fat b)\<lparr>fp_fh := h, fp_obj := obj\<rparr>\<rparr>) (chdir_to path t))\<lparr>volume := v\<rparr>"
  define s2 where "s2 = stick_buffer j (upd_buf j (\<lambda>b. b\<lparr>b_read := True, b_cleanup := Cleanup_fat_file_close,
    b_refill := Refill_fat_file_read, b_seek := Seek_fat_file\<rparr>) s1)"
  let ?d = "dent\<lparr>ce_name := pet2asc (ce_name dent)\<rparr>"
  have c: "cchar (ce_realname dent) 0 \<noteq> 0"
    using assms(2,3) by (cases "ce_realname dent") (auto simp: cstr_def cchar_def)
  have o: "buf_open ff j (path_part path) name (FA_READ OR FA_OPEN_EXISTING) (chdir_to path t) = (FR_OK, s1)"
    using assms(5) by (simp add: buf_open_def chdir_to_def s1_def)
  have b2: "buf j s2 = (buf j t)\<lparr>b_fat := (b_fat (buf j t))\<lparr>fp_fh := h, fp_obj := obj\<rparr>, b_read := True, b_cleanup := Cleanup_fat_file_close,
    b_refill := Refill_fat_file_read, b_seek := Seek_fat_file, b_sticky := True\<rparr>" "length (buffers s2) = 33" "io_script s2 = []"
    using w by (simp_all add: s2_def s1_def stick_buffer_def upd_buf_def chdir_to_def)
  have f2: "fh j s2 = h" "b_read (buf j s2) = True" "b_refill (buf j s2) = Refill_fat_file_read" using b2(1) by simp_all
  have rf: "reads_file j s2" using w b2 assms(6) by (simp add: reads_file_def)
  obtain s' where s': "fat_file_read j s2 = Some (0, s')" "reads_file j s'"
    "readable j s' = (if fl_ptr h = fl_size h then [13] else take 254 (drop (fl_ptr h) (file_bytes h)))"
    "b_sendeoi (buf j s') \<longleftrightarrow> fl_size h \<le> fl_ptr h + 254" "fh j s' = h\<lparr>fl_ptr := min (fl_size h) (fl_ptr h + 254)\<rparr>"
    "b_read (buf j s') = True" "b_refill (buf j s') = Refill_fat_file_read"
    by (rule fat_file_read_next [OF rf, unfolded f2])
  have "fat_open_read ff path dent j t = Some (?d, s')"
    using o c s'(1) assms(2,4) by (simp add: fat_open_read_def s2_def)
  moreover have "file_bytes h = [] \<longleftrightarrow> fl_size h = 0" using length_file_bytes [of h] by (metis length_0_conv)
  moreover have "file_bytes (fh j s') = file_bytes h" by (simp add: s'(5) file_bytes_def)
  ultimately show ?thesis using s' assms(6) by auto
qed

section \<open>Directory entries\<close>

text \<open>The names that FatFs gives are short names of at most twelve characters.\<close>

definition short_names :: "'v fatfs \<Rightarrow> u8 \<Rightarrow> bool" where
  "short_names ff p \<longleftrightarrow> (\<forall>d v. case ff_readdir ff p d v of (res, fi, d') \<Rightarrow> length (fi_fname fi) \<le> 12)"

lemma readdir_skip_entry:
  assumes "readdir_skip ff p d s = Some (res, fi, d', s')" "short_names ff p"
  shows "length (fi_fname fi) \<le> 12"
proof -
  have "short_names ff p \<longrightarrow> length (fi_fname (fst (snd (res, fi, d', s')))) \<le> 12"
  proof (rule readdir_skip.raw_induct [of "\<lambda>ff p d s r. short_names ff p \<longrightarrow> length (fi_fname (fst (snd r))) \<le> 12", OF _ assms(1)], intro impI)
    fix loop ff p d s r
    assume IH: "\<And>ff p d s r. loop ff p d s = Some r \<Longrightarrow> short_names ff p \<longrightarrow> length (fi_fname (fst (snd r))) \<le> 12"
      and body: "(let (res, fi, d) = ff_readdir ff p d (volume s); s = store_lfn (fi_lfn fi) s in
        if res \<noteq> FR_OK \<or> \<not> skipped fi then Some (res, fi, d, s) else loop ff p d s) = Some r"
      and n: "short_names ff p"
    obtain res fi e where q: "ff_readdir ff p d (volume s) = (res, fi, e)" by (metis prod_cases3)
    with n have "length (fi_fname fi) \<le> 12" unfolding short_names_def by (metis case_prod_conv)
    then show "length (fi_fname (fst (snd r))) \<le> 12"
      using body IH n unfolding q by (auto simp: Let_def split: if_splits)
  qed
  then show ?thesis using assms(2) by simp
qed

lemma check_extension_type:
  assumes "check_extension name = (ext, rest)" "ext \<noteq> EXT_UNKNOWN"
  shows "\<exists>r. rest = Some r \<and> fat_type (cchar r 0) \<in> {1, 2, 3, 4}"
proof (cases "after_last (asc CHR ''.'') name")
  case None
  then show ?thesis using assms by (simp add: check_extension_def)
next
  case (Some r)
  then have "cchar r 0 \<in> {asc CHR ''P'', asc CHR ''S'', asc CHR ''U'', asc CHR ''R''}" "rest = Some r"
    using assms by (auto simp: check_extension_def Let_def split: if_splits)
  then show ?thesis by (auto simp: fat_type_def)
qed

lemma shown_name_typed: "length fname \<le> 12 \<Longrightarrow> length (shown_name name fname) = 17 \<and> last (shown_name name fname) = 0"
  by (auto simp: shown_name_def pad17_def last_append)

lemma pad17_typed: "length name \<le> 16 \<Longrightarrow> length (pad17 name) = 17 \<and> last (pad17 name) = 0"
  by (simp add: pad17_def last_append)

lemma p00_name_length: "p00_name ff p clust s = Some (Inr name, s') \<Longrightarrow> length name \<le> 16"
  by (auto simp: p00_name_def Let_def split: option.splits prod.splits if_splits)

lemma fat_entry_typed:
  assumes "fat_entry ff p fi s = Some (ty, ops, name, fsize, s')" "length (fi_fname fi) \<le> 12"
  shows "length name = 17 \<and> last name = 0 \<and> ops \<in> {OPSTYPE_FAT, OPSTYPE_FAT_X00} \<and> ty \<in> {1, 2, 3, 4, TYPE_DIR, TYPE_DIR OR FLAG_HIDDEN}"
  using assms shown_name_typed [OF assms(2)] pad17_typed p00_name_length check_extension_type [of "fi_fname fi"]
  by (fastforce simp: fat_entry_def Let_def split: if_splits prod.splits sum.splits option.splits Option.bind_splits)

lemma fat_blocks_bound: "unat (fat_blocks n) \<le> 63999"
proof (cases "n > 16255746")
  case False
  then have n: "unat n \<le> 16255746" by (simp add: word_less_nat_alt)
  then have "unat (n + 253) = unat n + 253" by (intro trans [OF unat_u32_plus]) simp_all
  then have "unat ((n + 253) div 254) = (unat n + 253) div 254" by (simp add: unat_div)
  moreover have "(unat n + 253) div 254 \<le> 63999" using n by simp
  ultimately show ?thesis using False
    by (simp add: fat_blocks_def unsigned_ucast_eq take_bit_nat_eq_self)
qed (simp add: fat_blocks_def)

section \<open>A volume in memory\<close>

text \<open>Files by name in one directory; a file is known by its place in the list.\<close>

definition mem_fil :: "u8 list \<Rightarrow> bool \<Rightarrow> fil" where
  "mem_fil xs wr = \<lparr>fl_data = (\<lambda>k. if k < length xs then xs ! k else 0), fl_size = length xs, fl_ptr = 0, fl_write = wr\<rparr>"

definition mem_ff :: "(u8 list \<times> u8 list) list fatfs" where
  "mem_ff = \<lparr>
     ff_open = (\<lambda>p d name mode v.
       if mode AND FA_CREATE_NEW \<noteq> 0
       then (if name \<in> fst ` set v then (FR_EXIST, fil_zero, 0, v) else (FR_OK, mem_fil [] True, length v, v @ [(name, [])]))
       else (case map_of v name of
               None \<Rightarrow> (FR_NO_FILE, fil_zero, 0, v)
             | Some xs \<Rightarrow> (FR_OK, mem_fil xs (mode AND FA_WRITE \<noteq> 0), length (takeWhile (\<lambda>e. fst e \<noteq> name) v), v))),
     ff_opencluster = (\<lambda>p c v. if unat c < length v then (FR_OK, mem_fil (snd (v ! unat c)) False, unat c) else (FR_NO_FILE, fil_zero, 0)),
     ff_close = (\<lambda>f obj v. (FR_OK, if obj < length v then v[obj := (fst (v ! obj), file_bytes f)] else v)),
     ff_opendir = (\<lambda>p c v. (FR_OK, \<lparr>fd_sclust = c, fd_index = 0\<rparr>)),
     ff_readdir = (\<lambda>p d v. if fd_index d < length v
       then (FR_OK, \<lparr>fi_fsize = of_nat (length (snd (v ! fd_index d))), fi_fdate = 0, fi_ftime = 0, fi_fattrib = 0, fi_clust = of_nat (fd_index d),
               fi_fname = take 12 (fst (v ! fd_index d)), fi_lfn = []\<rparr>, d\<lparr>fd_index := Suc (fd_index d)\<rparr>)
       else (FR_OK, \<lparr>fi_fsize = 0, fi_fdate = 0, fi_ftime = 0, fi_fattrib = 0, fi_clust = 0, fi_fname = [], fi_lfn = []\<rparr>, d)),
     ff_stat = (\<lambda>p d name v. (FR_NO_PATH, \<lparr>fi_fsize = 0, fi_fdate = 0, fi_ftime = 0, fi_fattrib = 0, fi_clust = 0, fi_fname = [], fi_lfn = []\<rparr>)),
     ff_unlink = (\<lambda>p d name v. (FR_NO_FILE, v)), ff_mkdir = (\<lambda>p d name v. (FR_DENIED, v)), ff_rename = (\<lambda>p d old new v. (FR_NO_FILE, v)),
     ff_getfree = (\<lambda>p n v. (FR_OK, 0)), ff_fs_type = (\<lambda>p v. 1), ff_mount = (\<lambda>d m v. (FR_OK, v))\<rparr>"

lemma file_bytes_mem_fil [simp]: "file_bytes (mem_fil xs wr) = xs"
  by (rule nth_equalityI) (auto simp: file_bytes_nth, simp_all add: mem_fil_def)

text \<open>What the library promises for a new file: it is empty, and what it holds when it is closed is found when it is opened again.\<close>

definition keeps_new_file :: "'v fatfs \<Rightarrow> u8 \<Rightarrow> u32 \<Rightarrow> u8 list \<Rightarrow> 'v \<Rightarrow> bool" where
  "keeps_new_file ff p d name v \<longleftrightarrow>
     (\<exists>f obj v1. ff_open ff p d name (FA_WRITE OR FA_CREATE_NEW) v = (FR_OK, f, obj, v1) \<and> file_bytes f = [] \<and> fl_ptr f = 0 \<and> fl_write f \<and>
        (\<forall>g. \<exists>v2 h obj2 v3. ff_close ff g obj v1 = (FR_OK, v2) \<and> ff_open ff p d name FA_READ v2 = (FR_OK, h, obj2, v3) \<and>
           fl_ptr h = 0 \<and> file_bytes h = file_bytes g))"

lemma mem_ff_keeps: "name \<notin> fst ` set v \<Longrightarrow> keeps_new_file mem_ff p d name v"
proof -
  assume n: "name \<notin> fst ` set v"
  then have "map_of v name = None" by (simp add: map_of_eq_None_iff)
  then have "map_of (v @ [(name, xs)]) name = Some xs" for xs by (simp add: map_add_def)
  with n show ?thesis by (auto simp: keeps_new_file_def mem_ff_def mem_fil_def [of "[]"] file_bytes_def [of "\<lparr>fl_data = _, fl_size = 0, fl_ptr = 0, fl_write = True\<rparr>"] mem_read_def) (simp_all add: mem_fil_def)
qed

text \<open>A drive with one volume, on which some files exist; the first buffer is in use and holds data.\<close>

definition fat0 :: "(u8 list \<times> u8 list) list \<Rightarrow> (u8 list \<times> u8 list) list fatdrive" where
  "fat0 v = \<lparr>ops_scratch = replicate 33 0, eeprom = (\<lambda>_. 0xff), used_sectors = replicate 7 0,
     used_entries = [0], free_sectors = 52,
     buffers = (buf_zero 256)\<lparr>b_allocated := True\<rparr> # replicate 31 (buf_zero 256) @ [buf_zero CONFIG_ERROR_BUFFER_SIZE],
     active_buffers = 1, current_error = 0, led_state = 0, busy_led = False, dirty_led = False,
     partitions = [part_zero], current_part = 0, max_part = 1,
     eefs_partition = 255, bam_buffer = None, bam_buffer2 = None, bam_refcount = 0, ec_part = 0,
     ec_track = 0, ec_errors = replicate 40 0, io_script = [],
     rtc = new_year_eve,
     file_extension_mode = 0, image_as_dir = 0, extension_hiding = False, postmatch = False,
     rom_filename = [], versionstr = [], longverstr = [],
     flags_rest = 0, device_address = 8, active_bus = 0, menu_system_enabled = 0, lcd_contrast = 0, lcd_brightness = 0,
     key_sel = False, key_next = False,
     command_buffer = replicate (CONFIG_COMMAND_BUFFER_SIZE + 2) 0, command_length = 0, original_length = 0,
     matchdh = \<lparr>dh_part = 0, dh_fat = fatdir_zero, dh_d64 = d64dh_zero, dh_eefs = 0\<rparr>,
     date_match_start = date_zero, date_match_end = date_zero, previous_file_dirent = dirent_zero,
     previous_file_path = \<lparr>path_part = 0, path_dir = pt_current_dir part_zero\<rparr>, dir_changed = False, disk_state = DISK_OK,
     rtc_state = RTC_OK, datacrc = 0, detected_loader = FL_NONE, previous_loader = FL_NONE, fast_rxtx = RXTX_NONE,
     capture_buffer = None, capture_address = 0, capture_remain = 0, capture_offset = 0, was_reset = False,
     stack_dirent = dirent_zero,
     volume = v, curr_dir = (\<lambda>_. 0), img_obj = (\<lambda>_. 0),
     p00 = \<lparr>p00cache = replicate 200 \<lparr>p_cluster = 0, p_name = replicate 16 0\<rparr>, cache_part = 0xff, p00_entries = 0\<rparr>\<rparr>"

definition hello :: cbmdirent_t where
  "hello = dirent_zero\<lparr>ce_name := str ''HELLO'' @ replicate 12 0\<rparr>"

definition root_dir :: path_t where
  "root_dir = \<lparr>path_part = 0, path_dir = pt_current_dir part_zero\<rparr>"

lemma build_name_hello: "build_name 0 (cstr (ce_name hello)) 2 = Some (str ''hello'', None)"
  by (simp add: hello_def cstr_def build_name_def pet2asc_char_def check_imageext_def is_valid_fat_char_def is_valid_fat_name_def first_char_def Let_def)

lemma fresh_fat0: "fresh_buf 0 (fat0 v)"
  by (simp add: fresh_buf_def fat0_def buf_zero_def fat_zero_def)

section \<open>Properties\<close>



text \<open>
  C20. Writing a buffer of a sequential file puts its bytes at the position of the channel: at the end of the file they
  are appended, and behind the end the gap is filled with zero bytes first, in as many rounds as it takes.  The
  channel then stands at the end of the file with a clean buffer.
\<close>

theorem fat_file_write_extends:
  assumes "holds_block i n s" "unat (headersize i s) \<le> fl_size (fh i s)" "fl_size (fh i s) + g + 254 < 2 ^ 32"
    "unat (b_fptr (buf i s)) = fl_size (fh i s) - unat (headersize i s) + g" "g = 0 \<longrightarrow> fl_ptr (fh i s) = fl_size (fh i s)"
  shows "\<exists>s'. fat_file_write ff i s = Some (0, s') \<and> at_end i s' \<and> volume s' = volume s \<and>
    file_bytes (fh i s') = file_bytes (fh i s) @ replicate g 0 @ take n (drop 2 (b_data (buf i s))) \<and>
    \<not> b_mustflush (buf i s') \<and> \<not> b_dirty (buf i s')"
proof (cases "g = 0")
  case True
  have "unat (of_nat (fl_size (fh i s)) :: u32) = fl_size (fh i s)" using assms(3) by (intro unat_of_nat_u32) simp
  then have "unat (of_nat (fl_size (fh i s)) - ucast (headersize i s) :: u32) = fl_size (fh i s) - unat (headersize i s)"
    using assms(2) by (subst unat_sub) (simp_all add: word_le_nat_alt)
  then have "at_end i s" using assms(4,5) True by (simp add: at_end_def word_unat_eq_iff)
  from fat_file_write_append [OF assms(1) this, of ff] True show ?thesis by (auto simp: keeps_def block_of_def)
next
  case False
  then show ?thesis using fat_file_write_gap [OF assms(1,2) _ assms(3,4), of ff] by (auto simp: keeps_def block_of_def)
qed

theorem fat_file_write_extends_witness:
  "\<exists>s'. fat_file_write mem_ff 0 (upd_buf 0 (\<lambda>b. b\<lparr>b_fptr := 5, b_position := 4, b_data := [0, 0, 7, 8] @ replicate 252 0,
       b_fat := (b_fat b)\<lparr>fp_fh := mem_fil [1, 2] True\<rparr>\<rparr>) (fat0 [])) = Some (0, s') \<and>
     file_bytes (fh 0 s') = [1, 2, 0, 0, 0, 7, 8]"
proof -
  let ?s = "upd_buf 0 (\<lambda>b. b\<lparr>b_fptr := 5, b_position := 4, b_data := [0, 0, 7, 8] @ replicate 252 0,
       b_fat := (b_fat b)\<lparr>fp_fh := mem_fil [1, 2] True\<rparr>\<rparr>) (fat0 [])"
  have b: "buf 0 ?s = (buf_zero 256)\<lparr>b_allocated := True, b_fptr := 5, b_position := 4, b_data := [0, 0, 7, 8] @ replicate 252 0,
       b_fat := fat_zero\<lparr>fp_fh := mem_fil [1, 2] True\<rparr>\<rparr>"
    by (simp add: upd_buf_def fat0_def buf_zero_def)
  have h: "holds_block 0 2 ?s" unfolding holds_block_def b by (simp add: fat0_def upd_buf_def buf_zero_def mem_fil_def)
  have f: "fl_size (fh 0 ?s) = 2" "headersize 0 ?s = 0" "b_fptr (buf 0 ?s) = 5" "file_bytes (fh 0 ?s) = [1, 2]"
    "take 2 (drop 2 (b_data (buf 0 ?s))) = [7, 8]"
    unfolding b by (simp_all add: fat_zero_def mem_fil_def [of _ True, THEN arg_cong [of _ _ fl_size]])
  have "\<exists>s'. fat_file_write mem_ff 0 ?s = Some (0, s') \<and> at_end 0 s' \<and> volume s' = volume ?s \<and>
    file_bytes (fh 0 s') = file_bytes (fh 0 ?s) @ replicate 3 0 @ take 2 (drop 2 (b_data (buf 0 ?s))) \<and>
    \<not> b_mustflush (buf 0 s') \<and> \<not> b_dirty (buf 0 s')"
    by (rule fat_file_write_extends [OF h]) (simp_all only: f, simp_all)
  then show ?thesis unfolding f by (auto simp: numeral_3_eq_3)
qed



text \<open>
  C38. The name of a new file.  A name with a PC64 extension is created with the first number from 00 to 99 that is
  free, and refused when all are taken.  A name without one that exists under a different spelling is tried forever.
\<close>

theorem create_file_names:
  assumes "build_name (file_extension_mode s) (cstr (ce_name dent)) ty = Some (name, ext)"
    "p = path_part path" "mode = FA_WRITE OR FA_CREATE_NEW"
  shows "(ext = None \<and> taken ff p mode (chdir_to path s) name \<longrightarrow> create_file ff path dent ty i 0 s = None) \<and>
    (ext \<noteq> None \<longrightarrow> (\<exists>base. name = x00_name base 0 \<and>
       (\<forall>k < 100. (\<forall>j < k. taken ff p mode (chdir_to path s) (x00_name base j)) \<and>
           fst (buf_open ff i p (x00_name base k) mode (chdir_to path s)) \<noteq> FR_EXIST \<longrightarrow>
         create_loop ff i p mode ext name (chdir_to path s) =
           (let (res, s') = buf_open ff i p (x00_name base k) mode (chdir_to path s) in Some (res, x00_name base k, s'))) \<and>
       ((\<forall>j < 100. taken ff p mode (chdir_to path s) (x00_name base j)) \<longrightarrow> (\<exists>s'. create_file ff path dent ty i 0 s = Some (FR_EXIST, s')))))"
proof (intro conjI impI; (elim conjE)?)
  assume "ext = None" "taken ff p mode (chdir_to path s) name"
  then have "create_loop ff i (path_part path) (FA_WRITE OR FA_CREATE_NEW) None name (chdir_to path s) = None"
    unfolding assms(2,3) by (intro create_loop_same)
  then show "create_file ff path dent ty i 0 s = None" using assms(1) \<open>ext = None\<close> by (simp add: create_file_def)
next
  assume e: "ext \<noteq> None"
  obtain base where b: "name = x00_name base 0" "ext = Some (length base + 1)"
    using build_name_x00 [OF assms(1) e] by blast
  let ?s = "chdir_to path s"
  have 1: "create_loop ff i p mode ext name ?s = (let (res, s') = buf_open ff i p (x00_name base k) mode ?s in Some (res, x00_name base k, s'))"
    if "k < 100" "\<forall>j < k. taken ff p mode ?s (x00_name base j)" "fst (buf_open ff i p (x00_name base k) mode ?s) \<noteq> FR_EXIST" for k
    unfolding b using that by (intro create_loop_free) simp_all
  have 2: "\<exists>s'. create_file ff path dent ty i 0 s = Some (FR_EXIST, s')" if "\<forall>j < 100. taken ff p mode ?s (x00_name base j)"
  proof -
    have "\<exists>nm s'. create_loop ff i p mode ext name ?s = Some (FR_EXIST, nm, s')"
      unfolding b by (rule create_loop_all_taken) (simp_all add: that)
    then obtain nm s' where "create_loop ff i p mode ext name ?s = Some (FR_EXIST, nm, s')" by blast
    then show ?thesis using assms(1) unfolding assms(2,3) by (simp add: create_file_def)
  qed
  show "\<exists>base. name = x00_name base 0 \<and>
       (\<forall>k < 100. (\<forall>j < k. taken ff p mode ?s (x00_name base j)) \<and> fst (buf_open ff i p (x00_name base k) mode ?s) \<noteq> FR_EXIST \<longrightarrow>
         create_loop ff i p mode ext name ?s = (let (res, s') = buf_open ff i p (x00_name base k) mode ?s in Some (res, x00_name base k, s'))) \<and>
       ((\<forall>j < 100. taken ff p mode ?s (x00_name base j)) \<longrightarrow> (\<exists>s'. create_file ff path dent ty i 0 s = Some (FR_EXIST, s')))"
    using b(1) 1 2 by blast
qed

theorem create_file_names_witness:
  "create_file mem_ff root_dir hello 2 0 0 (fat0 [(str ''hello'', [])]) = None"
proof -
  let ?s = "fat0 [(str ''hello'', [])]"
  have "build_name (file_extension_mode ?s) (cstr (ce_name hello)) 2 = Some (str ''hello'', None)"
    using build_name_hello by (simp add: fat0_def)
  moreover have "taken mem_ff 0 (FA_WRITE OR FA_CREATE_NEW) (chdir_to root_dir ?s) (str ''hello'')"
    by (simp add: taken_def chdir_to_def fat0_def mem_ff_def)
  ultimately show ?thesis
    using create_file_names [of ?s hello 2 "str ''hello''" None 0 root_dir "FA_WRITE OR FA_CREATE_NEW" mem_ff 0] by (simp add: root_dir_def)
qed

text \<open>
  The date of a file: a file stamped by \<open>get_fattime\<close> with a time between 1980 and 2107 is listed by
  \<open>fat_readdir\<close> with the year, month, day, hour and minute of this time and its seconds rounded down to even ones.
\<close>

theorem fat_date_of_stamp:
  assumes "tm_ok t" "80 \<le> tm_year t" "tm_year t < 208"
    "fi_fdate fi = ucast (drop_bit 16 (get_fattime t))" "fi_ftime fi = ucast (get_fattime t)"
  shows "fat_date fi = \<lparr>d_year = tm_year t, d_month = tm_mon t + 1, d_day = tm_mday t, d_hour = tm_hour t, d_minute = tm_min t,
    d_second = 2 * (tm_sec t div 2)\<rparr>"
proof -
  note b = tm_okD [OF assms(1)]
  define y mo d h mi sc where "y = unat (tm_year t) - 80" and "mo = unat (tm_mon t) + 1" and "d = unat (tm_mday t)"
    and "h = unat (tm_hour t)" and "mi = unat (tm_min t)" and "sc = unat (tm_sec t) div 2"
  have r: "y < 128" "mo < 16" "d < 32" "h < 32" "mi < 64" "sc < 32"
    using b assms(2,3) by (simp_all add: y_def mo_def d_def h_def mi_def sc_def word_le_nat_alt word_less_nat_alt)
  have g: "unat (get_fattime t) = ((y * 16 + mo) * 32 + d) * 65536 + ((h * 64 + mi) * 32 + sc)"
    using get_fattime_fields [OF assms(1-3)] by (simp add: stamp_of_def y_def mo_def d_def h_def mi_def sc_def)
  have lo: "(h * 64 + mi) * 32 + sc < 65536" using r by simp
  have D: "unat (fi_fdate fi) = (y * 16 + mo) * 32 + d"
  proof -
    have "unat (drop_bit 16 (get_fattime t)) = (y * 16 + mo) * 32 + d"
      using lo unfolding drop_bit_eq_div by (simp only: unat_div g) simp
    then show ?thesis using r unfolding assms(4) by (simp add: unsigned_ucast_eq take_bit_nat_eq_self_iff)
  qed
  have T: "unat (fi_ftime fi) = (h * 64 + mi) * 32 + sc"
  proof -
    have g': "(a * k + x) mod k = x" if "x < k" for a k x :: nat using that by simp
    have "unat (fi_ftime fi) = unat (get_fattime t) mod 65536" unfolding assms(5) by (simp add: unsigned_ucast_eq take_bit_eq_mod)
    also have "\<dots> = (h * 64 + mi) * 32 + sc" unfolding g by (rule g' [OF lo])
    finally show ?thesis .
  qed
  have m: "unat (x AND 0x1f :: u16) = unat x mod 32" "unat (x AND 0x0f :: u16) = unat x mod 16" "unat (x AND 0x3f :: u16) = unat x mod 64" for x
  proof -
    have "x AND 0x1f = take_bit 5 x" "x AND 0x0f = take_bit 4 x" "x AND 0x3f = take_bit 6 x"
      by (simp_all add: take_bit_eq_mask mask_eq_exp_minus_1)
    then show "unat (x AND 0x1f) = unat x mod 32" "unat (x AND 0x0f) = unat x mod 16" "unat (x AND 0x3f) = unat x mod 64"
      by (simp_all add: take_bit_eq_mod unat_mod)
  qed
  have q: "(a * k + x) mod k = x" "(a * k + x) div k = a" if "x < k" for a k x :: nat using that by simp_all
  have fields: "((y * 16 + mo) * 32 + d) div 32 mod 16 = mo" "((y * 16 + mo) * 32 + d) mod 32 = d"
    "((h * 64 + mi) * 32 + sc) div 32 mod 64 = mi" "((h * 64 + mi) * 32 + sc) mod 32 = sc"
    using r by (simp_all only: q)
  have top: "((y * 16 + mo) * 32 + d) div 512 = y" "((h * 64 + mi) * 32 + sc) div 2048 = h" using r by simp_all
  have dv: "unat (drop_bit 9 (fi_fdate fi)) = y" "unat (drop_bit 5 (fi_fdate fi)) mod 16 = mo" "unat (fi_fdate fi) mod 32 = d"
    "unat (drop_bit 11 (fi_ftime fi)) = h" "unat (drop_bit 5 (fi_ftime fi)) mod 64 = mi" "unat (fi_ftime fi) mod 32 = sc"
    using r unfolding drop_bit_eq_div by (simp_all add: unat_div D T fields top del: distrib_left_numeral distrib_right_numeral add_mult_distrib)
  have c: "ucast (x :: u16) = (of_nat (unat x) :: u8)" for x by simp
  have "ucast (drop_bit 9 (fi_fdate fi)) + 80 = tm_year t"
  proof -
    have "of_nat (y + 80) = tm_year t" using assms(2) by (simp add: y_def word_le_nat_alt)
    then show ?thesis unfolding c dv by simp
  qed
  moreover have "push_bit 1 (fi_ftime fi AND 0x1f) = of_nat (2 * sc)"
  proof -
    have "unat (fi_ftime fi AND 0x1f) = sc" using m dv by simp
    then have "fi_ftime fi AND 0x1f = of_nat sc" using r by (simp add: word_unat_eq_iff unat_of_nat_u16)
    then show ?thesis by (simp add: push_bit_eq_mult)
  qed
  moreover have "unat (of_nat (2 * sc) :: u16) = 2 * sc" using r by (intro unat_of_nat_u16) simp
  moreover have "of_nat (2 * sc) = 2 * (tm_sec t div 2)"
  proof -
    have "of_nat (unat (tm_sec t div 2)) = tm_sec t div 2" by simp
    then show ?thesis by (simp add: sc_def unat_div_u8)
  qed
  ultimately show ?thesis unfolding fat_date_def c m dv by (simp add: mo_def d_def h_def mi_def)
qed

theorem fat_date_of_stamp_witness:
  "fat_date \<lparr>fi_fsize = 0, fi_fdate = ucast (drop_bit 16 (get_fattime new_year_eve)), fi_ftime = ucast (get_fattime new_year_eve),
     fi_fattrib = 0, fi_clust = 0, fi_fname = [], fi_lfn = []\<rparr> =
   \<lparr>d_year = 118, d_month = 12, d_day = 31, d_hour = 23, d_minute = 59, d_second = 58\<rparr>"
proof -
  have "tm_ok new_year_eve" "80 \<le> tm_year new_year_eve" "tm_year new_year_eve < 208"
    by (simp_all add: tm_ok_def new_year_eve_def)
  then show ?thesis by (subst fat_date_of_stamp [of new_year_eve]) (simp_all, simp_all add: new_year_eve_def)
qed

text \<open>
  C39. PC64 files keep the name they were saved under: the header that \<open>create_file\<close> writes for a name is
  recognised when the directory is read, which gives this name again, and enters it into the name cache, so that
  the file need not be opened the next time.
\<close>

theorem p00_name_recognised:
  assumes "length name = 17" "0xa0 \<notin> set (take 16 name)" "p00cache_lookup p clust (p00 s) = None"
    "ff_opencluster ff p clust (volume s) = (FR_OK, f, obj)" "fl_ptr f = 0" "take 26 (file_bytes f) = p00_header name rl"
    "io_script s = []" "length (ops_scratch s) = 33" "unat p < length (partitions s)"
  shows "\<exists>s'. p00_name ff p clust s = Some (Inr (take 16 (pad17 (cstr (take 16 name)))), s') \<and>
    (p00_entries (p00 s) < 200 \<and> p00_ok (p00 s) \<longrightarrow>
       p00cache_lookup p clust (p00 s') = Some (take 16 (pad17 (cstr (take 16 name)))))"
proof -
  define nm where "nm = cstr (take 16 name)"
  define N where "N = take 16 (pad17 nm)"
  have l: "length nm \<le> 16" using length_takeWhile_le [of "\<lambda>b. b \<noteq> 0" "take 16 name"] assms(1) by (simp add: nm_def cstr_def)
  then have lN: "length N = 16" by (simp add: N_def pad17_def)
  have hl: "length (p00_header name rl) = 26" using assms(1) by (simp add: p00_header_def p00marker_def)
  define s1 where "s1 = (upd_image p (\<lambda>_. f) s)\<lparr>img_obj := (img_obj s)(p := obj)\<rparr>"
  have i1: "image p s1 = f" "io_script s1 = []" "ops_scratch s1 = ops_scratch s" "p00 s1 = p00 s" "length (partitions s1) = length (partitions s)"
    using assms(7,9) by (simp_all add: s1_def upd_image_def upd_part_def)
  have "26 \<le> fl_size f" using hl assms(6) length_file_bytes [of f] by (metis length_take min.cobounded1)
  then have r: "fil_read 26 f s1 = (FR_OK, p00_header name rl, f\<lparr>fl_ptr := 26\<rparr>, s1)"
    using i1 assms(5,6) mem_read_bytes [of 0 26 f] by (simp add: fil_read_def next_io_def Let_def min_absorb1)
  define s2 where "s2 = (upd_image p (\<lambda>_. f\<lparr>fl_ptr := 26\<rparr>) s1)\<lparr>ops_scratch := put_at 0 (p00_header name rl) (ops_scratch s)\<rparr>"
  have o2: "ops_scratch s2 = p00_header name rl @ drop 26 (ops_scratch s)" "p00 s2 = p00 s"
    using hl i1 by (simp_all add: s2_def put_at_def upd_image_def upd_part_def)
  have mk: "take 7 (ops_scratch s2) = p00marker" by (simp add: o2 p00_header_def p00marker_def)
  have "drop 8 (ops_scratch s2) = take 16 name @ 0 # rl # drop 26 (ops_scratch s)"
    by (simp add: o2 p00_header_def p00marker_def)
  then have nm: "cstr (drop 8 (ops_scratch s2)) = nm"
    unfolding cstr_def nm_def by (simp add: takeWhile_append) (metis (mono_tags, lifting) takeWhile_eq_all_conv)
  have "set nm \<subseteq> set (take 16 name)" unfolding nm_def cstr_def by (auto dest!: set_takeWhileD simp del: set_take_subset)
  then have a0: "map (\<lambda>c. if c = 0xa0 then 0 else c) N = N"
    using assms(2) by (intro map_idI) (auto simp: N_def pad17_def dest!: in_set_takeD)
  define s3 where "s3 = s2\<lparr>p00 := p00cache_add p clust N (p00 s)\<rparr>"
  have "p00_name ff p clust s = Some (Inr N, s3)"
    using r i1 mk nm l a0 unfolding p00_name_def assms(3,4) s3_def o2(2) [symmetric]
    by (simp only: Let_def prod.case option.case s1_def [symmetric] i1(1) P00_HEADER_SIZE_def r s2_def [symmetric] N_def
          P00_CBMNAME_OFFSET_def i1(3)) (simp add: assms(3) o2(2))
  moreover have "p00cache_lookup p clust (p00 s3) = Some N" if "p00_entries (p00 s) < 200" "p00_ok (p00 s)"
    using p00cache_add_lookup [of "p00 s" N p clust p clust] that lN assms(3) by (simp add: s3_def)
  ultimately show ?thesis unfolding N_def nm_def by blast
qed

theorem p00_name_recognised_witness:
  "\<exists>s'. p00_name mem_ff 0 0 (fat0 [(str ''hello.p00'', p00_header (ce_name hello) 0 @ [1, 2])]) =
      Some (Inr (str ''HELLO'' @ replicate 11 0), s') \<and>
    p00cache_lookup 0 0 (p00 s') = Some (str ''HELLO'' @ replicate 11 0)"
proof -
  let ?v = "[(str ''hello.p00'', p00_header (ce_name hello) 0 @ [1, 2])]"
  let ?f = "mem_fil (p00_header (ce_name hello) 0 @ [1, 2]) False"
  have n: "take 16 (pad17 (cstr (take 16 (ce_name hello)))) = str ''HELLO'' @ replicate 11 0" "length (ce_name hello) = 17"
    "0xa0 \<notin> set (take 16 (ce_name hello))"
    by (simp_all add: hello_def cstr_def pad17_def)
  have "length (p00_header (ce_name hello) 0) = 26" using n by (simp add: p00_header_def p00marker_def)
  then have t: "take 26 (file_bytes ?f) = p00_header (ce_name hello) 0" by simp
  have o: "ff_opencluster mem_ff 0 0 (volume (fat0 ?v)) = (FR_OK, ?f, 0)" "fl_ptr ?f = 0"
    by (simp_all add: mem_ff_def fat0_def mem_fil_def)
  have s: "p00cache_lookup 0 0 (p00 (fat0 ?v)) = None" "p00_entries (p00 (fat0 ?v)) < 200" "p00_ok (p00 (fat0 ?v))"
    "io_script (fat0 ?v) = []" "length (ops_scratch (fat0 ?v)) = 33" "unat (0 :: u8) < length (partitions (fat0 ?v))"
    by (simp_all add: fat0_def p00cache_lookup_def p00_ok_def)
  show ?thesis using p00_name_recognised [OF n(2,3) s(1) o t s(4-6)] s(2,3) unfolding n(1) by blast
qed

end
