(* ===== verification/Sdcard.thy ===== *)
theory Sdcard
  imports Doscmd_System
begin

text \<open>
  The SD card driver: \<^verbatim>\<open>sdcard.c\<close> on top of the byte exchange of \<^verbatim>\<open>avr/spi.c\<close>.

  The card is an environment that is known only by its traces: \<open>miso n\<close> is the byte received in exchange number
  \<open>n\<close>, and \<open>clock n\<close>, \<open>detect n\<close> and \<open>wprot n\<close> are the tick counter and the switches of the card holder as they are
  read after \<open>n\<close> exchanges.  The state keeps the number of exchanges and a record of all bytes that were sent with
  the device that was selected.  The configuration is that of petSD+: one card, data transfer interleaved with the
  checksum, ten attempts.  \<open>None\<close> is undefined behaviour or a loop that never ends.
\<close>

unbundle bit_operations_syntax

record sd_env =
  miso :: "nat \<Rightarrow> u8"
  clock :: "nat \<Rightarrow> u16"
  detect :: "nat \<Rightarrow> bool"
  wprot :: "nat \<Rightarrow> bool"

record sd_state =
  exchanges :: nat
  mosi :: "(u8 \<times> u8) list"
  spi_device :: u8
  spi_fast :: bool
  sd_led :: bool
  cardtype :: u8
  card_state :: diskstates

definition MAX_CARDS :: u8 where [simp]: "MAX_CARDS = 1"
definition CONFIG_SD_AUTO_RETRIES :: nat where [simp]: "CONFIG_SD_AUTO_RETRIES = 10"
definition CARD_TIMEOUT_TICKS :: u16 where [simp]: "CARD_TIMEOUT_TICKS = 100"
definition GO_IDLE_STATE :: u8 where [simp]: "GO_IDLE_STATE = 0x40"
definition SEND_OP_COND :: u8 where [simp]: "SEND_OP_COND = 0x41"
definition SEND_IF_COND :: u8 where [simp]: "SEND_IF_COND = 0x48"
definition SEND_CSD :: u8 where [simp]: "SEND_CSD = 0x49"
definition SET_BLOCKLEN :: u8 where [simp]: "SET_BLOCKLEN = 0x50"
definition READ_SINGLE_BLOCK :: u8 where [simp]: "READ_SINGLE_BLOCK = 0x51"
definition WRITE_BLOCK :: u8 where [simp]: "WRITE_BLOCK = 0x58"
definition APP_CMD :: u8 where [simp]: "APP_CMD = 0x77"
definition READ_OCR :: u8 where [simp]: "READ_OCR = 0x7a"
definition CRC_ON_OFF :: u8 where [simp]: "CRC_ON_OFF = 0x7b"
definition SD_SEND_OP_COND :: u8 where [simp]: "SD_SEND_OP_COND = 0x69"
definition STATUS_CRC_ERROR :: u8 where [simp]: "STATUS_CRC_ERROR = 8"
definition CARD_MMCSD :: u8 where [simp]: "CARD_MMCSD = 0"
definition CARD_SDHC :: u8 where [simp]: "CARD_SDHC = 1"
definition STA_NOINIT :: u8 where [simp]: "STA_NOINIT = 1"
definition STA_NODISK :: u8 where [simp]: "STA_NODISK = 2"
definition STA_PROTECT :: u8 where [simp]: "STA_PROTECT = 4"
definition DISK_TYPE_SD :: u8 where [simp]: "DISK_TYPE_SD = 2"

section \<open>Transfers\<close>

definition spi_exchange_byte :: "sd_env \<Rightarrow> u8 \<Rightarrow> sd_state \<Rightarrow> u8 \<times> sd_state" where
  "spi_exchange_byte e b s =
     (miso e (exchanges s), s\<lparr>exchanges := Suc (exchanges s), mosi := mosi s @ [(spi_device s, b)]\<rparr>)"

definition spi_tx_byte :: "sd_env \<Rightarrow> u8 \<Rightarrow> sd_state \<Rightarrow> sd_state" where
  "spi_tx_byte e b s = snd (spi_exchange_byte e b s)"

definition spi_rx_byte :: "sd_env \<Rightarrow> sd_state \<Rightarrow> u8 \<times> sd_state" where
  "spi_rx_byte e s = spi_exchange_byte e 0xff s"

fun spi_tx_block :: "sd_env \<Rightarrow> u8 list \<Rightarrow> sd_state \<Rightarrow> sd_state" where
  "spi_tx_block e [] s = s"
| "spi_tx_block e (b # bs) s = spi_tx_block e bs (spi_tx_byte e b s)"

fun spi_rx_block :: "sd_env \<Rightarrow> nat \<Rightarrow> sd_state \<Rightarrow> u8 list \<times> sd_state" where
  "spi_rx_block e 0 s = ([], s)"
| "spi_rx_block e (Suc n) s =
     (let (b, s) = spi_rx_byte e s; (bs, s) = spi_rx_block e n s in (b # bs, s))"

definition spi_select_device :: "u8 \<Rightarrow> sd_state \<Rightarrow> sd_state" where
  "spi_select_device d s = s\<lparr>spi_device := d\<rparr>"

definition getticks :: "sd_env \<Rightarrow> sd_state \<Rightarrow> u16" where
  "getticks e s = clock e (exchanges s)"

text \<open>The difference of two signed 16 bit counters, as the two's complement arithmetic of the processor forms it.\<close>

definition time_before :: "u16 \<Rightarrow> u16 \<Rightarrow> bool" where
  "time_before a b \<longleftrightarrow> sint (a - b) < 0"

section \<open>Utility functions\<close>

definition val8 :: "u32 \<Rightarrow> u8 list" where
  "val8 v = [ucast v, ucast (drop_bit 8 v), ucast (drop_bit 16 v), ucast (drop_bit 24 v)]"

definition val32 :: "u8 list \<Rightarrow> u32" where
  "val32 bs = foldr (\<lambda>b v. push_bit 8 v OR ucast b) bs 0"

definition swap_word :: "u32 \<Rightarrow> u32" where
  "swap_word input = val32 (rev (val8 input))"

text \<open>The loop of \<open>getbits\<close> over whole bytes and what follows it; \<open>None\<close> is a read outside the buffer.\<close>

function getbits_loop :: "u8 list \<Rightarrow> nat \<Rightarrow> int \<Rightarrow> u32 \<Rightarrow> u32 option" where
  "getbits_loop bs start bits result =
     (if bits \<ge> 8 then
        (if start div 8 < length bs
         then getbits_loop bs (start + 8) (bits - 8) (push_bit 8 result + ucast (bs ! (start div 8))) else None)
      else if bits > 0 then
        (if start div 8 < length bs
         then Some (push_bit (nat bits) result + ucast (drop_bit (nat (8 - bits)) (bs ! (start div 8)))) else None)
      else Some (drop_bit (nat (- bits)) result))"
  by auto
termination by (relation "measure (\<lambda>(bs, start, bits, result). nat bits)") auto

declare getbits_loop.simps [simp del]

definition getbits :: "u8 list \<Rightarrow> nat \<Rightarrow> int \<Rightarrow> u32 option" where
  "getbits bs start bits =
     (if start mod 8 \<noteq> 0 then
        (if start div 8 < length bs
         then getbits_loop bs (start + (8 - start mod 8)) (bits - int (8 - start mod 8))
                (ucast (bs ! (start div 8) AND drop_bit (start mod 8) 0xff))
         else None)
      else getbits_loop bs start bits 0)"

text \<open>One bit of the seven bit checksum; the top bit of the checksum is cleared after the last bit.\<close>

definition crc7_bit :: "u8 \<times> u8 \<Rightarrow> u8 \<times> u8" where
  "crc7_bit = (\<lambda>(crc, data).
     (let crc = push_bit 1 crc;
          crc = (if bit data 7 then crc XOR 0x80 else crc)
      in (if bit crc 7 then crc XOR 0x09 else crc, push_bit 1 data)))"

definition crc7update :: "u8 \<Rightarrow> u8 \<Rightarrow> u8" where
  "crc7update crc data = fst ((crc7_bit ^^ 8) (crc, data)) AND 0x7f"

definition crc_xmodem_bit :: "u16 \<Rightarrow> u16" where
  "crc_xmodem_bit crc = (if bit crc 15 then push_bit 1 crc XOR 0x1021 else push_bit 1 crc)"

definition crc_xmodem_update :: "u16 \<Rightarrow> u8 \<Rightarrow> u16" where
  "crc_xmodem_update crc data = (crc_xmodem_bit ^^ 8) (crc XOR push_bit 8 (ucast data))"

section \<open>Internal functions\<close>

definition sd_change_handler :: "sd_env \<Rightarrow> sd_state \<Rightarrow> sd_state" where
  "sd_change_handler e s = s\<lparr>card_state := (if detect e (exchanges s) then DISK_CHANGED else DISK_REMOVED)\<rparr>"

partial_function (option) expect_loop :: "sd_env \<Rightarrow> u8 \<Rightarrow> u16 \<Rightarrow> sd_state \<Rightarrow> (bool \<times> sd_state) option" where
  "expect_loop e value timeout s =
     (let (b, s) = spi_rx_byte e s in
      if b \<noteq> value \<and> time_before (getticks e s) timeout then expect_loop e value timeout s
      else Some (b = value, s))"

definition expect_byte :: "sd_env \<Rightarrow> u8 \<Rightarrow> sd_state \<Rightarrow> (bool \<times> sd_state) option" where
  "expect_byte e value s = expect_loop e value (getticks e s + CARD_TIMEOUT_TICKS) s"

definition deselect_card :: "sd_env \<Rightarrow> sd_state \<Rightarrow> sd_state" where
  "deselect_card e s =
     (let s = (spi_select_device 0 s)\<lparr>sd_led := False\<rparr> in snd (spi_rx_byte e (snd (spi_rx_byte e (snd (spi_rx_byte e s))))))"

text \<open>\<open>drv\<close> is not looked at: there is one card.\<close>

definition sd_wrprot :: "sd_env \<Rightarrow> sd_state \<Rightarrow> bool" where
  "sd_wrprot e s = wprot e (exchanges s)"

definition command_crc :: "u8 \<Rightarrow> u32 \<Rightarrow> u8" where
  "command_crc cmd parameter =
     (let crc = crc7update 0 cmd; crc = crc7update crc (val8 parameter ! 3); crc = crc7update crc (val8 parameter ! 2);
          crc = crc7update crc (val8 parameter ! 1); crc = crc7update crc (val8 parameter ! 0)
      in push_bit 1 crc OR 1)"

partial_function (option) response_loop :: "sd_env \<Rightarrow> u16 \<Rightarrow> sd_state \<Rightarrow> (u8 \<times> sd_state) option" where
  "response_loop e timeout s =
     (let (res, s) = spi_rx_byte e s in
      if res AND 0x80 \<noteq> 0 \<and> time_before (getticks e s) timeout then response_loop e timeout s
      else Some (res, s))"

text \<open>The attempts of \<open>send_command\<close> that are left.\<close>

fun command_loop :: "sd_env \<Rightarrow> u8 \<Rightarrow> u8 \<Rightarrow> u32 \<Rightarrow> nat \<Rightarrow> sd_state \<Rightarrow> (u8 \<times> sd_state) option" where
  "command_loop e dev cmd parameter 0 s = None"
| "command_loop e dev cmd parameter (Suc n) s =
     (let s = (spi_select_device (dev + 1) s)\<lparr>sd_led := True\<rparr>;
          s = spi_tx_byte e cmd s;
          s = spi_tx_block e (val8 (swap_word parameter)) s;
          s = spi_tx_byte e (command_crc cmd parameter) s
      in do {
        (res, s) \<leftarrow> response_loop e (getticks e s + CARD_TIMEOUT_TICKS) s;
        (if res AND STATUS_CRC_ERROR \<noteq> 0
         then (if n = 0 then Some (res, deselect_card e s) else command_loop e dev cmd parameter n (deselect_card e s))
         else Some (res, s)) })"

definition send_command :: "sd_env \<Rightarrow> u8 \<Rightarrow> u8 \<Rightarrow> u32 \<Rightarrow> sd_state \<Rightarrow> (u8 \<times> sd_state) option" where
  "send_command e dev cmd parameter s = command_loop e dev cmd parameter CONFIG_SD_AUTO_RETRIES s"

section \<open>External functions\<close>

definition sd_status :: "sd_env \<Rightarrow> sd_state \<Rightarrow> u8" where
  "sd_status e s =
     (if detect e (exchanges s) then (if wprot e (exchanges s) then STA_PROTECT else 0) else STA_NOINIT OR STA_NODISK)"

text \<open>A command and the end of its transfer.\<close>

definition short_command :: "sd_env \<Rightarrow> u8 \<Rightarrow> u8 \<Rightarrow> u32 \<Rightarrow> sd_state \<Rightarrow> (u8 \<times> sd_state) option" where
  "short_command e drv cmd parameter s = do { (res, s) \<leftarrow> send_command e drv cmd parameter s; Some (res, deselect_card e s) }"

text \<open>The attempts to put the card into idle state: \<open>Inl\<close> is the result of a failure.\<close>

fun idle_loop :: "sd_env \<Rightarrow> u8 \<Rightarrow> nat \<Rightarrow> sd_state \<Rightarrow> ((u8 + unit) \<times> sd_state) option" where
  "idle_loop e drv 0 s = Some (Inl STA_NOINIT, s)"
| "idle_loop e drv (Suc n) s =
     (let s = s\<lparr>card_state := DISK_ERROR, cardtype := CARD_MMCSD\<rparr>;
          s = (spi_select_device 0 s)\<lparr>sd_led := False\<rparr>;
          s = spi_tx_block e (replicate 10 0xff) s
      in do {
        (res, s) \<leftarrow> short_command e drv GO_IDLE_STATE 0 s;
        (if res AND 0x80 \<noteq> 0 then Some (Inl STA_NOINIT, s)
         else if res \<noteq> 1 then idle_loop e drv n s
         else Some (Inr (), s)) })"

text \<open>The initialisation of SD cards; the result tells whether the card is one.\<close>

partial_function (option) acmd_loop :: "sd_env \<Rightarrow> u8 \<Rightarrow> u16 \<Rightarrow> sd_state \<Rightarrow> (bool \<times> sd_state) option" where
  "acmd_loop e drv timeout s = do {
     (res, s) \<leftarrow> short_command e drv APP_CMD 0 s;
     (if res \<noteq> 1 then Some (False, s)
      else do {
        (res, s) \<leftarrow> short_command e drv SD_SEND_OP_COND (push_bit 30 1) s;
        (if res = 1 \<and> time_before (getticks e s) timeout then acmd_loop e drv timeout s
         else Some (res = 0, s)) }) }"

partial_function (option) opcond_loop :: "sd_env \<Rightarrow> u8 \<Rightarrow> u16 \<Rightarrow> sd_state \<Rightarrow> (u8 \<times> sd_state) option" where
  "opcond_loop e drv timeout s = do {
     (res, s) \<leftarrow> short_command e drv SEND_OP_COND (push_bit 30 1) s;
     (if res \<noteq> 0 \<and> time_before (getticks e s) timeout then opcond_loop e drv timeout s else Some (res, s)) }"

definition read_ocr :: "sd_env \<Rightarrow> u8 \<Rightarrow> sd_state \<Rightarrow> sd_state option" where
  "read_ocr e drv s = do {
     (res, s) \<leftarrow> send_command e drv READ_OCR 0 s;
     Some (deselect_card e
       (if res \<le> 1 then
          (let (bs, s) = spi_rx_block e 4 s
           in if val32 bs AND swap_word 0x40000000 \<noteq> 0 then s\<lparr>cardtype := CARD_SDHC\<rparr> else s)
        else s)) }"

definition sd_initialize :: "sd_env \<Rightarrow> u8 \<Rightarrow> sd_state \<Rightarrow> (u8 \<times> sd_state) option" where
  "sd_initialize e drv s =
     (if drv \<ge> MAX_CARDS then Some (STA_NOINIT OR STA_NODISK, s)
      else if sd_status e s AND STA_NODISK \<noteq> 0 then Some (sd_status e s, s)
      else do {
        (idle, s) \<leftarrow> idle_loop e drv 3 (s\<lparr>spi_fast := False\<rparr>);
        (case idle of
           Inl st \<Rightarrow> Some (st, s)
         | Inr _ \<Rightarrow> do {
             (res, s) \<leftarrow> send_command e drv SEND_IF_COND 0x1aa s;
             let (ok, s) = (if res = 1
                            then (let (bs, s) = spi_rx_block e 4 s in (drop_bit 8 (swap_word (val32 bs)) AND 0x0f = 1, s)) else (True, s));
             let s = deselect_card e s;
             (if \<not> ok then Some (STA_NOINIT OR STA_NODISK, s)
              else do {
                let s = deselect_card e s;
                (sd, s) \<leftarrow> acmd_loop e drv (getticks e s + CARD_TIMEOUT_TICKS) s;
                s \<leftarrow> (if sd then read_ocr e drv s else Some s);
                (res, s) \<leftarrow> opcond_loop e drv (getticks e s + CARD_TIMEOUT_TICKS) s;
                (if res \<noteq> 0 then Some (STA_NOINIT, s)
                 else do {
                   (res, s) \<leftarrow> short_command e drv CRC_ON_OFF 1 s;
                   (if res > 1 then Some (STA_NOINIT OR STA_NODISK, s)
                    else do {
                      (res, s) \<leftarrow> short_command e drv SET_BLOCKLEN 512 s;
                      (if res \<noteq> 0 then Some (STA_NOINIT, s)
                       else (let s = s\<lparr>spi_fast := True, card_state := DISK_OK\<rparr> in Some (sd_status e s, s))) }) }) }) }) })"

text \<open>
  The address of a sector; \<open>None\<close> is the offset of sector 64 or higher of a transfer, which is shifted out of the
  range of a 16 bit integer.
\<close>

definition card_address :: "u8 \<Rightarrow> u32 \<Rightarrow> nat \<Rightarrow> u32 option" where
  "card_address ct sector k =
     (if ct AND CARD_SDHC \<noteq> 0 then Some (sector + of_nat k)
      else if k < 64 then Some (sector + of_nat (k * 512)) else None)"

definition fail_transfer :: "sd_env \<Rightarrow> sd_state \<Rightarrow> sd_state" where
  "fail_transfer e s = (deselect_card e s)\<lparr>card_state := DISK_ERROR\<rparr>"

text \<open>The attempts that are left to read a sector into its place \<open>data\<close> of the buffer.\<close>

fun read_sector :: "sd_env \<Rightarrow> u8 \<Rightarrow> u32 \<Rightarrow> nat \<Rightarrow> u8 list \<Rightarrow> sd_state \<Rightarrow> (DRESULT \<times> u8 list \<times> sd_state) option" where
  "read_sector e drv addr 0 data s = Some (RES_ERROR, data, deselect_card e s)"
| "read_sector e drv addr (Suc n) data s = do {
     (res, s) \<leftarrow> send_command e drv READ_SINGLE_BLOCK addr s;
     (if res \<noteq> 0 then Some (RES_ERROR, data, fail_transfer e s)
      else do {
        (token, s) \<leftarrow> expect_byte e 0xfe s;
        (if \<not> token then Some (RES_ERROR, data, fail_transfer e s)
         else
           (let (data, s) = spi_rx_block e 512 s; crc = foldl crc_xmodem_update 0 data;
                (h, s) = spi_rx_byte e s; (l, s) = spi_rx_byte e s in
            if push_bit 8 (ucast h) OR ucast l \<noteq> crc then read_sector e drv addr n data (deselect_card e s)
            else Some (RES_OK, data, deselect_card e s))) }) }"

fun read_sectors :: "sd_env \<Rightarrow> u8 \<Rightarrow> u32 \<Rightarrow> nat \<Rightarrow> nat \<Rightarrow> u8 list \<Rightarrow> sd_state \<Rightarrow> (DRESULT \<times> u8 list \<times> sd_state) option" where
  "read_sectors e drv sector k 0 buffer s = Some (RES_OK, buffer, s)"
| "read_sectors e drv sector k (Suc n) buffer s = do {
     addr \<leftarrow> card_address (cardtype s) sector k;
     (res, data, s) \<leftarrow> read_sector e drv addr CONFIG_SD_AUTO_RETRIES (take 512 (drop (512 * k) buffer)) s;
     let buffer = put_at (512 * k) data buffer;
     (if res \<noteq> RES_OK then Some (res, buffer, s) else read_sectors e drv sector (Suc k) n buffer s) }"

definition sd_read :: "sd_env \<Rightarrow> u8 \<Rightarrow> u8 list \<Rightarrow> u32 \<Rightarrow> u8 \<Rightarrow> sd_state \<Rightarrow> (DRESULT \<times> u8 list \<times> sd_state) option" where
  "sd_read e drv buffer sector count s =
     (if drv \<ge> MAX_CARDS then Some (RES_PARERR, buffer, s)
      else read_sectors e drv (if cardtype s = CARD_MMCSD then push_bit 9 sector else sector) 0 (unat count) buffer s)"

partial_function (option) busy_loop :: "sd_env \<Rightarrow> sd_state \<Rightarrow> (u8 \<times> sd_state) option" where
  "busy_loop e s = (let (res, s) = spi_rx_byte e s in if res = 0 then busy_loop e s else Some (res, s))"

fun write_sector :: "sd_env \<Rightarrow> u8 \<Rightarrow> u32 \<Rightarrow> nat \<Rightarrow> u8 list \<Rightarrow> sd_state \<Rightarrow> (DRESULT \<times> sd_state) option" where
  "write_sector e drv addr 0 data s = Some (RES_ERROR, deselect_card e s)"
| "write_sector e drv addr (Suc n) data s = do {
     (res, s) \<leftarrow> send_command e drv WRITE_BLOCK addr s;
     (if res \<noteq> 0 then Some (RES_ERROR, fail_transfer e s)
      else
        (let s = spi_tx_byte e 0xfe s; s = spi_select_device (drv + 1) s; s = spi_tx_block e data s;
             crc = foldl crc_xmodem_update 0 data;
             s = spi_tx_byte e (ucast (drop_bit 8 crc)) s; s = spi_tx_byte e (ucast (crc AND 0xff)) s;
             (res, s) = spi_rx_byte e s in
         if res AND 0x0f \<noteq> 5 then write_sector e drv addr n data (deselect_card e s)
         else do { (_, s) \<leftarrow> busy_loop e s; Some (RES_OK, deselect_card e s) })) }"

fun write_sectors :: "sd_env \<Rightarrow> u8 \<Rightarrow> u32 \<Rightarrow> nat \<Rightarrow> nat \<Rightarrow> u8 list \<Rightarrow> sd_state \<Rightarrow> (DRESULT \<times> sd_state) option" where
  "write_sectors e drv sector k 0 buffer s = Some (RES_OK, s)"
| "write_sectors e drv sector k (Suc n) buffer s = do {
     addr \<leftarrow> card_address (cardtype s) sector k;
     (res, s) \<leftarrow> write_sector e drv addr CONFIG_SD_AUTO_RETRIES (take 512 (drop (512 * k) buffer)) s;
     (if res \<noteq> RES_OK then Some (res, s) else write_sectors e drv sector (Suc k) n buffer s) }"

definition sd_write :: "sd_env \<Rightarrow> u8 \<Rightarrow> u8 list \<Rightarrow> u32 \<Rightarrow> u8 \<Rightarrow> sd_state \<Rightarrow> (DRESULT \<times> sd_state) option" where
  "sd_write e drv buffer sector count s =
     (if drv \<ge> MAX_CARDS then Some (RES_PARERR, s)
      else if sd_wrprot e s then Some (RES_WRPRT, s)
      else write_sectors e drv (if cardtype s = CARD_MMCSD then push_bit 9 sector else sector) 0 (unat count) buffer s)"

text \<open>The number of sectors in the card's CSD register.\<close>

definition csd_capacity :: "u8 \<Rightarrow> u8 list \<Rightarrow> u32 option" where
  "csd_capacity ct csd =
     (if ct AND CARD_SDHC \<noteq> 0 then do { c \<leftarrow> getbits csd (127 - 69) 22; Some ((1 + c) * 1024) }
      else do {
        m \<leftarrow> getbits csd (127 - 49) 3;
        c \<leftarrow> getbits csd (127 - 73) 12;
        l \<leftarrow> getbits csd (127 - 83) 4;
        let exponent = ((2 + ucast m) + (ucast l - 9) :: u8);
        Some (((\<lambda>c. c * 2) ^^ unat exponent) (1 + c)) })"

record diskinfo0_t =
  di_disktype :: u8
  di_sectorsize :: u8
  di_sectorcount :: u32

text \<open>The wait for the data token ends with the first byte that is not zero.\<close>

definition sd_getinfo :: "sd_env \<Rightarrow> u8 \<Rightarrow> u8 \<Rightarrow> sd_state \<Rightarrow> (DRESULT \<times> diskinfo0_t option \<times> sd_state) option" where
  "sd_getinfo e drv page s =
     (if drv \<ge> MAX_CARDS then Some (RES_NOTRDY, None, s)
      else if sd_status e s AND STA_NODISK \<noteq> 0 then Some (RES_NOTRDY, None, s)
      else if page \<noteq> 0 then Some (RES_ERROR, None, s)
      else do {
        (res, s) \<leftarrow> send_command e drv SEND_CSD 0 s;
        (if res \<noteq> 0 then Some (RES_ERROR, None, deselect_card e s)
         else do {
           (_, s) \<leftarrow> busy_loop e s;
           let (csd, s) = spi_rx_block e 18 s;
           capacity \<leftarrow> csd_capacity (cardtype s) csd;
           Some (RES_OK, Some \<lparr>di_disktype = DISK_TYPE_SD, di_sectorsize = 2, di_sectorcount = capacity\<rparr>, deselect_card e s) }) })"

end
