(* ===== verification/Sdcard_Props.thy ===== *)
theory Sdcard_Props
  imports Sdcard
begin

text \<open>
  Correctness of the SD card driver for all traces of a card: what was received or accepted when a transfer succeeds,
  the damage that the checksum detects, and that a transfer with damaged answers succeeds in the end.
\<close>

unbundle bit_operations_syntax

section \<open>Checksums\<close>

lemma bit_crc_xmodem_bit:
  "bit (crc_xmodem_bit c) 0 = bit c 15" "k < 15 \<Longrightarrow> bit (crc_xmodem_bit c) (Suc k) = (bit c k \<noteq> (bit c 15 \<and> bit (0x1021 :: u16) (Suc k)))"
  by (cases "bit c 15"; simp only: crc_xmodem_bit_def if_True if_False bit_xor_iff bit_push_bit_iff; simp)+

lemma inj_crc_xmodem_bit: "inj crc_xmodem_bit"
proof (rule injI, rule bit_word_eqI)
  fix a b :: u16 and k
  assume eq: "crc_xmodem_bit a = crc_xmodem_bit b" and k: "k < LENGTH(16)"
  have top: "bit a 15 = bit b 15" using bit_crc_xmodem_bit(1) [of a] bit_crc_xmodem_bit(1) [of b] eq by simp
  show "bit a k = bit b k"
  proof (cases "k = 15")
    case False
    then have "k < 15" using k by simp
    from bit_crc_xmodem_bit(2) [OF this, of a] bit_crc_xmodem_bit(2) [OF this, of b] show ?thesis using eq top by auto
  qed (simp add: top)
qed

lemma inj_crc_xmodem_bits: "inj (crc_xmodem_bit ^^ n)"
  by (induction n) (auto simp: inj_eq [OF inj_crc_xmodem_bit] inj_on_def)

lemma xor_cancel: "(a :: 'a :: len word) XOR c = b XOR c \<longleftrightarrow> a = b" "c XOR a = c XOR b \<longleftrightarrow> a = b"
  by (auto intro!: bit_word_eqI simp: bit_eq_iff bit_xor_iff)

lemma push_byte_inj: "push_bit 8 (ucast (a :: u8)) = (push_bit 8 (ucast b) :: u16) \<longleftrightarrow> a = b"
proof
  assume eq: "push_bit 8 (ucast a) = (push_bit 8 (ucast b) :: u16)"
  have "bit a k = bit b k" if "k < 8" for k
    using arg_cong [OF eq, of "\<lambda>x. bit x (k + 8)"] that by (simp add: bit_push_bit_iff bit_ucast_iff)
  then show "a = b" by (intro bit_word_eqI) simp
qed simp

lemma crc_xmodem_update_inj:
  "crc_xmodem_update c x = crc_xmodem_update d x \<longleftrightarrow> c = d" "crc_xmodem_update c x = crc_xmodem_update c y \<longleftrightarrow> x = y"
  unfolding crc_xmodem_update_def inj_eq [OF inj_crc_xmodem_bits] xor_cancel push_byte_inj by simp_all

lemma foldl_crc_inj: "foldl crc_xmodem_update c xs = foldl crc_xmodem_update d xs \<longleftrightarrow> c = d"
  by (induction xs arbitrary: c d) (simp_all add: crc_xmodem_update_inj)

text \<open>A change of a single byte always changes the checksum.\<close>

lemma crc_one_byte: "y \<noteq> x \<Longrightarrow> foldl crc_xmodem_update c (xs @ y # zs) \<noteq> foldl crc_xmodem_update c (xs @ x # zs)"
  by (simp add: foldl_crc_inj crc_xmodem_update_inj)

text \<open>
  The frames of the first two commands as the SD specification prints them; \<open>sd_initialize\<close> for two cards sends the
  first checksum as a constant.
\<close>

lemma command_crc_known: "command_crc GO_IDLE_STATE 0 = 0x95" "command_crc SEND_IF_COND 0x1aa = 0x87"
  by code_simp+

section \<open>Transfers\<close>

lemma spi_rx_block_trace:
  "spi_rx_block e n s = (map (miso e) [exchanges s..<exchanges s + n],
     s\<lparr>exchanges := exchanges s + n, mosi := mosi s @ replicate n (spi_device s, 0xff)\<rparr>)"
proof (induction n arbitrary: s)
  case (Suc n)
  have "[exchanges s..<exchanges s + Suc n] = exchanges s # [Suc (exchanges s)..<Suc (exchanges s) + n]" by (subst upt_conv_Cons) simp_all
  then show ?case by (simp add: Suc spi_rx_byte_def spi_exchange_byte_def del: upt_Suc)
qed simp

lemma spi_tx_block_trace:
  "spi_tx_block e bs s = s\<lparr>exchanges := exchanges s + length bs, mosi := mosi s @ map (Pair (spi_device s)) bs\<rparr>"
  by (induction bs arbitrary: s) (simp_all add: spi_tx_byte_def spi_exchange_byte_def)

lemma spi_rx_byte_trace:
  "spi_rx_byte e s = (miso e (exchanges s), s\<lparr>exchanges := Suc (exchanges s), mosi := mosi s @ [(spi_device s, 0xff)]\<rparr>)"
  by (simp add: spi_rx_byte_def spi_exchange_byte_def)

lemma spi_tx_byte_trace:
  "spi_tx_byte e b s = s\<lparr>exchanges := Suc (exchanges s), mosi := mosi s @ [(spi_device s, b)]\<rparr>"
  by (simp add: spi_tx_byte_def spi_exchange_byte_def)

lemma deselect_card_trace:
  "deselect_card e s = s\<lparr>spi_device := 0, sd_led := False, exchanges := exchanges s + 3, mosi := mosi s @ replicate 3 (0, 0xff)\<rparr>"
  by (simp add: deselect_card_def spi_select_device_def spi_rx_byte_trace numeral_3_eq_3)

text \<open>The driver goes on: it sends more, and one byte is received for each byte sent.\<close>

definition goes_on :: "sd_state \<Rightarrow> sd_state \<Rightarrow> bool" where
  "goes_on s s' \<longleftrightarrow> (\<exists>xs. mosi s' = mosi s @ xs \<and> exchanges s' = exchanges s + length xs) \<and> cardtype s' = cardtype s"

definition logged :: "sd_state \<Rightarrow> bool" where
  "logged s \<longleftrightarrow> exchanges s = length (mosi s)"

lemma goes_on_refl [simp]: "goes_on s s"
  by (simp add: goes_on_def)

lemma goes_on_trans [trans]: "goes_on s t \<Longrightarrow> goes_on t u \<Longrightarrow> goes_on s u"
  by (auto simp: goes_on_def)

lemma goes_onD: "goes_on s s' \<Longrightarrow> exchanges s \<le> exchanges s'" "goes_on s s' \<Longrightarrow> logged s \<Longrightarrow> logged s'"
  by (auto simp: goes_on_def logged_def)

lemma goes_on_sent:
  "goes_on s s' \<Longrightarrow> p + n \<le> length (mosi s) \<Longrightarrow> take n (drop p (mosi s')) = take n (drop p (mosi s))"
  by (auto simp: goes_on_def)

lemma goes_on_deselect [simp]: "goes_on s (deselect_card e s)"
  by (simp add: goes_on_def deselect_card_trace)

lemma expect_loop_trace:
  assumes "expect_loop e v timeout s = Some (b, s')"
  shows "goes_on s s' \<and> exchanges s < exchanges s' \<and> b = (miso e (exchanges s' - 1) = v) \<and> spi_device s' = spi_device s"
proof -
  let ?P = "\<lambda>e v t s r. goes_on s (snd r) \<and> exchanges s < exchanges (snd r) \<and> fst r = (miso e (exchanges (snd r) - 1) = v) \<and>
    spi_device (snd r) = spi_device s"
  have "?P e v timeout s (b, s')"
  proof (rule expect_loop.raw_induct [of ?P, OF _ assms])
    fix loop e v t s r
    assume IH: "\<And>e v t s r. loop e v t s = Some r \<Longrightarrow> ?P e v t s r"
      and body: "(let (b, s) = spi_rx_byte e s in
        if b \<noteq> v \<and> time_before (getticks e s) t then loop e v t s else Some (b = v, s)) = Some r"
    let ?s = "s\<lparr>exchanges := Suc (exchanges s), mosi := mosi s @ [(spi_device s, 0xff)]\<rparr>"
    have g: "goes_on s ?s" by (simp add: goes_on_def)
    show "?P e v t s r"
    proof (cases "miso e (exchanges s) \<noteq> v \<and> time_before (getticks e ?s) t")
      case True
      then have "loop e v t ?s = Some r" using body by (simp add: spi_rx_byte_trace)
      from IH [OF this] show ?thesis using goes_on_trans [OF g] by auto
    next
      case False
      then have "r = (miso e (exchanges s) = v, ?s)" using body by (auto simp: spi_rx_byte_trace)
      then show ?thesis using g by simp
    qed
  qed
  then show ?thesis by simp
qed

lemma response_loop_trace:
  assumes "response_loop e timeout s = Some (res, s')"
  shows "goes_on s s' \<and> exchanges s < exchanges s' \<and> res = miso e (exchanges s' - 1) \<and> spi_device s' = spi_device s"
proof -
  let ?P = "\<lambda>e t s r. goes_on s (snd r) \<and> exchanges s < exchanges (snd r) \<and> fst r = miso e (exchanges (snd r) - 1) \<and>
    spi_device (snd r) = spi_device s"
  have "?P e timeout s (res, s')"
  proof (rule response_loop.raw_induct [of ?P, OF _ assms])
    fix loop e t s r
    assume IH: "\<And>e t s r. loop e t s = Some r \<Longrightarrow> ?P e t s r"
      and body: "(let (res, s) = spi_rx_byte e s in
        if res AND 0x80 \<noteq> 0 \<and> time_before (getticks e s) t then loop e t s else Some (res, s)) = Some r"
    let ?s = "s\<lparr>exchanges := Suc (exchanges s), mosi := mosi s @ [(spi_device s, 0xff)]\<rparr>"
    have g: "goes_on s ?s" by (simp add: goes_on_def)
    show "?P e t s r"
    proof (cases "miso e (exchanges s) AND 0x80 \<noteq> 0 \<and> time_before (getticks e ?s) t")
      case True
      then have "loop e t ?s = Some r" using body by (simp add: spi_rx_byte_trace)
      from IH [OF this] show ?thesis using goes_on_trans [OF g] by auto
    next
      case False
      then have "r = (miso e (exchanges s), ?s)" using body by (auto simp: spi_rx_byte_trace)
      then show ?thesis using g by simp
    qed
  qed
  then show ?thesis by simp
qed

section \<open>Commands\<close>

text \<open>The six bytes of a command: the parameter is sent with its highest byte first.\<close>

definition command_frame :: "u8 \<Rightarrow> u32 \<Rightarrow> u8 list" where
  "command_frame cmd parameter = cmd # rev (val8 parameter) @ [command_crc cmd parameter]"

lemma val8_val32: "length bs = 4 \<Longrightarrow> val8 (val32 bs) = bs"
proof -
  assume "length bs = 4"
  then obtain a b c d where bs: "bs = [a, b, c, d]" by (auto simp: numeral_eq_Suc length_Suc_conv)
  show ?thesis unfolding bs
    by (auto simp: val8_def val32_def intro!: bit_word_eqI)
       (auto simp: bit_ucast_iff bit_drop_bit_eq bit_or_iff bit_push_bit_iff dest: bit_imp_le_length)
qed

lemma val8_swap_word: "val8 (swap_word v) = rev (val8 v)"
  unfolding swap_word_def by (rule val8_val32) (simp add: val8_def)

lemma length_command_frame [simp]: "length (command_frame cmd parameter) = 6"
  by (simp add: command_frame_def val8_def)

definition send_frame :: "u8 \<Rightarrow> u8 \<Rightarrow> u32 \<Rightarrow> sd_state \<Rightarrow> sd_state" where
  "send_frame dev cmd parameter s =
     s\<lparr>spi_device := dev + 1, sd_led := True, exchanges := exchanges s + 6,
       mosi := mosi s @ map (Pair (dev + 1)) (command_frame cmd parameter)\<rparr>"

lemma command_loop_Suc:
  "command_loop e dev cmd parameter (Suc n) s = do {
     (res, s) \<leftarrow> response_loop e (getticks e (send_frame dev cmd parameter s) + CARD_TIMEOUT_TICKS) (send_frame dev cmd parameter s);
     (if res AND STATUS_CRC_ERROR \<noteq> 0
      then (if n = 0 then Some (res, deselect_card e s) else command_loop e dev cmd parameter n (deselect_card e s))
      else Some (res, s)) }"
proof -
  have l: "length (val8 parameter) = 4" by (simp add: val8_def)
  have "spi_tx_byte e (command_crc cmd parameter) (spi_tx_block e (val8 (swap_word parameter))
      (spi_tx_byte e cmd ((spi_select_device (dev + 1) s)\<lparr>sd_led := True\<rparr>))) = send_frame dev cmd parameter s"
    by (simp add: spi_tx_byte_trace spi_tx_block_trace spi_select_device_def send_frame_def command_frame_def val8_swap_word l)
  then show ?thesis by (simp add: Let_def)
qed

lemma goes_on_send_frame: "goes_on s (send_frame dev cmd parameter s)"
  by (simp add: goes_on_def send_frame_def)

text \<open>A command that is answered with \<open>res\<close> was sent completely, and the answer is the last byte received.\<close>

definition commanded_at :: "sd_env \<Rightarrow> u8 \<Rightarrow> u8 \<Rightarrow> u32 \<Rightarrow> nat \<Rightarrow> sd_state \<Rightarrow> bool" where
  "commanded_at e dev cmd parameter p s \<longleftrightarrow>
     p + 6 < exchanges s \<and> take 6 (drop p (mosi s)) = map (Pair (dev + 1)) (command_frame cmd parameter)"

lemma command_loop_trace:
  assumes "command_loop e dev cmd parameter n s = Some (res, s')" "logged s"
  shows "goes_on s s' \<and> (res AND STATUS_CRC_ERROR = 0 \<longrightarrow> spi_device s' = dev + 1 \<and> miso e (exchanges s' - 1) = res \<and>
    (\<exists>p \<ge> exchanges s. commanded_at e dev cmd parameter p s'))"
  using assms
proof (induction n arbitrary: s)
  case (Suc n)
  let ?f = "send_frame dev cmd parameter s"
  obtain r t where t: "response_loop e (getticks e ?f + CARD_TIMEOUT_TICKS) ?f = Some (r, t)"
    and rest: "(if r AND STATUS_CRC_ERROR \<noteq> 0
      then (if n = 0 then Some (r, deselect_card e t) else command_loop e dev cmd parameter n (deselect_card e t)) else Some (r, t)) = Some (res, s')"
    using Suc.prems(1) unfolding command_loop_Suc by (auto split: Option.bind_splits)
  have tr: "goes_on ?f t" "exchanges ?f < exchanges t" "r = miso e (exchanges t - 1)" "spi_device t = spi_device ?f"
    using response_loop_trace [OF t] by simp_all
  have g: "goes_on s t" using goes_on_trans [OF goes_on_send_frame tr(1)] .
  then have gd: "goes_on s (deselect_card e t)" using goes_on_trans goes_on_deselect by blast
  show ?case
  proof (cases "r AND STATUS_CRC_ERROR = 0")
    case True
    then have eq: "res = r" "s' = t" using rest by simp_all
    have "take 6 (drop (exchanges s) (mosi t)) = take 6 (drop (exchanges s) (mosi ?f))"
      using goes_on_sent [OF tr(1), of "exchanges s" 6] Suc.prems(2) by (simp add: send_frame_def logged_def)
    then have "commanded_at e dev cmd parameter (exchanges s) t"
      using tr(2) Suc.prems(2) by (simp add: commanded_at_def send_frame_def logged_def)
    then show ?thesis using g tr(3,4) unfolding eq by (auto simp: send_frame_def)
  next
    case crc: False
    show ?thesis
    proof (cases "n = 0")
      case False
      then have "command_loop e dev cmd parameter n (deselect_card e t) = Some (res, s')" using rest crc by simp
      from Suc.IH [OF this goes_onD(2) [OF gd Suc.prems(2)]] show ?thesis
        using goes_on_trans [OF gd] goes_onD(1) [OF gd] by (meson order_trans)
    qed (use rest crc gd in auto)
  qed
qed simp

lemma send_command_ok:
  assumes "send_command e dev cmd parameter s = Some (0, s')" "logged s"
  obtains p where "goes_on s s'" "spi_device s' = dev + 1" "miso e (exchanges s' - 1) = 0" "exchanges s \<le> p"
    "commanded_at e dev cmd parameter p s'"
  using command_loop_trace [OF assms(1) [unfolded send_command_def] assms(2)] that by auto

lemma send_command_goes_on: "send_command e dev cmd parameter s = Some (res, s') \<Longrightarrow> logged s \<Longrightarrow> goes_on s s'"
  using command_loop_trace unfolding send_command_def by blast

lemma commanded_at_mono: "commanded_at e dev cmd parameter p s \<Longrightarrow> logged s \<Longrightarrow> goes_on s s' \<Longrightarrow> commanded_at e dev cmd parameter p s'"
  unfolding commanded_at_def using goes_on_sent [of s s' p 6] goes_onD(1) [of s s'] by (auto simp: logged_def)

section \<open>Reading\<close>

text \<open>
  A sector was received: the read command for its address was sent at \<open>p\<close>, and after a start token the bytes \<open>data\<close>
  and their checksum came in from exchange \<open>q\<close> on.
\<close>

definition received :: "sd_env \<Rightarrow> u32 \<Rightarrow> u8 list \<Rightarrow> sd_state \<Rightarrow> bool" where
  "received e addr data s \<longleftrightarrow> (\<exists>p q. commanded_at e 0 READ_SINGLE_BLOCK addr p s \<and> p + 7 < q \<and> q + 514 \<le> exchanges s \<and>
     miso e (q - 1) = 0xfe \<and> data = map (miso e) [q..<q + 512] \<and>
     push_bit 8 (ucast (miso e (q + 512))) OR ucast (miso e (q + 513)) = foldl crc_xmodem_update 0 data)"

lemma received_mono: "received e addr data s \<Longrightarrow> logged s \<Longrightarrow> goes_on s s' \<Longrightarrow> received e addr data s'"
  unfolding received_def
  by (elim exE, intro exI conjI; elim conjE) (assumption | erule (2) commanded_at_mono | erule order_trans, erule goes_onD(1))+

lemma expect_byte_trace:
  assumes "expect_byte e v s = Some (b, s')"
  shows "goes_on s s' \<and> exchanges s < exchanges s' \<and> b = (miso e (exchanges s' - 1) = v) \<and> spi_device s' = spi_device s"
  using assms unfolding expect_byte_def by (rule expect_loop_trace)

lemma goes_on_fail: "goes_on s (fail_transfer e s)"
  by (simp add: fail_transfer_def goes_on_def deselect_card_trace)

lemma goes_on_more: "goes_on s (s\<lparr>exchanges := exchanges s + length xs, mosi := mosi s @ xs\<rparr>)"
  by (simp add: goes_on_def)

lemma read_sector_trace:
  assumes "read_sector e 0 addr n d s = Some (res, data, s')" "logged s"
  shows "goes_on s s' \<and> (res = RES_OK \<longrightarrow> received e addr data s' \<and> length data = 512)"
  using assms
proof (induction n arbitrary: d s)
  case 0
  then show ?case by auto
next
  case (Suc n)
  obtain r t where t: "send_command e 0 READ_SINGLE_BLOCK addr s = Some (r, t)" using Suc.prems(1) by (auto split: Option.bind_splits)
  note g = send_command_goes_on [OF t Suc.prems(2)]
  show ?case
  proof (cases "r = 0")
    case False
    then show ?thesis using Suc.prems(1) t g goes_on_trans [OF g goes_on_fail] by auto
  next
    case True
    with send_command_ok [OF t [unfolded True] Suc.prems(2)] obtain p where p: "commanded_at e 0 READ_SINGLE_BLOCK addr p t" by blast
    obtain tok u where u: "expect_byte e 0xfe t = Some (tok, u)" using Suc.prems(1) t True by (auto split: Option.bind_splits)
    note x = expect_byte_trace [OF u]
    have gu: "goes_on s u" using goes_on_trans [OF g] x by blast
    note lu = goes_onD(2) [OF gu Suc.prems(2)]
    show ?thesis
    proof (cases tok)
      case False
      then show ?thesis using Suc.prems(1) t True u goes_on_trans [OF gu goes_on_fail] by auto
    next
      case tok: True
      define q where "q = exchanges u"
      define D where "D = map (miso e) [q..<q + 512]"
      define v where "v = u\<lparr>exchanges := exchanges u + 514, mosi := mosi u @ replicate 514 (spi_device u, 0xff)\<rparr>"
      define c where "c = (push_bit 8 (ucast (miso e (q + 512))) OR ucast (miso e (q + 513)) :: u16)"
      have gv: "goes_on s v" using goes_on_trans [OF gu] goes_on_more [of u "replicate 514 (spi_device u, 0xff)"] by (simp add: v_def)
      have gd: "goes_on s (deselect_card e v)" using goes_on_trans [OF gv goes_on_deselect] .
      have rep: "replicate 512 (a :: u8 \<times> u8) @ [a, a] = replicate 514 a" for a
        using replicate_add [of 512 2 a] by (simp add: numeral_2_eq_2)
      have b: "(let (data, s) = spi_rx_block e 512 u; crc = foldl crc_xmodem_update 0 data;
                (h, s) = spi_rx_byte e s; (l, s) = spi_rx_byte e s in
            if push_bit 8 (ucast h) OR ucast l \<noteq> crc then read_sector e 0 addr n data (deselect_card e s)
            else Some (RES_OK, data, deselect_card e s)) =
          (if c \<noteq> foldl crc_xmodem_update 0 D then read_sector e 0 addr n D (deselect_card e v) else Some (RES_OK, D, deselect_card e v))"
        by (simp only: spi_rx_block_trace Let_def prod.case spi_rx_byte_trace)
          (simp add: q_def [symmetric] D_def [symmetric] c_def v_def rep add.commute [of _ q])
      have R: "(if c \<noteq> foldl crc_xmodem_update 0 D then read_sector e 0 addr n D (deselect_card e v) else Some (RES_OK, D, deselect_card e v)) =
          Some (res, data, s')"
        using Suc.prems(1) unfolding read_sector.simps t by (simp only: u Option.bind.simps prod.case True tok b simp_thms if_True if_False)
      show ?thesis
      proof (cases "c = foldl crc_xmodem_update 0 D")
        case False
        then have "read_sector e 0 addr n D (deselect_card e v) = Some (res, data, s')" using R by simp
        from Suc.IH [OF this goes_onD(2) [OF gd Suc.prems(2)]] show ?thesis using goes_on_trans [OF gd] by blast
      next
        case ok: True
        then have eq: "data = D" "s' = deselect_card e v" using R by simp_all
        have "goes_on u v" using goes_on_more [of u "replicate 514 (spi_device u, 0xff)"] by (simp add: v_def)
        then have "goes_on t v" using goes_on_trans x by blast
        then have "commanded_at e 0 READ_SINGLE_BLOCK addr p v"
          by (rule commanded_at_mono [OF p goes_onD(2) [OF g Suc.prems(2)]])
        moreover have "p + 7 < q" using p x by (simp add: commanded_at_def q_def)
        moreover have "miso e (q - 1) = 0xfe" using x tok by (simp add: q_def)
        ultimately have "received e addr D v" unfolding received_def
          using ok by (intro exI [of _ p] exI [of _ q]) (simp add: D_def c_def v_def q_def)
        then have "received e addr D (deselect_card e v)" using received_mono goes_onD(2) [OF gv Suc.prems(2)] goes_on_deselect by blast
        then show ?thesis using gd unfolding eq by (simp add: D_def)
      qed
    qed
  qed
qed

lemma read_sectors_trace:
  assumes "read_sectors e 0 sector k n buffer s = Some (RES_OK, buffer', s')" "logged s" "512 * (k + n) \<le> length buffer"
  shows "goes_on s s' \<and> length buffer' = length buffer \<and> take (512 * k) buffer' = take (512 * k) buffer \<and>
    (\<forall>i < n. \<exists>addr. card_address (cardtype s) sector (k + i) = Some addr \<and>
       received e addr (take 512 (drop (512 * (k + i)) buffer')) s')"
  using assms
proof (induction n arbitrary: k buffer s)
  case (Suc n)
  obtain addr where a: "card_address (cardtype s) sector k = Some addr" using Suc.prems(1) by (auto split: Option.bind_splits)
  let ?d = "take 512 (drop (512 * k) buffer)"
  obtain res data t where t: "read_sector e 0 addr CONFIG_SD_AUTO_RETRIES ?d s = Some (res, data, t)"
    using Suc.prems(1) a by (auto split: Option.bind_splits)
  then have r: "res = RES_OK" "read_sectors e 0 sector (Suc k) n (put_at (512 * k) data buffer) t = Some (RES_OK, buffer', s')"
    using Suc.prems(1) a by (auto simp: Let_def split: if_splits)
  note x = read_sector_trace [OF t Suc.prems(2), unfolded r(1)]
  let ?b = "put_at (512 * k) data buffer"
  have l: "length ?b = length buffer" using Suc.prems(3) x by (simp add: put_at_def)
  have tk: "take (512 * Suc k) ?b = take (512 * k) buffer @ data" using Suc.prems(3) x by (simp add: put_at_def)
  have "logged t" using goes_onD(2) x Suc.prems(2) by blast
  note ih = Suc.IH [OF r(2) this] 
  have ih: "goes_on t s'" "length buffer' = length ?b" "take (512 * Suc k) buffer' = take (512 * Suc k) ?b"
    and at: "\<And>i. i < n \<Longrightarrow> \<exists>addr. card_address (cardtype t) sector (Suc k + i) = Some addr \<and>
       received e addr (take 512 (drop (512 * (Suc k + i)) buffer')) s'"
    using ih Suc.prems(3) unfolding l by auto
  have here: "take 512 (drop (512 * k) buffer') = data"
  proof -
    have "take 512 (drop (512 * k) buffer') = drop (512 * k) (take (512 * Suc k) buffer')" by (simp add: take_drop add.commute)
    also have "\<dots> = data" unfolding ih(3) tk using Suc.prems(3) by simp
    finally show ?thesis .
  qed
  have "take (512 * k) buffer' = take (512 * k) (take (512 * Suc k) buffer')" by (simp add: min_absorb1)
  also have "\<dots> = take (512 * k) buffer" unfolding ih(3) tk using Suc.prems(3) by simp
  finally have "take (512 * k) buffer' = take (512 * k) buffer" .
  moreover have "\<exists>addr. card_address (cardtype s) sector (k + i) = Some addr \<and>
       received e addr (take 512 (drop (512 * (k + i)) buffer')) s'" if "i < Suc n" for i
  proof (cases i)
    case 0
    then show ?thesis using a here x received_mono [OF _ \<open>logged t\<close> ih(1)] by simp
  next
    case (Suc j)
    then show ?thesis using at [of j] that x by (simp add: goes_on_def)
  qed
  ultimately show ?case using goes_on_trans [of s t s'] x ih(1,2) l by simp
qed simp

section \<open>Writing\<close>

text \<open>
  A sector was accepted: the write command for its address was sent at \<open>p\<close>, and from \<open>q\<close> on the start token, the bytes
  and their checksum, which the card answered with the status for accepted data.
\<close>

definition accepted :: "sd_env \<Rightarrow> u32 \<Rightarrow> u8 list \<Rightarrow> sd_state \<Rightarrow> bool" where
  "accepted e addr data s \<longleftrightarrow> (\<exists>p q. commanded_at e 0 WRITE_BLOCK addr p s \<and> p + 7 \<le> q \<and> q + length data + 3 < exchanges s \<and>
     take (length data + 3) (drop q (mosi s)) =
       map (Pair 1) (0xfe # data @ [ucast (drop_bit 8 (foldl crc_xmodem_update 0 data)), ucast (foldl crc_xmodem_update 0 data AND 0xff)]) \<and>
     miso e (q - 1) = 0 \<and> miso e (q + length data + 3) AND 0x0f = 5)"

lemma accepted_mono: "accepted e addr data s \<Longrightarrow> logged s \<Longrightarrow> goes_on s s' \<Longrightarrow> accepted e addr data s'"
proof -
  assume a: "accepted e addr data s" and l: "logged s" and g: "goes_on s s'"
  then obtain p q where pq: "commanded_at e 0 WRITE_BLOCK addr p s" "p + 7 \<le> q" "q + length data + 3 < exchanges s"
     "take (length data + 3) (drop q (mosi s)) =
       map (Pair 1) (0xfe # data @ [ucast (drop_bit 8 (foldl crc_xmodem_update 0 data)), ucast (foldl crc_xmodem_update 0 data AND 0xff)])"
     "miso e (q - 1) = 0" "miso e (q + length data + 3) AND 0x0f = 5"
    unfolding accepted_def by blast
  have "take (length data + 3) (drop q (mosi s')) = take (length data + 3) (drop q (mosi s))"
    using pq(3) l by (intro goes_on_sent [OF g]) (simp add: logged_def)
  moreover have "q + length data + 3 < exchanges s'" using pq(3) goes_onD(1) [OF g] by simp
  ultimately show ?thesis unfolding accepted_def
    using pq(2,4-6) commanded_at_mono [OF pq(1) l g] by (intro exI [of _ p] exI [of _ q]) simp
qed

lemma busy_loop_trace:
  assumes "busy_loop e s = Some (res, s')"
  shows "goes_on s s'"
proof -
  have "goes_on s (snd (res, s'))"
  proof (rule busy_loop.raw_induct [of "\<lambda>e s r. goes_on s (snd r)", OF _ assms])
    fix loop e s r
    assume IH: "\<And>e s r. loop e s = Some r \<Longrightarrow> goes_on s (snd r)"
      and body: "(let (res, s) = spi_rx_byte e s in if res = 0 then loop e s else Some (res, s)) = Some r"
    let ?s = "s\<lparr>exchanges := Suc (exchanges s), mosi := mosi s @ [(spi_device s, 0xff)]\<rparr>"
    have g: "goes_on s ?s" by (simp add: goes_on_def)
    show "goes_on s (snd r)"
      using body IH [of e ?s r] goes_on_trans [OF g] g by (auto simp: spi_rx_byte_trace split: if_splits)
  qed
  then show ?thesis by simp
qed

lemma write_sector_trace:
  assumes "write_sector e 0 addr n data s = Some (res, s')" "logged s"
  shows "goes_on s s' \<and> (res = RES_OK \<longrightarrow> accepted e addr data s')"
  using assms
proof (induction n arbitrary: s)
  case 0
  then show ?case by auto
next
  case (Suc n)
  obtain r t where t: "send_command e 0 WRITE_BLOCK addr s = Some (r, t)" using Suc.prems(1) by (auto split: Option.bind_splits)
  note g = send_command_goes_on [OF t Suc.prems(2)]
  show ?case
  proof (cases "r = 0")
    case False
    then show ?thesis using Suc.prems(1) t g goes_on_trans [OF g goes_on_fail] by auto
  next
    case True
    with send_command_ok [OF t [unfolded True] Suc.prems(2)] obtain p where p: "commanded_at e 0 WRITE_BLOCK addr p t"
      and d: "spi_device t = 1" and r0: "miso e (exchanges t - 1) = 0" by (metis add.left_neutral)
    define q where "q = exchanges t"
    define crc where "crc = foldl crc_xmodem_update 0 data"
    define xs where "xs = 0xfe # data @ [ucast (drop_bit 8 crc), ucast (crc AND 0xff)]"
    define v where "v = t\<lparr>spi_device := 1, exchanges := q + length (map (Pair 1) xs @ [(1, 0xff)]), mosi := mosi t @ map (Pair 1) xs @ [(1, 0xff :: u8)]\<rparr>"
    define st where "st = miso e (q + length xs)"
    have tv: "goes_on t v" by (simp add: goes_on_def v_def q_def)
    have gv: "goes_on s v" using goes_on_trans [OF g tv] .
    note lv = goes_onD(2) [OF gv Suc.prems(2)]
    have gd: "goes_on s (deselect_card e v)" using goes_on_trans [OF gv goes_on_deselect] .
    have b: "(let s = spi_tx_byte e 0xfe t; s = spi_select_device (0 + 1) s; s = spi_tx_block e data s;
             crc = foldl crc_xmodem_update 0 data;
             s = spi_tx_byte e (ucast (drop_bit 8 crc)) s; s = spi_tx_byte e (ucast (crc AND 0xff)) s;
             (res, s) = spi_rx_byte e s in
         if res AND 0x0f \<noteq> 5 then write_sector e 0 addr n data (deselect_card e s)
         else do { (_, s) \<leftarrow> busy_loop e s; Some (RES_OK, deselect_card e s) }) =
        (if st AND 0x0f \<noteq> 5 then write_sector e 0 addr n data (deselect_card e v)
         else do { (_, s) \<leftarrow> busy_loop e v; Some (RES_OK, deselect_card e s) })"
      by (simp only: Let_def spi_tx_byte_trace spi_tx_block_trace spi_select_device_def spi_rx_byte_trace prod.case)
        (simp add: v_def st_def xs_def crc_def q_def d)
    have R: "(if st AND 0x0f \<noteq> 5 then write_sector e 0 addr n data (deselect_card e v)
         else do { (_, s) \<leftarrow> busy_loop e v; Some (RES_OK, deselect_card e s) }) = Some (res, s')"
      using Suc.prems(1) unfolding write_sector.simps t by (simp only: Option.bind.simps prod.case True b simp_thms if_True if_False)
    show ?thesis
    proof (cases "st AND 0x0f = 5")
      case False
      then have "write_sector e 0 addr n data (deselect_card e v) = Some (res, s')" using R by simp
      from Suc.IH [OF this goes_onD(2) [OF gd Suc.prems(2)]] show ?thesis using goes_on_trans [OF gd] by blast
    next
      case ok: True
      then obtain b u where u: "busy_loop e v = Some (b, u)" "s' = deselect_card e u" using R by (auto split: Option.bind_splits)
      have gu: "goes_on v s'" using goes_on_trans [OF busy_loop_trace [OF u(1)] goes_on_deselect] u(2) by simp
      note cv = commanded_at_mono [OF p goes_onD(2) [OF g Suc.prems(2)] tv]
      have lt: "length (mosi t) = q" using goes_onD(2) [OF g Suc.prems(2)] by (simp add: logged_def q_def)
      have lx: "length xs = length data + 3" by (simp add: xs_def)
      have "take (length data + 3) (drop q (mosi v)) = map (Pair 1) xs" using lt lx by (simp add: v_def)
      moreover have "p + 7 \<le> q" "q + length data + 3 < exchanges v" using p lx by (simp_all add: commanded_at_def q_def v_def)
      moreover have "miso e (q + length data + 3) AND 0x0f = 5" using ok lx by (simp add: st_def add.assoc)
      ultimately have "accepted e addr data v" unfolding accepted_def
        using cv r0 unfolding xs_def crc_def q_def [symmetric] by blast
      from accepted_mono [OF this lv gu] show ?thesis using goes_on_trans [OF gv gu] by simp
    qed
  qed
qed

lemma write_sectors_trace:
  assumes "write_sectors e 0 sector k n buffer s = Some (RES_OK, s')" "logged s"
  shows "goes_on s s' \<and> (\<forall>i < n. \<exists>addr. card_address (cardtype s) sector (k + i) = Some addr \<and>
       accepted e addr (take 512 (drop (512 * (k + i)) buffer)) s')"
  using assms
proof (induction n arbitrary: k s)
  case (Suc n)
  obtain addr where a: "card_address (cardtype s) sector k = Some addr" using Suc.prems(1) by (auto split: Option.bind_splits)
  let ?d = "take 512 (drop (512 * k) buffer)"
  obtain res t where t: "write_sector e 0 addr CONFIG_SD_AUTO_RETRIES ?d s = Some (res, t)"
    using Suc.prems(1) a by (auto split: Option.bind_splits)
  then have r: "res = RES_OK" "write_sectors e 0 sector (Suc k) n buffer t = Some (RES_OK, s')"
    using Suc.prems(1) a by (auto split: if_splits)
  note x = write_sector_trace [OF t Suc.prems(2), unfolded r(1)]
  have lt: "logged t" using goes_onD(2) x Suc.prems(2) by blast
  note ih = Suc.IH [OF r(2) lt]
  have "\<exists>addr. card_address (cardtype s) sector (k + i) = Some addr \<and>
       accepted e addr (take 512 (drop (512 * (k + i)) buffer)) s'" if "i < Suc n" for i
  proof (cases i)
    case 0
    then show ?thesis using a x accepted_mono [OF _ lt] ih by auto
  next
    case (Suc j)
    then have "j < n" using that by simp
    then show ?thesis using ih x Suc by (auto simp: goes_on_def)
  qed
  then show ?case using goes_on_trans [of s t s'] x ih by blast
qed simp

section \<open>Answers of a card\<close>

text \<open>No wait for an answer between the exchanges \<open>p\<close> and \<open>q\<close> runs into the timeout.\<close>

definition prompt :: "sd_env \<Rightarrow> nat \<Rightarrow> nat \<Rightarrow> bool" where
  "prompt e p q \<longleftrightarrow> (\<forall>i j. p \<le> i \<and> i \<le> j \<and> j \<le> q \<longrightarrow> time_before (clock e j) (clock e i + CARD_TIMEOUT_TICKS))"

text \<open>
  A card answers a read command that is sent at \<open>p\<close>: after \<open>a\<close> idle bytes it accepts the command, after \<open>b\<close> more it
  sends the start token, the data and a checksum, which is right or not; the next command can be sent at \<open>q\<close>.
\<close>

definition answers :: "sd_env \<Rightarrow> nat \<Rightarrow> u8 list \<Rightarrow> bool \<Rightarrow> nat \<Rightarrow> bool" where
  "answers e p data good q \<longleftrightarrow>
     (\<exists>a b. (\<forall>i < a. miso e (p + 6 + i) = 0xff) \<and> miso e (p + 6 + a) = 0 \<and> (\<forall>i < b. miso e (p + 7 + a + i) = 0xff) \<and>
        miso e (p + 7 + a + b) = 0xfe \<and> data = map (miso e) [p + 8 + a + b..<p + 520 + a + b] \<and>
        (good \<longleftrightarrow> push_bit 8 (ucast (miso e (p + 520 + a + b))) OR ucast (miso e (p + 521 + a + b)) = foldl crc_xmodem_update 0 data) \<and>
        q = p + 525 + a + b)"

text \<open>A sector arrives within \<open>n\<close> attempts, a sequence of sectors each within the number of attempts of the driver.\<close>

inductive sector_arrives :: "sd_env \<Rightarrow> nat \<Rightarrow> nat \<Rightarrow> u8 list \<Rightarrow> nat \<Rightarrow> bool" for e where
  arrived: "answers e p data True q \<Longrightarrow> sector_arrives e (Suc n) p data q"
| damaged: "answers e p data' False q' \<Longrightarrow> sector_arrives e n q' data q \<Longrightarrow> sector_arrives e (Suc n) p data q"

inductive sectors_arrive :: "sd_env \<Rightarrow> nat \<Rightarrow> u8 list list \<Rightarrow> nat \<Rightarrow> bool" for e where
  all_arrived: "sectors_arrive e p [] p"
| next_arrives: "sector_arrives e CONFIG_SD_AUTO_RETRIES p data q \<Longrightarrow> sectors_arrive e q ds r \<Longrightarrow> sectors_arrive e p (data # ds) r"

lemma prompt_mono: "prompt e p q \<Longrightarrow> p \<le> p' \<Longrightarrow> q' \<le> q \<Longrightarrow> prompt e p' q'"
  unfolding prompt_def by (meson order_trans)

definition wait :: "nat \<Rightarrow> sd_state \<Rightarrow> sd_state" where
  "wait n s = s\<lparr>exchanges := exchanges s + n, mosi := mosi s @ replicate n (spi_device s, 0xff)\<rparr>"

lemma wait_simps [simp]: "exchanges (wait n s) = exchanges s + n" "cardtype (wait n s) = cardtype s"
  by (simp_all add: wait_def)

lemma spi_rx_byte_wait: "spi_rx_byte e s = (miso e (exchanges s), wait 1 s)"
  by (simp add: spi_rx_byte_trace wait_def)

lemma wait_wait: "wait m (wait n s) = wait (n + m) s"
  by (simp add: wait_def replicate_add)

lemma expect_loop_waits:
  assumes "\<forall>i < a. miso e (exchanges s + i) \<noteq> v" "miso e (exchanges s + a) = v"
    "\<forall>i \<le> a. time_before (clock e (exchanges s + i)) timeout"
  shows "expect_loop e v timeout s = Some (True, wait (Suc a) s)"
  using assms
proof (induction a arbitrary: s)
  case 0
  then show ?case by (subst expect_loop.simps) (simp add: spi_rx_byte_wait)
next
  case (Suc a)
  have m: "\<forall>i < a. miso e (exchanges (wait 1 s) + i) \<noteq> v" "\<forall>j \<le> a. time_before (clock e (exchanges (wait 1 s) + j)) timeout"
    using Suc.prems(1,3) by auto
  have "miso e (exchanges s) \<noteq> v" "time_before (getticks e (wait 1 s)) timeout"
    using Suc.prems(1) [rule_format, of 0] Suc.prems(3) [rule_format, of 1] by (simp_all add: getticks_def)
  then have "expect_loop e v timeout s = expect_loop e v timeout (wait 1 s)" by (subst expect_loop.simps) (simp add: spi_rx_byte_wait)
  also have "\<dots> = Some (True, wait (Suc a) (wait 1 s))" using m Suc.prems(2) by (intro Suc.IH) auto
  finally show ?case by (simp add: wait_wait)
qed

lemma response_loop_waits:
  assumes "\<forall>i < a. miso e (exchanges s + i) = 0xff" "miso e (exchanges s + a) = 0"
    "\<forall>i \<le> a. time_before (clock e (exchanges s + i)) timeout"
  shows "response_loop e timeout s = Some (0, wait (Suc a) s)"
  using assms
proof (induction a arbitrary: s)
  case 0
  then show ?case by (subst response_loop.simps) (simp add: spi_rx_byte_wait)
next
  case (Suc a)
  have m: "\<forall>i < a. miso e (exchanges (wait 1 s) + i) = 0xff" "\<forall>j \<le> a. time_before (clock e (exchanges (wait 1 s) + j)) timeout"
    using Suc.prems(1,3) by auto
  have "miso e (exchanges s) = 0xff" "time_before (getticks e (wait 1 s)) timeout"
    using Suc.prems(1) [rule_format, of 0] Suc.prems(3) [rule_format, of 1] by (simp_all add: getticks_def)
  then have "response_loop e timeout s = response_loop e timeout (wait 1 s)" by (subst response_loop.simps) (simp add: spi_rx_byte_wait)
  also have "\<dots> = Some (0, wait (Suc a) (wait 1 s))" using m Suc.prems(2) by (intro Suc.IH) auto
  finally show ?case by (simp add: wait_wait)
qed

lemma read_sector_answer:
  assumes "answers e (exchanges s) data good q" "prompt e (exchanges s) q"
  shows "\<exists>s'. exchanges s' = q \<and> cardtype s' = cardtype s \<and> read_sector e 0 addr (Suc n) d s =
    (if good then Some (RES_OK, data, s') else read_sector e 0 addr n data s')"
proof -
  let ?p = "exchanges s"
  obtain a b where idle: "\<forall>i < a. miso e (?p + 6 + i) = 0xff" "miso e (?p + 6 + a) = 0" "\<forall>i < b. miso e (?p + 7 + a + i) = 0xff"
    and tok: "miso e (?p + 7 + a + b) = 0xfe" and data: "data = map (miso e) [?p + 8 + a + b..<?p + 520 + a + b]"
    and crc: "good \<longleftrightarrow> push_bit 8 (ucast (miso e (?p + 520 + a + b))) OR ucast (miso e (?p + 521 + a + b)) = foldl crc_xmodem_update 0 data"
    and q: "q = ?p + 525 + a + b"
    using assms(1) unfolding answers_def by blast
  define f where "f = send_frame 0 READ_SINGLE_BLOCK addr s"
  have f: "exchanges f = ?p + 6" "cardtype f = cardtype s" by (simp_all add: f_def send_frame_def)
  have tb: "time_before (clock e j) (clock e i + 100)" if "?p \<le> i" "i \<le> j" "j \<le> q" for i j
    using assms(2) that unfolding prompt_def by simp
  have "response_loop e (getticks e f + CARD_TIMEOUT_TICKS) f = Some (0, wait (Suc a) f)"
    using idle by (intro response_loop_waits) (auto simp: f getticks_def q intro!: tb)
  then have c: "send_command e 0 READ_SINGLE_BLOCK addr s = Some (0, wait (Suc a) f)"
  proof -
    have r9: "CONFIG_SD_AUTO_RETRIES = Suc 9" by simp
    show ?thesis using \<open>response_loop e _ f = _\<close>
      unfolding send_command_def r9 command_loop_Suc f_def [symmetric] by simp
  qed
  have w1: "exchanges (wait (Suc a) f) = ?p + 7 + a" by (simp add: f)
  have "expect_byte e 0xfe (wait (Suc a) f) = Some (True, wait (Suc b) (wait (Suc a) f))"
    unfolding expect_byte_def using idle(3) tok
    by (intro expect_loop_waits; unfold w1 getticks_def CARD_TIMEOUT_TICKS_def) (auto simp: q intro!: tb)
  define g where "g = wait (Suc b) (wait (Suc a) f)"
  then have x: "expect_byte e 0xfe (wait (Suc a) f) = Some (True, g)" using \<open>expect_byte e _ _ = _\<close> by simp
  have g: "exchanges g = ?p + 8 + a + b" "cardtype g = cardtype s" by (simp_all add: g_def f)
  have rx: "spi_rx_block e 512 g = (data, wait 512 g)"
    unfolding spi_rx_block_trace data by (simp add: g wait_def ac_simps)
  define t where "t = deselect_card e (wait 514 g)"
  have m: "miso e (exchanges (wait 512 g)) = miso e (?p + 520 + a + b)" "miso e (exchanges (wait 513 g)) = miso e (?p + 521 + a + b)"
    by (simp_all add: g ac_simps)
  have "(let (data, s) = spi_rx_block e 512 g; crc = foldl crc_xmodem_update 0 data;
                (h, s) = spi_rx_byte e s; (l, s) = spi_rx_byte e s in
            if push_bit 8 (ucast h) OR ucast l \<noteq> crc then read_sector e 0 addr n data (deselect_card e s)
            else Some (RES_OK, data, deselect_card e s)) = (if good then Some (RES_OK, data, t) else read_sector e 0 addr n data t)"
    unfolding rx spi_rx_byte_wait Let_def prod.case wait_wait crc t_def by (simp add: m [simplified])
  then have R: "read_sector e 0 addr (Suc n) d s = (if good then Some (RES_OK, data, t) else read_sector e 0 addr n data t)"
    unfolding read_sector.simps c by (simp only: x Option.bind.simps prod.case simp_thms if_True if_False)
  moreover have "exchanges t = q" "cardtype t = cardtype s" by (simp_all add: t_def deselect_card_trace g q)
  ultimately show ?thesis by blast
qed

lemma sector_arrives_le: "sector_arrives e n p data q \<Longrightarrow> p \<le> q"
  by (induction rule: sector_arrives.induct) (auto simp: answers_def)

lemma sectors_arrive_le: "sectors_arrive e p ds q \<Longrightarrow> p \<le> q"
  by (induction rule: sectors_arrive.induct) (auto dest: sector_arrives_le)

lemma read_sector_arrives:
  assumes "sector_arrives e n p data q" "exchanges s = p" "prompt e p q"
  shows "\<exists>s'. exchanges s' = q \<and> cardtype s' = cardtype s \<and> read_sector e 0 addr n d s = Some (RES_OK, data, s')"
  using assms
proof (induction arbitrary: s d rule: sector_arrives.induct)
  case (arrived p data q n)
  then show ?case using read_sector_answer [of e s data True q addr n d] by auto
next
  case (damaged p data' q' n data q)
  have le: "p \<le> q'" "q' \<le> q" using damaged.hyps sector_arrives_le by (auto simp: answers_def)
  obtain t where t: "exchanges t = q'" "cardtype t = cardtype s" "read_sector e 0 addr (Suc n) d s = read_sector e 0 addr n data' t"
    using read_sector_answer [of e s data' False q' addr n d] damaged.hyps(1) damaged.prems le prompt_mono [of e p q p q'] by auto
  then show ?case using damaged.IH [OF t(1)] prompt_mono [OF damaged.prems(2) le(1)] by auto
qed

lemma length_sector_arrives: "sector_arrives e n p data q \<Longrightarrow> length data = 512"
  by (induction rule: sector_arrives.induct) (auto simp: answers_def)

lemma read_sectors_arrive:
  assumes "sectors_arrive e p ds q" "exchanges s = p" "prompt e p q" "512 * (k + length ds) \<le> length buffer"
    "\<forall>i < length ds. card_address (cardtype s) sector (k + i) \<noteq> None"
  shows "\<exists>s'. exchanges s' = q \<and> read_sectors e 0 sector k (length ds) buffer s = Some (RES_OK, put_at (512 * k) (concat ds) buffer, s')"
  using assms
proof (induction arbitrary: s k buffer rule: sectors_arrive.induct)
  case (all_arrived p)
  then show ?case by (simp add: put_at_def)
next
  case (next_arrives p data q ds r)
  obtain addr where a: "card_address (cardtype s) sector k = Some addr" using next_arrives.prems(4) by fastforce
  have le: "p \<le> q" "q \<le> r" using next_arrives.hyps sector_arrives_le sectors_arrive_le by auto
  obtain t where t: "exchanges t = q" "cardtype t = cardtype s"
    "read_sector e 0 addr CONFIG_SD_AUTO_RETRIES (take 512 (drop (512 * k) buffer)) s = Some (RES_OK, data, t)"
    using read_sector_arrives [OF next_arrives.hyps(1) next_arrives.prems(1)] prompt_mono [OF next_arrives.prems(2) _ le(2)] by blast
  have l: "length data = 512" using length_sector_arrives next_arrives.hyps(1) .
  let ?b = "put_at (512 * k) data buffer"
  have lb: "length ?b = length buffer" using next_arrives.prems(3) l by (simp add: put_at_def)
  have ad: "\<forall>i < length ds. card_address (cardtype t) sector (Suc k + i) \<noteq> None"
    using next_arrives.prems(4) t(2) by (metis Suc_less_eq add_Suc_shift length_Cons)
  obtain s' where s': "exchanges s' = r" "read_sectors e 0 sector (Suc k) (length ds) ?b t = Some (RES_OK, put_at (512 * Suc k) (concat ds) ?b, s')"
    using next_arrives.IH [OF t(1) prompt_mono [OF next_arrives.prems(2) le(1) order_refl] _ ad, of ?b] next_arrives.prems(3) lb by auto
  have "put_at (512 * Suc k) (concat ds) ?b = put_at (512 * k) (data @ concat ds) buffer"
    using next_arrives.prems(3) l by (simp add: put_at_def ac_simps)
  then show ?case using a t(3) s' by (auto simp: Let_def)
qed

section \<open>Bit fields\<close>

text \<open>The bits of a buffer, the highest bit of the first byte first, and the number that some of them form.\<close>

definition byte_bits :: "u8 \<Rightarrow> bool list" where
  "byte_bits b = map (bit b) (rev [0..<8])"

definition buffer_bits :: "u8 list \<Rightarrow> bool list" where
  "buffer_bits bs = concat (map byte_bits bs)"

abbreviation horner :: "nat \<Rightarrow> bool list \<Rightarrow> nat" where
  "horner \<equiv> foldl (\<lambda>v b. 2 * v + of_bool b)"

lemma horner_bits: "horner v (map (bit x) (rev [m..<m + k])) = v * 2 ^ k + take_bit k (drop_bit m x)" for x :: nat
proof (induction k arbitrary: v)
  case (Suc k)
  have "horner v (map (bit x) (rev [m..<m + Suc k])) = horner (2 * v + of_bool (bit x (m + k))) (map (bit x) (rev [m..<m + k]))" by simp
  also have "\<dots> = (2 * v + of_bool (bit x (m + k))) * 2 ^ k + take_bit k (drop_bit m x)" by (rule Suc)
  also have "\<dots> = v * 2 ^ Suc k + take_bit (Suc k) (drop_bit m x)"
    by (simp add: take_bit_Suc_from_most bit_drop_bit_eq algebra_simps)
  finally show ?case .
qed simp

lemma length_byte_bits [simp]: "length (byte_bits b) = 8"
  by (simp add: byte_bits_def)

lemma length_buffer_bits [simp]: "length (buffer_bits bs) = 8 * length bs"
  by (induction bs) (simp_all add: buffer_bits_def)

lemma horner_byte:
  assumes "j + k \<le> 8"
  shows "horner v (take k (drop j (byte_bits b))) = v * 2 ^ k + take_bit k (drop_bit (8 - j - k) (unat b))"
proof -
  have "take k (drop j (rev [0..<8])) = rev [8 - j - k..<8 - j - k + k]"
    using assms by (simp add: take_rev drop_rev)
  then have "take k (drop j (byte_bits b)) = map (bit (unat b)) (rev [8 - j - k..<8 - j - k + k])"
    unfolding byte_bits_def using assms by (auto simp: take_map drop_map bit_unsigned_iff)
  then show ?thesis by (simp only: horner_bits)
qed

lemma take_concat_bytes:
  assumes "i < length bs"
  shows "drop (8 * i) (buffer_bits bs) = byte_bits (bs ! i) @ drop (8 * Suc i) (buffer_bits bs)"
  using assms
proof (induction bs arbitrary: i)
  case (Cons b bs)
  then show ?case by (cases i) (auto simp: buffer_bits_def)
qed simp

lemma u8_of_nat: "(ucast (b :: u8) :: u32) = of_nat (unat b)"
  by simp

lemma getbits_loop_value:
  assumes "8 * i + n \<le> 8 * length bs"
  shows "getbits_loop bs (8 * i) (int n) (of_nat v) = Some (of_nat (horner v (take n (drop (8 * i) (buffer_bits bs)))))"
  using assms
proof (induction n arbitrary: i v rule: less_induct)
  case (less n)
  consider "8 \<le> n" | "0 < n" "n < 8" | "n = 0" by linarith
  then show ?case
  proof cases
    case 1
    then have i: "i < length bs" using less.prems by simp
    have t: "take n (drop (8 * i) (buffer_bits bs)) = byte_bits (bs ! i) @ take (n - 8) (drop (8 * Suc i) (buffer_bits bs))"
      using 1 by (subst take_concat_bytes [OF i]) simp
    have h: "horner v (byte_bits (bs ! i)) = v * 256 + unat (bs ! i)"
      using horner_byte [of 0 8 v "bs ! i"] by (simp add: take_bit_nat_eq_self)
    have r: "push_bit 8 (of_nat v) + ucast (bs ! i) = (of_nat (v * 256 + unat (bs ! i)) :: u32)"
      by (simp add: push_bit_eq_mult)
    have "getbits_loop bs (8 * i) (int n) (of_nat v) = getbits_loop bs (8 * Suc i) (int (n - 8)) (of_nat (v * 256 + unat (bs ! i)))"
      using 1 i unfolding r [symmetric] by (subst getbits_loop.simps) (simp add: of_nat_diff add.commute)
    also have "\<dots> = Some (of_nat (horner (v * 256 + unat (bs ! i)) (take (n - 8) (drop (8 * Suc i) (buffer_bits bs)))))"
      using 1 less.prems by (intro less.IH) simp_all
    finally show ?thesis unfolding t foldl_append h .
  next
    case 2
    then have i: "i < length bs" using less.prems by simp
    have "take n (drop (8 * i) (buffer_bits bs)) = take n (drop 0 (byte_bits (bs ! i)))"
      using 2 by (subst take_concat_bytes [OF i]) simp
    then have h: "horner v (take n (drop (8 * i) (buffer_bits bs))) = v * 2 ^ n + take_bit n (drop_bit (8 - n) (unat (bs ! i)))"
      using horner_byte [of 0 n v "bs ! i"] 2 by simp
    have "drop_bit (8 - n) (unat (bs ! i)) < 2 ^ n"
      using 2 unsigned_less [of "bs ! i", where 'a = nat] by (simp add: drop_bit_eq_div less_mult_imp_div_less flip: power_add)
    then have "take_bit n (drop_bit (8 - n) (unat (bs ! i))) = unat (drop_bit (8 - n) (bs ! i))"
      by (simp add: take_bit_nat_eq_self unsigned_drop_bit_eq)
    moreover have "getbits_loop bs (8 * i) (int n) (of_nat v) = Some (push_bit n (of_nat v) + ucast (drop_bit (8 - n) (bs ! i)))"
      using 2 i by (subst getbits_loop.simps) (simp add: nat_diff_distrib)
    ultimately show ?thesis unfolding h u8_of_nat by (simp add: push_bit_eq_mult)
  next
    case 3
    then show ?thesis by (subst getbits_loop.simps) simp
  qed
qed

lemma getbits_loop_neg: "getbits_loop bs start (- int k) r = Some (drop_bit k r)"
  by (subst getbits_loop.simps) simp

lemma getbits_value:
  assumes "start + n \<le> 8 * length bs"
  shows "getbits bs start (int n) = Some (of_nat (horner 0 (take n (drop start (buffer_bits bs)))))"
proof (cases "start mod 8 = 0")
  case True
  then obtain i where i: "start = 8 * i" by (metis mult_div_mod_eq add.right_neutral)
  show ?thesis using getbits_loop_value [of i n bs 0] assms unfolding getbits_def i by simp
next
  case False
  define i j where "i = start div 8" and "j = start mod 8"
  have s: "start = 8 * i + j" "0 < j" "j < 8" using False by (simp_all add: i_def j_def)
  then have i: "i < length bs" using assms by simp
  let ?b = "bs ! i"
  have "(drop_bit j 0xff :: u8) = mask (8 - j)"
  proof (rule bit_word_eqI)
    fix k assume k: "k < LENGTH(8)"
    have ff: "(0xff :: u8) = mask 8" by (simp add: mask_eq_exp_minus_1)
    show "bit (drop_bit j 0xff :: u8) k = bit (mask (8 - j) :: u8) k"
      unfolding ff bit_drop_bit_eq o_def bit_mask_iff using k s by auto
  qed
  then have "?b AND drop_bit j 0xff = take_bit (8 - j) ?b" by (simp add: take_bit_eq_mask)
  then have r: "(ucast (?b AND drop_bit j 0xff) :: u32) = of_nat (take_bit (8 - j) (unat ?b))"
    by (simp only: u8_of_nat unsigned_take_bit_eq)
  have st: "start + (8 - start mod 8) = 8 * Suc i" "start div 8 = i" "start mod 8 = j" using s(1-3) by simp_all
  have G: "getbits bs start (int n) = getbits_loop bs (8 * Suc i) (int n - int (8 - j)) (of_nat (take_bit (8 - j) (unat ?b)))"
    unfolding getbits_def st(1) unfolding st(2,3) r using s i by simp
  have d: "drop start (buffer_bits bs) = drop j (byte_bits ?b) @ drop (8 * Suc i) (buffer_bits bs)"
  proof -
    have "drop start (buffer_bits bs) = drop j (drop (8 * i) (buffer_bits bs))" by (simp add: s(1) add.commute)
    then show ?thesis using s(3) by (simp add: take_concat_bytes [OF i] del: mult_Suc_right)
  qed
  show ?thesis
  proof (cases "8 - j \<le> n")
    case True
    have t: "take n (drop start (buffer_bits bs)) = take (8 - j) (drop j (byte_bits ?b)) @ take (n - (8 - j)) (drop (8 * Suc i) (buffer_bits bs))"
      unfolding d using True by simp
    have h: "horner 0 (take (8 - j) (drop j (byte_bits ?b))) = take_bit (8 - j) (unat ?b)"
      using horner_byte [of j "8 - j" 0 ?b] s by simp
    have m: "int n - int (8 - j) = int (n - (8 - j))" using True by (simp only: of_nat_diff)
    show ?thesis unfolding G t foldl_append h m using True assms s by (intro getbits_loop_value) simp
  next
    case False
    have "take n (drop start (buffer_bits bs)) = take n (drop j (byte_bits ?b))" unfolding d using False by simp
    then have h: "horner 0 (take n (drop start (buffer_bits bs))) = take_bit n (drop_bit (8 - j - n) (unat ?b))"
      using horner_byte [of j n 0 ?b] False by simp
    have "take_bit (8 - j) (unat ?b) < 2 ^ 32" by (rule le_less_trans [OF take_bit_nat_less_eq_self], rule less_trans [OF u8_lt_256]) simp
    then have "drop_bit (8 - j - n) (of_nat (take_bit (8 - j) (unat ?b)) :: u32) = of_nat (drop_bit (8 - j - n) (take_bit (8 - j) (unat ?b)))"
      by (simp add: word_unat_eq_iff unsigned_drop_bit_eq unsigned_of_nat take_bit_nat_eq_self drop_bit_take_bit)
    moreover have m: "int n - int (8 - j) = - int (8 - j - n)" using False by (simp only: of_nat_diff)
    ultimately show ?thesis unfolding G h m getbits_loop_neg using False by (simp add: drop_bit_take_bit)
  qed
qed

section \<open>Properties\<close>

definition first_address :: "sd_state \<Rightarrow> u32 \<Rightarrow> u32" where
  "first_address s sector = (if cardtype s = CARD_MMCSD then push_bit 9 sector else sector)"

text \<open>
  A card that sends a sector of zeros with a wrong checksum and then with the right one, and one that accepts a sector.
\<close>

definition slow_card :: sd_env where
  "slow_card = \<lparr>miso = (\<lambda>n. if n = 7 \<or> n = 532 then 0xfe else if n = 520 then 1 else 0), clock = (\<lambda>_. 0),
     detect = (\<lambda>_. True), wprot = (\<lambda>_. False)\<rparr>"

definition ready_card :: sd_env where
  "ready_card = \<lparr>miso = (\<lambda>n. if n = 522 \<or> n = 523 then 5 else 0), clock = (\<lambda>_. 0), detect = (\<lambda>_. True), wprot = (\<lambda>_. False)\<rparr>"

definition sd0 :: sd_state where
  "sd0 = \<lparr>exchanges = 0, mosi = [], spi_device = 0, spi_fast = True, sd_led = False, cardtype = CARD_SDHC, card_state = DISK_OK\<rparr>"

lemma sd0_simps [simp]: "exchanges sd0 = 0" "cardtype sd0 = 1" "logged sd0"
  by (simp_all add: sd0_def logged_def)

lemma crc_zeros: "foldl crc_xmodem_update 0 (replicate n 0) = 0"
proof -
  have "(crc_xmodem_bit ^^ m) 0 = 0" for m by (induction m) (simp_all add: crc_xmodem_bit_def)
  then show ?thesis by (induction n) (simp_all add: crc_xmodem_update_def)
qed

lemma answers_at_once:
  assumes "miso e (p + 6) = 0" "miso e (p + 7) = 0xfe" "map (miso e) [p + 8..<p + 520] = data" "q = p + 525"
    "good \<longleftrightarrow> push_bit 8 (ucast (miso e (p + 520))) OR ucast (miso e (p + 521)) = foldl crc_xmodem_update 0 data"
  shows "answers e p data good q"
  unfolding answers_def using assms by (intro exI [of _ 0]) simp

lemma slow_card_zeros: "p = 0 \<or> p = 525 \<Longrightarrow> map (miso slow_card) [p + 8..<p + 520] = replicate 512 0"
proof -
  assume "p = 0 \<or> p = 525"
  then have "map (miso slow_card) [p + 8..<p + 520] = map (\<lambda>_. 0) [p + 8..<p + 520]" by (intro map_cong) (auto simp: slow_card_def)
  also have "\<dots> = replicate 512 0" by (simp only: map_replicate_const length_upt) simp
  finally show ?thesis .
qed

lemma slow_card_answers: "answers slow_card 0 (replicate 512 0) False 525" "answers slow_card 525 (replicate 512 0) True 1050"
  by (rule answers_at_once, simp add: slow_card_def, simp add: slow_card_def, rule slow_card_zeros, simp, simp, simp only: crc_zeros,
      simp add: slow_card_def)+

lemma slow_card_arrives: "sectors_arrive slow_card 0 [replicate 512 0] 1050" "prompt slow_card 0 q"
proof -
  have n: "CONFIG_SD_AUTO_RETRIES = Suc (Suc 8)" by simp
  show "sectors_arrive slow_card 0 [replicate 512 0] 1050"
    by (rule next_arrives, unfold n, rule damaged [OF slow_card_answers(1)], rule arrived [OF slow_card_answers(2)], rule all_arrived)
  show "prompt slow_card 0 q" by (simp add: prompt_def slow_card_def time_before_def)
qed

text \<open>
  C4. No damaged sector is delivered.  Whatever the card sends: when \<open>sd_read\<close> reports success, each sector in the
  buffer was requested by a read command with the address of this sector, came in after a start token, and was
  followed by its checksum; a block that differs from it in one byte has another checksum and would have been refused.
\<close>

theorem sd_read_intact:
  assumes "sd_read e drv buffer sector count s = Some (RES_OK, buffer', s')" "logged s" "512 * unat count \<le> length buffer"
  shows "length buffer' = length buffer \<and>
    (\<forall>i < unat count. \<exists>addr. card_address (cardtype s) (first_address s sector) i = Some addr \<and>
       received e addr (take 512 (drop (512 * i) buffer')) s' \<and>
       (\<forall>k < 512. \<forall>b. b \<noteq> take 512 (drop (512 * i) buffer') ! k \<longrightarrow>
          foldl crc_xmodem_update 0 ((take 512 (drop (512 * i) buffer'))[k := b]) \<noteq>
          foldl crc_xmodem_update 0 (take 512 (drop (512 * i) buffer'))))"
proof -
  have d: "drv = 0" using assms(1) by (auto simp: sd_read_def not_le split: if_splits)
  have r: "read_sectors e 0 (first_address s sector) 0 (unat count) buffer s = Some (RES_OK, buffer', s')"
    using assms(1) by (simp add: sd_read_def first_address_def d)
  have t: "length buffer' = length buffer" "\<And>i. i < unat count \<Longrightarrow> \<exists>addr. card_address (cardtype s) (first_address s sector) i = Some addr \<and>
       received e addr (take 512 (drop (512 * i) buffer')) s'"
    using read_sectors_trace [OF r assms(2)] assms(3) by simp_all
  have crc: "foldl crc_xmodem_update 0 (xs[k := b]) \<noteq> foldl crc_xmodem_update 0 xs" if "k < length xs" "b \<noteq> xs ! k" for xs k b
    using crc_one_byte [of b "xs ! k" 0 "take k xs" "drop (Suc k) xs"] that
    by (simp add: upd_conv_take_nth_drop id_take_nth_drop [OF that(1), symmetric])
  have l: "length (take 512 (drop (512 * i) buffer')) = 512" if "i < unat count" for i
    using that assms(3) t(1) by simp
  show ?thesis using t crc l by metis
qed

theorem sd_read_intact_witness:
  "\<exists>buffer' s'. sd_read slow_card 0 (replicate 512 7) 5 1 sd0 = Some (RES_OK, buffer', s') \<and> received slow_card 5 (take 512 buffer') s'"
proof -
  have "\<forall>i < length [replicate 512 (0 :: u8)]. card_address (cardtype sd0) 5 (0 + i) \<noteq> None" by (simp add: card_address_def)
  then obtain s' where "read_sectors slow_card 0 5 0 1 (replicate 512 7) sd0 = Some (RES_OK, put_at 0 (replicate 512 0) (replicate 512 7), s')"
    using read_sectors_arrive [OF slow_card_arrives(1) _ slow_card_arrives(2), of sd0 0 "replicate 512 7" 5] by auto
  then have r: "sd_read slow_card 0 (replicate 512 7) 5 1 sd0 = Some (RES_OK, put_at 0 (replicate 512 0) (replicate 512 7), s')"
    by (simp add: sd_read_def)
  from sd_read_intact [OF this] show ?thesis using r by (auto simp: card_address_def first_address_def)
qed

text \<open>
  C5. A sector that \<open>sd_write\<close> reports as written was accepted by the card.  Whatever the card sends: on success the
  card was not write protected, and for each sector of the buffer a write command with the address of this sector was
  answered, after which exactly its bytes were sent to the card with their checksum and answered as accepted.
\<close>

theorem sd_write_accepted:
  assumes "sd_write e drv buffer sector count s = Some (RES_OK, s')" "logged s"
  shows "\<not> wprot e (exchanges s) \<and>
    (\<forall>i < unat count. \<exists>addr. card_address (cardtype s) (first_address s sector) i = Some addr \<and>
       accepted e addr (take 512 (drop (512 * i) buffer)) s')"
proof -
  have d: "drv = 0" "\<not> sd_wrprot e s" using assms(1) by (auto simp: sd_write_def not_le split: if_splits)
  have "write_sectors e 0 (first_address s sector) 0 (unat count) buffer s = Some (RES_OK, s')"
    using assms(1) d by (simp add: sd_write_def first_address_def)
  from write_sectors_trace [OF this assms(2)] show ?thesis using d(2) by (simp add: sd_wrprot_def)
qed

theorem sd_write_accepted_witness:
  "\<exists>s'. sd_write ready_card 0 (replicate 512 9) 5 1 sd0 = Some (RES_OK, s') \<and> accepted ready_card 5 (replicate 512 9) s'"
proof -
  define f where "f = send_frame 0 WRITE_BLOCK 5 sd0"
  have f: "exchanges f = 6" "spi_device f = 1" by (simp_all add: f_def send_frame_def)
  have "response_loop ready_card (getticks ready_card f + CARD_TIMEOUT_TICKS) f = Some (0, wait (Suc 0) f)"
    by (rule response_loop_waits) (simp_all add: f ready_card_def getticks_def time_before_def)
  moreover have r: "CONFIG_SD_AUTO_RETRIES = Suc 9" by simp
  ultimately have c: "send_command ready_card 0 WRITE_BLOCK 5 sd0 = Some (0, wait 1 f)"
    unfolding send_command_def r command_loop_Suc f_def [symmetric] by simp
  have b: "busy_loop ready_card t = Some (5, wait 1 t)" if "exchanges t = 523" for t
    by (subst busy_loop.simps) (simp add: spi_rx_byte_wait that ready_card_def)
  have "\<exists>s'. write_sector ready_card 0 5 (Suc 9) (replicate 512 9) sd0 = Some (RES_OK, s')"
    unfolding write_sector.simps c
    by (simp add: spi_tx_byte_trace spi_tx_block_trace spi_select_device_def spi_rx_byte_wait f ready_card_def [THEN arg_cong [of _ _ miso]] b Let_def)
  then obtain s' where "write_sector ready_card 0 5 CONFIG_SD_AUTO_RETRIES (replicate 512 9) sd0 = Some (RES_OK, s')" unfolding r by blast
  then have "sd_write ready_card 0 (replicate 512 9) 5 1 sd0 = Some (RES_OK, s')"
    by (simp add: sd_write_def sd_wrprot_def ready_card_def [THEN arg_cong [of _ _ wprot]] card_address_def)
  with sd_write_accepted [OF this] show ?thesis by (simp add: card_address_def first_address_def)
qed

text \<open>
  C18. Reading succeeds as long as the card answers in time and each sector arrives undamaged in one of ten attempts:
  \<open>sd_read\<close> then returns, and the buffer holds the sectors in their order.
\<close>

theorem sd_read_succeeds:
  assumes "sectors_arrive e (exchanges s) ds q" "prompt e (exchanges s) q" "length ds = unat count" "512 * unat count \<le> length buffer"
    "cardtype s AND CARD_SDHC \<noteq> 0 \<or> count \<le> 64"
  shows "\<exists>s'. sd_read e 0 buffer sector count s = Some (RES_OK, concat ds @ drop (512 * unat count) buffer, s') \<and> exchanges s' = q"
proof -
  have "card_address (cardtype s) (first_address s sector) (0 + i) \<noteq> None" if "i < length ds" for i
    using assms(3,5) that by (auto simp: card_address_def word_le_nat_alt)
  then obtain s' where s': "exchanges s' = q" "read_sectors e 0 (first_address s sector) 0 (length ds) buffer s =
      Some (RES_OK, put_at (512 * 0) (concat ds) buffer, s')"
    using read_sectors_arrive [OF assms(1) refl assms(2), of 0 buffer "first_address s sector"] assms(3,4) by auto
  have "length (concat ds) = 512 * length ds" using assms(1)
    by (induction rule: sectors_arrive.induct) (simp_all add: length_sector_arrives)
  then have "put_at (512 * 0) (concat ds) buffer = concat ds @ drop (512 * unat count) buffer" using assms(3) by (simp add: put_at_def)
  then show ?thesis using s' assms(3) by (simp add: sd_read_def first_address_def)
qed

theorem sd_read_succeeds_witness:
  "\<exists>s'. sd_read slow_card 0 (replicate 600 7) 5 1 sd0 = Some (RES_OK, replicate 512 0 @ replicate 88 7, s') \<and> exchanges s' = 1050"
  using sd_read_succeeds [of slow_card sd0 "[replicate 512 0]" 1050 1 "replicate 600 7" 5] slow_card_arrives by simp



end
