(* ===== verification/Spec2Isabelle.thy ===== *)
theory Spec2Isabelle
  imports Eepromfs_Props Parser_Props P00cache Buffers_Props Eefs_Ops D64_Format D64_Sector D64_Bam_Props Eeprom_Conf
    Dir_List Command_Props Copy_Props Clock_Props Softrtc_Props Fatops_Props Sdcard_Props
begin

text \<open>
  A verification library for NODISKEMU, the firmware of the petSD and petSD+ devices that
  give Commodore computers with an IEEE-488 bus access to SD cards.  All paths below are
  under \<^verbatim>\<open>src/src\<close>.

  \<^bold>\<open>The program.\<close>  The bus driver (\<^verbatim>\<open>ieee.c\<close>) receives LISTEN, TALK, OPEN and CLOSE and moves bytes
  between the bus and buffers (\<^verbatim>\<open>buffers.c\<close>).  A buffer carries callbacks that refill it, write it
  back or clean up.  A name sent with OPEN is taken apart by \<^verbatim>\<open>parser.c\<close> and opened by \<^verbatim>\<open>fileops.c\<close>;
  a line sent to the command channel is carried out by \<^verbatim>\<open>doscmd.c\<close>; results are reported on the
  error channel (\<^verbatim>\<open>errormsg.c\<close>).  Tables of operations (\<^verbatim>\<open>wrapops.h\<close>) connect them with three file
  systems: FAT directories (\<^verbatim>\<open>fatops.c\<close> on top of FatFs, which reads sectors through \<^verbatim>\<open>sdcard.c\<close>),
  CBM disk images inside FAT files (\<^verbatim>\<open>d64ops.c\<close>), and a small file system in the EEPROM of the
  controller (\<^verbatim>\<open>eeprom-fs.c\<close>, reached through \<^verbatim>\<open>eefs-ops.c\<close>).  Clock drivers stamp files and
  answer the time commands.

  \<^bold>\<open>How it is modelled.\<close>  The configuration is that of petSD+ (32 buffers, 100 byte error
  buffer, two partitions, one SD card).  The state is one record that grows along the components:
  \<open>eefs_state\<close>, \<open>fw\<close> (theory \<open>Fw_State\<close>), \<open>conf\<close>, \<open>drive\<close>, and from there \<open>bus\<close> and \<open>fatdrive\<close>.
  Every operation is a function from the state to an optional result and state.  \<open>None\<close> is
  undefined behaviour of the C code: a null pointer, an access outside an array, or a loop that
  never ends.  Bytes and 16 or 32 bit integers are words, so all wrap-around is that of the C
  code.  Pointers to buffers are indices; a callback is a value of a datatype and is run by a
  dispatcher.  C strings are byte lists.  FatFs is seen through its interface: an open file is
  contents, size and position, \<open>io_script\<close> prescribes for each call whether it succeeds, fails
  with a result code, or transfers less, and the calls on a volume are a record of functions that
  is a parameter.  The SD card is an arbitrary trace of received bytes and tick counts, a clock
  chip a pair of register transfers.

  \<^bold>\<open>Theories and sources.\<close>

  \<^item> \<open>Prelude\<close>: word types, memory blocks, bitmaps in byte arrays, C strings.

  \<^item> \<open>Eepromfs\<close>: all of \<^verbatim>\<open>eeprom-fs.c\<close>, with directory entries and sectors in a byte memory and the
    bitmaps \<open>used_sectors\<close>, \<open>used_entries\<close>.  \<open>Eepromfs_Layout\<close>, \<open>_Inv\<close>, \<open>_Write\<close>, \<open>_Io\<close>, \<open>_Read\<close>, \<open>_Dir\<close>,
    \<open>_Del\<close>, \<open>_Mount\<close>: the representation invariant \<open>fs_ok\<close> and the effect of each operation.
    \<open>Eepromfs_Store\<close>: the locale \<open>byte_store\<close>, a store of named byte strings that survives a power
    cycle, and its interpretation on the operations.  \<open>Eepromfs_Props\<close>: C3, C13 to C15, C25 to C27.

  \<^item> \<open>Utils\<close>: \<^verbatim>\<open>utils.c\<close> and the character and FAT name functions of \<^verbatim>\<open>fatops.c\<close>.  \<open>Parser\<close>: pattern
    matching, partition numbers and dates of \<^verbatim>\<open>parser.c\<close>.  \<open>Parser_Props\<close>: C17 and round trips of
    numbers, dates and characters.  \<open>P00cache\<close>: \<^verbatim>\<open>p00cache.c\<close>.

  \<^item> \<open>Errormsg\<close>: the message tables and the text of \<^verbatim>\<open>errormsg.c\<close>.  \<open>Buffers\<close>: \<^verbatim>\<open>buffers.c\<close>.
    \<open>Buffers_Props\<close>: the invariant \<open>bufs_ok\<close>, the step relation \<open>buf_step\<close> with its reachable
    states, C16, C28.

  \<^item> \<open>Ffile\<close>: \<open>parse_error\<close>, \<open>image_read\<close>, \<open>image_write\<close> of \<^verbatim>\<open>fatops.c\<close>; \<open>Ffile_Props\<close>: their effect
    without medium errors.

  \<^item> \<open>D64\<close>, \<open>D64_File\<close>, \<open>D64_Ops\<close>, \<open>D64_Format\<close>: all of \<^verbatim>\<open>d64ops.c\<close> in its order: geometry, checked
    reads, the BAM window and allocation; choice of sectors, directory traversal, buffer
    callbacks; mount, directory and file operations; subdirectories and formatting.
    \<open>D64_Geometry\<close>, \<open>D64_Sector\<close>: sector numbers against the count of sectors before, raw sectors as
    an array, C9, C29.  \<open>D64_Bam\<close>: the two cached BAM sectors, with the invariant \<open>cache_ok\<close> and
    \<open>bam_view\<close>, the contents of the BAM seen through the cache.  \<open>D64_Alloc\<close>: the places of bits and
    counters in the BAM and the effect of allocating and freeing on the set of free sectors.
    \<open>D64_Free\<close>: exact counters, counting of bits, the locale \<open>sector_pool\<close> with its
    interpretation.  \<open>D64_First\<close>: the search for the first sector of a file.
    \<open>D64_Bam_Props\<close>: C7, C8, C30 to C33.

  \<^item> \<open>Eefs_Ops\<close>: all of \<^verbatim>\<open>eefs-ops.c\<close>, which connects buffers and EEPROM files.

  \<^item> \<open>Eeprom_Conf\<close>: \<^verbatim>\<open>eeprom-conf.c\<close>, the settings that share the EEPROM with the file system, C34
    and C35.

  \<^item> \<open>Wrapops\<close>: the operation tables of \<^verbatim>\<open>wrapops.h\<close> and the state of the command channel.  \<open>Match\<close>:
    the directory part of \<^verbatim>\<open>parser.c\<close>.  \<open>Fileops\<close>: all of \<^verbatim>\<open>fileops.c\<close>.  \<open>Doscmd_Disk\<close>, \<open>Doscmd_System\<close>: all of
    \<^verbatim>\<open>doscmd.c\<close>.  \<open>Ieee\<close>: the protocol part of \<^verbatim>\<open>ieee.c\<close> as an automaton on bus events.

  \<^item> \<open>Eefs_Frame\<close>, \<open>Channel\<close>, \<open>Eefs_Chan\<close>, \<open>Dir_Search\<close>, \<open>Eefs_Session\<close>, \<open>Bus_Session\<close>: what the operations
    leave alone, channels that read or write an EEPROM file, the search for a file, the bus events
    of a session.  \<open>Bus_Props\<close>: saving and loading over the bus, C1, C11.  \<open>Dir_List\<close>: the directory as a
    BASIC program, C6.  \<open>Status_Chan\<close>: the error channel, C10.  \<open>Command_Props\<close>: refused commands, C12.
    \<open>Copy_Props\<close>: copying to a full directory, C23.

  \<^item> \<open>Calendar\<close>: the Gregorian calendar.  \<open>Clock_Props\<close>: the time commands, C21, C24.  \<open>Rtc\<close>: the clock drivers
    \<^verbatim>\<open>ds1307-3231.c\<close>, \<^verbatim>\<open>pcf8583.c\<close>, \<^verbatim>\<open>lpc17xx/rtc_lpc17xx.c\<close>, \<^verbatim>\<open>avr/softrtc.c\<close> and \<^verbatim>\<open>rtc.c\<close>.  \<open>Rtc_Props\<close>: the locale
    \<open>settable_clock\<close>, interpreted on both chips, C22.  \<open>Softrtc_Props\<close>: the software clock against the
    calendar, C36, C37.

  \<^item> \<open>Fatops\<close>: the file, directory and mount operations of \<^verbatim>\<open>fatops.c\<close>.  \<open>Fatops_Props\<close>: files written and
    read through a buffer, directory entries, names of new files, C2, C19, C20, C38, C39.

  \<^item> \<open>Sdcard\<close>: all of \<^verbatim>\<open>sdcard.c\<close> with the byte exchange of \<^verbatim>\<open>avr/spi.c\<close> and the checksums.  \<open>Sdcard_Props\<close>:
    transfers for all traces of a card, C4, C5, C18, C40.

  \<^bold>\<open>Loops.\<close>  Loops over arrays are structural recursion.  Loops whose end depends on data
  (sector chains, the searches for a track or a file name, waiting for a card) are \<open>partial_function\<close> in the option
  type, so that a theorem with result \<open>Some\<close> includes that they end.  The loops of the EEPROM file system carry fuel: one round per byte
  and one more for reading and writing, 256 rounds where entry numbers are followed.  The
  theorems on them state that they return, so the fuel is enough.

  \<^bold>\<open>What is shown.\<close>  A file that is saved over the bus is stored and comes back byte for byte, a
  missing or existing file is refused with its error, and the directory, the error channel and
  refused commands behave as the protocol wants.  The EEPROM file system is a persistent map from
  names to byte strings.  Files on FAT partitions are written and read through buffers without loss.
  A successful transfer from or to the SD card was undamaged, whatever the card sends.  Pattern
  matching agrees with the meaning of patterns.  The buffer pool keeps its accounts.  Images have
  sound geometry except D80 and D82, whose last zone overlaps; the BAM cache cannot be observed;
  allocation changes one sector at a time and the counters stay exact; the first sector of a file
  is the one nearest to the directory.  Settings survive a restart and leave the EEPROM files
  alone.  Clocks give back the time they were set to.  Several theorems state what the code does
  where it differs from its intention; they are among the findings of the manifest.

  \<^bold>\<open>Not modelled.\<close>  FatFs itself is third-party code and is used through its interface.  The
  sessions over the bus are proved for the EEPROM partition; the dispatchers of the bus do not run
  the callbacks of FAT files, which are run by \<open>fat_refill\<close> and \<open>fat_cleanup\<close>.  The port and interrupt
  code of the IEEE-488 bus, the serial bus and its fast loaders, the ATA driver, the network
  controller, menu and display, the startup code and the firmware of the display boards work on
  device registers and timing.  Swap lists (\<^verbatim>\<open>diskchange.c\<close>) are not part of the build.
\<close>

end
